(* ===== verification/Prelude.thy ===== *)
theory Prelude
  imports
    "HOL-Library.Word"
    "HOL-Library.Char_ord"
    "HOL-Library.List_Lexorder"
    "HOL-Library.Product_Lexorder"
    "HOL-Library.AList"
begin

text \<open>
  The vocabulary every component of the development shares:
  \<^item> Rust's integers, bytes and strings (a \<^verbatim>\<open>String\<close> is its UTF-8 bytes, one \<^typ>\<open>char\<close>
    per byte; a \<^verbatim>\<open>[u8]\<close> is a list of 8-bit words);
  \<^item> \<^verbatim>\<open>Result\<close> as a sum (\<open>Inl\<close> the error) with the combinators that stand for \<^verbatim>\<open>?\<close>,
    \<^verbatim>\<open>map_err\<close> and \<^verbatim>\<open>ok_or\<close>;
  \<^item> fallible stateful code as functions \<open>'w \<Rightarrow> ('e + 'a) \<times> 'w\<close> with the frame rules that
    say which part of the state a computation leaves alone;
  \<^item> the two interfaces several components share: a codec (an encoder with a strict
    decoder) and a dictionary (\<^verbatim>\<open>BTreeMap\<close>), as locales.
\<close>

unbundle bit_operations_syntax

named_theorems result_simps \<open>unfolding of the error-result combinators\<close>
named_theorems io_simps \<open>unfolding of the stateful combinators\<close>
named_theorems frame_intros \<open>which computations leave a view of the state alone\<close>

type_synonym u8 = "8 word"
type_synonym u32 = "32 word"
type_synonym u64 = "64 word"
type_synonym bytes = "u8 list"

section \<open>Bytes and characters\<close>

definition byte_of_char :: "char \<Rightarrow> u8" where
  "byte_of_char c = word_of_nat (of_char c)"

definition char_of_byte :: "u8 \<Rightarrow> char" where
  "char_of_byte b = char_of (unat b)"

definition as_bytes :: "string \<Rightarrow> bytes" where
  "as_bytes s = map byte_of_char s"

definition string_of_bytes :: "bytes \<Rightarrow> string" where
  "string_of_bytes bs = map char_of_byte bs"

lemma unat_byte_of_char [simp]: "unat (byte_of_char c) = of_char c"
proof -
  have "of_char c < (256::nat)" by simp
  then show ?thesis by (simp add: byte_of_char_def unat_of_nat take_bit_nat_eq_self)
qed

lemma char_of_byte_of_char [simp]: "char_of_byte (byte_of_char c) = c"
  by (simp add: char_of_byte_def)

lemma byte_of_char_of_byte [simp]: "byte_of_char (char_of_byte b) = b"
proof -
  have "unat b < 256" using unsigned_less [of b] by simp
  then show ?thesis by (simp add: byte_of_char_def char_of_byte_def)
qed


lemma length_as_bytes [simp]: "length (as_bytes s) = length s"
  by (simp add: as_bytes_def)

lemma as_bytes_Nil [simp]: "as_bytes [] = []"
  by (simp add: as_bytes_def)

lemma as_bytes_append [simp]: "as_bytes (s @ t) = as_bytes s @ as_bytes t"
  by (simp add: as_bytes_def)

lemma string_of_as_bytes [simp]: "string_of_bytes (as_bytes s) = s"
  by (simp add: as_bytes_def string_of_bytes_def comp_def)

lemma as_bytes_of_string [simp]: "as_bytes (string_of_bytes bs) = bs"
  by (simp add: as_bytes_def string_of_bytes_def comp_def)

lemma as_bytes_inj [simp]: "as_bytes s = as_bytes t \<longleftrightarrow> s = t"
  by (metis string_of_as_bytes)

text \<open>Splitting at a separator that the first part does not contain.\<close>

lemma split_at_separator:
  "s \<notin> set x \<Longrightarrow> s \<notin> set x' \<Longrightarrow> x @ s # y = x' @ s # y' \<longleftrightarrow> x = x' \<and> y = y'"
proof (induction x arbitrary: x')
  case Nil
  then show ?case by (cases x') auto
next
  case (Cons a x)
  then show ?case by (cases x') auto
qed

section \<open>Results\<close>

text \<open>Rust's \<^verbatim>\<open>?\<close>, \<^verbatim>\<open>map_err\<close> and \<^verbatim>\<open>ok_or\<close>.\<close>

definition bind_res :: "'e + 'a \<Rightarrow> ('a \<Rightarrow> 'e + 'b) \<Rightarrow> 'e + 'b" where
  "bind_res r k = (case r of Inl e \<Rightarrow> Inl e | Inr a \<Rightarrow> k a)"

definition map_err :: "('e \<Rightarrow> 'f) \<Rightarrow> 'e + 'a \<Rightarrow> 'f + 'a" where
  "map_err f r = (case r of Inl e \<Rightarrow> Inl (f e) | Inr a \<Rightarrow> Inr a)"

definition ok_or :: "'e \<Rightarrow> 'a option \<Rightarrow> 'e + 'a" where
  "ok_or e x = (case x of None \<Rightarrow> Inl e | Some a \<Rightarrow> Inr a)"

definition ok :: "'e + 'a \<Rightarrow> 'a option" where
  "ok r = (case r of Inl _ \<Rightarrow> None | Inr a \<Rightarrow> Some a)"

lemma bind_res_Inl [simp]: "bind_res (Inl e) k = Inl e"
  by (simp add: bind_res_def)

lemma bind_res_Inr [simp]: "bind_res (Inr a) k = k a"
  by (simp add: bind_res_def)

lemma bind_res_eq_Inr: "bind_res r k = Inr b \<longleftrightarrow> (\<exists>a. r = Inr a \<and> k a = Inr b)"
  by (cases r) auto

lemma bind_res_eq_Inl: "bind_res r k = Inl e \<longleftrightarrow> r = Inl e \<or> (\<exists>a. r = Inr a \<and> k a = Inl e)"
  by (cases r) auto

lemma map_err_simps [simp]:
  "map_err f (Inl e) = Inl (f e)"
  "map_err f (Inr a) = Inr a"
  by (simp_all add: map_err_def)

lemma map_err_eq_Inr [simp]: "map_err f r = Inr a \<longleftrightarrow> r = Inr a"
  by (cases r) auto

lemma map_err_eq_Inl: "map_err f r = Inl e \<longleftrightarrow> (\<exists>e'. r = Inl e' \<and> e = f e')"
  by (cases r) auto

lemma ok_or_simps [simp]:
  "ok_or e None = Inl e"
  "ok_or e (Some a) = Inr a"
  by (simp_all add: ok_or_def)

lemma ok_or_eq_Inr [simp]: "ok_or e x = Inr a \<longleftrightarrow> x = Some a"
  by (cases x) auto

lemma ok_or_eq_Inl [simp]: "ok_or e x = Inl e' \<longleftrightarrow> x = None \<and> e' = e"
  by (cases x) auto

lemma ok_simps [simp]:
  "ok (Inl e) = None"
  "ok (Inr a) = Some a"
  by (simp_all add: ok_def)

lemma ok_eq_Some [simp]: "ok r = Some a \<longleftrightarrow> r = Inr a"
  by (cases r) auto

lemmas [result_simps] = bind_res_eq_Inr bind_res_eq_Inl map_err_eq_Inl

section \<open>Stateful computations that may fail\<close>

type_synonym ('w, 'e, 'a) io = "'w \<Rightarrow> ('e + 'a) \<times> 'w"

definition io_ok :: "'a \<Rightarrow> ('w, 'e, 'a) io" where
  "io_ok a = (\<lambda>w. (Inr a, w))"

definition io_err :: "'e \<Rightarrow> ('w, 'e, 'a) io" where
  "io_err e = (\<lambda>w. (Inl e, w))"

definition io_res :: "'e + 'a \<Rightarrow> ('w, 'e, 'a) io" where
  "io_res r = (\<lambda>w. (r, w))"

text \<open>\<open>io_bind m k\<close> is Rust's \<^verbatim>\<open>let x = m?; k(x)\<close>; \<open>io_case m k\<close> hands the whole result on,
  as a \<^verbatim>\<open>match\<close> does.\<close>

definition io_bind :: "('w, 'e, 'a) io \<Rightarrow> ('a \<Rightarrow> ('w, 'e, 'b) io) \<Rightarrow> ('w, 'e, 'b) io" where
  "io_bind m k = (\<lambda>w. case m w of (Inl e, w') \<Rightarrow> (Inl e, w') | (Inr a, w') \<Rightarrow> k a w')"

definition io_case :: "('w, 'e, 'a) io \<Rightarrow> ('e + 'a \<Rightarrow> ('w, 'f, 'b) io) \<Rightarrow> ('w, 'f, 'b) io" where
  "io_case m k = (\<lambda>w. case m w of (r, w') \<Rightarrow> k r w')"

definition io_map_err :: "('e \<Rightarrow> 'f) \<Rightarrow> ('w, 'e, 'a) io \<Rightarrow> ('w, 'f, 'a) io" where
  "io_map_err f m = (\<lambda>w. case m w of (r, w') \<Rightarrow> (map_err f r, w'))"

lemma io_simps_basic [simp]:
  "io_ok a w = (Inr a, w)"
  "io_err e w = (Inl e, w)"
  "io_res r w = (r, w)"
  by (simp_all add: io_ok_def io_err_def io_res_def)

lemma io_bind_pure [simp]:
  "io_bind (io_ok a) k = k a"
  "io_bind (io_res (Inr a)) k = k a"
  "io_bind (io_res (Inl e)) k = io_err e"
  by (simp_all add: io_bind_def io_err_def)

lemma io_bind_apply [io_simps]:
  "io_bind m k w = (case m w of (Inl e, w') \<Rightarrow> (Inl e, w') | (Inr a, w') \<Rightarrow> k a w')"
  by (simp add: io_bind_def)

lemma io_case_apply [io_simps]: "io_case m k w = (case m w of (r, w') \<Rightarrow> k r w')"
  by (simp add: io_case_def)

lemma io_map_err_apply [io_simps]:
  "io_map_err f m w = (case m w of (r, w') \<Rightarrow> (map_err f r, w'))"
  by (simp add: io_map_err_def)

lemma io_bind_eq_Inr:
  "io_bind m k w = (Inr b, w'') \<longleftrightarrow> (\<exists>a w'. m w = (Inr a, w') \<and> k a w' = (Inr b, w''))"
  by (auto simp: io_bind_def split: prod.splits sum.splits)

lemma io_bind_eq_Inl:
  "io_bind m k w = (Inl e, w'') \<longleftrightarrow>
     m w = (Inl e, w'') \<or> (\<exists>a w'. m w = (Inr a, w') \<and> k a w' = (Inl e, w''))"
  by (auto simp: io_bind_def split: prod.splits sum.splits)

lemma io_map_err_eq_Inr: "io_map_err f m w = (Inr a, w') \<longleftrightarrow> m w = (Inr a, w')"
  by (auto simp: io_map_err_def split: prod.splits)

lemma io_map_err_eq_Inl: "io_map_err f m w = (Inl e, w') \<longleftrightarrow> (\<exists>e'. m w = (Inl e', w') \<and> e = f e')"
  by (auto simp: io_map_err_def map_err_eq_Inl split: prod.splits)

lemma io_case_eq: "io_case m k w = (r, w'') \<longleftrightarrow> (\<exists>x w'. m w = (x, w') \<and> k x w' = (r, w''))"
  by (auto simp: io_case_def split: prod.splits)

lemmas io_eqs = io_bind_eq_Inr io_bind_eq_Inl io_map_err_eq_Inr io_map_err_eq_Inl io_case_eq

subsection \<open>Frames\<close>

text \<open>\<open>frame v m\<close>: running \<open>m\<close>, whatever it answers, leaves the view \<open>v\<close> of the state as it
  was. \<open>keeps I m\<close>: it keeps the invariant \<open>I\<close>. A frame is proved by following the shape of
  the computation with the rules in \<open>frame_intros\<close>.\<close>

definition frame :: "('w \<Rightarrow> 'v) \<Rightarrow> ('w, 'e, 'a) io \<Rightarrow> bool" where
  "frame v m \<longleftrightarrow> (\<forall>w. v (snd (m w)) = v w)"

definition keeps :: "('w \<Rightarrow> bool) \<Rightarrow> ('w, 'e, 'a) io \<Rightarrow> bool" where
  "keeps I m \<longleftrightarrow> (\<forall>w. I w \<longrightarrow> I (snd (m w)))"

lemma frameD: "frame v m \<Longrightarrow> m w = (r, w') \<Longrightarrow> v w' = v w"
  by (metis frame_def snd_conv)

lemma keepsD: "keeps I m \<Longrightarrow> I w \<Longrightarrow> m w = (r, w') \<Longrightarrow> I w'"
  by (metis keeps_def snd_conv)

lemma frame_ok [frame_intros]: "frame v (io_ok a)" "frame v (io_err e)" "frame v (io_res r)"
  by (simp_all add: frame_def)

lemma keeps_ok [frame_intros]: "keeps I (io_ok a)" "keeps I (io_err e)" "keeps I (io_res r)"
  by (simp_all add: keeps_def)

lemma frame_bind [frame_intros]:
  assumes "frame v m" and "\<And>a. frame v (k a)"
  shows "frame v (io_bind m k)"
  using assms by (auto simp: frame_def io_bind_def split: prod.splits sum.splits) (metis snd_conv)+

lemma frame_case [frame_intros]:
  assumes "frame v m" and "\<And>r. frame v (k r)"
  shows "frame v (io_case m k)"
  using assms by (simp add: frame_def io_case_def split: prod.splits) (metis snd_conv)

lemma frame_map_err [frame_intros]: "frame v m \<Longrightarrow> frame v (io_map_err f m)"
  by (simp add: frame_def io_map_err_def split: prod.splits) (metis snd_conv)

lemma keeps_bind [frame_intros]:
  assumes "keeps I m" and "\<And>a. keeps I (k a)"
  shows "keeps I (io_bind m k)"
  using assms by (fastforce simp: keeps_def io_bind_def split: prod.splits sum.splits)

lemma keeps_case [frame_intros]:
  assumes "keeps I m" and "\<And>r. keeps I (k r)"
  shows "keeps I (io_case m k)"
  using assms by (simp add: keeps_def io_case_def split: prod.splits) (metis snd_conv)

lemma keeps_map_err [frame_intros]: "keeps I m \<Longrightarrow> keeps I (io_map_err f m)"
  by (simp add: keeps_def io_map_err_def split: prod.splits) (metis snd_conv)

lemma frame_if [frame_intros]: "(b \<Longrightarrow> frame v m) \<Longrightarrow> (\<not> b \<Longrightarrow> frame v n) \<Longrightarrow> frame v (if b then m else n)"
  by simp

lemma keeps_if [frame_intros]: "(b \<Longrightarrow> keeps I m) \<Longrightarrow> (\<not> b \<Longrightarrow> keeps I n) \<Longrightarrow> keeps I (if b then m else n)"
  by simp

lemma frame_option [frame_intros]:
  "(x = None \<Longrightarrow> frame v m) \<Longrightarrow> (\<And>a. x = Some a \<Longrightarrow> frame v (k a)) \<Longrightarrow>
   frame v (case x of None \<Rightarrow> m | Some a \<Rightarrow> k a)"
  by (cases x) simp_all

lemma keeps_option [frame_intros]:
  "(x = None \<Longrightarrow> keeps I m) \<Longrightarrow> (\<And>a. x = Some a \<Longrightarrow> keeps I (k a)) \<Longrightarrow>
   keeps I (case x of None \<Rightarrow> m | Some a \<Rightarrow> k a)"
  by (cases x) simp_all

lemma frame_sum [frame_intros]:
  "(\<And>e. x = Inl e \<Longrightarrow> frame v (m e)) \<Longrightarrow> (\<And>a. x = Inr a \<Longrightarrow> frame v (k a)) \<Longrightarrow>
   frame v (case x of Inl e \<Rightarrow> m e | Inr a \<Rightarrow> k a)"
  by (cases x) simp_all

lemma keeps_sum [frame_intros]:
  "(\<And>e. x = Inl e \<Longrightarrow> keeps I (m e)) \<Longrightarrow> (\<And>a. x = Inr a \<Longrightarrow> keeps I (k a)) \<Longrightarrow>
   keeps I (case x of Inl e \<Rightarrow> m e | Inr a \<Rightarrow> k a)"
  by (cases x) simp_all

section \<open>Codecs\<close>

text \<open>An encoder with a strict decoder: everything valid reads back, and nothing but an
  encoding is read. Both identifiers, the framed blocks and the fingerprints promise this.\<close>

locale codec =
  fixes enc :: "'a \<Rightarrow> 'b"
    and dec :: "'b \<Rightarrow> 'a option"
    and valid :: "'a \<Rightarrow> bool"
  assumes dec_enc: "valid a \<Longrightarrow> dec (enc a) = Some a"
    and enc_dec: "dec b = Some a \<Longrightarrow> valid a \<and> enc a = b"
begin

lemma dec_iff: "dec b = Some a \<longleftrightarrow> valid a \<and> b = enc a"
  using dec_enc enc_dec by blast

lemma enc_inj: "valid a \<Longrightarrow> valid a' \<Longrightarrow> enc a = enc a' \<longleftrightarrow> a = a'"
  using dec_enc by (metis option.inject)

lemma dec_inj: "dec b = Some a \<Longrightarrow> dec b' = Some a \<Longrightarrow> b = b'"
  by (simp add: dec_iff)

lemma dec_None_iff: "dec b = None \<longleftrightarrow> (\<forall>a. valid a \<longrightarrow> b \<noteq> enc a)"
  using dec_iff by (metis not_Some_eq)

end

section \<open>Ordered dictionaries\<close>

text \<open>Rust's \<^verbatim>\<open>BTreeMap\<close> as the sorted list of its entries, so that iterating, serialising and
  taking the last key compute.\<close>

type_synonym ('k, 'v) btree = "('k \<times> 'v) list"

fun bt_insert :: "'k::linorder \<Rightarrow> 'v \<Rightarrow> ('k, 'v) btree \<Rightarrow> ('k, 'v) btree" where
  "bt_insert k v [] = [(k, v)]"
| "bt_insert k v ((k', v') # m) =
     (if k < k' then (k, v) # (k', v') # m
      else if k = k' then (k, v) # m
      else (k', v') # bt_insert k v m)"

definition bt_get :: "('k, 'v) btree \<Rightarrow> 'k \<Rightarrow> 'v option" where
  "bt_get m = map_of m"

definition bt_remove :: "'k \<Rightarrow> ('k, 'v) btree \<Rightarrow> ('k, 'v) btree" where
  "bt_remove k m = filter (\<lambda>e. fst e \<noteq> k) m"

definition bt_ok :: "('k::linorder, 'v) btree \<Rightarrow> bool" where
  "bt_ok m \<longleftrightarrow> sorted_wrt (<) (map fst m)"

lemma set_bt_insert_keys: "fst ` set (bt_insert k v m) = insert k (fst ` set m)"
  by (induction k v m rule: bt_insert.induct) auto

lemma bt_ok_Cons: "bt_ok ((k, v) # m) \<longleftrightarrow> (\<forall>k' \<in> fst ` set m. k < k') \<and> bt_ok m"
  by (auto simp: bt_ok_def)

lemma bt_ok_insert: "bt_ok m \<Longrightarrow> bt_ok (bt_insert k v m)"
proof (induction k v m rule: bt_insert.induct)
  case (2 k v k' v' m)
  consider "k < k'" | "k = k'" | "k' < k" by force
  then show ?case
    using "2.prems" "2.IH" by cases (auto simp: bt_ok_Cons set_bt_insert_keys)
qed (simp add: bt_ok_def)

lemma bt_get_insert: "bt_get (bt_insert k v m) = (bt_get m)(k \<mapsto> v)"
  unfolding bt_get_def by (induction k v m rule: bt_insert.induct) auto

lemma bt_get_remove: "bt_get (bt_remove k m) = (bt_get m)(k := None)"
  unfolding bt_get_def bt_remove_def by (induction m) auto

lemma bt_ok_remove: "bt_ok m \<Longrightarrow> bt_ok (bt_remove k m)"
  unfolding bt_ok_def bt_remove_def by (induction m) auto

locale dictionary =
  fixes empty :: "'m"
    and get :: "'m \<Rightarrow> 'k \<Rightarrow> 'v option"
    and put :: "'k \<Rightarrow> 'v \<Rightarrow> 'm \<Rightarrow> 'm"
    and del :: "'k \<Rightarrow> 'm \<Rightarrow> 'm"
    and inv :: "'m \<Rightarrow> bool"
  assumes get_empty: "get empty k = None"
    and get_put: "get (put k v m) = (get m)(k \<mapsto> v)"
    and get_del: "get (del k m) = (get m)(k := None)"
    and inv_empty: "inv empty"
    and inv_put: "inv m \<Longrightarrow> inv (put k v m)"
    and inv_del: "inv m \<Longrightarrow> inv (del k m)"
begin

lemma get_put_same: "get (put k v m) k = Some v"
  by (simp add: get_put)

lemma get_put_other: "k' \<noteq> k \<Longrightarrow> get (put k v m) k' = get m k'"
  by (simp add: get_put)

lemma get_del_same: "get (del k m) k = None"
  by (simp add: get_del)

lemma get_del_other: "k' \<noteq> k \<Longrightarrow> get (del k m) k' = get m k'"
  by (simp add: get_del)

lemma inv_fold_put: "inv m \<Longrightarrow> inv (fold (\<lambda>(k, v). put k v) kvs m)"
  by (induction kvs arbitrary: m) (auto simp: inv_put)

lemma get_fold_put: "get (fold (\<lambda>(k, v). put k v) kvs m) k =
    (case map_of (rev kvs) k of None \<Rightarrow> get m k | Some v \<Rightarrow> Some v)"
  by (induction kvs arbitrary: m) (auto simp: get_put map_add_def split: option.splits)

end

interpretation bt: dictionary "[]" bt_get bt_insert bt_remove bt_ok
  by unfold_locales
    (simp_all add: bt_get_insert bt_get_remove bt_ok_insert bt_ok_remove, simp_all add: bt_get_def bt_ok_def)

lemmas bt_simps [simp] = bt.get_empty bt.get_put bt.get_del bt.inv_empty

text \<open>Two sorted entry lists with the same lookups are the same list: what makes a rebuilt map
  equal to the one it was rebuilt from.\<close>

lemma bt_get_notin: "bt_get m k = None \<longleftrightarrow> k \<notin> fst ` set m"
  by (simp add: bt_get_def map_of_eq_None_iff)

lemma bt_insert_least: "\<forall>k' \<in> fst ` set m. k < k' \<Longrightarrow> bt_insert k v m = (k, v) # m"
  by (cases m) auto

lemma bt_insert_greatest: "\<forall>k' \<in> fst ` set m. k' < k \<Longrightarrow> bt_insert k v m = m @ [(k, v)]"
  by (induction m) auto

lemma bt_rebuild: "bt_ok (n @ m) \<Longrightarrow> fold (\<lambda>(k, v). bt_insert k v) m n = n @ m"
proof (induction m arbitrary: n)
  case Nil
  then show ?case by simp
next
  case (Cons e m)
  obtain k v where e: "e = (k, v)" by force
  from Cons.prems e have "\<forall>k' \<in> fst ` set n. k' < k"
    by (auto simp: bt_ok_def sorted_wrt_append)
  then have "bt_insert k v n = n @ [(k, v)]" by (rule bt_insert_greatest)
  with Cons.IH [of "n @ [e]"] Cons.prems e show ?case by simp
qed

end
