(* ===== verification/Rust_Std.thy ===== *)
theory Rust_Std
  imports Prelude
begin

text \<open>
  The parts of Rust's standard library the components use, on the representations of the
  prelude: little-endian integers, decimal rendering, UTF-8, \<^verbatim>\<open>str::lines\<close> and
  \<^verbatim>\<open>str::trim\<close>, and Unix paths as their component lists (which is what
  \<^verbatim>\<open>Path\<close>'s equality compares).
\<close>

section \<open>Little-endian integers\<close>

fun le_bytes :: "nat \<Rightarrow> nat \<Rightarrow> bytes" where
  "le_bytes 0 x = []"
| "le_bytes (Suc n) x = word_of_nat x # le_bytes n (x div 256)"

fun le_nat :: "bytes \<Rightarrow> nat" where
  "le_nat [] = 0"
| "le_nat (b # bs) = unat b + 256 * le_nat bs"

lemma length_le_bytes [simp]: "length (le_bytes n x) = n"
  by (induction n arbitrary: x) auto

lemma unat_word8_of_nat: "unat (word_of_nat x :: u8) = x mod 256"
  by (simp add: unat_of_nat)

lemma le_nat_le_bytes: "le_nat (le_bytes n x) = x mod 256 ^ n"
proof (induction n arbitrary: x)
  case 0
  then show ?case by simp
next
  case (Suc n)
  have "x mod (256 * 256 ^ n) = 256 * (x div 256 mod 256 ^ n) + x mod 256"
    by (simp add: mod_mult2_eq)
  with Suc show ?case by (simp add: unat_word8_of_nat)
qed

lemma unat_u8_less: "unat (b :: u8) < 256"
  using unsigned_less [of b] by simp

lemma le_bytes_le_nat: "le_bytes (length bs) (le_nat bs) = bs"
proof (induction bs)
  case Nil
  then show ?case by simp
next
  case (Cons b bs)
  have "unat (word_of_nat (unat b + 256 * le_nat bs) :: u8) = unat b"
    using unat_u8_less [of b] by (simp only: unat_word8_of_nat) simp
  then have "word_of_nat (unat b + 256 * le_nat bs) = b"
    by (simp only: word_unat_eq_iff)
  moreover have "(unat b + 256 * le_nat bs) div 256 = le_nat bs"
    using unat_u8_less [of b] by simp
  ultimately show ?case using Cons by simp
qed

lemma le_nat_less: "le_nat bs < 256 ^ length bs"
proof -
  have "le_nat bs = le_nat bs mod 256 ^ length bs"
    using le_nat_le_bytes [of "length bs" "le_nat bs"] by (simp add: le_bytes_le_nat)
  then show ?thesis by (metis mod_less_divisor zero_less_numeral zero_less_power)
qed

definition u64_to_le_bytes :: "u64 \<Rightarrow> bytes" where
  "u64_to_le_bytes x = le_bytes 8 (unat x)"

definition u64_from_le_bytes :: "bytes \<Rightarrow> u64" where
  "u64_from_le_bytes bs = word_of_nat (le_nat bs)"

definition u32_to_le_bytes :: "u32 \<Rightarrow> bytes" where
  "u32_to_le_bytes x = le_bytes 4 (unat x)"

definition u32_from_le_bytes :: "bytes \<Rightarrow> u32" where
  "u32_from_le_bytes bs = word_of_nat (le_nat bs)"

lemma length_u64_to_le_bytes [simp]: "length (u64_to_le_bytes x) = 8"
  by (simp add: u64_to_le_bytes_def)

lemma length_u32_to_le_bytes [simp]: "length (u32_to_le_bytes x) = 4"
  by (simp add: u32_to_le_bytes_def)

lemma u64_from_to_le [simp]: "u64_from_le_bytes (u64_to_le_bytes x) = x"
proof -
  have "unat x < 256 ^ 8" using unsigned_less [of x] by simp
  then show ?thesis
    by (simp add: u64_from_le_bytes_def u64_to_le_bytes_def le_nat_le_bytes)
qed

lemma u32_from_to_le [simp]: "u32_from_le_bytes (u32_to_le_bytes x) = x"
proof -
  have "unat x < 256 ^ 4" using unsigned_less [of x] by simp
  then show ?thesis
    by (simp add: u32_from_le_bytes_def u32_to_le_bytes_def le_nat_le_bytes)
qed

lemma u64_to_from_le: "length bs = 8 \<Longrightarrow> u64_to_le_bytes (u64_from_le_bytes bs) = bs"
proof -
  assume n: "length bs = 8"
  then have "le_nat bs < 256 ^ 8" using le_nat_less [of bs] by simp
  then have "unat (u64_from_le_bytes bs) = le_nat bs"
    by (simp add: u64_from_le_bytes_def unat_of_nat)
  with n show ?thesis by (metis le_bytes_le_nat u64_to_le_bytes_def)
qed

lemma u32_to_from_le: "length bs = 4 \<Longrightarrow> u32_to_le_bytes (u32_from_le_bytes bs) = bs"
proof -
  assume n: "length bs = 4"
  then have "le_nat bs < 256 ^ 4" using le_nat_less [of bs] by simp
  then have "unat (u32_from_le_bytes bs) = le_nat bs"
    by (simp add: u32_from_le_bytes_def unat_of_nat)
  with n show ?thesis by (metis le_bytes_le_nat u32_to_le_bytes_def)
qed

section \<open>Big-endian integers\<close>

definition u32_to_be_bytes :: "u32 \<Rightarrow> bytes" where
  "u32_to_be_bytes x = rev (u32_to_le_bytes x)"

definition u32_from_be_bytes :: "bytes \<Rightarrow> u32" where
  "u32_from_be_bytes bs = u32_from_le_bytes (rev bs)"

lemma length_u32_to_be_bytes [simp]: "length (u32_to_be_bytes x) = 4"
  by (simp add: u32_to_be_bytes_def)

lemma u32_from_to_be [simp]: "u32_from_be_bytes (u32_to_be_bytes x) = x"
  by (simp add: u32_from_be_bytes_def u32_to_be_bytes_def)

lemma u32_to_from_be [simp]: "length bs = 4 \<Longrightarrow> u32_to_be_bytes (u32_from_be_bytes bs) = bs"
  by (simp add: u32_from_be_bytes_def u32_to_be_bytes_def u32_to_from_le)

section \<open>Slices and collections\<close>

definition split_first_chunk :: "nat \<Rightarrow> 'a list \<Rightarrow> ('a list \<times> 'a list) option" where
  "split_first_chunk n xs = (if n \<le> length xs then Some (take n xs, drop n xs) else None)"

text \<open>\<^verbatim>\<open>slice::chunks\<close>: pieces of \<open>n\<close>, the last possibly shorter; it panics on zero, which
  no caller passes.\<close>

function chunks :: "nat \<Rightarrow> 'a list \<Rightarrow> 'a list list" where
  "chunks n xs = (if n = 0 \<or> xs = [] then [] else take n xs # chunks n (drop n xs))"
  by pat_completeness auto

termination
  by (relation "measure (\<lambda>(n, xs). length xs)") auto

declare chunks.simps [simp del]

text \<open>\<^verbatim>\<open>collect::<Result<Vec<_>, _>>\<close>: the first error stops.\<close>

fun collect_ok :: "('a \<Rightarrow> 'e + 'b) \<Rightarrow> 'a list \<Rightarrow> 'e + 'b list" where
  "collect_ok f [] = Inr []"
| "collect_ok f (x # xs) = bind_res (f x) (\<lambda>y. bind_res (collect_ok f xs) (\<lambda>ys. Inr (y # ys)))"

lemma split_first_chunk_append [simp]:
  "length xs = n \<Longrightarrow> split_first_chunk n (xs @ ys) = Some (xs, ys)"
  by (simp add: split_first_chunk_def)

lemma split_first_chunk_Some:
  "split_first_chunk n xs = Some (a, b) \<longleftrightarrow> xs = a @ b \<and> length a = n"
  by (auto simp: split_first_chunk_def split: if_splits)

lemma chunks_Nil [simp]: "chunks n [] = []"
  by (simp add: chunks.simps)

lemma concat_chunks: "0 < n \<Longrightarrow> concat (chunks n xs) = xs"
  by (induction n xs rule: chunks.induct) (simp add: chunks.simps)

lemma chunks_bounds: "c \<in> set (chunks n xs) \<Longrightarrow> c \<noteq> [] \<and> length c \<le> n"
proof (induction n xs rule: chunks.induct)
  case (1 n xs)
  from "1.prems" have "\<not> (n = 0 \<or> xs = [])" by (auto simp: chunks.simps [of n xs] split: if_splits)
  moreover with "1.prems" have "c = take n xs \<or> c \<in> set (chunks n (drop n xs))"
    by (simp add: chunks.simps [of n xs])
  ultimately show ?case using "1.IH" by auto
qed

lemma length_chunks: "0 < n \<Longrightarrow> length (chunks n xs) = (length xs + n - 1) div n"
proof (induction n xs rule: chunks.induct)
  case (1 n xs)
  show ?case
  proof (cases "xs = []")
    case False
    with 1 have *: "length (chunks n xs) = Suc ((length xs - n + n - 1) div n)"
      by (simp add: chunks.simps [of n xs])
    show ?thesis
    proof (cases "length xs \<le> n")
      case True
      moreover from False obtain m where "length xs = Suc m" by (cases xs) auto
      with True have "(length xs + n - 1) div n = 1"
        by (intro div_nat_eqI) simp_all
      ultimately show ?thesis using * "1.prems" by simp
    next
      case False
      then have "length xs + n - 1 = n + (length xs - n + n - 1)" by simp
      with * "1.prems" show ?thesis by (metis div_add_self1 add.commute Suc_eq_plus1 less_not_refl)
    qed
  qed (use "1.prems" in simp)
qed

lemma collect_ok_set: "collect_ok f xs = Inr ys \<Longrightarrow> y \<in> set ys \<Longrightarrow> \<exists>x \<in> set xs. f x = Inr y"
  by (induction xs arbitrary: ys) (auto simp: bind_res_eq_Inr)

section \<open>Decimal rendering\<close>

text \<open>\<^verbatim>\<open>to_string\<close> of an unsigned integer.\<close>

definition digit_char :: "nat \<Rightarrow> char" where
  "digit_char d = char_of (48 + d)"

fun nat_str :: "nat \<Rightarrow> string" where
  "nat_str n = (if n < 10 then [digit_char n] else nat_str (n div 10) @ [digit_char (n mod 10)])"

declare nat_str.simps [simp del]

fun str_nat :: "string \<Rightarrow> nat" where
  "str_nat s = foldl (\<lambda>acc c. 10 * acc + (of_char c - 48)) 0 s"

lemma of_char_digit: "d < 10 \<Longrightarrow> of_char (digit_char d) = 48 + d"
  by (simp add: digit_char_def)

lemma str_nat_nat_str: "str_nat (nat_str n) = n"
proof (induction n rule: nat_str.induct)
  case (1 n)
  show ?case
  proof (cases "n < 10")
    case True
    then show ?thesis by (simp add: nat_str.simps [of n] of_char_digit)
  next
    case False
    then have "str_nat (nat_str n) = 10 * str_nat (nat_str (n div 10)) + n mod 10"
      by (simp add: nat_str.simps [of n] of_char_digit)
    with False "1" show ?thesis by simp
  qed
qed

lemma nat_str_inj [simp]: "nat_str m = nat_str n \<longleftrightarrow> m = n"
  by (metis str_nat_nat_str)

lemma nat_str_length: "n < 10 ^ Suc k \<Longrightarrow> length (nat_str n) \<le> Suc k"
proof (induction k arbitrary: n)
  case 0
  then show ?case by (simp add: nat_str.simps [of n])
next
  case (Suc k)
  then have "n div 10 < 10 ^ Suc k" by (simp add: div_less_iff_less_mult mult.commute)
  with Suc.IH show ?case by (simp add: nat_str.simps [of n])
qed

lemma nat_str_digits: "c \<in> set (nat_str n) \<Longrightarrow> 48 \<le> (of_char c :: nat) \<and> (of_char c :: nat) \<le> 57"
proof (induction n rule: nat_str.induct)
  case (1 n)
  show ?case
  proof (cases "n < 10")
    case True
    with "1.prems" show ?thesis by (simp add: nat_str.simps [of n] of_char_digit)
  next
    case False
    with "1.prems" consider "c \<in> set (nat_str (n div 10))" | "c = digit_char (n mod 10)"
      by (auto simp: nat_str.simps [of n])
    then show ?thesis
      using "1.IH" False by cases (auto simp: of_char_digit)
  qed
qed

section \<open>Hexadecimal\<close>

definition hex_digit :: "nat \<Rightarrow> char" where
  "hex_digit d = char_of (if d < 10 then 48 + d else 87 + d)"

text \<open>\<^verbatim>\<open>{:x}\<close> and \<^verbatim>\<open>{:02x}\<close> of bytes: lower case, two digits a byte.\<close>

definition to_hex :: "bytes \<Rightarrow> string" where
  "to_hex bs = concat (map (\<lambda>b. [hex_digit (unat b div 16), hex_digit (unat b mod 16)]) bs)"

lemma of_char_hex_digit: "d < 16 \<Longrightarrow> of_char (hex_digit d) = (if d < 10 then 48 + d else 87 + d)"
  by (simp add: hex_digit_def)

lemma hex_digit_inj: "a < 16 \<Longrightarrow> b < 16 \<Longrightarrow> hex_digit a = hex_digit b \<longleftrightarrow> a = b"
proof
  assume ab: "a < 16" "b < 16" and eq: "hex_digit a = hex_digit b"
  from eq have "(of_char (hex_digit a) :: nat) = of_char (hex_digit b)" by simp
  with ab show "a = b" by (simp only: of_char_hex_digit) (simp split: if_splits)
qed simp

lemma to_hex_simps [simp]:
  "to_hex [] = []"
  "to_hex (b # bs) = hex_digit (unat b div 16) # hex_digit (unat b mod 16) # to_hex bs"
  by (simp_all add: to_hex_def)

lemma length_to_hex [simp]: "length (to_hex bs) = 2 * length bs"
  by (induction bs) simp_all

lemma u8_div_16: "unat (b :: u8) div 16 < 16"
  using unsigned_less [of b, where ?'a = nat] by simp

lemma to_hex_inj [simp]: "to_hex a = to_hex b \<longleftrightarrow> a = b"
proof (induction a arbitrary: b)
  case Nil
  then show ?case by (cases b) simp_all
next
  case (Cons x a)
  show ?case
  proof (cases b)
    case (Cons y b')
    have "unat x div 16 = unat y div 16 \<and> unat x mod 16 = unat y mod 16 \<longleftrightarrow> x = y"
      by (metis div_mult_mod_eq word_unat_eq_iff)
    then show ?thesis using Cons.IH Cons
      by (auto simp: hex_digit_inj u8_div_16)
  qed simp
qed

section \<open>UTF-8\<close>

definition utf8_cont :: "nat \<Rightarrow> bool" where
  "utf8_cont b \<longleftrightarrow> 0x80 \<le> b \<and> b \<le> 0xBF"

text \<open>The well-formed byte sequences of the Unicode standard, as \<^verbatim>\<open>str::from_utf8\<close> accepts them.\<close>

fun utf8_decode :: "nat list \<Rightarrow> nat list option" where
  "utf8_decode [] = Some []"
| "utf8_decode (b # bs) =
     (if b < 0x80 then map_option ((#) b) (utf8_decode bs)
      else if 0xC2 \<le> b \<and> b \<le> 0xDF then
        (case bs of
           c # rest \<Rightarrow>
             if utf8_cont c
             then map_option ((#) ((b - 0xC0) * 64 + (c - 0x80))) (utf8_decode rest)
             else None
         | [] \<Rightarrow> None)
      else if 0xE0 \<le> b \<and> b \<le> 0xEF then
        (case bs of
           c # d # rest \<Rightarrow>
             if utf8_cont c \<and> utf8_cont d \<and> (b = 0xE0 \<longrightarrow> 0xA0 \<le> c) \<and> (b = 0xED \<longrightarrow> c \<le> 0x9F)
             then map_option ((#) ((b - 0xE0) * 4096 + (c - 0x80) * 64 + (d - 0x80))) (utf8_decode rest)
             else None
         | _ \<Rightarrow> None)
      else if 0xF0 \<le> b \<and> b \<le> 0xF4 then
        (case bs of
           c # d # e # rest \<Rightarrow>
             if utf8_cont c \<and> utf8_cont d \<and> utf8_cont e \<and> (b = 0xF0 \<longrightarrow> 0x90 \<le> c) \<and> (b = 0xF4 \<longrightarrow> c \<le> 0x8F)
             then map_option ((#) ((b - 0xF0) * 262144 + (c - 0x80) * 4096 + (d - 0x80) * 64 + (e - 0x80)))
                    (utf8_decode rest)
             else None
         | _ \<Rightarrow> None)
      else None)"

text \<open>\<^verbatim>\<open>String::from_utf8\<close>: the same bytes as text, if they are well-formed.\<close>

definition from_utf8 :: "bytes \<Rightarrow> string option" where
  "from_utf8 bs = (case utf8_decode (map unat bs) of None \<Rightarrow> None | Some _ \<Rightarrow> Some (string_of_bytes bs))"

definition utf8_ok :: "string \<Rightarrow> bool" where
  "utf8_ok s \<longleftrightarrow> utf8_decode (map of_char s) \<noteq> None"

text \<open>\<^verbatim>\<open>str::chars\<close>: the code points. A Rust string is well-formed by construction.\<close>

definition chars :: "string \<Rightarrow> nat list" where
  "chars s = (case utf8_decode (map of_char s) of None \<Rightarrow> [] | Some cs \<Rightarrow> cs)"

lemma from_utf8_Some: "from_utf8 bs = Some s \<Longrightarrow> as_bytes s = bs"
  by (auto simp: from_utf8_def split: option.splits)

lemma map_unat_as_bytes: "map unat (as_bytes s) = map of_char s"
  by (simp add: as_bytes_def)

lemma from_utf8_as_bytes: "utf8_ok s \<Longrightarrow> from_utf8 (as_bytes s) = Some s"
  by (auto simp: from_utf8_def utf8_ok_def map_unat_as_bytes split: option.splits)

definition ascii :: "string \<Rightarrow> bool" where
  "ascii s \<longleftrightarrow> (\<forall>c \<in> set s. of_char c < (128::nat))"

lemma utf8_decode_ascii: "\<forall>b \<in> set bs. b < 128 \<Longrightarrow> utf8_decode bs = Some bs"
  by (induction bs) auto

lemma chars_ascii: "ascii s \<Longrightarrow> chars s = map of_char s"
  by (simp add: chars_def ascii_def utf8_decode_ascii)

lemma utf8_ok_ascii: "ascii s \<Longrightarrow> utf8_ok s"
  by (simp add: utf8_ok_def ascii_def utf8_decode_ascii)

lemma ascii_append [simp]: "ascii (s @ t) \<longleftrightarrow> ascii s \<and> ascii t"
  by (auto simp: ascii_def)

text \<open>The inverse direction, for text rebuilt from code points.\<close>

definition utf8_encode_char :: "nat \<Rightarrow> nat list" where
  "utf8_encode_char c =
     (if c < 0x80 then [c]
      else if c < 0x800 then [0xC0 + c div 64, 0x80 + c mod 64]
      else if c < 0x10000 then [0xE0 + c div 4096, 0x80 + c div 64 mod 64, 0x80 + c mod 64]
      else [0xF0 + c div 262144, 0x80 + c div 4096 mod 64, 0x80 + c div 64 mod 64, 0x80 + c mod 64])"

definition string_of_chars :: "nat list \<Rightarrow> string" where
  "string_of_chars cs = map char_of (concat (map utf8_encode_char cs))"

lemma string_of_chars_ascii: "\<forall>c \<in> set cs. c < 128 \<Longrightarrow> string_of_chars cs = map char_of cs"
  unfolding string_of_chars_def by (induction cs) (auto simp: utf8_encode_char_def)

text \<open>\<^verbatim>\<open>char::is_whitespace\<close>: Unicode's \<^verbatim>\<open>White_Space\<close>.\<close>

definition is_whitespace :: "nat \<Rightarrow> bool" where
  "is_whitespace c \<longleftrightarrow>
     (0x09 \<le> c \<and> c \<le> 0x0D) \<or> c = 0x20 \<or> c = 0x85 \<or> c = 0xA0 \<or> c = 0x1680 \<or>
     (0x2000 \<le> c \<and> c \<le> 0x200A) \<or> c = 0x2028 \<or> c = 0x2029 \<or> c = 0x202F \<or> c = 0x205F \<or> c = 0x3000"

definition trim :: "string \<Rightarrow> string" where
  "trim s = string_of_chars (rev (dropWhile is_whitespace (rev (dropWhile is_whitespace (chars s)))))"

lemma trim_plain:
  assumes "ascii s" and "\<forall>c \<in> set s. \<not> is_whitespace (of_char c)"
  shows "trim s = s"
proof -
  let ?cs = "map of_char s :: nat list"
  have nws: "\<forall>c \<in> set ?cs. \<not> is_whitespace c" using assms(2) by simp
  have same: "dropWhile is_whitespace xs = xs" if "\<forall>c \<in> set xs. \<not> is_whitespace c" for xs
    using that by (cases xs) auto
  have "string_of_chars ?cs = map char_of ?cs"
    using assms(1) by (intro string_of_chars_ascii) (simp add: ascii_def)
  then show ?thesis using same [of ?cs] same [of "rev ?cs"] nws
    by (simp add: trim_def chars_ascii assms(1) comp_def)
qed

section \<open>Lines\<close>

definition newline :: char where
  "newline = CHR 0x0A"

fun split_inclusive :: "string \<Rightarrow> string list" where
  "split_inclusive [] = []"
| "split_inclusive (c # cs) =
     (if c = newline then [c] # split_inclusive cs
      else (case split_inclusive cs of [] \<Rightarrow> [[c]] | l # ls \<Rightarrow> (c # l) # ls))"

definition strip_line_end :: "string \<Rightarrow> string" where
  "strip_line_end l =
     (if l \<noteq> [] \<and> last l = newline then
        (let l' = butlast l in if l' \<noteq> [] \<and> last l' = CHR 0x0D then butlast l' else l')
      else l)"

definition lines :: "string \<Rightarrow> string list" where
  "lines s = map strip_line_end (split_inclusive s)"

lemma split_inclusive_line:
  "newline \<notin> set l \<Longrightarrow> split_inclusive (l @ newline # rest) = (l @ [newline]) # split_inclusive rest"
  by (induction l) auto

lemma lines_line:
  assumes "newline \<notin> set l" and "CHR 0x0D \<notin> set l"
  shows "lines (l @ newline # rest) = l # lines rest"
proof -
  have "l \<noteq> [] \<Longrightarrow> last l \<noteq> CHR 0x0D" using assms(2) last_in_set by metis
  then show ?thesis
    using assms(1) by (auto simp: lines_def split_inclusive_line strip_line_end_def)
qed

section \<open>Strings\<close>

definition starts_with :: "string \<Rightarrow> string \<Rightarrow> bool" where
  "starts_with p s \<longleftrightarrow> take (length p) s = p"

definition strip_prefix :: "string \<Rightarrow> string \<Rightarrow> string option" where
  "strip_prefix p s = (if starts_with p s then Some (drop (length p) s) else None)"

lemma strip_prefix_Some: "strip_prefix p s = Some r \<longleftrightarrow> s = p @ r"
  by (auto simp: strip_prefix_def starts_with_def) (metis append_take_drop_id)

text \<open>\<^verbatim>\<open>slice::join\<close>.\<close>

fun join :: "string \<Rightarrow> string list \<Rightarrow> string" where
  "join sep [] = []"
| "join sep [x] = x"
| "join sep (x # y # ys) = x @ sep @ join sep (y # ys)"

lemma join_snoc: "xs \<noteq> [] \<Longrightarrow> join sep (xs @ [x]) = join sep xs @ sep @ x"
  by (induction sep xs rule: join.induct) auto

definition is_ascii_alphabetic :: "char \<Rightarrow> bool" where
  "is_ascii_alphabetic c = (let n = of_char c :: nat in 65 \<le> n \<and> n \<le> 90 \<or> 97 \<le> n \<and> n \<le> 122)"

definition is_ascii_digit :: "char \<Rightarrow> bool" where
  "is_ascii_digit c = (let n = of_char c :: nat in 48 \<le> n \<and> n \<le> 57)"

section \<open>Paths\<close>

datatype component = RootDir | CurDir | ParentDir | Normal string

type_synonym path = "component list"

fun split_on :: "char \<Rightarrow> string \<Rightarrow> string list" where
  "split_on d [] = [[]]"
| "split_on d (c # cs) =
     (if c = d then [] # split_on d cs
      else (case split_on d cs of [] \<Rightarrow> [[c]] | l # ls \<Rightarrow> (c # l) # ls))"

definition component_of :: "string \<Rightarrow> component" where
  "component_of s = (if s = ''.'' then CurDir else if s = ''..'' then ParentDir else Normal s)"

text \<open>\<^verbatim>\<open>Path::components\<close>: repeated separators and inner \<^verbatim>\<open>.\<close> disappear; a leading one stays.\<close>

definition components :: "string \<Rightarrow> path" where
  "components s =
     (let segs = filter (\<lambda>x. x \<noteq> []) (split_on CHR ''/'' s);
          root = (case s of c # _ \<Rightarrow> c = CHR ''/'' | [] \<Rightarrow> False);
          dots = (if root then filter (\<lambda>x. x \<noteq> ''.'') segs
                  else (case segs of [] \<Rightarrow> [] | x # xs \<Rightarrow> x # filter (\<lambda>x. x \<noteq> ''.'') xs))
      in (if root then [RootDir] else []) @ map component_of dots)"

definition is_absolute :: "path \<Rightarrow> bool" where
  "is_absolute p \<longleftrightarrow> (case p of RootDir # _ \<Rightarrow> True | _ \<Rightarrow> False)"

definition is_normal :: "component \<Rightarrow> bool" where
  "is_normal c = (case c of Normal _ \<Rightarrow> True | _ \<Rightarrow> False)"

definition path_join :: "path \<Rightarrow> path \<Rightarrow> path" where
  "path_join p q = (if is_absolute q then q else p @ filter (\<lambda>c. c \<noteq> CurDir) q)"

definition path_parent :: "path \<Rightarrow> path option" where
  "path_parent p = (if p = [] \<or> last p = RootDir then None else Some (butlast p))"

definition file_name :: "path \<Rightarrow> string option" where
  "file_name p = (if p = [] then None else (case last p of Normal n \<Rightarrow> Some n | _ \<Rightarrow> None))"

text \<open>\<^verbatim>\<open>file_stem\<close> and \<^verbatim>\<open>extension\<close> split a name at its last dot, unless that dot starts it.\<close>

definition split_extension :: "string \<Rightarrow> string \<times> string option" where
  "split_extension n =
     (let ext = takeWhile (\<lambda>c. c \<noteq> CHR ''.'') (rev n);
          stem = drop (Suc (length ext)) (rev n)
      in if stem = [] then (n, None) else (rev stem, Some (rev ext)))"

definition path_extension :: "path \<Rightarrow> string option" where
  "path_extension p = (case file_name p of None \<Rightarrow> None | Some n \<Rightarrow> snd (split_extension n))"

definition path_with_extension :: "string \<Rightarrow> path \<Rightarrow> path" where
  "path_with_extension e p =
     (case file_name p of
        None \<Rightarrow> p
      | Some n \<Rightarrow> butlast p @ [Normal (fst (split_extension n) @ (if e = [] then [] else CHR ''.'' # e))])"

end
