(* ===== verification/World.thy ===== *)
theory World
  imports Rust_Std
begin

text \<open>
  What the components reach outside themselves.
  \<^item> \<open>prims\<close>: the third-party crates, as a record of functions that every definition using one
    takes as an argument: SHA-256, AES-256-GCM (\<^verbatim>\<open>ring\<close>), base64, \<^verbatim>\<open>serde_json\<close>'s text level,
    the Noise handshake (\<^verbatim>\<open>snow\<close>) and the diff renderer. What a theorem relies on is one of
    the named predicates \<open>sha256_ok\<close>, \<open>gcm_ok\<close>, \<open>base64_ok\<close>, \<open>json_ok\<close>.
  \<^item> \<open>world\<close>: the state around the program. The network is an abstract state \<open>'w\<close>; files, the
    OS keychain, the key-value store, the random number generator and the clock are concrete, with schedules that
    decide at every single call whether it fails, so a theorem about all worlds is a theorem
    about all failures. Directories are implicit.
  \<^item> the decoding conventions of \<^verbatim>\<open>serde\<close>'s derived \<^verbatim>\<open>Deserialize\<close>.
\<close>

section \<open>JSON values\<close>

datatype json =
    JNull
  | JBool bool
  | JNum int
  | JFloat string
  | JStr string
  | JArr "json list"
  | JObj "(string \<times> json) list"

section \<open>Third-party functions\<close>

record prims =
  sha256 :: "bytes \<Rightarrow> bytes"
  gcm_seal :: "bytes \<Rightarrow> bytes \<Rightarrow> bytes \<Rightarrow> bytes \<Rightarrow> bytes option"
  gcm_open :: "bytes \<Rightarrow> bytes \<Rightarrow> bytes \<Rightarrow> bytes \<Rightarrow> bytes option"
  b64_encode :: "bytes \<Rightarrow> string"
  b64_decode :: "string \<Rightarrow> bytes option"
  json_text :: "json \<Rightarrow> string + string"
  json_pretty :: "json \<Rightarrow> string + string"
  json_read :: "string \<Rightarrow> string + json"
  serde_error :: "json \<Rightarrow> string"
  unified_diff :: "string \<Rightarrow> string \<Rightarrow> string"
  b64url_encode :: "bytes \<Rightarrow> string"
  b64url_decode :: "string \<Rightarrow> bytes option"
  x25519_public :: "bytes \<Rightarrow> string + bytes"
  noise_keypair :: "bytes option \<Rightarrow> string + bytes \<times> bytes"
  noise_x_seal :: "bytes option \<Rightarrow> bytes \<Rightarrow> bytes \<Rightarrow> bytes \<Rightarrow> bytes \<Rightarrow> string + bytes"
  noise_x_open :: "bytes \<Rightarrow> bytes \<Rightarrow> bytes \<Rightarrow> string + (bytes \<times> bytes option \<times> bool) option"

text \<open>The Noise functions of \<^verbatim>\<open>snow\<close>: a key pair, and an \<^verbatim>\<open>X\<close> message, from what its random number
  generator gave (\<open>None\<close> when it refused), and reading such a message: the payload, the sealer's
  static key and whether the handshake is over, or \<open>None\<close> when it does not authenticate.\<close>

text \<open>AES-GCM is deterministic in its key, nonce and additional data, and its tag is checked in
  full: a ciphertext opens to exactly the plaintext it is the sealing of.\<close>

definition gcm_ok :: "prims \<Rightarrow> bool" where
  "gcm_ok P \<longleftrightarrow> (\<forall>k n a p c. gcm_open P k n a c = Some p \<longleftrightarrow> gcm_seal P k n a p = Some c)"

definition sha256_ok :: "prims \<Rightarrow> bool" where
  "sha256_ok P \<longleftrightarrow> (\<forall>x. length (sha256 P x) = 32)"

definition base64_ok :: "prims \<Rightarrow> bool" where
  "base64_ok P \<longleftrightarrow> (\<forall>x. b64_decode P (b64_encode P x) = Some x)"

text \<open>What \<^verbatim>\<open>serde_json\<close> writes it reads back, and what it writes is text.\<close>

definition json_ok :: "prims \<Rightarrow> bool" where
  "json_ok P \<longleftrightarrow>
     (\<forall>j s. json_text P j = Inr s \<longrightarrow> json_read P s = Inr j \<and> utf8_ok s) \<and>
     (\<forall>j s. json_pretty P j = Inr s \<longrightarrow> json_read P s = Inr j \<and> utf8_ok s)"

section \<open>Deserialising structs\<close>

text \<open>A derived \<^verbatim>\<open>Deserialize\<close> for a struct reads an object by field name, refusing a repeated
  field and ignoring unknown ones, or an array by position, where only fields with
  \<^verbatim>\<open>#[serde(default)]\<close> may be left out at the end.\<close>

definition occurrences :: "string \<Rightarrow> (string \<times> json) list \<Rightarrow> json list" where
  "occurrences name fs = map snd (filter (\<lambda>f. fst f = name) fs)"

definition struct_fields_default :: "string list \<Rightarrow> string list \<Rightarrow> json \<Rightarrow> json option list option" where
  "struct_fields_default names defaults j =
     (case j of
        JObj fs \<Rightarrow>
          if list_all (\<lambda>n. length (occurrences n fs) \<le> 1) names
          then Some (map (\<lambda>n. case occurrences n fs of [] \<Rightarrow> None | v # _ \<Rightarrow> Some v) names)
          else None
      | JArr vs \<Rightarrow>
          if length vs \<le> length names \<and> list_all (\<lambda>n. n \<in> set defaults) (drop (length vs) names)
          then Some (map Some vs @ replicate (length names - length vs) None)
          else None
      | _ \<Rightarrow> None)"

definition struct_fields :: "string list \<Rightarrow> json \<Rightarrow> json option list option" where
  "struct_fields names j = struct_fields_default names [] j"

lemmas struct_simps = struct_fields_def struct_fields_default_def occurrences_def

definition as_str :: "json \<Rightarrow> string option" where
  "as_str j = (case j of JStr s \<Rightarrow> Some s | _ \<Rightarrow> None)"

definition as_bool :: "json \<Rightarrow> bool option" where
  "as_bool j = (case j of JBool b \<Rightarrow> Some b | _ \<Rightarrow> None)"

definition as_uint :: "nat \<Rightarrow> json \<Rightarrow> nat option" where
  "as_uint bits j = (case j of JNum i \<Rightarrow> if 0 \<le> i \<and> i < 2 ^ bits then Some (nat i) else None | _ \<Rightarrow> None)"

definition as_u64 :: "json \<Rightarrow> u64 option" where
  "as_u64 j = map_option word_of_nat (as_uint 64 j)"

definition as_u32 :: "json \<Rightarrow> u32 option" where
  "as_u32 j = map_option word_of_nat (as_uint 32 j)"

text \<open>An \<^verbatim>\<open>Option\<close> field: absent and \<^verbatim>\<open>null\<close> are both \<^verbatim>\<open>None\<close>; anything else must read.\<close>

definition as_opt :: "(json \<Rightarrow> 'a option) \<Rightarrow> json option \<Rightarrow> 'a option option" where
  "as_opt f x = (case x of None \<Rightarrow> Some None | Some JNull \<Rightarrow> Some None | Some j \<Rightarrow> map_option Some (f j))"

text \<open>A field that must be there, and a unit variant of an enum: its name, or an object with the
  name as its only key and \<^verbatim>\<open>null\<close> as the value.\<close>

definition as_req :: "(json \<Rightarrow> 'a option) \<Rightarrow> json option \<Rightarrow> 'a option" where
  "as_req f x = (case x of None \<Rightarrow> None | Some j \<Rightarrow> f j)"

definition as_variant :: "(string \<Rightarrow> 'a option) \<Rightarrow> json \<Rightarrow> 'a option" where
  "as_variant f j = (case j of JStr s \<Rightarrow> f s | JObj [(s, JNull)] \<Rightarrow> f s | _ \<Rightarrow> None)"

definition as_default :: "'a \<Rightarrow> (json \<Rightarrow> 'a option) \<Rightarrow> json option \<Rightarrow> 'a option" where
  "as_default d f x = (case x of None \<Rightarrow> Some d | Some j \<Rightarrow> f j)"

fun read_all :: "('a \<Rightarrow> 'b option) \<Rightarrow> 'a list \<Rightarrow> 'b list option" where
  "read_all f [] = Some []"
| "read_all f (x # xs) =
     (case f x of None \<Rightarrow> None | Some y \<Rightarrow> map_option (\<lambda>ys. y # ys) (read_all f xs))"

definition as_list :: "(json \<Rightarrow> 'a option) \<Rightarrow> json \<Rightarrow> 'a list option" where
  "as_list f j = (case j of JArr js \<Rightarrow> read_all f js | _ \<Rightarrow> None)"

lemma read_all_map: "(\<And>x. x \<in> set xs \<Longrightarrow> f (g x) = Some x) \<Longrightarrow> read_all f (map g xs) = Some xs"
  by (induction xs) auto

lemma read_all_set: "read_all f xs = Some ys \<Longrightarrow> y \<in> set ys \<Longrightarrow> \<exists>x \<in> set xs. f x = Some y"
  by (induction xs arbitrary: ys) (auto split: option.splits)

lemma as_req_Some [simp]: "as_req f (Some j) = f j"
  by (simp add: as_req_def)

lemma as_u64_JNum [simp]: "as_u64 (JNum (uint (x :: u64))) = Some x"
  using unsigned_less [of x] by (simp add: as_u64_def as_uint_def flip: unat_eq_nat_uint)

lemma as_u32_JNum [simp]: "as_u32 (JNum (uint (x :: u32))) = Some x"
  using unsigned_less [of x] by (simp add: as_u32_def as_uint_def flip: unat_eq_nat_uint)

lemma as_str_JStr [simp]: "as_str (JStr s) = Some s"
  by (simp add: as_str_def)

lemma as_bool_JBool [simp]: "as_bool (JBool b) = Some b"
  by (simp add: as_bool_def)

section \<open>Deserialising tagged enums\<close>

text \<open>An enum with \<^verbatim>\<open>#[serde(tag = ...)]\<close>: an object that has the tag once, as a string, with its other
  fields, or an array whose first element is the tag. Its variants read what is left; a unit variant
  takes any object, and only the empty array.\<close>

definition tagged_enum :: "string \<Rightarrow> json \<Rightarrow> (string \<times> json) option" where
  "tagged_enum tag j =
     (case j of
        JObj fs \<Rightarrow>
          (case occurrences tag fs of
             [JStr variant] \<Rightarrow> Some (variant, JObj (filter (\<lambda>f. fst f \<noteq> tag) fs))
           | _ \<Rightarrow> None)
      | JArr (JStr variant # rest) \<Rightarrow> Some (variant, JArr rest)
      | _ \<Rightarrow> None)"

definition tagged_unit :: "json \<Rightarrow> bool" where
  "tagged_unit body = (case body of JObj _ \<Rightarrow> True | JArr vs \<Rightarrow> vs = [] | _ \<Rightarrow> False)"

text \<open>Inside such an enum a value is read from a buffer, where a unit variant written as an object
  may also hold an empty object.\<close>

definition as_buffered_variant :: "(string \<Rightarrow> 'a option) \<Rightarrow> json \<Rightarrow> 'a option" where
  "as_buffered_variant f j =
     (case j of
        JStr s \<Rightarrow> f s
      | JObj [(s, v)] \<Rightarrow> if v = JNull \<or> v = JObj [] then f s else None
      | _ \<Rightarrow> None)"

definition apply_field :: "('a \<Rightarrow> 'b) option \<Rightarrow> 'a option \<Rightarrow> 'b option" where
  "apply_field f x = (case f of None \<Rightarrow> None | Some g \<Rightarrow> map_option g x)"

text \<open>The fields of a struct that are there, in the order they are declared.\<close>

fun present_fields :: "string list \<Rightarrow> json option list \<Rightarrow> (string \<times> json) list" where
  "present_fields (n # ns) (Some v # vs) = (n, v) # present_fields ns vs"
| "present_fields (n # ns) (None # vs) = present_fields ns vs"
| "present_fields ns vs = []"

lemma apply_field_Some [simp]: "apply_field (Some f) (Some x) = Some (f x)"
  by (simp add: apply_field_def)

lemma apply_field_eq_Some: "apply_field f x = Some y \<longleftrightarrow> (\<exists>g a. f = Some g \<and> x = Some a \<and> y = g a)"
  by (auto simp: apply_field_def split: option.splits)

lemma occurrences_Nil [simp]: "n \<notin> fst ` set fs \<Longrightarrow> occurrences n fs = []"
  by (force simp: occurrences_def filter_empty_conv)

lemma present_fields_names: "fst ` set (present_fields ns vs) \<subseteq> set ns"
  by (induction ns vs rule: present_fields.induct) auto

lemma occurrences_Cons: "occurrences n (f # fs) = (if fst f = n then snd f # occurrences n fs else occurrences n fs)"
  by (simp add: occurrences_def)

lemma present_fields_occurrences:
  "distinct ns \<Longrightarrow> length vs = length ns \<Longrightarrow>
     map (\<lambda>n. occurrences n (present_fields ns vs)) ns = map (\<lambda>v. case v of None \<Rightarrow> [] | Some j \<Rightarrow> [j]) vs"
proof (induction ns vs rule: present_fields.induct)
  case (1 n ns v vs)
  then have "n \<notin> fst ` set (present_fields ns vs)" using present_fields_names by fastforce
  then have "occurrences n ((n, v) # present_fields ns vs) = [v]" by (simp add: occurrences_Cons)
  moreover have "map (\<lambda>m. occurrences m ((n, v) # present_fields ns vs)) ns =
      map (\<lambda>v. case v of None \<Rightarrow> [] | Some j \<Rightarrow> [j]) vs" (is "?l = _")
  proof -
    have "?l = map (\<lambda>m. occurrences m (present_fields ns vs)) ns"
      using 1 by (intro map_cong) (auto simp: occurrences_Cons)
    with 1 show ?thesis by (simp only: distinct.simps length_Cons nat.inject simp_thms)
  qed
  ultimately show ?case using 1 by simp
next
  case (2 n ns vs)
  then have "n \<notin> fst ` set (present_fields ns vs)" using present_fields_names by fastforce
  with 2 show ?case by simp
qed simp_all

lemma struct_fields_present:
  assumes "distinct ns" "length vs = length ns"
  shows "struct_fields_default ns ds (JObj (present_fields ns vs)) = Some vs"
proof -
  note o = present_fields_occurrences [OF assms]
  have "list_all (\<lambda>n. length (occurrences n (present_fields ns vs)) \<le> 1) ns"
    using arg_cong [OF o, of "list_all (\<lambda>x. length x \<le> 1)"] by (auto simp: list_all_iff split: option.splits)
  moreover have "map (\<lambda>n. case occurrences n (present_fields ns vs) of [] \<Rightarrow> None | v # _ \<Rightarrow> Some v) ns = vs"
    using arg_cong [OF o, of "map (\<lambda>x. case x of [] \<Rightarrow> None | v # _ \<Rightarrow> Some v)"]
    by (simp add: comp_def option.case_distrib [where h = "case_list _ _"] map_idI split: option.splits)
  ultimately show ?thesis by (simp add: struct_fields_default_def)
qed

lemma tagged_enum_present:
  assumes "tag \<notin> set ns"
  shows "tagged_enum tag (JObj ((tag, JStr variant) # present_fields ns vs)) = Some (variant, JObj (present_fields ns vs))"
proof -
  have "tag \<notin> fst ` set (present_fields ns vs)" using assms present_fields_names by fastforce
  moreover from this have "filter (\<lambda>f. fst f \<noteq> tag) (present_fields ns vs) = present_fields ns vs"
    by (intro filter_True) force
  ultimately show ?thesis by (simp add: tagged_enum_def occurrences_Cons)
qed

section \<open>The world\<close>

datatype io_kind = NotFound | AlreadyExists | InvalidInput | InvalidData | OtherIo

datatype io_error = IoError (io_error_kind: io_kind) (io_display: string)

text \<open>How a call to the operating system may fail: before doing anything, or, for a write, after
  so many bytes have reached the file.\<close>

datatype fault = FaultBefore io_error | FaultAfter nat io_error

fun fault_error :: "fault \<Rightarrow> io_error" where
  "fault_error (FaultBefore e) = e"
| "fault_error (FaultAfter n e) = e"

record 'w world =
  net :: 'w
  files :: "(path \<times> bytes) list"
  keychain :: "(string \<times> (string \<times> bytes)) list"
  kv_rows :: "(string \<times> string) list"
  tick :: nat
  fs_fault :: "nat \<Rightarrow> fault option"
  kc_fault :: "nat \<Rightarrow> string option"
  kv_fault :: "nat \<Rightarrow> string option"
  random_fails :: "nat \<Rightarrow> bool"
  random_byte :: "nat \<Rightarrow> nat \<Rightarrow> u8"
  clock :: "nat \<Rightarrow> nat"
  process_id :: nat

definition file_at :: "path \<Rightarrow> 'w world \<Rightarrow> bytes option" where
  "file_at p w = map_of (files w) p"

definition key_at :: "string \<Rightarrow> 'w world \<Rightarrow> (string \<times> bytes) option" where
  "key_at u w = map_of (keychain w) u"

definition advance :: "'w world \<Rightarrow> 'w world" where
  "advance w = w\<lparr>tick := Suc (tick w)\<rparr>"

section \<open>Files: \<^verbatim>\<open>std::fs\<close>\<close>

definition not_found :: io_error where
  "not_found = IoError NotFound ''No such file or directory (os error 2)''"

definition fs_guard :: "('w world, io_error, 'a) io \<Rightarrow> ('w world, io_error, 'a) io" where
  "fs_guard m = (\<lambda>w. case fs_fault w (tick w) of
       Some f \<Rightarrow> (Inl (fault_error f), advance w)
     | None \<Rightarrow> m (advance w))"

definition fs_read :: "path \<Rightarrow> ('w world, io_error, bytes) io" where
  "fs_read p = fs_guard (\<lambda>w. (ok_or not_found (file_at p w), w))"

definition fs_read_to_string :: "path \<Rightarrow> ('w world, io_error, string) io" where
  "fs_read_to_string p = io_bind (fs_read p)
     (\<lambda>bs. io_res (ok_or (IoError InvalidData ''stream did not contain valid UTF-8'') (from_utf8 bs)))"

definition set_file :: "path \<Rightarrow> bytes \<Rightarrow> 'w world \<Rightarrow> 'w world" where
  "set_file p bs w = w\<lparr>files := AList.update p bs (files w)\<rparr>"

definition unset_file :: "path \<Rightarrow> 'w world \<Rightarrow> 'w world" where
  "unset_file p w = w\<lparr>files := AList.delete p (files w)\<rparr>"

definition fs_write :: "path \<Rightarrow> bytes \<Rightarrow> ('w world, io_error, unit) io" where
  "fs_write p bs = (\<lambda>w. case fs_fault w (tick w) of
       None \<Rightarrow> (Inr (), set_file p bs (advance w))
     | Some (FaultBefore e) \<Rightarrow> (Inl e, advance w)
     | Some (FaultAfter n e) \<Rightarrow> (Inl e, set_file p (take n bs) (advance w)))"

definition fs_create_new :: "path \<Rightarrow> ('w world, io_error, unit) io" where
  "fs_create_new p = fs_guard (\<lambda>w. case file_at p w of
       None \<Rightarrow> (Inr (), set_file p [] w)
     | Some _ \<Rightarrow> (Inl (IoError AlreadyExists ''File exists (os error 17)''), w))"

definition fs_sync :: "('w world, io_error, unit) io" where
  "fs_sync = fs_guard (io_ok ())"

definition fs_create_dir_all :: "path \<Rightarrow> ('w world, io_error, unit) io" where
  "fs_create_dir_all p = fs_guard (io_ok ())"

definition fs_rename :: "path \<Rightarrow> path \<Rightarrow> ('w world, io_error, unit) io" where
  "fs_rename p q = fs_guard (\<lambda>w. case file_at p w of
       None \<Rightarrow> (Inl not_found, w)
     | Some bs \<Rightarrow> (Inr (), set_file q bs (unset_file p w)))"

definition fs_remove :: "path \<Rightarrow> ('w world, io_error, unit) io" where
  "fs_remove p = fs_guard (\<lambda>w. case file_at p w of
       None \<Rightarrow> (Inl not_found, w)
     | Some _ \<Rightarrow> (Inr (), unset_file p w))"

text \<open>The files directly inside a directory, in no particular order.\<close>

definition fs_read_dir :: "path \<Rightarrow> ('w world, io_error, path list) io" where
  "fs_read_dir d = fs_guard (\<lambda>w. (Inr (filter (\<lambda>p. path_parent p = Some d) (map fst (files w))), w))"

text \<open>An operating system that says \<open>NotFound\<close> only of a file that is not there.\<close>

definition honest_fs :: "'w world \<Rightarrow> bool" where
  "honest_fs w \<longleftrightarrow> (\<forall>t f. fs_fault w t = Some f \<longrightarrow> io_error_kind (fault_error f) \<noteq> NotFound)"

section \<open>Keychain, randomness, clock\<close>

definition kc_read :: "string \<Rightarrow> ('w world, string, (string \<times> bytes) option) io" where
  "kc_read u = (\<lambda>w. case kc_fault w (tick w) of
       Some e \<Rightarrow> (Inl e, advance w)
     | None \<Rightarrow> (Inr (key_at u w), advance w))"

definition kc_write :: "string \<Rightarrow> string \<Rightarrow> bytes \<Rightarrow> ('w world, string, unit) io" where
  "kc_write u name payload = (\<lambda>w. case kc_fault w (tick w) of
       Some e \<Rightarrow> (Inl e, advance w)
     | None \<Rightarrow> (Inr (), (advance w)\<lparr>keychain := AList.update u (name, payload) (keychain w)\<rparr>))"

definition kc_delete :: "string \<Rightarrow> ('w world, string, unit) io" where
  "kc_delete u = (\<lambda>w. case kc_fault w (tick w) of
       Some e \<Rightarrow> (Inl e, advance w)
     | None \<Rightarrow> (Inr (), (advance w)\<lparr>keychain := AList.delete u (keychain w)\<rparr>))"

text \<open>The key-value store (\<^verbatim>\<open>db/src/kvp.rs\<close>): one row per key.\<close>

definition kv_read :: "string \<Rightarrow> ('w world, string, string option) io" where
  "kv_read k = (\<lambda>w. case kv_fault w (tick w) of
       Some e \<Rightarrow> (Inl e, advance w)
     | None \<Rightarrow> (Inr (map_of (kv_rows w) k), advance w))"

definition kv_write :: "string \<Rightarrow> string \<Rightarrow> ('w world, string, unit) io" where
  "kv_write k v = (\<lambda>w. case kv_fault w (tick w) of
       Some e \<Rightarrow> (Inl e, advance w)
     | None \<Rightarrow> (Inr (), (advance w)\<lparr>kv_rows := AList.update k v (kv_rows w)\<rparr>))"

definition random_fill :: "nat \<Rightarrow> ('w world, unit, bytes) io" where
  "random_fill n = (\<lambda>w. (if random_fails w (tick w) then Inl ()
                         else Inr (map (random_byte w (tick w)) [0..<n]), advance w))"

definition now_nanos :: "('w world, 'e, nat) io" where
  "now_nanos = (\<lambda>w. (Inr (clock w (tick w)), advance w))"

section \<open>What each call leaves alone\<close>

lemma advance_simps [simp]:
  "net (advance w) = net w" "files (advance w) = files w" "keychain (advance w) = keychain w"
  "file_at p (advance w) = file_at p w" "key_at u (advance w) = key_at u w"
  "fs_fault (advance w) = fs_fault w" "kc_fault (advance w) = kc_fault w"
  "tick (advance w) = Suc (tick w)"
  by (simp_all add: advance_def file_at_def key_at_def)

lemma set_file_simps [simp]:
  "net (set_file p bs w) = net w" "keychain (set_file p bs w) = keychain w"
  "key_at u (set_file p bs w) = key_at u w"
  "tick (set_file p bs w) = tick w" "fs_fault (set_file p bs w) = fs_fault w"
  "file_at q (set_file p bs w) = (if q = p then Some bs else file_at q w)"
  by (simp_all add: set_file_def file_at_def key_at_def update_conv)

lemma unset_file_simps [simp]:
  "net (unset_file p w) = net w" "keychain (unset_file p w) = keychain w"
  "key_at u (unset_file p w) = key_at u w"
  "tick (unset_file p w) = tick w" "fs_fault (unset_file p w) = fs_fault w"
  "file_at q (unset_file p w) = (if q = p then None else file_at q w)"
  by (simp_all add: unset_file_def file_at_def key_at_def delete_conv)

lemma net_update_simps [simp]:
  "file_at p (w\<lparr>net := n\<rparr>) = file_at p w" "key_at u (w\<lparr>net := n\<rparr>) = key_at u w"
  by (simp_all add: file_at_def key_at_def)

lemma length_random_fill: "random_fill n w = (Inr bs, w') \<Longrightarrow> length bs = n"
  by (auto simp: random_fill_def split: if_splits)

lemmas fs_defs = fs_guard_def fs_read_def fs_write_def fs_create_new_def fs_sync_def
  fs_create_dir_all_def fs_rename_def fs_remove_def fs_read_dir_def

lemma frame_net_fs [frame_intros]:
  "frame net (fs_read p)" "frame net (fs_read_to_string p)" "frame net (fs_write p bs)"
  "frame net (fs_create_new p)" "frame net fs_sync" "frame net (fs_create_dir_all p)"
  "frame net (fs_rename p q)" "frame net (fs_remove p)" "frame net (fs_read_dir p)"
  by (auto simp: frame_def fs_defs fs_read_to_string_def io_bind_apply
      split: option.splits fault.splits sum.splits prod.splits)

lemma frame_keychain_fs [frame_intros]:
  "frame keychain (fs_read p)" "frame keychain (fs_read_to_string p)" "frame keychain (fs_write p bs)"
  "frame keychain (fs_create_new p)" "frame keychain fs_sync" "frame keychain (fs_create_dir_all p)"
  "frame keychain (fs_rename p q)" "frame keychain (fs_remove p)" "frame keychain (fs_read_dir p)"
  by (auto simp: frame_def fs_defs fs_read_to_string_def io_bind_apply
      split: option.splits fault.splits sum.splits prod.splits)

lemma frame_files_read [frame_intros]:
  "frame files (fs_read p)" "frame files (fs_read_to_string p)" "frame files fs_sync"
  "frame files (fs_create_dir_all p)" "frame files (fs_read_dir p)"
  by (auto simp: frame_def fs_defs fs_read_to_string_def io_bind_apply
      split: option.splits fault.splits sum.splits prod.splits)

lemma frame_file_at_fs [frame_intros]:
  "frame (file_at q) (fs_read p)" "frame (file_at q) (fs_read_to_string p)"
  "frame (file_at q) fs_sync" "frame (file_at q) (fs_create_dir_all p)"
  "frame (file_at q) (fs_read_dir p)"
  "q \<noteq> p \<Longrightarrow> frame (file_at q) (fs_write p bs)"
  "q \<noteq> p \<Longrightarrow> frame (file_at q) (fs_create_new p)"
  "q \<noteq> p \<Longrightarrow> frame (file_at q) (fs_remove p)"
  "q \<noteq> p \<Longrightarrow> q \<noteq> p' \<Longrightarrow> frame (file_at q) (fs_rename p p')"
  by (auto simp: frame_def fs_defs fs_read_to_string_def io_bind_apply
      split: option.splits fault.splits sum.splits prod.splits)

lemma frame_keychain_calls [frame_intros]:
  "frame net (kc_read u)" "frame net (kc_write u n p)" "frame net (kc_delete u)"
  "frame files (kc_read u)" "frame files (kc_write u n p)" "frame files (kc_delete u)"
  "frame keychain (kc_read u)"
  by (auto simp: frame_def kc_read_def kc_write_def kc_delete_def split: option.splits)

lemma frame_random [frame_intros]:
  "frame net (random_fill n)" "frame files (random_fill n)" "frame keychain (random_fill n)"
  "frame (file_at q) (random_fill n)" "frame (key_at u) (random_fill n)"
  by (auto simp: frame_def random_fill_def)

lemma frame_clock [frame_intros]:
  "frame net now_nanos" "frame files now_nanos" "frame keychain now_nanos" "frame (file_at q) now_nanos"
  by (auto simp: frame_def now_nanos_def)

lemma frame_file_at_if_files: "frame files m \<Longrightarrow> frame (file_at q) m"
  by (simp add: frame_def file_at_def)

lemma frame_key_at_if_keychain: "frame keychain m \<Longrightarrow> frame (key_at u) m"
  by (simp add: frame_def key_at_def)

text \<open>The schedules themselves never change.\<close>

lemma frame_fs_fault [frame_intros]:
  "frame fs_fault (fs_read p)" "frame fs_fault (fs_read_to_string p)" "frame fs_fault (fs_write p bs)"
  "frame fs_fault (fs_create_new p)" "frame fs_fault fs_sync" "frame fs_fault (fs_create_dir_all p)"
  "frame fs_fault (fs_rename p q)" "frame fs_fault (fs_remove p)" "frame fs_fault (fs_read_dir p)"
  by (auto simp: frame_def fs_defs fs_read_to_string_def io_bind_apply
      split: option.splits fault.splits sum.splits prod.splits)

lemma honest_fs_frame: "frame fs_fault m \<Longrightarrow> m w = (r, w') \<Longrightarrow> honest_fs w' \<longleftrightarrow> honest_fs w"
  unfolding honest_fs_def by (drule frameD, assumption) (simp only:)

lemma fs_read_to_string_quiet:
  "fs_fault w (tick w) = None \<Longrightarrow> file_at p w = Some (as_bytes s) \<Longrightarrow> utf8_ok s \<Longrightarrow>
   fs_read_to_string p w = (Inr s, advance w)"
  by (simp add: fs_read_to_string_def fs_read_def fs_guard_def io_bind_apply from_utf8_as_bytes)

end
