(* ===== verification/Reference.thy ===== *)
theory Reference
  imports World
begin

text \<open>
  One concrete choice of the third-party functions, for evaluating the model on concrete inputs:
  an authenticated "cipher" that puts a one-byte sum of its key, nonce and additional data in front
  of the plaintext, a truncating "hash", the identity in place of base64, and a compact JSON printer
  and parser. It satisfies every law the theorems assume of the real functions, so none of
  those hypotheses is vacuous. Nothing here models code of the repository.
\<close>

section \<open>Evaluating bytes\<close>

definition nibble :: "bool \<Rightarrow> bool \<Rightarrow> bool \<Rightarrow> bool \<Rightarrow> int" where
  "nibble b0 b1 b2 b3 =
     (if b3 then
        if b2 then if b1 then if b0 then 15 else 14 else if b0 then 13 else 12
        else if b1 then if b0 then 11 else 10 else if b0 then 9 else 8
      else
        if b2 then if b1 then if b0 then 7 else 6 else if b0 then 5 else 4
        else if b1 then if b0 then 3 else 2 else if b0 then 1 else 0)"

lemma byte_of_char_code [code]:
  "byte_of_char (Char b0 b1 b2 b3 b4 b5 b6 b7) =
     word_of_int (16 * nibble b4 b5 b6 b7 + nibble b0 b1 b2 b3)"
proof -
  have "int (of_char (Char b0 b1 b2 b3 b4 b5 b6 b7)) = 16 * nibble b4 b5 b6 b7 + nibble b0 b1 b2 b3"
    by (auto simp: nibble_def of_char_def)
  then show ?thesis unfolding byte_of_char_def by (metis of_int_of_nat_eq)
qed

lemma char_of_byte_code [code]:
  "char_of_byte b = (let i = uint b in
     Char (bit i 0) (bit i 1) (bit i 2) (bit i 3) (bit i 4) (bit i 5) (bit i 6) (bit i 7))"
  by (simp add: char_of_byte_def char_of_def Let_def bit_unsigned_iff)

definition hex_table :: "int \<Rightarrow> char" where
  "hex_table i = ''0123456789abcdef'' ! nat i"

lemma hex_digit_table: "d < 16 \<Longrightarrow> hex_digit d = hex_table (int d)"
proof -
  have "list_all (\<lambda>d. hex_digit d = ''0123456789abcdef'' ! d) [0..<16]" by code_simp
  then show "d < 16 \<Longrightarrow> hex_digit d = hex_table (int d)" by (simp add: hex_table_def list_all_iff)
qed

lemma to_hex_code [code]:
  "to_hex [] = []"
  "to_hex (b # bs) = (let i = uint b in hex_table (i div 16) # hex_table (i mod 16) # to_hex bs)"
proof -
  have "hex_digit (unat b div 16) = hex_table (uint b div 16)"
    "hex_digit (unat b mod 16) = hex_table (uint b mod 16)"
    using hex_digit_table [OF u8_div_16 [of b]] hex_digit_table [of "unat b mod 16"]
    by (simp_all add: of_nat_div of_nat_mod)
  then show "to_hex (b # bs) = (let i = uint b in hex_table (i div 16) # hex_table (i mod 16) # to_hex bs)"
    by (simp add: Let_def)
qed simp

section \<open>An exact authenticated cipher\<close>

definition ref_tag :: "bytes \<Rightarrow> bytes \<Rightarrow> bytes \<Rightarrow> u8" where
  "ref_tag k n a = foldr (\<lambda>x y. x + y) (k @ n @ a) 0"

definition ref_seal :: "bytes \<Rightarrow> bytes \<Rightarrow> bytes \<Rightarrow> bytes \<Rightarrow> bytes option" where
  "ref_seal k n a p = Some ((ref_tag k n a AND 127) # p)"

definition ref_open :: "bytes \<Rightarrow> bytes \<Rightarrow> bytes \<Rightarrow> bytes \<Rightarrow> bytes option" where
  "ref_open k n a c =
     (case c of [] \<Rightarrow> None | t # p \<Rightarrow> if t = ref_tag k n a AND 127 then Some p else None)"

definition ref_sha256 :: "bytes \<Rightarrow> bytes" where
  "ref_sha256 x = take 32 (x @ replicate 32 0)"

section \<open>Compact JSON\<close>

fun ref_escape :: "string \<Rightarrow> string" where
  "ref_escape [] = []"
| "ref_escape (c # s) =
     (if c = CHR 0x22 \<or> c = CHR 0x5C then CHR 0x5C # c # ref_escape s else c # ref_escape s)"

definition ref_quote :: "string \<Rightarrow> string" where
  "ref_quote s = [CHR 0x22] @ ref_escape s @ [CHR 0x22]"

fun ref_commas :: "string list \<Rightarrow> string" where
  "ref_commas [] = []"
| "ref_commas [x] = x"
| "ref_commas (x # y # ys) = x @ '','' @ ref_commas (y # ys)"

fun ref_print :: "json \<Rightarrow> string" where
  "ref_print JNull = ''null''"
| "ref_print (JBool b) = (if b then ''true'' else ''false'')"
| "ref_print (JNum i) = (if i < 0 then ''-'' else []) @ nat_str (nat (abs i))"
| "ref_print (JFloat s) = ''#'' @ ref_quote s"
| "ref_print (JStr s) = ref_quote s"
| "ref_print (JArr vs) = ''['' @ ref_commas (map ref_print vs) @ '']''"
| "ref_print (JObj fs) =
     ''{'' @ ref_commas (map (\<lambda>(k, v). ref_quote k @ '':'' @ ref_print v) fs) @ ''}''"

fun ref_string :: "string \<Rightarrow> (string \<times> string) option" where
  "ref_string [] = None"
| "ref_string (c # s) =
     (if c = CHR 0x22 then Some ([], s)
      else if c = CHR 0x5C then
        (case s of [] \<Rightarrow> None | d # s' \<Rightarrow> map_option (\<lambda>(t, r). (d # t, r)) (ref_string s'))
      else map_option (\<lambda>(t, r). (c # t, r)) (ref_string s))"

definition ref_digit :: "char \<Rightarrow> bool" where
  "ref_digit c \<longleftrightarrow> c \<in> set ''0123456789''"

definition ref_number :: "string \<Rightarrow> (int \<times> string) option" where
  "ref_number s =
     (let ds = takeWhile ref_digit s in
      if ds = [] then None else Some (int (str_nat ds), dropWhile ref_digit s))"

text \<open>The fuel is the length of the text: every call consumes a character.\<close>

fun ref_value :: "nat \<Rightarrow> string \<Rightarrow> (json \<times> string) option"
  and ref_items :: "nat \<Rightarrow> string \<Rightarrow> (json list \<times> string) option"
  and ref_fields :: "nat \<Rightarrow> string \<Rightarrow> ((string \<times> json) list \<times> string) option" where
  "ref_value 0 s = None"
| "ref_value (Suc f) s =
     (if take 4 s = ''null'' then Some (JNull, drop 4 s)
      else if take 4 s = ''true'' then Some (JBool True, drop 4 s)
      else if take 5 s = ''false'' then Some (JBool False, drop 5 s)
      else case s of
        [] \<Rightarrow> None
      | c # r \<Rightarrow>
          if c = CHR 0x22 then map_option (\<lambda>(t, r). (JStr t, r)) (ref_string r)
          else if c = CHR ''['' then
            (if take 1 r = '']'' then Some (JArr [], drop 1 r)
             else map_option (\<lambda>(vs, r). (JArr vs, r)) (ref_items f r))
          else if c = CHR ''{'' then
            (if take 1 r = ''}'' then Some (JObj [], drop 1 r)
             else map_option (\<lambda>(fs, r). (JObj fs, r)) (ref_fields f r))
          else if c = CHR ''-'' then map_option (\<lambda>(i, r). (JNum (- i), r)) (ref_number r)
          else map_option (\<lambda>(i, r). (JNum i, r)) (ref_number s))"
| "ref_items 0 s = None"
| "ref_items (Suc f) s =
     (case ref_value f s of
        None \<Rightarrow> None
      | Some (v, r) \<Rightarrow>
          if take 1 r = '']'' then Some ([v], drop 1 r)
          else if take 1 r = '','' then map_option (\<lambda>(vs, r). (v # vs, r)) (ref_items f (drop 1 r))
          else None)"
| "ref_fields 0 s = None"
| "ref_fields (Suc f) s =
     (case s of
        [] \<Rightarrow> None
      | c # s' \<Rightarrow>
          if c \<noteq> CHR 0x22 then None
          else case ref_string s' of
            None \<Rightarrow> None
          | Some (k, r) \<Rightarrow>
              if take 1 r \<noteq> '':'' then None
              else case ref_value f (drop 1 r) of
                None \<Rightarrow> None
              | Some (v, r) \<Rightarrow>
                  if take 1 r = ''}'' then Some ([(k, v)], drop 1 r)
                  else if take 1 r = '','' then
                    map_option (\<lambda>(fs, r). ((k, v) # fs, r)) (ref_fields f (drop 1 r))
                  else None)"

definition ref_read :: "string \<Rightarrow> string + json" where
  "ref_read s =
     (case ref_value (2 * length s + 2) s of Some (j, []) \<Rightarrow> Inr j | _ \<Rightarrow> Inl ''expected value'')"

text \<open>The printer answers only texts that read back and are ASCII.\<close>

definition ref_text :: "json \<Rightarrow> string + string" where
  "ref_text j =
     (let s = ref_print j in
      if list_all (\<lambda>c. \<not> digit7 c) s \<and> ref_read s = Inr j then Inr s else Inl ''unrepresentable value'')"

section \<open>A handshake\<close>

text \<open>A public key is the private one with its first byte replaced. A message is the ephemeral public
  key, the sealer's public key, a tag, the payload and the tag again.\<close>

definition ref_public :: "bytes \<Rightarrow> string + bytes" where
  "ref_public k = (if length k = 32 then Inr (7 # tl k) else Inl ''diffie-hellman error'')"

definition ref_keypair :: "bytes option \<Rightarrow> string + bytes \<times> bytes" where
  "ref_keypair seed =
     (case seed of
        None \<Rightarrow> Inl ''rng error''
      | Some k \<Rightarrow> bind_res (ref_public k) (\<lambda>pk. Inr (k, pk)))"

definition ref_tag16 :: "bytes \<Rightarrow> bytes \<Rightarrow> bytes \<Rightarrow> bytes" where
  "ref_tag16 k n a = replicate 16 (ref_tag k n a)"

definition ref_x_seal :: "bytes option \<Rightarrow> bytes \<Rightarrow> bytes \<Rightarrow> bytes \<Rightarrow> bytes \<Rightarrow> string + bytes" where
  "ref_x_seal seed s prologue recipient payload =
     bind_res (ref_keypair seed) (\<lambda>(_, e).
     bind_res (ref_public s) (\<lambda>me.
     let t = ref_tag16 me prologue (recipient @ payload) in Inr (e @ me @ t @ payload @ t)))"

definition ref_x_open :: "bytes \<Rightarrow> bytes \<Rightarrow> bytes \<Rightarrow> string + (bytes \<times> bytes option \<times> bool) option" where
  "ref_x_open r prologue msg =
     bind_res (ref_public r) (\<lambda>me.
     let sealer = take 32 (drop 32 msg); payload = take (length msg - 96) (drop 80 msg);
         t = ref_tag16 sealer prologue (me @ payload)
     in Inr (if 96 \<le> length msg \<and> take 16 (drop 64 msg) = t \<and> drop (length msg - 16) msg = t
             then Some (payload, Some sealer, True) else None))"

section \<open>The instance\<close>

definition ref_prims :: prims where
  "ref_prims =
     \<lparr>sha256 = ref_sha256, gcm_seal = ref_seal, gcm_open = ref_open,
      b64_encode = string_of_bytes, b64_decode = (\<lambda>s. Some (as_bytes s)),
      json_text = ref_text, json_pretty = ref_text, json_read = ref_read,
      serde_error = (\<lambda>j. ''invalid type''), unified_diff = (\<lambda>old new. old @ new),
      b64url_encode = string_of_bytes, b64url_decode = (\<lambda>s. Some (as_bytes s)),
      x25519_public = ref_public, noise_keypair = ref_keypair,
      noise_x_seal = ref_x_seal, noise_x_open = ref_x_open\<rparr>"

lemma ref_gcm_ok [simp]: "gcm_ok ref_prims"
  by (auto simp: gcm_ok_def ref_prims_def ref_open_def ref_seal_def split: list.splits)

lemma ref_sha256_ok [simp]: "sha256_ok ref_prims"
  by (simp add: sha256_ok_def ref_prims_def ref_sha256_def min_def)

lemma ref_base64_ok [simp]: "base64_ok ref_prims"
  by (simp add: base64_ok_def ref_prims_def)

lemma ref_ascii: "list_all (\<lambda>c. \<not> digit7 c) s \<Longrightarrow> utf8_ok s"
proof (intro utf8_ok_ascii, unfold ascii_def, intro ballI)
  fix c
  assume "list_all (\<lambda>c. \<not> digit7 c) s" "c \<in> set s"
  then have "\<not> digit7 c" by (simp add: list_all_iff)
  then show "of_char c < (128::nat)" by (cases c) (simp add: of_char_def horner_sum_simps)
qed

lemma ref_json_ok [simp]: "json_ok ref_prims"
  by (auto simp: json_ok_def ref_prims_def ref_text_def Let_def ref_ascii split: if_splits)

text \<open>A world with nothing in it, where nothing fails.\<close>

definition quiet_world :: "'w \<Rightarrow> 'w world" where
  "quiet_world n =
     \<lparr>net = n, files = [], keychain = [], kv_rows = [], tick = 0, fs_fault = (\<lambda>_. None), kc_fault = (\<lambda>_. None),
      kv_fault = (\<lambda>_. None),
      random_fails = (\<lambda>_. False), random_byte = (\<lambda>t i. of_nat (t + i)), clock = (\<lambda>t. t),
      process_id = 1\<rparr>"

end
