(* ===== verification/Dek.thy ===== *)
theory Dek
  imports Reference
begin

text \<open>
  \<^verbatim>\<open>zode_sync/src/dek.rs\<close> and \<^verbatim>\<open>zode_sync/src/recovery_key.rs\<close>: the 32-byte data encryption
  key, its fingerprint, its checksum, and the text the user writes down. The main result is
  that \<open>decode\<close> accepts a text exactly when its body, read through the folding of confusable
  characters, is the canonical rendering of the key it answers.
\<close>

section \<open>The key\<close>

definition DEK_LEN :: nat where
  "DEK_LEN = 32"

definition KID_LEN :: nat where
  "KID_LEN = 8"

definition CHECK_DOMAIN :: bytes where
  "CHECK_DOMAIN = as_bytes ''zode-recovery-check''"

record dek =
  dek_bytes :: bytes

definition dek_ok :: "dek \<Rightarrow> bool" where
  "dek_ok d \<longleftrightarrow> length (dek_bytes d) = DEK_LEN"

definition dek_generate :: "('w world, string, dek) io" where
  "dek_generate = io_bind
     (io_map_err (\<lambda>_. ''the system random number generator refused'') (random_fill DEK_LEN))
     (\<lambda>bs. io_ok \<lparr>dek_bytes = bs\<rparr>)"

definition dek_from_slice :: "bytes \<Rightarrow> dek option" where
  "dek_from_slice bs = (if length bs = DEK_LEN then Some \<lparr>dek_bytes = bs\<rparr> else None)"

definition kid :: "prims \<Rightarrow> dek \<Rightarrow> bytes" where
  "kid P d = take KID_LEN (sha256 P (dek_bytes d))"

definition check_bits :: "prims \<Rightarrow> dek \<Rightarrow> u8" where
  "check_bits P d = (sha256 P (CHECK_DOMAIN @ dek_bytes d) ! 0) AND 31"

lemma dek_generate_ok: "dek_generate w = (Inr d, w') \<Longrightarrow> dek_ok d"
  by (auto simp: dek_generate_def io_simps dek_ok_def dest!: length_random_fill
      split: prod.splits sum.splits)

lemma length_kid [simp]: "sha256_ok P \<Longrightarrow> length (kid P d) = KID_LEN"
  by (simp add: kid_def sha256_ok_def KID_LEN_def)

section \<open>The recovery key\<close>

definition ALPHABET :: string where
  "ALPHABET = ''0123456789ABCDEFGHJKMNPQRSTVWXYZ''"

definition DATA_CHARS :: nat where
  "DATA_CHARS = 52"

definition GROUP :: nat where
  "GROUP = 5"

definition PREFIX :: string where
  "PREFIX = ''ZODE''"

datatype recovery_key_error =
    WrongLength nat
  | BadCharacter nat
  | ChecksumMismatch
  | NonCanonical

fun recovery_display :: "recovery_key_error \<Rightarrow> string" where
  "recovery_display (WrongLength found) =
     ''a recovery key has '' @ nat_str (DATA_CHARS + 1) @ '' characters, this one has '' @ nat_str found"
| "recovery_display (BadCharacter c) =
     [CHR 0x27] @ string_of_chars [c] @ [CHR 0x27] @ '' is not part of a recovery key''"
| "recovery_display ChecksumMismatch = ''that recovery key has a typo in it''"
| "recovery_display NonCanonical = ''that is not a well-formed recovery key''"

text \<open>Characters are code points here, as \<^verbatim>\<open>char\<close> is.\<close>

definition fold_char :: "nat \<Rightarrow> nat" where
  "fold_char c =
     (if c = of_char CHR ''O'' then of_char CHR ''0''
      else if c = of_char CHR ''I'' \<or> c = of_char CHR ''L'' then of_char CHR ''1''
      else c)"

fun position :: "('a \<Rightarrow> bool) \<Rightarrow> 'a list \<Rightarrow> nat option" where
  "position p [] = None"
| "position p (x # xs) = (if p x then Some 0 else map_option Suc (position p xs))"

definition symbol_value :: "nat \<Rightarrow> u8 option" where
  "symbol_value c = map_option word_of_nat (position (\<lambda>s. of_char s = c) ALPHABET)"

definition bit_at :: "bytes \<Rightarrow> nat \<Rightarrow> u8" where
  "bit_at bs absolute =
     (if absolute < DEK_LEN * 8
      then drop_bit (7 - absolute mod 8) (bs ! (absolute div 8)) AND 1
      else 0)"

definition symbol_at :: "bytes \<Rightarrow> nat \<Rightarrow> u8" where
  "symbol_at bs index = foldl (\<lambda>value bit. push_bit 1 value OR bit_at bs (index * 5 + bit)) 0 [0..<5]"

definition dek_symbols :: "prims \<Rightarrow> dek \<Rightarrow> string" where
  "dek_symbols P d =
     map (\<lambda>index. ALPHABET ! unat (symbol_at (dek_bytes d) index)) [0..<DATA_CHARS]
       @ [ALPHABET ! unat (check_bits P d)]"

definition recovery_encode :: "prims \<Rightarrow> dek \<Rightarrow> string" where
  "recovery_encode P d = PREFIX @ ''-'' @ join ''-'' (chunks GROUP (dek_symbols P d))"

definition to_ascii_uppercase :: "nat \<Rightarrow> nat" where
  "to_ascii_uppercase c = (if 97 \<le> c \<and> c \<le> 122 then c - 32 else c)"

text \<open>Separators and case go first, then the prefix; folding applies to the body only.\<close>

definition key_body :: "string \<Rightarrow> nat list" where
  "key_body input =
     (let cleaned = map to_ascii_uppercase
            (filter (\<lambda>c. \<not> is_whitespace c \<and> c \<noteq> of_char CHR ''-'' \<and> c \<noteq> of_char CHR ''_'') (chars input));
          prefix = map of_char PREFIX
      in if take (length prefix) cleaned = prefix then drop (length prefix) cleaned else cleaned)"

fun read_symbols :: "nat list \<Rightarrow> recovery_key_error + u8 list" where
  "read_symbols [] = Inr []"
| "read_symbols (raw # rest) =
     bind_res (ok_or (BadCharacter raw) (symbol_value (fold_char raw)))
       (\<lambda>v. bind_res (read_symbols rest) (\<lambda>vs. Inr (v # vs)))"

text \<open>The bits of the data characters in the order the nested loops visit them.\<close>

definition symbol_bits :: "u8 list \<Rightarrow> (nat \<times> u8) list" where
  "symbol_bits vs =
     concat (map (\<lambda>index. map (\<lambda>bit. (index * 5 + bit, drop_bit (4 - bit) (vs ! index) AND 1)) [0..<5])
       [0..<length vs])"

fun place_bits :: "(nat \<times> u8) list \<Rightarrow> bytes \<Rightarrow> recovery_key_error + bytes" where
  "place_bits [] bs = Inr bs"
| "place_bits ((absolute, bit_value) # rest) bs =
     (if absolute \<ge> DEK_LEN * 8
      then if bit_value = 1 then Inl NonCanonical else place_bits rest bs
      else place_bits rest
        (bs[absolute div 8 := bs ! (absolute div 8) OR push_bit (7 - absolute mod 8) bit_value]))"

definition recovery_decode :: "prims \<Rightarrow> string \<Rightarrow> recovery_key_error + dek" where
  "recovery_decode P input =
     (let body = key_body input in
      if length body \<noteq> DATA_CHARS + 1 then Inl (WrongLength (length body))
      else bind_res (read_symbols body) (\<lambda>values.
        let check = last values in
        bind_res (place_bits (symbol_bits (butlast values)) (replicate DEK_LEN 0)) (\<lambda>bs.
          let d = \<lparr>dek_bytes = bs\<rparr> in
          if check_bits P d \<noteq> check then Inl ChecksumMismatch else Inr d)))"

section \<open>Symbols\<close>

lemma position_Some:
  "position p xs = Some i \<longleftrightarrow> i < length xs \<and> p (xs ! i) \<and> (\<forall>j < i. \<not> p (xs ! j))"
proof (induction xs arbitrary: i)
  case Nil
  then show ?case by simp
next
  case (Cons x xs)
  show ?case
  proof (cases i)
    case 0
    then show ?thesis by simp
  next
    case (Suc k)
    with Cons [of k] show ?thesis by (auto simp: less_Suc_eq_0_disj)
  qed
qed

lemma length_ALPHABET [simp]: "length ALPHABET = 32"
  by (simp add: ALPHABET_def)

lemma distinct_ALPHABET: "distinct ALPHABET"
  by (simp add: ALPHABET_def)

lemma symbol_value_iff:
  "symbol_value c = Some v \<longleftrightarrow> unat v < 32 \<and> c = of_char (ALPHABET ! unat v)"
proof
  assume "symbol_value c = Some v"
  then obtain i where i: "position (\<lambda>s. of_char s = c) ALPHABET = Some i" and v: "v = word_of_nat i"
    by (auto simp: symbol_value_def)
  from i have "i < 32" "of_char (ALPHABET ! i) = c" by (auto simp: position_Some)
  moreover from \<open>i < 32\<close> v have "unat v = i" by (simp add: unat_of_nat)
  ultimately show "unat v < 32 \<and> c = of_char (ALPHABET ! unat v)" by simp
next
  assume v: "unat v < 32 \<and> c = of_char (ALPHABET ! unat v)"
  have "ALPHABET ! j \<noteq> ALPHABET ! unat v" if "j < unat v" for j
    using that v distinct_ALPHABET by (simp add: nth_eq_iff_index_eq)
  with v have "position (\<lambda>s. of_char s = c) ALPHABET = Some (unat v)"
    by (auto simp: position_Some)
  then show "symbol_value c = Some v" by (simp add: symbol_value_def)
qed

lemma alphabet_plain:
  "list_all (\<lambda>c. of_char c < (128::nat) \<and> of_char c \<noteq> (of_char CHR ''-'' :: nat) \<and>
     of_char c \<noteq> (of_char CHR ''_'' :: nat) \<and> \<not> is_whitespace (of_char c) \<and> c \<noteq> CHR ''-'' \<and> c \<noteq> CHR ''_'' \<and>
     to_ascii_uppercase (of_char c) = of_char c \<and> fold_char (of_char c) = of_char c) ALPHABET"
  by (simp add: ALPHABET_def is_whitespace_def to_ascii_uppercase_def fold_char_def)


lemma read_symbols_iff:
  "read_symbols body = Inr vs \<longleftrightarrow>
     map fold_char body = map (\<lambda>v. of_char (ALPHABET ! unat v)) vs \<and> (\<forall>v \<in> set vs. unat v < 32)"
proof (induction body arbitrary: vs)
  case Nil
  then show ?case by auto
next
  case (Cons raw rest)
  show ?case
    by (cases vs) (auto simp: bind_res_eq_Inr symbol_value_iff Cons.IH)
qed

section \<open>Bits\<close>

lemma and_one_u8: "(x AND 1 :: u8) = (if bit x 0 then 1 else 0)"
  by (simp add: and_one_eq mod2_eq_if bit_0)

lemma bit_at_eq:
  "bit_at bs k = (if k < 256 \<and> bit (bs ! (k div 8)) (7 - k mod 8) then 1 else 0)"
  by (simp add: bit_at_def DEK_LEN_def and_one_u8 bit_drop_bit_eq)

lemma bit_shift_in: "bit (push_bit 1 x OR y :: u8) n \<longleftrightarrow> (0 < n \<and> n < 8 \<and> bit x (n - 1)) \<or> bit y n"
proof -
  have "bit (push_bit 1 x) n \<longleftrightarrow> 0 < n \<and> n < 8 \<and> bit x (n - 1)"
    unfolding bit_push_bit_iff by (auto simp: Suc_le_eq)
  then show ?thesis by (simp only: bit_or_iff)
qed

lemma bit_symbol_at:
  "bit (symbol_at bs i) n \<longleftrightarrow> n < 5 \<and> bit_at bs (i * 5 + (4 - n)) = 1"
proof -
  have up: "[0..<5] = [0, 1, 2, 3, 4 :: nat]" by (simp add: upt_rec)
  have one: "bit (bit_at bs k) m \<longleftrightarrow> m = 0 \<and> bit_at bs k = 1" for k m
    by (simp add: bit_at_eq bit_1_iff)
  have n: "n = 0 \<or> n = 1 \<or> n = 2 \<or> n = 3 \<or> n = 4 \<or> n \<ge> 5" by auto
  show ?thesis
    unfolding symbol_at_def up foldl.simps bit_shift_in one using n
    by (elim disjE) simp_all
qed

lemma symbol_at_less: "unat (symbol_at bs i) < 32"
proof -
  have "symbol_at bs i = take_bit 5 (symbol_at bs i)"
    by (rule bit_word_eqI) (auto simp: bit_take_bit_iff bit_symbol_at)
  then have "unat (symbol_at bs i) = take_bit 5 (unat (symbol_at bs i))"
    by (metis unsigned_take_bit_eq)
  then show ?thesis using take_bit_nat_less_exp [of 5 "unat (symbol_at bs i)"] by simp
qed

lemma symbol_bits_mem:
  "(k, v) \<in> set (symbol_bits vs) \<longleftrightarrow>
     k < 5 * length vs \<and> v = (if bit (vs ! (k div 5)) (4 - k mod 5) then 1 else 0)"
proof
  assume "(k, v) \<in> set (symbol_bits vs)"
  then obtain i b where "i < length vs" "b < 5" "k = i * 5 + b"
    "v = drop_bit (4 - b) (vs ! i) AND 1"
    by (auto simp: symbol_bits_def)
  moreover from this have "k div 5 = i" "k mod 5 = b" by auto
  ultimately show "k < 5 * length vs \<and> v = (if bit (vs ! (k div 5)) (4 - k mod 5) then 1 else 0)"
    by (auto simp: and_one_u8 bit_drop_bit_eq)
next
  assume k: "k < 5 * length vs \<and> v = (if bit (vs ! (k div 5)) (4 - k mod 5) then 1 else 0)"
  then have "k div 5 < length vs" "k mod 5 < 5" "k = k div 5 * 5 + k mod 5" by auto
  with k show "(k, v) \<in> set (symbol_bits vs)"
    by (force simp: symbol_bits_def and_one_u8 bit_drop_bit_eq)
qed

lemma byte_bit_position:
  fixes j k n :: nat
  assumes "n < 8"
  shows "k = 8 * j + (7 - n) \<longleftrightarrow> k div 8 = j \<and> n = 7 - k mod 8"
proof
  assume k: "k = 8 * j + (7 - n)"
  have "k div 8 = j" "k mod 8 = 7 - n" unfolding k by simp_all
  with assms show "k div 8 = j \<and> n = 7 - k mod 8" by simp
next
  assume k: "k div 8 = j \<and> n = 7 - k mod 8"
  have "k = 8 * (k div 8) + k mod 8" "k mod 8 < 8" by simp_all
  with k assms show "k = 8 * j + (7 - n)" by simp
qed

text \<open>What the placing loop does: it stops exactly when a padding bit is set, and otherwise the
  bits of the result are the bits placed.\<close>

lemma place_bits_spec:
  assumes "length bs = 32" and "\<forall>(k, v) \<in> set kvs. v = 0 \<or> v = 1"
  shows "(case place_bits kvs bs of
            Inl e \<Rightarrow> e = NonCanonical \<and> (\<exists>k \<ge> 256. (k, 1) \<in> set kvs)
          | Inr bs' \<Rightarrow> length bs' = 32 \<and> (\<forall>k \<ge> 256. (k, 1) \<notin> set kvs) \<and>
              (\<forall>j < 32. \<forall>n < 8. bit (bs' ! j) n \<longleftrightarrow> bit (bs ! j) n \<or> (8 * j + (7 - n), 1) \<in> set kvs))"
  using assms
proof (induction kvs arbitrary: bs)
  case Nil
  then show ?case by simp
next
  case (Cons kv kvs)
  obtain k v where kv: "kv = (k, v)" by force
  from Cons.prems kv have v: "v = 0 \<or> v = 1" and rest: "\<forall>(k, v) \<in> set kvs. v = 0 \<or> v = 1" by auto
  show ?case
  proof (cases "k \<ge> 256")
    case True
    then show ?thesis
      using Cons.IH [OF Cons.prems(1) rest] kv v
      by (cases "place_bits kvs bs") (auto simp: DEK_LEN_def)
  next
    case False
    let ?bs = "bs[k div 8 := bs ! (k div 8) OR push_bit (7 - k mod 8) v]"
    have bits: "bit (?bs ! j) n \<longleftrightarrow> bit (bs ! j) n \<or> (k = 8 * j + (7 - n) \<and> v = 1)"
      if "j < 32" "n < 8" for j n
    proof -
      have "bit (push_bit (7 - k mod 8) v) n \<longleftrightarrow> n = 7 - k mod 8 \<and> v = 1"
        using that(2) v by (auto simp: bit_push_bit_iff bit_1_iff)
      then show ?thesis
        unfolding byte_bit_position [OF that(2)]
        using that(1) Cons.prems(1) by (cases "k div 8 = j") (auto simp: bit_or_iff)
    qed
    have len: "length ?bs = 32" using Cons.prems(1) by simp
    have step: "place_bits (kv # kvs) bs = place_bits kvs ?bs"
      using False kv by (simp add: DEK_LEN_def)
    show ?thesis
      using Cons.IH [OF len rest] bits False kv unfolding step
      by (cases "place_bits kvs ?bs") auto
  qed
qed

lemma symbol_bits_binary: "\<forall>(k, v) \<in> set (symbol_bits vs). v = 0 \<or> v = 1"
  by (auto simp: symbol_bits_mem)

lemma bit_zero_byte: "length bs = 32 \<Longrightarrow> j < 32 \<Longrightarrow> bit ((replicate 32 0 :: bytes) ! j) n = False"
  by simp

text \<open>Both directions of the packing: the symbols of a key give back its bytes, and bytes
  accepted from symbols have those symbols.\<close>

lemma place_symbols_of_key:
  assumes "length bs = 32"
  shows "place_bits (symbol_bits (map (symbol_at bs) [0..<52])) (replicate 32 0) = Inr bs"
proof -
  let ?vs = "map (symbol_at bs) [0..<52]"
  let ?r = "place_bits (symbol_bits ?vs) (replicate 32 0)"
  have byte_index: "8 * j + 7 - n < 256" "(8 * j + 7 - n) div 8 = j" "7 - (8 * j + 7 - n) mod 8 = n"
    if "j < 32" "n < 8" for j n :: nat
    using byte_bit_position [OF that(2), of "8 * j + 7 - n" j] that by simp_all
  have mem: "(k, 1) \<in> set (symbol_bits ?vs) \<longleftrightarrow> k < 256 \<and> bit (bs ! (k div 8)) (7 - k mod 8)" for k
  proof (cases "k < 260")
    case True
    then have "k div 5 < 52" "k div 5 * 5 + (4 - (4 - k mod 5)) = k" by auto
    with True show ?thesis
      by (auto simp: symbol_bits_mem bit_symbol_at bit_at_eq)
  next
    case False
    then show ?thesis by (simp add: symbol_bits_mem)
  qed
  have spec: "case ?r of Inl e \<Rightarrow> False
      | Inr bs' \<Rightarrow> length bs' = 32 \<and> (\<forall>j < 32. \<forall>n < 8. bit (bs' ! j) n \<longleftrightarrow> bit (bs ! j) n)"
    using place_bits_spec [of "replicate 32 0" "symbol_bits ?vs", OF _ symbol_bits_binary]
    unfolding mem by (cases ?r) (auto simp: byte_index)
  then obtain bs' where r: "?r = Inr bs'" and len: "length bs' = 32"
    and bits: "\<And>j n. j < 32 \<Longrightarrow> n < 8 \<Longrightarrow> bit (bs' ! j) n \<longleftrightarrow> bit (bs ! j) n"
    by (auto split: sum.splits)
  have "bs' = bs"
    using assms len bits by (intro nth_equalityI bit_word_eqI) auto
  with r show ?thesis by simp
qed

lemma key_of_placed_symbols:
  assumes "place_bits (symbol_bits vs) (replicate 32 0) = Inr bs"
    and "length vs = 52" and "\<forall>v \<in> set vs. unat v < 32"
  shows "length bs = 32 \<and> map (symbol_at bs) [0..<52] = vs"
proof -
  have spec: "length bs = 32" "\<And>k. k \<ge> 256 \<Longrightarrow> (k, 1) \<notin> set (symbol_bits vs)"
    "\<And>j n. j < 32 \<Longrightarrow> n < 8 \<Longrightarrow> bit (bs ! j) n \<longleftrightarrow> (8 * j + (7 - n), 1) \<in> set (symbol_bits vs)"
    using place_bits_spec [of "replicate 32 0" "symbol_bits vs", OF _ symbol_bits_binary] assms(1)
    by auto
  have at: "bit_at bs k = 1 \<longleftrightarrow> (k, 1) \<in> set (symbol_bits vs)" for k
  proof (cases "k < 256")
    case True
    then have "k div 8 < 32" "8 * (k div 8) + (7 - (7 - k mod 8)) = k" by auto
    with True spec(3) [of "k div 8" "7 - k mod 8"] show ?thesis by (simp add: bit_at_eq)
  next
    case False
    with spec(2) show ?thesis by (simp add: bit_at_eq)
  qed
  have "symbol_at bs i = vs ! i" if i: "i < 52" for i
  proof (rule bit_word_eqI)
    fix n
    assume "n < LENGTH(8)"
    have small: "n \<ge> 5 \<Longrightarrow> \<not> bit (vs ! i) n"
    proof -
      assume n: "n \<ge> 5"
      have "unat (vs ! i) < 2 ^ 5" using assms(2,3) i by (simp add: all_set_conv_all_nth)
      then have "take_bit 5 (vs ! i) = vs ! i" by (metis unsigned_take_bit_eq take_bit_nat_eq_self unsigned_word_eqI)
      with n show "\<not> bit (vs ! i) n" by (metis bit_take_bit_iff leD)
    qed
    have "(i * 5 + (4 - n)) div 5 = i" "(i * 5 + (4 - n)) mod 5 = 4 - n"
      by (simp_all del: Nat.add_diff_assoc)
    then show "bit (symbol_at bs i) n = bit (vs ! i) n"
      using small i assms(2) by (cases "n < 5") (auto simp: bit_symbol_at at symbol_bits_mem not_less)
  qed
  with assms(2) spec(1) show ?thesis by (auto intro: nth_equalityI)
qed

section \<open>Reading back what was written down\<close>

lemma unat_check_bits: "unat (check_bits P d) < 32"
proof -
  have "unat (x AND 31 :: u8) \<le> 31" for x
    using word_and_le1 [of x 31] by (simp add: word_le_nat_alt)
  then show ?thesis unfolding check_bits_def by (rule le_less_trans) simp
qed

lemma filter_join:
  "\<not> p CHR ''-'' \<Longrightarrow> filter p (join ''-'' xss) = filter p (concat xss)"
  by (induction "''-''" xss rule: join.induct) auto

lemma set_join: "set (join ''-'' xss) \<subseteq> insert CHR ''-'' (set (concat xss))"
  by (induction "''-''" xss rule: join.induct) auto

lemma alphabet_member: "n < 32 \<Longrightarrow> ALPHABET ! n \<in> set ALPHABET"
  by simp

lemma dek_symbols_alphabet: "set (dek_symbols P d) \<subseteq> set ALPHABET"
  using symbol_at_less unat_check_bits by (auto simp: dek_symbols_def)

lemma alphabet_cases:
  assumes "c \<in> set ALPHABET"
  shows "of_char c < (128::nat)" "\<not> is_whitespace (of_char c)" "c \<noteq> CHR ''-''" "c \<noteq> CHR ''_''"
    "to_ascii_uppercase (of_char c) = of_char c" "fold_char (of_char c) = of_char c"
    "of_char c \<noteq> (of_char CHR ''-'' :: nat)" "of_char c \<noteq> (of_char CHR ''_'' :: nat)"
  using assms alphabet_plain by (auto simp: list_all_iff)

lemma length_dek_symbols [simp]: "length (dek_symbols P d) = 53"
  by (simp add: dek_symbols_def DATA_CHARS_def)

text \<open>The body of the text written down is the symbols themselves: the prefix and the separators
  go, and nothing in the alphabet is touched by folding or by the change of case.\<close>

lemma key_body_encode: "key_body (recovery_encode P d) = map of_char (dek_symbols P d)"
proof -
  let ?s = "dek_symbols P d"
  let ?sep = "\<lambda>c. \<not> is_whitespace c \<and> c \<noteq> of_char CHR ''-'' \<and> c \<noteq> of_char CHR ''_''"
  have alph: "c \<in> set ALPHABET" if "c \<in> set ?s" for c
    using that dek_symbols_alphabet by blast
  have sub: "set (join ''-'' (chunks GROUP ?s)) \<subseteq> insert CHR ''-'' (set ?s)"
    using set_join [of "chunks GROUP ?s"] by (simp add: concat_chunks GROUP_def)
  have asc: "ascii (recovery_encode P d)"
    using sub alph alphabet_cases(1) by (auto simp: recovery_encode_def ascii_def PREFIX_def)
  have keep: "filter (\<lambda>c. ?sep (of_char c)) (join ''-'' (chunks GROUP ?s)) = ?s"
    using alph alphabet_cases(2,7,8)
    by (subst filter_join) (auto simp: concat_chunks GROUP_def filter_id_conv)
  have up: "map (to_ascii_uppercase \<circ> of_char) ?s = map of_char ?s"
    using alph alphabet_cases(5) by simp
  have "filter ?sep (chars (recovery_encode P d)) = map of_char (PREFIX @ ?s)"
    unfolding chars_ascii [OF asc] filter_map comp_def unfolding recovery_encode_def filter_append keep
    by (simp add: PREFIX_def is_whitespace_def)
  then show ?thesis
    using up by (simp add: key_body_def Let_def PREFIX_def to_ascii_uppercase_def)
qed

lemma recovery_decode_eq:
  "recovery_decode P input = Inr d \<longleftrightarrow>
     dek_ok d \<and> map fold_char (key_body input) = map of_char (dek_symbols P d)"
proof
  assume dec: "recovery_decode P input = Inr d"
  let ?body = "key_body input"
  from dec have len: "length ?body = 53"
    by (auto simp: recovery_decode_def Let_def DATA_CHARS_def split: if_splits)
  with dec obtain vs bs where vs: "read_symbols ?body = Inr vs"
    and bs: "place_bits (symbol_bits (butlast vs)) (replicate 32 0) = Inr bs"
    and d: "d = \<lparr>dek_bytes = bs\<rparr>" and check: "check_bits P d = last vs"
    by (auto simp: recovery_decode_def Let_def DATA_CHARS_def DEK_LEN_def bind_res_eq_Inr split: if_splits)
  from vs have body: "map fold_char ?body = map (\<lambda>v. of_char (ALPHABET ! unat v)) vs"
    and small: "\<forall>v \<in> set vs. unat v < 32" by (auto simp: read_symbols_iff)
  from body len have lvs: "length vs = 53" by (metis length_map)
  then have split: "vs = butlast vs @ [last vs]" by (metis append_butlast_last_id list.size(3) zero_neq_numeral)
  have "\<forall>v \<in> set (butlast vs). unat v < 32" using small by (meson in_set_butlastD)
  from key_of_placed_symbols [OF bs _ this] lvs have "length bs = 32"
    and syms: "map (symbol_at bs) [0..<52] = butlast vs" by auto
  have "vs = map (symbol_at bs) [0..<52] @ [check_bits P d]" using split syms check by simp
  with body d have "map fold_char ?body = map of_char (dek_symbols P d)"
    by (simp add: dek_symbols_def DATA_CHARS_def comp_def)
  with \<open>length bs = 32\<close> d show "dek_ok d \<and> map fold_char ?body = map of_char (dek_symbols P d)"
    by (simp add: dek_ok_def DEK_LEN_def)
next
  assume asm: "dek_ok d \<and> map fold_char (key_body input) = map of_char (dek_symbols P d)"
  let ?vs = "map (symbol_at (dek_bytes d)) [0..<52] @ [check_bits P d]"
  have vs: "read_symbols (key_body input) = Inr ?vs"
    unfolding read_symbols_iff using asm symbol_at_less unat_check_bits
    by (simp add: dek_symbols_def DATA_CHARS_def comp_def)
  have "length (key_body input) = 53"
    using asm by (metis length_dek_symbols length_map)
  then show "recovery_decode P input = Inr d"
    using vs asm place_symbols_of_key [of "dek_bytes d"]
    by (simp add: recovery_decode_def Let_def DATA_CHARS_def DEK_LEN_def dek_ok_def check_bits_def)
qed

text \<open>C27. Reading a recovery key: a text is accepted exactly when its body, folded, is the
  canonical rendering of the key it decodes to, checksum character included. So no two keys
  share a text, padding bits must be zero, and a mistyped character that is not one of the
  folded look-alikes is refused or changes the key's own rendering.\<close>

theorem recovery_decode_iff:
  "recovery_decode P input = Inr d \<longleftrightarrow>
     dek_ok d \<and> map fold_char (key_body input) = map of_char (dek_symbols P d)"
  by (rule recovery_decode_eq)

text \<open>Writing a key down and typing it back gives the same key, whatever hash the checksum is
  taken from.\<close>

theorem recovery_roundtrip:
  assumes "dek_ok d"
  shows "recovery_decode P (recovery_encode P d) = Inr d"
proof -
  have "map fold_char (key_body (recovery_encode P d)) = map of_char (dek_symbols P d)"
    unfolding key_body_encode using dek_symbols_alphabet alphabet_cases(6) by fastforce
  with assms show ?thesis by (simp add: recovery_decode_eq)
qed

definition example_dek :: dek where
  "example_dek = \<lparr>dek_bytes = replicate 32 7\<rparr>"

lemma example_dek_ok [simp]: "dek_ok example_dek"
  by (simp add: dek_ok_def example_dek_def DEK_LEN_def)

theorem recovery_roundtrip_witness:
  "dek_ok example_dek \<and> recovery_decode ref_prims (recovery_encode ref_prims example_dek) = Inr example_dek"
  using recovery_roundtrip [OF example_dek_ok] by simp

end
