(* ===== verification/Envelope.thy ===== *)
theory Envelope
  imports Dek
begin

text \<open>
  \<^verbatim>\<open>zode_sync/src/envelope.rs\<close>: the slots of the service (\<^verbatim>\<open>Resource\<close>), the additional
  authenticated data that binds a ciphertext to its slot, sealing and opening, and the wire
  form. AES-GCM, base64 and the JSON text level are parameters; the results are that opening
  returns exactly what was sealed there, that distinct slots have distinct additional data, and
  which error each failure is.
\<close>

section \<open>Slots\<close>

definition ENVELOPE_VERSION :: u32 where
  "ENVELOPE_VERSION = 1"

definition ALGORITHM :: string where
  "ALGORITHM = ''AES-256-GCM''"

definition SEPARATOR :: u8 where
  "SEPARATOR = 31"

definition SHARING_KEY_RESOURCE :: string where
  "SHARING_KEY_RESOURCE = ''sharing-key''"

definition TEAM_ENTRY_LABEL :: string where
  "TEAM_ENTRY_LABEL = ''team-entry''"

datatype team_route = Key | MemberKeys | KeyEnvelopes | KeyRotate

fun team_route_as_str :: "team_route \<Rightarrow> string" where
  "team_route_as_str Key = ''key''"
| "team_route_as_str MemberKeys = ''members/keys''"
| "team_route_as_str KeyEnvelopes = ''key/envelopes''"
| "team_route_as_str KeyRotate = ''key/rotate''"

datatype kind = Settings | Keymap | Extensions

definition ALL_KINDS :: "kind list" where
  "ALL_KINDS = [Settings, Keymap, Extensions]"

fun kind_as_str :: "kind \<Rightarrow> string" where
  "kind_as_str Settings = ''settings''"
| "kind_as_str Keymap = ''keymap''"
| "kind_as_str Extensions = ''extensions''"

record resource =
  r_path :: string
  r_aad_label :: string
  r_discriminator :: "string option"

datatype sync_crypto_error =
    WrongKey
  | KeyRotated bytes bytes
  | UnsupportedVersion u32
  | Malformed string

fun crypto_display :: "sync_crypto_error \<Rightarrow> string" where
  "crypto_display WrongKey = ''that recovery key does not open this data''"
| "crypto_display (KeyRotated theirs ours) =
     ''this data was encrypted with a different recovery key '' @ string_of_chars [8212] @
     '' it was probably rotated on another machine''"
| "crypto_display (UnsupportedVersion v) =
     ''this data uses envelope format '' @ nat_str (unat v) @
     '', which this version of Zode cannot read''"
| "crypto_display (Malformed reason) = ''this data is not a Zode envelope: '' @ reason"

definition segment_char :: "char \<Rightarrow> bool" where
  "segment_char c \<longleftrightarrow>
     (let b = of_char c :: nat in (97 \<le> b \<and> b \<le> 122) \<or> (48 \<le> b \<and> b \<le> 57) \<or> c = CHR ''-'')"

definition validated_segment :: "string \<Rightarrow> sync_crypto_error + string" where
  "validated_segment raw =
     (if raw = [] \<or> length raw > 64
      then Inl (Malformed (''resource segment length '' @ nat_str (length raw)))
      else if \<not> list_all segment_char raw
      then Inl (Malformed ''a resource segment is lowercase letters, digits and dashes'')
      else Inr raw)"

definition resource_sync :: "kind \<Rightarrow> resource" where
  "resource_sync kind =
     \<lparr>r_path = ''sync/'' @ kind_as_str kind, r_aad_label = kind_as_str kind, r_discriminator = None\<rparr>"

definition resource_env_entry :: "string \<Rightarrow> sync_crypto_error + resource" where
  "resource_env_entry entry_id = bind_res (validated_segment entry_id) (\<lambda>entry_id.
     Inr \<lparr>r_path = ''env/'' @ entry_id, r_aad_label = ''env'', r_discriminator = Some entry_id\<rparr>)"

definition resource_env_singleton :: "string \<Rightarrow> sync_crypto_error + resource" where
  "resource_env_singleton name = bind_res (validated_segment name) (\<lambda>_.
     Inr \<lparr>r_path = ''sync/'' @ name, r_aad_label = name, r_discriminator = None\<rparr>)"

definition resource_env_listing :: resource where
  "resource_env_listing = \<lparr>r_path = ''env'', r_aad_label = ''env'', r_discriminator = None\<rparr>"

definition resource_sharing_key :: resource where
  "resource_sharing_key =
     \<lparr>r_path = ''sync/'' @ SHARING_KEY_RESOURCE, r_aad_label = SHARING_KEY_RESOURCE,
      r_discriminator = None\<rparr>"

definition resource_account_sharing_key :: resource where
  "resource_account_sharing_key =
     \<lparr>r_path = ''account/'' @ SHARING_KEY_RESOURCE, r_aad_label = SHARING_KEY_RESOURCE,
      r_discriminator = None\<rparr>"

definition resource_team_entry :: "string \<Rightarrow> string \<Rightarrow> sync_crypto_error + resource" where
  "resource_team_entry team_id entry_id =
     bind_res (validated_segment team_id) (\<lambda>team_id.
     bind_res (validated_segment entry_id) (\<lambda>entry_id.
     Inr \<lparr>r_path = ''teams/'' @ team_id @ ''/vault/'' @ entry_id,
          r_aad_label = TEAM_ENTRY_LABEL,
          r_discriminator = Some (team_id @ [char_of_byte SEPARATOR] @ entry_id)\<rparr>))"

definition resource_team_listing :: "string \<Rightarrow> sync_crypto_error + resource" where
  "resource_team_listing team_id = bind_res (validated_segment team_id) (\<lambda>team_id.
     Inr \<lparr>r_path = ''teams/'' @ team_id @ ''/vault'', r_aad_label = TEAM_ENTRY_LABEL,
          r_discriminator = None\<rparr>)"

definition resource_team_route :: "string \<Rightarrow> team_route \<Rightarrow> sync_crypto_error + resource" where
  "resource_team_route team_id route = bind_res (validated_segment team_id) (\<lambda>team_id.
     Inr \<lparr>r_path = ''teams/'' @ team_id @ ''/'' @ team_route_as_str route,
          r_aad_label = TEAM_ENTRY_LABEL, r_discriminator = None\<rparr>)"

section \<open>Sealing and opening\<close>

record envelope =
  env_v :: u32
  env_alg :: string
  env_kid :: string
  env_nonce :: string
  env_ct :: string

definition NONCE_LEN :: nat where
  "NONCE_LEN = 12"

definition aad :: "string \<Rightarrow> resource \<Rightarrow> u32 \<Rightarrow> bytes \<Rightarrow> bytes" where
  "aad user_id resource version kid_bytes =
     as_bytes user_id @ [SEPARATOR] @
     as_bytes (r_aad_label resource) @ [SEPARATOR] @
     as_bytes (nat_str (unat version)) @ [SEPARATOR] @
     kid_bytes @
     (case r_discriminator resource of
        Some discriminator \<Rightarrow> [SEPARATOR] @ as_bytes discriminator
      | None \<Rightarrow> [])"

definition sealing_key :: "dek \<Rightarrow> sync_crypto_error + bytes" where
  "sealing_key d =
     (if length (dek_bytes d) = 32 then Inr (dek_bytes d) else Inl (Malformed ''key length''))"

definition encrypt_at ::
    "prims \<Rightarrow> dek \<Rightarrow> string \<Rightarrow> resource \<Rightarrow> bytes \<Rightarrow> ('w world, sync_crypto_error, envelope) io" where
  "encrypt_at P d user_id resource plaintext =
     io_bind (io_map_err (\<lambda>_. Malformed ''no randomness available'') (random_fill NONCE_LEN))
     (\<lambda>nonce. io_res (
        bind_res (sealing_key d) (\<lambda>k.
        bind_res (ok_or (Malformed ''sealing failed'')
          (gcm_seal P k nonce (aad user_id resource ENVELOPE_VERSION (kid P d)) plaintext)) (\<lambda>ct.
        Inr \<lparr>env_v = ENVELOPE_VERSION, env_alg = ALGORITHM, env_kid = b64_encode P (kid P d),
             env_nonce = b64_encode P nonce, env_ct = b64_encode P ct\<rparr>))))"

definition encrypt ::
    "prims \<Rightarrow> dek \<Rightarrow> string \<Rightarrow> kind \<Rightarrow> bytes \<Rightarrow> ('w world, sync_crypto_error, envelope) io" where
  "encrypt P d user_id kind plaintext = encrypt_at P d user_id (resource_sync kind) plaintext"

text \<open>\<^verbatim>\<open>BASE64.decode(..).ok().and_then(|bytes| bytes.try_into().ok())\<close>\<close>

definition b64_array :: "prims \<Rightarrow> nat \<Rightarrow> string \<Rightarrow> bytes option" where
  "b64_array P n text =
     (case b64_decode P text of None \<Rightarrow> None | Some bs \<Rightarrow> if length bs = n then Some bs else None)"

definition decrypt_at :: "prims \<Rightarrow> dek \<Rightarrow> string \<Rightarrow> resource \<Rightarrow> envelope \<Rightarrow> sync_crypto_error + bytes" where
  "decrypt_at P d user_id resource envelope =
     (if env_v envelope \<noteq> ENVELOPE_VERSION then Inl (UnsupportedVersion (env_v envelope))
      else if env_alg envelope \<noteq> ALGORITHM then Inl (Malformed (''algorithm '' @ env_alg envelope))
      else bind_res (ok_or (Malformed ''key fingerprint'') (b64_array P KID_LEN (env_kid envelope))) (\<lambda>theirs.
        let ours = kid P d in
        if theirs \<noteq> ours then Inl (KeyRotated theirs ours)
        else bind_res (ok_or (Malformed ''nonce'') (b64_array P NONCE_LEN (env_nonce envelope))) (\<lambda>nonce.
          bind_res (ok_or (Malformed ''ciphertext'') (b64_decode P (env_ct envelope))) (\<lambda>buffer.
          bind_res (sealing_key d) (\<lambda>k.
          ok_or WrongKey (gcm_open P k nonce (aad user_id resource (env_v envelope) ours) buffer))))))"

definition decrypt :: "prims \<Rightarrow> dek \<Rightarrow> string \<Rightarrow> kind \<Rightarrow> envelope \<Rightarrow> sync_crypto_error + bytes" where
  "decrypt P d user_id kind envelope = decrypt_at P d user_id (resource_sync kind) envelope"

section \<open>The wire form\<close>

definition envelope_json :: "envelope \<Rightarrow> json" where
  "envelope_json e = JObj
     [(''v'', JNum (int (unat (env_v e)))), (''alg'', JStr (env_alg e)), (''kid'', JStr (env_kid e)),
      (''nonce'', JStr (env_nonce e)), (''ct'', JStr (env_ct e))]"

definition envelope_of_json :: "json \<Rightarrow> envelope option" where
  "envelope_of_json j =
     (case struct_fields [''v'', ''alg'', ''kid'', ''nonce'', ''ct''] j of
        Some [Some jv, Some ja, Some jk, Some jn, Some jc] \<Rightarrow>
          (case (as_u32 jv, as_str ja, as_str jk, as_str jn, as_str jc) of
             (Some v, Some a, Some k, Some n, Some c) \<Rightarrow>
               Some \<lparr>env_v = v, env_alg = a, env_kid = k, env_nonce = n, env_ct = c\<rparr>
           | _ \<Rightarrow> None)
      | _ \<Rightarrow> None)"

definition to_blob :: "prims \<Rightarrow> envelope \<Rightarrow> sync_crypto_error + string" where
  "to_blob P e = bind_res (map_err Malformed (json_text P (envelope_json e)))
     (\<lambda>text. Inr (b64_encode P (as_bytes text)))"

definition from_blob :: "prims \<Rightarrow> string \<Rightarrow> sync_crypto_error + envelope" where
  "from_blob P blob =
     bind_res (ok_or (Malformed ''blob is not base64'') (b64_decode P blob)) (\<lambda>bs.
     bind_res (map_err Malformed (json_read P (string_of_bytes bs))) (\<lambda>j.
     ok_or (Malformed (serde_error P j)) (envelope_of_json j)))"

section \<open>Validated segments\<close>

lemma validated_segment_iff:
  "validated_segment raw = Inr s \<longleftrightarrow> s = raw \<and> raw \<noteq> [] \<and> length raw \<le> 64 \<and> list_all segment_char raw"
  by (auto simp: validated_segment_def)

lemma separator_char: "char_of_byte SEPARATOR = CHR 0x1F"
  by (simp add: char_of_byte_def SEPARATOR_def char_of_def bit_0)

lemma segment_char_plain: "segment_char c \<Longrightarrow> c \<noteq> CHR ''/'' \<and> c \<noteq> char_of_byte SEPARATOR"
  by (auto simp: segment_char_def Let_def separator_char)

lemma segment_no_separator:
  "list_all segment_char s \<Longrightarrow> char_of_byte SEPARATOR \<notin> set s"
  "list_all segment_char s \<Longrightarrow> CHR ''/'' \<notin> set s"
  using segment_char_plain by (auto simp: list_all_iff)

lemma separator_as_bytes: "SEPARATOR \<in> set (as_bytes s) \<longleftrightarrow> char_of_byte SEPARATOR \<in> set s"
  by (auto simp: as_bytes_def image_iff) (metis byte_of_char_of_byte char_of_byte_of_char)+

lemma digits_no_separator: "SEPARATOR \<notin> set (as_bytes (nat_str n))"
proof -
  have "of_char (char_of_byte SEPARATOR) = (31::nat)" by (simp add: separator_char)
  then show ?thesis unfolding separator_as_bytes using nat_str_digits [of "char_of_byte SEPARATOR" n] by auto
qed

text \<open>The resources something is sealed under.\<close>

definition sealed_resource :: "resource \<Rightarrow> bool" where
  "sealed_resource r \<longleftrightarrow>
     (\<exists>kind. r = resource_sync kind) \<or> (\<exists>i. resource_env_entry i = Inr r) \<or>
     (\<exists>n. resource_env_singleton n = Inr r) \<or> r = resource_sharing_key \<or>
     (\<exists>t i. resource_team_entry t i = Inr r)"

lemma sealed_resourceE:
  assumes "sealed_resource r"
  obtains (singleton) name where "list_all segment_char name"
      "r = \<lparr>r_path = ''sync/'' @ name, r_aad_label = name, r_discriminator = None\<rparr>"
  | (env_entry) i where "list_all segment_char i"
      "r = \<lparr>r_path = ''env/'' @ i, r_aad_label = ''env'', r_discriminator = Some i\<rparr>"
  | (team_entry) t i where "list_all segment_char t" "list_all segment_char i"
      "r = \<lparr>r_path = ''teams/'' @ t @ ''/vault/'' @ i, r_aad_label = TEAM_ENTRY_LABEL,
            r_discriminator = Some (t @ [char_of_byte SEPARATOR] @ i)\<rparr>"
proof -
  have kinds: "list_all segment_char (kind_as_str kind)" for kind
    by (cases kind) (simp_all add: segment_char_def Let_def)
  have sharing: "list_all segment_char SHARING_KEY_RESOURCE"
    by (simp add: SHARING_KEY_RESOURCE_def segment_char_def Let_def)
  show thesis
    using assms unfolding sealed_resource_def
    by (elim disjE exE)
      (auto simp: resource_sync_def resource_env_entry_def resource_env_singleton_def
         resource_sharing_key_def resource_team_entry_def bind_res_eq_Inr validated_segment_iff
         intro: that kinds sharing)
qed

lemma sealed_label_plain: "sealed_resource r \<Longrightarrow> SEPARATOR \<notin> set (as_bytes (r_aad_label r))"
  unfolding separator_as_bytes
  by (erule sealed_resourceE)
    (auto dest: segment_no_separator(1) simp: TEAM_ENTRY_LABEL_def separator_char)

lemma sealed_resource_identity:
  assumes "sealed_resource r" and "sealed_resource r'"
    and "r_aad_label r = r_aad_label r'" and "r_discriminator r = r_discriminator r'"
  shows "r = r'"
  using assms(1)
proof (cases rule: sealed_resourceE)
  case (singleton name)
  then show ?thesis using assms(3,4) by (cases rule: sealed_resourceE [OF assms(2)]) auto
next
  case (env_entry i)
  then show ?thesis using assms(3,4)
    by (cases rule: sealed_resourceE [OF assms(2)]) (auto simp: TEAM_ENTRY_LABEL_def)
next
  case (team_entry t i)
  then show ?thesis using assms(3,4)
    by (cases rule: sealed_resourceE [OF assms(2)])
      (auto simp: TEAM_ENTRY_LABEL_def split_at_separator segment_no_separator)
qed

section \<open>What the additional data says\<close>

lemma aad_eq_iff:
  assumes "SEPARATOR \<notin> set (as_bytes u)" "SEPARATOR \<notin> set (as_bytes u')"
    and "SEPARATOR \<notin> set (as_bytes (r_aad_label r))" "SEPARATOR \<notin> set (as_bytes (r_aad_label r'))"
    and "length k = length k'"
  shows "aad u r v k = aad u' r' v' k' \<longleftrightarrow>
     u = u' \<and> r_aad_label r = r_aad_label r' \<and> v = v' \<and> k = k' \<and> r_discriminator r = r_discriminator r'"
  using assms
  by (auto simp: aad_def split_at_separator digits_no_separator word_unat_eq_iff split: option.splits)

section \<open>Sealing and opening again\<close>

lemma b64_array_encode [simp]: "base64_ok P \<Longrightarrow> length bs = n \<Longrightarrow> b64_array P n (b64_encode P bs) = Some bs"
  by (simp add: b64_array_def base64_ok_def)

lemma b64_array_Some: "b64_array P n t = Some bs \<longleftrightarrow> b64_decode P t = Some bs \<and> length bs = n"
  by (auto simp: b64_array_def split: option.splits)

lemma sealing_key_ok [simp]: "dek_ok d \<Longrightarrow> sealing_key d = Inr (dek_bytes d)"
  by (simp add: sealing_key_def dek_ok_def DEK_LEN_def)

lemma encrypt_at_Inr:
  assumes "encrypt_at P d u r p w = (Inr e, w')"
  obtains nonce c where "length nonce = NONCE_LEN"
    and "gcm_seal P (dek_bytes d) nonce (aad u r ENVELOPE_VERSION (kid P d)) p = Some c"
    and "e = \<lparr>env_v = ENVELOPE_VERSION, env_alg = ALGORITHM, env_kid = b64_encode P (kid P d),
             env_nonce = b64_encode P nonce, env_ct = b64_encode P c\<rparr>"
  using assms unfolding encrypt_at_def
  by (auto simp: io_bind_eq_Inr io_map_err_apply bind_res_eq_Inr sealing_key_def
      split: prod.splits if_splits dest!: length_random_fill elim!: that)

text \<open>Opening an envelope this build sealed is opening its ciphertext at the slot asked for.\<close>

lemma decrypt_sealed:
  assumes "encrypt_at P d u r p w = (Inr e, w')" and "sha256_ok P" "base64_ok P" "dek_ok d"
  obtains nonce c where "gcm_seal P (dek_bytes d) nonce (aad u r ENVELOPE_VERSION (kid P d)) p = Some c"
    and "\<And>u' r'. decrypt_at P d u' r' e =
      ok_or WrongKey (gcm_open P (dek_bytes d) nonce (aad u' r' ENVELOPE_VERSION (kid P d)) c)"
proof -
  from assms(1) obtain nonce c where *: "length nonce = NONCE_LEN"
    "gcm_seal P (dek_bytes d) nonce (aad u r ENVELOPE_VERSION (kid P d)) p = Some c"
    "e = \<lparr>env_v = ENVELOPE_VERSION, env_alg = ALGORITHM, env_kid = b64_encode P (kid P d),
             env_nonce = b64_encode P nonce, env_ct = b64_encode P c\<rparr>"
    by (rule encrypt_at_Inr)
  moreover have "b64_decode P (b64_encode P c) = Some c" using assms(3) by (simp add: base64_ok_def)
  ultimately show thesis using assms(2-4) by (intro that [of nonce c]) (simp_all add: decrypt_at_def)
qed

lemma decrypt_encrypt:
  assumes "encrypt_at P d u r p w = (Inr e, w')"
    and "gcm_ok P" "sha256_ok P" "base64_ok P" "dek_ok d"
  shows "decrypt_at P d u r e = Inr p"
proof -
  from assms obtain nonce c
    where "gcm_seal P (dek_bytes d) nonce (aad u r ENVELOPE_VERSION (kid P d)) p = Some c"
      and "decrypt_at P d u r e =
        ok_or WrongKey (gcm_open P (dek_bytes d) nonce (aad u r ENVELOPE_VERSION (kid P d)) c)"
    by (auto elim: decrypt_sealed)
  with assms(2) show ?thesis by (simp add: gcm_ok_def)
qed

lemma envelope_json_roundtrip [simp]: "envelope_of_json (envelope_json e) = Some e"
  by (simp add: envelope_of_json_def envelope_json_def struct_simps)

lemma blob_roundtrip: "json_ok P \<Longrightarrow> base64_ok P \<Longrightarrow> to_blob P e = Inr b \<Longrightarrow> from_blob P b = Inr e"
  by (auto simp: to_blob_def from_blob_def bind_res_eq_Inr json_ok_def base64_ok_def)

text \<open>C1. Sealing then opening at the same slot gives back the plaintext, through the wire form:
  whatever nonce was drawn, the blob \<open>to_blob\<close> writes is read by \<open>from_blob\<close> and opens under the
  same key, user and resource to exactly the bytes that were sealed.\<close>

theorem seal_open_roundtrip:
  assumes "gcm_ok P" "sha256_ok P" "base64_ok P" "json_ok P" "dek_ok d"
    and "encrypt_at P d user_id r plaintext w = (Inr e, w')"
    and "to_blob P e = Inr blob"
  shows "bind_res (from_blob P blob) (decrypt_at P d user_id r) = Inr plaintext"
  using assms by (simp add: blob_roundtrip decrypt_encrypt)

abbreviation example_seal :: "resource \<Rightarrow> (sync_crypto_error + envelope) \<times> unit world" where
  "example_seal r \<equiv> encrypt_at ref_prims example_dek ''u1'' r (as_bytes ''hi'') (quiet_world ())"

lemma example_sealed:
  obtains e w' blob where "example_seal (resource_sync Settings) = (Inr e, w')" "to_blob ref_prims e = Inr blob"
proof -
  have "case fst (example_seal (resource_sync Settings)) of
      Inr e \<Rightarrow> (case to_blob ref_prims e of Inr b \<Rightarrow> True | _ \<Rightarrow> False) | _ \<Rightarrow> False"
    unfolding example_dek_def by code_simp
  then show thesis
    by (cases "example_seal (resource_sync Settings)") (auto split: sum.splits intro: that)
qed

theorem seal_open_roundtrip_witness:
  "\<exists>e w' blob. example_seal (resource_sync Settings) = (Inr e, w') \<and> to_blob ref_prims e = Inr blob \<and>
     bind_res (from_blob ref_prims blob) (decrypt_at ref_prims example_dek ''u1'' (resource_sync Settings))
       = Inr (as_bytes ''hi'')"
proof -
  obtain e w' blob where *: "example_seal (resource_sync Settings) = (Inr e, w')" "to_blob ref_prims e = Inr blob"
    by (rule example_sealed)
  from seal_open_roundtrip [OF ref_gcm_ok ref_sha256_ok ref_base64_ok ref_json_ok example_dek_ok this]
  show ?thesis using * by blast
qed

text \<open>C2. A ciphertext is bound to its slot. If an envelope sealed for one user and resource is
  moved to another user's or resource's slot, the additional data it is checked against is a
  different byte string, so opening answers \<open>WrongKey\<close> unless AES-GCM accepts one ciphertext and
  tag under two different additional data; the rightful slot still opens.\<close>

theorem moved_blob_refused:
  assumes "gcm_ok P" "sha256_ok P" "base64_ok P" "dek_ok d"
    and "sealed_resource r" "sealed_resource r'"
    and "char_of_byte SEPARATOR \<notin> set user_id" "char_of_byte SEPARATOR \<notin> set user_id'"
    and "encrypt_at P d user_id r plaintext w = (Inr e, w')"
    and "(user_id', r') \<noteq> (user_id, r)"
  shows "decrypt_at P d user_id r e = Inr plaintext \<and>
    (decrypt_at P d user_id' r' e = Inl WrongKey \<or>
     (\<exists>nonce c p'. aad user_id' r' ENVELOPE_VERSION (kid P d) \<noteq> aad user_id r ENVELOPE_VERSION (kid P d) \<and>
        gcm_seal P (dek_bytes d) nonce (aad user_id r ENVELOPE_VERSION (kid P d)) plaintext = Some c \<and>
        gcm_seal P (dek_bytes d) nonce (aad user_id' r' ENVELOPE_VERSION (kid P d)) p' = Some c))"
proof -
  let ?a = "aad user_id r ENVELOPE_VERSION (kid P d)" and ?a' = "aad user_id' r' ENVELOPE_VERSION (kid P d)"
  from assms obtain nonce c where seal: "gcm_seal P (dek_bytes d) nonce ?a plaintext = Some c"
    and opens: "decrypt_at P d user_id' r' e = ok_or WrongKey (gcm_open P (dek_bytes d) nonce ?a' c)"
    by (auto elim: decrypt_sealed)
  have "?a' \<noteq> ?a"
    using assms(5-8,10) sealed_resource_identity [of r' r] sealed_label_plain
    by (auto simp: aad_eq_iff separator_as_bytes)
  then show ?thesis
    using assms(1) seal opens decrypt_encrypt [OF assms(9,1-4)]
    by (cases "gcm_open P (dek_bytes d) nonce ?a' c") (auto simp: gcm_ok_def)
qed

lemma sealed_resource_sync [simp]: "sealed_resource (resource_sync kind)"
  by (auto simp: sealed_resource_def)

theorem moved_blob_refused_witness:
  "\<exists>e w'. example_seal (resource_sync Settings) = (Inr e, w') \<and>
     decrypt_at ref_prims example_dek ''u1'' (resource_sync Settings) e = Inr (as_bytes ''hi'') \<and>
     (decrypt_at ref_prims example_dek ''u2'' (resource_sync Keymap) e = Inl WrongKey \<or>
      (\<exists>nonce c p'. aad ''u2'' (resource_sync Keymap) ENVELOPE_VERSION (kid ref_prims example_dek) \<noteq>
          aad ''u1'' (resource_sync Settings) ENVELOPE_VERSION (kid ref_prims example_dek) \<and>
        gcm_seal ref_prims (dek_bytes example_dek) nonce
          (aad ''u1'' (resource_sync Settings) ENVELOPE_VERSION (kid ref_prims example_dek)) (as_bytes ''hi'') = Some c \<and>
        gcm_seal ref_prims (dek_bytes example_dek) nonce
          (aad ''u2'' (resource_sync Keymap) ENVELOPE_VERSION (kid ref_prims example_dek)) p' = Some c))"
proof -
  obtain e w' where *: "example_seal (resource_sync Settings) = (Inr e, w')"
    by (rule example_sealed)
  have plain: "char_of_byte SEPARATOR \<notin> set ''u1''" "char_of_byte SEPARATOR \<notin> set ''u2''"
    by (simp_all add: separator_char)
  from moved_blob_refused [OF ref_gcm_ok ref_sha256_ok ref_base64_ok example_dek_ok
      sealed_resource_sync sealed_resource_sync plain * , of Keymap]
  show ?thesis using * by blast
qed

text \<open>C28. Which error opening answers: a foreign format first, then a foreign key by its
  fingerprint alone, and \<open>WrongKey\<close> only for an envelope of the right format whose fingerprint is
  this key's and whose tag does not verify. In particular a rotated key is never reported as a
  mistyped one.\<close>

theorem decrypt_error_cases:
  assumes "dek_ok d" and "decrypt_at P d user_id r e = Inl err"
  shows "case err of
      UnsupportedVersion v \<Rightarrow> v = env_v e \<and> v \<noteq> ENVELOPE_VERSION
    | KeyRotated theirs ours \<Rightarrow> env_v e = ENVELOPE_VERSION \<and> env_alg e = ALGORITHM \<and>
        b64_decode P (env_kid e) = Some theirs \<and> ours = kid P d \<and> theirs \<noteq> ours
    | WrongKey \<Rightarrow> env_v e = ENVELOPE_VERSION \<and> env_alg e = ALGORITHM \<and>
        b64_decode P (env_kid e) = Some (kid P d) \<and>
        (\<exists>nonce c. b64_decode P (env_nonce e) = Some nonce \<and> length nonce = NONCE_LEN \<and>
           b64_decode P (env_ct e) = Some c \<and>
           gcm_open P (dek_bytes d) nonce (aad user_id r ENVELOPE_VERSION (kid P d)) c = None)
    | Malformed why \<Rightarrow> env_v e = ENVELOPE_VERSION \<and>
        (env_alg e \<noteq> ALGORITHM \<or> b64_array P KID_LEN (env_kid e) = None \<or>
         b64_decode P (env_kid e) = Some (kid P d) \<and>
           (b64_array P NONCE_LEN (env_nonce e) = None \<or> b64_decode P (env_ct e) = None))"
proof -
  have "err = UnsupportedVersion (env_v e) \<and> env_v e \<noteq> ENVELOPE_VERSION \<or> env_v e = ENVELOPE_VERSION"
    using assms(2) by (auto simp: decrypt_at_def)
  then show ?thesis
    using assms
    by (auto simp: decrypt_at_def Let_def bind_res_eq_Inl b64_array_Some simp del: not_None_eq split: if_splits)
qed

definition example_envelope :: envelope where
  "example_envelope = \<lparr>env_v = 2, env_alg = [], env_kid = [], env_nonce = [], env_ct = []\<rparr>"

theorem decrypt_error_cases_witness:
  "decrypt_at ref_prims example_dek ''u1'' (resource_sync Settings) example_envelope = Inl (UnsupportedVersion 2) \<and>
   (2 :: u32) \<noteq> ENVELOPE_VERSION"
proof -
  have d: "decrypt_at ref_prims example_dek ''u1'' (resource_sync Settings) example_envelope = Inl (UnsupportedVersion 2)"
    by (simp add: decrypt_at_def example_envelope_def ENVELOPE_VERSION_def)
  from decrypt_error_cases [OF example_dek_ok this] d show ?thesis by simp
qed

end
