(* ===== verification/Plan.thy ===== *)
theory Plan
  imports Reference
begin

text \<open>
  \<^verbatim>\<open>zode_account/src/plan.rs\<close> and the web-address helpers of \<^verbatim>\<open>zode_account.rs\<close>: what the
  account's plan covers as the server describes it, the reading of a 402 refusal, and the check
  that keeps every link the server sends on the web app's own origin.
\<close>

section \<open>Web addresses\<close>

definition PRICING_PATH :: string where
  "PRICING_PATH = ''/pricing''"

definition BILLING_PATH :: string where
  "BILLING_PATH = ''/account/billing''"

definition DEFAULT_WEB_URL :: string where
  "DEFAULT_WEB_URL = ''https://zodekit.site''"

definition trim_end_slashes :: "string \<Rightarrow> string" where
  "trim_end_slashes s = rev (dropWhile (\<lambda>c. c = CHR ''/'') (rev s))"

definition web_page :: "string \<Rightarrow> string \<Rightarrow> string" where
  "web_page web_url path = trim_end_slashes web_url @ path"

definition strip_suffix :: "string \<Rightarrow> string \<Rightarrow> string option" where
  "strip_suffix suf s = map_option rev (strip_prefix (rev suf) (rev s))"

fun split_once :: "string \<Rightarrow> string \<Rightarrow> (string \<times> string) option" where
  "split_once pat [] = (if pat = [] then Some ([], []) else None)"
| "split_once pat (c # s) =
     (case strip_prefix pat (c # s) of
        Some rest \<Rightarrow> Some ([], rest)
      | None \<Rightarrow> map_option (\<lambda>(a, b). (c # a, b)) (split_once pat s))"

definition derive_web_url :: "string \<Rightarrow> string" where
  "derive_web_url api_url =
     (let trimmed = trim_end_slashes api_url;
          base = (case strip_suffix ''/api'' trimmed of Some b \<Rightarrow> b | None \<Rightarrow> trimmed)
      in case split_once ''://'' base of
           None \<Rightarrow> base
         | Some (scheme, rest) \<Rightarrow>
             (case strip_prefix ''api.'' rest of
                Some without \<Rightarrow> scheme @ ''://'' @ without
              | None \<Rightarrow> base))"

text \<open>The two environment variables are the arguments.\<close>

definition web_url_of :: "string option \<Rightarrow> string option \<Rightarrow> string" where
  "web_url_of zode_web_url zode_api_url =
     (case zode_web_url of
        Some explicit \<Rightarrow>
          if trim explicit \<noteq> [] then explicit
          else (case zode_api_url of
                  Some api \<Rightarrow> if trim api \<noteq> [] then derive_web_url api else DEFAULT_WEB_URL
                | None \<Rightarrow> DEFAULT_WEB_URL)
      | None \<Rightarrow>
          (case zode_api_url of
             Some api \<Rightarrow> if trim api \<noteq> [] then derive_web_url api else DEFAULT_WEB_URL
           | None \<Rightarrow> DEFAULT_WEB_URL))"

definition on_web_origin :: "string \<Rightarrow> string \<Rightarrow> bool" where
  "on_web_origin candidate web_url =
     (let origin = trim_end_slashes web_url in
      if origin = [] then False
      else case strip_prefix origin candidate of
        Some [] \<Rightarrow> True
      | Some (c # _) \<Rightarrow> c \<in> set ''/?#''
      | None \<Rightarrow> False)"

definition web_link :: "string option \<Rightarrow> string \<Rightarrow> string \<Rightarrow> string" where
  "web_link candidate web_url path =
     (case candidate of
        Some c \<Rightarrow> if on_web_origin c web_url then c else web_page web_url path
      | None \<Rightarrow> web_page web_url path)"

section \<open>Refusals\<close>

datatype plan_limit_reason =
    SyncDeviceLimit
  | EnvSyncNotInPlan
  | TeamVaultNotInPlan
  | TeamInactive
  | OtherReason string

record plan_limit =
  pl_reason :: plan_limit_reason
  pl_limit :: "u64 option"
  pl_used :: "u64 option"
  upgrade_url :: string

text \<open>The fields of the refusal body, if it is one.\<close>

definition refusal_body :: "prims \<Rightarrow> string \<Rightarrow> (string \<times> u64 option \<times> u64 option \<times> string option) option" where
  "refusal_body P body =
     (case json_read P body of
        Inl _ \<Rightarrow> None
      | Inr j \<Rightarrow>
          (case struct_fields_default [''error'', ''limit'', ''used'', ''upgradeUrl'']
                  [''limit'', ''used'', ''upgradeUrl''] j of
             Some [e, l, u, up] \<Rightarrow>
               (case (as_req as_str e, as_opt as_u64 l, as_opt as_u64 u, as_opt as_str up) of
                  (Some e, Some l, Some u, Some up) \<Rightarrow> Some (e, l, u, up)
                | _ \<Rightarrow> None)
           | _ \<Rightarrow> None))"

definition reason_of_slug :: "string \<Rightarrow> plan_limit_reason" where
  "reason_of_slug slug =
     (if slug = ''sync_device_limit'' then SyncDeviceLimit
      else if slug = ''env_sync_not_in_plan'' then EnvSyncNotInPlan
      else if slug = ''team_vault_not_in_plan'' then TeamVaultNotInPlan
      else if slug = ''team_inactive'' then TeamInactive
      else OtherReason slug)"

definition plan_limit_from_body :: "prims \<Rightarrow> string \<Rightarrow> string \<Rightarrow> plan_limit" where
  "plan_limit_from_body P body web_url =
     (case refusal_body P body of
        Some (e, l, u, up) \<Rightarrow>
          \<lparr>pl_reason = reason_of_slug e, pl_limit = l, pl_used = u, upgrade_url = web_link up web_url PRICING_PATH\<rparr>
      | None \<Rightarrow>
          \<lparr>pl_reason = OtherReason ''http_402'', pl_limit = None, pl_used = None,
           upgrade_url = web_link None web_url PRICING_PATH\<rparr>)"

definition sentence :: "plan_limit \<Rightarrow> string" where
  "sentence p =
     (case pl_reason p of
        SyncDeviceLimit \<Rightarrow>
          (case pl_limit p of
             Some l \<Rightarrow> ''The Free plan syncs '' @ nat_str (unat l) @
               '' devices and this one is past the limit, so it won'' @ [CHR 0x27] @
               ''t sync. Revoke a device on the web or upgrade.''
           | None \<Rightarrow> ''This device is past the Free plan'' @ [CHR 0x27] @
               ''s device limit, so it won'' @ [CHR 0x27] @
               ''t sync. Revoke a device on the web or upgrade.'')
      | EnvSyncNotInPlan \<Rightarrow>
          ''.env sync is part of Pro. Nothing was uploaded; your synced files are still readable.''
      | TeamVaultNotInPlan \<Rightarrow>
          ''Shared team files are part of the Team plan. Nothing was uploaded.''
      | TeamInactive \<Rightarrow>
          ''Your team'' @ [CHR 0x27] @ ''s plan has ended. Shared files are read-only.''
      | OtherReason slug \<Rightarrow>
          ''Your plan does not cover this ('' @ slug @ ''). See your plan on the web.'')"

section \<open>The plan\<close>

datatype plan_tier = TierFree | TierPro | TierTeam

datatype plan_source = SourceFree | Subscription | Lifetime | TeamSeat | Grandfather | SourceUnknown

datatype plan_status = Active | Grace | Canceling | StatusUnknown

definition tier_of_slug :: "string \<Rightarrow> plan_tier option" where
  "tier_of_slug s =
     (if s = ''free'' then Some TierFree else if s = ''pro'' then Some TierPro
      else if s = ''team'' then Some TierTeam else None)"

definition source_of_slug :: "string \<Rightarrow> plan_source option" where
  "source_of_slug s = Some
     (if s = ''free'' then SourceFree else if s = ''subscription'' then Subscription
      else if s = ''lifetime'' then Lifetime else if s = ''team_seat'' then TeamSeat
      else if s = ''grandfather'' then Grandfather else SourceUnknown)"

definition status_of_slug :: "string \<Rightarrow> plan_status option" where
  "status_of_slug s = Some
     (if s = ''active'' then Active else if s = ''grace'' then Grace
      else if s = ''canceling'' then Canceling else StatusUnknown)"

record sync_device_usage =
  sd_used :: u32
  sd_max :: "u32 option"

record plan_limits =
  lim_sync_devices :: sync_device_usage
  lim_env_sync :: bool
  lim_relay_daily_bytes :: u64
  lim_team_vault :: bool

record team_summary =
  ts_id :: string
  ts_name :: string
  ts_role :: string
  ts_key_version :: u32

record plan_summary =
  ps_tier :: plan_tier
  ps_source :: plan_source
  ps_status :: plan_status
  ps_renews_at :: "string option"
  ps_ends_at :: "string option"
  ps_limits :: plan_limits
  ps_team :: "team_summary option"
  grandfather_env_until :: "string option"
  plan_upgrade_url :: string
  plan_manage_url :: string

definition sync_devices_response :: "json \<Rightarrow> sync_device_usage option" where
  "sync_devices_response j =
     (case struct_fields [''used'', ''max''] j of
        Some [u, m] \<Rightarrow>
          (case (as_req as_u32 u, as_opt as_u32 m) of
             (Some u, Some m) \<Rightarrow> Some \<lparr>sd_used = u, sd_max = m\<rparr>
           | _ \<Rightarrow> None)
      | _ \<Rightarrow> None)"

definition limits_response :: "json \<Rightarrow> plan_limits option" where
  "limits_response j =
     (case struct_fields [''syncDevices'', ''envSync'', ''relayDailyBytes'', ''teamVault''] j of
        Some [s, e, r, t] \<Rightarrow>
          (case (as_req sync_devices_response s, as_req as_bool e, as_req as_u64 r, as_req as_bool t) of
             (Some s, Some e, Some r, Some t) \<Rightarrow>
               Some \<lparr>lim_sync_devices = s, lim_env_sync = e, lim_relay_daily_bytes = r, lim_team_vault = t\<rparr>
           | _ \<Rightarrow> None)
      | _ \<Rightarrow> None)"

definition team_response :: "json \<Rightarrow> team_summary option" where
  "team_response j =
     (case struct_fields [''id'', ''name'', ''role'', ''keyVersion''] j of
        Some [i, n, r, k] \<Rightarrow>
          (case (as_req as_str i, as_req as_str n, as_req as_str r, as_req as_u32 k) of
             (Some i, Some n, Some r, Some k) \<Rightarrow>
               Some \<lparr>ts_id = i, ts_name = n, ts_role = r, ts_key_version = k\<rparr>
           | _ \<Rightarrow> None)
      | _ \<Rightarrow> None)"

definition grandfather_response :: "json \<Rightarrow> string option option" where
  "grandfather_response j =
     (case struct_fields_default [''envSyncUntil''] [''envSyncUntil''] j of
        Some [u] \<Rightarrow> as_opt as_str u
      | _ \<Rightarrow> None)"

definition plan_of_json :: "string \<Rightarrow> json \<Rightarrow> plan_summary option" where
  "plan_of_json web_url j =
     (case struct_fields_default
          [''tier'', ''source'', ''status'', ''renewsAt'', ''endsAt'', ''limits'', ''team'', ''grandfather'',
           ''upgradeUrl'', ''manageUrl'']
          [''renewsAt'', ''endsAt'', ''team'', ''grandfather'', ''upgradeUrl'', ''manageUrl''] j of
        Some [ti, so, st, re, en, li, te, gr, up, ma] \<Rightarrow>
          (case (as_req (as_variant tier_of_slug) ti, as_req (as_variant source_of_slug) so,
                 as_req (as_variant status_of_slug) st, as_opt as_str re, as_opt as_str en) of
             (Some ti, Some so, Some st, Some re, Some en) \<Rightarrow>
               (case (as_req limits_response li, as_opt team_response te, as_opt grandfather_response gr,
                      as_opt as_str up, as_opt as_str ma) of
                  (Some li, Some te, Some gr, Some up, Some ma) \<Rightarrow>
                    Some \<lparr>ps_tier = ti, ps_source = so, ps_status = st, ps_renews_at = re, ps_ends_at = en, ps_limits = li,
                          team = te, grandfather_env_until = (case gr of Some g \<Rightarrow> g | None \<Rightarrow> None),
                          plan_upgrade_url = web_link up web_url PRICING_PATH,
                          plan_manage_url = web_link ma web_url BILLING_PATH\<rparr>
                | _ \<Rightarrow> None)
           | _ \<Rightarrow> None)
      | _ \<Rightarrow> None)"

definition plan_parse :: "prims \<Rightarrow> string \<Rightarrow> string \<Rightarrow> string + plan_summary" where
  "plan_parse P body web_url =
     bind_res (json_read P body) (\<lambda>j. ok_or (serde_error P j) (plan_of_json web_url j))"

section \<open>Links stay on the origin\<close>

text \<open>The host a browser would open: what follows \<^verbatim>\<open>://\<close> up to the path, query or fragment.\<close>

definition authority :: "string \<Rightarrow> string option" where
  "authority url = map_option (\<lambda>(_, rest). takeWhile (\<lambda>c. c \<notin> set ''/?#'') rest) (split_once ''://'' url)"

lemma on_web_origin_iff:
  "on_web_origin c u \<longleftrightarrow> trim_end_slashes u \<noteq> [] \<and>
     (\<exists>rest. c = trim_end_slashes u @ rest \<and> (rest = [] \<or> hd rest \<in> set ''/?#''))"
proof (cases "strip_prefix (trim_end_slashes u) c")
  case None
  then have "\<nexists>rest. c = trim_end_slashes u @ rest"
    by (metis option.distinct(1) strip_prefix_Some)
  with None show ?thesis by (simp add: on_web_origin_def Let_def)
next
  case (Some rest)
  then have "c = trim_end_slashes u @ rest" by (simp add: strip_prefix_Some)
  with Some show ?thesis by (cases rest) (simp_all add: on_web_origin_def Let_def)
qed

lemma web_link_on_origin:
  assumes "trim_end_slashes u \<noteq> []" and "path \<in> {PRICING_PATH, BILLING_PATH}"
  shows "on_web_origin (web_link c u path) u"
proof -
  have "on_web_origin (web_page u path) u"
    using assms by (auto simp: on_web_origin_iff web_page_def PRICING_PATH_def BILLING_PATH_def)
  then show ?thesis by (simp add: web_link_def split: option.splits)
qed

lemma split_once_length: "split_once pat s = Some (a, b) \<Longrightarrow> length pat \<le> length s"
proof (induction s arbitrary: a)
  case Nil
  then show ?case by (auto split: if_splits)
next
  case (Cons c s)
  show ?case
  proof (cases "strip_prefix pat (c # s)")
    case None
    with Cons show ?thesis by fastforce
  next
    case (Some rest)
    then have "c # s = pat @ rest" by (simp only: strip_prefix_Some)
    then have "length (c # s) = length pat + length rest" by (metis length_append)
    then show ?thesis by simp
  qed
qed

lemma takeWhile_stop: "t = [] \<or> \<not> p (hd t) \<Longrightarrow> takeWhile p (s @ t) = takeWhile p s"
  by (induction s) (cases t; simp)+

lemma split_once_append:
  "split_once pat s = Some (a, b) \<Longrightarrow> pat \<noteq> [] \<Longrightarrow> split_once pat (s @ t) = Some (a, b @ t)"
proof (induction s arbitrary: a)
  case Nil
  then show ?case by simp
next
  case (Cons c s)
  show ?case
  proof (cases "strip_prefix pat (c # s)")
    case (Some rest)
    then have "strip_prefix pat (c # s @ t) = Some (rest @ t)"
      by (metis append.assoc append_Cons strip_prefix_Some)
    with Some Cons.prems show ?thesis by simp
  next
    case None
    with Cons.prems obtain a' where a': "split_once pat s = Some (a', b)" "a = c # a'"
      by auto
    then have "length pat \<le> length (c # s)" using split_once_length by fastforce
    then have "take (length pat) (c # s @ t) = take (length pat) (c # s)"
      by (metis append_Cons take_append diff_is_0_eq take_0 append_Nil2)
    with None have "strip_prefix pat (c # s @ t) = None"
      by (simp add: strip_prefix_def starts_with_def split: if_splits)
    with Cons.IH [OF a'(1) Cons.prems(2)] a'(2) show ?thesis by simp
  qed
qed

lemma on_web_origin_authority:
  assumes "on_web_origin c u" and "split_once ''://'' (trim_end_slashes u) \<noteq> None"
  shows "authority c = authority (trim_end_slashes u)"
proof -
  obtain rest where c: "c = trim_end_slashes u @ rest" and rest: "rest = [] \<or> hd rest \<in> set ''/?#''"
    using assms(1) by (auto simp only: on_web_origin_iff)
  obtain a b where o: "split_once ''://'' (trim_end_slashes u) = Some (a, b)"
    using assms(2) by auto
  let ?p = "\<lambda>c. c \<notin> set ''/?#''"
  have "takeWhile ?p (b @ rest) = takeWhile ?p b"
    using rest by (intro takeWhile_stop) blast
  then show ?thesis
    using split_once_append [OF o, of rest] o by (simp add: authority_def c)
qed

lemma link_authority:
  assumes "split_once ''://'' (trim_end_slashes u) \<noteq> None"
  shows "authority (web_link c u PRICING_PATH) = authority (trim_end_slashes u)"
    "authority (web_link c u BILLING_PATH) = authority (trim_end_slashes u)"
proof -
  have ne: "trim_end_slashes u \<noteq> []" using assms by auto
  show "authority (web_link c u PRICING_PATH) = authority (trim_end_slashes u)"
    "authority (web_link c u BILLING_PATH) = authority (trim_end_slashes u)"
    by (rule on_web_origin_authority [OF web_link_on_origin [OF ne] assms]; simp)+
qed

lemma plan_links:
  "plan_of_json u j = Some plan \<Longrightarrow> \<exists>up ma. plan_upgrade_url plan = web_link up u PRICING_PATH \<and>
     plan_manage_url plan = web_link ma u BILLING_PATH"
  unfolding plan_of_json_def
  by (auto split: option.splits list.splits)

text \<open>No answer of the server can send the user's browser elsewhere: whatever the body of a 402
  or of the plan route says, every link kept from it opens the web app's own host.\<close>

theorem links_stay_on_origin:
  assumes "split_once ''://'' (trim_end_slashes web_url) \<noteq> None"
  shows "authority (upgrade_url (plan_limit_from_body P body web_url)) = authority (trim_end_slashes web_url) \<and>
    (\<forall>plan. plan_parse P body web_url = Inr plan \<longrightarrow>
      authority (plan_upgrade_url plan) = authority (trim_end_slashes web_url) \<and>
      authority (plan_manage_url plan) = authority (trim_end_slashes web_url))"
proof (intro conjI allI impI)
  show "authority (upgrade_url (plan_limit_from_body P body web_url)) = authority (trim_end_slashes web_url)"
    by (simp add: plan_limit_from_body_def link_authority [OF assms] split: option.splits prod.splits)
next
  fix plan
  assume "plan_parse P body web_url = Inr plan"
  then obtain j where "plan_of_json web_url j = Some plan"
    by (auto simp: plan_parse_def bind_res_eq_Inr)
  from plan_links [OF this] obtain up ma where
    "plan_upgrade_url plan = web_link up web_url PRICING_PATH"
    "plan_manage_url plan = web_link ma web_url BILLING_PATH" by blast
  then show "authority (plan_upgrade_url plan) = authority (trim_end_slashes web_url)"
    "authority (plan_manage_url plan) = authority (trim_end_slashes web_url)"
    by (simp_all add: link_authority [OF assms])
qed

theorem links_stay_on_origin_witness:
  "authority (upgrade_url (plan_limit_from_body ref_prims
      ''{\"error\":\"team_inactive\",\"upgradeUrl\":\"https://zodekit.site.example/x\"}'' ''https://zodekit.site/''))
    = authority (trim_end_slashes ''https://zodekit.site/'')"
proof -
  have "split_once ''://'' (trim_end_slashes ''https://zodekit.site/'') \<noteq> None" by code_simp
  from links_stay_on_origin [OF this] show ?thesis by blast
qed

end
