(* ===== verification/Client.thy ===== *)
theory Client
  imports Envelope Plan
begin

text \<open>
  \<^verbatim>\<open>zode_sync/src/client.rs\<close>: the one place the sync code touches the network. A request is a
  value; the HTTP client is a parameter, a function from the request and the state of the network
  to an answer and a new state, so nothing is assumed of the server or of who sits in between.
\<close>

section \<open>Requests and answers\<close>

record request =
  req_method :: string
  req_uri :: string
  req_headers :: "(string \<times> string) list"
  req_body :: "string option"

text \<open>An answer: unreachable, or a status with a body that may not be readable as text.\<close>

type_synonym answer = "(nat \<times> string option) option"

text \<open>What the calls are made with. \<open>builds\<close> is whether the \<^verbatim>\<open>http\<close> crate accepts the request's
  address and headers; \<open>web_origin\<close> is \<^verbatim>\<open>zode_account::web_url()\<close>.\<close>

record 'w api =
  builds :: "request \<Rightarrow> bool"
  exchange :: "request \<Rightarrow> 'w \<Rightarrow> answer \<times> 'w"
  api_url :: string
  access_token :: string
  web_origin :: string

record remote_document =
  doc_blob :: string
  doc_revision :: string

datatype client_error =
    Unreachable string
  | Unauthorized
  | Rejected string
  | PlanLimited plan_limit

fun client_display :: "client_error \<Rightarrow> string" where
  "client_display (Unreachable detail) = ''the sync service is unreachable: '' @ detail"
| "client_display Unauthorized = ''the sync service refused this session''"
| "client_display (Rejected detail) = ''the sync service rejected the request: '' @ detail"
| "client_display (PlanLimited l) = sentence l"

datatype write_outcome = Stored string | Conflict remote_document | Gone

datatype precondition = Create | Replace string

definition put_body :: "string \<Rightarrow> json" where
  "put_body blob = JObj [(''blob'', JStr blob)]"

definition document_response :: "prims \<Rightarrow> string \<Rightarrow> remote_document option" where
  "document_response P body =
     (case json_read P body of
        Inl _ \<Rightarrow> None
      | Inr j \<Rightarrow>
          (case struct_fields [''blob'', ''revision''] j of
             Some [b, r] \<Rightarrow>
               (case (as_req as_str b, as_req as_str r) of
                  (Some b, Some r) \<Rightarrow> Some \<lparr>doc_blob = b, doc_revision = r\<rparr>
                | _ \<Rightarrow> None)
           | _ \<Rightarrow> None))"

definition stored_response :: "prims \<Rightarrow> string \<Rightarrow> string option" where
  "stored_response P body =
     (case json_read P body of
        Inl _ \<Rightarrow> None
      | Inr j \<Rightarrow> (case struct_fields [''revision''] j of Some [r] \<Rightarrow> as_req as_str r | _ \<Rightarrow> None))"

definition error_response :: "prims \<Rightarrow> string \<Rightarrow> string option" where
  "error_response P body =
     (case json_read P body of
        Inl _ \<Rightarrow> None
      | Inr j \<Rightarrow> (case struct_fields [''error''] j of Some [e] \<Rightarrow> as_req as_str e | _ \<Rightarrow> None))"

section \<open>Operations\<close>

definition build :: "'w api \<Rightarrow> resource \<Rightarrow> string \<Rightarrow> request" where
  "build A resource method =
     \<lparr>req_method = method, req_uri = api_url A @ ''/'' @ r_path resource,
      req_headers = [(''Accept'', ''application/json''), (''Authorization'', ''Bearer '' @ access_token A)],
      req_body = None\<rparr>"

definition with_header :: "string \<Rightarrow> string \<Rightarrow> request \<Rightarrow> request" where
  "with_header name value r = r\<lparr>req_headers := req_headers r @ [(name, value)]\<rparr>"

text \<open>\<^verbatim>\<open>Builder::body\<close>: where an unusable address or header value surfaces.\<close>

definition finish :: "'w api \<Rightarrow> string option \<Rightarrow> request \<Rightarrow> client_error + request" where
  "finish A body r =
     (let r = r\<lparr>req_body := body\<rparr> in
      if builds A r then Inr r else Inl (Unreachable ''the request could not be built''))"

definition http_send :: "'w api \<Rightarrow> request \<Rightarrow> ('w world, client_error, nat \<times> string) io" where
  "http_send A r = (\<lambda>w. case exchange A r (net w) of (answer, n) \<Rightarrow>
     ((case answer of
         None \<Rightarrow> Inl (Unreachable ''the endpoint could not be reached'')
       | Some (status, None) \<Rightarrow> Inl (Unreachable ''the response could not be read'')
       | Some (status, Some body) \<Rightarrow> Inr (status, body)), w\<lparr>net := n\<rparr>))"

definition classify :: "prims \<Rightarrow> string \<Rightarrow> nat \<Rightarrow> string \<Rightarrow> client_error + unit" where
  "classify P web_url status body =
     (if 200 \<le> status \<and> status < 300 then Inr ()
      else if status = 401 \<or> status = 403 then Inl Unauthorized
      else if status = 402 then Inl (PlanLimited (plan_limit_from_body P body web_url))
      else if status \<ge> 500 then Inl (Unreachable (''the server answered '' @ nat_str status))
      else Inl (Rejected (case error_response P body of
                            Some slug \<Rightarrow> slug
                          | None \<Rightarrow> ''http_'' @ nat_str status)))"

definition fetch_body ::
    "prims \<Rightarrow> 'w api \<Rightarrow> resource \<Rightarrow> ('w world, client_error, string option) io" where
  "fetch_body P A resource =
     io_bind (io_res (finish A None (build A resource ''GET''))) (\<lambda>r.
     io_bind (http_send A r) (\<lambda>(status, body).
     if status = 404 then io_ok None
     else io_bind (io_res (classify P (web_origin A) status body)) (\<lambda>_. io_ok (Some body))))"

definition fetch ::
    "prims \<Rightarrow> 'w api \<Rightarrow> resource \<Rightarrow> ('w world, client_error, remote_document option) io" where
  "fetch P A resource =
     io_bind (fetch_body P A resource) (\<lambda>body.
     case body of
       None \<Rightarrow> io_ok None
     | Some body \<Rightarrow>
         io_bind (io_res (ok_or (Rejected ''the sync service answered with unusable JSON'')
           (document_response P body))) (\<lambda>doc. io_ok (Some doc)))"

text \<open>There is no case without a precondition.\<close>

definition put_builder :: "'w api \<Rightarrow> resource \<Rightarrow> precondition \<Rightarrow> request" where
  "put_builder A resource precondition =
     (let builder = with_header ''Content-Type'' ''application/json'' (build A resource ''PUT'')
      in case precondition of
           Create \<Rightarrow> with_header ''If-None-Match'' ''*'' builder
         | Replace revision \<Rightarrow> with_header ''If-Match'' revision builder)"

definition write_reply :: "prims \<Rightarrow> string \<Rightarrow> nat \<Rightarrow> string \<Rightarrow> client_error + write_outcome" where
  "write_reply P web_url status body =
     (if status = 409 then
        bind_res (ok_or (Rejected ''the sync service answered a conflict without a document'')
          (document_response P body)) (\<lambda>doc. Inr (Conflict doc))
      else if status = 404 then Inr Gone
      else
        bind_res (classify P web_url status body) (\<lambda>_.
        bind_res (ok_or (Rejected ''the sync service answered with unusable JSON'')
          (stored_response P body)) (\<lambda>revision. Inr (Stored revision))))"

definition store ::
    "prims \<Rightarrow> 'w api \<Rightarrow> resource \<Rightarrow> string \<Rightarrow> precondition \<Rightarrow> ('w world, client_error, write_outcome) io" where
  "store P A resource blob precondition =
     io_bind (io_res (map_err (\<lambda>_. Unreachable ''the request could not be built'')
       (json_text P (put_body blob)))) (\<lambda>payload.
     io_bind (io_res (finish A (Some payload) (put_builder A resource precondition))) (\<lambda>r.
     io_bind (http_send A r) (\<lambda>(status, body).
     io_res (write_reply P (web_origin A) status body))))"

definition forget :: "prims \<Rightarrow> 'w api \<Rightarrow> resource \<Rightarrow> ('w world, client_error, unit) io" where
  "forget P A resource =
     io_bind (io_res (finish A None (build A resource ''DELETE''))) (\<lambda>r.
     io_bind (http_send A r) (\<lambda>(status, body).
     if status = 404 then io_ok ()
     else io_res (classify P (web_origin A) status body)))"

definition client_request ::
    "'w api \<Rightarrow> resource \<Rightarrow> string \<Rightarrow> string option \<Rightarrow> (string \<times> string) list \<Rightarrow>
     ('w world, client_error, nat \<times> string) io" where
  "client_request A resource method json_body headers =
     (let builder = fold (\<lambda>(name, value). with_header name value) headers (build A resource method);
          builder = (case json_body of
              Some _ \<Rightarrow> with_header ''Content-Type'' ''application/json'' builder
            | None \<Rightarrow> builder)
      in io_bind (io_res (finish A json_body builder)) (http_send A))"

section \<open>What the calls leave alone\<close>

lemma frame_http [frame_intros]:
  "frame files (http_send A r)" "frame keychain (http_send A r)"
  "frame (file_at q) (http_send A r)" "frame (key_at u) (http_send A r)"
  by (auto simp: frame_def http_send_def split: prod.splits)

lemma frame_prod [frame_intros]: "(\<And>a b. frame v (k a b)) \<Longrightarrow> frame v (case x of (a, b) \<Rightarrow> k a b)"
  by (cases x) simp

lemma keeps_prod [frame_intros]: "(\<And>a b. keeps I (k a b)) \<Longrightarrow> keeps I (case x of (a, b) \<Rightarrow> k a b)"
  by (cases x) simp

lemma frame_client [frame_intros]:
  "frame files (fetch_body P A r)" "frame keychain (fetch_body P A r)"
  "frame files (fetch P A r)" "frame keychain (fetch P A r)"
  "frame files (store P A r b pre)" "frame keychain (store P A r b pre)"
  "frame files (forget P A r)" "frame keychain (forget P A r)"
  "frame files (client_request A r m jb hs)" "frame keychain (client_request A r m jb hs)"
  unfolding fetch_def fetch_body_def store_def forget_def client_request_def Let_def
  by (intro frame_intros)+

section \<open>What may reach the server\<close>

text \<open>The requests the sync code is allowed to make: a read, or a write that names what it expects to
  replace. A removal is neither.\<close>

definition is_read :: "request \<Rightarrow> bool" where
  "is_read r \<longleftrightarrow> req_method r = ''GET''"

definition carries :: "precondition \<Rightarrow> request \<Rightarrow> bool" where
  "carries pre r \<longleftrightarrow>
     req_method r = ''PUT'' \<and>
     (case pre of
        Create \<Rightarrow> (''If-None-Match'', ''*'') \<in> set (req_headers r)
      | Replace revision \<Rightarrow> (''If-Match'', revision) \<in> set (req_headers r))"

definition conditional :: "request \<Rightarrow> bool" where
  "conditional r \<longleftrightarrow>
     req_method r = ''GET'' \<or>
     (req_method r = ''PUT'' \<and>
        ((''If-None-Match'', ''*'') \<in> set (req_headers r) \<or>
         (\<exists>rev. (''If-Match'', rev) \<in> set (req_headers r))))"

text \<open>An invariant of the network that every allowed request keeps.\<close>

definition kept_by :: "(request \<Rightarrow> bool) \<Rightarrow> ('w \<Rightarrow> bool) \<Rightarrow> 'w api \<Rightarrow> bool" where
  "kept_by allowed I A \<longleftrightarrow> (\<forall>r n. allowed r \<longrightarrow> I n \<longrightarrow> I (snd (exchange A r n)))"

definition on_net :: "('w \<Rightarrow> bool) \<Rightarrow> 'w world \<Rightarrow> bool" where
  "on_net I w = I (net w)"

lemma keeps_http:
  "kept_by allowed I A \<Longrightarrow> allowed r \<Longrightarrow> keeps (on_net I) (http_send A r)"
  by (auto simp: keeps_def kept_by_def on_net_def http_send_def split: prod.splits) (metis snd_conv)

lemma keeps_finish:
  assumes "kept_by allowed I A" and "allowed (r\<lparr>req_body := body\<rparr>)"
    and "\<And>r'. r' = r\<lparr>req_body := body\<rparr> \<Longrightarrow> keeps (on_net I) (k r')"
  shows "keeps (on_net I) (io_bind (io_res (finish A body r)) k)"
  using assms by (auto simp: keeps_def io_bind_apply finish_def Let_def)

lemma carries_put: "carries pre (put_builder A r pre\<lparr>req_body := b\<rparr>)"
  by (simp add: carries_def put_builder_def build_def with_header_def Let_def split: precondition.splits)

lemma keeps_fetch:
  assumes "kept_by allowed I A" "\<And>r. is_read r \<Longrightarrow> allowed r"
  shows "keeps (on_net I) (fetch_body P A r)" "keeps (on_net I) (fetch P A r)"
proof -
  show f: "keeps (on_net I) (fetch_body P A r)"
    unfolding fetch_body_def
    by (rule keeps_finish [OF assms(1)])
      (auto simp: is_read_def build_def intro!: frame_intros keeps_http [OF assms(1)] assms(2))
  show "keeps (on_net I) (fetch P A r)" unfolding fetch_def by (intro frame_intros f)
qed

lemma keeps_store:
  assumes "kept_by allowed I A" "\<And>r. carries pre r \<Longrightarrow> allowed r"
  shows "keeps (on_net I) (store P A r b pre)"
  unfolding store_def Let_def
  by (rule keeps_bind [OF keeps_ok(3)], rule keeps_finish [OF assms(1)])
    (auto simp: carries_put intro!: frame_intros keeps_http [OF assms(1)] assms(2))

section \<open>Statuses\<close>

text \<open>One meaning per status: 402 is always a plan limit and never asks to sign in again, 401
  and 403 always and only do, a 5xx is always "try again later", and success is exactly 2xx.\<close>

theorem classify_cases:
  "(classify P web_url status body = Inr () \<longleftrightarrow> 200 \<le> status \<and> status < 300) \<and>
   (classify P web_url status body = Inl Unauthorized \<longleftrightarrow> status = 401 \<or> status = 403) \<and>
   ((\<exists>l. classify P web_url status body = Inl (PlanLimited l)) \<longleftrightarrow> status = 402) \<and>
   ((\<exists>d. classify P web_url status body = Inl (Unreachable d)) \<longleftrightarrow> 500 \<le> status)"
  by (auto simp: classify_def)

end
