(* ===== verification/Artifact.thy ===== *)
theory Artifact
  imports Envelope
begin

text \<open>
  \<^verbatim>\<open>zode_sync/src/artifact.rs\<close>, \<^verbatim>\<open>state.rs\<close> and \<^verbatim>\<open>diff.rs\<close>: the local files sync reads and
  replaces, the atomic write and the backup before it, the record of the last sync, and the
  rendered difference. The results quantify over every schedule of file-system failures.
\<close>

section \<open>Files\<close>

record artifact =
  art_kind :: kind
  art_path :: path
  art_backup_path :: "path option"

text \<open>The locations the \<^verbatim>\<open>paths\<close> crate computes from the environment.\<close>

record sync_paths =
  settings_file :: path
  settings_backup_file :: path
  keymap_file :: path
  keymap_backup_file :: path
  sync_state_file :: path

definition artifact_for_kind :: "sync_paths \<Rightarrow> kind \<Rightarrow> artifact" where
  "artifact_for_kind paths kind =
     (case kind of
        Settings \<Rightarrow> \<lparr>art_kind = kind, art_path = settings_file paths,
                     art_backup_path = Some (settings_backup_file paths)\<rparr>
      | Keymap \<Rightarrow> \<lparr>art_kind = kind, art_path = keymap_file paths,
                   art_backup_path = Some (keymap_backup_file paths)\<rparr>
      | Extensions \<Rightarrow> \<lparr>art_kind = kind, art_path = [], art_backup_path = None\<rparr>)"

definition content_hash :: "prims \<Rightarrow> string \<Rightarrow> string" where
  "content_hash P content = to_hex (sha256 P (as_bytes content))"

definition artifact_read :: "path \<Rightarrow> ('w world, io_error, string option) io" where
  "artifact_read p = io_case (fs_read_to_string p) (\<lambda>r.
     case r of
       Inr content \<Rightarrow> io_ok (Some content)
     | Inl e \<Rightarrow> if io_error_kind e = NotFound then io_ok None else io_err e)"

definition temporary_path :: "path \<Rightarrow> path" where
  "temporary_path p =
     path_with_extension ((case path_extension p of Some e \<Rightarrow> e | None \<Rightarrow> []) @ ''.tmp'') p"

definition write_atomic :: "path \<Rightarrow> string \<Rightarrow> ('w world, io_error, unit) io" where
  "write_atomic p content =
     (case path_parent p of
        None \<Rightarrow> io_err (IoError InvalidInput ''artifact path has no directory'')
      | Some parent \<Rightarrow>
          io_bind (fs_create_dir_all parent) (\<lambda>_.
          let temporary = temporary_path p in
          io_bind (fs_write temporary (as_bytes content)) (\<lambda>_.
          io_case (fs_rename temporary p) (\<lambda>r.
            case r of
              Inr _ \<Rightarrow> io_ok ()
            | Inl e \<Rightarrow> io_case (fs_remove temporary) (\<lambda>_. io_err e)))))"

definition back_up :: "artifact \<Rightarrow> ('w world, io_error, unit) io" where
  "back_up a =
     (case art_backup_path a of
        None \<Rightarrow> io_ok ()
      | Some backup_path \<Rightarrow>
          io_bind (artifact_read (art_path a)) (\<lambda>current.
          case current of
            None \<Rightarrow> io_ok ()
          | Some content \<Rightarrow> write_atomic backup_path content))"

section \<open>The record of the last sync\<close>

record synced_at =
  sy_revision :: string
  sy_local_hash :: string

type_synonym sync_state = "(string, synced_at) btree"

definition synced_at_json :: "synced_at \<Rightarrow> json" where
  "synced_at_json s = JObj [(''revision'', JStr (sy_revision s)), (''local_hash'', JStr (sy_local_hash s))]"

definition synced_at_of_json :: "json \<Rightarrow> synced_at option" where
  "synced_at_of_json j =
     (case struct_fields [''revision'', ''local_hash''] j of
        Some [r, h] \<Rightarrow>
          (case (as_req as_str r, as_req as_str h) of
             (Some r, Some h) \<Rightarrow> Some \<lparr>sy_revision = r, sy_local_hash = h\<rparr>
           | _ \<Rightarrow> None)
      | _ \<Rightarrow> None)"

text \<open>A \<^verbatim>\<open>BTreeMap\<close> field is read from an object entry by entry, a later key replacing an earlier.\<close>

fun btree_entries :: "(json \<Rightarrow> 'v option) \<Rightarrow> (string \<times> json) list \<Rightarrow> (string \<times> 'v) list option" where
  "btree_entries f [] = Some []"
| "btree_entries f ((k, j) # rest) =
     (case (f j, btree_entries f rest) of (Some v, Some vs) \<Rightarrow> Some ((k, v) # vs) | _ \<Rightarrow> None)"

definition btree_of_json :: "(json \<Rightarrow> 'v option) \<Rightarrow> json \<Rightarrow> (string, 'v) btree option" where
  "btree_of_json f j =
     (case j of
        JObj fs \<Rightarrow> map_option (\<lambda>kvs. fold (\<lambda>(k, v). bt_insert k v) kvs []) (btree_entries f fs)
      | _ \<Rightarrow> None)"

definition sync_state_json :: "sync_state \<Rightarrow> json" where
  "sync_state_json s = JObj [(''entries'', JObj (map (\<lambda>(k, v). (k, synced_at_json v)) s))]"

definition sync_state_of_json :: "json \<Rightarrow> sync_state option" where
  "sync_state_of_json j =
     (case struct_fields_default [''entries''] [''entries''] j of
        Some [None] \<Rightarrow> Some []
      | Some [Some e] \<Rightarrow> btree_of_json synced_at_of_json e
      | _ \<Rightarrow> None)"

definition state_load :: "prims \<Rightarrow> path \<Rightarrow> ('w world, 'e, sync_state) io" where
  "state_load P p = io_case (artifact_read p) (\<lambda>r.
     case r of
       Inr (Some raw) \<Rightarrow>
         (case json_read P raw of
            Inr j \<Rightarrow> io_ok (case sync_state_of_json j of Some s \<Rightarrow> s | None \<Rightarrow> [])
          | Inl _ \<Rightarrow> io_ok [])
     | _ \<Rightarrow> io_ok [])"

definition state_save :: "prims \<Rightarrow> sync_state \<Rightarrow> path \<Rightarrow> ('w world, string, unit) io" where
  "state_save P s p =
     io_bind (io_res (json_pretty P (sync_state_json s))) (\<lambda>raw.
     io_map_err io_display (write_atomic p raw))"

definition state_get :: "sync_state \<Rightarrow> kind \<Rightarrow> synced_at option" where
  "state_get s kind = bt_get s (kind_as_str kind)"

definition state_record :: "kind \<Rightarrow> string \<Rightarrow> string \<Rightarrow> sync_state \<Rightarrow> sync_state" where
  "state_record kind revision local_hash s =
     bt_insert (kind_as_str kind) \<lparr>sy_revision = revision, sy_local_hash = local_hash\<rparr> s"

definition state_forget :: "kind \<Rightarrow> sync_state \<Rightarrow> sync_state" where
  "state_forget kind s = bt_remove (kind_as_str kind) s"

section \<open>Differences\<close>

record text_diff =
  unified :: string
  added :: nat
  removed :: nat

definition diff_is_empty :: "text_diff \<Rightarrow> bool" where
  "diff_is_empty d \<longleftrightarrow> added d = 0 \<and> removed d = 0"

fun diff_count :: "string list \<Rightarrow> nat \<times> nat \<Rightarrow> nat \<times> nat" where
  "diff_count [] acc = acc"
| "diff_count (line # rest) (a, r) =
     (if starts_with ''+++'' line \<or> starts_with ''---'' line then diff_count rest (a, r)
      else case line of
        c # _ \<Rightarrow>
          if c = CHR ''+'' then diff_count rest (a + 1, r)
          else if c = CHR ''-'' then diff_count rest (a, r + 1)
          else diff_count rest (a, r)
      | [] \<Rightarrow> diff_count rest (a, r))"

definition diff_between :: "prims \<Rightarrow> string \<Rightarrow> string \<Rightarrow> text_diff" where
  "diff_between P local remote =
     (let u = unified_diff P local remote; (a, r) = diff_count (lines u) (0, 0)
      in \<lparr>unified = u, added = a, removed = r\<rparr>)"

section \<open>What reading and the atomic write do\<close>

lemma frame_artifact_read [frame_intros]:
  "frame files (artifact_read p)" "frame net (artifact_read p)" "frame keychain (artifact_read p)"
  "frame (file_at q) (artifact_read p)"
  unfolding artifact_read_def by (intro frame_intros)+

lemma artifact_read_Some:
  assumes "artifact_read p w = (Inr (Some c), w')"
  shows "file_at p w = Some (as_bytes c)"
  using assms unfolding artifact_read_def io_case_apply fs_read_to_string_def io_bind_apply fs_read_def fs_guard_def
  by (auto split: prod.splits sum.splits option.splits if_splits dest: from_utf8_Some)

lemma artifact_read_None:
  assumes "artifact_read p w = (Inr None, w')" and "honest_fs w"
  shows "file_at p w = None"
  using assms unfolding artifact_read_def io_case_apply fs_read_to_string_def io_bind_apply fs_read_def fs_guard_def
  by (auto simp: honest_fs_def split: prod.splits sum.splits option.splits if_splits)

text \<open>A path with a file name: the temporary is then a different path, in the same directory.\<close>

definition named_path :: "path \<Rightarrow> bool" where
  "named_path p \<longleftrightarrow> file_name p \<noteq> None"

lemma named_pathE:
  assumes "named_path p"
  obtains d n where "p = d @ [Normal n]"
  using assms unfolding named_path_def file_name_def
  by (cases p rule: rev_cases) (auto split: component.splits)

lemma split_extension_length:
  "length (fst (split_extension n)) + length (case snd (split_extension n) of None \<Rightarrow> [] | Some e \<Rightarrow> CHR ''.'' # e)
     = length n"
proof -
  let ?ext = "takeWhile (\<lambda>c. c \<noteq> CHR ''.'') (rev n)"
  have "length ?ext \<le> length n" by (metis length_rev length_takeWhile_le)
  then show ?thesis by (auto simp: split_extension_def Let_def)
qed

lemma temporary_path_neq [simp]: "named_path p \<Longrightarrow> temporary_path p \<noteq> p"
proof (erule named_pathE)
  fix d n
  assume p: "p = d @ [Normal n]"
  have "length (fst (split_extension n) @ CHR ''.'' # (case snd (split_extension n) of Some e \<Rightarrow> e | None \<Rightarrow> []) @ ''.tmp'')
      > length n"
    using split_extension_length [of n] by (cases "snd (split_extension n)") auto
  then have "fst (split_extension n) @ CHR ''.'' # (case snd (split_extension n) of Some e \<Rightarrow> e | None \<Rightarrow> []) @ ''.tmp'' \<noteq> n"
    by (metis less_irrefl)
  then show "temporary_path p \<noteq> p"
    by (auto simp: temporary_path_def path_with_extension_def path_extension_def file_name_def p)
qed

lemma write_atomic_frame:
  assumes "q \<noteq> p" and "q \<noteq> temporary_path p"
  shows "frame (file_at q) (write_atomic p c)"
  unfolding write_atomic_def Let_def using assms by (intro frame_intros) auto

lemma frame_write_atomic [frame_intros]:
  "frame net (write_atomic p c)" "frame keychain (write_atomic p c)"
  unfolding write_atomic_def Let_def by (intro frame_intros)+

lemma write_atomic_target:
  assumes "named_path p" and "write_atomic p c w = (r, w')"
  shows "file_at p w' = (case r of Inr _ \<Rightarrow> Some (as_bytes c) | Inl _ \<Rightarrow> file_at p w)"
proof -
  have ne: "temporary_path p \<noteq> p" "p \<noteq> temporary_path p" using temporary_path_neq [OF assms(1)] by auto
  show ?thesis
    using assms(2) ne unfolding write_atomic_def Let_def io_bind_apply io_case_apply fs_defs
    by (auto split: option.splits sum.splits prod.splits fault.splits if_splits)
qed

text \<open>A completed backup holds what the file held; whatever happens, the file itself stays.\<close>

lemma back_up_keeps:
  assumes "art_backup_path a = Some b" and "q \<noteq> b" "q \<noteq> temporary_path b"
  shows "frame (file_at q) (back_up a)"
  unfolding back_up_def assms(1) using assms(2,3)
  by (auto intro!: frame_intros write_atomic_frame split: option.splits)

lemma back_up_done:
  assumes "back_up a w = (Inr (), w')" and "art_backup_path a = Some b" "named_path b"
    and "file_at (art_path a) w = Some bs"
    and "honest_fs w"
  shows "file_at b w' = Some bs"
proof -
  from assms(1,2) obtain cur w1 where cur: "artifact_read (art_path a) w = (Inr cur, w1)"
    and rest: "(case cur of None \<Rightarrow> io_ok () | Some content \<Rightarrow> write_atomic b content) w1 = (Inr (), w')"
    by (auto simp: back_up_def io_bind_eq_Inr)
  from cur assms(4,5) obtain c where c: "cur = Some c" "as_bytes c = bs"
    by (cases cur) (auto dest: artifact_read_None artifact_read_Some)
  with rest write_atomic_target [OF assms(3)] show ?thesis by fastforce
qed

lemma frame_back_up [frame_intros]: "frame net (back_up a)" "frame keychain (back_up a)"
  unfolding back_up_def by (intro frame_intros)+

section \<open>The state file reads back\<close>

lemma synced_at_roundtrip [simp]: "synced_at_of_json (synced_at_json s) = Some s"
  by (simp add: synced_at_of_json_def synced_at_json_def struct_simps)

lemma btree_entries_map:
  "(\<And>v. f (g v) = Some v) \<Longrightarrow> btree_entries f (map (\<lambda>(k, v). (k, g v)) kvs) = Some kvs"
  by (induction kvs) auto

lemma btree_json_roundtrip:
  "bt_ok m \<Longrightarrow> (\<And>v. f (g v) = Some v) \<Longrightarrow> btree_of_json f (JObj (map (\<lambda>(k, v). (k, g v)) m)) = Some m"
  using bt_rebuild [of "[]" m] by (simp add: btree_of_json_def btree_entries_map)

lemma sync_state_roundtrip: "bt_ok s \<Longrightarrow> sync_state_of_json (sync_state_json s) = Some s"
  by (simp add: sync_state_of_json_def sync_state_json_def struct_simps btree_json_roundtrip)

lemma state_load_bt_ok: "state_load P p w = (Inr s, w') \<Longrightarrow> bt_ok s"
proof -
  have of_json: "sync_state_of_json j = Some s \<Longrightarrow> bt_ok s" for j s
    by (auto simp: sync_state_of_json_def btree_of_json_def bt.inv_fold_put bt_ok_def
        split: option.splits list.splits json.splits)
      (metis bt.inv_fold_put bt.inv_empty bt_ok_def)+
  assume "state_load P p w = (Inr s, w')"
  then show ?thesis
    by (auto simp: state_load_def io_case_apply dest: of_json
        split: prod.splits sum.splits option.splits)
qed

lemma state_save_load:
  assumes "state_save P s p w = (Inr (), w')" and "json_ok P" "bt_ok s" "named_path p"
    and "fs_fault w' (tick w') = None"
  shows "fst (state_load P p w') = Inr s"
proof -
  from assms(1) obtain raw where raw: "json_pretty P (sync_state_json s) = Inr raw"
    and wr: "write_atomic p raw w = (Inr (), w')"
    by (auto simp: state_save_def io_eqs)
  from raw assms(2) have "json_read P raw = Inr (sync_state_json s)" "utf8_ok raw"
    by (auto simp: json_ok_def)
  moreover have "file_at p w' = Some (as_bytes raw)"
    using write_atomic_target [OF assms(4) wr] by simp
  ultimately show ?thesis
    using assms(3,5)
    by (simp add: state_load_def artifact_read_def io_case_apply fs_read_to_string_quiet sync_state_roundtrip)
qed

lemma frame_state_save [frame_intros]:
  "frame net (state_save P s p)" "frame keychain (state_save P s p)"
  unfolding state_save_def by (intro frame_intros)+

lemma state_save_frame:
  "q \<noteq> p \<Longrightarrow> q \<noteq> temporary_path p \<Longrightarrow> frame (file_at q) (state_save P s p)"
  unfolding state_save_def by (intro frame_intros write_atomic_frame)

lemma frame_state_load [frame_intros]:
  "frame files (state_load P p)" "frame net (state_load P p)" "frame keychain (state_load P p)"
  "frame (file_at q) (state_load P p)"
  unfolding state_load_def by (intro frame_intros sum.splits)+

end
