(* ===== verification/Sync.thy ===== *)
theory Sync
  imports Client Artifact
begin

text \<open>
  \<^verbatim>\<open>zode_sync/src/sync.rs\<close>: the decisions. Pull reads the server's copy and says how it relates
  to the local file; applying it is a separate step that backs the file up first; push and the
  deliberate overwrite are always conditional on the revision this machine last saw.
\<close>

section \<open>Context, errors, outcomes\<close>

record 'w sync_context =
  sc_api :: "'w api"
  sc_user_id :: string

datatype sync_error = Client client_error | Crypto sync_crypto_error | Io string

fun sync_display :: "sync_error \<Rightarrow> string" where
  "sync_display (Client e) = client_display e"
| "sync_display (Crypto e) = crypto_display e"
| "sync_display (Io detail) = detail"

record divergence =
  dv_diff :: text_diff
  dv_remote :: string
  dv_revision :: string

datatype pull_outcome =
    PullUpToDate
  | LocalOnly
  | RemoteNewer divergence
  | PullConflict divergence
  | KeyMismatch sync_crypto_error

datatype push_outcome =
    PushStored string
  | PushUpToDate
  | PushConflict divergence
  | NothingToPush

section \<open>Steps\<close>

definition sync_store ::
    "prims \<Rightarrow> 'w sync_context \<Rightarrow> dek \<Rightarrow> kind \<Rightarrow> string \<Rightarrow> precondition \<Rightarrow>
     ('w world, sync_error, write_outcome) io" where
  "sync_store P C d kind plaintext precondition =
     io_bind (io_map_err Crypto (encrypt P d (sc_user_id C) kind (as_bytes plaintext))) (\<lambda>envelope.
     io_bind (io_res (map_err Crypto (to_blob P envelope))) (\<lambda>blob.
     io_map_err Client (store P (sc_api C) (resource_sync kind) blob precondition)))"

definition decrypt_document ::
    "prims \<Rightarrow> 'w sync_context \<Rightarrow> dek \<Rightarrow> kind \<Rightarrow> string \<Rightarrow> sync_crypto_error + string" where
  "decrypt_document P C d kind blob =
     bind_res (from_blob P blob) (\<lambda>envelope.
     bind_res (decrypt P d (sc_user_id C) kind envelope) (\<lambda>plaintext.
     ok_or (Malformed ''the decrypted content is not text'') (from_utf8 plaintext)))"

definition sync_save :: "prims \<Rightarrow> sync_state \<Rightarrow> path \<Rightarrow> ('w world, sync_error, unit) io" where
  "sync_save P s state_path =
     io_map_err (\<lambda>e. Io (''could not record the sync state: '' @ e)) (state_save P s state_path)"

definition sync_record ::
    "prims \<Rightarrow> kind \<Rightarrow> string \<Rightarrow> string \<Rightarrow> path \<Rightarrow> ('w world, sync_error, unit) io" where
  "sync_record P kind revision local state_path =
     io_bind (state_load P state_path) (\<lambda>s.
     sync_save P (state_record kind revision (content_hash P local) s) state_path)"

definition read_local :: "artifact \<Rightarrow> ('w world, sync_error, string) io" where
  "read_local a =
     io_bind (io_map_err (\<lambda>e. Io (''could not read the local file: '' @ io_display e))
       (artifact_read (art_path a))) (\<lambda>c.
     io_ok (case c of Some content \<Rightarrow> content | None \<Rightarrow> []))"

definition pull_content ::
    "prims \<Rightarrow> 'w sync_context \<Rightarrow> dek \<Rightarrow> kind \<Rightarrow> string \<Rightarrow> path \<Rightarrow>
     ('w world, sync_error, pull_outcome) io" where
  "pull_content P C d kind local state_path =
     io_bind (io_map_err Client (fetch P (sc_api C) (resource_sync kind))) (\<lambda>found.
     case found of
       None \<Rightarrow> io_ok LocalOnly
     | Some document \<Rightarrow>
         (case decrypt_document P C d kind (doc_blob document) of
            Inl e \<Rightarrow> io_ok (KeyMismatch e)
          | Inr remote \<Rightarrow>
              let local_hash = content_hash P local in
              if local_hash = content_hash P remote then
                io_bind (state_load P state_path) (\<lambda>s.
                io_bind (sync_save P (state_record kind (doc_revision document) local_hash s) state_path) (\<lambda>_.
                io_ok PullUpToDate))
              else
                let divergence = \<lparr>dv_diff = diff_between P local remote, dv_remote = remote,
                                  dv_revision = doc_revision document\<rparr>
                in
                io_bind (state_load P state_path) (\<lambda>s.
                let unchanged_since_sync =
                  (case state_get s kind of Some synced \<Rightarrow> sy_local_hash synced = local_hash | None \<Rightarrow> False)
                in io_ok (if unchanged_since_sync then RemoteNewer divergence else PullConflict divergence))))"

definition sync_pull ::
    "prims \<Rightarrow> 'w sync_context \<Rightarrow> dek \<Rightarrow> artifact \<Rightarrow> path \<Rightarrow> ('w world, sync_error, pull_outcome) io" where
  "sync_pull P C d a state_path =
     io_bind (read_local a) (\<lambda>local. pull_content P C d (art_kind a) local state_path)"

definition apply_remote ::
    "prims \<Rightarrow> artifact \<Rightarrow> string \<Rightarrow> string \<Rightarrow> path \<Rightarrow> ('w world, sync_error, unit) io" where
  "apply_remote P a remote revision state_path =
     io_bind (io_map_err (\<lambda>e. Io (''could not back up the current file, so it was not replaced: '' @ io_display e))
       (back_up a)) (\<lambda>_.
     io_bind (io_map_err (\<lambda>e. Io (''could not write the file: '' @ io_display e))
       (write_atomic (art_path a) remote)) (\<lambda>_.
     io_bind (state_load P state_path) (\<lambda>s.
     sync_save P (state_record (art_kind a) revision (content_hash P remote) s) state_path)))"

definition push_content ::
    "prims \<Rightarrow> 'w sync_context \<Rightarrow> dek \<Rightarrow> kind \<Rightarrow> string \<Rightarrow> path \<Rightarrow>
     ('w world, sync_error, push_outcome) io" where
  "push_content P C d kind local state_path =
     io_bind (state_load P state_path) (\<lambda>state.
     let precondition = (case state_get state kind of
         Some synced \<Rightarrow> Replace (sy_revision synced)
       | None \<Rightarrow> Create)
     in
     io_bind (sync_store P C d kind local precondition) (\<lambda>outcome.
     case outcome of
       Stored revision \<Rightarrow>
         io_bind (sync_record P kind revision local state_path) (\<lambda>_. io_ok (PushStored revision))
     | Conflict document \<Rightarrow>
         (case decrypt_document P C d kind (doc_blob document) of
            Inl e \<Rightarrow> io_err (Crypto e)
          | Inr remote \<Rightarrow>
              if content_hash P remote = content_hash P local then
                io_bind (sync_record P kind (doc_revision document) local state_path) (\<lambda>_.
                io_ok PushUpToDate)
              else io_ok (PushConflict \<lparr>dv_diff = diff_between P local remote, dv_remote = remote,
                                        dv_revision = doc_revision document\<rparr>))
     | Gone \<Rightarrow>
         io_bind (sync_store P C d kind local Create) (\<lambda>outcome.
         case outcome of
           Stored revision \<Rightarrow>
             io_bind (sync_record P kind revision local state_path) (\<lambda>_. io_ok (PushStored revision))
         | Conflict document \<Rightarrow>
             io_bind (io_res (map_err Crypto (decrypt_document P C d kind (doc_blob document)))) (\<lambda>remote.
             io_ok (PushConflict \<lparr>dv_diff = diff_between P local remote, dv_remote = remote,
                                  dv_revision = doc_revision document\<rparr>))
         | Gone \<Rightarrow> io_err (Client (Rejected
             ''the sync service could neither replace nor create the document'')))))"

definition sync_push ::
    "prims \<Rightarrow> 'w sync_context \<Rightarrow> dek \<Rightarrow> artifact \<Rightarrow> path \<Rightarrow> ('w world, sync_error, push_outcome) io" where
  "sync_push P C d a state_path =
     io_bind (io_map_err (\<lambda>e. Io (''could not read the local file: '' @ io_display e))
       (artifact_read (art_path a))) (\<lambda>c.
     case c of
       None \<Rightarrow> io_ok NothingToPush
     | Some local \<Rightarrow> push_content P C d (art_kind a) local state_path)"

definition overwrite_remote_content ::
    "prims \<Rightarrow> 'w sync_context \<Rightarrow> dek \<Rightarrow> kind \<Rightarrow> string \<Rightarrow> string \<Rightarrow> path \<Rightarrow>
     ('w world, sync_error, push_outcome) io" where
  "overwrite_remote_content P C d kind local revision state_path =
     io_bind (sync_store P C d kind local (Replace revision)) (\<lambda>outcome.
     case outcome of
       Stored revision \<Rightarrow>
         io_bind (sync_record P kind revision local state_path) (\<lambda>_. io_ok (PushStored revision))
     | Conflict document \<Rightarrow>
         io_bind (io_res (map_err Crypto (decrypt_document P C d kind (doc_blob document)))) (\<lambda>remote.
         io_ok (PushConflict \<lparr>dv_diff = diff_between P local remote, dv_remote = remote,
                              dv_revision = doc_revision document\<rparr>))
     | Gone \<Rightarrow> io_ok NothingToPush)"

definition overwrite_remote ::
    "prims \<Rightarrow> 'w sync_context \<Rightarrow> dek \<Rightarrow> artifact \<Rightarrow> string \<Rightarrow> path \<Rightarrow>
     ('w world, sync_error, push_outcome) io" where
  "overwrite_remote P C d a revision state_path =
     io_bind (io_map_err (\<lambda>e. Io (''could not read the local file: '' @ io_display e))
       (artifact_read (art_path a))) (\<lambda>c.
     case c of
       None \<Rightarrow> io_ok NothingToPush
     | Some local \<Rightarrow> overwrite_remote_content P C d (art_kind a) local revision state_path)"

section \<open>Frames\<close>

lemma frame_pull_outcome [frame_intros]:
  "(\<And>s. x = Stored s \<Longrightarrow> frame v (f s)) \<Longrightarrow> (\<And>c. x = Conflict c \<Longrightarrow> frame v (g c)) \<Longrightarrow>
   (x = Gone \<Longrightarrow> frame v h) \<Longrightarrow>
   frame v (case x of Stored s \<Rightarrow> f s | Conflict c \<Rightarrow> g c | Gone \<Rightarrow> h)"
  by (cases x) simp_all

lemma keeps_pull_outcome [frame_intros]:
  "(\<And>s. x = Stored s \<Longrightarrow> keeps v (f s)) \<Longrightarrow> (\<And>c. x = Conflict c \<Longrightarrow> keeps v (g c)) \<Longrightarrow>
   (x = Gone \<Longrightarrow> keeps v h) \<Longrightarrow>
   keeps v (case x of Stored s \<Rightarrow> f s | Conflict c \<Rightarrow> g c | Gone \<Rightarrow> h)"
  by (cases x) simp_all

lemma frame_encrypt [frame_intros]:
  "frame files (encrypt P d u k p)" "frame keychain (encrypt P d u k p)" "frame net (encrypt P d u k p)"
  "frame files (encrypt_at P d u r p)" "frame keychain (encrypt_at P d u r p)" "frame net (encrypt_at P d u r p)"
  unfolding encrypt_def encrypt_at_def by (intro frame_intros)+

lemma frame_sync_store [frame_intros]:
  "frame files (sync_store P C d k t pre)" "frame keychain (sync_store P C d k t pre)"
  "frame (file_at q) (sync_store P C d k t pre)"
  by (auto simp: sync_store_def intro!: frame_intros frame_file_at_if_files)

text \<open>The files a sync operation may write besides the artifact itself.\<close>

lemma sync_save_frame:
  "q \<noteq> p \<Longrightarrow> q \<noteq> temporary_path p \<Longrightarrow> frame (file_at q) (sync_save P s p)"
  unfolding sync_save_def by (intro frame_intros state_save_frame)

lemma sync_record_frame:
  "q \<noteq> p \<Longrightarrow> q \<noteq> temporary_path p \<Longrightarrow> frame (file_at q) (sync_record P k r l p)"
  unfolding sync_record_def by (intro frame_intros sync_save_frame)

lemma read_local_frame [frame_intros]: "frame (file_at q) (read_local a)"
  unfolding read_local_def by (intro frame_intros)

lemma fetch_frame [frame_intros]: "frame (file_at q) (fetch P A r)"
  by (intro frame_file_at_if_files frame_intros)

lemma pull_content_frame:
  "q \<noteq> p \<Longrightarrow> q \<noteq> temporary_path p \<Longrightarrow> frame (file_at q) (pull_content P C d k l p)"
  unfolding pull_content_def Let_def by (intro frame_intros sync_save_frame)

lemma push_content_frame:
  "q \<noteq> p \<Longrightarrow> q \<noteq> temporary_path p \<Longrightarrow> frame (file_at q) (push_content P C d k l p)"
  unfolding push_content_def Let_def by (intro frame_intros sync_record_frame)

lemma overwrite_content_frame:
  "q \<noteq> p \<Longrightarrow> q \<noteq> temporary_path p \<Longrightarrow> frame (file_at q) (overwrite_remote_content P C d k l r p)"
  unfolding overwrite_remote_content_def by (intro frame_intros sync_record_frame)

section \<open>Pulling\<close>

lemma pull_content_cases:
  assumes "pull_content P C d k l p w = (Inr out, w')"
  obtains (absent) "out = LocalOnly" "files w' = files w"
  | (mismatch) doc :: remote_document and e where "out = KeyMismatch e" "files w' = files w"
      "decrypt_document P C d k (doc_blob doc) = Inl e"
  | (same) doc :: remote_document and remote where "out = PullUpToDate"
      "decrypt_document P C d k (doc_blob doc) = Inr remote" "content_hash P l = content_hash P remote"
  | (differs) doc :: remote_document and remote s w1 where "files w' = files w" "state_load P p w1 = (Inr s :: sync_error + _, w')" "files w1 = files w"
      "decrypt_document P C d k (doc_blob doc) = Inr remote" "content_hash P l \<noteq> content_hash P remote"
      "out = (if \<exists>synced. state_get s k = Some synced \<and> sy_local_hash synced = content_hash P l
              then RemoteNewer else PullConflict)
        \<lparr>dv_diff = diff_between P l remote, dv_remote = remote, dv_revision = doc_revision doc\<rparr>"
proof -
  from assms obtain found w1 where f: "fetch P (sc_api C) (resource_sync k) w = (Inr found, w1)"
    by (auto simp: pull_content_def io_eqs)
  note run = assms [unfolded pull_content_def Let_def io_bind_apply [of "io_map_err Client _"] io_map_err_apply f]
  have w1: "files w1 = files w" using f by (rule frameD [OF frame_client(3)])
  show thesis
  proof (cases found)
    case None
    with run w1 show ?thesis by (intro absent) auto
  next
    case (Some doc)
    show ?thesis
    proof (cases "decrypt_document P C d k (doc_blob doc)")
      case (Inl e)
      with run w1 Some show ?thesis by (intro mismatch [where doc = doc]) auto
    next
      case (Inr remote)
      show ?thesis
      proof (cases "content_hash P l = content_hash P remote")
        case True
        with run Some Inr show ?thesis by (intro same [where doc = doc]) (auto simp: io_eqs)
      next
        case False
        with run Some Inr obtain s where s: "state_load P p w1 = (Inr s :: sync_error + _, w')"
          and out: "out = (if \<exists>synced. state_get s k = Some synced \<and> sy_local_hash synced = content_hash P l
              then RemoteNewer else PullConflict)
            \<lparr>dv_diff = diff_between P l remote, dv_remote = remote, dv_revision = doc_revision doc\<rparr>"
          by (auto simp: io_eqs split: option.splits if_splits)
        have "files w' = files w1" using s by (rule frameD [OF frame_state_load(1)])
        with s out w1 Inr False show ?thesis by (intro differs [where doc = doc and ?w1.0 = w1]) auto
      qed
    qed
  qed
qed

lemma read_local_files: "read_local a w = (r, w') \<Longrightarrow> files w' = files w"
proof -
  have "frame files (read_local a)" unfolding read_local_def by (intro frame_intros)
  then show "read_local a w = (r, w') \<Longrightarrow> files w' = files w" by (rule frameD)
qed

text \<open>C7. Pulling writes nothing the user owns: whatever the server answers and whatever fails, no
  file but the sync-state file (and its temporary) differs afterwards; and unless both sides
  already agree, no file differs at all. A wrong or rotated key (\<open>KeyMismatch\<close>) therefore never
  touches the disk.\<close>

theorem pull_writes_nothing:
  assumes "sync_pull P C d a state_path w = (r, w')"
  shows "(\<forall>q. q \<notin> {state_path, temporary_path state_path} \<longrightarrow> file_at q w' = file_at q w) \<and>
    (\<forall>out. r = Inr out \<and> out \<noteq> PullUpToDate \<longrightarrow> files w' = files w)"
proof (intro conjI allI impI)
  fix q
  assume "q \<notin> {state_path, temporary_path state_path}"
  then have "frame (file_at q) (sync_pull P C d a state_path)"
    unfolding sync_pull_def by (intro frame_intros pull_content_frame) auto
  then show "file_at q w' = file_at q w" using assms by (rule frameD)
next
  fix out
  assume out: "r = Inr out \<and> out \<noteq> PullUpToDate"
  with assms obtain l w1 where l: "read_local a w = (Inr l, w1)"
    and p: "pull_content P C d (art_kind a) l state_path w1 = (Inr out, w')"
    by (auto simp: sync_pull_def io_eqs)
  from p out have "files w' = files w1" by (cases rule: pull_content_cases) auto
  with read_local_files [OF l] show "files w' = files w" by simp
qed

text \<open>A server that answers every request with the document it holds.\<close>

definition example_context :: "string sync_context" where
  "example_context =
     \<lparr>sc_api = \<lparr>builds = (\<lambda>_. True), exchange = (\<lambda>_ n. (Some (200, Some n), n)), api_url = ''http://h'',
       access_token = ''t'', web_origin = ''http://w''\<rparr>, sc_user_id = ''u1''\<rparr>"

definition example_document :: "string \<Rightarrow> string \<Rightarrow> string" where
  "example_document text revision =
     (case bind_res (fst (encrypt ref_prims example_dek ''u1'' Settings (as_bytes text) (quiet_world ())))
             (to_blob ref_prims) of
        Inr blob \<Rightarrow> ref_print (JObj [(''blob'', JStr blob), (''revision'', JStr revision)])
      | Inl _ \<Rightarrow> [])"

definition example_artifact :: artifact where
  "example_artifact =
     \<lparr>art_kind = Settings, art_path = [RootDir, Normal ''settings.json''],
      art_backup_path = Some [RootDir, Normal ''backup.json'']\<rparr>"

definition example_state_path :: path where
  "example_state_path = [RootDir, Normal ''sync_state.json'']"

abbreviation example_pull :: "(sync_error + pull_outcome) \<times> string world" where
  "example_pull \<equiv> sync_pull ref_prims example_context example_dek example_artifact example_state_path
     (quiet_world (example_document ''b'' ''r1''))"

lemma example_pull_conflicts:
  obtains dv w' where "example_pull = (Inr (PullConflict dv), w')" "dv_remote dv = ''b''"
proof -
  have "case fst example_pull of Inr (PullConflict dv) \<Rightarrow> dv_remote dv = ''b'' | _ \<Rightarrow> False"
    by code_simp
  then show thesis by (cases example_pull) (auto split: sum.splits pull_outcome.splits intro: that)
qed

theorem pull_writes_nothing_witness:
  "\<exists>dv w'. example_pull = (Inr (PullConflict dv), w') \<and>
     files w' = files (quiet_world (example_document ''b'' ''r1''))"
proof -
  obtain dv w' where e: "example_pull = (Inr (PullConflict dv), w')" by (rule example_pull_conflicts)
  with pull_writes_nothing [OF e] show ?thesis by blast
qed

text \<open>The three-way decision: when the decrypted remote text differs from the local file, pull
  answers \<open>RemoteNewer\<close> exactly when the recorded hash of the last sync is the hash of the local
  file (nothing local would be lost), and \<open>Conflict\<close> in every other case, an unreadable or
  missing record included; the divergence carries the decrypted text and its revision.\<close>

theorem pull_three_way:
  assumes "sync_pull P C d a state_path w = (Inr out, w')"
    and "out = RemoteNewer dv \<or> out = PullConflict dv"
  shows "\<exists>local (doc :: remote_document) s w1. read_local a w = (Inr local, w1) \<and>
    decrypt_document P C d (art_kind a) (doc_blob doc) = Inr (dv_remote dv) \<and>
    dv_revision dv = doc_revision doc \<and> dv_diff dv = diff_between P local (dv_remote dv) \<and>
    content_hash P local \<noteq> content_hash P (dv_remote dv) \<and>
    (\<exists>w2. files w2 = files w \<and> state_load P state_path w2 = (Inr s :: sync_error + _, w')) \<and>
    (out = RemoteNewer dv \<longleftrightarrow>
       (\<exists>synced. state_get s (art_kind a) = Some synced \<and> sy_local_hash synced = content_hash P local))"
proof -
  from assms(1) obtain l w1 where l: "read_local a w = (Inr l, w1)"
    and p: "pull_content P C d (art_kind a) l state_path w1 = (Inr out, w')"
    by (auto simp: sync_pull_def io_eqs)
  from p show ?thesis
  proof (cases rule: pull_content_cases)
    case (differs doc remote s w2)
    with assms(2) l read_local_files [OF l] show ?thesis
      by (intro exI [of _ l] exI [of _ doc] exI [of _ s] exI [of _ w1]) (auto split: if_splits)
  qed (use assms(2) in auto)
qed

theorem pull_three_way_witness:
  "\<exists>dv w' s w2. example_pull = (Inr (PullConflict dv), w') \<and>
     state_load ref_prims example_state_path w2 = (Inr s :: sync_error + _, w') \<and>
     state_get s Settings = None \<and> dv_revision dv = ''r1''"
proof -
  have rev: "case fst example_pull of Inr (PullConflict dv) \<Rightarrow> dv_revision dv = ''r1'' | _ \<Rightarrow> False"
    by code_simp
  obtain dv w' where e: "example_pull = (Inr (PullConflict dv), w')" by (rule example_pull_conflicts)
  from pull_three_way [OF e] obtain s w2 where s: "state_load ref_prims example_state_path w2 = (Inr s :: sync_error + _, w')"
    and f: "files w2 = []" by (auto simp: quiet_world_def)
  have "state_get s Settings = None"
    using s f unfolding state_load_def artifact_read_def fs_read_to_string_def fs_read_def fs_guard_def io_case_apply io_bind_apply
    by (auto simp: state_get_def bt_get_def file_at_def not_found_def split: option.splits sum.splits if_splits)
  with rev e s show ?thesis by auto
qed

section \<open>Applying\<close>

text \<open>C6. The backup comes first. Applying a remote copy, under any failures of the file system,
  leaves the artifact either exactly as it was or exactly the remote text, never anything in
  between; and if it was replaced, what it held before is in the backup file. A failure to back
  up is a failure to replace.\<close>

theorem apply_remote_backs_up:
  assumes "apply_remote P a remote revision state_path w = (r, w')"
    and "art_backup_path a = Some b" "named_path b" "named_path (art_path a)" "honest_fs w"
    and distinct: "art_path a \<notin> {b, temporary_path b, state_path, temporary_path state_path}"
      "b \<notin> {temporary_path (art_path a), state_path, temporary_path state_path}"
  shows "(file_at (art_path a) w' = file_at (art_path a) w \<or>
          file_at (art_path a) w' = Some (as_bytes remote)) \<and>
    (r = Inr () \<longrightarrow> file_at (art_path a) w' = Some (as_bytes remote)) \<and>
    (\<forall>old. file_at (art_path a) w = Some old \<and> file_at (art_path a) w' \<noteq> Some old \<longrightarrow>
       file_at b w' = Some old)"
proof -
  let ?p = "art_path a"
  obtain r1 w1 where b1: "back_up a w = (r1, w1)" by force
  have p1: "file_at ?p w1 = file_at ?p w"
    using frameD [OF back_up_keeps b1] assms(2) distinct(1) by auto
  show ?thesis
  proof (cases r1)
    case (Inl e)
    then have "w' = w1" "r \<noteq> Inr ()" using assms(1) b1 by (auto simp: apply_remote_def io_bind_apply io_map_err_apply)
    with p1 show ?thesis by auto
  next
    case (Inr u)
    then have r1: "r1 = Inr ()" by simp
    obtain r2 w2 where b2: "write_atomic ?p remote w1 = (r2, w2)" by force
    have p2: "file_at ?p w2 = (case r2 of Inr _ \<Rightarrow> Some (as_bytes remote) | Inl _ \<Rightarrow> file_at ?p w)"
      using write_atomic_target [OF assms(4) b2] p1 by (simp split: sum.splits)
    have bk: "file_at b w2 = file_at b w1"
      using frameD [OF write_atomic_frame b2] distinct by auto
    have rest: "(\<forall>q \<in> {?p, b}. file_at q w' = file_at q w2) \<and> (r = Inr () \<longrightarrow> r2 = Inr ())"
    proof (cases r2)
      case (Inl e)
      then show ?thesis using assms(1) b1 b2 r1
        by (auto simp: apply_remote_def io_bind_apply io_map_err_apply)
    next
      case (Inr u)
      let ?k = "io_bind (state_load P state_path) (\<lambda>s.
        sync_save P (state_record (art_kind a) revision (content_hash P remote) s) state_path)"
      have k: "?k w2 = (r, w')"
        using assms(1) b1 b2 r1 Inr by (auto simp: apply_remote_def io_bind_apply io_map_err_apply)
      have "frame (file_at q) ?k" if "q \<in> {?p, b}" for q
        using that distinct by (intro frame_intros sync_save_frame) auto
      with k Inr show ?thesis by (auto dest: frameD)
    qed
    have "file_at ?p w = Some old \<Longrightarrow> file_at b w1 = Some old" for old
      using back_up_done [of a w w1 b old] b1 r1 assms(2,3,5) by simp
    with rest p2 bk show ?thesis by (auto split: sum.splits)
  qed
qed

definition example_disk :: "string world" where
  "example_disk = set_file (art_path example_artifact) (as_bytes ''old'') (quiet_world [])"

theorem apply_remote_backs_up_witness:
  "\<exists>w'. apply_remote ref_prims example_artifact ''new'' ''r1'' example_state_path example_disk = (Inr (), w') \<and>
     file_at (art_path example_artifact) w' = Some (as_bytes ''new'') \<and>
     file_at [RootDir, Normal ''backup.json''] w' = Some (as_bytes ''old'')"
proof -
  let ?run = "apply_remote ref_prims example_artifact ''new'' ''r1'' example_state_path example_disk"
  let ?p = "art_path example_artifact" and ?b = "[RootDir, Normal ''backup.json'']"
  have ok: "fst ?run = Inr ()" by code_simp
  then obtain w' where run: "?run = (Inr (), w')" by (cases ?run) auto
  have b: "art_backup_path example_artifact = Some ?b" by (simp add: example_artifact_def)
  have named: "named_path ?b" "named_path ?p"
    by (simp_all add: named_path_def file_name_def example_artifact_def)
  have quiet: "honest_fs example_disk"
    by (simp add: honest_fs_def example_disk_def quiet_world_def set_file_def)
  have dis: "?p \<notin> {?b, temporary_path ?b, example_state_path, temporary_path example_state_path}"
    "?b \<notin> {temporary_path ?p, example_state_path, temporary_path example_state_path}"
    by code_simp+
  have old: "file_at ?p example_disk = Some (as_bytes ''old'')" by (simp add: example_disk_def)
  have "as_bytes ''new'' \<noteq> as_bytes ''old''" by simp
  with apply_remote_backs_up [OF run b named quiet dis] old run show ?thesis by auto
qed

section \<open>Pushing\<close>

lemma keeps_on_net_frame: "frame net m \<Longrightarrow> keeps (on_net I) m"
  by (simp add: frame_def keeps_def on_net_def)

lemma frame_net_sync [frame_intros]:
  "frame net (sync_save P s p)" "frame net (sync_record P k r l p)" "frame net (read_local a)"
  "frame net (apply_remote P a rem r p)"
  unfolding sync_save_def sync_record_def read_local_def apply_remote_def by (intro frame_intros)+

lemmas keeps_on_net [frame_intros] =
  frame_net_sync [THEN keeps_on_net_frame] frame_encrypt(3,6) [THEN keeps_on_net_frame]
  frame_state_load(2) [THEN keeps_on_net_frame] frame_artifact_read(2) [THEN keeps_on_net_frame]

lemma keeps_sync_store:
  "kept_by allowed I (sc_api C) \<Longrightarrow> (\<And>r. carries pre r \<Longrightarrow> allowed r) \<Longrightarrow> keeps (on_net I) (sync_store P C d k t pre)"
  unfolding sync_store_def by (intro frame_intros keeps_store)

text \<open>The condition a machine's record puts on its next write of a kind.\<close>

definition last_seen :: "prims \<Rightarrow> kind \<Rightarrow> path \<Rightarrow> 'w world \<Rightarrow> precondition" where
  "last_seen P kind state_path w =
     (case fst (state_load P state_path w) :: sync_error + sync_state of
        Inr s \<Rightarrow> (case state_get s kind of Some synced \<Rightarrow> Replace (sy_revision synced) | None \<Rightarrow> Create)
      | Inl _ \<Rightarrow> Create)"

lemma push_content_conditional:
  assumes "kept_by (\<lambda>r. carries Create r \<or> carries (last_seen P kind state_path w) r) I (sc_api C)" "I (net w)"
  shows "I (net (snd (push_content P C d kind local state_path w)))"
proof -
  obtain x w1 where x: "state_load P state_path w = (x :: sync_error + sync_state, w1)" by force
  have n: "I (net w1)" using frameD [OF frame_state_load(2) x] assms(2) by simp
  show ?thesis
  proof (cases x)
    case (Inl e)
    with x n show ?thesis by (simp add: push_content_def io_bind_apply)
  next
    case (Inr s)
    let ?pre = "last_seen P kind state_path w"
    have pre: "?pre = (case state_get s kind of Some synced \<Rightarrow> Replace (sy_revision synced) | None \<Rightarrow> Create)"
      using x Inr by (simp add: last_seen_def)
    have st: "keeps (on_net I) (sync_store P C d kind local pre)" if "pre = Create \<or> pre = ?pre" for pre
      using that by (auto intro!: keeps_sync_store [OF assms(1)])
    have n': "on_net I w1" using n by (simp add: on_net_def)
    have "on_net I (snd (push_content P C d kind local state_path w))"
      unfolding push_content_def Let_def io_bind_apply [of "state_load P state_path"] x Inr prod.case sum.case pre [symmetric]
      by (rule keepsD [where I = "on_net I", OF _ _ prod.collapse [symmetric]], rule_tac [2] n') (intro frame_intros st; simp)
    then show ?thesis by (simp add: on_net_def)
  qed
qed

text \<open>C8. No write is unconditional. A pull sends nothing but reads: any invariant of the network that
  reads keep survives it. A push sends nothing but writes that create, or that replace exactly the
  revision this machine's record has; the deliberate overwrite of a conflict nothing but writes that
  replace exactly the revision the user was shown. None of them removes anything. Whatever is
  answered along the way, any invariant of the network that those requests keep survives, so no
  other machine's work can be replaced blindly.\<close>

theorem sync_never_unconditional:
  "(kept_by is_read I (sc_api C) \<longrightarrow> keeps (on_net I) (sync_pull P C d a state_path)) \<and>
   (kept_by (\<lambda>r. carries Create r \<or>
        carries (last_seen P (art_kind a) state_path (snd (artifact_read (art_path a) w))) r) I (sc_api C) \<longrightarrow>
      I (net w) \<longrightarrow> I (net (snd (sync_push P C d a state_path w)))) \<and>
   (kept_by (carries (Replace revision)) I (sc_api C) \<longrightarrow>
      keeps (on_net I) (overwrite_remote P C d a revision state_path))"
proof (intro conjI impI)
  assume "kept_by is_read I (sc_api C)"
  then show "keeps (on_net I) (sync_pull P C d a state_path)"
    unfolding sync_pull_def pull_content_def Let_def by (intro frame_intros keeps_fetch)
next
  assume "kept_by (carries (Replace revision)) I (sc_api C)"
  from keeps_sync_store [OF this] show "keeps (on_net I) (overwrite_remote P C d a revision state_path)"
    unfolding overwrite_remote_def overwrite_remote_content_def Let_def
    by (intro frame_intros) simp_all
next
  obtain x w1 where x: "artifact_read (art_path a) w = (x, w1)" by force
  assume "kept_by (\<lambda>r. carries Create r \<or>
      carries (last_seen P (art_kind a) state_path (snd (artifact_read (art_path a) w))) r) I (sc_api C)"
  then have k: "kept_by (\<lambda>r. carries Create r \<or> carries (last_seen P (art_kind a) state_path w1) r) I (sc_api C)"
    by (simp add: x)
  assume "I (net w)"
  then have n: "I (net w1)" using frameD [OF frame_artifact_read(2) x] by simp
  show "I (net (snd (sync_push P C d a state_path w)))"
    using push_content_conditional [OF k n, of d] n
    by (simp add: sync_push_def io_bind_apply io_map_err_apply x split: sum.split option.split)
qed

text \<open>A log of the requests sent, as such an invariant. Nothing is on record, so the one write a push of
  a local file makes is a creation, sent to a service that does not answer.\<close>

definition logging_api :: "request list api" where
  "logging_api =
     \<lparr>builds = (\<lambda>_. True), exchange = (\<lambda>r log. (None, log @ [r])), api_url = ''http://h'',
      access_token = ''t'', web_origin = ''http://w''\<rparr>"

definition logging_disk :: "request list world" where
  "logging_disk = set_file (art_path example_artifact) (as_bytes ''mine'') (quiet_world [])"

lemma logging_kept: "(\<And>r. allowed r \<Longrightarrow> Q r) \<Longrightarrow> kept_by allowed (list_all Q) logging_api"
  by (simp add: kept_by_def logging_api_def)

theorem sync_never_unconditional_witness:
  "map req_method (net (snd (sync_push ref_prims \<lparr>sc_api = logging_api, sc_user_id = ''u1''\<rparr> example_dek
      example_artifact example_state_path logging_disk))) = [''PUT''] \<and>
   list_all (carries Create) (net (snd (sync_push ref_prims \<lparr>sc_api = logging_api, sc_user_id = ''u1''\<rparr> example_dek
      example_artifact example_state_path logging_disk)))"
proof -
  let ?C = "\<lparr>sc_api = logging_api, sc_user_id = ''u1''\<rparr>"
  let ?pre = "last_seen ref_prims (art_kind example_artifact) example_state_path
    (snd (artifact_read (art_path example_artifact) logging_disk))"
  have pre: "?pre = Create" by code_simp
  have "kept_by (\<lambda>r. carries Create r \<or> carries ?pre r) (list_all (carries Create)) (sc_api ?C)"
    unfolding pre by (simp add: logging_kept)
  moreover have "list_all (carries Create) (net logging_disk)"
    by (simp add: logging_disk_def quiet_world_def set_file_def)
  ultimately have "list_all (carries Create) (net (snd (sync_push ref_prims ?C example_dek example_artifact example_state_path
      logging_disk)))"
    using sync_never_unconditional [where C = ?C and P = ref_prims and a = example_artifact and w = logging_disk] by blast
  moreover have "map req_method (net (snd (sync_push ref_prims ?C example_dek example_artifact example_state_path
      logging_disk))) = [''PUT'']" by code_simp
  ultimately show ?thesis by blast
qed

lemma sync_record_done:
  assumes "sync_record P k r l p w = (Inr (), w')" and "json_ok P" "named_path p"
    and "fs_fault w' (tick w') = None"
  shows "\<exists>s. fst (state_load P p w') = Inr s \<and>
    state_get s k = Some \<lparr>sy_revision = r, sy_local_hash = content_hash P l\<rparr>"
proof -
  from assms(1) obtain s w1 where s: "state_load P p w = (Inr s :: sync_error + _, w1)"
    and sv: "state_save P (state_record k r (content_hash P l) s) p w1 = (Inr (), w')"
    by (auto simp: sync_record_def sync_save_def io_eqs)
  have "bt_ok (state_record k r (content_hash P l) s)"
    using state_load_bt_ok [OF s] by (simp add: state_record_def bt.inv_put)
  from state_save_load [OF sv assms(2) this assms(3,4)] show ?thesis
    by (auto simp: state_get_def state_record_def)
qed

text \<open>A push that answers \<open>Stored\<close> has recorded it: reading the sync state back gives, for this
  kind, exactly the revision the server answered and the hash of the text that was sent, so the
  next push is conditional on that revision and the next pull can tell whether the file changed.\<close>

theorem push_records_revision:
  assumes "push_content P C d kind local state_path w = (Inr (PushStored revision), w')"
    and "json_ok P" "named_path state_path" "fs_fault w' (tick w') = None"
  shows "\<exists>s. fst (state_load P state_path w') = Inr s \<and>
    state_get s kind = Some \<lparr>sy_revision = revision, sy_local_hash = content_hash P local\<rparr>"
proof -
  from assms(1) obtain s w1 out w2
    where "sync_store P C d kind local
        (case state_get s kind of Some synced \<Rightarrow> Replace (sy_revision synced) | None \<Rightarrow> Create) w1 = (Inr out, w2)"
      and run: "push_content P C d kind local state_path w = (Inr (PushStored revision), w')"
      and "state_load P state_path w = (Inr s :: sync_error + _, w1)"
    by (auto simp: push_content_def Let_def io_eqs)
  then have "\<exists>w1. sync_record P kind revision local state_path w1 = (Inr (), w')"
    by (cases out)
      (auto simp: push_content_def Let_def io_bind_apply [of "state_load P state_path"]
          io_bind_apply [of "sync_store _ _ _ _ _ _"] io_bind_eq_Inr
        split: sum.splits if_splits prod.splits write_outcome.splits)
  then show ?thesis using sync_record_done assms(2-4) by blast
qed

text \<open>A server that stores whatever it is sent.\<close>

definition storing_context :: "unit sync_context" where
  "storing_context =
     \<lparr>sc_api = \<lparr>builds = (\<lambda>_. True),
        exchange = (\<lambda>_ n. (Some (200, Some (ref_print (JObj [(''revision'', JStr ''r1'')]))), n)),
        api_url = ''http://h'', access_token = ''t'', web_origin = ''http://w''\<rparr>, sc_user_id = ''u1''\<rparr>"

theorem push_records_revision_witness:
  "\<exists>w' s. push_content ref_prims storing_context example_dek Settings ''a'' example_state_path (quiet_world ())
      = (Inr (PushStored ''r1''), w') \<and>
    fst (state_load ref_prims example_state_path w') = (Inr s :: unit + _) \<and>
    state_get s Settings = Some \<lparr>sy_revision = ''r1'', sy_local_hash = content_hash ref_prims ''a''\<rparr>"
proof -
  let ?run = "push_content ref_prims storing_context example_dek Settings ''a'' example_state_path (quiet_world ())"
  have "fst ?run = Inr (PushStored ''r1'') \<and> fs_fault (snd ?run) (tick (snd ?run)) = None" by code_simp
  then obtain w' where run: "?run = (Inr (PushStored ''r1''), w')" and quiet: "fs_fault w' (tick w') = None"
    by (cases ?run) auto
  have "named_path example_state_path" by (simp add: named_path_def file_name_def example_state_path_def)
  from push_records_revision [OF run ref_json_ok this quiet] run show ?thesis by blast
qed

end
