(* ===== verification/Rotate.thy ===== *)
theory Rotate
  imports Sync
begin

text \<open>
  \<^verbatim>\<open>zode_sync/src/keystore.rs\<close> and \<^verbatim>\<open>zode_sync/src/rotate.rs\<close>: the two keychain entries, and the
  rotation of the recovery key, which re-seals every slot under a new key: key slots first, all or
  none, then the artifacts. \<open>persist\<close> is the caller's adoption of the new key, a parameter as it
  is in the code.
\<close>

section \<open>The keychain\<close>

definition KEYCHAIN_URL :: string where
  "KEYCHAIN_URL = ''zode://sync-key''"

definition ROTATION_KEYCHAIN_URL :: string where
  "ROTATION_KEYCHAIN_URL = ''zode://sync-key-rotation''"

definition key_read :: "('w world, 'e, dek option) io" where
  "key_read = io_case (kc_read KEYCHAIN_URL) (\<lambda>stored.
     case stored of
       Inl _ \<Rightarrow> io_ok None
     | Inr None \<Rightarrow> io_ok None
     | Inr (Some (_, payload)) \<Rightarrow> io_ok (dek_from_slice payload))"

definition key_write :: "string \<Rightarrow> dek \<Rightarrow> ('w world, string, unit) io" where
  "key_write user_id d = kc_write KEYCHAIN_URL user_id (dek_bytes d)"

definition key_delete :: "('w world, string, unit) io" where
  "key_delete = kc_delete KEYCHAIN_URL"

definition read_rotation :: "('w world, 'e, (dek \<times> dek) option) io" where
  "read_rotation = io_case (kc_read ROTATION_KEYCHAIN_URL) (\<lambda>stored.
     case stored of
       Inl _ \<Rightarrow> io_ok None
     | Inr None \<Rightarrow> io_ok None
     | Inr (Some (_, payload)) \<Rightarrow>
         if length payload \<noteq> 2 * DEK_LEN then io_ok None
         else io_ok (case (dek_from_slice (take DEK_LEN payload), dek_from_slice (drop DEK_LEN payload)) of
             (Some old, Some new) \<Rightarrow> Some (old, new)
           | _ \<Rightarrow> None))"

definition write_rotation :: "string \<Rightarrow> dek \<Rightarrow> dek \<Rightarrow> ('w world, string, unit) io" where
  "write_rotation user_id old new =
     kc_write ROTATION_KEYCHAIN_URL user_id (dek_bytes old @ dek_bytes new)"

definition delete_rotation :: "('w world, string, unit) io" where
  "delete_rotation = kc_delete ROTATION_KEYCHAIN_URL"

section \<open>Slots\<close>

definition ENV_KEY_SLOT :: string where
  "ENV_KEY_SLOT = ''env-key''"

datatype slot = ArtifactSlot kind | SharingKey | EnvKey

definition ALL_SLOTS :: "slot list" where
  "ALL_SLOTS = [SharingKey, EnvKey, ArtifactSlot Settings, ArtifactSlot Keymap, ArtifactSlot Extensions]"

fun holds_key :: "slot \<Rightarrow> bool" where
  "holds_key (ArtifactSlot _) = False"
| "holds_key SharingKey = True"
| "holds_key EnvKey = True"

fun slot_resource :: "slot \<Rightarrow> sync_crypto_error + resource" where
  "slot_resource (ArtifactSlot kind) = Inr (resource_sync kind)"
| "slot_resource SharingKey = Inr resource_sharing_key"
| "slot_resource EnvKey = resource_env_singleton ENV_KEY_SLOT"

fun slot_display :: "slot \<Rightarrow> string" where
  "slot_display (ArtifactSlot kind) = kind_as_str kind"
| "slot_display SharingKey = SHARING_KEY_RESOURCE"
| "slot_display EnvKey = ENV_KEY_SLOT"

record rotation_plan =
  rp_pending :: "slot list"
  rp_done :: "slot list"
  rp_absent :: "slot list"

datatype rotation_outcome = RotationComplete | RotationInterrupted "slot list"

datatype resealed = ResealStored string bytes | ResealMissing | ResealLost

section \<open>Moving one document\<close>

definition fingerprint :: "prims \<Rightarrow> string \<Rightarrow> bytes option" where
  "fingerprint P blob =
     (case from_blob P blob of Inl _ \<Rightarrow> None | Inr e \<Rightarrow> b64_array P KID_LEN (env_kid e))"

definition open_with ::
    "prims \<Rightarrow> 'w sync_context \<Rightarrow> dek \<Rightarrow> resource \<Rightarrow> string \<Rightarrow> sync_error + bytes" where
  "open_with P C d resource blob =
     bind_res (map_err Crypto (from_blob P blob)) (\<lambda>parsed.
     map_err Crypto (decrypt_at P d (sc_user_id C) resource parsed))"

definition text_hash :: "prims \<Rightarrow> bytes \<Rightarrow> sync_error + string" where
  "text_hash P plaintext =
     bind_res (ok_or (Crypto (Malformed ''the decrypted content is not text'')) (from_utf8 plaintext))
       (\<lambda>text. Inr (content_hash P text))"

definition seal_with ::
    "prims \<Rightarrow> 'w sync_context \<Rightarrow> dek \<Rightarrow> resource \<Rightarrow> bytes \<Rightarrow> ('w world, sync_error, string) io" where
  "seal_with P C d resource plaintext =
     io_bind (io_map_err Crypto (encrypt_at P d (sc_user_id C) resource plaintext)) (\<lambda>envelope.
     io_res (map_err Crypto (to_blob P envelope)))"

definition reseal ::
    "prims \<Rightarrow> 'w sync_context \<Rightarrow> dek \<Rightarrow> dek \<Rightarrow> resource \<Rightarrow> string option \<Rightarrow>
     ('w world, sync_error, resealed) io" where
  "reseal P C from to resource expected =
     io_bind (io_map_err Client (fetch P (sc_api C) resource)) (\<lambda>found.
     case found of
       None \<Rightarrow> io_ok ResealMissing
     | Some document \<Rightarrow>
         if (case expected of Some e \<Rightarrow> e \<noteq> doc_revision document | None \<Rightarrow> False) then io_ok ResealMissing
         else
           io_bind (io_res (open_with P C from resource (doc_blob document))) (\<lambda>plaintext.
           io_bind (seal_with P C to resource plaintext) (\<lambda>blob.
           io_bind (io_map_err Client
             (store P (sc_api C) resource blob (Replace (doc_revision document)))) (\<lambda>written.
           io_ok (case written of
               Stored revision \<Rightarrow> ResealStored revision plaintext
             | Conflict _ \<Rightarrow> ResealLost
             | Gone \<Rightarrow> ResealLost)))))"

section \<open>Rotating\<close>

text \<open>Where one slot goes: by the fingerprint in its envelope, the new key's first.\<close>

definition plan_note ::
    "prims \<Rightarrow> dek \<Rightarrow> dek \<Rightarrow> slot \<Rightarrow> remote_document option \<Rightarrow> rotation_plan \<Rightarrow> rotation_plan" where
  "plan_note P old new slot found plan =
     (case found of
        None \<Rightarrow> plan\<lparr>rp_absent := rp_absent plan @ [slot]\<rparr>
      | Some document \<Rightarrow>
          (case fingerprint P (doc_blob document) of
             None \<Rightarrow> plan
           | Some k \<Rightarrow>
               if k = kid P new then plan\<lparr>rp_done := rp_done plan @ [slot]\<rparr>
               else if k = kid P old then plan\<lparr>rp_pending := rp_pending plan @ [slot]\<rparr>
               else plan))"

fun plan_slots ::
    "prims \<Rightarrow> 'w sync_context \<Rightarrow> dek \<Rightarrow> dek \<Rightarrow> slot list \<Rightarrow> rotation_plan \<Rightarrow>
     ('w world, sync_error, rotation_plan) io" where
  "plan_slots P C old new [] plan = io_ok plan"
| "plan_slots P C old new (slot # rest) plan =
     io_bind (io_res (map_err Crypto (slot_resource slot))) (\<lambda>resource.
     io_bind (io_map_err Client (fetch P (sc_api C) resource)) (\<lambda>found.
     plan_slots P C old new rest (plan_note P old new slot found plan)))"

definition rotation_plan_of ::
    "prims \<Rightarrow> 'w sync_context \<Rightarrow> dek \<Rightarrow> dek \<Rightarrow> ('w world, sync_error, rotation_plan) io" where
  "rotation_plan_of P C old new =
     plan_slots P C old new ALL_SLOTS \<lparr>rp_pending = [], rp_done = [], rp_absent = []\<rparr>"

text \<open>The list is the moved slots, last first.\<close>

fun put_back ::
    "prims \<Rightarrow> 'w sync_context \<Rightarrow> dek \<Rightarrow> dek \<Rightarrow> (resource \<times> string) list \<Rightarrow> ('w world, 'e, unit) io" where
  "put_back P C old new [] = io_ok ()"
| "put_back P C old new ((resource, revision) # rest) =
     io_case (reseal P C new old resource (Some revision)) (\<lambda>_. put_back P C old new rest)"

fun move_key_slots ::
    "prims \<Rightarrow> 'w sync_context \<Rightarrow> dek \<Rightarrow> dek \<Rightarrow> slot list \<Rightarrow> slot list \<Rightarrow> (resource \<times> string) list \<Rightarrow>
     ('w world, sync_error, rotation_outcome + (resource \<times> string) list) io" where
  "move_key_slots P C old new artifacts [] moved = io_ok (Inr moved)"
| "move_key_slots P C old new artifacts (slot # rest) moved =
     io_bind (io_res (map_err Crypto (slot_resource slot))) (\<lambda>resource.
     io_case (reseal P C old new resource None) (\<lambda>r.
     case r of
       Inr (ResealStored revision _) \<Rightarrow>
         move_key_slots P C old new artifacts rest (moved @ [(resource, revision)])
     | Inr ResealMissing \<Rightarrow> move_key_slots P C old new artifacts rest moved
     | Inr ResealLost \<Rightarrow>
         io_bind (put_back P C old new (rev moved)) (\<lambda>_.
         io_ok (Inl (RotationInterrupted ((slot # rest) @ artifacts))))
     | Inl e \<Rightarrow> io_bind (put_back P C old new (rev moved)) (\<lambda>_. io_err e)))"

definition run_persist :: "('w world \<Rightarrow> 'w world) \<Rightarrow> ('w world, 'e, unit) io" where
  "run_persist persist = (\<lambda>w. (Inr (), persist w))"

fun move_artifacts ::
    "prims \<Rightarrow> 'w sync_context \<Rightarrow> dek \<Rightarrow> dek \<Rightarrow> path \<Rightarrow> ('w world \<Rightarrow> 'w world) \<Rightarrow>
     slot list \<Rightarrow> bool \<Rightarrow> slot list \<Rightarrow> ('w world, sync_error, slot list) io" where
  "move_artifacts P C old new state_path persist [] persisted remaining = io_ok remaining"
| "move_artifacts P C old new state_path persist (slot # rest) persisted remaining =
     (case slot of
        ArtifactSlot kind \<Rightarrow>
          io_bind (io_res (map_err Crypto (slot_resource slot))) (\<lambda>resource.
          io_bind (reseal P C old new resource None) (\<lambda>r.
          case r of
            ResealStored revision plaintext \<Rightarrow>
              io_bind (if persisted then io_ok () else run_persist persist) (\<lambda>_.
              io_bind (io_res (text_hash P plaintext)) (\<lambda>local_hash.
              io_bind (state_load P state_path) (\<lambda>state.
              io_bind (io_map_err Io
                (state_save P (state_record kind revision local_hash state) state_path)) (\<lambda>_.
              move_artifacts P C old new state_path persist rest True remaining))))
          | ResealMissing \<Rightarrow> move_artifacts P C old new state_path persist rest persisted remaining
          | ResealLost \<Rightarrow>
              move_artifacts P C old new state_path persist rest persisted (remaining @ [slot])))
      | _ \<Rightarrow> move_artifacts P C old new state_path persist rest persisted remaining)"

definition rotate_slots ::
    "prims \<Rightarrow> 'w sync_context \<Rightarrow> dek \<Rightarrow> dek \<Rightarrow> path \<Rightarrow> ('w world \<Rightarrow> 'w world) \<Rightarrow>
     ('w world, sync_error, rotation_outcome) io" where
  "rotate_slots P C old new state_path persist =
     io_bind (rotation_plan_of P C old new) (\<lambda>plan.
     let key_slots = filter holds_key (rp_pending plan);
         artifacts = filter (\<lambda>s. \<not> holds_key s) (rp_pending plan)
     in
     io_bind (move_key_slots P C old new artifacts key_slots []) (\<lambda>stopped.
     case stopped of
       Inl outcome \<Rightarrow> io_ok outcome
     | Inr moved \<Rightarrow>
         let persisted = (moved \<noteq> [] \<or> rp_done plan \<noteq> []) in
         io_bind (if persisted then run_persist persist else io_ok ()) (\<lambda>_.
         io_bind (move_artifacts P C old new state_path persist artifacts persisted []) (\<lambda>remaining.
         io_ok (if remaining = [] then RotationComplete else RotationInterrupted remaining)))))"

section \<open>The keychain reads back\<close>

lemma key_write_read:
  assumes "key_write u d w = (Inr (), w')" and "dek_ok d" "kc_fault w' (tick w') = None"
  shows "fst (key_read w') = Inr (Some d)"
  using assms unfolding key_write_def kc_write_def key_read_def kc_read_def io_case_apply
  by (auto simp: key_at_def update_conv dek_from_slice_def dek_ok_def split: option.splits)

lemma rotation_write_read:
  assumes "write_rotation u old new w = (Inr (), w')" and "dek_ok old" "dek_ok new" "kc_fault w' (tick w') = None"
  shows "fst (read_rotation w') = Inr (Some (old, new))"
  using assms unfolding write_rotation_def kc_write_def read_rotation_def kc_read_def io_case_apply
  by (auto simp: key_at_def update_conv dek_from_slice_def dek_ok_def split: option.splits)

end
