(* ===== verification/Store_Server.thy ===== *)
theory Store_Server
  imports Rotate
begin

text \<open>
  What the sync code relies on of the service, as an interface (the locale \<open>document_store\<close>: reads
  answer what is stored, a write lands only if its precondition holds, a refused write changes
  nothing), and the stand-in the repository tests against
  (\<^verbatim>\<open>zode_sync/tests/fake_store/mod.rs\<close>), which honours \<open>If-Match\<close> and \<open>If-None-Match\<close> as the real
  controller does and can be told to fail, conflict or refuse. The interface is interpreted on the
  stand-in, and what follows from it for pushing, pulling and rotating is proved once.
\<close>

section \<open>The stand-in service\<close>

record fake_store =
  fk_documents :: "(string, remote_document) btree"
  fk_revisions :: nat
  fk_requests :: nat
  fk_writes :: nat
  fk_reject :: bool
  fk_fail_after :: "nat option"
  fk_conflicts :: "string list"
  fk_plan_refusals :: "string list"

definition fake_new :: fake_store where
  "fake_new =
     \<lparr>fk_documents = [], fk_revisions = 0, fk_requests = 0, fk_writes = 0, fk_reject = False,
      fk_fail_after = None, fk_conflicts = [], fk_plan_refusals = []\<rparr>"

definition last_segment :: "string \<Rightarrow> string" where
  "last_segment uri = rev (takeWhile (\<lambda>c. c \<noteq> CHR ''/'') (rev (takeWhile (\<lambda>c. c \<noteq> CHR ''?'' \<and> c \<noteq> CHR ''#'') uri)))"

definition header_of :: "string \<Rightarrow> request \<Rightarrow> string option" where
  "header_of name r = map_of (req_headers r) name"

definition fake_reply :: "prims \<Rightarrow> nat \<Rightarrow> json \<Rightarrow> answer" where
  "fake_reply P status j = (case json_text P j of Inr body \<Rightarrow> Some (status, Some body) | Inl _ \<Rightarrow> None)"

definition document_fields :: "remote_document \<Rightarrow> (string \<times> json) list" where
  "document_fields d =
     [(''blob'', JStr (doc_blob d)), (''byteLength'', JNum (int (length (doc_blob d)))),
      (''revision'', JStr (doc_revision d)), (''updatedAt'', JStr ''2026-08-30T00:00:00.000Z'')]"

definition incoming_blob :: "prims \<Rightarrow> request \<Rightarrow> string" where
  "incoming_blob P r =
     (case json_read P (case req_body r of Some b \<Rightarrow> b | None \<Rightarrow> []) of
        Inr (JObj fs) \<Rightarrow> (case map_of fs ''blob'' of Some (JStr s) \<Rightarrow> s | _ \<Rightarrow> [])
      | _ \<Rightarrow> [])"

definition fake_error :: "string \<Rightarrow> json" where
  "fake_error slug = JObj [(''error'', JStr slug)]"

definition fake_put :: "prims \<Rightarrow> string \<Rightarrow> request \<Rightarrow> fake_store \<Rightarrow> answer \<times> fake_store" where
  "fake_put P kind r F =
     (let blob = incoming_blob P r; current = bt_get (fk_documents F) kind in
      if (case fk_fail_after F of Some l \<Rightarrow> fk_writes F \<ge> l | None \<Rightarrow> False)
      then (fake_reply P 503 (fake_error ''unavailable''), F)
      else if kind \<in> set (fk_plan_refusals F)
      then (fake_reply P 402 (fake_error ''env_sync_not_in_plan''), F)
      else
        let allowed =
          (if fk_reject F \<or> kind \<in> set (fk_conflicts F) then Some False
           else if header_of ''If-None-Match'' r = Some ''*'' then Some (current = None)
           else (case header_of ''If-Match'' r of
                   Some expected \<Rightarrow>
                     Some (case current of Some d \<Rightarrow> doc_revision d = expected | None \<Rightarrow> False)
                 | None \<Rightarrow> None))
        in case allowed of
             None \<Rightarrow> (fake_reply P 412 (fake_error ''precondition_required''), F)
           | Some False \<Rightarrow>
               (case current of
                  Some d \<Rightarrow>
                    (fake_reply P 409 (JObj (document_fields d @ [(''error'', JStr ''revision_mismatch'')])), F)
                | None \<Rightarrow> (fake_reply P 404 (fake_error ''not_found''), F))
           | Some True \<Rightarrow>
               let revision = ''rev-'' @ nat_str (fk_revisions F);
                   F' = F\<lparr>fk_writes := Suc (fk_writes F), fk_revisions := Suc (fk_revisions F),
                          fk_documents := bt_insert kind \<lparr>doc_blob = blob, doc_revision = revision\<rparr> (fk_documents F)\<rparr>
               in (fake_reply P 200 (JObj [(''revision'', JStr revision),
                     (''updatedAt'', JStr ''2026-08-30T00:00:00.000Z'')]), F'))"

definition fake_exchange :: "prims \<Rightarrow> request \<Rightarrow> fake_store \<Rightarrow> answer \<times> fake_store" where
  "fake_exchange P r F0 =
     (let F = F0\<lparr>fk_requests := Suc (fk_requests F0)\<rparr>; kind = last_segment (req_uri r) in
      if req_method r = ''GET'' then
        (case bt_get (fk_documents F) kind of
           Some d \<Rightarrow> (fake_reply P 200 (JObj (document_fields d)), F)
         | None \<Rightarrow> (fake_reply P 404 (fake_error ''not_found''), F))
      else if req_method r = ''PUT'' then fake_put P kind r F
      else if req_method r = ''DELETE'' then
        (fake_reply P 200 (JObj [(''ok'', JBool True)]),
         F\<lparr>fk_documents := bt_remove kind (fk_documents F)\<rparr>)
      else (fake_reply P 405 (fake_error ''method''), F))"

definition fake_api :: "prims \<Rightarrow> fake_store api" where
  "fake_api P =
     \<lparr>builds = (\<lambda>_. True), exchange = fake_exchange P, api_url = ''https://api.example.invalid/api'',
      access_token = ''at-1'', web_origin = ''https://zodekit.site''\<rparr>"

definition fake_user :: string where
  "fake_user = ''68b1f0c2a4d3e5f60718293a''"

definition fake_context :: "prims \<Rightarrow> fake_store sync_context" where
  "fake_context P = \<lparr>sc_api = fake_api P, sc_user_id = fake_user\<rparr>"

section \<open>What the sync code relies on\<close>

text \<open>Whether a write with this precondition may land on what is stored.\<close>

fun admits :: "precondition \<Rightarrow> remote_document option \<Rightarrow> bool" where
  "admits Create current \<longleftrightarrow> current = None"
| "admits (Replace revision) current \<longleftrightarrow> (\<exists>d. current = Some d \<and> doc_revision d = revision)"

locale document_store =
  fixes P :: prims
    and A :: "'w api"
    and doc :: "'w \<Rightarrow> 'k \<Rightarrow> remote_document option"
    and at :: "resource \<Rightarrow> 'k"
  assumes fetch_law:
      "json_ok P \<Longrightarrow> fetch P A r w = (x, w') \<Longrightarrow>
         doc (net w') = doc (net w) \<and> (\<forall>found. x = Inr found \<longrightarrow> found = doc (net w) (at r))"
    and store_law:
      "json_ok P \<Longrightarrow> store P A r blob pre w = (y, w') \<Longrightarrow>
         (case y of
            Inr (Stored revision) \<Rightarrow>
              admits pre (doc (net w) (at r)) \<and>
              doc (net w') = (doc (net w))(at r \<mapsto> \<lparr>doc_blob = blob, doc_revision = revision\<rparr>)
          | Inr (Conflict d) \<Rightarrow> doc (net w') = doc (net w) \<and> doc (net w) (at r) = Some d
          | Inr Gone \<Rightarrow> doc (net w') = doc (net w) \<and> doc (net w) (at r) = None
          | Inl e \<Rightarrow>
              doc (net w') = doc (net w) \<or>
              (admits pre (doc (net w) (at r)) \<and>
               (\<exists>revision. doc (net w') = (doc (net w))(at r \<mapsto> \<lparr>doc_blob = blob, doc_revision = revision\<rparr>))))"
begin

lemma fetch_doc: "json_ok P \<Longrightarrow> fetch P A r w = (x, w') \<Longrightarrow> doc (net w') = doc (net w)"
  using fetch_law by blast

lemma fetch_found: "json_ok P \<Longrightarrow> fetch P A r w = (Inr found, w') \<Longrightarrow> found = doc (net w) (at r)"
  using fetch_law by blast

text \<open>No lost update: a replacement either found the revision it named or changed nothing.\<close>

lemma store_changes:
  assumes "json_ok P" and "store P A r blob pre w = (y, w')" and "doc (net w') \<noteq> doc (net w)"
  shows "admits pre (doc (net w) (at r)) \<and>
    (\<exists>revision. doc (net w') = (doc (net w))(at r \<mapsto> \<lparr>doc_blob = blob, doc_revision = revision\<rparr>))"
  using store_law [OF assms(1,2)] assms(3)
  by (cases y) (auto split: write_outcome.splits)

end

section \<open>The stand-in keeps the promise\<close>

definition fake_doc :: "fake_store \<Rightarrow> string \<Rightarrow> remote_document option" where
  "fake_doc F = bt_get (fk_documents F)"

definition fake_at :: "prims \<Rightarrow> resource \<Rightarrow> string" where
  "fake_at P r = last_segment (api_url (fake_api P) @ ''/'' @ r_path r)"

lemma fake_reply_Some:
  "json_ok P \<Longrightarrow> fake_reply P s j = Some (s', b) \<Longrightarrow> s' = s \<and> (\<exists>body. b = Some body \<and> json_read P body = Inr j)"
  by (auto simp: fake_reply_def json_ok_def split: sum.splits)

lemma fake_reply_cases:
  assumes "json_ok P"
  obtains "fake_reply P s j = None"
  | body where "fake_reply P s j = Some (s, Some body)" "json_read P body = Inr j"
  using assms by (cases "json_text P j") (auto simp: fake_reply_def json_ok_def)

lemma document_response_fields:
  "json_read P body = Inr (JObj (document_fields d)) \<Longrightarrow> document_response P body = Some d"
  "json_read P body = Inr (JObj (document_fields d @ [(''error'', e)])) \<Longrightarrow> document_response P body = Some d"
  by (simp_all add: document_response_def document_fields_def struct_simps)

lemma stored_response_fields:
  "json_read P body = Inr (JObj [(''revision'', JStr r), (''updatedAt'', u)]) \<Longrightarrow> stored_response P body = Some r"
  by (simp add: stored_response_def struct_simps)

lemma fake_fetch:
  assumes "json_ok P" and "fetch P (fake_api P) r w = (x, w')"
  shows "fake_doc (net w') = fake_doc (net w) \<and>
    (\<forall>found. x = Inr found \<longrightarrow> found = fake_doc (net w) (fake_at P r))"
proof -
  let ?F = "(net w)\<lparr>fk_requests := Suc (fk_requests (net w))\<rparr>"
  let ?req = "(build (fake_api P) r ''GET'')\<lparr>req_body := None\<rparr>"
  have ex: "exchange (fake_api P) ?req (net w) =
    ((case fake_doc (net w) (fake_at P r) of
        Some d \<Rightarrow> fake_reply P 200 (JObj (document_fields d))
      | None \<Rightarrow> fake_reply P 404 (fake_error ''not_found'')), ?F)"
    by (simp add: fake_api_def fake_exchange_def build_def Let_def fake_at_def fake_doc_def split: option.splits)
  have fin: "finish (fake_api P) None (build (fake_api P) r ''GET'') = Inr ?req"
    by (simp add: finish_def fake_api_def Let_def)
  show ?thesis
    using assms ex unfolding fetch_def fetch_body_def fin io_bind_apply http_send_def
    by (auto simp: fake_doc_def classify_def document_response_fields
        split: option.splits prod.splits sum.splits if_splits dest!: fake_reply_Some [OF assms(1)])
qed

lemma put_headers:
  "header_of ''If-None-Match'' (put_builder A r pre\<lparr>req_body := b\<rparr>) = (case pre of Create \<Rightarrow> Some ''*'' | Replace _ \<Rightarrow> None)"
  "header_of ''If-Match'' (put_builder A r pre\<lparr>req_body := b\<rparr>) = (case pre of Create \<Rightarrow> None | Replace v \<Rightarrow> Some v)"
  "req_method (put_builder A r pre\<lparr>req_body := b\<rparr>) = ''PUT''"
  "req_uri (put_builder A r pre\<lparr>req_body := b\<rparr>) = api_url A @ ''/'' @ r_path r"
  by (simp_all add: header_of_def put_builder_def build_def with_header_def Let_def split: precondition.splits)

text \<open>What the service does with a conditional write: refuse it and keep everything, or store it
  under a new revision.\<close>

lemma fake_put_cases:
  assumes "json_ok P" and "json_text P (put_body blob) = Inr payload"
    and "fake_put P (fake_at P r) (put_builder (fake_api P) r pre\<lparr>req_body := Some payload\<rparr>) F = (ans, F')"
  obtains (refused) status j where "ans = fake_reply P status j" "F' = F" "status \<in> {402, 503}"
  | (conflict) d where "F' = F" "fake_doc F (fake_at P r) = Some d"
      "ans = fake_reply P 409 (JObj (document_fields d @ [(''error'', JStr ''revision_mismatch'')]))"
  | (gone) "F' = F" "fake_doc F (fake_at P r) = None" "ans = fake_reply P 404 (fake_error ''not_found'')"
  | (stored) revision where "admits pre (fake_doc F (fake_at P r))"
      "fake_doc F' = (fake_doc F)(fake_at P r \<mapsto> \<lparr>doc_blob = blob, doc_revision = revision\<rparr>)"
      "ans = fake_reply P 200 (JObj [(''revision'', JStr revision), (''updatedAt'', JStr ''2026-08-30T00:00:00.000Z'')])"
proof -
  have blob: "incoming_blob P (put_builder (fake_api P) r pre\<lparr>req_body := Some payload\<rparr>) = blob"
    using assms(1,2) by (auto simp: incoming_blob_def json_ok_def put_body_def)
  show thesis
  proof (cases "(case fk_fail_after F of Some l \<Rightarrow> fk_writes F \<ge> l | None \<Rightarrow> False) \<or> fake_at P r \<in> set (fk_plan_refusals F)")
    case True
    with assms(3) show ?thesis by (auto simp: fake_put_def Let_def split: if_splits intro: refused)
  next
    case False
    then have up: "\<not> (case fk_fail_after F of Some l \<Rightarrow> fk_writes F \<ge> l | None \<Rightarrow> False)"
      "fake_at P r \<notin> set (fk_plan_refusals F)" by auto
    show ?thesis
    proof (cases "fk_reject F \<or> fake_at P r \<in> set (fk_conflicts F) \<or> \<not> admits pre (fake_doc F (fake_at P r))")
      case True
      then show ?thesis
        using assms(3) up unfolding fake_put_def Let_def put_headers blob
        by (cases pre; cases "bt_get (fk_documents F) (fake_at P r)")
          (auto simp: fake_doc_def split: if_splits intro: conflict gone)
    next
      case False
      then show ?thesis
        using assms(3) up unfolding fake_put_def Let_def put_headers blob
        by (cases pre; cases "bt_get (fk_documents F) (fake_at P r)")
          (auto simp: fake_doc_def fun_eq_iff split: if_splits intro!: stored)
    qed
  qed
qed

lemma fake_store:
  assumes "json_ok P" and "store P (fake_api P) r blob pre w = (y, w')"
  shows "case y of
      Inr (Stored revision) \<Rightarrow>
        admits pre (fake_doc (net w) (fake_at P r)) \<and>
        fake_doc (net w') = (fake_doc (net w))(fake_at P r \<mapsto> \<lparr>doc_blob = blob, doc_revision = revision\<rparr>)
    | Inr (Conflict d) \<Rightarrow> fake_doc (net w') = fake_doc (net w) \<and> fake_doc (net w) (fake_at P r) = Some d
    | Inr Gone \<Rightarrow> fake_doc (net w') = fake_doc (net w) \<and> fake_doc (net w) (fake_at P r) = None
    | Inl e \<Rightarrow>
        fake_doc (net w') = fake_doc (net w) \<or>
        (admits pre (fake_doc (net w) (fake_at P r)) \<and>
         (\<exists>revision. fake_doc (net w') =
            (fake_doc (net w))(fake_at P r \<mapsto> \<lparr>doc_blob = blob, doc_revision = revision\<rparr>)))"
proof (cases "json_text P (put_body blob)")
  case (Inl e)
  with assms(2) show ?thesis by (auto simp: store_def io_bind_apply)
next
  case (Inr payload)
  let ?F = "(net w)\<lparr>fk_requests := Suc (fk_requests (net w))\<rparr>"
  let ?req = "put_builder (fake_api P) r pre\<lparr>req_body := Some payload\<rparr>"
  have docs: "fake_doc ?F = fake_doc (net w)" by (simp add: fake_doc_def)
  obtain ans F' where put: "fake_put P (fake_at P r) ?req ?F = (ans, F')" by force
  then have ex: "exchange (fake_api P) ?req (net w) = (ans, F')"
    by (simp add: fake_api_def fake_exchange_def Let_def put_headers fake_at_def)
  have fin: "finish (fake_api P) (Some payload) (put_builder (fake_api P) r pre) = Inr ?req"
    by (simp add: finish_def fake_api_def Let_def)
  have run: "y = (case ans of
         None \<Rightarrow> Inl (Unreachable ''the endpoint could not be reached'')
       | Some (status, None) \<Rightarrow> Inl (Unreachable ''the response could not be read'')
       | Some (status, Some body) \<Rightarrow> write_reply P (web_origin (fake_api P)) status body)"
    and w': "net w' = F'"
    using assms(2) Inr ex fin by (auto simp: store_def io_bind_apply http_send_def split: option.splits prod.splits)
  from assms(1) Inr put show ?thesis
  proof (cases rule: fake_put_cases)
    case (refused status j)
    with run w' docs show ?thesis
      by (cases rule: fake_reply_cases [OF assms(1), of status j])
        (auto simp: write_reply_def classify_def document_response_fields stored_response_fields)
  next
    case (conflict d)
    with run w' docs show ?thesis
      by (cases rule: fake_reply_cases [OF assms(1), of 409 "JObj (document_fields d @ [(''error'', JStr ''revision_mismatch'')])"])
        (auto simp: write_reply_def classify_def document_response_fields stored_response_fields)
  next
    case gone
    with run w' docs show ?thesis
      by (cases rule: fake_reply_cases [OF assms(1), of 404 "fake_error ''not_found''"])
        (auto simp: write_reply_def classify_def document_response_fields stored_response_fields)
  next
    case (stored revision)
    with run w' docs show ?thesis
      by (cases rule: fake_reply_cases [OF assms(1), of 200 "JObj [(''revision'', JStr revision), (''updatedAt'', JStr ''2026-08-30T00:00:00.000Z'')]"])
        (auto simp: write_reply_def classify_def document_response_fields stored_response_fields)
  qed
qed

interpretation fake: document_store P "fake_api P" fake_doc "fake_at P" for P
  by unfold_locales (rule fake_fetch fake_store; assumption)+

end
