(* ===== verification/Rotation_Safety.thy ===== *)
theory Rotation_Safety
  imports Store_Server
begin

text \<open>
  What a rotation of the recovery key does to the stored documents, on any service that keeps the
  promises of \<open>document_store\<close>: no document is ever left that neither key opens, whichever call
  fails; when the rotation says it is complete, everything opens under the new key; and the new
  key is not adopted while a key slot is still waiting.
\<close>

section \<open>What a stored document opens to\<close>

definition opens_to ::
    "prims \<Rightarrow> 'w sync_context \<Rightarrow> dek \<Rightarrow> resource \<Rightarrow> remote_document option \<Rightarrow> bytes \<Rightarrow> bool" where
  "opens_to P C d r stored p \<longleftrightarrow> (\<exists>x. stored = Some x \<and> open_with P C d r (doc_blob x) = Inr p)"

definition opens_with_either ::
    "prims \<Rightarrow> 'w sync_context \<Rightarrow> dek \<Rightarrow> dek \<Rightarrow> resource \<Rightarrow> remote_document option \<Rightarrow> bytes \<Rightarrow> bool" where
  "opens_with_either P C old new r stored p \<longleftrightarrow> opens_to P C old r stored p \<or> opens_to P C new r stored p"

text \<open>The laws of the third-party functions that sealing and opening rest on, and two usable keys
  that their fingerprints tell apart.\<close>

definition crypto_ok :: "prims \<Rightarrow> bool" where
  "crypto_ok P \<longleftrightarrow> gcm_ok P \<and> sha256_ok P \<and> base64_ok P \<and> json_ok P"

definition key_pair :: "prims \<Rightarrow> dek \<Rightarrow> dek \<Rightarrow> bool" where
  "key_pair P old new \<longleftrightarrow> dek_ok old \<and> dek_ok new \<and> kid P old \<noteq> kid P new"

text \<open>Every key slot that opened under either key before opens under the new key now, to the same bytes.\<close>

definition keys_moved ::
    "prims \<Rightarrow> 'w sync_context \<Rightarrow> dek \<Rightarrow> dek \<Rightarrow> (resource \<Rightarrow> remote_document option) \<Rightarrow> (resource \<Rightarrow> remote_document option) \<Rightarrow>
     bool" where
  "keys_moved P C old new before now \<longleftrightarrow>
     (\<forall>s r p. holds_key s \<longrightarrow> slot_resource s = Inr r \<longrightarrow> opens_with_either P C old new r (before r) p \<longrightarrow>
        opens_to P C new r (now r) p)"

lemma seal_with_opens:
  assumes "crypto_ok P" "dek_ok d" and "seal_with P C d r p w = (Inr blob, w')"
  shows "open_with P C d r blob = Inr p"
proof -
  from assms(3) obtain e w1 where e: "encrypt_at P d (sc_user_id C) r p w = (Inr e, w1)" "to_blob P e = Inr blob"
    by (auto simp: seal_with_def io_eqs)
  with assms(1,2) show ?thesis
    by (simp add: open_with_def crypto_ok_def blob_roundtrip decrypt_encrypt [OF e(1)])
qed

lemma open_with_kid:
  assumes "open_with P C d r blob = Inr p"
  shows "fingerprint P blob = Some (kid P d)"
proof -
  from assms obtain e where "from_blob P blob = Inr e" "decrypt_at P d (sc_user_id C) r e = Inr p"
    by (auto simp: open_with_def bind_res_eq_Inr)
  then show ?thesis
    by (auto simp: fingerprint_def decrypt_at_def Let_def bind_res_eq_Inr split: if_splits)
qed

lemma frame_net_seal_with [frame_intros]: "frame net (seal_with P C d r p)"
  unfolding seal_with_def by (intro frame_intros)

lemma keeps_netD: "keeps (on_net I) m \<Longrightarrow> m w = (y, w') \<Longrightarrow> I (net w) \<Longrightarrow> I (net w')"
  unfolding keeps_def on_net_def by (metis snd_conv)

text \<open>Stopping among the key slots names the slot it stopped at.\<close>

lemma move_key_slots_stop:
  "move_key_slots P C old new artifacts slots moved w = (Inr (Inl out), w') \<Longrightarrow>
   \<exists>s rest. out = RotationInterrupted (s # rest) \<and> s \<in> set slots"
proof (induction slots arbitrary: moved w)
  case (Cons slot slots)
  obtain r where r: "slot_resource slot = Inr r"
    using Cons.prems by (cases "slot_resource slot") auto
  obtain y w1 where y: "reseal P C old new r None w = (y, w1)" by force
  show ?case
  proof (cases y)
    case (Inl e)
    with Cons.prems r y show ?thesis by (auto simp: io_case_apply io_bind_eq_Inr)
  next
    case (Inr x)
    with Cons.prems r y Cons.IH show ?thesis
      by (cases x) (fastforce simp: io_case_apply io_bind_eq_Inr)+
  qed
qed simp

section \<open>One document moves\<close>

lemma io_bind_cong: "(\<And>a w1. m w = (Inr a, w1) \<Longrightarrow> f a w1 = g a w1) \<Longrightarrow> io_bind m f w = io_bind m g w"
  by (simp add: io_bind_apply split: prod.split sum.split)

context document_store
begin

lemma reseal_effect:
  assumes "crypto_ok P" "sc_api C = A" "dek_ok to"
    and "reseal P C from to r expected w = (x, w')"
  obtains (kept) "doc (net w') = doc (net w)"
      "\<And>revision p. x \<noteq> Inr (ResealStored revision p)"
      "x = Inr ResealMissing \<Longrightarrow> expected = None \<Longrightarrow> doc (net w) (at r) = None"
  | (moved) p blob revision where "opens_to P C from r (doc (net w) (at r)) p"
      "open_with P C to r blob = Inr p"
      "doc (net w') = (doc (net w))(at r \<mapsto> \<lparr>doc_blob = blob, doc_revision = revision\<rparr>)"
      "x = Inr (ResealStored revision p) \<or> (\<exists>e. x = Inl e)"
proof -
  have js: "json_ok P" using assms(1) by (simp add: crypto_ok_def)
  obtain y w1 where f: "fetch P A r w = (y, w1)" by force
  have d1: "doc (net w1) = doc (net w)" using fetch_doc [OF js f] .
  note run = assms(4) [unfolded reseal_def assms(2) io_bind_apply [of "io_map_err Client (fetch P A r)"] io_map_err_apply f]
  show thesis
  proof (cases y)
    case (Inl e)
    with run d1 show ?thesis by (intro kept) auto
  next
    case (Inr found)
    then have found: "found = doc (net w) (at r)" using fetch_found [OF js] f by simp
    show ?thesis
    proof (cases found)
      case None
      with run Inr d1 found show ?thesis by (intro kept) auto
    next
      case (Some document)
      show ?thesis
      proof (cases "case expected of Some e \<Rightarrow> e \<noteq> doc_revision document | None \<Rightarrow> False")
        case True
        with run Inr Some d1 show ?thesis by (intro kept) auto
      next
        case False
        note run2 = run [unfolded Inr Some, simplified, unfolded if_not_P [OF False]]
        show ?thesis
        proof (cases "open_with P C from r (doc_blob document)")
          case (Inl e)
          with run2 d1 show ?thesis by (intro kept) (auto simp: io_bind_apply)
        next
          case (Inr p)
          then have op: "opens_to P C from r (doc (net w) (at r)) p"
            using Some found by (auto simp: opens_to_def)
          obtain z w2 where s: "seal_with P C to r p w1 = (z, w2)" by force
          have d2: "doc (net w2) = doc (net w)" using frameD [OF frame_net_seal_with s] d1 by simp
          show ?thesis
          proof (cases z)
            case (Inl e)
            with run2 \<open>open_with P C from r (doc_blob document) = Inr p\<close> s d2 show ?thesis
              by (intro kept) (auto simp: io_bind_apply)
          next
            case (Inr blob)
            with s have opb: "open_with P C to r blob = Inr p"
              using seal_with_opens [OF assms(1,3)] by blast
            obtain v w3 where st: "store P A r blob (Replace (doc_revision document)) w2 = (v, w3)" by force
            have x: "w' = w3" "x = (case v of
                Inl e \<Rightarrow> Inl (Client e)
              | Inr (Stored revision) \<Rightarrow> Inr (ResealStored revision p)
              | Inr _ \<Rightarrow> Inr ResealLost)"
              using run2 \<open>open_with P C from r (doc_blob document) = Inr p\<close> s Inr st
              by (auto simp: io_bind_apply io_map_err_apply split: sum.splits write_outcome.splits)
            show ?thesis
              using store_law [OF js st] x d2 kept moved [OF op opb]
              by (cases v) (auto split: write_outcome.splits)
          qed
        qed
      qed
    qed
  qed
qed

lemma reseal_lost:
  assumes "crypto_ok P" "sc_api C = A" "dek_ok to"
    and "reseal P C from to r expected w = (Inr ResealLost, w')"
  shows "doc (net w') = doc (net w)"
  using assms by (cases rule: reseal_effect) auto

lemma fetch_keeps: "json_ok P \<Longrightarrow> keeps (on_net (\<lambda>n. I (doc n))) (fetch P A r)"
  unfolding keeps_def on_net_def by (metis fetch_doc prod.collapse)

end

text \<open>The slots of a rotation are stored apart.\<close>

locale slot_store = document_store +
  assumes slots_apart:
    "slot_resource s = Inr r \<Longrightarrow> slot_resource s' = Inr r' \<Longrightarrow> at r = at r' \<longleftrightarrow> s = s'"
begin

lemma reseal_keeps_either:
  assumes "crypto_ok P" "sc_api C = A" "key_pair P old new"
    and "slot_resource s = Inr r" "slot_resource s' = Inr r'"
    and "from \<in> {old, new}" "to \<in> {old, new}"
  shows "keeps (on_net (\<lambda>n. opens_with_either P C old new r (doc n (at r)) p)) (reseal P C from to r' expected)"
  unfolding keeps_def on_net_def
proof (intro allI impI)
  fix w :: "'a world"
  assume before: "opens_with_either P C old new r (doc (net w) (at r)) p"
  obtain x w' where run: "reseal P C from to r' expected w = (x, w')" by force
  have to: "dek_ok to" using assms(3,7) by (auto simp: key_pair_def)
  from assms(1,2) to run
  show "opens_with_either P C old new r (doc (net (snd (reseal P C from to r' expected w))) (at r)) p"
  proof (cases rule: reseal_effect)
    case kept
    with before run show ?thesis by simp
  next
    case (moved q blob revision)
    show ?thesis
    proof (cases "s = s'")
      case False
      then have "at r \<noteq> at r'" using slots_apart [OF assms(4,5)] by simp
      with before run moved(3) show ?thesis by simp
    next
      case True
      then have r': "r' = r" using assms(4,5) by simp
      obtain y where y: "doc (net w) (at r) = Some y" "open_with P C from r (doc_blob y) = Inr q"
        using moved(1) r' by (auto simp: opens_to_def)
      from before y(1) obtain d where d: "d \<in> {old, new}" "open_with P C d r (doc_blob y) = Inr p"
        by (auto simp: opens_with_either_def opens_to_def)
      have "kid P d = kid P from" using open_with_kid [OF d(2)] open_with_kid [OF y(2)] by simp
      then have "d = from" using d(1) assms(3,6) by (auto simp: key_pair_def)
      with d(2) y(2) have "q = p" by simp
      with run moved(2,3) r' assms(7) show ?thesis
        by (auto simp: opens_with_either_def opens_to_def)
    qed
  qed
qed

text \<open>The whole rotation, by the shape of its loops. \<open>Inv\<close> is any property of the stored documents
  that moving a slot's document between the two keys keeps.\<close>

lemma put_back_keeps:
  assumes "\<And>s' r' from to expected. slot_resource s' = Inr r' \<Longrightarrow> from \<in> {old, new} \<Longrightarrow> to \<in> {old, new} \<Longrightarrow>
      keeps (on_net Inv) (reseal P C from to r' expected)"
    and "list_all (\<lambda>m. \<exists>s'. slot_resource s' = Inr (fst m)) moved"
  shows "keeps (on_net Inv) (put_back P C old new moved)"
  using assms(2)
proof (induction moved)
  case Nil
  show ?case unfolding put_back.simps by (rule keeps_ok)
next
  case (Cons m moved)
  then show ?case using assms(1) by (cases m) (auto intro!: frame_intros)
qed

lemma keeps_resealed [frame_intros]:
  "(\<And>a b. x = ResealStored a b \<Longrightarrow> keeps v (f a b)) \<Longrightarrow> (x = ResealMissing \<Longrightarrow> keeps v g) \<Longrightarrow>
   (x = ResealLost \<Longrightarrow> keeps v h) \<Longrightarrow>
   keeps v (case x of ResealStored a b \<Rightarrow> f a b | ResealMissing \<Rightarrow> g | ResealLost \<Rightarrow> h)"
  by (cases x) simp_all

lemma move_key_slots_keeps:
  assumes step: "\<And>s' r' from to expected. slot_resource s' = Inr r' \<Longrightarrow> from \<in> {old, new} \<Longrightarrow> to \<in> {old, new} \<Longrightarrow>
      keeps (on_net Inv) (reseal P C from to r' expected)"
  shows "list_all (\<lambda>m. \<exists>s'. slot_resource s' = Inr (fst m)) moved \<Longrightarrow>
    keeps (on_net Inv) (move_key_slots P C old new artifacts slots moved)"
proof (induction slots arbitrary: moved)
  case Nil
  show ?case unfolding move_key_slots.simps by (rule keeps_ok)
next
  case (Cons slot slots)
  have "list_all (\<lambda>m. \<exists>s'. slot_resource s' = Inr (fst m)) (rev moved)" using Cons.prems by (simp add: list_all_iff)
  note backs = put_back_keeps [OF step this]
  show ?case
  proof (cases "slot_resource slot")
    case (Inl e)
    then show ?thesis by (simp add: io_bind_def keeps_def)
  next
    case (Inr r')
    have next_ok: "list_all (\<lambda>m. \<exists>s'. slot_resource s' = Inr (fst m)) (moved @ [(r', revision)])" for revision
      using Cons.prems Inr by auto
    show ?thesis
      unfolding move_key_slots.simps Inr map_err_simps io_bind_pure
      by (intro frame_intros step [OF Inr] backs Cons.IH next_ok Cons.prems) simp_all
  qed
qed

lemma plan_slots_keeps:
  "json_ok P \<Longrightarrow> sc_api C = A \<Longrightarrow>
   keeps (on_net (\<lambda>n. I (doc n))) (plan_slots P C old new slots plan)"
proof (induction slots arbitrary: plan)
  case Nil
  show ?case unfolding plan_slots.simps by (rule keeps_ok)
next
  case (Cons slot slots)
  then show ?case
    unfolding plan_slots.simps \<open>sc_api C = A\<close>
    by (intro keeps_bind keeps_ok keeps_map_err fetch_keeps) auto
qed

lemma keeps_slot_case [frame_intros]:
  "(\<And>k. x = ArtifactSlot k \<Longrightarrow> keeps v (f k)) \<Longrightarrow> (x = SharingKey \<Longrightarrow> keeps v g) \<Longrightarrow> (x = EnvKey \<Longrightarrow> keeps v h) \<Longrightarrow>
   keeps v (case x of ArtifactSlot k \<Rightarrow> f k | SharingKey \<Rightarrow> g | EnvKey \<Rightarrow> h)"
  by (cases x) simp_all

lemma move_artifacts_keeps:
  assumes step: "\<And>s' r' from to expected. slot_resource s' = Inr r' \<Longrightarrow> from \<in> {old, new} \<Longrightarrow> to \<in> {old, new} \<Longrightarrow>
      keeps (on_net Inv) (reseal P C from to r' expected)"
    and persist: "\<And>w. net (persist w) = net w"
  shows "keeps (on_net Inv) (move_artifacts P C old new state_path persist slots persisted remaining)"
proof (induction slots arbitrary: persisted remaining)
  case Nil
  show ?case unfolding move_artifacts.simps by (rule keeps_ok)
next
  case (Cons slot slots)
  have per: "keeps (on_net Inv) (run_persist persist)"
    by (simp add: keeps_def run_persist_def on_net_def persist)
  have save: "keeps (on_net Inv) (state_save P st state_path)" for st
    by (intro keeps_on_net_frame frame_intros)
  show ?case
    by (cases slot) (auto intro!: frame_intros Cons.IH per save step [of slot])
qed

lemma rotate_keeps:
  assumes step: "\<And>s' r' from to expected. slot_resource s' = Inr r' \<Longrightarrow> from \<in> {old, new} \<Longrightarrow> to \<in> {old, new} \<Longrightarrow>
      keeps (on_net (\<lambda>n. I (doc n))) (reseal P C from to r' expected)"
    and persist: "\<And>w. net (persist w) = net w" and "json_ok P" "sc_api C = A"
  shows "keeps (on_net (\<lambda>n. I (doc n))) (rotate_slots P C old new state_path persist)"
proof -
  have per: "keeps (on_net (\<lambda>n. I (doc n))) (run_persist persist)"
    by (simp add: keeps_def run_persist_def on_net_def persist)
  show ?thesis
    unfolding rotate_slots_def rotation_plan_of_def Let_def
    by (intro frame_intros plan_slots_keeps move_key_slots_keeps move_artifacts_keeps step per persist assms(3,4))
      simp_all
qed

lemma rotation_keeps_either:
  assumes "crypto_ok P" "sc_api C = A" "key_pair P old new" "slot_resource s = Inr r"
    and persist: "\<And>w. net (persist w) = net w"
  shows "keeps (on_net (\<lambda>n. opens_with_either P C old new r (doc n (at r)) p))
    (rotate_slots P C old new state_path persist)"
  using rotate_keeps [where I = "\<lambda>d. opens_with_either P C old new r (d (at r)) p"]
    reseal_keeps_either [OF assms(1-4)] persist assms(1,2)
  by (simp add: crypto_ok_def)

text \<open>What completing means. One forward step, from the old key to the new one: a document that opens
  under either key still does, and one that was just moved, or had been before, opens under the new.\<close>

lemma reseal_forward:
  assumes "crypto_ok P" "sc_api C = A" "key_pair P old new"
    and "slot_resource s = Inr r" "slot_resource s' = Inr r'"
    and "reseal P C old new r' None w = (Inr x, w')" "x \<noteq> ResealLost"
    and "opens_with_either P C old new r (doc (net w) (at r)) p"
  shows "opens_with_either P C old new r (doc (net w') (at r)) p \<and>
    (opens_to P C new r (doc (net w) (at r)) p \<or> s' = s \<longrightarrow> opens_to P C new r (doc (net w') (at r)) p)"
proof -
  have new: "dek_ok new" using assms(3) by (simp add: key_pair_def)
  have "keeps (on_net (\<lambda>n. opens_with_either P C old new r (doc n (at r)) p)) (reseal P C old new r' None)"
    by (rule reseal_keeps_either [OF assms(1-5)]) simp_all
  from keeps_netD [OF this assms(6)] assms(8)
  have either: "opens_with_either P C old new r (doc (net w') (at r)) p" by simp
  from assms(1,2) new assms(6) show ?thesis
  proof (cases rule: reseal_effect)
    case kept
    then have "x = ResealMissing" using assms(7) by (cases x) auto
    with kept have "doc (net w) (at r') = None" by simp
    moreover have "doc (net w) (at r) \<noteq> None"
      using assms(8) by (auto simp: opens_with_either_def opens_to_def)
    ultimately have "s' \<noteq> s" using assms(4,5) by auto
    with kept(1) either show ?thesis by simp
  next
    case (moved q blob revision)
    show ?thesis
    proof (cases "s' = s")
      case False
      then have "at r \<noteq> at r'" using slots_apart [OF assms(4,5)] by auto
      with either moved(3) False show ?thesis by simp
    next
      case True
      then have r': "r' = r" using assms(4,5) by simp
      obtain y where y: "doc (net w) (at r) = Some y" "open_with P C old r (doc_blob y) = Inr q"
        using moved(1) r' by (auto simp: opens_to_def)
      from assms(8) y(1) obtain d where d: "d \<in> {old, new}" "open_with P C d r (doc_blob y) = Inr p"
        by (auto simp: opens_with_either_def opens_to_def)
      have "kid P d = kid P old" using open_with_kid [OF d(2)] open_with_kid [OF y(2)] by simp
      then have "q = p" using d y(2) assms(3) by (auto simp: key_pair_def)
      with either moved(2,3) r' show ?thesis by (auto simp: opens_to_def)
    qed
  qed
qed

text \<open>The plan counts a document sealed under the old key as pending.\<close>

lemma plan_slots_pending:
  assumes "json_ok P" "sc_api C = A" "kid P old \<noteq> kid P new" "slot_resource s = Inr r"
    and "fingerprint P (doc_blob x) = Some (kid P old)"
    and "plan_slots P C old new slots plan w = (Inr plan', w')" "s \<in> set slots \<or> s \<in> set (rp_pending plan)"
    and "doc (net w) (at r) = Some x"
  shows "s \<in> set (rp_pending plan')"
  using assms(6-8)
proof (induction slots arbitrary: plan w)
  case Nil
  then show ?case by simp
next
  case (Cons slot slots)
  from Cons.prems(1) obtain r1 found w1 where r1: "slot_resource slot = Inr r1"
    and f: "fetch P A r1 w = (Inr found, w1)"
    by (cases "slot_resource slot") (auto simp: io_eqs assms(2))
  have d1: "doc (net w1) (at r) = Some x" using fetch_doc [OF assms(1) f] Cons.prems(3) by simp
  have found: "found = doc (net w) (at r1)" using fetch_found [OF assms(1) f] .
  let ?plan1 = "plan_note P old new slot found plan"
  have rest: "plan_slots P C old new slots ?plan1 w1 = (Inr plan', w')"
    using Cons.prems(1) r1 f by (simp add: io_bind_apply io_map_err_apply assms(2))
  have "s \<in> set slots \<or> s \<in> set (rp_pending ?plan1)"
  proof (cases "s = slot")
    case True
    then have "found = Some x" using found r1 assms(4) Cons.prems(3) by simp
    with True show ?thesis using assms(3,5) by (simp add: plan_note_def)
  next
    case False
    with Cons.prems(2) show ?thesis by (auto simp: plan_note_def split: option.splits)
  qed
  from Cons.IH [OF rest this d1] show ?case .
qed

lemma plan_slots_docs:
  assumes "json_ok P" "sc_api C = A" and "plan_slots P C old new slots plan w = (y, w')"
  shows "doc (net w') = doc (net w)"
proof -
  have "keeps (on_net (\<lambda>n. doc n = doc (net w))) (plan_slots P C old new slots plan)"
    by (rule plan_slots_keeps [where I = "\<lambda>d. d = doc (net w)", OF assms(1,2)])
  from keeps_netD [OF this assms(3)] show ?thesis by simp
qed

lemma move_key_slots_forward:
  assumes "crypto_ok P" "sc_api C = A" "key_pair P old new" "slot_resource s = Inr r"
    and "move_key_slots P C old new artifacts slots moved w = (Inr (Inr moved'), w')"
    and "opens_with_either P C old new r (doc (net w) (at r)) p"
  shows "opens_with_either P C old new r (doc (net w') (at r)) p \<and>
    (opens_to P C new r (doc (net w) (at r)) p \<or> s \<in> set slots \<longrightarrow> opens_to P C new r (doc (net w') (at r)) p)"
  using assms(5,6)
proof (induction slots arbitrary: moved w)
  case Nil
  then show ?case by simp
next
  case (Cons slot slots)
  from Cons.prems(1) obtain r1 x w1 moved1 where r1: "slot_resource slot = Inr r1"
    and x: "reseal P C old new r1 None w = (Inr x, w1)" "x \<noteq> ResealLost"
    and rest: "move_key_slots P C old new artifacts slots moved1 w1 = (Inr (Inr moved'), w')"
    by (cases "slot_resource slot"; cases "reseal P C old new (projr (slot_resource slot)) None w")
      (auto simp: io_case_apply io_bind_apply split: sum.splits resealed.splits prod.splits)
  have "opens_with_either P C old new r (doc (net w1) (at r)) p \<and>
    (opens_to P C new r (doc (net w) (at r)) p \<or> slot = s \<longrightarrow> opens_to P C new r (doc (net w1) (at r)) p)"
    by (rule reseal_forward [OF assms(1-4) r1 x Cons.prems(2)])
  with Cons.IH [OF rest] show ?case by auto
qed

lemma run_persist_net: "\<lbrakk>\<And>w. net (persist w) = net w; run_persist persist w = (y, w')\<rbrakk> \<Longrightarrow> net w' = net w"
  by (auto simp: run_persist_def)

lemma move_artifacts_forward:
  assumes "crypto_ok P" "sc_api C = A" "key_pair P old new" "slot_resource s = Inr r"
    and persist: "\<And>w. net (persist w) = net w"
    and "move_artifacts P C old new state_path persist slots persisted remaining w = (Inr left, w')"
    and "opens_with_either P C old new r (doc (net w) (at r)) p"
    and "list_all (\<lambda>t. \<not> holds_key t) slots"
  shows "set remaining \<subseteq> set left \<and> opens_with_either P C old new r (doc (net w') (at r)) p \<and>
    (opens_to P C new r (doc (net w) (at r)) p \<or> s \<in> set slots \<and> s \<notin> set left \<longrightarrow>
       opens_to P C new r (doc (net w') (at r)) p)"
  using assms(6-8)
proof (induction slots arbitrary: persisted remaining w)
  case Nil
  then show ?case by simp
next
  case (Cons slot slots)
  from Cons.prems(3) obtain kind where slot: "slot = ArtifactSlot kind" by (cases slot) auto
  have r1: "slot_resource slot = Inr (resource_sync kind)" by (simp add: slot)
  obtain y w1 where re: "reseal P C old new (resource_sync kind) None w = (y, w1)" by force
  from Cons.prems(1) re slot obtain x where y: "y = Inr x"
    by (cases y) (auto simp: io_bind_apply)
  have "\<exists>w2 persisted' remaining'. net w2 = net w1 \<and> set remaining \<subseteq> set remaining' \<and>
      (x = ResealLost \<longrightarrow> slot \<in> set remaining') \<and>
      move_artifacts P C old new state_path persist slots persisted' remaining' w2 = (Inr left, w')"
  proof (cases x)
    case (ResealStored revision plaintext)
    with Cons.prems(1) re y slot obtain w2 h w3 st w4 where
      "(if persisted then io_ok () else run_persist persist) w1 = (Inr () :: sync_error + _, w2)"
      "state_load P state_path w2 = (Inr st :: sync_error + _, w3)"
      "state_save P (state_record kind revision h st) state_path w3 = (Inr (), w4)"
      "move_artifacts P C old new state_path persist slots True remaining w4 = (Inr left, w')"
      by (auto simp: io_bind_apply [of "reseal _ _ _ _ _ _"] io_eqs)
    moreover from this have "net w2 = net w1" "net w3 = net w2" "net w4 = net w3"
      using run_persist_net [OF persist] frameD [OF frame_state_load(2)] frameD [OF frame_state_save(1)]
      by (auto split: if_splits)
    ultimately show ?thesis using ResealStored by auto
  next
    case ResealMissing
    with Cons.prems(1) re y slot show ?thesis by (auto simp: io_bind_apply)
  next
    case ResealLost
    with Cons.prems(1) re y slot
    have "move_artifacts P C old new state_path persist slots persisted (remaining @ [slot]) w1 = (Inr left, w')"
      by (simp add: io_bind_apply)
    then show ?thesis by (intro exI [of _ w1] exI [of _ persisted] exI [of _ "remaining @ [slot]"]) auto
  qed
  then obtain w2 persisted' remaining' where w2: "net w2 = net w1" and rem: "set remaining \<subseteq> set remaining'"
    "x = ResealLost \<longrightarrow> slot \<in> set remaining'"
    and rest: "move_artifacts P C old new state_path persist slots persisted' remaining' w2 = (Inr left, w')"
    by blast
  have either: "opens_with_either P C old new r (doc (net w1) (at r)) p"
    using keeps_netD [OF reseal_keeps_either [OF assms(1-4) r1] re] Cons.prems(2) by simp
  have fwd: "x \<noteq> ResealLost \<Longrightarrow> opens_to P C new r (doc (net w) (at r)) p \<or> slot = s \<Longrightarrow>
      opens_to P C new r (doc (net w1) (at r)) p"
    using reseal_forward [OF assms(1-4) r1 re [unfolded y] _ Cons.prems(2)] by blast
  have lost: "x = ResealLost \<Longrightarrow> doc (net w1) = doc (net w)"
    using reseal_lost [OF assms(1,2)] re y assms(3) unfolding key_pair_def by blast
  from Cons.IH [OF rest] either Cons.prems(3) w2 have IH: "set remaining' \<subseteq> set left"
    "opens_with_either P C old new r (doc (net w') (at r)) p"
    "opens_to P C new r (doc (net w1) (at r)) p \<or> s \<in> set slots \<and> s \<notin> set left \<Longrightarrow>
      opens_to P C new r (doc (net w') (at r)) p"
    by auto
  show ?case
    using IH rem fwd lost by (cases "x = ResealLost") auto
qed

lemma rotation_complete_new:
  assumes "crypto_ok P" "sc_api C = A" "key_pair P old new" "slot_resource s = Inr r"
    and persist: "\<And>w. net (persist w) = net w"
    and "rotate_slots P C old new state_path persist w = (Inr RotationComplete, w')"
    and "opens_with_either P C old new r (doc (net w) (at r)) p"
  shows "opens_to P C new r (doc (net w') (at r)) p"
proof -
  have js: "json_ok P" and kids: "kid P old \<noteq> kid P new" using assms(1,3) by (auto simp: crypto_ok_def key_pair_def)
  from assms(6) obtain plan w1 stopped w2 where
    plan: "plan_slots P C old new ALL_SLOTS \<lparr>rp_pending = [], rp_done = [], rp_absent = []\<rparr> w = (Inr plan, w1)"
    and keys0: "move_key_slots P C old new (filter (\<lambda>s. \<not> holds_key s) (rp_pending plan))
      (filter holds_key (rp_pending plan)) [] w1 = (Inr stopped, w2)"
    by (auto simp: rotate_slots_def rotation_plan_of_def Let_def io_bind_eq_Inr)
  note run = assms(6) [unfolded rotate_slots_def rotation_plan_of_def Let_def
      io_bind_apply [of "plan_slots _ _ _ _ _ _"] plan prod.case sum.case
      io_bind_apply [of "move_key_slots _ _ _ _ _ _ _"] keys0]
  from run move_key_slots_stop [of P C old new _ _ _ w1] keys0 obtain moved where stopped: "stopped = Inr moved"
    by (cases stopped) fastforce+
  note keys = keys0 [unfolded stopped]
  from run stopped obtain w3 where
    per: "(if moved \<noteq> [] \<or> rp_done plan \<noteq> [] then run_persist persist else io_ok ()) w2 = (Inr () :: sync_error + _, w3)"
    and arts: "move_artifacts P C old new state_path persist (filter (\<lambda>s. \<not> holds_key s) (rp_pending plan))
      (moved \<noteq> [] \<or> rp_done plan \<noteq> []) [] w3 = (Inr [], w')"
    by (fastforce simp: io_bind_eq_Inr split: if_splits)
  have d1: "doc (net w1) = doc (net w)" by (rule plan_slots_docs [OF js assms(2) plan])
  have n3: "net w3 = net w2" using per run_persist_net [OF persist] by (auto split: if_splits)
  obtain x where x: "doc (net w) (at r) = Some x"
    using assms(7) by (auto simp: opens_with_either_def opens_to_def)
  have all: "s \<in> set ALL_SLOTS"
    by (cases s rule: slot_resource.cases; cases "case s of ArtifactSlot k \<Rightarrow> k | _ \<Rightarrow> Settings")
      (auto simp: ALL_SLOTS_def)
  have old_or_new: "opens_to P C new r (doc (net w1) (at r)) p \<or> s \<in> set (rp_pending plan)"
  proof (cases "opens_to P C old r (doc (net w) (at r)) p")
    case True
    then have "fingerprint P (doc_blob x) = Some (kid P old)" using x open_with_kid by (fastforce simp: opens_to_def)
    from plan_slots_pending [OF js assms(2) kids assms(4) this plan _ x] all show ?thesis by simp
  next
    case False
    with assms(7) d1 show ?thesis by (simp add: opens_with_either_def)
  qed
  have k: "opens_with_either P C old new r (doc (net w2) (at r)) p \<and>
    (opens_to P C new r (doc (net w1) (at r)) p \<or> s \<in> set (filter holds_key (rp_pending plan)) \<longrightarrow>
       opens_to P C new r (doc (net w2) (at r)) p)"
    using move_key_slots_forward [OF assms(1-4) keys] assms(7) d1 by simp
  have "opens_to P C new r (doc (net w3) (at r)) p \<or> s \<in> set (filter (\<lambda>s. \<not> holds_key s) (rp_pending plan)) \<longrightarrow>
       opens_to P C new r (doc (net w') (at r)) p"
    using move_artifacts_forward [OF assms(1-5) arts] k n3 by (simp add: list_all_iff)
  with k old_or_new n3 show ?thesis by auto
qed

text \<open>The adoption step is only ever run where every key slot has been moved: two steps that agree
  there cannot be told apart.\<close>

lemma keys_moved_artifact:
  assumes "crypto_ok P" "sc_api C = A" "key_pair P old new" "slot_resource s' = Inr r'"
    and "reseal P C old new r' None w = (Inr x, w')" "keys_moved P C old new before (\<lambda>r. doc (net w) (at r))"
  shows "keys_moved P C old new before (\<lambda>r. doc (net w') (at r))"
proof (cases "x = ResealLost")
  case True
  then show ?thesis using reseal_lost [OF assms(1,2) _ assms(5) [unfolded True]] assms(3,6) by (simp add: key_pair_def)
next
  case False
  show ?thesis unfolding keys_moved_def
  proof (intro allI impI)
    fix s r p assume s: "holds_key s" "slot_resource s = Inr r" "opens_with_either P C old new r (before r) p"
    then have "opens_to P C new r (doc (net w) (at r)) p" using assms(6) by (auto simp: keys_moved_def)
    with reseal_forward [OF assms(1-3) s(2) assms(4,5) False, of p]
    show "opens_to P C new r (doc (net w') (at r)) p" by (simp add: opens_with_either_def)
  qed
qed

lemma move_artifacts_adoption:
  assumes "crypto_ok P" "sc_api C = A" "key_pair P old new"
    and persist: "\<And>v. net (persist v) = net v"
    and agree: "\<And>v. keys_moved P C old new before (\<lambda>r. doc (net v) (at r)) \<Longrightarrow> persist v = persist' v"
    and "keys_moved P C old new before (\<lambda>r. doc (net w) (at r))"
  shows "move_artifacts P C old new state_path persist slots persisted remaining w =
    move_artifacts P C old new state_path persist' slots persisted remaining w"
  using assms(6)
proof (induction slots arbitrary: persisted remaining w)
  case (Cons slot slots)
  show ?case
  proof (cases slot)
    case (ArtifactSlot kind)
    have r: "slot_resource slot = Inr (resource_sync kind)" by (simp add: ArtifactSlot)
    have "(case x of
        ResealStored revision plaintext \<Rightarrow>
          io_bind (if persisted then io_ok () else run_persist persist) (\<lambda>_.
          io_bind (io_res (text_hash P plaintext)) (\<lambda>local_hash.
          io_bind (state_load P state_path) (\<lambda>state.
          io_bind (io_map_err Io (state_save P (state_record kind revision local_hash state) state_path)) (\<lambda>_.
          move_artifacts P C old new state_path persist slots True remaining))))
      | ResealMissing \<Rightarrow> move_artifacts P C old new state_path persist slots persisted remaining
      | ResealLost \<Rightarrow> move_artifacts P C old new state_path persist slots persisted (remaining @ [slot])) w1 =
      (case x of
        ResealStored revision plaintext \<Rightarrow>
          io_bind (if persisted then io_ok () else run_persist persist') (\<lambda>_.
          io_bind (io_res (text_hash P plaintext)) (\<lambda>local_hash.
          io_bind (state_load P state_path) (\<lambda>state.
          io_bind (io_map_err Io (state_save P (state_record kind revision local_hash state) state_path)) (\<lambda>_.
          move_artifacts P C old new state_path persist' slots True remaining))))
      | ResealMissing \<Rightarrow> move_artifacts P C old new state_path persist' slots persisted remaining
      | ResealLost \<Rightarrow> move_artifacts P C old new state_path persist' slots persisted (remaining @ [slot])) w1"
      if x: "reseal P C old new (resource_sync kind) None w = (Inr x, w1)" for x w1
    proof -
      have moved: "keys_moved P C old new before (\<lambda>r. doc (net w1) (at r))"
        by (rule keys_moved_artifact [OF assms(1-3) r x Cons.prems])
      show ?thesis
      proof (cases x)
        case (ResealStored revision plaintext)
        let ?p = "if persisted then w1 else persist w1"
        have same: "(if persisted then io_ok () else run_persist pe) w1 = (Inr () :: sync_error + _, ?p)"
          if "pe w1 = persist w1" for pe
          using that by (simp add: run_persist_def)
        have per: "(if persisted then io_ok () else run_persist persist) w1 = (Inr () :: sync_error + _, ?p)"
          "(if persisted then io_ok () else run_persist persist') w1 = (Inr () :: sync_error + _, ?p)"
          using same [of persist] same [of persist'] agree [OF moved] by simp_all
        have "net w4 = net w1" if "state_load P state_path ?p = (Inr st :: sync_error + _, w3)"
          "state_save P st' state_path w3 = (Inr (), w4)" for st st' w3 w4
          using frameD [OF frame_state_load(2) that(1)] frameD [OF frame_state_save(1) that(2)] persist
          by (simp split: if_splits)
        then have "move_artifacts P C old new state_path persist slots True remaining w4 =
            move_artifacts P C old new state_path persist' slots True remaining w4"
          if "state_load P state_path ?p = (Inr st :: sync_error + _, w3)" "state_save P st' state_path w3 = (Inr (), w4)"
          for st st' w3 w4
          using that Cons.IH [of w4] moved by simp
        then show ?thesis
          unfolding ResealStored resealed.case io_bind_apply [of "if persisted then _ else _"] per prod.case sum.case
          by (auto simp: io_bind_apply io_map_err_apply split: sum.splits prod.splits)
      qed (use Cons.IH [OF moved] in simp_all)
    qed
    note tail = this [unfolded ArtifactSlot]
    show ?thesis
      unfolding ArtifactSlot move_artifacts.simps slot.case slot_resource.simps map_err_simps io_bind_pure
      by (rule io_bind_cong) (rule tail)
  qed (use Cons.IH [OF Cons.prems] in simp_all)
qed simp

lemma adoption_after_keys:
  assumes "crypto_ok P" "sc_api C = A" "key_pair P old new"
    and persist: "\<And>v. net (persist v) = net v"
    and agree: "\<And>v. keys_moved P C old new (\<lambda>r. doc (net w) (at r)) (\<lambda>r. doc (net v) (at r)) \<Longrightarrow> persist v = persist' v"
  shows "rotate_slots P C old new state_path persist w = rotate_slots P C old new state_path persist' w"
proof -
  have js: "json_ok P" and kids: "kid P old \<noteq> kid P new" using assms(1,3) by (auto simp: crypto_ok_def key_pair_def)
  obtain y w1 where y: "rotation_plan_of P C old new w = (y, w1)" by force
  show ?thesis
  proof (cases y)
    case (Inl e)
    with y show ?thesis by (simp add: rotate_slots_def io_bind_apply)
  next
    case (Inr plan)
    let ?arts = "filter (\<lambda>s. \<not> holds_key s) (rp_pending plan)" and ?keys = "filter holds_key (rp_pending plan)"
    obtain z w2 where z: "move_key_slots P C old new ?arts ?keys [] w1 = (z, w2)" by force
    have run: "rotate_slots P C old new state_path pe w = (case z of
        Inl e \<Rightarrow> (Inl e, w2)
      | Inr (Inl outcome) \<Rightarrow> (Inr outcome, w2)
      | Inr (Inr moved) \<Rightarrow>
          io_bind (if moved \<noteq> [] \<or> rp_done plan \<noteq> [] then run_persist pe else io_ok ()) (\<lambda>_.
          io_bind (move_artifacts P C old new state_path pe ?arts (moved \<noteq> [] \<or> rp_done plan \<noteq> []) []) (\<lambda>remaining.
          io_ok (if remaining = [] then RotationComplete else RotationInterrupted remaining))) w2)" for pe
      unfolding rotate_slots_def Let_def io_bind_apply [of "rotation_plan_of _ _ _ _"] y Inr prod.case sum.case
        io_bind_apply [of "move_key_slots _ _ _ _ _ _ _"] z by (simp split: sum.split)
    show ?thesis
    proof (cases "\<exists>moved. z = Inr (Inr moved)")
      case False
      then show ?thesis unfolding run by (auto split: sum.split)
    next
      case True
      then obtain moved where moved: "z = Inr (Inr moved)" by blast
      have plan: "plan_slots P C old new ALL_SLOTS \<lparr>rp_pending = [], rp_done = [], rp_absent = []\<rparr> w = (Inr plan, w1)"
        using y Inr by (simp add: rotation_plan_of_def)
      have d1: "doc (net w1) = doc (net w)" by (rule plan_slots_docs [OF js assms(2) plan])
      have keys: "keys_moved P C old new (\<lambda>r. doc (net w) (at r)) (\<lambda>r. doc (net w2) (at r))"
        unfolding keys_moved_def
      proof (intro allI impI)
        fix s r p assume s: "holds_key s" "slot_resource s = Inr r" "opens_with_either P C old new r (doc (net w) (at r)) p"
        obtain x where x: "doc (net w) (at r) = Some x" using s(3) by (auto simp: opens_with_either_def opens_to_def)
        have all: "s \<in> set ALL_SLOTS" using s(1) by (cases s) (auto simp: ALL_SLOTS_def)
        have "opens_to P C new r (doc (net w1) (at r)) p \<or> s \<in> set ?keys"
        proof (cases "opens_to P C old r (doc (net w) (at r)) p")
          case True
          then have "fingerprint P (doc_blob x) = Some (kid P old)" using x open_with_kid by (fastforce simp: opens_to_def)
          from plan_slots_pending [OF js assms(2) kids s(2) this plan _ x] all s(1) show ?thesis by simp
        next
          case False
          with s(3) d1 show ?thesis by (simp add: opens_with_either_def)
        qed
        with move_key_slots_forward [OF assms(1-3) s(2) z [unfolded moved], of p] s(3) d1
        show "opens_to P C new r (doc (net w2) (at r)) p" by auto
      qed
      have "keys_moved P C old new (\<lambda>r. doc (net w) (at r)) (\<lambda>r. doc (net (persist w2)) (at r))" using keys persist by simp
      note arts = move_artifacts_adoption [OF assms(1-3) persist agree this] move_artifacts_adoption [OF assms(1-3) persist agree keys]
      show ?thesis
        unfolding run moved sum.case using arts agree [OF keys] by (simp add: io_bind_apply run_persist_def split: sum.split prod.split)
    qed
  qed
qed

end

section \<open>On the stand-in service\<close>

lemma kind_as_str_inj: "kind_as_str k = kind_as_str k' \<Longrightarrow> k = k'"
  by (cases k; cases k') auto

lemma fake_slots_apart:
  "slot_resource s = Inr r \<Longrightarrow> slot_resource s' = Inr r' \<Longrightarrow> fake_at P r = fake_at P r' \<longleftrightarrow> s = s'"
proof -
  have at: "fake_at P r = slot_display s" if "slot_resource s = Inr r" for s r
    using that
    by (cases s rule: slot_resource.cases; cases "case s of ArtifactSlot k \<Rightarrow> k | _ \<Rightarrow> Settings")
      (auto simp: fake_at_def last_segment_def fake_api_def resource_sync_def resource_sharing_key_def
        resource_env_singleton_def SHARING_KEY_RESOURCE_def ENV_KEY_SLOT_def bind_res_eq_Inr validated_segment_iff)
  have inj: "slot_display s = slot_display s' \<longleftrightarrow> s = s'" for s s'
    by (cases s rule: slot_resource.cases; cases s' rule: slot_resource.cases)
      (auto simp: SHARING_KEY_RESOURCE_def ENV_KEY_SLOT_def elim!: kind_as_str.elims dest!: kind_as_str_inj
        dest: sym)
  show "slot_resource s = Inr r \<Longrightarrow> slot_resource s' = Inr r' \<Longrightarrow> fake_at P r = fake_at P r' \<longleftrightarrow> s = s'"
    by (simp add: at inj)
qed

interpretation fake_slots: slot_store P "fake_api P" fake_doc "fake_at P" for P
  by unfold_locales (rule fake_slots_apart)

text \<open>C3. Nothing is ever stranded. However a rotation of the recovery key ends, complete,
  interrupted by another machine, refused by the plan or cut off by the network, with key slots
  put back or not, every slot's document that either key opened before is still opened by one of
  the two keys to the very same bytes, whatever the adoption step does to the machine's keychain.\<close>

theorem rotation_never_strands:
  assumes "crypto_ok P" "key_pair P old new" "slot_resource s = Inr r"
    and "\<And>w. net (persist w) = net w"
    and "rotate_slots P (fake_context P) old new state_path persist w = (result, w')"
    and "opens_with_either P (fake_context P) old new r (fake_doc (net w) (fake_at P r)) p"
  shows "opens_with_either P (fake_context P) old new r (fake_doc (net w') (fake_at P r)) p"
proof -
  have "sc_api (fake_context P) = fake_api P" by (simp add: fake_context_def)
  from keeps_netD [OF fake_slots.rotation_keeps_either [OF assms(1) this assms(2,3,4)] assms(5)] assms(6)
  show ?thesis by simp
qed

definition example_new_dek :: dek where
  "example_new_dek = \<lparr>dek_bytes = replicate 32 8\<rparr>"

text \<open>The store after one push of \<^verbatim>\<open>settings\<close> under the first key.\<close>

definition example_fake :: fake_store where
  "example_fake =
     net (snd (push_content ref_prims (fake_context ref_prims) example_dek Settings ''a'' example_state_path
       (quiet_world fake_new)))"

lemma example_crypto: "crypto_ok ref_prims"
  by (simp add: crypto_ok_def)

lemma example_key_pair: "key_pair ref_prims example_dek example_new_dek"
  by (simp add: key_pair_def dek_ok_def example_new_dek_def DEK_LEN_def)
    (simp add: kid_def KID_LEN_def ref_prims_def ref_sha256_def example_dek_def numeral_eq_Suc)

lemma example_fake_opens:
  "opens_with_either ref_prims (fake_context ref_prims) example_dek example_new_dek (resource_sync Settings)
     (fake_doc example_fake (fake_at ref_prims (resource_sync Settings))) (as_bytes ''a'')"
proof -
  have "(case fake_doc example_fake (fake_at ref_prims (resource_sync Settings)) of
      Some x \<Rightarrow> open_with ref_prims (fake_context ref_prims) example_dek (resource_sync Settings) (doc_blob x)
        = Inr (as_bytes ''a'')
    | None \<Rightarrow> False)"
    by code_simp
  then show ?thesis by (auto simp: opens_with_either_def opens_to_def split: option.splits)
qed

lemma example_slot: "slot_resource (ArtifactSlot Settings) = Inr (resource_sync Settings)"
  by simp

abbreviation example_rotation :: "(sync_error + rotation_outcome) \<times> fake_store world" where
  "example_rotation \<equiv> rotate_slots ref_prims (fake_context ref_prims) example_dek example_new_dek example_state_path
     (\<lambda>w. w) (quiet_world example_fake)"

theorem rotation_never_strands_witness:
  "opens_with_either ref_prims (fake_context ref_prims) example_dek example_new_dek (resource_sync Settings)
     (fake_doc (net (snd example_rotation)) (fake_at ref_prims (resource_sync Settings))) (as_bytes ''a'')"
proof -
  obtain y w' where run: "example_rotation = (y, w')" by force
  have "net (quiet_world example_fake) = example_fake" by (simp add: quiet_world_def)
  with rotation_never_strands [OF example_crypto example_key_pair example_slot _ run] example_fake_opens run
  show ?thesis by simp
qed

text \<open>C4. A rotation that answers \<open>Complete\<close> has moved everything: every slot's document that opened
  under the old or the new key before opens under the new key now, to the same bytes.\<close>

theorem rotation_complete_opens_new:
  assumes "crypto_ok P" "key_pair P old new" "slot_resource s = Inr r"
    and "\<And>w. net (persist w) = net w"
    and "rotate_slots P (fake_context P) old new state_path persist w = (Inr RotationComplete, w')"
    and "opens_with_either P (fake_context P) old new r (fake_doc (net w) (fake_at P r)) p"
  shows "opens_to P (fake_context P) new r (fake_doc (net w') (fake_at P r)) p"
proof -
  have "sc_api (fake_context P) = fake_api P" by (simp add: fake_context_def)
  from fake_slots.rotation_complete_new [OF assms(1) this assms(2,3,4,5,6)] show ?thesis .
qed

theorem rotation_complete_opens_new_witness:
  "fst example_rotation = Inr RotationComplete \<and>
   opens_to ref_prims (fake_context ref_prims) example_new_dek (resource_sync Settings)
     (fake_doc (net (snd example_rotation)) (fake_at ref_prims (resource_sync Settings))) (as_bytes ''a'')"
proof -
  have "fst example_rotation = Inr RotationComplete" by code_simp
  then obtain w' where run: "example_rotation = (Inr RotationComplete, w')" by (cases example_rotation) simp
  have "net (quiet_world example_fake) = example_fake" by (simp add: quiet_world_def)
  with rotation_complete_opens_new [OF example_crypto example_key_pair example_slot _ run] example_fake_opens run
  show ?thesis by simp
qed

section \<open>When the new key is adopted\<close>

text \<open>C5. The new key is never adopted while a key slot waits. At whichever moment a rotation runs the
  adoption step, and however it ends, complete, interrupted, refused or cut off, every key slot that
  opened under either key when the rotation began opens under the new key at that moment: two
  adoption steps that do the same in all such moments give the same outcome and leave the same
  world, so what a step would do in any other moment never matters.\<close>

theorem key_slots_before_adoption:
  assumes "crypto_ok P" "key_pair P old new" "\<And>v. net (persist v) = net v"
    and "\<And>v. keys_moved P (fake_context P) old new (\<lambda>r. fake_doc (net w) (fake_at P r)) (\<lambda>r. fake_doc (net v) (fake_at P r)) \<Longrightarrow>
      persist v = persist' v"
  shows "rotate_slots P (fake_context P) old new state_path persist w =
    rotate_slots P (fake_context P) old new state_path persist' w"
proof -
  have "sc_api (fake_context P) = fake_api P" by (simp add: fake_context_def)
  from fake_slots.adoption_after_keys [OF assms(1) this assms(2-4)] show ?thesis .
qed

text \<open>With nothing stored under either key, the adoption step is never run.\<close>

lemma rotation_of_nothing:
  assumes "rotation_plan_of P C old new w = (Inr plan, w1)"
    and "rp_pending plan = []" "rp_done plan = []"
  shows "rotate_slots P C old new state_path persist w = (Inr RotationComplete, w1)"
  using assms by (simp add: rotate_slots_def Let_def io_bind_apply)

text \<open>A service that stops answering after the plan was made: the rotation fails at the first key slot,
  and a step that would adopt the key before that slot is moved is not run.\<close>

definition example_key_fake :: fake_store where
  "example_key_fake =
     (let blob = (case seal_with ref_prims (fake_context ref_prims) example_dek resource_sharing_key [1]
                     (quiet_world fake_new) of (Inr b, _) \<Rightarrow> b | _ \<Rightarrow> [])
      in fake_new\<lparr>fk_documents := [(''sharing-key'', \<lparr>doc_blob = blob, doc_revision = ''rev-0''\<rparr>)],
                  fk_revisions := 1, fk_fail_after := Some 0\<rparr>)"

definition early_adoption :: "fake_store world \<Rightarrow> fake_store world" where
  "early_adoption v =
     (if (case fake_doc (net v) (fake_at ref_prims resource_sharing_key) of
            Some x \<Rightarrow> open_with ref_prims (fake_context ref_prims) example_new_dek resource_sharing_key (doc_blob x) = Inr [1]
          | None \<Rightarrow> False)
      then v else v\<lparr>keychain := [(''adopted'', (''u1'', []))]\<rparr>)"

lemma example_key_opens:
  "case fake_doc example_key_fake (fake_at ref_prims resource_sharing_key) of
     Some x \<Rightarrow> open_with ref_prims (fake_context ref_prims) example_dek resource_sharing_key (doc_blob x) = Inr [1]
   | None \<Rightarrow> False"
  by code_simp

lemma early_adoption_moved:
  assumes "keys_moved ref_prims (fake_context ref_prims) example_dek example_new_dek
      (\<lambda>r. fake_doc (net (quiet_world example_key_fake)) (fake_at ref_prims r)) (\<lambda>r. fake_doc (net v) (fake_at ref_prims r))"
  shows "early_adoption v = v"
proof -
  have "net (quiet_world example_key_fake) = example_key_fake" by (simp add: quiet_world_def)
  then have "opens_with_either ref_prims (fake_context ref_prims) example_dek example_new_dek resource_sharing_key
      (fake_doc (net (quiet_world example_key_fake)) (fake_at ref_prims resource_sharing_key)) [1]"
    using example_key_opens by (auto simp: opens_with_either_def opens_to_def split: option.splits)
  moreover have "holds_key SharingKey" "slot_resource SharingKey = Inr resource_sharing_key" by simp_all
  ultimately have "opens_to ref_prims (fake_context ref_prims) example_new_dek resource_sharing_key
      (fake_doc (net v) (fake_at ref_prims resource_sharing_key)) [1]"
    using assms unfolding keys_moved_def by blast
  then show ?thesis by (auto simp: early_adoption_def opens_to_def)
qed

theorem key_slots_before_adoption_witness:
  "isl (fst (rotate_slots ref_prims (fake_context ref_prims) example_dek example_new_dek example_state_path
      early_adoption (quiet_world example_key_fake))) \<and>
   rotate_slots ref_prims (fake_context ref_prims) example_dek example_new_dek example_state_path
      early_adoption (quiet_world example_key_fake) =
   rotate_slots ref_prims (fake_context ref_prims) example_dek example_new_dek example_state_path
      (\<lambda>v. v) (quiet_world example_key_fake)"
proof -
  let ?run = "\<lambda>pe. rotate_slots ref_prims (fake_context ref_prims) example_dek example_new_dek example_state_path
      pe (quiet_world example_key_fake)"
  have "isl (fst (?run (\<lambda>v. v)))" by code_simp
  moreover have "?run (\<lambda>v. v) = ?run early_adoption"
    by (rule key_slots_before_adoption [OF example_crypto example_key_pair]) (simp_all add: early_adoption_moved)
  ultimately show ?thesis by simp
qed

section \<open>A conflict a rotation hides\<close>

text \<open>This machine pushed \<^verbatim>\<open>a\<close>; another machine then replaced it with \<^verbatim>\<open>b\<close>, which this machine has
  not seen.\<close>

definition raced_world :: "fake_store world" where
  "raced_world =
     (let w1 = snd (push_content ref_prims (fake_context ref_prims) example_dek Settings ''a'' example_state_path
                 (quiet_world fake_new));
          other = snd (overwrite_remote_content ref_prims (fake_context ref_prims) example_dek Settings ''b'' ''rev-0''
                 example_state_path (quiet_world (net w1)))
      in w1\<lparr>net := net other\<rparr>)"

lemma raced_push_conflicts:
  "case fst (push_content ref_prims (fake_context ref_prims) example_dek Settings ''a'' example_state_path raced_world) of
     Inr (PushConflict dv) \<Rightarrow> dv_remote dv = ''b'' | _ \<Rightarrow> False"
  by code_simp

text \<open>After a rotation the artifact slots are recorded as synced at the revision the rotation
  wrote, with the hash of the remote text, although the local file was never compared with it. In
  the situation above a push is a conflict before the rotation; after the rotation completes, the
  same push replaces the other machine's unseen \<^verbatim>\<open>b\<close> without asking.\<close>

theorem rotation_hides_conflict:
  "(case fst (push_content ref_prims (fake_context ref_prims) example_dek Settings ''a'' example_state_path raced_world) of
      Inr (PushConflict dv) \<Rightarrow> dv_remote dv = ''b'' | _ \<Rightarrow> False) \<and>
   (case rotate_slots ref_prims (fake_context ref_prims) example_dek example_new_dek example_state_path (\<lambda>w. w) raced_world of
      (outcome, w2) \<Rightarrow> outcome = Inr RotationComplete \<and>
        fst (push_content ref_prims (fake_context ref_prims) example_new_dek Settings ''a'' example_state_path w2)
          = Inr (PushStored ''rev-3''))"
  by (rule conjI, rule raced_push_conflicts) code_simp

end
