(* ===== verification/Extension_List.thy ===== *)
theory Extension_List
  imports Envelope
begin

text \<open>
  \<^verbatim>\<open>zode_sync/src/extensions.rs\<close>: the installed-extension list as a synced artifact, one
  identifier per line behind a header, and the comparison a pulled list turns into.
\<close>

definition HEADER :: string where
  "HEADER = ''# zode-extensions v1''"

text \<open>Strings sort bytewise, as Rust's do.\<close>

definition extensions_render :: "string list \<Rightarrow> string" where
  "extensions_render installed =
     HEADER @ concat (map (\<lambda>id. newline # id) (remdups_adj (sort installed))) @ [newline]"

definition extensions_parse :: "string \<Rightarrow> string list option" where
  "extensions_parse stored =
     (case lines stored of
        [] \<Rightarrow> None
      | first # rest \<Rightarrow>
          if trim first \<noteq> HEADER then None
          else Some (filter (\<lambda>line. line \<noteq> []) (map trim rest)))"

record extension_comparison =
  ec_missing :: "string list"
  ec_extra :: "string list"

text \<open>A \<^verbatim>\<open>BTreeSet\<close> iterates in order, without repetition.\<close>

definition btree_set :: "string list \<Rightarrow> string list" where
  "btree_set xs = remdups_adj (sort xs)"

definition extensions_compare :: "string list \<Rightarrow> string list \<Rightarrow> extension_comparison" where
  "extensions_compare installed stored =
     (let here = btree_set installed; there = btree_set stored
      in \<lparr>ec_missing = filter (\<lambda>id. id \<notin> set here) there, ec_extra = filter (\<lambda>id. id \<notin> set there) here\<rparr>)"

section \<open>Reading back a rendered list\<close>

text \<open>What an extension identifier is: visible ASCII.\<close>

definition extension_id :: "string \<Rightarrow> bool" where
  "extension_id s \<longleftrightarrow> s \<noteq> [] \<and> list_all (\<lambda>c. 33 \<le> (of_char c :: nat) \<and> (of_char c :: nat) < 127) s"

lemma extension_id_plain:
  assumes "extension_id s"
  shows "trim s = s" "newline \<notin> set s" "CHR 0x0D \<notin> set s" "s \<noteq> []"
proof -
  have *: "33 \<le> (of_char c :: nat) \<and> (of_char c :: nat) < 127" if "c \<in> set s" for c
    using that assms by (simp add: extension_id_def list_all_iff)
  then show "trim s = s"
    by (intro trim_plain) (auto simp: ascii_def is_whitespace_def dest!: *)
  show "newline \<notin> set s" "CHR 0x0D \<notin> set s" using * by (auto simp: newline_def dest!: *)
  show "s \<noteq> []" using assms by (simp add: extension_id_def)
qed

lemma lines_of_list:
  "list_all extension_id xs \<Longrightarrow> newline \<notin> set h \<Longrightarrow> CHR 0x0D \<notin> set h \<Longrightarrow>
   lines (h @ concat (map (\<lambda>id. newline # id) xs) @ [newline]) = h # xs"
proof (induction xs arbitrary: h)
  case Nil
  have "lines [] = []" by (simp add: lines_def)
  with Nil show ?case using lines_line [of h "[]"] by simp
next
  case (Cons x xs)
  from Cons.prems have x: "extension_id x" by simp
  have "lines (x @ concat (map (\<lambda>id. newline # id) xs) @ [newline]) = x # xs"
    using Cons.prems by (intro Cons.IH) (auto simp: extension_id_plain [OF x])
  then show ?case
    using Cons.prems lines_line [of h "x @ concat (map (\<lambda>id. newline # id) xs) @ [newline]"] by simp
qed

lemma sorted_distinct_dedup: "sorted xs \<Longrightarrow> distinct (remdups_adj xs)" for xs :: "'a::linorder list"
  by (induction xs rule: remdups_adj.induct) auto

lemma sorted_distinct_btree_set: "sorted (btree_set xs)" "distinct (btree_set xs)" "set (btree_set xs) = set xs"
  by (simp_all add: btree_set_def sorted_distinct_dedup)

lemma header_plain: "trim HEADER = HEADER" "newline \<notin> set HEADER" "CHR 0x0D \<notin> set HEADER"
proof -
  show "trim HEADER = HEADER" unfolding HEADER_def by code_simp
  show "newline \<notin> set HEADER" "CHR 0x0D \<notin> set HEADER" by (simp_all add: HEADER_def newline_def)
qed

lemma parse_render:
  assumes "list_all extension_id installed"
  shows "extensions_parse (extensions_render installed) = Some (btree_set installed)"
proof -
  have ids: "list_all extension_id (btree_set installed)"
    using assms by (simp add: list_all_iff sorted_distinct_btree_set)
  have plain: "map trim (btree_set installed) = btree_set installed"
    "filter (\<lambda>line. line \<noteq> []) (btree_set installed) = btree_set installed"
    using ids by (auto simp: list_all_iff extension_id_plain intro!: map_idI filter_True)
  show ?thesis
    using lines_of_list [OF ids, of HEADER] plain
    by (simp add: extensions_parse_def extensions_render_def header_plain btree_set_def)
qed

text \<open>A stored extension list reads back as the sorted set of what was installed, and comparing
  it on any machine names exactly the identifiers stored but not installed there (offered, never
  installed) and those installed but not stored, each once and in order.\<close>

theorem extensions_roundtrip_compare:
  assumes "list_all extension_id stored"
  shows "\<exists>ids. extensions_parse (extensions_render stored) = Some ids \<and>
     set (ec_missing (extensions_compare here ids)) = set stored - set here \<and>
     set (ec_extra (extensions_compare here ids)) = set here - set stored \<and>
     sorted (ec_missing (extensions_compare here ids)) \<and> distinct (ec_missing (extensions_compare here ids)) \<and>
     sorted (ec_extra (extensions_compare here ids)) \<and> distinct (ec_extra (extensions_compare here ids))"
  unfolding parse_render [OF assms]
  by (auto simp: extensions_compare_def Let_def sorted_distinct_btree_set
      intro!: sorted_wrt_filter distinct_filter)

theorem extensions_roundtrip_compare_witness:
  "\<exists>ids. extensions_parse (extensions_render [''vim'', ''html'']) = Some ids \<and>
     set (ec_missing (extensions_compare [''html''] ids)) = {''vim''}"
proof -
  have "list_all extension_id [''vim'', ''html'']" by (simp add: extension_id_def)
  from extensions_roundtrip_compare [OF this, of "[''html'']"] show ?thesis by auto
qed

end
