(* ===== verification/Sync_Session.thy ===== *)
theory Sync_Session
  imports Rotation_Safety Extension_List
begin

text \<open>
  \<^verbatim>\<open>zode_sync/src/session.rs\<close>: the state the sync window shows and the operations behind its
  buttons. Each operation is the whole of what the button does, from the check for a key to the
  outcome absorbed into the status; the account (sign-in, token refresh) is an interface, a
  function that answers a context to make requests with or nothing.
\<close>

section \<open>State\<close>

record pending_divergence =
  pd_kind :: kind
  pd_diff :: text_diff
  pd_remote :: string
  pd_revision :: string
  pd_safe_to_apply :: bool

datatype sync_status =
    Idle
  | Working
  | Done string
  | NeedsKey
  | StatusKeyMismatch
  | StatusPlanLimited plan_limit
  | Failed string

datatype key_rotation =
    KeyRotationComplete string
  | KeyRotationInterrupted string bool string

record sync_session =
  ss_dek :: "dek option"
  ss_status :: sync_status
  ss_pending :: "pending_divergence option"
  ss_installed_extensions :: "string list"
  ss_missing_extensions :: "string list"

definition session_new :: sync_session where
  "session_new =
     \<lparr>ss_dek = None, ss_status = Idle, ss_pending = None, ss_installed_extensions = [],
      ss_missing_extensions = []\<rparr>"

definition has_key :: "sync_session \<Rightarrow> bool" where
  "has_key S \<longleftrightarrow> ss_dek S \<noteq> None"

definition set_status :: "sync_status \<Rightarrow> sync_session \<Rightarrow> sync_session" where
  "set_status s S = S\<lparr>ss_status := s\<rparr>"

text \<open>The account as the session uses it: who is signed in, and a fresh context or none.\<close>

record 'w account =
  acc_user :: "string option"
  acc_context :: "'w world \<Rightarrow> 'w sync_context option \<times> 'w world"
  acc_paths :: sync_paths

datatype direction = Pull | Push

definition unavailable :: sync_status where
  "unavailable = Failed (''sign in again '' @ string_of_chars [8212] @ '' this session could not be used'')"

section \<open>Keys\<close>

definition load_key :: "sync_session \<Rightarrow> 'w world \<Rightarrow> sync_session \<times> 'w world" where
  "load_key S w =
     (if ss_dek S \<noteq> None then (S, w)
      else case key_read w of
        (Inr found, w') \<Rightarrow>
          (let S = S\<lparr>ss_dek := found\<rparr>
           in if found = None \<and> ss_status S = Idle then set_status NeedsKey S else S, w')
      | (Inl (_ :: unit), w') \<Rightarrow> (S, w'))"

definition create_key ::
    "prims \<Rightarrow> 'w account \<Rightarrow> sync_session \<Rightarrow> 'w world \<Rightarrow> (string + string) \<times> sync_session \<times> 'w world" where
  "create_key P acc S w =
     (case acc_user acc of
        None \<Rightarrow> (Inl ''no account is signed in'', S, w)
      | Some user_id \<Rightarrow>
          (case io_bind dek_generate (\<lambda>d. io_bind (key_write user_id d) (\<lambda>_. io_ok d)) w of
             (Inl e, w') \<Rightarrow> (Inl e, S, w')
           | (Inr d, w') \<Rightarrow> (Inr (recovery_encode P d), set_status Idle (S\<lparr>ss_dek := Some d\<rparr>), w')))"

definition accept_recovery_key ::
    "prims \<Rightarrow> 'w account \<Rightarrow> string \<Rightarrow> sync_session \<Rightarrow> 'w world \<Rightarrow> (string + unit) \<times> sync_session \<times> 'w world" where
  "accept_recovery_key P acc phrase S w =
     (case acc_user acc of
        None \<Rightarrow> (Inl ''no account is signed in'', S, w)
      | Some user_id \<Rightarrow>
          (case recovery_decode P phrase of
             Inl e \<Rightarrow> (Inl (recovery_display e), S, w)
           | Inr d \<Rightarrow>
               (case key_write user_id d w of
                  (Inl e, w') \<Rightarrow> (Inl e, S, w')
                | (Inr _, w') \<Rightarrow> (Inr (), set_status Idle (S\<lparr>ss_dek := Some d\<rparr>), w'))))"

definition reveal_recovery_key :: "prims \<Rightarrow> sync_session \<Rightarrow> string option" where
  "reveal_recovery_key P S = map_option (recovery_encode P) (ss_dek S)"

definition forget_key :: "sync_session \<Rightarrow> 'w world \<Rightarrow> (string + unit) \<times> sync_session \<times> 'w world" where
  "forget_key S w =
     (case io_bind delete_rotation (\<lambda>_. key_delete) w of
        (r, w') \<Rightarrow> (r, set_status NeedsKey (S\<lparr>ss_dek := None\<rparr>), w'))"

section \<open>Rotating the key\<close>

text \<open>During a rotation the session's own key is state the \<^verbatim>\<open>persist\<close> closure writes. It rides
  along with the network state, which the requests leave alone.\<close>

definition with_cell :: "'c \<Rightarrow> 'w world \<Rightarrow> ('w \<times> 'c) world" where
  "with_cell c w =
     \<lparr>net = (net w, c), files = files w, keychain = keychain w, kv_rows = kv_rows w, tick = tick w, fs_fault = fs_fault w,
      kc_fault = kc_fault w, kv_fault = kv_fault w, random_fails = random_fails w, random_byte = random_byte w,
      clock = clock w, process_id = process_id w\<rparr>"

definition without_cell :: "('w \<times> 'c) world \<Rightarrow> 'w world" where
  "without_cell w =
     \<lparr>net = fst (net w), files = files w, keychain = keychain w, kv_rows = kv_rows w, tick = tick w, fs_fault = fs_fault w,
      kc_fault = kc_fault w, kv_fault = kv_fault w, random_fails = random_fails w, random_byte = random_byte w,
      clock = clock w, process_id = process_id w\<rparr>"

definition cell_api :: "'w api \<Rightarrow> ('w \<times> 'c) api" where
  "cell_api A =
     \<lparr>builds = builds A,
      exchange = (\<lambda>r (n, c). case exchange A r n of (answer, n') \<Rightarrow> (answer, (n', c))),
      api_url = api_url A, access_token = access_token A, web_origin = web_origin A\<rparr>"

definition cell_context :: "'w sync_context \<Rightarrow> ('w \<times> 'c) sync_context" where
  "cell_context C = \<lparr>sc_api = cell_api (sc_api C), sc_user_id = sc_user_id C\<rparr>"

definition adopt_key :: "string \<Rightarrow> dek \<Rightarrow> ('w \<times> dek option) world \<Rightarrow> ('w \<times> dek option) world" where
  "adopt_key user_id new w =
     (let w' = snd (key_write user_id new w) in w'\<lparr>net := (fst (net w'), Some new)\<rparr>)"

text \<open>The pair of keys to rotate between: an unfinished rotation of this key is continued.\<close>

definition rotation_keys :: "prims \<Rightarrow> string \<Rightarrow> dek \<Rightarrow> ('w world, string, dek \<times> dek) io" where
  "rotation_keys P user_id current =
     io_bind read_rotation (\<lambda>stored.
     let fresh =
       io_bind dek_generate (\<lambda>new.
       io_bind (io_map_err (\<lambda>e. ''nothing was changed: the new key could not be kept in the keychain ('' @ e @ '')'')
         (write_rotation user_id current new)) (\<lambda>_. io_ok (current, new)))
     in case stored of
          Some (old, new) \<Rightarrow>
            if kid P old = kid P current \<or> kid P new = kid P current then io_ok (old, new) else fresh
        | None \<Rightarrow> fresh)"

definition rotate_key ::
    "prims \<Rightarrow> 'w account \<Rightarrow> sync_session \<Rightarrow> 'w world \<Rightarrow> (string + key_rotation) \<times> sync_session \<times> 'w world" where
  "rotate_key P acc S w =
     (case ss_dek S of
        None \<Rightarrow> (Inl ''this machine has no recovery key to replace'', S, w)
      | Some current \<Rightarrow>
     (case acc_user acc of
        None \<Rightarrow> (Inl ''no account is signed in'', S, w)
      | Some user_id \<Rightarrow>
     (case acc_context acc w of
        (None, w1) \<Rightarrow>
          (Inl (''this session could not be used '' @ string_of_chars [8212] @ '' sign in again''), S, w1)
      | (Some C, w1) \<Rightarrow>
     (case rotation_keys P user_id current w1 of
        (Inl e, w2) \<Rightarrow> (Inl e, S, w2)
      | (Inr (old, new), w2) \<Rightarrow>
     (case rotate_slots P (cell_context C) old new (sync_state_file (acc_paths acc))
             (adopt_key user_id new) (with_cell (ss_dek S) w2) of
        (outcome, w3) \<Rightarrow>
          let S = S\<lparr>ss_dek := snd (net w3)\<rparr>; w4 = without_cell w3; phrase = recovery_encode P new;
              adopted = (case ss_dek S of Some d \<Rightarrow> kid P d = kid P new | None \<Rightarrow> False)
          in case outcome of
               Inr RotationComplete \<Rightarrow>
                 (Inr (KeyRotationComplete phrase), set_status (Done ''recovery key replaced'') S,
                  snd (delete_rotation w4))
             | Inr (RotationInterrupted remaining) \<Rightarrow>
                 (Inr (KeyRotationInterrupted phrase adopted
                    (''another machine wrote while the key was being replaced; '' @ nat_str (length remaining) @
                     '' item(s) still use the old key'')), S, w4)
             | Inl e \<Rightarrow> (Inr (KeyRotationInterrupted phrase adopted (sync_display e)), S, w4))))))"

section \<open>Absorbing outcomes\<close>

text \<open>A plan refusal also asks the account to read the plan again, which is outside this state.\<close>

definition session_fail :: "sync_error \<Rightarrow> sync_session \<Rightarrow> sync_session" where
  "session_fail e S =
     (case e of
        Client (PlanLimited l) \<Rightarrow> set_status (StatusPlanLimited l) S
      | _ \<Rightarrow> set_status (Failed (sync_display e)) S)"

definition note_missing_extensions :: "string \<Rightarrow> sync_session \<Rightarrow> sync_session" where
  "note_missing_extensions remote S =
     (case extensions_parse remote of
        None \<Rightarrow> S\<lparr>ss_missing_extensions := []\<rparr>
      | Some stored \<Rightarrow>
          S\<lparr>ss_missing_extensions := ec_missing (extensions_compare (ss_installed_extensions S) stored)\<rparr>)"

definition hold_divergence :: "kind \<Rightarrow> bool \<Rightarrow> divergence \<Rightarrow> sync_session \<Rightarrow> sync_session" where
  "hold_divergence kind safe dv S =
     set_status Idle (S\<lparr>ss_pending := Some \<lparr>pd_kind = kind, pd_diff = dv_diff dv, pd_remote = dv_remote dv,
       pd_revision = dv_revision dv, pd_safe_to_apply = safe\<rparr>\<rparr>)"

definition absorb_pull :: "kind \<Rightarrow> sync_error + pull_outcome \<Rightarrow> sync_session \<Rightarrow> sync_session" where
  "absorb_pull kind outcome S =
     (case outcome of
        Inr PullUpToDate \<Rightarrow> set_status (Done (kind_as_str kind @ '' is up to date'')) S
      | Inr LocalOnly \<Rightarrow> set_status (Done (''nothing has been pushed for '' @ kind_as_str kind @ '' yet'')) S
      | Inr (RemoteNewer dv) \<Rightarrow>
          hold_divergence kind True dv
            (if kind = Extensions then note_missing_extensions (dv_remote dv) S else S)
      | Inr (PullConflict dv) \<Rightarrow>
          hold_divergence kind False dv
            (if kind = Extensions then note_missing_extensions (dv_remote dv) S else S)
      | Inr (KeyMismatch _) \<Rightarrow> set_status StatusKeyMismatch S
      | Inl e \<Rightarrow> session_fail e S)"

definition absorb_push :: "kind \<Rightarrow> sync_error + push_outcome \<Rightarrow> sync_session \<Rightarrow> sync_session" where
  "absorb_push kind outcome S =
     (case outcome of
        Inr (PushStored _) \<Rightarrow> set_status (Done (kind_as_str kind @ '' pushed'')) S
      | Inr PushUpToDate \<Rightarrow> set_status (Done (kind_as_str kind @ '' is up to date'')) S
      | Inr NothingToPush \<Rightarrow> set_status (Done (''there is no local '' @ kind_as_str kind @ '' to push'')) S
      | Inr (PushConflict dv) \<Rightarrow> hold_divergence kind False dv S
      | Inl (Crypto _) \<Rightarrow> set_status StatusKeyMismatch S
      | Inl e \<Rightarrow> session_fail e S)"

section \<open>Transfers\<close>

definition session_run ::
    "prims \<Rightarrow> 'w account \<Rightarrow> kind \<Rightarrow> direction \<Rightarrow> sync_session \<Rightarrow> 'w world \<Rightarrow> sync_session \<times> 'w world" where
  "session_run P acc kind direction S w =
     (case ss_dek S of
        None \<Rightarrow> (set_status NeedsKey S, w)
      | Some d \<Rightarrow>
          let S = set_status Working (S\<lparr>ss_pending := None\<rparr>) in
          (case acc_context acc w of
             (None, w1) \<Rightarrow> (set_status unavailable S, w1)
           | (Some C, w1) \<Rightarrow>
               let a = artifact_for_kind (acc_paths acc) kind; state_path = sync_state_file (acc_paths acc) in
               (case direction of
                  Pull \<Rightarrow> (case sync_pull P C d a state_path w1 of (out, w2) \<Rightarrow> (absorb_pull kind out S, w2))
                | Push \<Rightarrow> (case sync_push P C d a state_path w1 of (out, w2) \<Rightarrow> (absorb_push kind out S, w2)))))"

definition session_run_content ::
    "prims \<Rightarrow> 'w account \<Rightarrow> kind \<Rightarrow> string \<Rightarrow> direction \<Rightarrow> sync_session \<Rightarrow> 'w world \<Rightarrow> sync_session \<times> 'w world" where
  "session_run_content P acc kind local direction S w =
     (case ss_dek S of
        None \<Rightarrow> (set_status NeedsKey S, w)
      | Some d \<Rightarrow>
          let S = set_status Working (S\<lparr>ss_pending := None, ss_missing_extensions := []\<rparr>) in
          (case acc_context acc w of
             (None, w1) \<Rightarrow> (set_status unavailable S, w1)
           | (Some C, w1) \<Rightarrow>
               let state_path = sync_state_file (acc_paths acc) in
               (case direction of
                  Pull \<Rightarrow> (case pull_content P C d kind local state_path w1 of (out, w2) \<Rightarrow> (absorb_pull kind out S, w2))
                | Push \<Rightarrow> (case push_content P C d kind local state_path w1 of (out, w2) \<Rightarrow> (absorb_push kind out S, w2)))))"

definition push_extensions ::
    "prims \<Rightarrow> 'w account \<Rightarrow> string list \<Rightarrow> sync_session \<Rightarrow> 'w world \<Rightarrow> sync_session \<times> 'w world" where
  "push_extensions P acc installed S w =
     session_run_content P acc Extensions (extensions_render installed) Push S w"

definition pull_extensions ::
    "prims \<Rightarrow> 'w account \<Rightarrow> string list \<Rightarrow> sync_session \<Rightarrow> 'w world \<Rightarrow> sync_session \<times> 'w world" where
  "pull_extensions P acc installed S w =
     session_run_content P acc Extensions (extensions_render installed) Pull
       (S\<lparr>ss_installed_extensions := installed\<rparr>) w"

definition apply_pending ::
    "prims \<Rightarrow> 'w account \<Rightarrow> sync_session \<Rightarrow> 'w world \<Rightarrow> sync_session \<times> 'w world" where
  "apply_pending P acc S w =
     (case ss_pending S of
        None \<Rightarrow> (S, w)
      | Some p \<Rightarrow>
          let S = S\<lparr>ss_pending := None\<rparr> in
          if pd_kind p = Extensions then
            (set_status (Done (nat_str (length (ss_missing_extensions S)) @
               '' extension(s) from your account are not installed here'')) S, w)
          else
            (case apply_remote P (artifact_for_kind (acc_paths acc) (pd_kind p)) (pd_remote p) (pd_revision p)
                    (sync_state_file (acc_paths acc)) w of
               (Inr _, w') \<Rightarrow> (set_status (Done (kind_as_str (pd_kind p) @ '' replaced from the server'')) S, w')
             | (Inl e, w') \<Rightarrow> (set_status (Failed (sync_display e)) S, w')))"

definition keep_local ::
    "prims \<Rightarrow> 'w account \<Rightarrow> sync_session \<Rightarrow> 'w world \<Rightarrow> sync_session \<times> 'w world" where
  "keep_local P acc S w =
     (case ss_pending S of
        None \<Rightarrow> (S, w)
      | Some p \<Rightarrow>
          let S = S\<lparr>ss_pending := None\<rparr> in
          (case ss_dek S of
             None \<Rightarrow> (set_status NeedsKey S, w)
           | Some d \<Rightarrow>
               let S = set_status Working S in
               (case acc_context acc w of
                  (None, w1) \<Rightarrow> (set_status unavailable S, w1)
                | (Some C, w1) \<Rightarrow>
                    (case overwrite_remote P C d (artifact_for_kind (acc_paths acc) (pd_kind p)) (pd_revision p)
                            (sync_state_file (acc_paths acc)) w1 of
                       (out, w2) \<Rightarrow> (absorb_push (pd_kind p) out S, w2)))))"

definition dismiss_pending :: "sync_session \<Rightarrow> sync_session" where
  "dismiss_pending S = set_status Idle (S\<lparr>ss_pending := None\<rparr>)"

section \<open>The key cell\<close>

lemma with_cell_simps [simp]:
  "net (with_cell c w) = (net w, c)" "files (with_cell c w) = files w" "keychain (with_cell c w) = keychain w"
  "kc_fault (with_cell c w) = kc_fault w" "tick (with_cell c w) = tick w" "key_at u (with_cell c w) = key_at u w"
  by (simp_all add: with_cell_def key_at_def)

lemma without_cell_simps [simp]:
  "net (without_cell w) = fst (net w)" "files (without_cell w) = files w" "keychain (without_cell w) = keychain w"
  "kc_fault (without_cell w) = kc_fault w" "tick (without_cell w) = tick w" "key_at u (without_cell w) = key_at u w"
  by (simp_all add: without_cell_def key_at_def)

definition cell :: "('w \<times> 'c) world \<Rightarrow> 'c" where
  "cell w = snd (net w)"

lemma frame_cell_fetch: "frame cell (fetch P (cell_api A) r)"
proof -
  have "frame cell (http_send (cell_api A) q)" for q
    by (auto simp: frame_def cell_def http_send_def cell_api_def split: prod.splits)
  then show ?thesis unfolding fetch_def fetch_body_def by (intro frame_intros)
qed

lemma frame_plan:
  "frame cell (plan_slots P (cell_context C) old new slots plan)"
  "frame keychain (plan_slots P (cell_context C) old new slots plan)"
proof -
  have api: "sc_api (cell_context C) = cell_api (sc_api C)" by (simp add: cell_context_def)
  show "frame cell (plan_slots P (cell_context C) old new slots plan)"
    by (induction slots arbitrary: plan) (auto simp: api intro!: frame_intros frame_cell_fetch simp del: io_simps_basic)
  show "frame keychain (plan_slots P (cell_context C) old new slots plan)"
    by (induction slots arbitrary: plan) (auto simp: api intro!: frame_intros simp del: io_simps_basic)
qed

section \<open>What the operations promise\<close>

text \<open>Replacing the recovery key of an account that stores nothing under it reports the new key
  as this machine's key and forgets the record of the rotation, but the session and the keychain
  go on holding the old key: the phrase the user is told to write down opens nothing this machine
  will ever seal.\<close>

theorem rotate_key_unadopted:
  assumes "ss_dek S = Some current" "acc_user acc = Some user_id" "acc_context acc w = (Some C, w1)"
    and "rotation_keys P user_id current w1 = (Inr (old, new), w2)"
    and "rotation_plan_of P (cell_context C) old new (with_cell (Some current) w2) = (Inr plan, w3)"
    and "rp_pending plan = []" "rp_done plan = []"
  shows "\<exists>S' w'. rotate_key P acc S w = (Inr (KeyRotationComplete (recovery_encode P new)), S', w') \<and>
    ss_dek S' = Some current \<and> key_at KEYCHAIN_URL w' = key_at KEYCHAIN_URL w2 \<and>
    (kc_fault w3 (tick w3) = None \<longrightarrow> key_at ROTATION_KEYCHAIN_URL w' = None)"
proof -
  have run: "rotate_slots P (cell_context C) old new sp pe (with_cell (Some current) w2) = (Inr RotationComplete, w3)" for sp pe
    by (rule rotation_of_nothing [OF assms(5-7)])
  have c: "snd (net w3) = Some current" "keychain w3 = keychain w2"
    using frameD [OF frame_plan(1) assms(5) [unfolded rotation_plan_of_def]]
      frameD [OF frame_plan(2) assms(5) [unfolded rotation_plan_of_def]] by (simp_all add: cell_def)
  have urls: "KEYCHAIN_URL \<noteq> ROTATION_KEYCHAIN_URL" by (simp add: KEYCHAIN_URL_def ROTATION_KEYCHAIN_URL_def)
  show ?thesis
    using assms(1-4) c urls
    by (simp add: rotate_key_def run Let_def delete_rotation_def kc_delete_def key_at_def set_status_def delete_conv
        split: option.splits)
qed

definition example_account :: "fake_store account" where
  "example_account =
     \<lparr>acc_user = Some fake_user, acc_context = (\<lambda>w. (Some (fake_context ref_prims), w)),
      acc_paths = \<lparr>settings_file = [RootDir, Normal ''settings.json''],
        settings_backup_file = [RootDir, Normal ''settings_backup.json''],
        keymap_file = [RootDir, Normal ''keymap.json''],
        keymap_backup_file = [RootDir, Normal ''keymap_backup.json''],
        sync_state_file = example_state_path\<rparr>\<rparr>"

definition example_session :: sync_session where
  "example_session = session_new\<lparr>ss_dek := Some example_dek\<rparr>"

theorem rotate_key_unadopted_witness:
  "\<exists>new S' w'. rotate_key ref_prims example_account example_session (quiet_world fake_new)
      = (Inr (KeyRotationComplete (recovery_encode ref_prims new)), S', w') \<and> ss_dek S' = Some example_dek"
proof -
  let ?keys = "rotation_keys ref_prims fake_user example_dek (quiet_world fake_new)"
  let ?plan = "\<lambda>old new w2. rotation_plan_of ref_prims (cell_context (fake_context ref_prims)) old new
    (with_cell (Some example_dek) w2)"
  have ev: "case ?keys of
      (Inr (old, new), w2) \<Rightarrow>
        (case fst (?plan old new w2) of Inr plan \<Rightarrow> rp_pending plan = [] \<and> rp_done plan = [] | Inl _ \<Rightarrow> False)
    | _ \<Rightarrow> False"
    by code_simp
  obtain x w2 where k: "?keys = (x, w2)" by force
  with ev obtain old new where x: "x = Inr (old, new)"
    and ev2: "case fst (?plan old new w2) of Inr plan \<Rightarrow> rp_pending plan = [] \<and> rp_done plan = [] | Inl _ \<Rightarrow> False"
    by (cases x) auto
  note keys = k [unfolded x]
  obtain y w3 where y: "?plan old new w2 = (y, w3)" by force
  with ev2 obtain plan where plan: "?plan old new w2 = (Inr plan, w3)" "rp_pending plan = []" "rp_done plan = []"
    by (cases y) auto
  have S: "ss_dek example_session = Some example_dek" by (simp add: example_session_def)
  have acc: "acc_user example_account = Some fake_user"
    "acc_context example_account (quiet_world fake_new) = (Some (fake_context ref_prims), quiet_world fake_new)"
    by (simp_all add: example_account_def)
  from rotate_key_unadopted [OF S acc keys plan] show ?thesis by blast
qed

definition settled :: "kind \<Rightarrow> direction \<Rightarrow> sync_session \<Rightarrow> bool" where
  "settled kind direction S \<longleftrightarrow>
     ss_status S \<noteq> Working \<and>
     (case ss_pending S of
        None \<Rightarrow> True
      | Some p \<Rightarrow> ss_status S = Idle \<and> pd_kind p = kind \<and> (pd_safe_to_apply p \<longrightarrow> direction = Pull))"

lemma absorb_settled:
  assumes "ss_pending T = None"
  shows "settled kind Pull (absorb_pull kind out1 T)" "settled kind Push (absorb_push kind out2 T)"
proof -
  show "settled kind Pull (absorb_pull kind out1 T)"
    using assms unfolding absorb_pull_def
    by (auto simp: settled_def hold_divergence_def session_fail_def set_status_def note_missing_extensions_def
        split: sum.splits pull_outcome.splits sync_error.splits client_error.splits option.splits)
  show "settled kind Push (absorb_push kind out2 T)"
    using assms unfolding absorb_push_def
    by (auto simp: settled_def hold_divergence_def session_fail_def set_status_def
        split: sum.splits push_outcome.splits sync_error.splits client_error.splits option.splits)
qed

text \<open>A run always ends: whatever the service answers, the status afterwards is never \<open>Working\<close>,
  a difference is held only with the status \<open>Idle\<close> and only for the kind that was asked for, and a
  difference that may be applied without loss comes from a pull alone.\<close>

theorem session_run_settles:
  assumes "ss_pending S = None \<or> ss_dek S \<noteq> None" and "session_run P acc kind direction S w = (S', w')"
  shows "settled kind direction S'"
proof -
  let ?T = "set_status Working (S\<lparr>ss_pending := None\<rparr>)"
  have T: "ss_pending ?T = None" by (simp add: set_status_def)
  have na: "settled kind direction (set_status unavailable ?T)"
    by (simp add: settled_def set_status_def unavailable_def)
  show ?thesis
  proof (cases "ss_dek S")
    case None
    with assms show ?thesis by (auto simp: session_run_def settled_def set_status_def)
  next
    case (Some d)
    obtain c w1 where c: "acc_context acc w = (c, w1)" by force
    from assms(2) Some c na absorb_settled [OF T] show ?thesis
      by (cases c; cases direction) (auto simp: session_run_def Let_def split: prod.splits)
  qed
qed

theorem session_run_settles_witness:
  "settled Settings Pull (fst (session_run ref_prims example_account Settings Pull example_session (quiet_world fake_new)))"
proof -
  obtain S' w' where run: "session_run ref_prims example_account Settings Pull example_session (quiet_world fake_new) = (S', w')"
    by force
  have "ss_pending example_session = None \<or> ss_dek example_session \<noteq> None" by (simp add: example_session_def)
  from session_run_settles [OF this run] run show ?thesis by simp
qed

text \<open>Nothing a sync payload says can install an extension: taking a held difference of the
  extension list changes nothing outside the session, and it only says how many are missing.\<close>

theorem extensions_never_applied:
  assumes "ss_pending S = Some p" "pd_kind p = Extensions"
  shows "snd (apply_pending P acc S w) = w \<and>
    ss_status (fst (apply_pending P acc S w)) =
      Done (nat_str (length (ss_missing_extensions S)) @ '' extension(s) from your account are not installed here'') \<and>
    ss_installed_extensions (fst (apply_pending P acc S w)) = ss_installed_extensions S"
  using assms by (simp add: apply_pending_def Let_def set_status_def)

definition example_held :: sync_session where
  "example_held = example_session\<lparr>ss_pending := Some \<lparr>pd_kind = Extensions, pd_diff = diff_between ref_prims [] [],
     pd_remote = [], pd_revision = ''rev-0'', pd_safe_to_apply = False\<rparr>\<rparr>"

theorem extensions_never_applied_witness:
  "snd (apply_pending ref_prims example_account example_held (quiet_world fake_new)) = quiet_world fake_new"
proof -
  obtain p where "ss_pending example_held = Some p" "pd_kind p = Extensions" by (simp add: example_held_def)
  from extensions_never_applied [OF this] show ?thesis by blast
qed

text \<open>Keeping the local side of an extension-list conflict does not reach the server: the artifact
  of that kind has no path, so the overwrite finds no local file and the conflict is dropped with
  the stored list unchanged.\<close>

theorem keep_local_extensions_dropped:
  assumes "ss_pending S = Some p" "pd_kind p = Extensions" "ss_dek S = Some d"
    and "acc_context acc w = (Some C, w1)" "file_at [] w1 = None" "fs_fault w1 (tick w1) = None"
  shows "net (snd (keep_local P acc S w)) = net w1 \<and>
    ss_status (fst (keep_local P acc S w)) = Done ''there is no local extensions to push'' \<and>
    ss_pending (fst (keep_local P acc S w)) = None"
proof -
  have "artifact_read [] w1 = (Inr None, advance w1)"
    using assms(5,6)
    by (simp add: artifact_read_def fs_read_to_string_def fs_read_def fs_guard_def io_case_apply io_bind_apply not_found_def)
  then show ?thesis
    using assms(1-4)
    by (simp add: keep_local_def Let_def overwrite_remote_def artifact_for_kind_def io_bind_apply io_map_err_apply
        absorb_push_def set_status_def)
qed

theorem keep_local_extensions_dropped_witness:
  "net (snd (keep_local ref_prims example_account example_held (quiet_world fake_new))) = fake_new"
proof -
  obtain p where p: "ss_pending example_held = Some p" "pd_kind p = Extensions" by (simp add: example_held_def)
  have rest: "ss_dek example_held = Some example_dek"
    "acc_context example_account (quiet_world fake_new) = (Some (fake_context ref_prims), quiet_world fake_new)"
    "file_at [] (quiet_world fake_new) = None"
    "fs_fault (quiet_world fake_new) (tick (quiet_world fake_new)) = None"
    "net (quiet_world fake_new) = fake_new"
    by (simp_all add: example_held_def example_session_def example_account_def quiet_world_def file_at_def)
  from keep_local_extensions_dropped [OF p rest(1-4)] rest(5) show ?thesis by simp
qed

end
