(* ===== verification/Env_Crypto.thy ===== *)
theory Env_Crypto
  imports Rotate
begin

text \<open>
  The byte level of \<^verbatim>\<open>zode_env_sync\<close>: identifiers (\<^verbatim>\<open>ids.rs\<close>), the framed and padded block
  (\<^verbatim>\<open>padding.rs\<close>), the environment key and its wrapping (\<^verbatim>\<open>env_dek.rs\<close>), sealing with a sequence
  number and the refusal of an older one (\<^verbatim>\<open>seal.rs\<close>), the bytes of a push (\<^verbatim>\<open>wire.rs\<close>) and the
  keychain entry (\<^verbatim>\<open>keystore.rs\<close>). Identifiers are a codec; blocks are whole pages and read back.
\<close>

section \<open>Errors\<close>

definition ENV_KEY_RESOURCE :: string where
  "ENV_KEY_RESOURCE = ''env-key''"

definition ENV_MANIFEST_RESOURCE :: string where
  "ENV_MANIFEST_RESOURCE = ''env-manifest''"

datatype env_crypto_error =
    EnvWrongKey
  | EnvKeyRotated bytes bytes
  | EnvRollback u64 u64
  | EnvUnsupportedVersion u32
  | EnvMalformed string
  | EnvTooLarge nat nat

fun env_crypto_display :: "env_crypto_error \<Rightarrow> string" where
  "env_crypto_display EnvWrongKey = ''that key does not open this environment file''"
| "env_crypto_display (EnvKeyRotated theirs ours) =
     ''this environment file was encrypted with a different key '' @ string_of_chars [8212] @
     '' it was probably rotated on another machine''"
| "env_crypto_display (EnvRollback seen got) =
     ''the server offered version '' @ nat_str (unat got) @
     '' of this file, but this machine has already seen version '' @ nat_str (unat seen) @ '' '' @
     string_of_chars [8212] @ '' it was not written''"
| "env_crypto_display (EnvUnsupportedVersion v) =
     ''this environment file uses format '' @ nat_str (unat v) @
     '', which this version of Zode cannot read''"
| "env_crypto_display (EnvMalformed reason) = ''this is not a Zode environment blob: '' @ reason"
| "env_crypto_display (EnvTooLarge n limit) =
     ''this file is '' @ nat_str n @ '' bytes; the limit is '' @ nat_str limit"

fun env_of_crypto :: "sync_crypto_error \<Rightarrow> env_crypto_error" where
  "env_of_crypto WrongKey = EnvWrongKey"
| "env_of_crypto (KeyRotated theirs ours) = EnvKeyRotated theirs ours"
| "env_of_crypto (UnsupportedVersion v) = EnvUnsupportedVersion v"
| "env_of_crypto (Malformed reason) = EnvMalformed reason"

section \<open>Identifiers\<close>

definition ID_BYTES :: nat where
  "ID_BYTES = 16"

definition ID_CHARS :: nat where
  "ID_CHARS = ID_BYTES * 2"

definition HEX :: string where
  "HEX = ''0123456789abcdef''"

definition hex_value :: "u8 \<Rightarrow> env_crypto_error + u8" where
  "hex_value b =
     (if 48 \<le> b \<and> b \<le> 57 then Inr (b - 48)
      else if 97 \<le> b \<and> b \<le> 102 then Inr (b - 97 + 10)
      else Inl (EnvMalformed ([CHR 0x27] @ string_of_chars [unat b] @ [CHR 0x27] @
             '' is not lowercase hexadecimal'')))"

text \<open>The loop over \<^verbatim>\<open>chunks_exact(2)\<close>.\<close>

fun hex_pairs :: "bytes \<Rightarrow> env_crypto_error + bytes" where
  "hex_pairs (h # l # rest) =
     bind_res (hex_value h) (\<lambda>high.
     bind_res (hex_value l) (\<lambda>low.
     bind_res (hex_pairs rest) (\<lambda>bs. Inr ((push_bit 4 high OR low) # bs))))"
| "hex_pairs bs = Inr []"

definition id_parse :: "string \<Rightarrow> string \<Rightarrow> env_crypto_error + bytes" where
  "id_parse what raw =
     (if length raw \<noteq> ID_CHARS
      then Inl (EnvMalformed (''a '' @ what @ '' has '' @ nat_str ID_CHARS @
             '' characters, this one has '' @ nat_str (length raw)))
      else hex_pairs (as_bytes raw))"

definition id_hex :: "bytes \<Rightarrow> string" where
  "id_hex bs = concat (map (\<lambda>b. [HEX ! unat (drop_bit 4 b), HEX ! unat (b AND 15)]) bs)"

definition id_generate :: "('w world, string, bytes) io" where
  "id_generate =
     io_map_err (\<lambda>_. ''the system random number generator refused'') (random_fill ID_BYTES)"

datatype entry_id = EntryId (entry_bytes: bytes)

datatype project_id = ProjectId (project_bytes: bytes)

instantiation entry_id :: linorder
begin

definition less_eq_entry_id :: "entry_id \<Rightarrow> entry_id \<Rightarrow> bool" where
  "less_eq_entry_id a b \<longleftrightarrow> entry_bytes a \<le> entry_bytes b"

definition less_entry_id :: "entry_id \<Rightarrow> entry_id \<Rightarrow> bool" where
  "less_entry_id a b \<longleftrightarrow> entry_bytes a < entry_bytes b"

instance
  by intro_classes (auto simp: less_eq_entry_id_def less_entry_id_def entry_id.expand)

end

instantiation project_id :: linorder
begin

definition less_eq_project_id :: "project_id \<Rightarrow> project_id \<Rightarrow> bool" where
  "less_eq_project_id a b \<longleftrightarrow> project_bytes a \<le> project_bytes b"

definition less_project_id :: "project_id \<Rightarrow> project_id \<Rightarrow> bool" where
  "less_project_id a b \<longleftrightarrow> project_bytes a < project_bytes b"

instance
  by intro_classes (auto simp: less_eq_project_id_def less_project_id_def project_id.expand)

end

definition entry_parse :: "string \<Rightarrow> env_crypto_error + entry_id" where
  "entry_parse raw = bind_res (id_parse ''entry id'' raw) (\<lambda>bs. Inr (EntryId bs))"

definition entry_hex :: "entry_id \<Rightarrow> string" where
  "entry_hex e = id_hex (entry_bytes e)"

definition entry_generate :: "('w world, string, entry_id) io" where
  "entry_generate = io_bind id_generate (\<lambda>bs. io_ok (EntryId bs))"

definition project_parse :: "string \<Rightarrow> env_crypto_error + project_id" where
  "project_parse raw = bind_res (id_parse ''project id'' raw) (\<lambda>bs. Inr (ProjectId bs))"

definition project_hex :: "project_id \<Rightarrow> string" where
  "project_hex p = id_hex (project_bytes p)"

definition project_generate :: "('w world, string, project_id) io" where
  "project_generate = io_bind id_generate (\<lambda>bs. io_ok (ProjectId bs))"

text \<open>The derived order and the hand-written \<^verbatim>\<open>Serialize\<close> and \<^verbatim>\<open>Deserialize\<close>: an identifier is
  its hexadecimal string.\<close>

definition entry_id_of_json :: "json \<Rightarrow> entry_id option" where
  "entry_id_of_json j = (case as_str j of None \<Rightarrow> None | Some s \<Rightarrow> ok (entry_parse s))"

definition project_id_of_json :: "json \<Rightarrow> project_id option" where
  "project_id_of_json j = (case as_str j of None \<Rightarrow> None | Some s \<Rightarrow> ok (project_parse s))"

definition entry_ok :: "entry_id \<Rightarrow> bool" where
  "entry_ok e \<longleftrightarrow> length (entry_bytes e) = ID_BYTES"

definition project_ok :: "project_id \<Rightarrow> bool" where
  "project_ok p \<longleftrightarrow> length (project_bytes p) = ID_BYTES"

section \<open>Padding\<close>

definition PAD_BLOCK :: nat where
  "PAD_BLOCK = 4096"

definition HEADER_BYTES :: nat where
  "HEADER_BYTES = 12"

definition MAX_PAYLOAD_BYTES :: nat where
  "MAX_PAYLOAD_BYTES = 256 * 1024"

definition div_ceil :: "nat \<Rightarrow> nat \<Rightarrow> nat" where
  "div_ceil a b = (if a mod b = 0 then a div b else a div b + 1)"

definition pack :: "u64 \<Rightarrow> bytes \<Rightarrow> env_crypto_error + bytes" where
  "pack seq payload =
     (if length payload > MAX_PAYLOAD_BYTES then Inl (EnvTooLarge (length payload) MAX_PAYLOAD_BYTES)
      else
        let used = HEADER_BYTES + length payload;
            total = div_ceil used PAD_BLOCK * PAD_BLOCK;
            block = u64_to_le_bytes seq @ u32_to_le_bytes (word_of_nat (length payload)) @ payload
        in Inr (block @ replicate (total - length block) 0))"

text \<open>The \<^verbatim>\<open>checked_add\<close> of the header and a 32-bit length cannot overflow a 64-bit
  \<^verbatim>\<open>usize\<close>; its error branch is not reachable and has no counterpart here.\<close>

definition unpack :: "bytes \<Rightarrow> env_crypto_error + u64 \<times> bytes" where
  "unpack block =
     (if length block < PAD_BLOCK \<or> length block mod PAD_BLOCK \<noteq> 0
      then Inl (EnvMalformed (''a sealed block is a multiple of '' @ nat_str PAD_BLOCK @
             '' bytes, this one is '' @ nat_str (length block)))
      else
        let seq = u64_from_le_bytes (take 8 block);
            len = unat (u32_from_le_bytes (drop 8 (take HEADER_BYTES block)));
            end_at = HEADER_BYTES + len
        in if end_at > length block
           then Inl (EnvMalformed (''the payload claims '' @ nat_str len @ '' bytes but the block holds '' @
                  nat_str (length block - HEADER_BYTES)))
           else if list_ex (\<lambda>b. b \<noteq> 0) (drop end_at block)
           then Inl (EnvMalformed ''the padding carries data, so this block did not come from Zode'')
           else Inr (seq, drop HEADER_BYTES (take end_at block)))"

section \<open>The environment key\<close>

record env_dek =
  ek_bytes :: bytes

definition env_dek_ok :: "env_dek \<Rightarrow> bool" where
  "env_dek_ok k \<longleftrightarrow> length (ek_bytes k) = DEK_LEN"

definition env_dek_generate :: "('w world, string, env_dek) io" where
  "env_dek_generate = io_bind
     (io_map_err (\<lambda>_. ''the system random number generator refused'') (random_fill DEK_LEN))
     (\<lambda>bs. io_ok \<lparr>ek_bytes = bs\<rparr>)"

definition env_kid :: "prims \<Rightarrow> env_dek \<Rightarrow> bytes" where
  "env_kid P k = take KID_LEN (sha256 P (ek_bytes k))"

definition as_dek :: "env_dek \<Rightarrow> dek" where
  "as_dek k = \<lparr>dek_bytes = ek_bytes k\<rparr>"

definition key_resource :: "env_crypto_error + resource" where
  "key_resource = map_err env_of_crypto (resource_env_singleton ENV_KEY_RESOURCE)"

definition wrap_key ::
    "prims \<Rightarrow> dek \<Rightarrow> string \<Rightarrow> env_dek \<Rightarrow> ('w world, env_crypto_error, envelope) io" where
  "wrap_key P d user_id k =
     io_bind (io_res key_resource) (\<lambda>resource.
     io_map_err env_of_crypto (encrypt_at P d user_id resource (ek_bytes k)))"

definition unwrap_key :: "prims \<Rightarrow> dek \<Rightarrow> string \<Rightarrow> envelope \<Rightarrow> env_crypto_error + env_dek" where
  "unwrap_key P d user_id envelope =
     bind_res key_resource (\<lambda>resource.
     bind_res (map_err env_of_crypto (decrypt_at P d user_id resource envelope)) (\<lambda>bs.
     if length bs = DEK_LEN then Inr \<lparr>ek_bytes = bs\<rparr>
     else Inl (EnvMalformed (''the wrapped env key is '' @ nat_str (length bs) @ '' bytes, not '' @
            nat_str DEK_LEN))))"

section \<open>Sealing a file\<close>

definition entry_resource :: "entry_id \<Rightarrow> env_crypto_error + resource" where
  "entry_resource e = map_err env_of_crypto (resource_env_entry (entry_hex e))"

definition manifest_resource :: "env_crypto_error + resource" where
  "manifest_resource = map_err env_of_crypto (resource_env_singleton ENV_MANIFEST_RESOURCE)"

record opened =
  op_seq :: u64
  op_payload :: bytes

definition env_seal ::
    "prims \<Rightarrow> env_dek \<Rightarrow> string \<Rightarrow> resource \<Rightarrow> u64 \<Rightarrow> bytes \<Rightarrow> ('w world, env_crypto_error, envelope) io" where
  "env_seal P k user_id resource seq payload =
     io_bind (io_res (pack seq payload)) (\<lambda>block.
     io_map_err env_of_crypto (encrypt_at P (as_dek k) user_id resource block))"

definition env_open ::
    "prims \<Rightarrow> env_dek \<Rightarrow> string \<Rightarrow> resource \<Rightarrow> u64 option \<Rightarrow> envelope \<Rightarrow> env_crypto_error + opened" where
  "env_open P k user_id resource seen_seq envelope =
     bind_res (map_err env_of_crypto (decrypt_at P (as_dek k) user_id resource envelope)) (\<lambda>block.
     bind_res (unpack block) (\<lambda>(seq, payload).
     case seen_seq of
       Some seen \<Rightarrow>
         if seq < seen then Inl (EnvRollback seen seq) else Inr \<lparr>op_seq = seq, op_payload = payload\<rparr>
     | None \<Rightarrow> Inr \<lparr>op_seq = seq, op_payload = payload\<rparr>))"

record wire_bytes =
  wire_json :: string
  wire_blob :: string

definition env_wire ::
    "prims \<Rightarrow> env_dek \<Rightarrow> string \<Rightarrow> resource \<Rightarrow> u64 \<Rightarrow> bytes \<Rightarrow> ('w world, env_crypto_error, wire_bytes) io" where
  "env_wire P k user_id resource seq payload =
     io_bind (env_seal P k user_id resource seq payload) (\<lambda>envelope.
     io_bind (io_res (map_err EnvMalformed (json_pretty P (envelope_json envelope)))) (\<lambda>text.
     io_bind (io_res (map_err env_of_crypto (to_blob P envelope))) (\<lambda>blob.
     io_ok \<lparr>wire_json = text, wire_blob = blob\<rparr>)))"

section \<open>The keychain entry\<close>

definition ENV_KEYCHAIN_URL :: string where
  "ENV_KEYCHAIN_URL = ''zode://env-key''"

definition env_key_read :: "('w world, 'e, env_dek option) io" where
  "env_key_read = io_case (kc_read ENV_KEYCHAIN_URL) (\<lambda>stored.
     case stored of
       Inl _ \<Rightarrow> io_ok None
     | Inr None \<Rightarrow> io_ok None
     | Inr (Some (_, payload)) \<Rightarrow>
         io_ok (if length payload = DEK_LEN then Some \<lparr>ek_bytes = payload\<rparr> else None))"

definition env_key_write :: "string \<Rightarrow> env_dek \<Rightarrow> ('w world, string, unit) io" where
  "env_key_write user_id k = kc_write ENV_KEYCHAIN_URL user_id (ek_bytes k)"

definition env_key_delete :: "('w world, string, unit) io" where
  "env_key_delete = kc_delete ENV_KEYCHAIN_URL"

section \<open>Hexadecimal identifiers are a codec\<close>

lemma length_HEX [simp]: "length HEX = 16"
  by (simp add: HEX_def)

lemma nibbles_below: "unat (drop_bit 4 b :: u8) < 16" "unat (b AND 15 :: u8) < 16"
proof -
  have "unat (drop_bit 4 b :: u8) = unat b div 16"
    by (simp add: drop_bit_eq_div unat_div)
  then show "unat (drop_bit 4 b :: u8) < 16" using u8_div_16 [of b] by simp
  have "b AND 15 = take_bit 4 b" by (simp add: take_bit_eq_mask mask_eq_exp_minus_1)
  then have "unat (b AND 15) = unat b mod 16" by (simp add: take_bit_eq_mod unat_mod)
  then show "unat (b AND 15 :: u8) < 16" by simp
qed

lemma nibbles_join: "push_bit 4 (drop_bit 4 b) OR (b AND 15) = (b :: u8)"
proof -
  have low: "b AND 15 = take_bit 4 b" by (simp add: take_bit_eq_mask mask_eq_exp_minus_1)
  show ?thesis unfolding low
    by (rule bit_word_eqI) (auto simp: bit_or_iff bit_push_bit_iff bit_drop_bit_eq bit_take_bit_iff)
qed

lemma nibbles_split:
  assumes "unat (h :: u8) < 16" and "unat (l :: u8) < 16"
  shows "drop_bit 4 (push_bit 4 h OR l) = h" "(push_bit 4 h OR l) AND 15 = l"
proof -
  have low: "take_bit 4 x = x" if "unat (x :: u8) < 16" for x
    using that by (simp add: word_unat_eq_iff unsigned_take_bit_eq take_bit_nat_eq_self)
  have high: "\<not> bit x n" if "unat (x :: u8) < 16" "4 \<le> n" for x n
    using low [OF that(1)] that(2) by (metis bit_take_bit_iff not_le)
  show "drop_bit 4 (push_bit 4 h OR l) = h"
  proof (rule bit_word_eqI)
    fix n
    assume "n < LENGTH(8)"
    show "bit (drop_bit 4 (push_bit 4 h OR l)) n = bit h n"
      using high [OF assms(2), of "4 + n"] high [OF assms(1), of n]
      by (cases "n < 4") (auto simp: bit_drop_bit_eq bit_or_iff bit_push_bit_iff)
  qed
  show "(push_bit 4 h OR l) AND 15 = l"
  proof -
    have "(push_bit 4 h OR l) AND 15 = take_bit 4 (push_bit 4 h OR l)"
      by (simp add: take_bit_eq_mask mask_eq_exp_minus_1)
    also have "\<dots> = l"
      by (rule bit_word_eqI) (auto simp: bit_take_bit_iff bit_or_iff bit_push_bit_iff high assms not_le)
    finally show ?thesis .
  qed
qed

lemma hex_value_digit: "n < 16 \<Longrightarrow> hex_value (byte_of_char (HEX ! n)) = Inr (word_of_nat n)"
proof -
  have "list_all (\<lambda>n. hex_value (byte_of_char (HEX ! n)) = Inr (word_of_nat n)) [0..<16]"
    by code_simp
  then show "n < 16 \<Longrightarrow> ?thesis" by (simp add: list_all_iff)
qed

lemma hex_value_Inr:
  assumes "hex_value b = Inr v"
  shows "unat v < 16 \<and> char_of_byte b = HEX ! unat v"
proof -
  have "(48 \<le> unat b \<and> unat b \<le> 57) \<or> (97 \<le> unat b \<and> unat b \<le> 102)"
    using assms by (simp add: hex_value_def word_le_nat_alt split: if_splits)
  then have "unat b \<in> set [48..<58] \<union> set [97..<103]" unfolding set_upt by fastforce
  then have "word_of_nat (unat b) \<in> set (map word_of_nat ([48..<58] @ [97..<103]) :: u8 list)"
    unfolding list.set_map set_append by (rule imageI)
  then have b: "b \<in> set (map word_of_nat ([48..<58] @ [97..<103]))" by simp
  have "list_all (\<lambda>b. case hex_value b of Inr v \<Rightarrow> unat v < 16 \<and> char_of_byte b = HEX ! unat v | _ \<Rightarrow> True)
     (map word_of_nat ([48..<58] @ [97..<103]))"
    by code_simp
  with b assms show ?thesis by (force simp: list_all_iff)
qed

lemma id_hex_Nil [simp]: "id_hex [] = []"
  by (simp add: id_hex_def)

lemma id_hex_Cons [simp]: "id_hex (b # bs) = HEX ! unat (drop_bit 4 b) # HEX ! unat (b AND 15) # id_hex bs"
  by (simp add: id_hex_def)

lemma length_id_hex [simp]: "length (id_hex bs) = 2 * length bs"
  by (induction bs) simp_all

lemma hex_pairs_id_hex: "hex_pairs (as_bytes (id_hex bs)) = Inr bs"
  by (induction bs) (simp_all add: as_bytes_def hex_value_digit nibbles_below nibbles_join)

lemma hex_pairs_Inr: "even (length raw) \<Longrightarrow> hex_pairs raw = Inr bs \<Longrightarrow> string_of_bytes raw = id_hex bs"
proof (induction raw arbitrary: bs rule: hex_pairs.induct)
  case (1 h l rest)
  then obtain high low bs' where "hex_value h = Inr high" "hex_value l = Inr low"
    "hex_pairs rest = Inr bs'" "bs = (push_bit 4 high OR low) # bs'"
    by (auto simp: bind_res_eq_Inr)
  with "1" show ?case
    using nibbles_split [of high low]
    by (auto simp: string_of_bytes_def simp del: drop_bit_or dest!: hex_value_Inr)
qed (auto simp: string_of_bytes_def)

lemma id_parse_iff: "id_parse what raw = Inr bs \<longleftrightarrow> length bs = ID_BYTES \<and> raw = id_hex bs"
proof
  assume "id_parse what raw = Inr bs"
  then have "length raw = ID_CHARS" "hex_pairs (as_bytes raw) = Inr bs"
    by (auto simp: id_parse_def split: if_splits)
  with hex_pairs_Inr [of "as_bytes raw" bs] have "raw = id_hex bs"
    by (simp add: ID_CHARS_def)
  moreover from this \<open>length raw = ID_CHARS\<close> have "length bs = ID_BYTES"
    by (simp add: ID_CHARS_def)
  ultimately show "length bs = ID_BYTES \<and> raw = id_hex bs" by blast
next
  assume "length bs = ID_BYTES \<and> raw = id_hex bs"
  then show "id_parse what raw = Inr bs"
    by (simp add: id_parse_def ID_CHARS_def hex_pairs_id_hex)
qed

interpretation entry: codec entry_hex "\<lambda>raw. ok (entry_parse raw)" entry_ok
  by unfold_locales
    (auto simp: entry_parse_def entry_hex_def entry_ok_def bind_res_eq_Inr id_parse_iff)

interpretation project: codec project_hex "\<lambda>raw. ok (project_parse raw)" project_ok
  by unfold_locales
    (auto simp: project_parse_def project_hex_def project_ok_def bind_res_eq_Inr id_parse_iff)

lemma entry_generate_ok: "entry_generate w = (Inr e, w') \<Longrightarrow> entry_ok e"
  by (auto simp: entry_generate_def id_generate_def entry_ok_def io_eqs dest!: length_random_fill)

lemma project_generate_ok: "project_generate w = (Inr p, w') \<Longrightarrow> project_ok p"
  by (auto simp: project_generate_def id_generate_def project_ok_def io_eqs dest!: length_random_fill)

lemma HEX_segment: "n < 16 \<Longrightarrow> segment_char (HEX ! n)"
proof -
  have "list_all segment_char HEX" by (simp add: HEX_def segment_char_def Let_def)
  then show "n < 16 \<Longrightarrow> ?thesis" by (simp add: list_all_length)
qed

lemma id_hex_segment: "list_all segment_char (id_hex bs)"
  by (induction bs) (simp_all add: HEX_segment nibbles_below)

text \<open>An identifier is always a usable path segment, so its slot always exists.\<close>

lemma entry_resource_eq:
  assumes "entry_ok e"
  shows "entry_resource e =
    Inr \<lparr>r_path = ''env/'' @ entry_hex e, r_aad_label = ''env'', r_discriminator = Some (entry_hex e)\<rparr>"
proof -
  have "length (entry_hex e) = 32" using assms by (simp add: entry_hex_def entry_ok_def ID_BYTES_def)
  moreover from this have "entry_hex e \<noteq> []" by (metis list.size(3) zero_neq_numeral)
  moreover have "list_all segment_char (entry_hex e)" by (simp add: entry_hex_def id_hex_segment)
  ultimately have "validated_segment (entry_hex e) = Inr (entry_hex e)"
    by (simp add: validated_segment_def)
  then show ?thesis by (simp add: entry_resource_def resource_env_entry_def)
qed

text \<open>Identifiers are read strictly: a string is accepted exactly when it is the lower-case
  rendering of sixteen bytes, and then it is that identifier. So no two spellings name one entry,
  and what was rendered always reads back.\<close>

theorem entry_parse_iff: "entry_parse raw = Inr e \<longleftrightarrow> entry_ok e \<and> raw = entry_hex e"
  using entry.dec_iff [of raw e] by simp


section \<open>Blocks are whole pages and read back\<close>

lemma div_ceil_bounds:
  assumes "0 < b"
  shows "a \<le> div_ceil a b * b" "div_ceil a b * b < a + b"
proof -
  define q r where "q = a div b" and "r = a mod b"
  have a: "a = q * b + r" and m: "r < b" using assms by (simp_all add: q_def r_def)
  have c: "div_ceil a b = (if r = 0 then q else q + 1)" by (simp add: div_ceil_def q_def r_def)
  show "a \<le> div_ceil a b * b" "div_ceil a b * b < a + b"
    using m unfolding c by (simp_all add: a add_mult_distrib)
qed

lemma div_ceil_mono:
  assumes "0 < b" and "a \<le> c * b"
  shows "div_ceil a b \<le> c"
proof (rule ccontr)
  assume "\<not> div_ceil a b \<le> c"
  then have "Suc c * b \<le> div_ceil a b * b" by (intro mult_le_mono1) simp
  with div_ceil_bounds(2) [OF assms(1), of a] assms(2) show False by simp
qed

text \<open>What a block is: the header, the payload and zeroes up to a page.\<close>

lemma pack_Inr:
  assumes "pack seq payload = Inr block"
  obtains n where "length payload \<le> MAX_PAYLOAD_BYTES"
    and "block = u64_to_le_bytes seq @ u32_to_le_bytes (word_of_nat (length payload)) @ payload @ replicate n 0"
    and "length block = div_ceil (HEADER_BYTES + length payload) PAD_BLOCK * PAD_BLOCK"
proof -
  from assms have len: "length payload \<le> MAX_PAYLOAD_BYTES"
    and block: "block = (u64_to_le_bytes seq @ u32_to_le_bytes (word_of_nat (length payload)) @ payload) @
      replicate (div_ceil (HEADER_BYTES + length payload) PAD_BLOCK * PAD_BLOCK - (12 + length payload)) 0"
    by (auto simp: pack_def Let_def not_less split: if_splits)
  moreover have "12 + length payload \<le> div_ceil (HEADER_BYTES + length payload) PAD_BLOCK * PAD_BLOCK"
    using div_ceil_bounds(1) [of PAD_BLOCK "HEADER_BYTES + length payload"]
    by (simp add: PAD_BLOCK_def HEADER_BYTES_def)
  ultimately show thesis by (intro that [OF len]) simp_all
qed

lemma pack_total: "length payload \<le> MAX_PAYLOAD_BYTES \<Longrightarrow> \<exists>block. pack seq payload = Inr block"
  by (simp add: pack_def Let_def)

lemma unpack_pack:
  assumes "pack seq payload = Inr block"
  shows "unpack block = Inr (seq, payload)"
proof -
  from assms obtain n where len: "length payload \<le> MAX_PAYLOAD_BYTES"
    and block: "block = u64_to_le_bytes seq @ u32_to_le_bytes (word_of_nat (length payload)) @ payload @ replicate n 0"
    and total: "length block = div_ceil (HEADER_BYTES + length payload) PAD_BLOCK * PAD_BLOCK"
    by (rule pack_Inr)
  have "0 < div_ceil (HEADER_BYTES + length payload) PAD_BLOCK"
    using div_ceil_bounds(1) [of PAD_BLOCK "HEADER_BYTES + length payload"]
    by (intro Nat.gr0I) (simp add: PAD_BLOCK_def HEADER_BYTES_def)
  then have whole: "PAD_BLOCK \<le> length block" "length block mod PAD_BLOCK = 0"
    unfolding total by simp_all
  have "unat (u32_from_le_bytes (drop 8 (take HEADER_BYTES block))) = length payload"
    using len by (simp add: block HEADER_BYTES_def MAX_PAYLOAD_BYTES_def unat_of_nat)
  with whole show ?thesis
    by (simp add: unpack_def Let_def) (simp add: block HEADER_BYTES_def list_ex_iff)
qed

text \<open>A sealed block is always a whole number of 4096-byte pages, at most 65 of them, so its
  length tells the size of the file only up to a page: it never exceeds the header and payload by a
  page or more, and any two files within the same page count give blocks of the same length. Exactly
  the payloads over the limit are refused, and every block reads back to the sequence number and
  payload it was made from.\<close>

theorem pack_bounds:
  "(length payload > MAX_PAYLOAD_BYTES \<longleftrightarrow>
      pack seq payload = Inl (EnvTooLarge (length payload) MAX_PAYLOAD_BYTES)) \<and>
   (pack seq payload = Inr block \<longrightarrow>
      length block mod 4096 = 0 \<and> 12 + length payload \<le> length block \<and>
      length block < 12 + length payload + 4096 \<and> length block \<le> 65 * 4096 \<and>
      unpack block = Inr (seq, payload))"
proof (intro conjI impI)
  show "length payload > MAX_PAYLOAD_BYTES \<longleftrightarrow>
      pack seq payload = Inl (EnvTooLarge (length payload) MAX_PAYLOAD_BYTES)"
    by (auto simp: pack_def Let_def)
next
  assume ok: "pack seq payload = Inr block"
  then have len: "length payload \<le> 262144"
    and total: "length block = div_ceil (12 + length payload) 4096 * 4096"
    by (auto elim!: pack_Inr simp: MAX_PAYLOAD_BYTES_def HEADER_BYTES_def PAD_BLOCK_def)
  show "length block mod 4096 = 0" by (simp add: total)
  show "12 + length payload \<le> length block" "length block < 12 + length payload + 4096"
    unfolding total using div_ceil_bounds [of 4096 "12 + length payload"] by simp_all
  have "div_ceil (12 + length payload) 4096 \<le> 65" using len by (intro div_ceil_mono) simp_all
  then show "length block \<le> 65 * 4096" unfolding total by simp
  show "unpack block = Inr (seq, payload)" using ok by (rule unpack_pack)
qed

theorem pack_bounds_witness:
  "\<exists>block. pack 7 [1, 2] = Inr block \<and> length block = 4096 \<and> unpack block = Inr (7, [1, 2])"
proof -
  obtain block where ok: "pack 7 [1, 2] = Inr block"
    using pack_total [of "[1, 2]" 7] by (auto simp: MAX_PAYLOAD_BYTES_def)
  note * = pack_bounds [of "[1, 2]" 7 block, THEN conjunct2, rule_format, OF ok]
  then have "4096 dvd length block" by (simp add: mod_eq_0_iff_dvd)
  then obtain n where n: "length block = 4096 * n" by (rule dvdE)
  from * have "12 + 2 \<le> length block" "length block < 12 + 2 + 4096" by simp_all
  with n have "0 < n" "n < 2" by simp_all
  then have "n = 1" by linarith
  with n have "length block = 4096" by simp
  with * ok show ?thesis by blast
qed

section \<open>Sealing, opening and the refusal of older blobs\<close>

lemma as_dek_ok [simp]: "dek_ok (as_dek k) \<longleftrightarrow> env_dek_ok k"
  by (simp add: dek_ok_def env_dek_ok_def as_dek_def)

lemma env_kid_as_dek: "kid P (as_dek k) = env_kid P k"
  by (simp add: kid_def env_kid_def as_dek_def)

lemma env_seal_Inr:
  "env_seal P k u r seq payload w = (Inr e, w') \<longleftrightarrow>
     (\<exists>block. pack seq payload = Inr block \<and> encrypt_at P (as_dek k) u r block w = (Inr e, w'))"
  by (auto simp: env_seal_def io_eqs)

lemma env_open_seal:
  assumes "env_seal P k u r seq payload w = (Inr e, w')"
    and "gcm_ok P" "sha256_ok P" "base64_ok P" "env_dek_ok k"
  shows "env_open P k u r seen e =
    (case seen of Some s \<Rightarrow> if seq < s then Inl (EnvRollback s seq) else Inr \<lparr>op_seq = seq, op_payload = payload\<rparr>
     | None \<Rightarrow> Inr \<lparr>op_seq = seq, op_payload = payload\<rparr>)"
proof -
  from assms(1) obtain block where p: "pack seq payload = Inr block"
    and enc: "encrypt_at P (as_dek k) u r block w = (Inr e, w')"
    by (auto simp: env_seal_Inr)
  have "decrypt_at P (as_dek k) u r e = Inr block"
    by (rule decrypt_encrypt [OF enc assms(2-4)]) (simp add: assms(5))
  with unpack_pack [OF p] show ?thesis by (simp add: env_open_def)
qed

lemma env_open_fresh: "env_open P k u r (Some s) e = Inr x \<Longrightarrow> s \<le> op_seq x"
  by (auto simp: env_open_def bind_res_eq_Inr split: if_splits prod.splits)

lemma env_open_seen:
  "env_open P k u r (Some s) e =
     bind_res (env_open P k u r None e) (\<lambda>x. if op_seq x < s then Inl (EnvRollback s (op_seq x)) else Inr x)"
  by (cases "decrypt_at P (as_dek k) u r e"; cases "unpack (projr (decrypt_at P (as_dek k) u r e))")
    (auto simp: env_open_def)

lemma unwrap_wrap:
  assumes "wrap_key P d u k w = (Inr e, w')"
    and "gcm_ok P" "sha256_ok P" "base64_ok P" "dek_ok d" "env_dek_ok k"
  shows "unwrap_key P d u e = Inr k"
proof -
  from assms(1) obtain r where r: "key_resource = Inr r"
    and enc: "encrypt_at P d u r (ek_bytes k) w = (Inr e, w')"
    by (auto simp: wrap_key_def io_eqs)
  from decrypt_encrypt [OF enc assms(2-5)] assms(6) show ?thesis
    unfolding unwrap_key_def r by (simp add: env_dek_ok_def)
qed

lemma env_wire_blob:
  assumes "env_wire P k u r seq payload w = (Inr wire, w')"
  obtains e where "env_seal P k u r seq payload w = (Inr e, w')" "to_blob P e = Inr (wire_blob wire)"
    "json_pretty P (envelope_json e) = Inr (wire_json wire)"
  using assms by (auto simp: env_wire_def io_eqs map_err_eq_Inl elim!: that)

text \<open>What was built for the wire is what opens: through the blob and back.\<close>

lemma env_wire_opens:
  assumes "env_wire P k u r seq payload w = (Inr wire, w')"
    and "gcm_ok P" "sha256_ok P" "base64_ok P" "json_ok P" "env_dek_ok k"
  obtains e where "from_blob P (wire_blob wire) = Inr e"
    and "env_open P k u r None e = Inr \<lparr>op_seq = seq, op_payload = payload\<rparr>"
proof -
  from assms(1) obtain e where e: "env_seal P k u r seq payload w = (Inr e, w')"
    "to_blob P e = Inr (wire_blob wire)"
    by (rule env_wire_blob)
  from blob_roundtrip [OF assms(5,4) e(2)] env_open_seal [OF e(1) assms(2-4,6), of None]
  show thesis by (intro that [of e]) simp_all
qed

lemma frame_env_crypto [frame_intros]:
  "frame net (encrypt_at P d u r p)" "frame files (encrypt_at P d u r p)" "frame keychain (encrypt_at P d u r p)"
  "frame net (env_seal P k u r seq pl)" "frame files (env_seal P k u r seq pl)"
  "frame keychain (env_seal P k u r seq pl)"
  "frame net (env_wire P k u r seq pl)" "frame files (env_wire P k u r seq pl)"
  "frame keychain (env_wire P k u r seq pl)"
  "frame net (wrap_key P d u k)" "frame files (wrap_key P d u k)" "frame keychain (wrap_key P d u k)"
  unfolding encrypt_at_def env_wire_def env_seal_def wrap_key_def by (intro frame_intros)+

end
