(* ===== verification/Total_Reference.thy ===== *)
theory Total_Reference
  imports Env_Crypto
begin

text \<open>
  A second concrete choice of the third-party functions, in which serialising and sealing never
  fail: JSON as a prefix code whose strings are hexadecimal, so that every value has an ASCII text
  that reads back. A sealed environment file is at least a page long, and running the model on one
  step by step is out of reach of the simplifier; with this instance a run is followed by the
  lemmas below instead. Nothing here models code of the repository.
\<close>

section \<open>Functions that never refuse\<close>

text \<open>What \<^verbatim>\<open>serde_json\<close> and \<^verbatim>\<open>ring\<close> document of the values used here: a value whose map keys are
  strings serialises, and sealing fails only on lengths far beyond any of these.\<close>

definition json_total :: "prims \<Rightarrow> bool" where
  "json_total P \<longleftrightarrow> (\<forall>j. (\<exists>s. json_text P j = Inr s) \<and> (\<exists>s. json_pretty P j = Inr s))"

definition gcm_total :: "prims \<Rightarrow> bool" where
  "gcm_total P \<longleftrightarrow> (\<forall>k n a p. \<exists>c. gcm_seal P k n a p = Some c)"

lemma json_totalE:
  assumes "json_total P"
  obtains s where "json_text P j = Inr s"
  using assms by (auto simp: json_total_def)

lemma json_prettyE:
  assumes "json_total P"
  obtains s where "json_pretty P j = Inr s"
  using assms by (auto simp: json_total_def)

section \<open>A prefix code for JSON\<close>

definition code_str :: "string \<Rightarrow> string" where
  "code_str s = id_hex (as_bytes s) @ ''.''"

fun code_print :: "json \<Rightarrow> string" where
  "code_print JNull = ''n''"
| "code_print (JBool b) = (if b then ''t'' else ''f'')"
| "code_print (JNum i) = (if i < 0 then ''-'' else ''+'') @ nat_str (nat (abs i)) @ ''.''"
| "code_print (JFloat s) = ''F'' @ code_str s"
| "code_print (JStr s) = ''S'' @ code_str s"
| "code_print (JArr vs) = ''A'' @ concat (map (\<lambda>v. '','' @ code_print v) vs) @ ''.''"
| "code_print (JObj fs) = ''O'' @ concat (map (\<lambda>(k, v). '','' @ code_str k @ code_print v) fs) @ ''.''"

definition until_dot :: "string \<Rightarrow> string \<times> string" where
  "until_dot s = (takeWhile (\<lambda>c. c \<noteq> CHR ''.'') s, drop 1 (dropWhile (\<lambda>c. c \<noteq> CHR ''.'') s))"

definition code_unstr :: "string \<Rightarrow> (string \<times> string) option" where
  "code_unstr s =
     (case until_dot s of (h, r) \<Rightarrow>
        (case hex_pairs (as_bytes h) of Inr bs \<Rightarrow> Some (string_of_bytes bs, r) | Inl _ \<Rightarrow> None))"

fun code_value :: "nat \<Rightarrow> string \<Rightarrow> (json \<times> string) option"
  and code_items :: "nat \<Rightarrow> string \<Rightarrow> (json list \<times> string) option"
  and code_fields :: "nat \<Rightarrow> string \<Rightarrow> ((string \<times> json) list \<times> string) option" where
  "code_value 0 s = None"
| "code_value (Suc f) s =
     (case s of
        [] \<Rightarrow> None
      | c # r \<Rightarrow>
          if c = CHR ''n'' then Some (JNull, r)
          else if c = CHR ''t'' then Some (JBool True, r)
          else if c = CHR ''f'' then Some (JBool False, r)
          else if c = CHR ''+'' then (case until_dot r of (d, r) \<Rightarrow> Some (JNum (int (str_nat d)), r))
          else if c = CHR ''-'' then (case until_dot r of (d, r) \<Rightarrow> Some (JNum (- int (str_nat d)), r))
          else if c = CHR ''F'' then map_option (\<lambda>(t, r). (JFloat t, r)) (code_unstr r)
          else if c = CHR ''S'' then map_option (\<lambda>(t, r). (JStr t, r)) (code_unstr r)
          else if c = CHR ''A'' then map_option (\<lambda>(vs, r). (JArr vs, r)) (code_items f r)
          else if c = CHR ''O'' then map_option (\<lambda>(fs, r). (JObj fs, r)) (code_fields f r)
          else None)"
| "code_items 0 s = None"
| "code_items (Suc f) s =
     (case s of
        [] \<Rightarrow> None
      | c # r \<Rightarrow>
          if c = CHR ''.'' then Some ([], r)
          else (case code_value f r of
                  None \<Rightarrow> None
                | Some (v, r) \<Rightarrow> map_option (\<lambda>(vs, r). (v # vs, r)) (code_items f r)))"
| "code_fields 0 s = None"
| "code_fields (Suc f) s =
     (case s of
        [] \<Rightarrow> None
      | c # r \<Rightarrow>
          if c = CHR ''.'' then Some ([], r)
          else (case code_unstr r of
                  None \<Rightarrow> None
                | Some (k, r) \<Rightarrow>
                    (case code_value f r of
                       None \<Rightarrow> None
                     | Some (v, r) \<Rightarrow> map_option (\<lambda>(fs, r). ((k, v) # fs, r)) (code_fields f r))))"

definition code_read :: "string \<Rightarrow> string + json" where
  "code_read s = (case code_value (length s) s of Some (j, []) \<Rightarrow> Inr j | _ \<Rightarrow> Inl ''expected value'')"

definition total_prims :: prims where
  "total_prims = ref_prims\<lparr>json_text := \<lambda>j. Inr (code_print j), json_pretty := \<lambda>j. Inr (code_print j),
     json_read := code_read\<rparr>"

section \<open>It reads back what it wrote\<close>

lemma until_dot_append: "CHR ''.'' \<notin> set d \<Longrightarrow> until_dot (d @ CHR ''.'' # r) = (d, r)"
  by (induction d) (auto simp: until_dot_def)

lemma HEX_no_dot: "n < 16 \<Longrightarrow> HEX ! n \<noteq> CHR ''.'' \<and> of_char (HEX ! n) < (128 :: nat)"
proof -
  have "list_all (\<lambda>c. c \<noteq> CHR ''.'' \<and> of_char c < (128 :: nat)) HEX" by (simp add: HEX_def)
  then show "n < 16 \<Longrightarrow> ?thesis" by (simp add: list_all_length)
qed

lemma id_hex_no_dot: "CHR ''.'' \<notin> set (id_hex bs)"
proof (induction bs)
  case (Cons b bs)
  then show ?case using HEX_no_dot nibbles_below by (auto dest: sym)
qed simp

lemma nat_str_no_dot: "CHR ''.'' \<notin> set (nat_str n)"
  using nat_str_digits [of "CHR ''.''" n] by auto

lemma code_unstr_str: "code_unstr (code_str s @ r) = Some (s, r)"
  by (simp add: code_unstr_def code_str_def until_dot_append id_hex_no_dot hex_pairs_id_hex)

lemma code_items_print:
  assumes "\<And>v f r. v \<in> set vs \<Longrightarrow> length (code_print v) \<le> f \<Longrightarrow> code_value f (code_print v @ r) = Some (v, r)"
    and "Suc (length (concat (map (\<lambda>v. '','' @ code_print v) vs))) \<le> f"
  shows "code_items f (concat (map (\<lambda>v. '','' @ code_print v) vs) @ CHR ''.'' # r) = Some (vs, r)"
  using assms
proof (induction vs arbitrary: f)
  case Nil
  then show ?case by (cases f) simp_all
next
  case (Cons v vs)
  from Cons.prems(2) obtain g where f: "f = Suc g" by (cases f) auto
  have "code_value g (code_print v @ s) = Some (v, s)" for s
    using Cons.prems f by auto
  moreover have "code_items g (concat (map (\<lambda>v. '','' @ code_print v) vs) @ CHR ''.'' # r) = Some (vs, r)"
    using Cons.prems f by (intro Cons.IH) auto
  ultimately show ?case by (simp add: f)
qed

lemma code_fields_print:
  assumes "\<And>k v f r. (k, v) \<in> set fs \<Longrightarrow> length (code_print v) \<le> f \<Longrightarrow>
      code_value f (code_print v @ r) = Some (v, r)"
    and "Suc (length (concat (map (\<lambda>(k, v). '','' @ code_str k @ code_print v) fs))) \<le> f"
  shows "code_fields f (concat (map (\<lambda>(k, v). '','' @ code_str k @ code_print v) fs) @ CHR ''.'' # r) =
    Some (fs, r)"
  using assms
proof (induction fs arbitrary: f)
  case Nil
  then show ?case by (cases f) simp_all
next
  case (Cons kv fs)
  obtain k v where kv: "kv = (k, v)" by force
  from Cons.prems(2) obtain g where f: "f = Suc g" by (cases f) auto
  have "code_value g (code_print v @ s) = Some (v, s)" for s
    using Cons.prems(1) [of k v g s] Cons.prems(2) f kv by auto
  moreover have "code_fields g (concat (map (\<lambda>(k, v). '','' @ code_str k @ code_print v) fs) @ CHR ''.'' # r) =
      Some (fs, r)"
    using Cons.prems f kv by (intro Cons.IH) auto
  ultimately show ?case by (simp add: f kv code_unstr_str)
qed

lemma code_value_print: "length (code_print j) \<le> f \<Longrightarrow> code_value f (code_print j @ r) = Some (j, r)"
proof (induction j arbitrary: f r)
  case (JNum i)
  then show ?case
    by (cases f) (auto simp: until_dot_append nat_str_no_dot str_nat_nat_str simp del: str_nat.simps)
next
  case (JArr vs)
  from JArr.prems obtain g where f: "f = Suc g" by (cases f) auto
  have "code_items g (concat (map (\<lambda>v. '','' @ code_print v) vs) @ CHR ''.'' # r) = Some (vs, r)"
    using JArr f by (intro code_items_print) auto
  then show ?case by (simp add: f)
next
  case (JObj fs)
  from JObj.prems obtain g where f: "f = Suc g" by (cases f) auto
  have "code_fields g (concat (map (\<lambda>(k, v). '','' @ code_str k @ code_print v) fs) @ CHR ''.'' # r) = Some (fs, r)"
    using JObj.prems f by (intro code_fields_print JObj.IH) (auto intro: prod_set_simps)
  then show ?case by (simp add: f)
qed (auto simp: code_unstr_str dest!: Suc_le_D)

lemma code_read_print: "code_read (code_print j) = Inr j"
  using code_value_print [of j "length (code_print j)" "[]"] by (simp add: code_read_def)

lemma id_hex_ascii: "ascii (id_hex bs)"
proof (induction bs)
  case (Cons b bs)
  then show ?case using HEX_no_dot nibbles_below by (auto simp: ascii_def)
qed (simp add: ascii_def)

lemma nat_str_ascii: "ascii (nat_str n)"
  using nat_str_digits by (fastforce simp: ascii_def)

lemma ascii_concat: "(\<And>s. s \<in> set ss \<Longrightarrow> ascii s) \<Longrightarrow> ascii (concat ss)"
  by (auto simp: ascii_def)

lemma code_str_ascii: "ascii (code_str s)"
  using id_hex_ascii [of "as_bytes s"] by (simp add: code_str_def) (simp add: ascii_def)

lemma code_print_ascii: "ascii (code_print j)"
proof (induction j)
  case (JArr vs)
  then have "ascii (concat (map (\<lambda>v. '','' @ code_print v) vs))"
    by (intro ascii_concat) (auto simp: ascii_def)
  then show ?case by (simp add: ascii_def)
next
  case (JObj fs)
  then have "ascii (concat (map (\<lambda>(k, v). '','' @ code_str k @ code_print v) fs))"
    using code_str_ascii by (intro ascii_concat) (fastforce simp: ascii_def)
  then show ?case by (simp add: ascii_def)
qed (use code_str_ascii nat_str_ascii in \<open>auto simp: ascii_def\<close>)

lemma total_json_ok [simp]: "json_ok total_prims"
  by (simp add: json_ok_def total_prims_def code_read_print utf8_ok_ascii code_print_ascii)

lemma total_json_total [simp]: "json_total total_prims"
  by (simp add: json_total_def total_prims_def)

lemma total_gcm_total [simp]: "gcm_total total_prims"
  by (simp add: gcm_total_def total_prims_def ref_prims_def ref_seal_def)

lemma total_gcm_ok [simp]: "gcm_ok total_prims"
  using ref_gcm_ok by (simp add: gcm_ok_def total_prims_def)

lemma total_sha256_ok [simp]: "sha256_ok total_prims"
  using ref_sha256_ok by (simp add: sha256_ok_def total_prims_def)

lemma total_base64_ok [simp]: "base64_ok total_prims"
  using ref_base64_ok by (simp add: base64_ok_def total_prims_def)

section \<open>Sealing succeeds when randomness does\<close>

definition calm :: "'w world \<Rightarrow> bool" where
  "calm w \<longleftrightarrow> (\<forall>t. fs_fault w t = None \<and> kc_fault w t = None \<and> \<not> random_fails w t)"

lemma calm_quiet [simp]: "calm (quiet_world n)"
  by (simp add: calm_def quiet_world_def)

lemma calm_simps [simp]:
  "calm (advance w) = calm w" "calm (set_file p bs w) = calm w" "calm (unset_file p w) = calm w"
  "calm (w\<lparr>net := n\<rparr>) = calm w" "calm (w\<lparr>keychain := kc\<rparr>) = calm w"
  by (simp_all add: calm_def advance_def set_file_def unset_file_def)

lemma encrypt_at_calm:
  assumes "calm w" and "gcm_total P" "dek_ok d"
  shows "\<exists>e. encrypt_at P d u r p w = (Inr e, advance w)"
proof -
  obtain nonce where "random_fill NONCE_LEN w = (Inr nonce, advance w)"
    using assms(1) by (simp add: random_fill_def calm_def)
  moreover obtain c where "gcm_seal P (dek_bytes d) nonce (aad u r ENVELOPE_VERSION (kid P d)) p = Some c"
    using assms(2) unfolding gcm_total_def by blast
  ultimately show ?thesis
    using assms(3) by (simp add: encrypt_at_def io_simps)
qed

lemma env_wire_calm:
  assumes "calm w" and "gcm_total P" "json_total P" "env_dek_ok k" and "length payload \<le> MAX_PAYLOAD_BYTES"
  shows "\<exists>wire. env_wire P k u r seq payload w = (Inr wire, advance w)"
proof -
  obtain block where p: "pack seq payload = Inr block" using pack_total assms(5) by blast
  obtain e where e: "encrypt_at P (as_dek k) u r block w = (Inr e, advance w)"
    using encrypt_at_calm assms(1,2,4) as_dek_ok by blast
  obtain s t where "json_pretty P (envelope_json e) = Inr s" "json_text P (envelope_json e) = Inr t"
    using assms(3) json_totalE json_prettyE by metis
  with p e show ?thesis by (simp add: env_wire_def env_seal_def to_blob_def io_simps)
qed

end
