(* ===== verification/Secret_File.thy ===== *)
theory Secret_File
  imports Total_Reference "HOL-Library.Multiset"
begin

text \<open>
  \<^verbatim>\<open>util/src/fs.rs\<close> (the atomic write of a secret) and \<^verbatim>\<open>zode_env_sync/src/secret_file.rs\<close>
  (backups outside any project, their eviction, and where a recorded path may be written). The
  results hold for every schedule of file-system failures: the target is the old content or the new
  and nothing between, no other file is touched, and a recorded path never leaves its root.
\<close>

section \<open>Writing a secret\<close>

text \<open>The flag \<^verbatim>\<open>created\<close> the helpers set through a reference rides beside the world.\<close>

definition on_world :: "('w world, 'e, 'a) io \<Rightarrow> ('w world \<times> bool, 'e, 'a) io" where
  "on_world m = (\<lambda>(w, created). case m w of (r, w') \<Rightarrow> (r, (w', created)))"

definition set_created :: "('w world \<times> bool, 'e, unit) io" where
  "set_created = (\<lambda>(w, _). (Inr (), (w, True)))"

definition write_durably :: "path \<Rightarrow> bytes \<Rightarrow> ('w world \<times> bool, io_error, unit) io" where
  "write_durably temporary contents =
     io_bind (on_world (fs_create_new temporary)) (\<lambda>_.
     io_bind set_created (\<lambda>_.
     io_bind (on_world (fs_write temporary contents)) (\<lambda>_.
     on_world fs_sync)))"

definition write_then_rename :: "path \<Rightarrow> path \<Rightarrow> bytes \<Rightarrow> ('w world \<times> bool, io_error, unit) io" where
  "write_then_rename temporary p contents =
     io_bind (write_durably temporary contents) (\<lambda>_. on_world (fs_rename temporary p))"

definition write_secret_through :: "path \<Rightarrow> path \<Rightarrow> bytes \<Rightarrow> ('w world, io_error, unit) io" where
  "write_secret_through temporary p contents = (\<lambda>w.
     case write_then_rename temporary p contents (w, False) of
       (Inl e, (w', created)) \<Rightarrow> (Inl e, if created then snd (fs_remove temporary w') else w')
     | (Inr _, (w', created)) \<Rightarrow> (Inr (), w'))"

definition temporary_name :: "string \<Rightarrow> ('w world, 'e, string) io" where
  "temporary_name name = io_bind now_nanos (\<lambda>nanos. \<lambda>w.
     (Inr (''.'' @ name @ ''.'' @ nat_str (process_id w) @ ''.'' @ nat_str nanos @ ''.tmp''), w))"

definition secret_name :: "path \<Rightarrow> string" where
  "secret_name p = (case file_name p of Some n \<Rightarrow> if utf8_ok n then n else ''secret'' | None \<Rightarrow> ''secret'')"

definition write_secret_atomic :: "path \<Rightarrow> bytes \<Rightarrow> ('w world, io_error, unit) io" where
  "write_secret_atomic p contents =
     (case path_parent p of
        None \<Rightarrow> io_err (IoError InvalidInput ''the target path has no directory'')
      | Some parent \<Rightarrow>
          io_bind (fs_create_dir_all parent) (\<lambda>_.
          io_bind (temporary_name (secret_name p)) (\<lambda>name.
          write_secret_through (path_join parent [Normal name]) p contents)))"

section \<open>Backups\<close>

definition BACKUPS_KEPT :: nat where
  "BACKUPS_KEPT = 10"

text \<open>\<^verbatim>\<open>{stamp:020}\<close>\<close>

definition zero_padded :: "nat \<Rightarrow> nat \<Rightarrow> string" where
  "zero_padded width n = replicate (width - length (nat_str n)) CHR ''0'' @ nat_str n"

text \<open>\<^verbatim>\<open>str::parse::<u128>\<close>: an optional plus sign and at least one decimal digit, within range.\<close>

definition is_digit :: "char \<Rightarrow> bool" where
  "is_digit c \<longleftrightarrow> c \<in> set ''0123456789''"

definition parse_u128 :: "string \<Rightarrow> nat option" where
  "parse_u128 s =
     (let ds = (case s of c # r \<Rightarrow> if c = CHR ''+'' then r else s | [] \<Rightarrow> [])
      in if ds = [] \<or> \<not> list_all is_digit ds then None
         else if int (str_nat ds) < 2 ^ 128 then Some (str_nat ds) else None)"

definition backup_stamp :: "path \<Rightarrow> (nat \<times> path) option" where
  "backup_stamp p =
     (case file_name p of
        None \<Rightarrow> None
      | Some n \<Rightarrow> if utf8_ok n then map_option (\<lambda>stamp. (stamp, p)) (parse_u128 n) else None)"

fun remove_files :: "path list \<Rightarrow> ('w world, io_error, unit) io" where
  "remove_files [] = io_ok ()"
| "remove_files (p # ps) = io_bind (fs_remove p) (\<lambda>_. remove_files ps)"

text \<open>The sort is by descending stamp; names with equal stamps, which this code never writes, keep
  the order of the listing.\<close>

definition newest_first :: "(nat \<times> path) list \<Rightarrow> (nat \<times> path) list" where
  "newest_first stamps = sort_key (\<lambda>s. - int (fst s)) stamps"

definition evict_old_backups :: "path \<Rightarrow> ('w world, io_error, unit) io" where
  "evict_old_backups directory =
     io_bind (fs_read_dir directory) (\<lambda>entries.
     let stamps = List.map_filter backup_stamp entries in
     if length stamps \<le> BACKUPS_KEPT then io_ok ()
     else remove_files (map snd (drop BACKUPS_KEPT (newest_first stamps))))"

definition back_up_secret :: "path \<Rightarrow> entry_id \<Rightarrow> bytes \<Rightarrow> ('w world, io_error, path option) io" where
  "back_up_secret backups_root entry current =
     (let directory = path_join backups_root [Normal (entry_hex entry)] in
      io_bind now_nanos (\<lambda>nanos.
      let target = path_join directory [Normal (zero_padded 20 (nanos div 1000000))] in
      io_bind (write_secret_atomic target current) (\<lambda>_.
      io_bind (evict_old_backups directory) (\<lambda>_.
      io_ok (Some target)))))"

section \<open>Where an entry may be written\<close>

definition names_a_file_inside :: "string \<Rightarrow> bool" where
  "names_a_file_inside relative \<longleftrightarrow>
     relative \<noteq> [] \<and> \<not> is_absolute (components relative) \<and>
     CHR '':'' \<notin> set relative \<and> \<not> starts_with [CHR 0x5C] relative \<and>
     list_all is_normal (components relative)"

text \<open>The refused path is quoted in the message; the escapes \<^verbatim>\<open>{:?}\<close> would add to it are not
  rendered.\<close>

definition resolve_within :: "path \<Rightarrow> string \<Rightarrow> io_error + path" where
  "resolve_within worktree_root relative =
     (if \<not> names_a_file_inside relative
      then Inl (IoError InvalidInput
             ([CHR 0x22] @ relative @ [CHR 0x22] @ '' does not name a file inside this project''))
      else Inr (path_join worktree_root (components relative)))"

section \<open>What the atomic write does\<close>

lemma frame_on_world: "frame v m \<Longrightarrow> frame (\<lambda>s. v (fst s)) (on_world m)"
  by (auto simp: frame_def on_world_def split: prod.splits) (metis snd_conv)

lemma frame_set_created: "frame (\<lambda>s. v (fst s)) set_created"
  by (auto simp: frame_def set_created_def)

lemma frame_write_through:
  fixes v :: "'w world \<Rightarrow> 'v"
  assumes "frame v (fs_create_new t)" "frame v (fs_write t bs)" "frame v fs_sync" "frame v (fs_rename t p)"
    "frame v (fs_remove t)"
  shows "frame v (write_secret_through t p bs)"
proof -
  have run: "frame (\<lambda>s. v (fst s)) (write_then_rename t p bs)"
    unfolding write_then_rename_def write_durably_def
    by (intro frame_intros frame_on_world frame_set_created assms)
  show ?thesis
    unfolding frame_def write_secret_through_def
  proof
    fix w
    obtain r c and w' :: "'w world" where x: "write_then_rename t p bs (w, False) = (r, (w', c))" by (metis prod.exhaust)
    have "v w' = v w" using frameD [OF run x] by simp
    moreover have "v (snd (fs_remove t w')) = v w'" using assms(5) by (simp add: frame_def)
    ultimately show "v (snd (case write_then_rename t p bs (w, False) of
         (Inl e, w', created) \<Rightarrow> (Inl e, if created then snd (fs_remove t w') else w')
       | (Inr _, w', created) \<Rightarrow> (Inr (), w'))) = v w"
      using x by (cases r) simp_all
  qed
qed

lemma frame_temporary_name [frame_intros]:
  "frame net (temporary_name n)" "frame keychain (temporary_name n)" "frame fs_fault (temporary_name n)"
  by (simp_all add: frame_def temporary_name_def io_bind_apply now_nanos_def)

lemma frame_write_secret [frame_intros]:
  "frame net (write_secret_atomic p bs)" "frame keychain (write_secret_atomic p bs)"
  "frame fs_fault (write_secret_atomic p bs)"
  unfolding write_secret_atomic_def by (intro frame_intros frame_write_through)+

lemma write_through_effect:
  assumes "write_secret_through t p bs w = (r, w')" and "t \<noteq> p"
  shows "(case r of
      Inr _ \<Rightarrow> file_at p w' = Some bs \<and> file_at t w = None \<and> file_at t w' = None \<and>
        (\<forall>q. q \<noteq> p \<longrightarrow> q \<noteq> t \<longrightarrow> file_at q w' = file_at q w)
    | Inl _ \<Rightarrow> (\<forall>q. q \<noteq> t \<longrightarrow> file_at q w' = file_at q w) \<and> (file_at t w \<noteq> None \<longrightarrow> file_at t w' = file_at t w))"
  using assms
  unfolding write_secret_through_def write_then_rename_def write_durably_def on_world_def set_created_def
    io_bind_apply fs_defs
  by (auto split: option.splits sum.splits prod.splits fault.splits if_splits)

lemma temporary_name_neq:
  assumes "named_path p" and "temporary_name (secret_name p) w = (Inr n, w')" and "path_parent p = Some parent"
  shows "path_join parent [Normal n] \<noteq> p"
proof -
  from assms(1) obtain d m where p: "p = d @ [Normal m]" by (rule named_pathE)
  from assms(2) have n: "n = ''.'' @ secret_name p @ ''.'' @ nat_str (process_id (advance w)) @ ''.'' @
      nat_str (clock w (tick w)) @ ''.tmp''"
    by (auto simp: temporary_name_def io_bind_apply now_nanos_def)
  have "n \<noteq> m"
  proof (cases "utf8_ok m")
    case True
    then have "secret_name p = m" by (simp add: secret_name_def p file_name_def)
    then have "length m < length n" by (simp add: n)
    then show ?thesis by auto
  next
    case False
    have "secret_name p = ''secret''" using False by (simp add: secret_name_def p file_name_def)
    then have "ascii n"
      using nat_str_ascii [of "process_id (advance w)"] nat_str_ascii [of "clock w (tick w)"]
      by (simp add: n) (auto simp: ascii_def)
    with False utf8_ok_ascii show ?thesis by auto
  qed
  then show ?thesis by (simp add: path_join_def p is_absolute_def)
qed

lemma write_secret_cases:
  assumes "named_path p" and "write_secret_atomic p bs w = (r, w')"
  obtains (early) e where "r = Inl e" "files w' = files w"
  | (through) t w1 where "t \<noteq> p" "files w1 = files w" "write_secret_through t p bs w1 = (r, w')"
proof -
  from assms(1) have "p \<noteq> []" "last p \<noteq> RootDir" by (auto elim!: named_pathE)
  then obtain parent where parent: "path_parent p = Some parent" by (simp add: path_parent_def)
  obtain x w1 where x: "fs_create_dir_all parent w = (x, w1)" by force
  have f1: "files w1 = files w" using frameD [OF frame_files_read(4) x] .
  show thesis
  proof (cases x)
    case (Inl e)
    with assms(2) x parent f1 show thesis by (intro early [of e]) (auto simp: write_secret_atomic_def io_bind_apply)
  next
    case (Inr u)
    obtain n w2 where n: "temporary_name (secret_name p) w1 = (Inr n :: io_error + string, w2)"
      by (auto simp: temporary_name_def io_bind_apply now_nanos_def)
    then have f2: "files w2 = files w1" by (auto simp: temporary_name_def io_bind_apply now_nanos_def)
    from temporary_name_neq [OF assms(1) n parent] have "path_join parent [Normal n] \<noteq> p" .
    moreover have "write_secret_through (path_join parent [Normal n]) p bs w2 = (r, w')"
      using assms(2) x Inr n parent by (simp add: write_secret_atomic_def io_bind_apply)
    ultimately show thesis using f1 f2 by (intro through) auto
  qed
qed

lemma file_at_files: "files w1 = files w \<Longrightarrow> file_at q w1 = file_at q w"
  by (simp add: file_at_def)

lemma write_secret_target:
  assumes "named_path p" and "write_secret_atomic p bs w = (r, w')"
  shows "file_at p w' = (case r of Inr _ \<Rightarrow> Some bs | Inl _ \<Rightarrow> file_at p w)"
  using assms
proof (cases rule: write_secret_cases)
  case (through t w1)
  from write_through_effect [OF through(3,1)] through(1) file_at_files [OF through(2)] show ?thesis
    by (cases r) simp_all
next
  case (early e)
  with file_at_files [OF early(2)] show ?thesis by simp
qed

lemma write_secret_others:
  assumes "named_path p" and "write_secret_atomic p bs w = (r, w')" and "q \<noteq> p"
    and "file_at q w \<noteq> None \<or> r = Inr ()"
  shows "file_at q w' = file_at q w"
  using assms(1,2)
proof (cases rule: write_secret_cases)
  case (through t w1)
  note files = file_at_files [OF through(2)]
  show ?thesis
  proof (cases r)
    case (Inr u)
    with write_through_effect [OF through(3,1)] assms(3) files show ?thesis by (cases "q = t") simp_all
  next
    case (Inl e)
    with write_through_effect [OF through(3,1)] assms(4) files show ?thesis by (cases "q = t") simp_all
  qed
next
  case (early e)
  with file_at_files [OF early(2)] show ?thesis by simp
qed

text \<open>When nothing fails and no temporary is lying about, the write succeeds.\<close>

definition no_temporaries :: "'w world \<Rightarrow> bool" where
  "no_temporaries w \<longleftrightarrow>
     (\<forall>t n. file_at t w \<noteq> None \<and> file_name t = Some n \<longrightarrow> take 4 (rev n) \<noteq> rev ''.tmp'')"

lemma write_secret_calm:
  assumes "named_path p" and "calm w" "no_temporaries w"
  shows "\<exists>w'. write_secret_atomic p bs w = (Inr (), w') \<and> calm w'"
proof -
  from assms(1) have "p \<noteq> []" "last p \<noteq> RootDir" by (auto elim!: named_pathE)
  then obtain parent where parent: "path_parent p = Some parent" by (simp add: path_parent_def)
  have quiet: "fs_fault w i = None" for i using assms(2) by (simp add: calm_def)
  have c: "fs_create_dir_all parent w = (Inr (), advance w)"
    using quiet by (simp add: fs_create_dir_all_def fs_guard_def)
  obtain n where n: "temporary_name (secret_name p) (advance w) = (Inr (n @ ''.tmp'') :: io_error + string, advance (advance w))"
    by (auto simp: temporary_name_def io_bind_apply now_nanos_def)
  let ?t = "path_join parent [Normal (n @ ''.tmp'')]"
  have t: "?t \<noteq> p" by (rule temporary_name_neq [OF assms(1) n parent])
  have "file_name ?t = Some (n @ ''.tmp'')" by (simp add: path_join_def is_absolute_def file_name_def)
  then have free: "file_at ?t w = None" using assms(3) unfolding no_temporaries_def by fastforce
  show ?thesis
    using c n parent free t assms(2) quiet
    by (simp add: write_secret_atomic_def io_bind_apply write_secret_through_def write_then_rename_def
        write_durably_def on_world_def set_created_def fs_defs)
qed

text \<open>C35. Replacing a secret is all or nothing, whichever file-system call fails and however: the
  target afterwards holds exactly the new bytes if the write reported success and exactly its old
  content (or absence) if it did not. No other file that was there is changed, not even one that
  happens to have the temporary's name, and after a success nothing is left behind.\<close>

theorem secret_write_all_or_nothing:
  assumes "named_path p" and "write_secret_atomic p bs w = (r, w')"
  shows "file_at p w' = (case r of Inr _ \<Rightarrow> Some bs | Inl _ \<Rightarrow> file_at p w) \<and>
    (\<forall>q. q \<noteq> p \<and> file_at q w \<noteq> None \<longrightarrow> file_at q w' = file_at q w) \<and>
    (r = Inr () \<longrightarrow> (\<forall>q. q \<noteq> p \<longrightarrow> file_at q w' = file_at q w))"
  using write_secret_target [OF assms] write_secret_others [OF assms] by blast

definition example_env_path :: path where
  "example_env_path = [RootDir, Normal ''w'', Normal ''.env'']"

lemma example_env_path_named [simp]: "named_path example_env_path"
  by (simp add: named_path_def example_env_path_def file_name_def)

theorem secret_write_all_or_nothing_witness:
  "file_at example_env_path (snd (write_secret_atomic example_env_path [65] (quiet_world ()))) = Some [65]"
proof -
  obtain r w' where run: "write_secret_atomic example_env_path [65] (quiet_world ()) = (r, w')" by force
  have "fst (write_secret_atomic example_env_path [65] (quiet_world ())) = Inr ()" by code_simp
  with run have "r = Inr ()" by simp
  with secret_write_all_or_nothing [OF example_env_path_named run] run show ?thesis by simp
qed

section \<open>Eviction\<close>

definition backups_in :: "path \<Rightarrow> 'w world \<Rightarrow> (nat \<times> path) list" where
  "backups_in d w = List.map_filter backup_stamp (filter (\<lambda>p. path_parent p = Some d) (map fst (files w)))"

lemma fs_remove_Inr: "fs_remove p w = (Inr u, w') \<Longrightarrow> files w' = AList.delete p (files w)"
  by (auto simp: fs_remove_def fs_guard_def unset_file_def split: option.splits)

lemma remove_files_Inr:
  "remove_files ps w = (Inr (), w') \<Longrightarrow> files w' = filter (\<lambda>f. fst f \<notin> set ps) (files w)"
proof (induction ps arbitrary: w)
  case Nil
  then show ?case by simp
next
  case (Cons p ps)
  then obtain u w1 where "fs_remove p w = (Inr u, w1)" "remove_files ps w1 = (Inr (), w')"
    by (auto simp: io_bind_eq_Inr)
  with Cons.IH [of w1] show ?case
    by (simp add: AList.delete_eq case_prod_unfold fs_remove_Inr) (rule filter_cong, auto)
qed

lemma map_filter_Cons:
  "List.map_filter f (x # xs) = (case f x of None \<Rightarrow> List.map_filter f xs | Some y \<Rightarrow> y # List.map_filter f xs)"
  by (simp add: List.map_filter_def split: option.splits)

lemma map_filter_Nil: "List.map_filter f [] = []"
  by (simp add: List.map_filter_def)

lemma backup_stamp_path: "backup_stamp p = Some s \<Longrightarrow> snd s = p"
  by (auto simp: backup_stamp_def split: option.splits if_splits)

lemma backups_in_mem:
  "s \<in> set (backups_in d w) \<Longrightarrow> path_parent (snd s) = Some d \<and> backup_stamp (snd s) = Some s"
proof -
  assume "s \<in> set (backups_in d w)"
  then obtain p where "path_parent p = Some d" "backup_stamp p = Some s"
    by (auto simp: backups_in_def List.map_filter_def)
  with backup_stamp_path [of p s] show ?thesis by simp
qed

lemma backups_in_filter:
  assumes "files w' = filter (\<lambda>f. fst f \<notin> set ps) (files w)"
  shows "backups_in d w' = filter (\<lambda>s. snd s \<notin> set ps) (backups_in d w)"
proof -
  have "List.map_filter backup_stamp (filter (\<lambda>p. path_parent p = Some d) (map fst (filter (\<lambda>f. fst f \<notin> set ps) fs))) =
      filter (\<lambda>s. snd s \<notin> set ps) (List.map_filter backup_stamp (filter (\<lambda>p. path_parent p = Some d) (map fst fs)))"
    for fs :: "(path \<times> bytes) list"
    by (induction fs) (auto simp: map_filter_Cons map_filter_Nil split: option.splits dest: backup_stamp_path)
  then show ?thesis by (simp add: backups_in_def assms)
qed

lemma evict_Inr:
  assumes "evict_old_backups d w = (Inr (), w')"
  obtains "length (backups_in d w) \<le> BACKUPS_KEPT" "files w' = files w"
  | "BACKUPS_KEPT < length (backups_in d w)"
    "files w' = filter (\<lambda>f. fst f \<notin> set (map snd (drop BACKUPS_KEPT (newest_first (backups_in d w))))) (files w)"
proof -
  have rd: "fs_fault w (tick w) = None" using assms
    by (auto simp: evict_old_backups_def io_bind_apply fs_read_dir_def fs_guard_def split: option.splits)
  let ?rest = "map snd (drop BACKUPS_KEPT (newest_first (backups_in d w)))"
  from assms rd have run: "(if length (backups_in d w) \<le> BACKUPS_KEPT then io_ok () else remove_files ?rest) (advance w) = (Inr (), w')"
    by (simp add: evict_old_backups_def io_bind_apply fs_read_dir_def fs_guard_def backups_in_def Let_def split: if_splits)
  show thesis
  proof (cases "length (backups_in d w) \<le> BACKUPS_KEPT")
    case True
    with run show thesis by (intro that(1)) auto
  next
    case False
    with run have "remove_files ?rest (advance w) = (Inr (), w')" by simp
    from remove_files_Inr [OF this] False show thesis by (intro that(2)) simp_all
  qed
qed

lemma map_of_kept: "q \<notin> G \<Longrightarrow> map_of (filter (\<lambda>f. fst f \<notin> G) fs) q = map_of fs q"
  by (induction fs) auto

lemma evict_other:
  assumes "evict_old_backups d w = (Inr (), w')" and "path_parent q \<noteq> Some d \<or> backup_stamp q = None"
  shows "file_at q w' = file_at q w"
  using assms(1)
proof (cases rule: evict_Inr)
  case 2
  let ?gone = "map snd (drop BACKUPS_KEPT (newest_first (backups_in d w)))"
  have "q \<notin> set ?gone"
  proof
    assume "q \<in> set ?gone"
    then obtain t where t: "t \<in> set (newest_first (backups_in d w))" "snd t = q" by (auto dest: in_set_dropD)
    then have "t \<in> set (backups_in d w)" by (simp add: newest_first_def)
    from backups_in_mem [OF this] t(2) assms(2) show False by auto
  qed
  then show ?thesis unfolding file_at_def 2(2) by (rule map_of_kept)
qed (simp add: file_at_def)

text \<open>After an eviction at most ten backups of an entry remain. Nothing is removed while there
  are ten or fewer, whatever was removed is no newer than everything kept, and a file that is not a
  backup of that entry is left alone.\<close>

theorem backups_bounded:
  assumes "evict_old_backups d w = (Inr (), w')"
  shows "length (backups_in d w') \<le> BACKUPS_KEPT \<and>
    (length (backups_in d w) \<le> BACKUPS_KEPT \<longrightarrow> files w' = files w) \<and>
    (\<forall>s s'. s \<in> set (backups_in d w) - set (backups_in d w') \<and> s' \<in> set (backups_in d w') \<longrightarrow> fst s \<le> fst s') \<and>
    (\<forall>q. backup_stamp q = None \<or> path_parent q \<noteq> Some d \<longrightarrow> file_at q w' = file_at q w)"
  using assms
proof (cases rule: evict_Inr)
  case 1
  then show ?thesis using file_at_files [OF 1(2)] by (simp add: backups_in_def)
next
  case 2
  let ?all = "backups_in d w" and ?ns = "newest_first (backups_in d w)"
  let ?gone = "map snd (drop BACKUPS_KEPT ?ns)"
  have now: "backups_in d w' = filter (\<lambda>s. snd s \<notin> set ?gone) ?all" by (rule backups_in_filter [OF 2(2)])
  have perm: "mset ?ns = mset ?all" by (simp add: newest_first_def)
  have split: "?ns = take BACKUPS_KEPT ?ns @ drop BACKUPS_KEPT ?ns" by simp
  have none: "filter (\<lambda>s. snd s \<notin> set ?gone) (drop BACKUPS_KEPT ?ns) = []" by (auto simp: filter_empty_conv)
  have kept: "filter (\<lambda>s. snd s \<notin> set ?gone) ?ns = filter (\<lambda>s. snd s \<notin> set ?gone) (take BACKUPS_KEPT ?ns)"
    by (subst split, subst filter_append) (simp only: none append_Nil2)
  have "mset (backups_in d w') = mset (filter (\<lambda>s. snd s \<notin> set ?gone) (take BACKUPS_KEPT ?ns))"
    unfolding now kept [symmetric] mset_filter perm ..
  then have ms: "length (backups_in d w') = length (filter (\<lambda>s. snd s \<notin> set ?gone) (take BACKUPS_KEPT ?ns))"
    and st: "set (backups_in d w') = set (filter (\<lambda>s. snd s \<notin> set ?gone) (take BACKUPS_KEPT ?ns))"
    by (metis size_mset, metis set_mset_mset)
  have bound: "length (backups_in d w') \<le> BACKUPS_KEPT"
    unfolding ms using length_filter_le [of "\<lambda>s. snd s \<notin> set ?gone" "take BACKUPS_KEPT ?ns"] by simp
  have sorted: "sorted (map (\<lambda>s. - int (fst s)) ?ns)" by (simp add: newest_first_def)
  have order: "fst s \<le> fst s'" if s: "s \<in> set ?all - set (backups_in d w')" and s': "s' \<in> set (backups_in d w')" for s s'
  proof -
    from s have "snd s \<in> set ?gone" "s \<in> set ?all" by (auto simp: now)
    then obtain t where t: "t \<in> set (drop BACKUPS_KEPT ?ns)" "snd t = snd s" by auto
    have "t \<in> set ?all" using t(1) perm by (metis in_set_dropD set_mset_mset)
    with t(2) \<open>s \<in> set ?all\<close> have "t = s" by (metis backups_in_mem option.inject)
    with t(1) have sd: "s \<in> set (drop BACKUPS_KEPT ?ns)" by simp
    have "s' \<in> set (take BACKUPS_KEPT ?ns)" using s' by (simp add: st)
    moreover have "sorted (map (\<lambda>s. - int (fst s)) (take BACKUPS_KEPT ?ns) @ map (\<lambda>s. - int (fst s)) (drop BACKUPS_KEPT ?ns))"
      using sorted by (metis split map_append)
    ultimately have "- int (fst s') \<le> - int (fst s)" using sd by (auto simp: sorted_append)
    then show ?thesis by simp
  qed
  show ?thesis using bound 2(1) order evict_other [OF assms] by auto
qed

definition example_backups :: "unit world" where
  "example_backups = (quiet_world ())\<lparr>files :=
     map (\<lambda>i. ([RootDir, Normal ''b'', Normal (zero_padded 20 i)], [])) [0..<11]\<rparr>"

theorem backups_bounded_witness:
  "length (backups_in [RootDir, Normal ''b''] (snd (evict_old_backups [RootDir, Normal ''b''] example_backups))) \<le> 10"
proof -
  obtain r w' where run: "evict_old_backups [RootDir, Normal ''b''] example_backups = (r, w')" by force
  have "fst (evict_old_backups [RootDir, Normal ''b''] example_backups) = Inr ()" by code_simp
  with run have "evict_old_backups [RootDir, Normal ''b''] example_backups = (Inr (), w')" by simp
  from backups_bounded [OF this] run show ?thesis by (simp add: BACKUPS_KEPT_def)
qed


section \<open>A recorded path stays inside\<close>

lemma split_on_nonempty: "split_on d s \<noteq> []"
  by (induction s) (auto split: list.splits)

lemma components_Nil: "components s = [] \<Longrightarrow> s = []"
proof (cases s)
  case (Cons c cs)
  assume "components s = []"
  then have "c \<noteq> CHR ''/''" "filter (\<lambda>x. x \<noteq> []) (split_on CHR ''/'' s) = []"
    using Cons by (auto simp: components_def Let_def split: if_splits list.splits)
  then show ?thesis using Cons by (auto split: list.splits)
qed simp

lemma path_join_normal: "list_all is_normal q \<Longrightarrow> path_join p q = p @ q"
proof -
  assume n: "list_all is_normal q"
  then have "\<not> is_absolute q" by (cases q) (auto simp: is_absolute_def is_normal_def split: component.splits)
  moreover have "filter (\<lambda>c. c \<noteq> CurDir) q = q"
    using n by (induction q) (auto simp: is_normal_def)
  ultimately show ?thesis by (simp add: path_join_def)
qed

text \<open>A recorded path is resolved exactly when it names a file inside the project, and then the
  result is the root followed by one or more ordinary components: no \<^verbatim>\<open>..\<close>, no root of its own.
  Everything else, the empty path and every absolute one included, is refused.\<close>

theorem resolve_within_stays_inside:
  "case resolve_within root relative of
     Inr p \<Rightarrow> \<exists>cs. p = root @ cs \<and> cs \<noteq> [] \<and> cs = components relative \<and> list_all is_normal cs
   | Inl e \<Rightarrow> io_error_kind e = InvalidInput \<and> \<not> names_a_file_inside relative"
proof (cases "names_a_file_inside relative")
  case True
  then have "list_all is_normal (components relative)" "components relative \<noteq> []"
    using components_Nil [of relative] by (auto simp: names_a_file_inside_def)
  then show ?thesis using True by (simp add: resolve_within_def path_join_normal)
qed (simp add: resolve_within_def)

end
