(* ===== verification/Env_Catalogue.thy ===== *)
theory Env_Catalogue
  imports Secret_File
begin

text \<open>
  \<^verbatim>\<open>zode_env_sync\<close>'s \<^verbatim>\<open>manifest.rs\<close> (the encrypted catalogue of projects and files),
  \<^verbatim>\<open>bindings.rs\<close> (which checkout stands for which project) and \<^verbatim>\<open>vault.rs\<close> (the catalogue against
  the server's listing). The catalogue reads back, the search for a free name ends and finds one,
  and the two tests for a safe path are the same test.
\<close>

section \<open>The catalogue\<close>

definition MANIFEST_VERSION :: u32 where
  "MANIFEST_VERSION = 1"

record manifest_entry =
  me_path :: string
  me_seq :: u64

record manifest_project =
  mp_name :: string
  mp_entries :: "(entry_id, manifest_entry) btree"

record manifest =
  mf_v :: u32
  mf_projects :: "(project_id, manifest_project) btree"

definition manifest_new :: manifest where
  "manifest_new = \<lparr>mf_v = MANIFEST_VERSION, mf_projects = []\<rparr>"

text \<open>The paths the other entries of a project use.\<close>

definition taken_paths :: "manifest_project \<Rightarrow> entry_id option \<Rightarrow> string list" where
  "taken_paths holder except =
     map (\<lambda>e. me_path (snd e)) (filter (\<lambda>e. Some (fst e) \<noteq> except) (mp_entries holder))"

definition numbered :: "string \<Rightarrow> nat \<Rightarrow> string" where
  "numbered wanted index = wanted @ '' ('' @ nat_str index @ '')''"

lemma numbered_inj: "inj (numbered wanted)"
  by (rule injI) (simp add: numbered_def)

lemma numbered_finite: "finite {j. i \<le> j \<and> numbered wanted j \<in> set taken}"
proof (rule finite_subset)
  show "{j. i \<le> j \<and> numbered wanted j \<in> set taken} \<subseteq> numbered wanted -` set taken" by auto
  show "finite (numbered wanted -` set taken)" by (rule finite_vimageI [OF _ numbered_inj]) simp
qed

text \<open>The search over \<^verbatim>\<open>(2..)\<close>: it ends because only finitely many names are taken.\<close>

function first_free :: "string list \<Rightarrow> string \<Rightarrow> nat \<Rightarrow> string" where
  "first_free taken wanted index =
     (if numbered wanted index \<in> set taken then first_free taken wanted (Suc index)
      else numbered wanted index)"
  by pat_completeness auto
termination
proof (relation "measure (\<lambda>(taken, wanted, i). card {j. i \<le> j \<and> numbered wanted j \<in> set taken})")
  fix taken wanted index
  assume "numbered wanted index \<in> set taken"
  then have "index \<in> {j. index \<le> j \<and> numbered wanted j \<in> set taken}" by simp
  moreover have "index \<notin> {j. Suc index \<le> j \<and> numbered wanted j \<in> set taken}" by simp
  ultimately have "{j. Suc index \<le> j \<and> numbered wanted j \<in> set taken} \<subset> {j. index \<le> j \<and> numbered wanted j \<in> set taken}"
    by (metis (mono_tags, lifting) Collect_mono Suc_leD psubsetI)
  then have "card {j. Suc index \<le> j \<and> numbered wanted j \<in> set taken} < card {j. index \<le> j \<and> numbered wanted j \<in> set taken}"
    by (intro psubset_card_mono numbered_finite)
  then show "((taken, wanted, Suc index), (taken, wanted, index)) \<in>
      measure (\<lambda>(taken, wanted, i). card {j. i \<le> j \<and> numbered wanted j \<in> set taken})"
    by simp
qed simp

declare first_free.simps [simp del]

definition unique_path :: "manifest \<Rightarrow> project_id \<Rightarrow> string \<Rightarrow> entry_id option \<Rightarrow> string" where
  "unique_path m project wanted except =
     (case bt_get (mf_projects m) project of
        None \<Rightarrow> wanted
      | Some holder \<Rightarrow>
          let taken = taken_paths holder except in
          if wanted \<notin> set taken then wanted else first_free taken wanted 2)"

text \<open>\<^verbatim>\<open>serde\<close>: a map keyed by identifiers is an object keyed by their strings, read entry by
  entry, a later key replacing an earlier one.\<close>

fun keyed_entries :: "(string \<Rightarrow> 'k option) \<Rightarrow> (json \<Rightarrow> 'v option) \<Rightarrow> (string \<times> json) list \<Rightarrow> ('k \<times> 'v) list option" where
  "keyed_entries kf f [] = Some []"
| "keyed_entries kf f ((s, j) # rest) =
     (case (kf s, f j, keyed_entries kf f rest) of
        (Some k, Some v, Some kvs) \<Rightarrow> Some ((k, v) # kvs)
      | _ \<Rightarrow> None)"

definition keyed_of_json ::
    "(string \<Rightarrow> 'k::linorder option) \<Rightarrow> (json \<Rightarrow> 'v option) \<Rightarrow> json \<Rightarrow> ('k, 'v) btree option" where
  "keyed_of_json kf f j =
     (case j of
        JObj fs \<Rightarrow> map_option (\<lambda>kvs. fold (\<lambda>(k, v). bt_insert k v) kvs []) (keyed_entries kf f fs)
      | _ \<Rightarrow> None)"

definition entry_json :: "manifest_entry \<Rightarrow> json" where
  "entry_json e = JObj [(''path'', JStr (me_path e)), (''seq'', JNum (uint (me_seq e)))]"

definition entry_of_json :: "json \<Rightarrow> manifest_entry option" where
  "entry_of_json j =
     (case struct_fields [''path'', ''seq''] j of
        Some [p, s] \<Rightarrow>
          (case (as_req as_str p, as_req as_u64 s) of
             (Some p, Some s) \<Rightarrow> Some \<lparr>me_path = p, me_seq = s\<rparr>
           | _ \<Rightarrow> None)
      | _ \<Rightarrow> None)"

definition project_json :: "manifest_project \<Rightarrow> json" where
  "project_json p = JObj
     [(''name'', JStr (mp_name p)),
      (''entries'', JObj (map (\<lambda>(k, v). (entry_hex k, entry_json v)) (mp_entries p)))]"

definition project_of_json :: "json \<Rightarrow> manifest_project option" where
  "project_of_json j =
     (case struct_fields_default [''name'', ''entries''] [''entries''] j of
        Some [n, e] \<Rightarrow>
          (case (as_req as_str n, as_default [] (keyed_of_json (\<lambda>s. ok (entry_parse s)) entry_of_json) e) of
             (Some n, Some es) \<Rightarrow> Some \<lparr>mp_name = n, mp_entries = es\<rparr>
           | _ \<Rightarrow> None)
      | _ \<Rightarrow> None)"

definition manifest_json :: "manifest \<Rightarrow> json" where
  "manifest_json m = JObj
     [(''v'', JNum (uint (mf_v m))),
      (''projects'', JObj (map (\<lambda>(k, v). (project_hex k, project_json v)) (mf_projects m)))]"

definition manifest_of_json :: "json \<Rightarrow> manifest option" where
  "manifest_of_json j =
     (case struct_fields_default [''v'', ''projects''] [''projects''] j of
        Some [v, p] \<Rightarrow>
          (case (as_req as_u32 v, as_default [] (keyed_of_json (\<lambda>s. ok (project_parse s)) project_of_json) p) of
             (Some v, Some ps) \<Rightarrow> Some \<lparr>mf_v = v, mf_projects = ps\<rparr>
           | _ \<Rightarrow> None)
      | _ \<Rightarrow> None)"

definition from_json :: "prims \<Rightarrow> bytes \<Rightarrow> env_crypto_error + manifest" where
  "from_json P raw =
     bind_res (map_err EnvMalformed (json_read P (string_of_bytes raw))) (\<lambda>j.
     bind_res (ok_or (EnvMalformed (serde_error P j)) (manifest_of_json j)) (\<lambda>m.
     if mf_v m \<noteq> MANIFEST_VERSION then Inl (EnvUnsupportedVersion (mf_v m)) else Inr m))"

definition to_json :: "prims \<Rightarrow> manifest \<Rightarrow> env_crypto_error + bytes" where
  "to_json P m =
     bind_res (map_err EnvMalformed (json_text P (manifest_json m))) (\<lambda>text. Inr (as_bytes text))"

definition project_of :: "manifest \<Rightarrow> entry_id \<Rightarrow> (project_id \<times> manifest_project) option" where
  "project_of m entry =
     List.find (\<lambda>(_, p). bt_get (mp_entries p) entry \<noteq> None) (mf_projects m)"

definition entry_ids :: "manifest \<Rightarrow> entry_id list" where
  "entry_ids m = concat (map (\<lambda>(_, p). map fst (mp_entries p)) (mf_projects m))"

definition has_a_safe_path :: "manifest_entry \<Rightarrow> bool" where
  "has_a_safe_path e \<longleftrightarrow>
     me_path e \<noteq> [] \<and> \<not> is_absolute (components (me_path e)) \<and>
     list_all is_normal (components (me_path e)) \<and>
     CHR '':'' \<notin> set (me_path e) \<and> \<not> starts_with [CHR 0x5C] (me_path e)"

section \<open>Path strings\<close>

text \<open>\<^verbatim>\<open>Path::strip_prefix\<close> answers the rest of the text, so it is followed on the text: the
  component iterator's next step, the match against the prefix, and \<^verbatim>\<open>as_path\<close>, which trims
  separators and dots at both ends of what is left. The flag says whether the iterator has left the
  start of the path.\<close>

function trim_front :: "string \<Rightarrow> string" where
  "trim_front s =
     (let seg = takeWhile (\<lambda>c. c \<noteq> CHR ''/'') s in
      if s = [] then []
      else if seg = [] \<or> seg = ''.'' then trim_front (drop (Suc (length seg)) s)
      else s)"
  by pat_completeness auto
termination
  by (relation "measure length") auto

declare trim_front.simps [simp del]

definition body_next :: "string \<Rightarrow> (component \<times> string) option" where
  "body_next s =
     (let s = trim_front s; seg = takeWhile (\<lambda>c. c \<noteq> CHR ''/'') s in
      if s = [] then None else Some (component_of seg, drop (Suc (length seg)) s))"

definition path_next :: "bool \<times> string \<Rightarrow> (component \<times> (bool \<times> string)) option" where
  "path_next st =
     (case st of (started, s) \<Rightarrow>
        if \<not> started \<and> starts_with ''/'' s then Some (RootDir, (True, drop 1 s))
        else if \<not> started \<and> (s = ''.'' \<or> starts_with ''./'' s) then Some (CurDir, (True, drop 1 s))
        else map_option (\<lambda>(c, r). (c, (True, r))) (body_next s))"

fun iter_after :: "component list \<Rightarrow> bool \<times> string \<Rightarrow> (bool \<times> string) option" where
  "iter_after [] st = Some st"
| "iter_after (y # ys) st =
     (case path_next st of
        Some (x, st') \<Rightarrow> if x = y then iter_after ys st' else None
      | None \<Rightarrow> None)"

definition as_path :: "bool \<times> string \<Rightarrow> string" where
  "as_path st =
     (case st of (started, s) \<Rightarrow>
        let s = (if started then trim_front s else s);
            before = (if \<not> started \<and> (starts_with ''/'' s \<or> s = ''.'' \<or> starts_with ''./'' s) then 1 else 0)
        in take before s @ rev (trim_front (rev (drop before s))))"

definition path_strip_prefix :: "string \<Rightarrow> string \<Rightarrow> string option" where
  "path_strip_prefix base full = map_option as_path (iter_after (components base) (False, full))"

definition slashes :: "string \<Rightarrow> string" where
  "slashes s = map (\<lambda>c. if c = CHR 0x5C then CHR ''/'' else c) s"

section \<open>Bindings\<close>

record bindings =
  bn_worktrees :: "(string, project_id) btree"
  bn_remote_worktrees :: "(string, (string, project_id) btree) btree"

record checkout =
  co_host :: "string option"
  co_root :: string

definition bindings_default :: bindings where
  "bindings_default = \<lparr>bn_worktrees = [], bn_remote_worktrees = []\<rparr>"

definition checkout_local :: "string \<Rightarrow> checkout" where
  "checkout_local root = \<lparr>co_host = None, co_root = root\<rparr>"

definition checkout_remote :: "string \<Rightarrow> string \<Rightarrow> checkout" where
  "checkout_remote host root = \<lparr>co_host = Some host, co_root = root\<rparr>"

definition checkout_is_local :: "checkout \<Rightarrow> bool" where
  "checkout_is_local c \<longleftrightarrow> co_host c = None"

definition checkout_relative :: "checkout \<Rightarrow> string \<Rightarrow> string option" where
  "checkout_relative c absolute =
     (case path_strip_prefix (co_root c) absolute of
        None \<Rightarrow> None
      | Some rest \<Rightarrow> if rest = [] then None else Some (slashes rest))"

definition binding_key :: "string \<Rightarrow> string" where
  "binding_key root =
     (let trimmed = rev (dropWhile (\<lambda>c. c = CHR ''/'' \<or> c = CHR 0x5C) (rev root))
      in if trimmed = [] then root else trimmed)"

definition project_id_json :: "project_id \<Rightarrow> json" where
  "project_id_json p = JStr (project_hex p)"

definition worktrees_json :: "(string, project_id) btree \<Rightarrow> json" where
  "worktrees_json m = JObj (map (\<lambda>(k, v). (k, project_id_json v)) m)"

definition bindings_json :: "bindings \<Rightarrow> json" where
  "bindings_json b = JObj
     ((''worktrees'', worktrees_json (bn_worktrees b)) #
      (if bn_remote_worktrees b = [] then []
       else [(''remote_worktrees'', JObj (map (\<lambda>(k, v). (k, worktrees_json v)) (bn_remote_worktrees b)))]))"

definition bindings_of_json :: "json \<Rightarrow> bindings option" where
  "bindings_of_json j =
     (case struct_fields_default [''worktrees'', ''remote_worktrees''] [''worktrees'', ''remote_worktrees''] j of
        Some [a, b] \<Rightarrow>
          (case (as_default [] (btree_of_json project_id_of_json) a,
                 as_default [] (btree_of_json (btree_of_json project_id_of_json)) b) of
             (Some a, Some b) \<Rightarrow> Some \<lparr>bn_worktrees = a, bn_remote_worktrees = b\<rparr>
           | _ \<Rightarrow> None)
      | _ \<Rightarrow> None)"

definition bindings_load :: "prims \<Rightarrow> path \<Rightarrow> ('w world, 'e, bindings) io" where
  "bindings_load P p = io_case (fs_read_to_string p) (\<lambda>r.
     case r of
       Inl _ \<Rightarrow> io_ok bindings_default
     | Inr raw \<Rightarrow>
         (case json_read P raw of
            Inl _ \<Rightarrow> io_ok bindings_default
          | Inr j \<Rightarrow> io_ok (case bindings_of_json j of Some b \<Rightarrow> b | None \<Rightarrow> bindings_default)))"

definition bindings_save :: "prims \<Rightarrow> bindings \<Rightarrow> path \<Rightarrow> ('w world, string, unit) io" where
  "bindings_save P b p =
     io_bind (io_res (json_pretty P (bindings_json b))) (\<lambda>raw.
     io_map_err io_display (write_secret_atomic p (as_bytes raw)))"

definition project_for :: "bindings \<Rightarrow> string \<Rightarrow> project_id option" where
  "project_for b root = bt_get (bn_worktrees b) (binding_key root)"

definition project_for_checkout :: "bindings \<Rightarrow> checkout \<Rightarrow> project_id option" where
  "project_for_checkout b c =
     (case co_host c of
        None \<Rightarrow> project_for b (co_root c)
      | Some host \<Rightarrow>
          (case bt_get (bn_remote_worktrees b) host of
             None \<Rightarrow> None
           | Some m \<Rightarrow> bt_get m (binding_key (co_root c))))"

definition worktrees_for :: "bindings \<Rightarrow> project_id \<Rightarrow> string list" where
  "worktrees_for b project = map fst (filter (\<lambda>e. snd e = project) (bn_worktrees b))"

definition bind_worktree :: "string \<Rightarrow> project_id \<Rightarrow> bindings \<Rightarrow> bindings" where
  "bind_worktree root project b =
     b\<lparr>bn_worktrees := bt_insert (binding_key root) project (bn_worktrees b)\<rparr>"

definition bind_checkout :: "checkout \<Rightarrow> project_id \<Rightarrow> bindings \<Rightarrow> bindings" where
  "bind_checkout c project b =
     (case co_host c of
        None \<Rightarrow> bind_worktree (co_root c) project b
      | Some host \<Rightarrow>
          let m = (case bt_get (bn_remote_worktrees b) host of Some m \<Rightarrow> m | None \<Rightarrow> []) in
          b\<lparr>bn_remote_worktrees :=
              bt_insert host (bt_insert (binding_key (co_root c)) project m) (bn_remote_worktrees b)\<rparr>)"

definition unbind :: "string \<Rightarrow> bindings \<Rightarrow> bindings" where
  "unbind root b = b\<lparr>bn_worktrees := bt_remove (binding_key root) (bn_worktrees b)\<rparr>"

definition bindings_is_empty :: "bindings \<Rightarrow> bool" where
  "bindings_is_empty b \<longleftrightarrow> bn_worktrees b = [] \<and> bn_remote_worktrees b = []"

section \<open>The server's listing\<close>

record remote_entry =
  re_entry_id :: string
  re_revision :: string
  re_byte_length :: nat

definition remote_entry_of_json :: "json \<Rightarrow> remote_entry option" where
  "remote_entry_of_json j =
     (case struct_fields [''entryId'', ''revision'', ''byteLength''] j of
        Some [i, r, b] \<Rightarrow>
          (case (as_req as_str i, as_req as_str r, as_req (as_uint 64) b) of
             (Some i, Some r, Some b) \<Rightarrow> Some \<lparr>re_entry_id = i, re_revision = r, re_byte_length = b\<rparr>
           | _ \<Rightarrow> None)
      | _ \<Rightarrow> None)"

fun all_some :: "'a option list \<Rightarrow> 'a list option" where
  "all_some [] = Some []"
| "all_some (x # xs) = (case (x, all_some xs) of (Some a, Some as) \<Rightarrow> Some (a # as) | _ \<Rightarrow> None)"

definition listing_of_json :: "json \<Rightarrow> remote_entry list option" where
  "listing_of_json j =
     (case struct_fields [''entries''] j of
        Some [Some (JArr vs)] \<Rightarrow> all_some (map remote_entry_of_json vs)
      | _ \<Rightarrow> None)"

definition parse_listing :: "prims \<Rightarrow> string \<Rightarrow> env_crypto_error + remote_entry list" where
  "parse_listing P body =
     (case json_read P body of
        Inl e \<Rightarrow> Inl (EnvMalformed (''the entry listing: '' @ e))
      | Inr j \<Rightarrow> ok_or (EnvMalformed (''the entry listing: '' @ serde_error P j)) (listing_of_json j))"

record reconciliation =
  rc_deleted_elsewhere :: "entry_id list"
  rc_unknown_here :: "entry_id list"
  rc_unreadable :: "string list"

definition reconciliation_default :: reconciliation where
  "reconciliation_default = \<lparr>rc_deleted_elsewhere = [], rc_unknown_here = [], rc_unreadable = []\<rparr>"

fun read_listing :: "remote_entry list \<Rightarrow> entry_id list \<Rightarrow> string list \<Rightarrow> entry_id list \<times> string list" where
  "read_listing [] on_server unreadable = (on_server, unreadable)"
| "read_listing (e # rest) on_server unreadable =
     (case entry_parse (re_entry_id e) of
        Inr i \<Rightarrow> read_listing rest (on_server @ [i]) unreadable
      | Inl _ \<Rightarrow> read_listing rest on_server (unreadable @ [re_entry_id e]))"

definition reconcile :: "manifest \<Rightarrow> remote_entry list \<Rightarrow> reconciliation" where
  "reconcile m remote =
     (let (on_server, unreadable) = read_listing remote [] []; known = entry_ids m
      in \<lparr>rc_deleted_elsewhere = filter (\<lambda>i. i \<notin> set on_server) known,
          rc_unknown_here = filter (\<lambda>i. i \<notin> set known) on_server,
          rc_unreadable = unreadable\<rparr>)"

definition is_agreed :: "reconciliation \<Rightarrow> bool" where
  "is_agreed r \<longleftrightarrow> rc_deleted_elsewhere r = [] \<and> rc_unknown_here r = [] \<and> rc_unreadable r = []"


section \<open>A free name is found\<close>

lemma first_free_spec:
  "\<exists>k \<ge> i. first_free taken wanted i = numbered wanted k \<and> numbered wanted k \<notin> set taken \<and>
     (\<forall>j. i \<le> j \<and> j < k \<longrightarrow> numbered wanted j \<in> set taken)"
proof (induction taken wanted i rule: first_free.induct)
  case (1 taken wanted index)
  show ?case
  proof (cases "numbered wanted index \<in> set taken")
    case True
    from "1" [OF True] obtain k where k: "Suc index \<le> k"
      "first_free taken wanted (Suc index) = numbered wanted k" "numbered wanted k \<notin> set taken"
      "\<forall>j. Suc index \<le> j \<and> j < k \<longrightarrow> numbered wanted j \<in> set taken"
      by blast
    have "numbered wanted j \<in> set taken" if "index \<le> j" "j < k" for j
      using k(4) True that by (cases "j = index") auto
    with k True show ?thesis
      by (intro exI [of _ k]) (simp add: first_free.simps [of taken wanted index])
  next
    case False
    then show ?thesis by (intro exI [of _ index]) (auto simp: first_free.simps [of taken wanted index])
  qed
qed

lemma unique_path_free:
  assumes "bt_get (mf_projects m) project = Some holder"
  shows "unique_path m project wanted except \<notin> set (taken_paths holder except)"
  using assms first_free_spec [of 2 "taken_paths holder except" wanted]
  by (auto simp: unique_path_def Let_def)

text \<open>C34. Looking for a free name always ends, and with the name a person expects: the wanted one if
  no other entry of the project uses it, and otherwise the wanted one numbered with the smallest
  number from 2 up that is free. The search over all numbers terminates because only finitely many
  names are taken.\<close>

theorem unique_path_spec:
  "case bt_get (mf_projects m) project of
     None \<Rightarrow> unique_path m project wanted except = wanted
   | Some holder \<Rightarrow>
       unique_path m project wanted except \<notin> set (taken_paths holder except) \<and>
       (unique_path m project wanted except = wanted \<longleftrightarrow> wanted \<notin> set (taken_paths holder except)) \<and>
       (\<exists>k. unique_path m project wanted except =
            (if wanted \<in> set (taken_paths holder except) then numbered wanted k else wanted) \<and>
          2 \<le> k \<and> list_all (\<lambda>j. numbered wanted j \<in> set (taken_paths holder except)) [2..<k])"
proof (cases "bt_get (mf_projects m) project")
  case (Some holder)
  let ?taken = "taken_paths holder except"
  obtain k where k: "2 \<le> k" "first_free ?taken wanted 2 = numbered wanted k" "numbered wanted k \<notin> set ?taken"
    "\<forall>j. 2 \<le> j \<and> j < k \<longrightarrow> numbered wanted j \<in> set ?taken"
    using first_free_spec by blast
  moreover have "numbered wanted k \<noteq> wanted" by (simp add: numbered_def)
  moreover have "list_all (\<lambda>j. numbered wanted j \<in> set ?taken) [2..<k]" using k(4) by (simp add: list_all_iff)
  ultimately show ?thesis using Some by (auto simp: unique_path_def Let_def)
qed (simp add: unique_path_def)

section \<open>The catalogue reads back\<close>

text \<open>What the ordered maps of a catalogue always are: sorted, with identifiers of full length.\<close>

definition project_wf :: "manifest_project \<Rightarrow> bool" where
  "project_wf p \<longleftrightarrow> bt_ok (mp_entries p) \<and> list_all entry_ok (map fst (mp_entries p))"

definition manifest_wf :: "manifest \<Rightarrow> bool" where
  "manifest_wf m \<longleftrightarrow> bt_ok (mf_projects m) \<and> list_all project_ok (map fst (mf_projects m)) \<and>
     list_all project_wf (map snd (mf_projects m))"

lemma entry_parse_ok: "entry_parse s = Inr k \<Longrightarrow> entry_ok k"
  using entry.enc_dec [of s k] by simp

lemma project_parse_ok: "project_parse s = Inr k \<Longrightarrow> project_ok k"
  using project.enc_dec [of s k] by simp

lemma keyed_entries_map:
  assumes "\<And>k v. (k, v) \<in> set kvs \<Longrightarrow> kf (kh k) = Some k" "\<And>k v. (k, v) \<in> set kvs \<Longrightarrow> f (g v) = Some v"
  shows "keyed_entries kf f (map (\<lambda>(k, v). (kh k, g v)) kvs) = Some kvs"
  using assms
proof (induction kvs)
  case (Cons kv kvs)
  obtain k v where kv: "kv = (k, v)" by force
  have "keyed_entries kf f (map (\<lambda>(k, v). (kh k, g v)) kvs) = Some kvs"
    by (rule Cons.IH) (auto intro: Cons.prems)
  moreover have "kf (kh k) = Some k" "f (g v) = Some v" using Cons.prems kv by auto
  ultimately show ?case by (simp add: kv)
qed simp

lemma keyed_json_roundtrip:
  assumes "bt_ok kvs"
    and "\<And>k v. (k, v) \<in> set kvs \<Longrightarrow> kf (kh k) = Some k" "\<And>k v. (k, v) \<in> set kvs \<Longrightarrow> f (g v) = Some v"
  shows "keyed_of_json kf f (JObj (map (\<lambda>(k, v). (kh k, g v)) kvs)) = Some kvs"
  using bt_rebuild [of "[]" kvs] assms by (simp add: keyed_of_json_def keyed_entries_map)

lemma keyed_entries_ok:
  "keyed_entries kf f fs = Some kvs \<Longrightarrow>
     (\<forall>k v. (k, v) \<in> set kvs \<longrightarrow> (\<exists>s. kf s = Some k) \<and> (\<exists>j. f j = Some v))"
  by (induction kf f fs arbitrary: kvs rule: keyed_entries.induct) (auto split: option.splits)

lemma set_bt_insert: "set (bt_insert k v m) \<subseteq> insert (k, v) (set m)"
  by (induction k v m rule: bt_insert.induct) auto

lemma set_fold_insert: "set (fold (\<lambda>(k, v). bt_insert k v) kvs m) \<subseteq> set kvs \<union> set m"
proof (induction kvs arbitrary: m)
  case (Cons kv kvs)
  then show ?case using set_bt_insert [of "fst kv" "snd kv" m] by (cases kv) fastforce
qed simp

lemma keyed_of_json_ok:
  assumes "keyed_of_json kf f j = Some m"
  shows "bt_ok m \<and> (\<forall>k v. (k, v) \<in> set m \<longrightarrow> (\<exists>s. kf s = Some k) \<and> (\<exists>j. f j = Some v))"
proof -
  from assms obtain fs kvs where kvs: "keyed_entries kf f fs = Some kvs"
    and m: "m = fold (\<lambda>(k, v). bt_insert k v) kvs []"
    by (auto simp: keyed_of_json_def split: json.splits)
  have "bt_ok m" unfolding m by (rule bt.inv_fold_put) simp
  moreover have "set m \<subseteq> set kvs" unfolding m using set_fold_insert [of kvs "[]"] by simp
  ultimately show ?thesis using keyed_entries_ok [OF kvs] by blast
qed

lemma entry_json_roundtrip [simp]: "entry_of_json (entry_json e) = Some e"
  by (simp add: entry_of_json_def entry_json_def struct_simps)

lemma project_json_roundtrip: "project_wf p \<Longrightarrow> project_of_json (project_json p) = Some p"
proof -
  assume wf: "project_wf p"
  have "keyed_of_json (\<lambda>s. ok (entry_parse s)) entry_of_json
      (JObj (map (\<lambda>(k, v). (entry_hex k, entry_json v)) (mp_entries p))) = Some (mp_entries p)"
    using wf by (intro keyed_json_roundtrip entry.dec_enc) (auto simp: project_wf_def list_all_iff)
  then show ?thesis by (simp add: project_of_json_def project_json_def struct_simps as_default_def)
qed

lemma manifest_json_roundtrip: "manifest_wf m \<Longrightarrow> manifest_of_json (manifest_json m) = Some m"
proof -
  assume wf: "manifest_wf m"
  have "keyed_of_json (\<lambda>s. ok (project_parse s)) project_of_json
      (JObj (map (\<lambda>(k, v). (project_hex k, project_json v)) (mf_projects m))) = Some (mf_projects m)"
    using wf by (intro keyed_json_roundtrip project.dec_enc project_json_roundtrip)
      (auto simp: manifest_wf_def list_all_iff)
  then show ?thesis by (simp add: manifest_of_json_def manifest_json_def struct_simps as_default_def)
qed

lemma to_json_from_json:
  "json_ok P \<Longrightarrow> manifest_wf m \<Longrightarrow> mf_v m = MANIFEST_VERSION \<Longrightarrow> to_json P m = Inr raw \<Longrightarrow> from_json P raw = Inr m"
  by (auto simp: to_json_def from_json_def bind_res_eq_Inr json_ok_def manifest_json_roundtrip)

lemma project_of_json_wf: "project_of_json j = Some p \<Longrightarrow> project_wf p"
proof -
  assume "project_of_json j = Some p"
  then obtain e where e: "as_default [] (keyed_of_json (\<lambda>s. ok (entry_parse s)) entry_of_json) e = Some (mp_entries p)"
    by (auto simp: project_of_json_def split: option.splits list.splits)
  show ?thesis
  proof (cases e)
    case None
    with e show ?thesis by (simp add: as_default_def project_wf_def)
  next
    case (Some j')
    with e have "keyed_of_json (\<lambda>s. ok (entry_parse s)) entry_of_json j' = Some (mp_entries p)"
      by (simp add: as_default_def)
    from keyed_of_json_ok [OF this] show ?thesis
      by (auto simp: project_wf_def list_all_iff) (metis entry_parse_ok)
  qed
qed

lemma manifest_of_json_wf: "manifest_of_json j = Some m \<Longrightarrow> manifest_wf m"
proof -
  assume "manifest_of_json j = Some m"
  then obtain e where e: "as_default [] (keyed_of_json (\<lambda>s. ok (project_parse s)) project_of_json) e = Some (mf_projects m)"
    by (auto simp: manifest_of_json_def split: option.splits list.splits)
  show ?thesis
  proof (cases e)
    case None
    with e show ?thesis by (simp add: as_default_def manifest_wf_def)
  next
    case (Some j')
    with e have "keyed_of_json (\<lambda>s. ok (project_parse s)) project_of_json j' = Some (mf_projects m)"
      by (simp add: as_default_def)
    from keyed_of_json_ok [OF this] show ?thesis
      by (auto simp: manifest_wf_def list_all_iff) (metis project_parse_ok, metis project_of_json_wf)
  qed
qed

lemma from_json_wf: "from_json P raw = Inr m \<Longrightarrow> manifest_wf m \<and> mf_v m = MANIFEST_VERSION"
  by (auto simp: from_json_def bind_res_eq_Inr manifest_of_json_wf split: if_splits)

text \<open>C33. Whatever bytes a catalogue is read from, what is accepted is well-formed: maps in key order
  with no key twice, every identifier sixteen bytes, the version this build writes. And every
  well-formed catalogue that was written reads back to itself.\<close>

theorem manifest_read_back:
  "(\<forall>raw m. from_json P raw = Inr m \<longrightarrow> manifest_wf m \<and> mf_v m = MANIFEST_VERSION) \<and>
   (\<forall>raw m. json_ok P \<and> manifest_wf m \<and> mf_v m = MANIFEST_VERSION \<and> to_json P m = Inr raw \<longrightarrow>
      from_json P raw = Inr m)"
  using from_json_wf to_json_from_json by blast

definition example_entry :: entry_id where
  "example_entry = EntryId (replicate 16 7)"

definition example_project :: project_id where
  "example_project = ProjectId (replicate 16 9)"

definition example_manifest :: "string \<Rightarrow> manifest" where
  "example_manifest p =
     \<lparr>mf_v = MANIFEST_VERSION,
      mf_projects = [(example_project, \<lparr>mp_name = ''acme'', mp_entries = [(example_entry, \<lparr>me_path = p, me_seq = 1\<rparr>)]\<rparr>)]\<rparr>"

lemma example_entry_ok [simp]: "entry_ok example_entry"
  by (simp add: entry_ok_def example_entry_def ID_BYTES_def)

lemma example_manifest_wf [simp]: "manifest_wf (example_manifest p)"
  by (simp add: manifest_wf_def project_wf_def example_manifest_def bt_ok_def project_ok_def example_project_def
      ID_BYTES_def)

theorem manifest_read_back_witness:
  "\<exists>raw. to_json total_prims (example_manifest ''.env'') = Inr raw \<and>
     from_json total_prims raw = Inr (example_manifest ''.env'')"
proof -
  obtain raw where raw: "to_json total_prims (example_manifest ''.env'') = Inr raw"
    by (simp add: to_json_def total_prims_def)
  have v: "mf_v (example_manifest ''.env'') = MANIFEST_VERSION" by (simp add: example_manifest_def)
  from manifest_read_back [of total_prims] raw v show ?thesis by (meson example_manifest_wf total_json_ok)
qed


section \<open>Stripping a prefix from a path\<close>

text \<open>The segments of a text, and the components of the text after the start: what the iterator
  still has to give.\<close>

definition path_segments :: "string \<Rightarrow> string list" where
  "path_segments s = filter (\<lambda>x. x \<noteq> [] \<and> x \<noteq> ''.'') (split_on CHR ''/'' s)"

definition body_components :: "string \<Rightarrow> path" where
  "body_components s = map component_of (path_segments s)"

lemma split_on_takeWhile:
  "split_on d s = takeWhile (\<lambda>c. c \<noteq> d) s #
     (if d \<in> set s then split_on d (drop (Suc (length (takeWhile (\<lambda>c. c \<noteq> d) s))) s) else [])"
  by (induction s) auto

lemma drop_past_end: "d \<notin> set s \<Longrightarrow> drop (Suc (length (takeWhile (\<lambda>c. c \<noteq> d) s))) s = []"
proof -
  assume "d \<notin> set s"
  then have "takeWhile (\<lambda>c. c \<noteq> d) s = s" by (auto simp: takeWhile_eq_all_conv)
  then show ?thesis by (simp del: takeWhile_eq_all_conv)
qed

lemma path_segments_step:
  "path_segments s =
     (let seg = takeWhile (\<lambda>c. c \<noteq> CHR ''/'') s in
      (if seg = [] \<or> seg = ''.'' then [] else [seg]) @ path_segments (drop (Suc (length seg)) s))"
proof (cases "CHR ''/'' \<in> set s")
  case True
  then show ?thesis
    by (simp add: path_segments_def Let_def split_on_takeWhile [of "CHR ''/''" s])
next
  case False
  then show ?thesis
    by (simp add: path_segments_def Let_def split_on_takeWhile [of "CHR ''/''" s] drop_past_end)
qed

lemma path_segments_Nil [simp]: "path_segments [] = []"
  by (simp add: path_segments_def)

lemma body_components_Nil [simp]: "body_components [] = []"
  by (simp add: body_components_def)

lemma trim_front_segments: "path_segments (trim_front s) = path_segments s"
proof (induction s rule: trim_front.induct)
  case (1 s)
  show ?case
    using "1" path_segments_step [of s] by (auto simp: trim_front.simps [of s] Let_def)
qed

lemma trim_front_cases: "trim_front s = [] \<or>
    (let seg = takeWhile (\<lambda>c. c \<noteq> CHR ''/'') (trim_front s) in seg \<noteq> [] \<and> seg \<noteq> ''.'')"
proof (induction s rule: trim_front.induct)
  case (1 s)
  then show ?case by (auto simp: trim_front.simps [of s] Let_def)
qed

lemma trim_front_suffix: "\<exists>z. s = z @ trim_front s"
proof (induction s rule: trim_front.induct)
  case (1 s)
  show ?case
  proof (cases "s = [] \<or> \<not> (let seg = takeWhile (\<lambda>c. c \<noteq> CHR ''/'') s in seg = [] \<or> seg = ''.'')")
    case True
    then show ?thesis by (auto simp: trim_front.simps [of s] Let_def)
  next
    case False
    let ?n = "Suc (length (takeWhile (\<lambda>c. c \<noteq> CHR ''/'') s))"
    from False "1" obtain z where "drop ?n s = z @ trim_front (drop ?n s)" by (auto simp: Let_def)
    moreover have "trim_front s = trim_front (drop ?n s)" using False by (auto simp: trim_front.simps [of s] Let_def)
    ultimately have "s = (take ?n s @ z) @ trim_front s" by (metis append.assoc append_take_drop_id)
    then show ?thesis by blast
  qed
qed

text \<open>Trimming at the end is trimming the reversed text at the front.\<close>

lemma split_on_snoc:
  "split_on d (s @ [c]) =
     (if c = d then split_on d s @ [[]] else butlast (split_on d s) @ [last (split_on d s) @ [c]])"
proof (induction s)
  case (Cons a s)
  then show ?case using split_on_nonempty [of d s]
    by (cases "split_on d s") (auto split: list.splits)
qed simp

lemma split_on_rev: "split_on d (rev s) = rev (map rev (split_on d s))"
proof (induction s)
  case (Cons a s)
  obtain x xs where "split_on d s = x # xs" using split_on_nonempty by (metis list.exhaust)
  with Cons show ?case by (simp add: split_on_snoc)
qed simp

lemma path_segments_rev: "path_segments (rev s) = rev (map rev (path_segments s))"
proof -
  have dot: "rev x = ''.'' \<longleftrightarrow> x = ''.''" for x :: string by (metis rev_rev_ident rev_singleton_conv)
  have "filter (\<lambda>x. x \<noteq> [] \<and> x \<noteq> ''.'') (rev (map rev xs)) = rev (map rev (filter (\<lambda>x. x \<noteq> [] \<and> x \<noteq> ''.'') xs))"
    for xs :: "string list"
    by (induction xs) (simp_all add: dot)
  then show ?thesis by (simp add: path_segments_def split_on_rev)
qed

definition trim_back :: "string \<Rightarrow> string" where
  "trim_back s = rev (trim_front (rev s))"

lemma trim_back_components: "body_components (trim_back s) = body_components s"
proof -
  have "path_segments (trim_back s) = path_segments s"
    using path_segments_rev [of "trim_front (rev s)"] path_segments_rev [of s]
    by (simp add: trim_back_def trim_front_segments rev_map comp_def)
  then show ?thesis by (simp add: body_components_def)
qed

lemma trim_back_prefix: "\<exists>z. s = trim_back s @ z"
proof -
  obtain z where "rev s = z @ trim_front (rev s)" using trim_front_suffix by blast
  then have "s = trim_back s @ rev z" unfolding trim_back_def by (metis rev_append rev_rev_ident)
  then show ?thesis by blast
qed

lemma trim_back_not_dot: "trim_back s \<noteq> ''.''"
proof
  assume "trim_back s = ''.''"
  then have "trim_front (rev s) = ''.''" unfolding trim_back_def by (metis rev_rev_ident rev_singleton_conv)
  with trim_front_cases [of "rev s"] show False by (simp add: Let_def)
qed

lemma body_next_components:
  "case body_next s of
     None \<Rightarrow> body_components s = []
   | Some (c, r) \<Rightarrow> body_components s = c # body_components r"
  using trim_front_cases [of s] trim_front_segments [of s] path_segments_step [of "trim_front s"]
  by (auto simp: body_next_def body_components_def Let_def) (metis list.map(2))

definition iter_components :: "bool \<times> string \<Rightarrow> path" where
  "iter_components st = (if fst st then body_components (snd st) else components (snd st))"

lemma components_start:
  "components s =
     (if starts_with ''/'' s then RootDir # body_components (drop 1 s)
      else if s = ''.'' \<or> starts_with ''./'' s then CurDir # body_components (drop 1 s)
      else body_components s)"
proof (cases s)
  case (Cons c r)
  show ?thesis
  proof (cases "c = CHR ''/''")
    case True
    then show ?thesis using Cons
      by (simp add: components_def body_components_def path_segments_def starts_with_def Let_def filter_filter conj_commute)
  next
    case False
    obtain x xs where split: "split_on CHR ''/'' s = x # xs" using split_on_nonempty by (metis list.exhaust)
    have x: "x = takeWhile (\<lambda>c. c \<noteq> CHR ''/'') s" using split split_on_takeWhile [of "CHR ''/''" s] by simp
    then have "x \<noteq> []" using False Cons by simp
    have dot: "x = ''.'' \<longleftrightarrow> s = ''.'' \<or> starts_with ''./'' s"
      using False Cons by (cases r) (auto simp: x starts_with_def)
    show ?thesis
    proof (cases "x = ''.''")
      case True
      then have "c = CHR ''.''" using x Cons False by simp
      moreover have "split_on CHR ''/'' (drop 1 s) = [] # xs"
        using split Cons \<open>c = CHR ''.''\<close> True split_on_nonempty [of "CHR ''/''" r] by (auto split: list.splits)
      ultimately show ?thesis
        using split \<open>x \<noteq> []\<close> True dot Cons
        by (simp add: components_def body_components_def path_segments_def starts_with_def Let_def filter_filter component_of_def conj_commute)
    next
      case False
      with split \<open>x \<noteq> []\<close> dot Cons \<open>c \<noteq> CHR ''/''\<close> show ?thesis
        by (auto simp: components_def body_components_def path_segments_def starts_with_def Let_def filter_filter conj_commute)
    qed
  qed
qed (simp add: components_def body_components_def path_segments_def starts_with_def)

lemma path_next_components:
  "case path_next st of
     None \<Rightarrow> iter_components st = []
   | Some (c, st') \<Rightarrow> iter_components st = c # iter_components st'"
proof (cases st)
  case (Pair started s)
  then show ?thesis
    using body_next_components [of s]
    by (auto simp: path_next_def iter_components_def components_start [of s] split: option.splits)
qed

lemma iter_after_components:
  "case iter_after ys st of
     Some st' \<Rightarrow> iter_components st = ys @ iter_components st'
   | None \<Rightarrow> take (length ys) (iter_components st) \<noteq> ys"
proof (induction ys st rule: iter_after.induct)
  case (2 y ys st)
  then show ?case using path_next_components [of st]
    by (auto split: option.splits)
qed simp


lemma components_body:
  assumes "\<not> starts_with ''/'' t" "t \<noteq> ''.''" "\<not> starts_with ''./'' t"
  shows "components t = body_components t"
  using assms by (simp add: components_start [of t])

lemma starts_with_prefix: "u = t @ z \<Longrightarrow> starts_with p t \<Longrightarrow> starts_with p u"
  unfolding starts_with_def by (metis append_eq_conv_conj append_take_drop_id append.assoc)

lemma trim_back_plain:
  assumes "\<not> starts_with ''/'' u" "\<not> starts_with ''./'' u"
  shows "components (trim_back u) = body_components u"
proof -
  obtain z where "u = trim_back u @ z" using trim_back_prefix by blast
  with assms starts_with_prefix have "\<not> starts_with ''/'' (trim_back u)" "\<not> starts_with ''./'' (trim_back u)" by blast+
  from components_body [OF this(1) trim_back_not_dot this(2)] show ?thesis by (simp add: trim_back_components)
qed

lemma trim_front_plain: "\<not> starts_with ''/'' (trim_front s)" "\<not> starts_with ''./'' (trim_front s)"
  using trim_front_cases [of s]
  by (cases "trim_front s"; cases "tl (trim_front s)"; auto simp: starts_with_def Let_def)+

lemma as_path_components: "components (as_path st) = iter_components st"
proof (cases st)
  case (Pair started s)
  show ?thesis
  proof (cases started)
    case True
    have "components (trim_back (trim_front s)) = body_components s"
      using trim_back_plain [OF trim_front_plain, of s] by (simp add: body_components_def trim_front_segments)
    with True Pair show ?thesis by (simp add: as_path_def iter_components_def trim_back_def Let_def)
  next
    case False
    show ?thesis
    proof (cases "starts_with ''/'' s \<or> s = ''.'' \<or> starts_with ''./'' s")
      case True
      then obtain c r where s: "s = c # r" "c = CHR ''/'' \<or> c = CHR ''.''" by (cases s) (auto simp: starts_with_def)
      have path: "as_path st = c # trim_back r"
        using True False Pair s by (auto simp: as_path_def trim_back_def Let_def)
      obtain z where z: "r = trim_back r @ z" using trim_back_prefix by blast
      have "components (c # trim_back r) = (if c = CHR ''/'' then RootDir else CurDir) # body_components r"
      proof (cases "c = CHR ''/''")
        case True
        then show ?thesis
          by (simp add: components_start [of "CHR ''/'' # trim_back r"] starts_with_def trim_back_components)
      next
        case False
        with True s have "r = [] \<or> take 1 r = ''/''" by (auto simp: starts_with_def)
        moreover have "take 1 (t @ z) = p \<Longrightarrow> t = [] \<or> take 1 t = p" for t p :: string by (cases t) auto
        ultimately have "trim_back r = [] \<or> take 1 (trim_back r) = ''/''"
          using z by (metis Nil_is_append_conv)
        then have "CHR ''.'' # trim_back r = ''.'' \<or> starts_with ''./'' (CHR ''.'' # trim_back r)"
          by (auto simp: starts_with_def)
        moreover have "\<not> starts_with ''/'' (CHR ''.'' # trim_back r)" by (simp add: starts_with_def)
        ultimately have "components (CHR ''.'' # trim_back r) = CurDir # body_components (trim_back r)"
          unfolding components_start [of "CHR ''.'' # trim_back r"] by simp
        with False s show ?thesis by (simp add: trim_back_components)
      qed
      moreover have "components s = (if c = CHR ''/'' then RootDir else CurDir) # body_components r"
        unfolding components_start [of s] using True s by (auto simp: starts_with_def)
      ultimately show ?thesis using False Pair path by (simp add: iter_components_def)
    next
      case plain: False
      then have "as_path st = trim_back s" using False Pair by (simp add: as_path_def trim_back_def Let_def)
      with plain False Pair trim_back_plain [of s] components_body [of s] show ?thesis
        by (simp add: iter_components_def)
    qed
  qed
qed

text \<open>Stripping a prefix from a path on the text agrees with doing it on the components, whatever
  repeated separators, dots and trailing slashes either text has.\<close>

lemma strip_prefix_components:
  "case path_strip_prefix base full of
     Some rest \<Rightarrow> components full = components base @ components rest
   | None \<Rightarrow> take (length (components base)) (components full) \<noteq> components base"
  using iter_after_components [of "components base" "(False, full)"]
  by (auto simp: path_strip_prefix_def as_path_components iter_components_def split: option.splits)

lemma components_Nil_iff: "components s = [] \<longleftrightarrow> s = []"
  using components_Nil [of s] by (auto simp: components_def)

text \<open>The path of a file relative to a checkout is worked out on the text, and agrees with doing
  it on the components: there is an answer exactly when the file is strictly below the checkout's
  root, and the text answered has exactly the components below the root (with backslashes turned
  into slashes), whatever repeated separators, dots and trailing slashes either text has.\<close>

theorem checkout_relative_components:
  "case checkout_relative c full of
     Some rel \<Rightarrow> \<exists>rest. rel = slashes rest \<and> components rest \<noteq> [] \<and>
       components full = components (co_root c) @ components rest
   | None \<Rightarrow> \<nexists>cs. cs \<noteq> [] \<and> components full = components (co_root c) @ cs"
  using strip_prefix_components [of "co_root c" full]
  by (auto simp: checkout_relative_def components_Nil_iff split: option.splits if_splits)


section \<open>Bindings and reconciliation\<close>

text \<open>A binding reaches one checkout and no other. After binding a checkout, asking for it again,
  with or without trailing separators, answers the project; asking for a checkout with another
  root, or for the same root on another host or on this machine, answers what it answered before.\<close>

theorem binding_scope:
  "project_for_checkout (bind_checkout c project b) c' =
     (if co_host c' = co_host c \<and> binding_key (co_root c') = binding_key (co_root c) then Some project
      else project_for_checkout b c')"
  by (auto simp: project_for_checkout_def bind_checkout_def project_for_def bind_worktree_def Let_def
      split: option.splits)

lemma read_listing_spec:
  "read_listing es on_server unreadable =
     (on_server @ List.map_filter (\<lambda>e. ok (entry_parse (re_entry_id e))) es,
      unreadable @ filter (\<lambda>s. ok (entry_parse s) = None) (map re_entry_id es))"
  by (induction es on_server unreadable rule: read_listing.induct)
    (auto simp: map_filter_Cons map_filter_Nil split: sum.splits)

text \<open>The two lists of a reconciliation are exactly the two differences between the catalogue and
  the listing, and nothing of the listing is lost: an identifier the server sent is known here,
  reported as unknown, or reported as unreadable. They agree exactly when every listed identifier
  reads and the same files are on both sides.\<close>

theorem reconcile_spec:
  "set (rc_deleted_elsewhere (reconcile m remote)) =
     set (entry_ids m) - {i. entry_hex i \<in> set (map re_entry_id remote) \<and> entry_ok i} \<and>
   set (rc_unknown_here (reconcile m remote)) =
     {i. entry_hex i \<in> set (map re_entry_id remote) \<and> entry_ok i} - set (entry_ids m) \<and>
   set (rc_unreadable (reconcile m remote)) =
     set (map re_entry_id remote) - {entry_hex i |i. entry_ok i} \<and>
   (is_agreed (reconcile m remote) \<longleftrightarrow>
      set (map re_entry_id remote) \<subseteq> {entry_hex i |i. entry_ok i} \<and>
      set (entry_ids m) = {i. entry_hex i \<in> set (map re_entry_id remote) \<and> entry_ok i})"
proof -
  let ?on = "List.map_filter (\<lambda>e. ok (entry_parse (re_entry_id e))) remote"
  let ?bad = "filter (\<lambda>s. ok (entry_parse s) = None) (map re_entry_id remote)"
  have rec: "reconcile m remote =
    \<lparr>rc_deleted_elsewhere = filter (\<lambda>i. i \<notin> set ?on) (entry_ids m),
     rc_unknown_here = filter (\<lambda>i. i \<notin> set (entry_ids m)) ?on, rc_unreadable = ?bad\<rparr>"
    by (simp add: reconcile_def read_listing_spec Let_def)
  have on: "set ?on = {i. entry_hex i \<in> set (map re_entry_id remote) \<and> entry_ok i}"
  proof -
    have "i \<in> set ?on \<longleftrightarrow> (\<exists>e \<in> set remote. ok (entry_parse (re_entry_id e)) = Some i)" for i
      by (force simp: List.map_filter_def)
    then have "i \<in> set ?on \<longleftrightarrow> entry_hex i \<in> set (map re_entry_id remote) \<and> entry_ok i" for i
      unfolding entry.dec_iff set_map image_iff by metis
    then show ?thesis by blast
  qed
  have bad: "set ?bad = set (map re_entry_id remote) - {entry_hex i |i. entry_ok i}"
    unfolding set_filter entry.dec_None_iff by auto
  have empty: "filter (\<lambda>i. i \<notin> set ys) xs = [] \<longleftrightarrow> set xs \<subseteq> set ys" for xs ys :: "entry_id list"
    by (auto simp: filter_empty_conv)
  have noBad: "?bad = [] \<longleftrightarrow> set (map re_entry_id remote) \<subseteq> {entry_hex i |i. entry_ok i}"
    unfolding set_empty [symmetric] bad by (rule Diff_eq_empty_iff)
  have "is_agreed (reconcile m remote) \<longleftrightarrow>
      set (map re_entry_id remote) \<subseteq> {entry_hex i |i. entry_ok i} \<and> set (entry_ids m) = set ?on"
    unfolding rec is_agreed_def reconciliation.simps empty noBad by blast
  moreover have "set (filter (\<lambda>i. i \<notin> set ?on) (entry_ids m)) = set (entry_ids m) - set ?on"
    "set (filter (\<lambda>i. i \<notin> set (entry_ids m)) ?on) = set ?on - set (entry_ids m)" by auto
  ultimately show ?thesis unfolding on [symmetric] bad [symmetric] by (simp add: rec)
qed

end
