(* ===== verification/Env_Sync.thy ===== *)
theory Env_Sync
  imports Env_Catalogue Store_Server
begin

text \<open>
  \<^verbatim>\<open>zode_env_sync\<close>'s \<^verbatim>\<open>env_state.rs\<close> and \<^verbatim>\<open>env_sync.rs\<close>: the record of what this machine last
  agreed on, the pull that decides and never writes, the push built once and sent as it is, and the
  replacement of a local file with its backup first. The file itself is an interface, because it may
  live on another host; the local file is its instance here.
\<close>

section \<open>What this machine last agreed on\<close>

record synced_entry =
  se_revision :: string
  se_local_hash :: string
  se_seq :: u64

record env_state =
  es_entries :: "(string, synced_entry) btree"
  es_manifest_seq :: u64

definition env_state_default :: env_state where
  "env_state_default = \<lparr>es_entries = [], es_manifest_seq = 0\<rparr>"

definition synced_entry_json :: "synced_entry \<Rightarrow> json" where
  "synced_entry_json s = JObj
     [(''revision'', JStr (se_revision s)), (''local_hash'', JStr (se_local_hash s)),
      (''seq'', JNum (uint (se_seq s)))]"

definition synced_entry_of_json :: "json \<Rightarrow> synced_entry option" where
  "synced_entry_of_json j =
     (case struct_fields [''revision'', ''local_hash'', ''seq''] j of
        Some [r, h, s] \<Rightarrow>
          (case (as_req as_str r, as_req as_str h, as_req as_u64 s) of
             (Some r, Some h, Some s) \<Rightarrow> Some \<lparr>se_revision = r, se_local_hash = h, se_seq = s\<rparr>
           | _ \<Rightarrow> None)
      | _ \<Rightarrow> None)"

definition env_state_json :: "env_state \<Rightarrow> json" where
  "env_state_json s = JObj
     [(''entries'', JObj (map (\<lambda>(k, v). (k, synced_entry_json v)) (es_entries s))),
      (''manifest_seq'', JNum (uint (es_manifest_seq s)))]"

definition env_state_of_json :: "json \<Rightarrow> env_state option" where
  "env_state_of_json j =
     (case struct_fields_default [''entries'', ''manifest_seq''] [''entries'', ''manifest_seq''] j of
        Some [e, m] \<Rightarrow>
          (case (as_default [] (btree_of_json synced_entry_of_json) e, as_default 0 as_u64 m) of
             (Some e, Some m) \<Rightarrow> Some \<lparr>es_entries = e, es_manifest_seq = m\<rparr>
           | _ \<Rightarrow> None)
      | _ \<Rightarrow> None)"

definition env_state_load :: "prims \<Rightarrow> path \<Rightarrow> ('w world, 'e, env_state) io" where
  "env_state_load P p = io_case (fs_read_to_string p) (\<lambda>r.
     case r of
       Inl _ \<Rightarrow> io_ok env_state_default
     | Inr raw \<Rightarrow>
         (case json_read P raw of
            Inl _ \<Rightarrow> io_ok env_state_default
          | Inr j \<Rightarrow> io_ok (case env_state_of_json j of Some s \<Rightarrow> s | None \<Rightarrow> env_state_default)))"

definition env_state_save :: "prims \<Rightarrow> env_state \<Rightarrow> path \<Rightarrow> ('w world, string, unit) io" where
  "env_state_save P s p =
     io_bind (io_res (json_pretty P (env_state_json s))) (\<lambda>raw.
     io_map_err io_display (write_secret_atomic p (as_bytes raw)))"

definition es_get :: "env_state \<Rightarrow> entry_id \<Rightarrow> synced_entry option" where
  "es_get s entry = bt_get (es_entries s) (entry_hex entry)"

definition seen_seq :: "env_state \<Rightarrow> entry_id \<Rightarrow> u64 option" where
  "seen_seq s entry = map_option se_seq (es_get s entry)"

definition es_manifest_seen :: "env_state \<Rightarrow> u64 option" where
  "es_manifest_seen s = (if es_manifest_seq s > 0 then Some (es_manifest_seq s) else None)"

definition es_record :: "entry_id \<Rightarrow> string \<Rightarrow> string \<Rightarrow> u64 \<Rightarrow> env_state \<Rightarrow> env_state" where
  "es_record entry revision local_hash seq s =
     s\<lparr>es_entries := bt_insert (entry_hex entry)
         \<lparr>se_revision = revision, se_local_hash = local_hash, se_seq = seq\<rparr> (es_entries s)\<rparr>"

definition es_record_manifest :: "u64 \<Rightarrow> env_state \<Rightarrow> env_state" where
  "es_record_manifest seq s = s\<lparr>es_manifest_seq := seq\<rparr>"

definition es_forget :: "entry_id \<Rightarrow> env_state \<Rightarrow> env_state" where
  "es_forget entry s = s\<lparr>es_entries := bt_remove (entry_hex entry) (es_entries s)\<rparr>"

definition known_entries :: "env_state \<Rightarrow> string list" where
  "known_entries s = map fst (es_entries s)"

definition env_hash :: "prims \<Rightarrow> bytes \<Rightarrow> string" where
  "env_hash P content = to_hex (sha256 P content)"

section \<open>Files, errors, outcomes\<close>

datatype env_sync_error = EnvClient client_error | EnvCrypto env_crypto_error | EnvIo string

fun env_sync_display :: "env_sync_error \<Rightarrow> string" where
  "env_sync_display (EnvClient e) = client_display e"
| "env_sync_display (EnvCrypto e) = env_crypto_display e"
| "env_sync_display (EnvIo detail) = detail"

text \<open>The trait \<^verbatim>\<open>EnvFile\<close>: only bytes cross it.\<close>

record 'w env_file =
  ef_read :: "('w world, env_sync_error, bytes option) io"
  ef_write_atomic :: "bytes \<Rightarrow> ('w world, env_sync_error, unit) io"
  ef_local_path :: "path option"

text \<open>\<^verbatim>\<open>Path::display\<close>\<close>

fun component_str :: "component \<Rightarrow> string" where
  "component_str RootDir = []"
| "component_str CurDir = ''.''"
| "component_str ParentDir = ''..''"
| "component_str (Normal n) = n"

definition path_display :: "path \<Rightarrow> string" where
  "path_display p = (if p = [RootDir] then ''/'' else join ''/'' (map component_str p))"

definition env_read_local :: "path \<Rightarrow> ('w world, env_sync_error, string option) io" where
  "env_read_local p = io_case (fs_read_to_string p) (\<lambda>r.
     case r of
       Inr content \<Rightarrow> io_ok (Some content)
     | Inl e \<Rightarrow>
         if io_error_kind e = NotFound then io_ok None
         else io_err (EnvIo (''could not read '' @ path_display p @ '': '' @ io_display e)))"

definition env_write_local :: "path \<Rightarrow> bytes \<Rightarrow> ('w world, env_sync_error, unit) io" where
  "env_write_local p contents =
     io_map_err (\<lambda>e. EnvIo (''could not write the file: '' @ io_display e)) (write_secret_atomic p contents)"

definition local_env_file :: "path \<Rightarrow> 'w env_file" where
  "local_env_file p =
     \<lparr>ef_read = io_bind (env_read_local p) (\<lambda>c. io_ok (map_option as_bytes c)),
      ef_write_atomic = env_write_local p, ef_local_path = Some p\<rparr>"

definition read_text :: "'w env_file \<Rightarrow> ('w world, env_sync_error, string option) io" where
  "read_text f = io_bind (ef_read f) (\<lambda>c.
     case c of
       None \<Rightarrow> io_ok None
     | Some bs \<Rightarrow>
         io_bind (io_res (ok_or (EnvIo ''could not read the file: it is not UTF-8 text'') (from_utf8 bs)))
           (\<lambda>t. io_ok (Some t)))"

definition env_save :: "prims \<Rightarrow> env_state \<Rightarrow> path \<Rightarrow> ('w world, env_sync_error, unit) io" where
  "env_save P s p = io_map_err (\<lambda>e. EnvIo (''could not record the sync state: '' @ e)) (env_state_save P s p)"

record env_divergence =
  ed_diff :: text_diff
  ed_remote :: string
  ed_revision :: string
  ed_seq :: u64
  ed_local_hash :: "string option"

datatype env_pull_outcome =
    EnvUpToDate
  | EnvLocalOnly
  | EnvRemoteNewer env_divergence
  | EnvConflict env_divergence
  | EnvKeyMismatch env_crypto_error
  | EnvPullRollback u64 u64

datatype env_push_outcome =
    EnvStored string u64
  | EnvPushUpToDate
  | EnvPushConflict env_divergence
  | EnvNothingToPush

section \<open>Pulling\<close>

definition opened_text :: "env_crypto_error + opened \<Rightarrow> env_crypto_error + u64 \<times> string" where
  "opened_text r = bind_res r (\<lambda>x.
     bind_res (ok_or (EnvMalformed ''the stored file is not text'') (from_utf8 (op_payload x)))
       (\<lambda>t. Inr (op_seq x, t)))"

definition pull_decide ::
    "prims \<Rightarrow> entry_id \<Rightarrow> string option \<Rightarrow> remote_document \<Rightarrow> env_state \<Rightarrow> u64 \<Rightarrow> string \<Rightarrow> path \<Rightarrow>
     ('w world, env_sync_error, env_pull_outcome) io" where
  "pull_decide P entry local document state seq remote state_path =
     (let existed = (local \<noteq> None);
          local_text = (case local of Some t \<Rightarrow> t | None \<Rightarrow> []);
          local_hash = env_hash P (as_bytes local_text)
      in if local_hash = env_hash P (as_bytes remote) then
           io_bind (env_save P (es_record entry (doc_revision document) local_hash seq state) state_path) (\<lambda>_.
           io_ok EnvUpToDate)
         else
           let unchanged_since_sync =
                 (case es_get state entry of Some synced \<Rightarrow> se_local_hash synced = local_hash | None \<Rightarrow> False);
               divergence = \<lparr>ed_diff = diff_between P local_text remote, ed_remote = remote,
                 ed_revision = doc_revision document, ed_seq = seq,
                 ed_local_hash = (if existed then Some local_hash else None)\<rparr>
           in io_ok (if unchanged_since_sync then EnvRemoteNewer divergence else EnvConflict divergence))"

definition pull_document ::
    "prims \<Rightarrow> 'w sync_context \<Rightarrow> env_dek \<Rightarrow> entry_id \<Rightarrow> resource \<Rightarrow> string option \<Rightarrow> remote_document \<Rightarrow> path \<Rightarrow>
     ('w world, env_sync_error, env_pull_outcome) io" where
  "pull_document P C k entry resource local document state_path =
     io_bind (env_state_load P state_path) (\<lambda>state.
     io_bind (io_res (map_err (\<lambda>e. EnvCrypto (env_of_crypto e)) (from_blob P (doc_blob document)))) (\<lambda>envelope.
     case env_open P k (sc_user_id C) resource (seen_seq state entry) envelope of
       Inl (EnvRollback seen got) \<Rightarrow> io_ok (EnvPullRollback seen got)
     | Inl e \<Rightarrow> io_ok (EnvKeyMismatch e)
     | Inr opened \<Rightarrow>
         io_bind (io_res (map_err EnvCrypto (opened_text (Inr opened)))) (\<lambda>(seq, remote).
         pull_decide P entry local document state seq remote state_path)))"

definition env_pull_file ::
    "prims \<Rightarrow> 'w sync_context \<Rightarrow> env_dek \<Rightarrow> entry_id \<Rightarrow> 'w env_file \<Rightarrow> path \<Rightarrow>
     ('w world, env_sync_error, env_pull_outcome) io" where
  "env_pull_file P C k entry f state_path =
     io_bind (read_text f) (\<lambda>local.
     io_bind (io_res (map_err EnvCrypto (entry_resource entry))) (\<lambda>resource.
     io_bind (io_map_err EnvClient (fetch P (sc_api C) resource)) (\<lambda>found.
     case found of
       None \<Rightarrow> io_ok EnvLocalOnly
     | Some document \<Rightarrow> pull_document P C k entry resource local document state_path)))"

definition env_pull ::
    "prims \<Rightarrow> 'w sync_context \<Rightarrow> env_dek \<Rightarrow> entry_id \<Rightarrow> path \<Rightarrow> path \<Rightarrow>
     ('w world, env_sync_error, env_pull_outcome) io" where
  "env_pull P C k entry local_path state_path =
     env_pull_file P C k entry (local_env_file local_path) state_path"

section \<open>Replacing the local file\<close>

definition ensure_unchanged :: "prims \<Rightarrow> string option \<Rightarrow> bytes option \<Rightarrow> env_sync_error + unit" where
  "ensure_unchanged P seen_local_hash current =
     (if map_option (env_hash P) current = seen_local_hash then Inr ()
      else Inl (EnvIo ''the file changed since you looked; fetch it again to see the difference''))"

definition back_up_current :: "path \<Rightarrow> entry_id \<Rightarrow> bytes \<Rightarrow> ('w world, env_sync_error, unit) io" where
  "back_up_current backups_root entry current =
     io_bind (io_map_err
       (\<lambda>e. EnvIo (''could not back up the current file, so it was not replaced: '' @ io_display e))
       (back_up_secret backups_root entry current)) (\<lambda>_. io_ok ())"

definition record_applied ::
    "prims \<Rightarrow> entry_id \<Rightarrow> string \<Rightarrow> string \<Rightarrow> u64 \<Rightarrow> path \<Rightarrow> ('w world, env_sync_error, unit) io" where
  "record_applied P entry remote revision seq state_path =
     io_bind (env_state_load P state_path) (\<lambda>state.
     env_save P (es_record entry revision (env_hash P (as_bytes remote)) seq state) state_path)"

definition back_up_if_any :: "path \<Rightarrow> entry_id \<Rightarrow> bytes option \<Rightarrow> ('w world, env_sync_error, unit) io" where
  "back_up_if_any backups_root entry current =
     (case current of Some c \<Rightarrow> back_up_current backups_root entry c | None \<Rightarrow> io_ok ())"

definition replace_local ::
    "prims \<Rightarrow> entry_id \<Rightarrow> path \<Rightarrow> string option \<Rightarrow> path \<Rightarrow> string \<Rightarrow> string \<Rightarrow> u64 \<Rightarrow> path \<Rightarrow>
     ('w world, env_sync_error, unit) io" where
  "replace_local P entry local_path current backups_root remote revision seq state_path =
     io_bind (back_up_if_any backups_root entry (map_option as_bytes current)) (\<lambda>_.
     io_bind (env_write_local local_path (as_bytes remote)) (\<lambda>_.
     record_applied P entry remote revision seq state_path))"

definition env_apply_remote ::
    "prims \<Rightarrow> entry_id \<Rightarrow> path \<Rightarrow> path \<Rightarrow> string \<Rightarrow> string \<Rightarrow> u64 \<Rightarrow> path \<Rightarrow>
     ('w world, env_sync_error, unit) io" where
  "env_apply_remote P entry local_path backups_root remote revision seq state_path =
     io_bind (env_read_local local_path) (\<lambda>current.
     replace_local P entry local_path current backups_root remote revision seq state_path)"

definition apply_remote_if_unchanged ::
    "prims \<Rightarrow> entry_id \<Rightarrow> path \<Rightarrow> string option \<Rightarrow> path \<Rightarrow> string \<Rightarrow> string \<Rightarrow> u64 \<Rightarrow> path \<Rightarrow>
     ('w world, env_sync_error, unit) io" where
  "apply_remote_if_unchanged P entry local_path seen_local_hash backups_root remote revision seq state_path =
     io_bind (env_read_local local_path) (\<lambda>current.
     io_bind (io_res (ensure_unchanged P seen_local_hash (map_option as_bytes current))) (\<lambda>_.
     replace_local P entry local_path current backups_root remote revision seq state_path))"

definition apply_remote_to ::
    "prims \<Rightarrow> entry_id \<Rightarrow> 'w env_file \<Rightarrow> string option \<Rightarrow> path \<Rightarrow> string \<Rightarrow> string \<Rightarrow> u64 \<Rightarrow> path \<Rightarrow>
     ('w world, env_sync_error, unit) io" where
  "apply_remote_to P entry f seen_local_hash backups_root remote revision seq state_path =
     io_bind (ef_read f) (\<lambda>current.
     io_bind (io_res (ensure_unchanged P seen_local_hash current)) (\<lambda>_.
     io_bind (back_up_if_any backups_root entry current) (\<lambda>_.
     io_bind (ef_write_atomic f (as_bytes remote)) (\<lambda>_.
     record_applied P entry remote revision seq state_path))))"

section \<open>Pushing\<close>

record prepared_push =
  pp_entry :: entry_id
  pp_wire :: wire_bytes
  pp_seq :: u64
  pp_local_hash :: string
  pp_local :: string
  pp_revision :: "string option"

text \<open>\<^verbatim>\<open>synced.seq + 1\<close> is a release build's: it wraps at the largest \<^verbatim>\<open>u64\<close>.\<close>

definition prepare_push_of ::
    "prims \<Rightarrow> env_dek \<Rightarrow> string \<Rightarrow> entry_id \<Rightarrow> string option \<Rightarrow> path \<Rightarrow>
     ('w world, env_sync_error, prepared_push option) io" where
  "prepare_push_of P k user_id entry local state_path =
     (case local of
        None \<Rightarrow> io_ok None
      | Some local \<Rightarrow>
          io_bind (env_state_load P state_path) (\<lambda>state.
          let local_hash = env_hash P (as_bytes local); synced = es_get state entry in
          if (case synced of Some s \<Rightarrow> se_local_hash s = local_hash | None \<Rightarrow> False) then io_ok None
          else
            let seq = (case synced of Some s \<Rightarrow> se_seq s + 1 | None \<Rightarrow> 1) in
            io_bind (io_res (map_err EnvCrypto (entry_resource entry))) (\<lambda>resource.
            io_bind (io_map_err EnvCrypto (env_wire P k user_id resource seq (as_bytes local))) (\<lambda>wire.
            io_ok (Some \<lparr>pp_entry = entry, pp_wire = wire, pp_seq = seq, pp_local_hash = local_hash,
                         pp_local = local, pp_revision = map_option se_revision synced\<rparr>)))))"

definition prepare_push ::
    "prims \<Rightarrow> env_dek \<Rightarrow> string \<Rightarrow> entry_id \<Rightarrow> path \<Rightarrow> path \<Rightarrow>
     ('w world, env_sync_error, prepared_push option) io" where
  "prepare_push P k user_id entry local_path state_path =
     io_bind (env_read_local local_path) (\<lambda>local. prepare_push_of P k user_id entry local state_path)"

definition prepare_push_from ::
    "prims \<Rightarrow> env_dek \<Rightarrow> string \<Rightarrow> entry_id \<Rightarrow> 'w env_file \<Rightarrow> path \<Rightarrow>
     ('w world, env_sync_error, prepared_push option) io" where
  "prepare_push_from P k user_id entry f state_path =
     io_bind (read_text f) (\<lambda>local. prepare_push_of P k user_id entry local state_path)"

definition push_precondition :: "prepared_push \<Rightarrow> precondition" where
  "push_precondition p = (case pp_revision p of Some revision \<Rightarrow> Replace revision | None \<Rightarrow> Create)"

definition send_outcome ::
    "prims \<Rightarrow> 'w sync_context \<Rightarrow> env_dek \<Rightarrow> resource \<Rightarrow> prepared_push \<Rightarrow> path \<Rightarrow> write_outcome \<Rightarrow>
     ('w world, env_sync_error, env_push_outcome) io" where
  "send_outcome P C k resource prepared state_path outcome =
     io_bind (env_state_load P state_path) (\<lambda>state.
     case outcome of
       Stored revision \<Rightarrow>
         io_bind (env_save P (es_record (pp_entry prepared) revision (pp_local_hash prepared) (pp_seq prepared) state)
           state_path) (\<lambda>_.
         io_ok (EnvStored revision (pp_seq prepared)))
     | Conflict document \<Rightarrow>
         io_bind (io_res (map_err (\<lambda>e. EnvCrypto (env_of_crypto e)) (from_blob P (doc_blob document)))) (\<lambda>envelope.
         io_bind (io_res (map_err EnvCrypto
           (opened_text (env_open P k (sc_user_id C) resource None envelope)))) (\<lambda>(seq, remote).
         io_ok (EnvPushConflict \<lparr>ed_diff = diff_between P (pp_local prepared) remote, ed_remote = remote,
           ed_revision = doc_revision document, ed_seq = seq,
           ed_local_hash = Some (pp_local_hash prepared)\<rparr>)))
     | Gone \<Rightarrow>
         io_bind (env_save P (es_forget (pp_entry prepared) state) state_path) (\<lambda>_. io_ok EnvNothingToPush))"

definition send_prepared ::
    "prims \<Rightarrow> 'w sync_context \<Rightarrow> env_dek \<Rightarrow> prepared_push \<Rightarrow> path \<Rightarrow>
     ('w world, env_sync_error, env_push_outcome) io" where
  "send_prepared P C k prepared state_path =
     io_bind (io_res (map_err EnvCrypto (entry_resource (pp_entry prepared)))) (\<lambda>resource.
     io_bind (io_map_err EnvClient (store P (sc_api C) resource (wire_blob (pp_wire prepared))
       (push_precondition prepared))) (\<lambda>outcome.
     send_outcome P C k resource prepared state_path outcome))"

definition env_push_file ::
    "prims \<Rightarrow> 'w sync_context \<Rightarrow> env_dek \<Rightarrow> entry_id \<Rightarrow> 'w env_file \<Rightarrow> path \<Rightarrow>
     ('w world, env_sync_error, env_push_outcome) io" where
  "env_push_file P C k entry f state_path =
     io_bind (read_text f) (\<lambda>local.
     io_bind (prepare_push_of P k (sc_user_id C) entry local state_path) (\<lambda>prepared.
     case prepared of
       None \<Rightarrow> io_ok (if local \<noteq> None then EnvPushUpToDate else EnvNothingToPush)
     | Some p \<Rightarrow> send_prepared P C k p state_path))"

definition env_push ::
    "prims \<Rightarrow> 'w sync_context \<Rightarrow> env_dek \<Rightarrow> entry_id \<Rightarrow> path \<Rightarrow> path \<Rightarrow>
     ('w world, env_sync_error, env_push_outcome) io" where
  "env_push P C k entry local_path state_path =
     env_push_file P C k entry (local_env_file local_path) state_path"


section \<open>The state file\<close>

lemma synced_entry_roundtrip [simp]: "synced_entry_of_json (synced_entry_json s) = Some s"
  by (simp add: synced_entry_of_json_def synced_entry_json_def struct_simps)

lemma env_state_roundtrip: "bt_ok (es_entries s) \<Longrightarrow> env_state_of_json (env_state_json s) = Some s"
  by (simp add: env_state_of_json_def env_state_json_def struct_simps btree_json_roundtrip as_default_def)

text \<open>What an undisturbed load answers.\<close>

definition env_state_at :: "prims \<Rightarrow> path \<Rightarrow> 'w world \<Rightarrow> env_state" where
  "env_state_at P p w =
     (case file_at p w of
        None \<Rightarrow> env_state_default
      | Some bs \<Rightarrow>
          (case from_utf8 bs of
             None \<Rightarrow> env_state_default
           | Some raw \<Rightarrow>
               (case json_read P raw of
                  Inl _ \<Rightarrow> env_state_default
                | Inr j \<Rightarrow> (case env_state_of_json j of Some s \<Rightarrow> s | None \<Rightarrow> env_state_default))))"

definition quiet_fs :: "'w world \<Rightarrow> bool" where
  "quiet_fs w \<longleftrightarrow> (\<forall>t. fs_fault w t = None)"

lemma calm_quiet_fs: "calm w \<Longrightarrow> quiet_fs w"
  by (simp add: calm_def quiet_fs_def)

lemma quiet_fs_frame: "frame fs_fault m \<Longrightarrow> m w = (r, w') \<Longrightarrow> quiet_fs w \<Longrightarrow> quiet_fs w'"
  unfolding quiet_fs_def by (drule frameD, assumption) simp

lemma env_state_load_quiet:
  "quiet_fs w \<Longrightarrow> env_state_load P p w = (Inr (env_state_at P p w), advance w)"
  by (auto simp: env_state_load_def env_state_at_def quiet_fs_def io_case_apply fs_read_to_string_def io_bind_apply
      fs_read_def fs_guard_def split: option.splits sum.splits)

lemma env_state_load_total:
  obtains s where "env_state_load P p w = (Inr s, advance w)"
proof (cases "fst (fs_read_to_string p w)")
  case (Inl e)
  then show thesis
    by (intro that [of env_state_default])
      (auto simp: env_state_load_def io_case_apply fs_read_to_string_def io_bind_apply fs_read_def fs_guard_def
        split: option.splits prod.splits sum.splits)
next
  case (Inr raw)
  then show thesis
    using that
    by (cases "json_read P raw") (auto simp: env_state_load_def io_case_apply fs_read_to_string_def io_bind_apply fs_read_def fs_guard_def
        split: option.splits prod.splits sum.splits)
qed

lemma btree_of_json_ok: "btree_of_json f j = Some m \<Longrightarrow> bt_ok m"
  by (auto simp: btree_of_json_def bt.inv_fold_put split: json.splits)

lemma env_state_of_json_ok: "env_state_of_json j = Some s \<Longrightarrow> bt_ok (es_entries s)"
  by (auto simp: env_state_of_json_def as_default_def btree_of_json_ok bt_ok_def [of "[]"]
      split: option.splits list.splits)

lemma env_state_at_ok: "bt_ok (es_entries (env_state_at P p w))"
  by (auto simp: env_state_at_def env_state_default_def env_state_of_json_ok split: option.splits sum.splits)

lemma es_get_record:
  "es_get (es_record e r h q s) e' =
     (if entry_hex e' = entry_hex e then Some \<lparr>se_revision = r, se_local_hash = h, se_seq = q\<rparr> else es_get s e')"
  by (simp add: es_get_def es_record_def)

lemma es_record_ok: "bt_ok (es_entries s) \<Longrightarrow> bt_ok (es_entries (es_record e r h q s))"
  by (simp add: es_record_def bt_ok_insert)

lemma es_forget_ok: "bt_ok (es_entries s) \<Longrightarrow> bt_ok (es_entries (es_forget e s))"
  by (simp add: es_forget_def bt_ok_remove)

lemma env_save_at:
  assumes "env_save P s p w = (Inr (), w')" and "json_ok P" "named_path p" "bt_ok (es_entries s)"
  shows "env_state_at P p w' = s" and "q \<noteq> p \<Longrightarrow> file_at q w' = file_at q w"
proof -
  from assms(1) obtain raw where raw: "json_pretty P (env_state_json s) = Inr raw"
    and wr: "write_secret_atomic p (as_bytes raw) w = (Inr (), w')"
    by (auto simp: env_save_def env_state_save_def io_eqs)
  from raw assms(2) have "json_read P raw = Inr (env_state_json s)" "utf8_ok raw" by (auto simp: json_ok_def)
  moreover have "file_at p w' = Some (as_bytes raw)" using write_secret_target [OF assms(3) wr] by simp
  ultimately show "env_state_at P p w' = s"
    using assms(4) by (simp add: env_state_at_def from_utf8_as_bytes env_state_roundtrip)
  show "q \<noteq> p \<Longrightarrow> file_at q w' = file_at q w" using write_secret_others [OF assms(3) wr] by blast
qed

lemma env_save_kept:
  assumes "env_save P s p w = (r, w')" and "named_path p" "q \<noteq> p" "file_at q w \<noteq> None"
  shows "file_at q w' = file_at q w"
proof -
  from assms(1) consider "w' = w" | raw r' where "write_secret_atomic p (as_bytes raw) w = (r', w')"
    by (cases "json_pretty P (env_state_json s)")
      (auto simp: env_save_def env_state_save_def io_bind_apply io_map_err_apply split: prod.splits)
  then show ?thesis
  proof cases
    case (2 raw r')
    then show ?thesis using write_secret_others [OF assms(2) 2 assms(3)] assms(4) by blast
  qed simp
qed

section \<open>What the steps leave alone\<close>

lemma frame_env_state [frame_intros]:
  "frame net (env_state_load P p)" "frame files (env_state_load P p)" "frame keychain (env_state_load P p)"
  "frame fs_fault (env_state_load P p)"
  "frame net (env_save P s p)" "frame keychain (env_save P s p)" "frame fs_fault (env_save P s p)"
  unfolding env_state_load_def env_save_def env_state_save_def by (intro frame_intros)+

lemma frame_env_read [frame_intros]:
  "frame net (env_read_local p)" "frame files (env_read_local p)" "frame keychain (env_read_local p)"
  "frame fs_fault (env_read_local p)"
  unfolding env_read_local_def by (intro frame_intros)+

lemma frame_read_text [frame_intros]: "frame v (ef_read f) \<Longrightarrow> frame v (read_text f)"
  unfolding read_text_def by (intro frame_intros) auto

lemma frame_local_read [frame_intros]:
  "frame net (ef_read (local_env_file p))" "frame files (ef_read (local_env_file p))"
  "frame keychain (ef_read (local_env_file p))" "frame fs_fault (ef_read (local_env_file p))"
  by (simp_all add: local_env_file_def) (intro frame_intros)+

lemma frame_fault_http [frame_intros]: "frame fs_fault (http_send A r)"
  by (auto simp: frame_def http_send_def split: prod.splits)

lemma frame_fault_client [frame_intros]:
  "frame fs_fault (fetch_body P A r)" "frame fs_fault (fetch P A r)" "frame fs_fault (store P A r b pre)"
  unfolding fetch_def fetch_body_def store_def by (intro frame_intros)+

lemma read_local_text:
  assumes "utf8_ok t" "file_at p w = Some (as_bytes t)" "quiet_fs w"
  shows "read_text (local_env_file p) w = (Inr (Some t), advance w)"
  using assms
  by (simp add: read_text_def local_env_file_def env_read_local_def io_bind_apply io_case_apply quiet_fs_def
      fs_read_to_string_quiet from_utf8_as_bytes)


section \<open>A pull decides and does not write\<close>

definition fresh :: "u64 option \<Rightarrow> u64 \<Rightarrow> bool" where
  "fresh seen seq \<longleftrightarrow> (case seen of Some s \<Rightarrow> s \<le> seq | None \<Rightarrow> True)"

lemma env_open_fresh': "env_open P k u r seen e = Inr x \<Longrightarrow> fresh seen (op_seq x)"
  by (cases seen) (auto simp: fresh_def dest: env_open_fresh)

lemma opened_text_Inr: "opened_text r = Inr (seq, t) \<longleftrightarrow> (\<exists>x. r = Inr x \<and> op_seq x = seq \<and> from_utf8 (op_payload x) = Some t)"
  by (auto simp: opened_text_def bind_res_eq_Inr)

definition pull_harmless :: "u64 option \<Rightarrow> env_sync_error + env_pull_outcome \<Rightarrow> bool" where
  "pull_harmless seen r \<longleftrightarrow>
     (case r of
        Inr (EnvRemoteNewer dv) \<Rightarrow> fresh seen (ed_seq dv)
      | Inr (EnvConflict dv) \<Rightarrow> fresh seen (ed_seq dv)
      | Inr EnvUpToDate \<Rightarrow> False
      | Inr (EnvPullRollback s got) \<Rightarrow> seen = Some s \<and> got < s
      | _ \<Rightarrow> True)"

lemma env_open_rollback: "env_open P k u r seen e = Inl (EnvRollback s got) \<Longrightarrow> seen = Some s \<and> got < s"
proof -
  have unpacked: "unpack b \<noteq> Inl (EnvRollback s got)" for b
    by (simp add: unpack_def Let_def)
  have crypto: "env_of_crypto x \<noteq> EnvRollback s got" for x by (cases x) simp_all
  assume "env_open P k u r seen e = Inl (EnvRollback s got)"
  then show ?thesis
    using unpacked crypto
    by (auto simp: env_open_def bind_res_eq_Inl map_err_eq_Inl split: option.splits if_splits)
qed

lemma pull_decide_shape:
  assumes "pull_decide P entry local doc state seq remote sp w = (r, w')" and "fresh (seen_seq state entry) seq"
  obtains (quiet) "w' = w" "pull_harmless (seen_seq state entry) r"
  | (recorded) h x where "h = env_hash P (as_bytes remote)"
      "env_save P (es_record entry (doc_revision doc) h seq state) sp w = (x, w')"
      "r = (case x of Inl e \<Rightarrow> Inl e | Inr _ \<Rightarrow> Inr EnvUpToDate)"
proof (cases "env_hash P (as_bytes (case local of Some t \<Rightarrow> t | None \<Rightarrow> [])) = env_hash P (as_bytes remote)")
  case True
  obtain x w2 where x: "env_save P (es_record entry (doc_revision doc) (env_hash P (as_bytes remote)) seq state) sp w = (x, w2)"
    by force
  with True assms(1) have "w2 = w'" "r = (case x of Inl e \<Rightarrow> Inl e | Inr _ \<Rightarrow> Inr EnvUpToDate)"
    by (cases x; simp add: pull_decide_def Let_def io_bind_apply)+
  with x show thesis by (intro recorded [OF refl]) simp_all
next
  case False
  with assms show thesis
    by (intro quiet) (auto simp: pull_decide_def Let_def pull_harmless_def)
qed

lemma pull_document_shape:
  assumes "pull_document P C k entry res local doc sp w = (r, w')" and "quiet_fs w"
  obtains (quiet) "files w' = files w" "pull_harmless (seen_seq (env_state_at P sp w) entry) r"
  | (recorded) h rev seq x where "fresh (seen_seq (env_state_at P sp w) entry) seq"
      "env_save P (es_record entry rev h seq (env_state_at P sp w)) sp (advance w) = (x, w')"
      "r = (case x of Inl e \<Rightarrow> Inl e | Inr _ \<Rightarrow> Inr EnvUpToDate)"
proof -
  let ?seen = "seen_seq (env_state_at P sp w) entry"
  note start = assms(1) [unfolded pull_document_def io_bind_apply env_state_load_quiet [OF assms(2)], simplified]
  have err: "pull_harmless ?seen (Inl e)" for e by (simp add: pull_harmless_def)
  show thesis
  proof (cases "from_blob P (doc_blob doc)")
    case (Inl x)
    with start err show thesis by (intro quiet) auto
  next
    case env: (Inr e)
    show thesis
    proof (cases "env_open P k (sc_user_id C) res ?seen e")
      case (Inl x)
      have "files w' = files w" "pull_harmless ?seen r"
        using start env Inl env_open_rollback [of P k "sc_user_id C" res ?seen e]
        by (cases x; auto simp: pull_harmless_def)+
      then show thesis by (rule quiet)
    next
      case opened: (Inr opened)
      have fr: "fresh ?seen (op_seq opened)" by (rule env_open_fresh' [OF opened])
      show thesis
      proof (cases "opened_text (Inr opened)")
        case (Inl x)
        with start env opened err show thesis by (intro quiet) (auto simp: io_bind_apply)
      next
        case (Inr st)
        obtain seq remote where st: "st = (seq, remote)" by force
        with Inr have sq: "seq = op_seq opened" by (simp add: opened_text_Inr)
        have dec: "pull_decide P entry local doc (env_state_at P sp w) seq remote sp (advance w) = (r, w')"
          using start env opened Inr st by (simp add: io_bind_apply)
        from dec fr [folded sq] show thesis
          by (cases rule: pull_decide_shape) (use fr [folded sq] that in auto)
      qed
    qed
  qed
qed

lemma pull_shape:
  assumes "env_pull_file P C k entry f sp w = (r, w')" and "quiet_fs w"
    and "frame files (ef_read f)" "frame fs_fault (ef_read f)"
  obtains (quiet) "files w' = files w" "pull_harmless (seen_seq (env_state_at P sp w) entry) r"
  | (recorded) h rev seq x w3 where "files w3 = files w" "fresh (seen_seq (env_state_at P sp w) entry) seq"
      "env_save P (es_record entry rev h seq (env_state_at P sp w)) sp w3 = (x, w')"
      "r = (case x of Inl e \<Rightarrow> Inl e | Inr _ \<Rightarrow> Inr EnvUpToDate)"
proof -
  let ?seen = "seen_seq (env_state_at P sp w) entry"
  have err: "pull_harmless ?seen (Inl e)" "pull_harmless ?seen (Inr EnvLocalOnly)" for e
    by (simp_all add: pull_harmless_def)
  obtain a w1 where a: "read_text f w = (a, w1)" by force
  have f1: "files w1 = files w" using frameD [OF frame_read_text [OF assms(3)] a] .
  have q1: "quiet_fs w1" by (rule quiet_fs_frame [OF frame_read_text [OF assms(4)] a assms(2)])
  show thesis
  proof (cases "isl a \<or> isl (entry_resource entry)")
    case True
    then show thesis
      using assms(1) a f1 err
      by (cases a; cases "entry_resource entry") (auto simp: env_pull_file_def io_bind_apply intro!: quiet)
  next
    case False
    then obtain local res where l: "a = Inr local" and res: "entry_resource entry = Inr res"
      by (cases a; cases "entry_resource entry") auto
    obtain b w2 where b: "fetch P (sc_api C) res w1 = (b, w2)" by force
    have f2: "files w2 = files w" using frameD [OF frame_client(3) b] f1 by simp
    have q2: "quiet_fs w2" by (rule quiet_fs_frame [OF frame_fault_client(2) b q1])
    have at: "env_state_at P sp w2 = env_state_at P sp w" by (simp add: env_state_at_def file_at_def f2)
    have run: "(case map_err EnvClient b of
        Inl e \<Rightarrow> (Inl e, w2)
      | Inr None \<Rightarrow> (Inr EnvLocalOnly, w2)
      | Inr (Some doc) \<Rightarrow> pull_document P C k entry res local doc sp w2) = (r, w')"
      using assms(1) a l res b
      by (cases b) (auto simp: env_pull_file_def io_bind_apply io_map_err_apply split: option.splits)
    show thesis
    proof (cases "\<exists>doc. b = Inr (Some doc)")
      case False
      then show thesis using run f2 err by (cases b; cases "projr b") (auto intro!: quiet)
    next
      case True
      then obtain doc where "b = Inr (Some doc)" by blast
      with run have "pull_document P C k entry res local doc sp w2 = (r, w')" by simp
      from this q2 show thesis
      proof (cases rule: pull_document_shape)
        case quiet
        then show thesis using f2 by (intro that(1)) (simp_all add: at)
      next
        case (recorded h rev seq x)
        then show thesis using f2 by (intro that(2) [of "advance w2"]) (simp_all add: at)
      qed
    qed
  qed
qed

text \<open>C29. A pull never goes back and writes nothing but the sync record. On a machine whose disk answers,
  in whatever way the service answers: a difference it offers is never older than what this machine
  recorded, a blob with an older sequence number is answered as a rollback, and on every answer but
  one no file at all is changed. The one is that both sides agree: then the record has a sequence
  number for the entry that is not older either, what it says of other entries is as before, and
  every other file on the disk is as it was. A pull that fails leaves every file that was there
  alone, the record apart.\<close>

theorem env_pull_never_goes_back:
  assumes "env_pull P C k entry local_path state_path w = (r, w')" and "quiet_fs w" "json_ok P"
    and "named_path state_path"
  shows "case r of
      Inr EnvUpToDate \<Rightarrow> (\<forall>q. q \<noteq> state_path \<longrightarrow> file_at q w' = file_at q w) \<and>
        (\<exists>seq. seen_seq (env_state_at P state_path w') entry = Some seq \<and>
           fresh (seen_seq (env_state_at P state_path w) entry) seq) \<and>
        (\<forall>e. entry_hex e \<noteq> entry_hex entry \<longrightarrow> es_get (env_state_at P state_path w') e = es_get (env_state_at P state_path w) e)
    | Inr outcome \<Rightarrow> files w' = files w \<and> pull_harmless (seen_seq (env_state_at P state_path w) entry) r
    | Inl e \<Rightarrow> (\<forall>q. q \<noteq> state_path \<longrightarrow> file_at q w \<noteq> None \<longrightarrow> file_at q w' = file_at q w)"
proof -
  have run: "env_pull_file P C k entry (local_env_file local_path) state_path w = (r, w')"
    using assms(1) by (simp add: env_pull_def)
  from run assms(2) frame_local_read(2) frame_local_read(4) show ?thesis
  proof (cases rule: pull_shape)
    case quiet
    then show ?thesis
      using file_at_files [OF quiet(1)] by (cases r) (auto simp: pull_harmless_def split: env_pull_outcome.splits)
  next
    case (recorded h rev seq x w3)
    have same: "file_at q w3 = file_at q w" for q by (rule file_at_files [OF recorded(1)])
    show ?thesis
    proof (cases x)
      case (Inl e)
      with recorded(3,4) env_save_kept [OF recorded(3) assms(4)] same show ?thesis by simp
    next
      case (Inr u)
      then have save: "env_save P (es_record entry rev h seq (env_state_at P state_path w)) state_path w3 = (Inr (), w')"
        using recorded(3) by simp
      note saved = env_save_at [OF save assms(3,4) es_record_ok [OF env_state_at_ok]]
      have "seen_seq (env_state_at P state_path w') entry = Some seq"
        by (simp add: seen_seq_def saved(1) es_get_record)
      moreover have "es_get (env_state_at P state_path w') e = es_get (env_state_at P state_path w) e" if "entry_hex e \<noteq> entry_hex entry" for e
        using that by (simp add: saved(1) es_get_record)
      ultimately show ?thesis using Inr recorded(2,4) saved(2) same by simp
    qed
  qed
qed

section \<open>Runs on the stand-in service\<close>

lemma fake_fetch_total:
  assumes "json_ok P" "json_total P"
  shows "fetch P (fake_api P) r w =
    (Inr (fake_doc (net w) (fake_at P r)), w\<lparr>net := (net w)\<lparr>fk_requests := Suc (fk_requests (net w))\<rparr>\<rparr>)"
proof -
  let ?F = "(net w)\<lparr>fk_requests := Suc (fk_requests (net w))\<rparr>"
  let ?req = "(build (fake_api P) r ''GET'')\<lparr>req_body := None\<rparr>"
  have ex: "exchange (fake_api P) ?req (net w) =
    ((case fake_doc (net w) (fake_at P r) of
        Some d \<Rightarrow> fake_reply P 200 (JObj (document_fields d))
      | None \<Rightarrow> fake_reply P 404 (fake_error ''not_found'')), ?F)"
    by (simp add: fake_api_def fake_exchange_def build_def Let_def fake_at_def fake_doc_def split: option.splits)
  have fin: "finish (fake_api P) None (build (fake_api P) r ''GET'') = Inr ?req"
    by (simp add: finish_def fake_api_def Let_def)
  have reply: "\<exists>body. fake_reply P status j = Some (status, Some body) \<and> json_read P body = Inr j" for status j
    using assms by (metis fake_reply_cases json_totalE fake_reply_def sum.simps(6) option.distinct(1))
  show ?thesis
  proof (cases "fake_doc (net w) (fake_at P r)")
    case None
    obtain body where "fake_reply P 404 (fake_error ''not_found'') = Some (404, Some body)" using reply by blast
    with None ex fin show ?thesis by (simp add: fetch_def fetch_body_def io_bind_apply http_send_def)
  next
    case (Some d)
    obtain body where "fake_reply P 200 (JObj (document_fields d)) = Some (200, Some body)"
      "json_read P body = Inr (JObj (document_fields d))" using reply by blast
    with Some ex fin show ?thesis
      by (simp add: fetch_def fetch_body_def io_bind_apply http_send_def classify_def document_response_fields)
  qed
qed

text \<open>A world with one text file, one state file and one stored document.\<close>

definition example_env_key :: env_dek where
  "example_env_key = \<lparr>ek_bytes = replicate 32 5\<rparr>"

lemma example_env_key_ok [simp]: "env_dek_ok example_env_key"
  by (simp add: env_dek_ok_def example_env_key_def DEK_LEN_def)

definition env_state_path :: path where
  "env_state_path = [RootDir, Normal ''z'', Normal ''env_state.json'']"

lemma env_state_path_simps [simp]:
  "named_path env_state_path" "example_env_path \<noteq> env_state_path" "env_state_path \<noteq> example_env_path"
  by (simp_all add: named_path_def env_state_path_def example_env_path_def file_name_def)

definition stored_world :: "string \<Rightarrow> env_state \<Rightarrow> remote_document list \<Rightarrow> fake_store world" where
  "stored_world text state docs =
     (quiet_world (fake_new\<lparr>fk_documents := map (\<lambda>d. (entry_hex example_entry, d)) docs\<rparr>))
       \<lparr>files := [(example_env_path, as_bytes text), (env_state_path, as_bytes (code_print (env_state_json state)))]\<rparr>"

lemma stored_world_simps [simp]:
  "calm (stored_world t s ds)"
  "file_at example_env_path (stored_world t s ds) = Some (as_bytes t)"
  "bt_ok (es_entries s) \<Longrightarrow> env_state_at total_prims env_state_path (stored_world t s ds) = s"
  "fake_doc (net (stored_world t s ds)) = map_of (map (\<lambda>d. (entry_hex example_entry, d)) ds)"
proof -
  show "calm (stored_world t s ds)" by (simp add: stored_world_def calm_def quiet_world_def)
  show "file_at example_env_path (stored_world t s ds) = Some (as_bytes t)"
    by (simp add: stored_world_def file_at_def)
  show "fake_doc (net (stored_world t s ds)) = map_of (map (\<lambda>d. (entry_hex example_entry, d)) ds)"
    by (simp add: stored_world_def fake_doc_def quiet_world_def bt_get_def)
  have "json_read total_prims (code_print (env_state_json s)) = Inr (env_state_json s)"
    by (simp add: total_prims_def code_read_print)
  then show "bt_ok (es_entries s) \<Longrightarrow> env_state_at total_prims env_state_path (stored_world t s ds) = s"
    by (simp add: env_state_at_def stored_world_def file_at_def from_utf8_as_bytes utf8_ok_ascii code_print_ascii
        env_state_roundtrip)
qed

lemma fake_at_entry: "entry_ok e \<Longrightarrow> entry_resource e = Inr r \<Longrightarrow> fake_at P r = entry_hex e"
proof -
  assume e: "entry_ok e" "entry_resource e = Inr r"
  then have path: "r_path r = ''env/'' @ entry_hex e" by (auto simp: entry_resource_eq)
  have seg: "list_all segment_char (entry_hex e)" by (simp add: entry_hex_def id_hex_segment)
  have plain: "c \<noteq> CHR ''/'' \<and> c \<noteq> CHR ''?'' \<and> c \<noteq> CHR ''#''" if "segment_char c" for c
    using that by (auto simp: segment_char_def Let_def)
  have tail: "takeWhile (\<lambda>c. c \<noteq> CHR ''/'') (rev (entry_hex e) @ CHR ''/'' # z) = rev (entry_hex e)" for z
    using seg plain by (subst takeWhile_append2) (auto simp: list_all_iff)
  have uri: "takeWhile (\<lambda>c. c \<noteq> CHR ''?'' \<and> c \<noteq> CHR ''#'') (entry_hex e) = entry_hex e"
    using seg plain by (auto simp: takeWhile_eq_all_conv list_all_iff)
  show ?thesis
    using tail [of "rev ''https://api.example.invalid/api/env''"]
    by (simp add: fake_at_def path last_segment_def fake_api_def uri del: takeWhile_eq_all_conv)
qed

text \<open>A blob sealed for the example entry, as the service would hold it.\<close>

lemma example_blob:
  assumes "length payload \<le> MAX_PAYLOAD_BYTES"
  obtains res blob e where "entry_resource example_entry = Inr res" "from_blob total_prims blob = Inr e"
    "env_open total_prims example_env_key fake_user res None e = Inr \<lparr>op_seq = seq, op_payload = payload\<rparr>"
proof -
  obtain res where res: "entry_resource example_entry = Inr res" by (simp add: entry_resource_eq)
  obtain wire where wire: "env_wire total_prims example_env_key fake_user res seq payload (quiet_world ()) =
      (Inr wire, advance (quiet_world ()))"
    using env_wire_calm [of "quiet_world ()", OF calm_quiet total_gcm_total total_json_total example_env_key_ok assms] by blast
  from env_wire_opens [OF wire] obtain e where "from_blob total_prims (wire_blob wire) = Inr e"
    "env_open total_prims example_env_key fake_user res None e = Inr \<lparr>op_seq = seq, op_payload = payload\<rparr>"
    by auto
  with res show thesis by (rule that)
qed

definition seen_state :: "string \<Rightarrow> string \<Rightarrow> u64 \<Rightarrow> env_state" where
  "seen_state revision h seq = es_record example_entry revision h seq env_state_default"

lemma seen_state_simps [simp]:
  "bt_ok (es_entries (seen_state r h q))"
  "es_get (seen_state r h q) example_entry = Some \<lparr>se_revision = r, se_local_hash = h, se_seq = q\<rparr>"
  "seen_seq (seen_state r h q) example_entry = Some q"
  by (simp_all add: seen_state_def es_record_ok es_get_record seen_seq_def env_state_default_def)

theorem env_pull_never_goes_back_witness:
  "\<exists>blob r w'. env_pull total_prims (fake_context total_prims) example_env_key example_entry example_env_path env_state_path
       (stored_world ''A=1'' (seen_state ''r5'' [] 5) [\<lparr>doc_blob = blob, doc_revision = ''r1''\<rparr>]) = (r, w') \<and>
     r = Inr (EnvPullRollback 5 1) \<and>
     files w' = files (stored_world ''A=1'' (seen_state ''r5'' [] 5) [\<lparr>doc_blob = blob, doc_revision = ''r1''\<rparr>])"
proof -
  obtain res blob e where res: "entry_resource example_entry = Inr res"
    and blob: "from_blob total_prims blob = Inr e"
    and opens: "env_open total_prims example_env_key fake_user res None e = Inr \<lparr>op_seq = 1, op_payload = as_bytes ''A=0''\<rparr>"
    by (rule example_blob [of "as_bytes ''A=0''"]) (auto simp: MAX_PAYLOAD_BYTES_def)
  let ?doc = "\<lparr>doc_blob = blob, doc_revision = ''r1''\<rparr>"
  let ?w = "stored_world ''A=1'' (seen_state ''r5'' [] 5) [?doc]"
  have quiet: "quiet_fs ?w" by (simp add: calm_quiet_fs)
  have rd: "read_text (local_env_file example_env_path) ?w = (Inr (Some ''A=1''), advance ?w)"
    by (rule read_local_text) (auto simp: quiet intro!: utf8_ok_ascii simp: ascii_def)
  have at: "fake_at total_prims res = entry_hex example_entry" by (rule fake_at_entry [OF example_entry_ok res])
  let ?w2 = "(advance ?w)\<lparr>net := (net ?w)\<lparr>fk_requests := Suc (fk_requests (net ?w))\<rparr>\<rparr>"
  have fetched: "fetch total_prims (fake_api total_prims) res (advance ?w) = (Inr (Some ?doc), ?w2)"
    using fake_fetch_total [of total_prims res "advance ?w"] by (simp add: at)
  have q2: "quiet_fs ?w2" using quiet by (simp add: quiet_fs_def)
  have st: "env_state_at total_prims env_state_path ?w2 = seen_state ''r5'' [] 5"
    using stored_world_simps(3) [OF seen_state_simps(1)] by (simp add: env_state_at_def)
  have old: "env_open total_prims example_env_key fake_user res (Some 5) e = Inl (EnvRollback 5 1)"
    by (simp add: env_open_seen opens)
  obtain r w' where run: "env_pull total_prims (fake_context total_prims) example_env_key example_entry example_env_path
      env_state_path ?w = (r, w')" by force
  then have r: "r = Inr (EnvPullRollback 5 1)"
    by (simp add: env_pull_def env_pull_file_def io_bind_apply io_map_err_apply rd res fetched fake_context_def
        pull_document_def env_state_load_quiet [OF q2] st blob old)
  have "named_path env_state_path" by (simp add: named_path_def file_name_def env_state_path_def)
  from env_pull_never_goes_back [OF run quiet total_json_ok this] have "files w' = files ?w" by (simp add: r)
  with run r show ?thesis by blast
qed

end
