(* ===== verification/Env_Exchange.thy ===== *)
theory Env_Exchange
  imports Env_Sync
begin

text \<open>
  What pushing, pulling and applying an environment file promise together: a push is a
  compare-and-set on the stored cell, what one machine stored another machine is offered, a push
  that nothing disturbs is stored, and a local file is replaced only when it still holds what the
  user was shown, after a copy of it was put aside.
\<close>

section \<open>The shape of a push\<close>

definition expected_revision :: "synced_entry option \<Rightarrow> precondition" where
  "expected_revision synced = (case synced of Some s \<Rightarrow> Replace (se_revision s) | None \<Rightarrow> Create)"

definition next_seq :: "synced_entry option \<Rightarrow> u64" where
  "next_seq synced = (case synced of Some s \<Rightarrow> se_seq s + 1 | None \<Rightarrow> 1)"

lemma prepare_Some:
  assumes "prepare_push_of P k u entry local sp w = (Inr (Some p), w')" and "quiet_fs w"
  obtains t res where "local = Some t" "entry_resource entry = Inr res"
    "env_wire P k u res (pp_seq p) (as_bytes t) (advance w) = (Inr (pp_wire p), w')"
    "pp_entry p = entry" "pp_local p = t" "pp_local_hash p = env_hash P (as_bytes t)"
    "pp_seq p = next_seq (es_get (env_state_at P sp w) entry)"
    "push_precondition p = expected_revision (es_get (env_state_at P sp w) entry)"
proof -
  from assms(1) obtain t where t: "local = Some t" by (cases local) (auto simp: prepare_push_of_def)
  show thesis
    using assms(1) t
    by (auto simp: prepare_push_of_def io_bind_apply env_state_load_quiet [OF assms(2)] io_map_err_apply Let_def
        push_precondition_def expected_revision_def next_seq_def
        intro!: that split: if_splits sum.splits prod.splits option.splits)
qed

lemma frame_fault_wire [frame_intros]: "frame fs_fault (env_wire P k u r s pl)"
proof -
  have "frame fs_fault (random_fill n)" for n by (simp add: frame_def random_fill_def)
  then show ?thesis unfolding env_wire_def env_seal_def encrypt_at_def by (intro frame_intros)
qed

lemma prepare_frames [frame_intros]:
  "frame net (prepare_push_of P k u entry local sp)" "frame files (prepare_push_of P k u entry local sp)"
  "frame fs_fault (prepare_push_of P k u entry local sp)"
  unfolding prepare_push_of_def Let_def by (intro frame_intros)+

lemma push_shape:
  assumes "env_push_file P C k entry f sp w = (r, w')" and "quiet_fs w"
    and "frame files (ef_read f)" "frame fs_fault (ef_read f)" "frame net (ef_read f)"
  obtains (unsent) "net w' = net w" "files w' = files w" "\<And>rv seq. r \<noteq> Inr (EnvStored rv seq)"
      "\<And>dv. r \<noteq> Inr (EnvPushConflict dv)"
  | (sent) t res p w3 y w4 where
      "\<exists>w1. read_text f w = (Inr (Some t), w1)"
      "entry_resource entry = Inr res"
      "\<exists>w2. env_wire P k (sc_user_id C) res (pp_seq p) (as_bytes t) w2 = (Inr (pp_wire p), w3)"
      "pp_entry p = entry" "pp_local p = t" "pp_local_hash p = env_hash P (as_bytes t)"
      "pp_seq p = next_seq (es_get (env_state_at P sp w) entry)"
      "push_precondition p = expected_revision (es_get (env_state_at P sp w) entry)"
      "net w3 = net w" "files w3 = files w" "quiet_fs w3"
      "store P (sc_api C) res (wire_blob (pp_wire p)) (push_precondition p) w3 = (y, w4)"
      "(case y of Inl e \<Rightarrow> (Inl (EnvClient e), w4) | Inr out \<Rightarrow> send_outcome P C k res p sp out w4) = (r, w')"
proof -
  obtain a w1 where a: "read_text f w = (a, w1)" by force
  have f1: "files w1 = files w" "net w1 = net w" "quiet_fs w1"
    using frameD [OF frame_read_text [OF assms(3)] a] frameD [OF frame_read_text [OF assms(5)] a]
      quiet_fs_frame [OF frame_read_text [OF assms(4)] a assms(2)] by simp_all
  show thesis
  proof (cases a)
    case (Inl e)
    with assms(1) a f1 show thesis by (intro unsent) (auto simp: env_push_file_def io_bind_apply)
  next
    case (Inr local)
    obtain b w3 where b: "prepare_push_of P k (sc_user_id C) entry local sp w1 = (b, w3)" by force
    have f3: "files w3 = files w" "net w3 = net w" "quiet_fs w3"
      using frameD [OF prepare_frames(2) b] frameD [OF prepare_frames(1) b]
        quiet_fs_frame [OF prepare_frames(3) b f1(3)] f1 by simp_all
    show thesis
    proof (cases "\<exists>p. b = Inr (Some p)")
      case False
      then show thesis using assms(1) a Inr b f3
        by (cases b; cases "projr b") (auto simp: env_push_file_def io_bind_apply split: if_splits intro!: unsent)
    next
      case True
      then obtain p where p: "b = Inr (Some p)" by blast
      have at: "env_state_at P sp w1 = env_state_at P sp w" by (simp add: env_state_at_def file_at_def f1)
      obtain t res where t: "local = Some t" "entry_resource entry = Inr res"
        "env_wire P k (sc_user_id C) res (pp_seq p) (as_bytes t) (advance w1) = (Inr (pp_wire p), w3)"
        "pp_entry p = entry" "pp_local p = t" "pp_local_hash p = env_hash P (as_bytes t)"
        "pp_seq p = next_seq (es_get (env_state_at P sp w) entry)"
        "push_precondition p = expected_revision (es_get (env_state_at P sp w) entry)"
        by (rule prepare_Some [OF b [unfolded p] f1(3), unfolded at])
      obtain y w4 where y: "store P (sc_api C) res (wire_blob (pp_wire p)) (push_precondition p) w3 = (y, w4)" by force
      have "(case y of Inl e \<Rightarrow> (Inl (EnvClient e), w4) | Inr out \<Rightarrow> send_outcome P C k res p sp out w4) = (r, w')"
        using assms(1) a Inr b p t y
        by (cases y) (auto simp: env_push_file_def send_prepared_def io_bind_apply io_map_err_apply)
      with a Inr t f3 y show thesis by (intro sent [of t res p w3]) auto
    qed
  qed
qed

text \<open>What \<^verbatim>\<open>send_outcome\<close> may answer, by what the service answered.\<close>

lemma send_outcome_net: "frame net (send_outcome P C k res p sp out)"
  unfolding send_outcome_def by (cases out) (auto intro!: frame_intros)

lemma send_outcome_Stored:
  "send_outcome P C k res p sp out w = (Inr (EnvStored rv seq), w') \<Longrightarrow> out = Stored rv \<and> seq = pp_seq p"
  by (cases out) (auto simp: send_outcome_def io_eqs split: prod.splits)

lemma send_outcome_of_Stored:
  "send_outcome P C k res p sp (Stored rv) w = (Inr out, w') \<Longrightarrow> out = EnvStored rv (pp_seq p)"
  by (auto simp: send_outcome_def io_eqs)

lemma send_outcome_Conflict:
  assumes "send_outcome P C k res p sp out w = (Inr (EnvPushConflict dv), w')"
  shows "\<exists>d e x. out = Conflict d \<and> ed_revision dv = doc_revision d \<and> from_blob P (doc_blob d) = Inr e \<and>
    env_open P k (sc_user_id C) res None e = Inr x \<and> op_seq x = ed_seq dv \<and> op_payload x = as_bytes (ed_remote dv)"
  using assms
  by (cases out) (auto simp: send_outcome_def io_eqs opened_text_def bind_res_eq_Inr ok_or_def from_utf8_Some
      split: prod.splits option.splits)

section \<open>A push is a compare-and-set\<close>

text \<open>The abstract cell: the revision and, when the key opens it, the sequence number and bytes. The
  abstract operation replaces it only if its revision is the expected one.\<close>

type_synonym env_cell = "(string \<times> (u64 \<times> bytes) option) option"

definition cell_content :: "prims \<Rightarrow> env_dek \<Rightarrow> string \<Rightarrow> resource \<Rightarrow> string \<Rightarrow> (u64 \<times> bytes) option" where
  "cell_content P k u res blob =
     (case from_blob P blob of
        Inl _ \<Rightarrow> None
      | Inr e \<Rightarrow> map_option (\<lambda>x. (op_seq x, op_payload x)) (ok (env_open P k u res None e)))"

definition env_cell_of :: "prims \<Rightarrow> env_dek \<Rightarrow> string \<Rightarrow> resource \<Rightarrow> remote_document option \<Rightarrow> env_cell" where
  "env_cell_of P k u res doc = map_option (\<lambda>d. (doc_revision d, cell_content P k u res (doc_blob d))) doc"

definition compare_and_set :: "string option \<Rightarrow> string \<Rightarrow> u64 \<times> bytes \<Rightarrow> env_cell \<Rightarrow> env_cell option" where
  "compare_and_set expected revision content cell =
     (if map_option fst cell = expected then Some (Some (revision, Some content)) else None)"

lemma admits_expected:
  "admits (expected_revision synced) doc \<longleftrightarrow> map_option doc_revision doc = map_option se_revision synced"
  by (cases synced; cases doc) (auto simp: expected_revision_def)

lemma wire_cell:
  assumes "env_wire P k u res seq payload w = (Inr wire, w')"
    and "gcm_ok P" "sha256_ok P" "base64_ok P" "json_ok P" "env_dek_ok k"
  shows "cell_content P k u res (wire_blob wire) = Some (seq, payload)"
  using assms by (auto elim!: env_wire_opens simp: cell_content_def)

context document_store
begin

lemma push_cell:
  assumes "env_push_file P C k entry f sp w = (r, w')" and "sc_api C = A" and "quiet_fs w"
    and "frame files (ef_read f)" "frame fs_fault (ef_read f)" "frame net (ef_read f)"
    and "gcm_ok P" "sha256_ok P" "base64_ok P" "json_ok P" "env_dek_ok k"
    and "entry_resource entry = Inr res"
    and "\<exists>w1. read_text f w = (Inr (Some t), w1)"
  defines "synced \<equiv> es_get (env_state_at P sp w) entry"
    and "cell \<equiv> \<lambda>v. env_cell_of P k (sc_user_id C) res (doc (net v) (at res))"
  shows "case r of
      Inr (EnvStored rv seq) \<Rightarrow> seq = next_seq synced \<and>
        compare_and_set (map_option se_revision synced) rv (seq, as_bytes t) (cell w) = Some (cell w')
    | Inr (EnvPushConflict dv) \<Rightarrow> cell w' = cell w \<and>
        cell w = Some (ed_revision dv, Some (ed_seq dv, as_bytes (ed_remote dv)))
    | Inr _ \<Rightarrow> cell w' = cell w
    | Inl _ \<Rightarrow> cell w' = cell w \<or>
        (\<exists>rv. compare_and_set (map_option se_revision synced) rv (next_seq synced, as_bytes t) (cell w) = Some (cell w'))"
  using assms(1,3-6)
proof (cases rule: push_shape)
  case unsent
  then have "cell w' = cell w" by (simp add: cell_def)
  with unsent(3,4) show ?thesis by (auto split: sum.splits env_push_outcome.splits)
next
  case (sent t' res' p w3 y w4)
  have [simp]: "t' = t" "res' = res" using sent(1,2) assms(12,13) by auto
  obtain w2 where wire: "env_wire P k (sc_user_id C) res (pp_seq p) (as_bytes t) w2 = (Inr (pp_wire p), w3)"
    using sent(3) by auto
  note content = wire_cell [OF wire assms(7-11)]
  have st: "store P A res (wire_blob (pp_wire p)) (push_precondition p) w3 = (y, w4)" using sent(12) assms(2) by simp
  have seq: "pp_seq p = next_seq synced" and pre: "push_precondition p = expected_revision synced"
    using sent(7,8) by (simp_all add: synced_def)
  have cas: "compare_and_set (map_option se_revision synced) rv (next_seq synced, as_bytes t) (cell w) = Some (cell w4)"
    if "admits (push_precondition p) (doc (net w3) (at res))"
      "doc (net w4) = (doc (net w3))(at res \<mapsto> \<lparr>doc_blob = wire_blob (pp_wire p), doc_revision = rv\<rparr>)" for rv
  proof -
    have "map_option fst (cell w) = map_option se_revision synced"
      using that(1) sent(9) unfolding pre admits_expected
      by (simp add: cell_def env_cell_of_def option.map_comp comp_def)
    then show ?thesis using that(2) content seq by (simp add: compare_and_set_def cell_def env_cell_of_def)
  qed
  show ?thesis
  proof (cases y)
    case (Inl e)
    with sent(13) have "r = Inl (EnvClient e)" "w' = w4" by auto
    moreover from store_law [OF assms(10) st] Inl consider "doc (net w4) = doc (net w3)"
      | rv where "admits (push_precondition p) (doc (net w3) (at res))"
        "doc (net w4) = (doc (net w3))(at res \<mapsto> \<lparr>doc_blob = wire_blob (pp_wire p), doc_revision = rv\<rparr>)"
      by auto
    then have "cell w4 = cell w \<or>
        (\<exists>rv. compare_and_set (map_option se_revision synced) rv (next_seq synced, as_bytes t) (cell w) = Some (cell w4))"
    proof cases
      case 1
      then show ?thesis using sent(9) by (simp add: cell_def)
    next
      case (2 rv)
      from cas [OF this] show ?thesis by blast
    qed
    ultimately show ?thesis by simp
  next
    case (Inr out)
    with sent(13) have so: "send_outcome P C k res p sp out w4 = (r, w')" by simp
    have n: "net w' = net w4" by (rule frameD [OF send_outcome_net so])
    then have same: "cell w' = cell w4" by (simp add: cell_def)
    show ?thesis
    proof (cases "\<exists>rv. out = Stored rv")
      case True
      then obtain rv where rv: "out = Stored rv" by blast
      have step: "compare_and_set (map_option se_revision synced) rv (next_seq synced, as_bytes t) (cell w) = Some (cell w')"
        using store_law [OF assms(10) st] Inr rv cas unfolding same by simp
      show ?thesis
      proof (cases r)
        case (Inr o')
        then have "o' = EnvStored rv (pp_seq p)" using so rv send_outcome_of_Stored by blast
        with Inr step seq show ?thesis by simp
      qed (use step in auto)
    next
      case False
      then have "doc (net w4) = doc (net w3)" using store_law [OF assms(10) st] Inr by (cases out) auto
      then have keep: "cell w' = cell w" using same sent(9) by (simp add: cell_def)
      have shown: "cell w = Some (ed_revision dv, Some (ed_seq dv, as_bytes (ed_remote dv)))"
        if dv: "r = Inr (EnvPushConflict dv)" for dv
      proof -
        from send_outcome_Conflict [OF so [unfolded dv]] obtain d e x where d: "out = Conflict d" "ed_revision dv = doc_revision d"
          "from_blob P (doc_blob d) = Inr e" "env_open P k (sc_user_id C) res None e = Inr x" "op_seq x = ed_seq dv"
          "op_payload x = as_bytes (ed_remote dv)" by blast
        then have "doc (net w) (at res) = Some d" using store_law [OF assms(10) st] Inr sent(9) by simp
        with d show ?thesis by (simp add: cell_def env_cell_of_def cell_content_def)
      qed
      have "r \<noteq> Inr (EnvStored rv seq)" for rv seq
        using False so send_outcome_Stored by blast
      with keep shown show ?thesis by (auto split: sum.splits env_push_outcome.splits)
    qed
  qed
qed

end


text \<open>C30. A push of an environment file implements a compare-and-set on the stored cell, whose
  content is the sequence number and the bytes of the file. If it reports success, the stored
  revision was the one this machine last recorded (or nothing was stored and nothing recorded), and
  the cell now holds the next sequence number with exactly the file's bytes. If it reports a
  conflict, the cell is as it was, and the difference shown carries its revision, its sequence number
  and exactly its text. Any other answer leaves the cell alone; only an answer that was lost may hide
  a successful step.\<close>

theorem env_push_refines_cas:
  assumes "env_push_file P (fake_context P) k entry f sp w = (r, w')" and "quiet_fs w"
    and "frame files (ef_read f)" "frame fs_fault (ef_read f)" "frame net (ef_read f)"
    and "gcm_ok P" "sha256_ok P" "base64_ok P" "json_ok P" "env_dek_ok k"
    and "entry_resource entry = Inr res" "\<exists>w1. read_text f w = (Inr (Some t), w1)"
    and "synced = es_get (env_state_at P sp w) entry"
    and "\<And>v. cell v = env_cell_of P k fake_user res (fake_doc (net v) (fake_at P res))"
  shows "case r of
      Inr (EnvStored rv seq) \<Rightarrow> seq = next_seq synced \<and>
        compare_and_set (map_option se_revision synced) rv (seq, as_bytes t) (cell w) = Some (cell w')
    | Inr (EnvPushConflict dv) \<Rightarrow> cell w' = cell w \<and>
        cell w = Some (ed_revision dv, Some (ed_seq dv, as_bytes (ed_remote dv)))
    | Inr _ \<Rightarrow> cell w' = cell w
    | Inl _ \<Rightarrow> cell w' = cell w \<or>
        (\<exists>rv. compare_and_set (map_option se_revision synced) rv (next_seq synced, as_bytes t) (cell w) = Some (cell w'))"
proof -
  have api: "sc_api (fake_context P) = fake_api P" "sc_user_id (fake_context P) = fake_user"
    by (simp_all add: fake_context_def)
  from fake.push_cell [OF assms(1) api(1) assms(2-12)] show ?thesis
    unfolding api(2) assms(13,14) .
qed

section \<open>A push that nothing disturbs is stored\<close>

definition fake_up :: "fake_store \<Rightarrow> bool" where
  "fake_up F \<longleftrightarrow> \<not> fk_reject F \<and> fk_fail_after F = None \<and> fk_conflicts F = [] \<and> fk_plan_refusals F = []"

lemma fake_reply_total:
  assumes "json_ok P" "json_total P"
  obtains body where "fake_reply P status j = Some (status, Some body)" "json_read P body = Inr j"
  using assms(1)
proof (cases rule: fake_reply_cases [of P status j])
  case 1
  obtain s where "json_text P j = Inr s" using assms(2) by (rule json_totalE)
  with 1 show thesis by (simp add: fake_reply_def)
qed (rule that)

lemma fake_store_stored:
  assumes "json_ok P" "json_total P" "fake_up (net w)" "admits pre (fake_doc (net w) (fake_at P r))"
  obtains rv n where "store P (fake_api P) r blob pre w = (Inr (Stored rv), w\<lparr>net := n\<rparr>)"
proof -
  obtain payload where payload: "json_text P (put_body blob) = Inr payload" using assms(2) by (rule json_totalE)
  let ?F = "(net w)\<lparr>fk_requests := Suc (fk_requests (net w))\<rparr>"
  let ?req = "put_builder (fake_api P) r pre\<lparr>req_body := Some payload\<rparr>"
  let ?rv = "''rev-'' @ nat_str (fk_revisions (net w))"
  obtain F' where put: "fake_put P (fake_at P r) ?req ?F =
      (fake_reply P 200 (JObj [(''revision'', JStr ?rv), (''updatedAt'', JStr ''2026-08-30T00:00:00.000Z'')]), F')"
    using assms(3,4) unfolding fake_put_def Let_def put_headers
    by (cases pre) (auto simp: fake_up_def fake_doc_def)
  then have ex: "exchange (fake_api P) ?req (net w) =
      (fake_reply P 200 (JObj [(''revision'', JStr ?rv), (''updatedAt'', JStr ''2026-08-30T00:00:00.000Z'')]), F')"
    by (simp add: fake_api_def fake_exchange_def Let_def put_headers fake_at_def)
  have fin: "finish (fake_api P) (Some payload) (put_builder (fake_api P) r pre) = Inr ?req"
    by (simp add: finish_def fake_api_def Let_def)
  obtain body where body: "fake_reply P 200 (JObj [(''revision'', JStr ?rv), (''updatedAt'', JStr ''2026-08-30T00:00:00.000Z'')]) =
      Some (200, Some body)" "json_read P body = Inr (JObj [(''revision'', JStr ?rv), (''updatedAt'', JStr ''2026-08-30T00:00:00.000Z'')])"
    using assms(1,2) by (rule fake_reply_total)
  have "store P (fake_api P) r blob pre w = (Inr (Stored ?rv), w\<lparr>net := F'\<rparr>)"
    using payload fin ex body(1)
    by (simp add: store_def io_bind_apply http_send_def write_reply_def classify_def stored_response_fields [OF body(2)])
  then show thesis by (rule that)
qed

lemma env_save_calm:
  assumes "calm w" "json_total P" "named_path p" "no_temporaries w"
  obtains w' where "env_save P s p w = (Inr (), w')" "calm w'"
proof -
  obtain raw where "json_pretty P (env_state_json s) = Inr raw" using assms(2) by (rule json_prettyE)
  moreover obtain w' where "write_secret_atomic p (as_bytes raw) w = (Inr (), w')" "calm w'"
    using write_secret_calm [OF assms(3,1,4)] by blast
  ultimately show thesis by (intro that) (simp_all add: env_save_def env_state_save_def io_simps)
qed

lemma no_temporaries_files: "files w' = files w \<Longrightarrow> no_temporaries w' = no_temporaries w"
  by (simp add: no_temporaries_def file_at_def)

text \<open>Everything a push needs, for a local file.\<close>

definition push_ready :: "prims \<Rightarrow> entry_id \<Rightarrow> path \<Rightarrow> string \<Rightarrow> path \<Rightarrow> fake_store world \<Rightarrow> bool" where
  "push_ready P entry local_path t sp w \<longleftrightarrow>
     calm w \<and> no_temporaries w \<and> fake_up (net w) \<and> entry_ok entry \<and> named_path sp \<and>
     file_at local_path w = Some (as_bytes t) \<and> utf8_ok t \<and> length t \<le> MAX_PAYLOAD_BYTES \<and>
     (case es_get (env_state_at P sp w) entry of
        Some s \<Rightarrow> se_local_hash s \<noteq> env_hash P (as_bytes t) |
        None \<Rightarrow> True) \<and>
     (case fake_doc (net w) (entry_hex entry) of
        Some d \<Rightarrow> (\<exists>s. es_get (env_state_at P sp w) entry = Some s \<and> se_revision s = doc_revision d)
      | None \<Rightarrow> es_get (env_state_at P sp w) entry = None)"

lemma push_stored:
  assumes "push_ready P entry local_path t sp w"
    and "json_ok P" "json_total P" "gcm_total P" "env_dek_ok k"
  obtains rv w' where
    "env_push P (fake_context P) k entry local_path sp w =
       (Inr (EnvStored rv (next_seq (es_get (env_state_at P sp w) entry))), w')" "calm w'"
    "seen_seq (env_state_at P sp w') entry = Some (next_seq (es_get (env_state_at P sp w) entry))"
proof -
  let ?synced = "es_get (env_state_at P sp w) entry"
  from assms(1) have w: "calm w" "no_temporaries w" "fake_up (net w)" "entry_ok entry" "named_path sp"
    "file_at local_path w = Some (as_bytes t)" "utf8_ok t" "length t \<le> MAX_PAYLOAD_BYTES"
    and hash: "\<not> (case ?synced of Some s \<Rightarrow> se_local_hash s = env_hash P (as_bytes t) | None \<Rightarrow> False)"
    and cell: "map_option doc_revision (fake_doc (net w) (entry_hex entry)) = map_option se_revision ?synced"
    by (auto simp: push_ready_def split: option.splits)
  note quiet = calm_quiet_fs [OF w(1)]
  have rd: "read_text (local_env_file local_path) w = (Inr (Some t), advance w)" by (rule read_local_text [OF w(7,6) quiet])
  obtain res where res: "entry_resource entry = Inr res" using w(4) by (simp add: entry_resource_eq)
  have q1: "quiet_fs (advance w)" using quiet by (simp add: quiet_fs_def)
  have at1: "env_state_at P sp (advance w) = env_state_at P sp w" by (simp add: env_state_at_def)
  have c2: "calm (advance (advance w))" using w(1) by simp
  have len: "length (as_bytes t) \<le> MAX_PAYLOAD_BYTES" using w(8) by simp
  obtain wire where wire: "env_wire P k fake_user res (next_seq ?synced) (as_bytes t) (advance (advance w)) =
      (Inr wire, advance (advance (advance w)))"
    using env_wire_calm [OF c2 assms(4,3,5) len] by blast
  let ?p = "\<lparr>pp_entry = entry, pp_wire = wire, pp_seq = next_seq ?synced, pp_local_hash = env_hash P (as_bytes t),
     pp_local = t, pp_revision = map_option se_revision ?synced\<rparr>"
  let ?w3 = "advance (advance (advance w))"
  have prep: "prepare_push_of P k fake_user entry (Some t) sp (advance w) = (Inr (Some ?p), ?w3)"
    using hash wire by (simp add: prepare_push_of_def io_bind_apply env_state_load_quiet [OF q1] at1 res Let_def
        io_map_err_apply next_seq_def)
  have pre: "push_precondition ?p = expected_revision ?synced"
    by (simp add: push_precondition_def expected_revision_def split: option.splits)
  have "admits (push_precondition ?p) (fake_doc (net ?w3) (fake_at P res))"
    unfolding pre admits_expected using cell fake_at_entry [OF w(4) res] by simp
  with w(3) assms(2,3) obtain rv n where st:
    "store P (fake_api P) res (wire_blob wire) (push_precondition ?p) ?w3 = (Inr (Stored rv), ?w3\<lparr>net := n\<rparr>)"
    by (rule_tac fake_store_stored [of P ?w3]) auto
  let ?w4 = "?w3\<lparr>net := n\<rparr>"
  have w4: "calm ?w4" "quiet_fs ?w4" "no_temporaries (advance ?w4)" "env_state_at P sp ?w4 = env_state_at P sp w"
    using w(1,2) quiet by (simp_all add: quiet_fs_def env_state_at_def no_temporaries_def)
  let ?s = "es_record entry rv (env_hash P (as_bytes t)) (next_seq ?synced) (env_state_at P sp w)"
  obtain w5 where sv: "env_save P ?s sp (advance ?w4) = (Inr (), w5)" "calm w5"
    by (rule env_save_calm [OF _ assms(3) w(5) w4(3), of ?s]) (use w4(1) in auto)
  have "send_outcome P (fake_context P) k res ?p sp (Stored rv) ?w4 = (Inr (EnvStored rv (next_seq ?synced)), w5)"
    using sv by (simp add: send_outcome_def io_bind_apply env_state_load_quiet [OF w4(2)] w4(4))
  then have run: "env_push P (fake_context P) k entry local_path sp w = (Inr (EnvStored rv (next_seq ?synced)), w5)"
    using rd prep st
    by (simp add: env_push_def env_push_file_def io_bind_apply send_prepared_def res io_map_err_apply fake_context_def)
  have "seen_seq (env_state_at P sp w5) entry = Some (next_seq ?synced)"
    by (simp add: env_save_at(1) [OF sv(1) assms(2) w(5) es_record_ok [OF env_state_at_ok]] seen_seq_def es_get_record)
  with run sv(2) show thesis by (intro that)
qed

text \<open>The stored cell after a push that reported success.\<close>

lemma push_stored_cell:
  assumes "env_push P (fake_context P) k entry lp sp w = (Inr (EnvStored rv seq), w')" and "quiet_fs w"
    and "gcm_ok P" "sha256_ok P" "base64_ok P" "json_ok P" "env_dek_ok k"
    and "entry_ok entry" "entry_resource entry = Inr res" "file_at lp w = Some (as_bytes t)" "utf8_ok t"
  obtains d where "fake_doc (net w') (entry_hex entry) = Some d" "doc_revision d = rv"
    "cell_content P k fake_user res (doc_blob d) = Some (seq, as_bytes t)"
proof -
  have api: "sc_api (fake_context P) = fake_api P" "sc_user_id (fake_context P) = fake_user"
    by (simp_all add: fake_context_def)
  have rd: "\<exists>w1. read_text (local_env_file lp) w = (Inr (Some t), w1)"
    using read_local_text [OF assms(11,10,2)] by blast
  from fake.push_cell [OF assms(1) [unfolded env_push_def] api(1) assms(2) frame_local_read(2) frame_local_read(4)
      frame_local_read(1) assms(3-7,9) rd]
  have "env_cell_of P k fake_user res (fake_doc (net w') (fake_at P res)) = Some (rv, Some (seq, as_bytes t))"
    unfolding api(2) by (auto simp: compare_and_set_def split: if_splits)
  then show thesis
    using fake_at_entry [OF assms(8,9)] that by (auto simp: env_cell_of_def)
qed

text \<open>C31. A push is carried through: on a machine and a service where no call fails, a text file
  within the size limit whose content is not the one last synced, and whose stored revision is the
  one recorded, is stored, whatever nonce is drawn: afterwards the service holds, for that entry,
  exactly the file's bytes under the next sequence number, and this machine has that number on record.\<close>

theorem env_push_succeeds:
  assumes "push_ready P entry local_path t sp w" and "json_ok P" "json_total P" "gcm_ok P" "gcm_total P" "sha256_ok P"
    "base64_ok P" "env_dek_ok k" "entry_resource entry = Inr res"
    and "seq = next_seq (es_get (env_state_at P sp w) entry)"
  shows "\<exists>rv w'. env_push P (fake_context P) k entry local_path sp w = (Inr (EnvStored rv seq), w') \<and>
    env_cell_of P k fake_user res (fake_doc (net w') (entry_hex entry)) = Some (rv, Some (seq, as_bytes t)) \<and>
    seen_seq (env_state_at P sp w') entry = Some seq"
proof -
  from assms(1) have w: "quiet_fs w" "entry_ok entry" "file_at local_path w = Some (as_bytes t)" "utf8_ok t"
    by (auto simp: push_ready_def calm_quiet_fs)
  obtain rv w' where run: "env_push P (fake_context P) k entry local_path sp w = (Inr (EnvStored rv seq), w')"
    and seen: "seen_seq (env_state_at P sp w') entry = Some seq"
    unfolding assms(10) by (rule push_stored [OF assms(1-3,5,8)])
  obtain d where "fake_doc (net w') (entry_hex entry) = Some d" "doc_revision d = rv"
    "cell_content P k fake_user res (doc_blob d) = Some (seq, as_bytes t)"
    by (rule push_stored_cell [OF run w(1) assms(4,6,7,2,8) w(2) assms(9) w(3,4)])
  with run seen show ?thesis by (auto simp: env_cell_of_def)
qed

definition unsynced_world :: "string \<Rightarrow> fake_store world" where
  "unsynced_world t = stored_world t env_state_default []"

lemma env_state_default_ok [simp]: "bt_ok (es_entries env_state_default)" "es_get env_state_default e = None"
  by (simp_all add: env_state_default_def es_get_def)

lemma unsynced_ready:
  assumes "utf8_ok t" "length t \<le> MAX_PAYLOAD_BYTES"
  shows "push_ready total_prims example_entry example_env_path t env_state_path (unsynced_world t)"
proof -
  have "no_temporaries (unsynced_world t)"
    by (auto simp: no_temporaries_def unsynced_world_def stored_world_def file_at_def example_env_path_def
        env_state_path_def file_name_def split: if_splits)
  moreover have "fake_up (net (unsynced_world t))"
    by (simp add: unsynced_world_def stored_world_def quiet_world_def fake_up_def fake_new_def)
  ultimately show ?thesis using assms by (simp add: push_ready_def) (simp add: unsynced_world_def)
qed

lemma example_text: "utf8_ok ''A=1''" "length ''A=1'' \<le> MAX_PAYLOAD_BYTES"
  by (auto simp: MAX_PAYLOAD_BYTES_def ascii_def intro!: utf8_ok_ascii)

theorem env_push_succeeds_witness:
  "\<exists>res rv w'. entry_resource example_entry = Inr res \<and>
     env_push total_prims (fake_context total_prims) example_env_key example_entry example_env_path env_state_path
       (unsynced_world ''A=1'') = (Inr (EnvStored rv 1), w') \<and>
     env_cell_of total_prims example_env_key fake_user res (fake_doc (net w') (entry_hex example_entry)) =
       Some (rv, Some (1, as_bytes ''A=1''))"
proof -
  obtain res where res: "entry_resource example_entry = Inr res" by (simp add: entry_resource_eq)
  have "1 = next_seq (es_get (env_state_at total_prims env_state_path (unsynced_world ''A=1'')) example_entry)"
    by (simp add: unsynced_world_def next_seq_def)
  from env_push_succeeds [OF unsynced_ready [OF example_text] total_json_ok total_json_total total_gcm_ok total_gcm_total
      total_sha256_ok total_base64_ok example_env_key_ok res this] res show ?thesis by blast
qed

theorem env_push_refines_cas_witness:
  "\<exists>rv res w'. env_push_file total_prims (fake_context total_prims) example_env_key example_entry
      (local_env_file example_env_path) env_state_path (unsynced_world ''A=1'') = (Inr (EnvStored rv 1), w') \<and>
    compare_and_set None rv (1, as_bytes ''A=1'') None =
      Some (env_cell_of total_prims example_env_key fake_user res (fake_doc (net w') (fake_at total_prims res)))"
proof -
  let ?w = "unsynced_world ''A=1''"
  have st: "env_state_at total_prims env_state_path ?w = env_state_default" by (simp add: unsynced_world_def)
  obtain rv w' where run: "env_push total_prims (fake_context total_prims) example_env_key example_entry example_env_path
      env_state_path ?w = (Inr (EnvStored rv 1), w')"
    by (rule push_stored [OF unsynced_ready [OF example_text] total_json_ok total_json_total total_gcm_total
          example_env_key_ok]) (auto simp: st next_seq_def)
  obtain res where res: "entry_resource example_entry = Inr res" by (simp add: entry_resource_eq)
  have quiet: "quiet_fs ?w" by (simp add: unsynced_world_def calm_quiet_fs)
  have rd: "\<exists>w1. read_text (local_env_file example_env_path) ?w = (Inr (Some ''A=1''), w1)"
    using read_local_text [OF example_text(1) _ quiet, of example_env_path] by (simp add: unsynced_world_def)
  have empty: "fake_doc (net ?w) (fake_at total_prims res) = None" by (simp add: unsynced_world_def)
  from env_push_refines_cas [OF run [unfolded env_push_def] quiet frame_local_read(2) frame_local_read(4)
      frame_local_read(1) total_gcm_ok total_sha256_ok total_base64_ok total_json_ok example_env_key_ok res rd refl refl]
  have "compare_and_set None rv (1, as_bytes ''A=1'') None =
      Some (env_cell_of total_prims example_env_key fake_user res (fake_doc (net w') (fake_at total_prims res)))"
    by (simp add: st empty env_cell_of_def)
  with run show ?thesis unfolding env_push_def by blast
qed

section \<open>From one machine to another\<close>

lemma pull_of_cell:
  assumes "quiet_fs v" "json_ok P" "json_total P" "entry_ok entry" "entry_resource entry = Inr res"
    and "fake_doc (net v) (entry_hex entry) = Some d"
    and "cell_content P k fake_user res (doc_blob d) = Some (seq, as_bytes t)" "utf8_ok t"
    and "fresh (seen_seq (env_state_at P sp v) entry) seq"
    and "file_at local_path v = None \<or> (\<exists>l. file_at local_path v = Some (as_bytes l) \<and> utf8_ok l)"
    and "\<And>l. l = (case file_at local_path v of Some bs \<Rightarrow> bs | None \<Rightarrow> []) \<Longrightarrow> env_hash P l \<noteq> env_hash P (as_bytes t)"
  obtains dv v' where "env_pull P (fake_context P) k entry local_path sp v = (Inr (EnvRemoteNewer dv), v') \<or>
      env_pull P (fake_context P) k entry local_path sp v = (Inr (EnvConflict dv), v')"
    "ed_remote dv = t" "ed_revision dv = doc_revision d" "ed_seq dv = seq"
    "ed_local_hash dv = map_option (env_hash P) (file_at local_path v)"
proof -
  obtain local where rd: "read_text (local_env_file local_path) v = (Inr local, advance v)"
    and local: "file_at local_path v = map_option as_bytes local"
  proof (cases "file_at local_path v")
    case None
    then have "read_text (local_env_file local_path) v = (Inr None, advance v)"
      using assms(1) by (simp add: read_text_def local_env_file_def env_read_local_def io_bind_apply io_case_apply
          fs_read_to_string_def fs_read_def fs_guard_def quiet_fs_def not_found_def)
    with None show thesis by (intro that [of None]) simp_all
  next
    case (Some bs)
    with assms(10) obtain l where "file_at local_path v = Some (as_bytes l)" "utf8_ok l" by auto
    with read_local_text [OF this(2,1) assms(1)] show thesis by (intro that [of "Some l"]) simp_all
  qed
  let ?v2 = "(advance v)\<lparr>net := (net v)\<lparr>fk_requests := Suc (fk_requests (net v))\<rparr>\<rparr>"
  have fetched: "fetch P (fake_api P) res (advance v) = (Inr (Some d), ?v2)"
    using fake_fetch_total [OF assms(2,3), of res "advance v"] assms(6) fake_at_entry [OF assms(4,5)] by simp
  have q2: "quiet_fs ?v2" using assms(1) by (simp add: quiet_fs_def)
  have st: "env_state_at P sp ?v2 = env_state_at P sp v" by (simp add: env_state_at_def)
  from assms(7) obtain e x where e: "from_blob P (doc_blob d) = Inr e" "env_open P k fake_user res None e = Inr x"
    and x: "op_seq x = seq" "op_payload x = as_bytes t"
    by (auto simp: cell_content_def split: sum.splits)
  have opens: "env_open P k fake_user res (seen_seq (env_state_at P sp v) entry) e = Inr x"
    using e(2) assms(9) x(1) by (cases "seen_seq (env_state_at P sp v) entry") (auto simp: env_open_seen fresh_def not_less)
  have txt_of: "opened_text (Inr x) = Inr (seq, t)" using x assms(8) by (simp add: opened_text_Inr from_utf8_as_bytes)
  have hash: "env_hash P (as_bytes (case local of Some l \<Rightarrow> l | None \<Rightarrow> [])) \<noteq> env_hash P (as_bytes t)"
    using assms(11) [of "as_bytes (case local of Some l \<Rightarrow> l | None \<Rightarrow> [])"] local by (cases local) auto
  let ?dv = "\<lparr>ed_diff = diff_between P (case local of Some l \<Rightarrow> l | None \<Rightarrow> []) t, ed_remote = t,
     ed_revision = doc_revision d, ed_seq = seq,
     ed_local_hash = (if local \<noteq> None then Some (env_hash P (as_bytes (case local of Some l \<Rightarrow> l | None \<Rightarrow> []))) else None)\<rparr>"
  have "env_pull P (fake_context P) k entry local_path sp v = (Inr (EnvRemoteNewer ?dv), advance ?v2) \<or>
      env_pull P (fake_context P) k entry local_path sp v = (Inr (EnvConflict ?dv), advance ?v2)"
    using rd fetched hash
    by (simp add: env_pull_def env_pull_file_def io_bind_apply io_map_err_apply assms(5) fake_context_def
        pull_document_def env_state_load_quiet [OF q2] st e(1) opens txt_of pull_decide_def Let_def)
  then show thesis by (rule that) (use local in \<open>auto split: option.splits\<close>)
qed


text \<open>C32. What one machine stored, another is offered: after a push reported success, a pull on any
  other machine that holds the same key and has not recorded a newer version, and whose own file
  differs, answers a difference whose remote side is exactly the pushed text, with the revision and
  sequence number of that push.\<close>

theorem env_push_reaches_other_machine:
  assumes "env_push P (fake_context P) k entry lp sp w = (Inr (EnvStored rv seq), w')" and "quiet_fs w"
    and "gcm_ok P" "sha256_ok P" "base64_ok P" "json_ok P" "json_total P" "env_dek_ok k" "entry_ok entry"
    and "file_at lp w = Some (as_bytes t)" "utf8_ok t"
    and "net v = net w'" "quiet_fs v" "fresh (seen_seq (env_state_at P sp2 v) entry) seq"
    and "file_at lp2 v = Some (as_bytes l)" "utf8_ok l" "env_hash P (as_bytes l) \<noteq> env_hash P (as_bytes t)"
  shows "\<exists>dv v'. (env_pull P (fake_context P) k entry lp2 sp2 v = (Inr (EnvRemoteNewer dv), v') \<or>
      env_pull P (fake_context P) k entry lp2 sp2 v = (Inr (EnvConflict dv), v')) \<and>
    ed_remote dv = t \<and> ed_revision dv = rv \<and> ed_seq dv = seq \<and>
    ed_local_hash dv = Some (env_hash P (as_bytes l))"
proof -
  obtain res where res: "entry_resource entry = Inr res" using assms(9) by (simp add: entry_resource_eq)
  obtain d where d: "fake_doc (net w') (entry_hex entry) = Some d" "doc_revision d = rv"
    "cell_content P k fake_user res (doc_blob d) = Some (seq, as_bytes t)"
    by (rule push_stored_cell [OF assms(1-6,8,9) res assms(10,11)])
  obtain dv v' where "env_pull P (fake_context P) k entry lp2 sp2 v = (Inr (EnvRemoteNewer dv), v') \<or>
      env_pull P (fake_context P) k entry lp2 sp2 v = (Inr (EnvConflict dv), v')"
    "ed_remote dv = t" "ed_revision dv = doc_revision d" "ed_seq dv = seq"
    "ed_local_hash dv = map_option (env_hash P) (file_at lp2 v)"
    using d(1) assms(12,15-17)
    by (rule_tac pull_of_cell [OF assms(13,6,7,9) res _ d(3) assms(11,14), of lp2]) auto
  then show ?thesis using d(2) assms(15) by auto
qed

theorem env_push_reaches_other_machine_witness:
  "\<exists>rv w' dv v'. env_push total_prims (fake_context total_prims) example_env_key example_entry example_env_path
       env_state_path (unsynced_world ''A=1'') = (Inr (EnvStored rv 1), w') \<and>
     (env_pull total_prims (fake_context total_prims) example_env_key example_entry example_env_path env_state_path
        ((unsynced_world ''B=2'')\<lparr>net := net w'\<rparr>) = (Inr (EnvRemoteNewer dv), v') \<or>
      env_pull total_prims (fake_context total_prims) example_env_key example_entry example_env_path env_state_path
        ((unsynced_world ''B=2'')\<lparr>net := net w'\<rparr>) = (Inr (EnvConflict dv), v')) \<and>
     ed_remote dv = ''A=1'' \<and> ed_seq dv = 1"
proof -
  let ?w = "unsynced_world ''A=1''"
  have st: "env_state_at total_prims env_state_path (unsynced_world t) = env_state_default" for t
    by (simp add: unsynced_world_def)
  obtain rv w' where run: "env_push total_prims (fake_context total_prims) example_env_key example_entry example_env_path
      env_state_path ?w = (Inr (EnvStored rv 1), w')"
    by (rule push_stored [OF unsynced_ready [OF example_text] total_json_ok total_json_total total_gcm_total
          example_env_key_ok]) (auto simp: st next_seq_def)
  let ?v = "(unsynced_world ''B=2'')\<lparr>net := net w'\<rparr>"
  have quiet: "quiet_fs ?w" "quiet_fs ?v"
    using calm_quiet_fs [OF stored_world_simps(1)] by (simp_all add: unsynced_world_def quiet_fs_def)
  have files: "file_at example_env_path ?w = Some (as_bytes ''A=1'')" "file_at example_env_path ?v = Some (as_bytes ''B=2'')"
    by (simp_all add: unsynced_world_def)
  have "env_state_at total_prims env_state_path ?v = env_state_default"
    using st [of "''B=2''"] by (simp add: env_state_at_def)
  then have fr: "fresh (seen_seq (env_state_at total_prims env_state_path ?v) example_entry) 1"
    by (simp add: fresh_def seen_seq_def)
  have utf: "utf8_ok ''B=2''" by (intro utf8_ok_ascii) (simp add: ascii_def)
  have ne: "env_hash total_prims (as_bytes ''B=2'') \<noteq> env_hash total_prims (as_bytes ''A=1'')"
    by (simp add: env_hash_def total_prims_def ref_prims_def ref_sha256_def)
  have n: "net ?v = net w'" by simp
  from env_push_reaches_other_machine [OF run quiet(1) total_gcm_ok total_sha256_ok total_base64_ok total_json_ok
      total_json_total example_env_key_ok example_entry_ok files(1) example_text(1) n quiet(2) fr files(2) utf ne]
  show ?thesis using run by blast
qed

end
