(* ===== verification/Env_Apply.thy ===== *)
theory Env_Apply
  imports Env_Exchange
begin

text \<open>
  Replacing a local environment file by the stored one (\<^verbatim>\<open>env_sync.rs\<close> over \<^verbatim>\<open>secret_file.rs\<close>):
  a file is replaced only when it holds what was shown, and the backup just taken survives the
  eviction as long as the clock was not set back behind the stamps of earlier backups; the last
  section shows what happens when it was.
\<close>

section \<open>The newest backup is kept\<close>

lemma str_nat_zeros: "str_nat (replicate k CHR ''0'' @ s) = str_nat s"
  by (induction k) simp_all

lemma is_digit_digit_char: "n < 10 \<Longrightarrow> is_digit (digit_char n)"
proof -
  assume "n < 10"
  then have "n \<in> set [0..<10]" by simp
  moreover have "list_all (\<lambda>n. is_digit (digit_char n)) [0..<10]" by code_simp
  ultimately show ?thesis by (simp add: list_all_iff)
qed

lemma is_digit_nat_str: "list_all is_digit (nat_str n)"
proof (induction n rule: nat_str.induct)
  case (1 n)
  then show ?case by (cases "n < 10") (simp_all add: nat_str.simps [of n] is_digit_digit_char)
qed

lemma parse_zero_padded: "int n < 2 ^ 128 \<Longrightarrow> parse_u128 (zero_padded width n) = Some n"
proof -
  assume n: "int n < 2 ^ 128"
  let ?s = "zero_padded width n"
  have "is_digit CHR ''0''" by (simp add: is_digit_def)
  then have digits: "list_all is_digit ?s"
    using is_digit_nat_str [of n] by (auto simp: zero_padded_def list_all_iff)
  have ne: "?s \<noteq> []" by (simp add: zero_padded_def nat_str.simps [of n])
  then obtain c r where s: "?s = c # r" by (cases ?s) auto
  with digits have "is_digit c" by simp
  then have "c \<noteq> CHR ''+''" by (auto simp: is_digit_def)
  moreover have "str_nat ?s = n" by (simp add: zero_padded_def str_nat_zeros str_nat_nat_str del: str_nat.simps)
  ultimately show ?thesis using n digits s by (simp add: parse_u128_def Let_def del: str_nat.simps)
qed

text \<open>The file table of a machine: one content for each path.\<close>

definition table_ok :: "'w world \<Rightarrow> bool" where
  "table_ok w \<longleftrightarrow> distinct (map fst (files w))"


lemma table_ok_simps [simp]:
  "table_ok (advance w) \<longleftrightarrow> table_ok w"
  "table_ok w \<Longrightarrow> table_ok (set_file p bs w)"
  "table_ok w \<Longrightarrow> table_ok (unset_file p w)"
  by (simp_all add: table_ok_def set_file_def unset_file_def distinct_update distinct_delete)

lemma table_ok_write_through:
  "write_secret_through t p bs w = (r, w') \<Longrightarrow> table_ok w \<Longrightarrow> table_ok w'"
  unfolding write_secret_through_def write_then_rename_def write_durably_def on_world_def set_created_def
    io_bind_apply fs_defs
  by (auto split: option.splits sum.splits prod.splits fault.splits if_splits)

lemma table_ok_write_secret:
  assumes "named_path p" and "write_secret_atomic p bs w = (r, w')" and "table_ok w"
  shows "table_ok w'"
  using assms(1,2)
proof (cases rule: write_secret_cases)
  case (through t w1)
  from assms(3) through(2) have "table_ok w1" by (simp add: table_ok_def)
  with table_ok_write_through [OF through(3)] show ?thesis .
qed (use assms(3) in \<open>simp add: table_ok_def\<close>)

lemma backups_in_iff:
  "s \<in> set (backups_in d w) \<longleftrightarrow>
     path_parent (snd s) = Some d \<and> backup_stamp (snd s) = Some s \<and> file_at (snd s) w \<noteq> None"
proof
  assume s: "s \<in> set (backups_in d w)"
  then obtain p where "p \<in> set (map fst (files w))" "backup_stamp p = Some s"
    by (force simp: backups_in_def List.map_filter_def)
  with backup_stamp_path [of p s] backups_in_mem [OF s] show
    "path_parent (snd s) = Some d \<and> backup_stamp (snd s) = Some s \<and> file_at (snd s) w \<noteq> None"
    by (auto simp: file_at_def map_of_eq_None_iff)
next
  assume "path_parent (snd s) = Some d \<and> backup_stamp (snd s) = Some s \<and> file_at (snd s) w \<noteq> None"
  then show "s \<in> set (backups_in d w)"
    by (cases s) (auto simp: backups_in_def List.map_filter_def file_at_def map_of_eq_None_iff image_iff intro!: bexI)
qed

lemma distinct_backups: "table_ok w \<Longrightarrow> distinct (backups_in d w)"
proof -
  have "distinct ps \<Longrightarrow> distinct (List.map_filter backup_stamp (filter Q ps))" for Q and ps :: "path list"
    by (induction ps) (fastforce simp: List.map_filter_def dest: backup_stamp_path)+
  then show "table_ok w \<Longrightarrow> distinct (backups_in d w)" by (simp add: backups_in_def table_ok_def)
qed

lemma newest_kept:
  assumes "distinct all" and "s \<in> set all" and "\<forall>s' \<in> set all. s' \<noteq> s \<longrightarrow> fst s' < fst s" and "0 < n"
  shows "s \<notin> set (drop n (newest_first all))"
proof
  assume drop: "s \<in> set (drop n (newest_first all))"
  let ?ns = "newest_first all"
  have mem: "set ?ns = set all" by (simp add: newest_first_def)
  have dist: "distinct ?ns" using assms(1) by (simp add: newest_first_def)
  have sorted: "sorted (map (\<lambda>s. - int (fst s)) ?ns)" by (simp add: newest_first_def)
  obtain x xs where ns: "?ns = x # xs" using drop by (cases ?ns) auto
  with drop assms(4) have "s \<in> set xs" by (cases n) (auto dest: in_set_dropD)
  with sorted ns have "fst s \<le> fst x" by auto
  moreover have "x \<noteq> s" using dist ns \<open>s \<in> set xs\<close> by auto
  moreover have "x \<in> set all" using mem ns by auto
  ultimately show False using assms(3) by force
qed

lemma evict_keeps_newest:
  assumes "evict_old_backups d w = (Inr (), w')" and "table_ok w" and "s \<in> set (backups_in d w)"
    and "\<forall>s' \<in> set (backups_in d w). s' \<noteq> s \<longrightarrow> fst s' < fst s"
  shows "file_at (snd s) w' = file_at (snd s) w"
  using assms(1)
proof (cases rule: evict_Inr)
  case 1
  then show ?thesis by (simp add: file_at_def)
next
  case 2
  let ?gone = "drop BACKUPS_KEPT (newest_first (backups_in d w))"
  have "snd s \<notin> set (map snd ?gone)"
  proof
    assume "snd s \<in> set (map snd ?gone)"
    then obtain t where t: "t \<in> set ?gone" "snd t = snd s" by auto
    then have "t \<in> set (newest_first (backups_in d w))" by (meson in_set_dropD)
    then have "t \<in> set (backups_in d w)" by (simp add: newest_first_def)
    with t(2) assms(3) have "t = s" by (metis backups_in_mem option.inject)
    with t(1) newest_kept [OF distinct_backups [OF assms(2)] assms(3,4), of BACKUPS_KEPT] show False
      by (simp add: BACKUPS_KEPT_def)
  qed
  then show ?thesis unfolding file_at_def 2(2) by (rule map_of_kept)
qed

section \<open>A replaced file is kept\<close>

definition backup_dir :: "path \<Rightarrow> entry_id \<Rightarrow> path" where
  "backup_dir backups_root entry = path_join backups_root [Normal (entry_hex entry)]"

text \<open>Every backup the entry already has is older than anything the clock will say from now on, and
  the clock fits the stamps.\<close>

definition clock_ahead :: "path \<Rightarrow> 'w world \<Rightarrow> bool" where
  "clock_ahead d w \<longleftrightarrow>
     (\<forall>t. int (clock w t div 1000000) < 2 ^ 128 \<and> (\<forall>s \<in> set (backups_in d w). fst s < clock w t div 1000000))"

lemma utf8_zero_padded: "utf8_ok (zero_padded width n)"
  using nat_str_ascii [of n] by (intro utf8_ok_ascii) (auto simp: zero_padded_def ascii_def)

lemma backup_target:
  assumes "int n < 2 ^ 128" and "p = path_join d [Normal (zero_padded 20 n)]"
  shows "backup_stamp p = Some (n, p)" "path_parent p = Some d" "named_path p"
  using assms parse_zero_padded [OF assms(1), of 20] utf8_zero_padded [of 20 n]
  by (simp_all add: path_join_def is_absolute_def backup_stamp_def file_name_def path_parent_def named_path_def)

lemma back_up_secret_keeps:
  assumes "back_up_secret root entry current w = (Inr r, w')" and "clock_ahead (backup_dir root entry) w" "table_ok w"
  shows "\<exists>p. path_parent p = Some (backup_dir root entry) \<and> file_at p w' = Some current"
    and "\<And>q. path_parent q \<noteq> Some (backup_dir root entry) \<Longrightarrow> file_at q w' = file_at q w"
proof -
  let ?d = "backup_dir root entry" and ?n = "clock w (tick w) div 1000000"
  define p where "p = path_join ?d [Normal (zero_padded 20 ?n)]"
  from assms(1) obtain w1 where wr: "write_secret_atomic p current (advance w) = (Inr (), w1)"
    and ev: "evict_old_backups ?d w1 = (Inr (), w')"
    by (auto simp: back_up_secret_def Let_def io_eqs now_nanos_def p_def backup_dir_def)
  have n: "int ?n < 2 ^ 128" using assms(2) by (simp add: clock_ahead_def)
  note t = backup_target [OF n p_def]
  have at: "file_at p w1 = Some current" using write_secret_target [OF t(3) wr] by simp
  have others: "file_at q w1 = file_at q w" if "q \<noteq> p" for q
    using write_secret_others [OF t(3) wr that] by simp
  have new: "(?n, p) \<in> set (backups_in ?d w1)" using t at by (simp add: backups_in_iff)
  have older: "\<forall>s' \<in> set (backups_in ?d w1). s' \<noteq> (?n, p) \<longrightarrow> fst s' < fst (?n, p)"
  proof (intro ballI impI)
    fix s' assume s': "s' \<in> set (backups_in ?d w1)" "s' \<noteq> (?n, p)"
    then have "snd s' \<noteq> p" using t(1) backups_in_mem [OF s'(1)] by auto
    then have "s' \<in> set (backups_in ?d w)" using s'(1) others by (simp add: backups_in_iff)
    then show "fst s' < fst (?n, p)" using assms(2) by (simp add: clock_ahead_def)
  qed
  have "table_ok w1" using table_ok_write_secret [OF t(3) wr] assms(3) by simp
  from evict_keeps_newest [OF ev this new older] at have "file_at p w' = Some current" by simp
  with t(2) show "\<exists>p. path_parent p = Some ?d \<and> file_at p w' = Some current" by blast
  show "file_at q w' = file_at q w" if "path_parent q \<noteq> Some ?d" for q
    using evict_other [OF ev, of q] others [of q] t(2) that by auto
qed

lemma env_read_honest:
  assumes "env_read_local p w = (r, w')" and "honest_fs w" "file_at p w = Some old"
  shows "files w' = files w" "r \<noteq> Inr None" "r = Inr (Some c) \<Longrightarrow> as_bytes c = old"
proof -
  show "files w' = files w" using frameD [OF frame_env_read(2) assms(1)] .
  show "r \<noteq> Inr None" "r = Inr (Some c) \<Longrightarrow> as_bytes c = old"
    using assms by (auto simp: env_read_local_def io_case_apply fs_read_to_string_def io_bind_apply fs_read_def fs_guard_def
        honest_fs_def from_utf8_Some split: option.splits sum.splits if_splits)
qed

lemma frame_clock_read: "frame clock (env_read_local p)"
  by (auto simp: frame_def env_read_local_def io_case_apply fs_read_to_string_def io_bind_apply fs_read_def fs_guard_def
      advance_def split: option.splits sum.splits)

lemma env_state_load_ok: "env_state_load P p w = (Inr s, w') \<Longrightarrow> bt_ok (es_entries s)"
  by (auto simp: env_state_load_def io_case_apply env_state_default_def bt_ok_def [of "[]"] env_state_of_json_ok
      split: prod.splits sum.splits option.splits)

lemma record_applied_effect:
  assumes "record_applied P entry remote revision seq sp w = (r, w')" and "json_ok P" "named_path sp"
  shows "q \<noteq> sp \<Longrightarrow> file_at q w \<noteq> None \<Longrightarrow> file_at q w' = file_at q w"
    and "r = Inr () \<Longrightarrow> es_get (env_state_at P sp w') entry =
      Some \<lparr>se_revision = revision, se_local_hash = env_hash P (as_bytes remote), se_seq = seq\<rparr>"
proof -
  obtain s where ld: "env_state_load P sp w = (Inr s :: env_sync_error + env_state, advance w)" by (rule env_state_load_total)
  let ?s = "es_record entry revision (env_hash P (as_bytes remote)) seq s"
  have sv: "env_save P ?s sp (advance w) = (r, w')" using assms(1) ld by (simp add: record_applied_def io_bind_apply)
  show "q \<noteq> sp \<Longrightarrow> file_at q w \<noteq> None \<Longrightarrow> file_at q w' = file_at q w"
    using env_save_kept [OF sv assms(3), of q] by simp
  have ok: "bt_ok (es_entries ?s)" using env_state_load_ok [OF ld] by (rule es_record_ok)
  show "es_get (env_state_at P sp w') entry =
      Some \<lparr>se_revision = revision, se_local_hash = env_hash P (as_bytes remote), se_seq = seq\<rparr>" if "r = Inr ()"
    using env_save_at(1) [OF sv [unfolded that] assms(2,3) ok] by (simp add: es_get_record)
qed

lemma apply_steps:
  assumes "apply_remote_if_unchanged P entry lp seen root remote revision seq sp w = (r, w')"
    and "honest_fs w" "file_at lp w = Some old"
  obtains (early) e where "r = Inl e" "files w' = files w"
  | (backup) w1 e where "files w1 = files w" "honest_fs w1" "back_up_secret root entry old w1 = (Inl e, w')" "r \<noteq> Inr ()"
  | (replace) w1 p w2 x w3 where "seen = Some (env_hash P old)" "files w1 = files w" "clock w1 = clock w"
    "back_up_secret root entry old w1 = (Inr p, w2)" "write_secret_atomic lp (as_bytes remote) w2 = (x, w3)"
    "case x of Inl _ \<Rightarrow> r \<noteq> Inr () \<and> w' = w3 | Inr _ \<Rightarrow> record_applied P entry remote revision seq sp w3 = (r, w')"
proof -
  obtain c w1 where rd: "env_read_local lp w = (c, w1)" by force
  note eff = env_read_honest [OF rd assms(2,3)]
  have hon: "honest_fs w1" using honest_fs_frame [OF frame_env_read(4) rd] assms(2) by simp
  have clk: "clock w1 = clock w" using frameD [OF frame_clock_read rd] .
  show thesis
  proof (cases "\<exists>t. c = Inr (Some t) \<and> seen = Some (env_hash P old)")
    case False
    then have "\<exists>e. r = Inl e \<and> w' = w1"
      using assms(1) rd eff(2,3)
      by (cases c) (auto simp: apply_remote_if_unchanged_def io_bind_apply ensure_unchanged_def split: if_splits)
    with eff(1) show thesis using early by blast
  next
    case True
    then obtain t where t: "c = Inr (Some t)" "seen = Some (env_hash P old)" by blast
    with eff(3) have old: "as_bytes t = old" by blast
    obtain b w2 where b: "back_up_secret root entry old w1 = (b, w2)" by force
    show thesis
    proof (cases b)
      case (Inl e)
      with assms(1) rd t old b have "w2 = w' \<and> r \<noteq> Inr ()"
        by (auto simp: apply_remote_if_unchanged_def io_bind_apply ensure_unchanged_def replace_local_def
            back_up_if_any_def back_up_current_def io_map_err_apply)
      with b Inl eff(1) hon show thesis using backup by blast
    next
      case (Inr p)
      obtain x w3 where x: "write_secret_atomic lp (as_bytes remote) w2 = (x, w3)" by force
      from assms(1) rd t old b Inr x have
        "case x of Inl _ \<Rightarrow> r \<noteq> Inr () \<and> w' = w3 | Inr _ \<Rightarrow> record_applied P entry remote revision seq sp w3 = (r, w')"
        by (auto simp: apply_remote_if_unchanged_def io_bind_apply ensure_unchanged_def replace_local_def
            back_up_if_any_def back_up_current_def io_map_err_apply env_write_local_def split: sum.splits)
      with t(2) eff(1) clk b Inr x show thesis using replace by blast
    qed
  qed
qed

lemma frame_remove_files: "q \<notin> set ps \<Longrightarrow> frame (file_at q) (remove_files ps)"
  by (induction ps) (auto intro!: frame_intros)

lemma evict_elsewhere:
  assumes "evict_old_backups d w = (r, w')" and "path_parent q \<noteq> Some d"
  shows "file_at q w' = file_at q w"
proof -
  let ?rest = "map snd (drop BACKUPS_KEPT (newest_first (backups_in d w)))"
  have "q \<notin> set ?rest"
  proof
    assume "q \<in> set ?rest"
    then obtain t where t: "t \<in> set (newest_first (backups_in d w))" "snd t = q" by (auto dest: in_set_dropD)
    then have "t \<in> set (backups_in d w)" by (simp add: newest_first_def)
    from backups_in_mem [OF this] t(2) assms(2) show False by auto
  qed
  note rest = frameD [OF frame_remove_files [OF this], of "advance w" r w']
  show ?thesis using assms(1) rest
    by (auto simp: evict_old_backups_def io_bind_apply fs_read_dir_def fs_guard_def backups_in_def Let_def
        split: option.splits if_splits)
qed

lemma back_up_elsewhere:
  assumes "back_up_secret root entry current w = (r, w')" and "path_parent q \<noteq> Some (backup_dir root entry)"
    and "file_at q w \<noteq> None"
  shows "file_at q w' = file_at q w"
proof -
  let ?p = "path_join (backup_dir root entry) [Normal (zero_padded 20 (clock w (tick w) div 1000000))]"
  obtain x w1 where wr: "write_secret_atomic ?p current (advance w) = (x, w1)" by force
  have parent: "path_parent ?p = Some (backup_dir root entry)" and named: "named_path ?p"
    by (simp_all add: path_join_def is_absolute_def path_parent_def named_path_def file_name_def)
  have one: "file_at q w1 = file_at q w"
    using write_secret_others [OF named wr, of q] parent assms(2,3) by auto
  show ?thesis
  proof (cases x)
    case (Inl e)
    then show ?thesis using assms(1) wr one
      by (auto simp: back_up_secret_def Let_def io_bind_apply now_nanos_def backup_dir_def)
  next
    case (Inr u)
    obtain y w2 where ev: "evict_old_backups (backup_dir root entry) w1 = (y, w2)" by force
    have "w2 = w'" using assms(1) wr ev Inr
      by (cases y) (auto simp: back_up_secret_def Let_def io_bind_apply now_nanos_def backup_dir_def)
    with evict_elsewhere [OF ev assms(2)] one show ?thesis by simp
  qed
qed

lemma clock_ahead_files: "files w1 = files w \<Longrightarrow> clock w1 = clock w \<Longrightarrow> clock_ahead d w1 = clock_ahead d w"
  by (simp add: clock_ahead_def backups_in_def)

text \<open>C36. Accepting a difference replaces only what was shown, and keeps it. Whatever fails on the way,
  the file afterwards either still holds its old content, or holds the remote text, and then it held
  exactly what the difference was worked out against. In that case its old content is in a file of the
  entry's backup directory, where the eviction of old backups did not remove it, provided the clock
  has not been set back behind the stamps of the backups already there; if it has, the copy may be the
  one evicted, as the last section shows. When success is reported the remote text is in place and its
  revision, hash and version are on record.\<close>

theorem replaced_file_is_kept:
  assumes "apply_remote_if_unchanged P entry lp seen root remote revision seq sp w = (r, w')"
    and "honest_fs w" "table_ok w" "json_ok P"
    and "named_path lp" "named_path sp" "lp \<noteq> sp" "path_parent lp \<noteq> Some (backup_dir root entry)"
      "path_parent sp \<noteq> Some (backup_dir root entry)"
    and "file_at lp w = Some old"
  shows "(file_at lp w' = Some old \<or>
      seen = Some (env_hash P old) \<and> file_at lp w' = Some (as_bytes remote) \<and>
      (clock_ahead (backup_dir root entry) w \<longrightarrow>
        (\<exists>p. path_parent p = Some (backup_dir root entry) \<and> file_at p w' = Some old))) \<and>
    (r = Inr () \<longrightarrow> file_at lp w' = Some (as_bytes remote) \<and>
      es_get (env_state_at P sp w') entry =
        Some \<lparr>se_revision = revision, se_local_hash = env_hash P (as_bytes remote), se_seq = seq\<rparr>)"
  using assms(1,2,10)
proof (cases rule: apply_steps)
  case (early e)
  then show ?thesis using assms(10) by (simp add: file_at_def)
next
  case (backup w1 e)
  have "file_at lp w1 = Some old" using backup(1) assms(10) by (simp add: file_at_def)
  with back_up_elsewhere [OF backup(3) assms(8)] backup(4) show ?thesis by simp
next
  case (replace w1 p w2 x w3)
  let ?d = "backup_dir root entry"
  have at1: "file_at lp w1 = Some old" using replace(2) assms(10) by (simp add: file_at_def)
  then have at2: "file_at lp w2 = Some old" using back_up_elsewhere [OF replace(4) assms(8)] by simp
  show ?thesis
  proof (cases x)
    case (Inl e)
    then show ?thesis using replace(6) write_secret_target [OF assms(5) replace(5)] at2 by simp
  next
    case (Inr u)
    then have rec: "record_applied P entry remote revision seq sp w3 = (r, w')" using replace(6) by simp
    note kept = record_applied_effect(1) [OF rec assms(4,6)]
    have "file_at lp w3 = Some (as_bytes remote)" using write_secret_target [OF assms(5) replace(5)] Inr by simp
    then have lp: "file_at lp w' = Some (as_bytes remote)" using kept [of lp] assms(7) by simp
    have copy: "\<exists>p. path_parent p = Some ?d \<and> file_at p w' = Some old" if "clock_ahead ?d w"
    proof -
      have "table_ok w1" "clock_ahead ?d w1"
        using assms(3) that replace(2) clock_ahead_files [OF replace(2,3)] by (simp_all add: table_ok_def)
      from back_up_secret_keeps(1) [OF replace(4) this(2,1)]
      obtain q where q: "path_parent q = Some ?d" "file_at q w2 = Some old" by blast
      then have qn: "q \<noteq> lp" "q \<noteq> sp" using assms(8,9) by auto
      have "file_at q w3 = Some old" using write_secret_others [OF assms(5) replace(5) qn(1)] q(2) Inr by simp
      with kept [OF qn(2)] q(1) show ?thesis by auto
    qed
    show ?thesis using lp copy replace(1) record_applied_effect(2) [OF rec assms(4,6)] by blast
  qed
qed

section \<open>When nothing fails, it is carried through\<close>

definition settled_name :: "path \<Rightarrow> bool" where
  "settled_name p \<longleftrightarrow> named_path p \<and> (case file_name p of Some n \<Rightarrow> take 4 (rev n) \<noteq> rev ''.tmp'' | None \<Rightarrow> True)"

lemma write_secret_settles:
  assumes "settled_name p" "calm w" "no_temporaries w"
  obtains w' where "write_secret_atomic p bs w = (Inr (), w')" "calm w'" "no_temporaries w'"
    "file_at p w' = Some bs" "\<And>q. q \<noteq> p \<Longrightarrow> file_at q w' = file_at q w"
proof -
  have named: "named_path p" using assms(1) by (simp add: settled_name_def)
  obtain w' where w': "write_secret_atomic p bs w = (Inr (), w')" "calm w'"
    using write_secret_calm [OF named assms(2,3)] by blast
  have others: "file_at q w' = file_at q w" if "q \<noteq> p" for q using write_secret_others [OF named w'(1) that] by simp
  have "no_temporaries w'"
    unfolding no_temporaries_def
  proof (intro allI impI)
    fix t n assume t: "file_at t w' \<noteq> None \<and> file_name t = Some n"
    show "take 4 (rev n) \<noteq> rev ''.tmp''"
      using t assms(1,3) others [of t] by (cases "t = p") (auto simp: settled_name_def no_temporaries_def)
  qed
  moreover have "file_at p w' = Some bs" using write_secret_target [OF named w'(1)] by simp
  ultimately show thesis using that w' others by blast
qed

lemma clock_advance [simp]: "clock (advance w) = clock w"
  by (simp add: advance_def)

lemma settled_stamp: "settled_name (path_join d [Normal (zero_padded 20 n)])"
proof -
  have "last (nat_str n) \<noteq> CHR ''p''"
    using nat_str_digits [of "last (nat_str n)" n] by (auto simp: nat_str.simps [of n])
  moreover have "zero_padded 20 n \<noteq> []" "last (zero_padded 20 n) = last (nat_str n)"
    by (simp_all add: zero_padded_def nat_str.simps [of n])
  ultimately have "take 4 (rev (zero_padded 20 n)) \<noteq> rev ''.tmp''"
    by (cases "zero_padded 20 n" rule: rev_cases) auto
  then show ?thesis by (simp add: settled_name_def named_path_def path_join_def is_absolute_def file_name_def)
qed

lemma one_more_backup:
  assumes "table_ok w" "table_ok w2" "\<And>q. q \<noteq> p \<Longrightarrow> file_at q w2 = file_at q w"
  shows "length (backups_in d w2) \<le> Suc (length (backups_in d w))"
proof -
  have "set (backups_in d w2) \<subseteq> insert (the (backup_stamp p)) (set (backups_in d w))"
  proof
    fix s assume s: "s \<in> set (backups_in d w2)"
    show "s \<in> insert (the (backup_stamp p)) (set (backups_in d w))"
      using s assms(3) [of "snd s"] by (cases "snd s = p") (auto simp: backups_in_iff)
  qed
  then have "card (set (backups_in d w2)) \<le> card (insert (the (backup_stamp p)) (set (backups_in d w)))"
    by (intro card_mono) simp_all
  also have "\<dots> \<le> Suc (card (set (backups_in d w)))" by (simp add: card_insert_if)
  finally have "card (set (backups_in d w2)) \<le> Suc (card (set (backups_in d w)))" .
  then show ?thesis by (simp add: distinct_card distinct_backups assms(1,2))
qed

lemma apply_carried_through:
  assumes "calm w" "no_temporaries w" "settled_name lp" "settled_name sp" "json_total P"
    and "file_at lp w = Some (as_bytes t)" "utf8_ok t" "seen = Some (env_hash P (as_bytes t))"
    and "length (backups_in (backup_dir root entry) w) < BACKUPS_KEPT" "table_ok w"
  obtains w' where "apply_remote_if_unchanged P entry lp seen root remote revision seq sp w = (Inr (), w')"
proof -
  let ?d = "backup_dir root entry" and ?p = "path_join (backup_dir root entry) [Normal (zero_padded 20 (clock w (Suc (tick w)) div 1000000))]"
  have quiet: "fs_fault w i = None" for i using assms(1) by (simp add: calm_def)
  have rd: "env_read_local lp w = (Inr (Some t), advance w)"
    using assms(6,7) quiet by (simp add: env_read_local_def io_case_apply fs_read_to_string_quiet)
  have w1: "calm (advance (advance w))" "no_temporaries (advance (advance w))"
    using assms(1,2) by (simp_all add: no_temporaries_def)
  obtain w2 where w2: "write_secret_atomic ?p (as_bytes t) (advance (advance w)) = (Inr (), w2)" "calm w2" "no_temporaries w2"
    "file_at ?p w2 = Some (as_bytes t)" "\<And>q. q \<noteq> ?p \<Longrightarrow> file_at q w2 = file_at q (advance (advance w))"
    by (rule write_secret_settles [where p = ?p and bs = "as_bytes t", OF settled_stamp w1]) blast
  have w2_others: "file_at q w2 = file_at q w" if "q \<noteq> ?p" for q using w2(5) [OF that] by simp
  have few: "length (backups_in ?d w2) \<le> BACKUPS_KEPT"
  proof -
    have "table_ok w2" using table_ok_write_secret [OF _ w2(1)] assms(10) settled_stamp by (simp add: settled_name_def)
    from one_more_backup [OF assms(10) this w2_others] assms(9) show ?thesis by (meson Suc_leI le_trans)
  qed
  have ev: "evict_old_backups ?d w2 = (Inr (), advance w2)"
    using w2(2) few by (simp add: evict_old_backups_def io_bind_apply fs_read_dir_def fs_guard_def calm_def Let_def flip: backups_in_def)
  have bk: "back_up_secret root entry (as_bytes t) (advance w) = (Inr (Some ?p), advance w2)"
    using w2(1) ev by (simp add: back_up_secret_def Let_def io_bind_apply now_nanos_def backup_dir_def)
  have "calm (advance w2)" "no_temporaries (advance w2)" using w2(2,3) by (simp_all add: no_temporaries_def)
  from write_secret_settles [OF assms(3) this] obtain w3 where w3:
    "write_secret_atomic lp (as_bytes remote) (advance w2) = (Inr (), w3)" "calm w3" "no_temporaries w3" by blast
  obtain s where ld: "env_state_load P sp w3 = (Inr s :: env_sync_error + env_state, advance w3)"
    by (rule env_state_load_total)
  let ?s = "es_record entry revision (env_hash P (as_bytes remote)) seq s"
  have "calm (advance w3)" "no_temporaries (advance w3)" "named_path sp"
    using w3(2,3) assms(4) by (simp_all add: no_temporaries_def settled_name_def)
  with env_save_calm [OF _ assms(5), of "advance w3" sp ?s] obtain w4 where
    "env_save P ?s sp (advance w3) = (Inr (), w4)" by blast
  with rd assms(8) bk w3(1) ld have
    "apply_remote_if_unchanged P entry lp seen root remote revision seq sp w = (Inr (), w4)"
    by (simp add: apply_remote_if_unchanged_def io_bind_apply ensure_unchanged_def replace_local_def
        back_up_if_any_def back_up_current_def io_map_err_apply env_write_local_def record_applied_def)
  then show thesis by (rule that)
qed

definition clocked_world :: "string \<Rightarrow> fake_store world" where
  "clocked_world t = (unsynced_world t)\<lparr>clock := (\<lambda>_. 7000000)\<rparr>"

lemma clocked_world_settled:
  "calm (clocked_world t)" "no_temporaries (clocked_world t)" "table_ok (clocked_world t)" "honest_fs (clocked_world t)"
  "backups_in (backup_dir [RootDir, Normal ''b''] e) (clocked_world t) = []"
  "clock_ahead (backup_dir [RootDir, Normal ''b''] e) (clocked_world t)"
  "file_at example_env_path (clocked_world t) = Some (as_bytes t)"
proof -
  show none: "backups_in (backup_dir [RootDir, Normal ''b''] e) (clocked_world t) = []"
    by (simp add: backups_in_def clocked_world_def unsynced_world_def stored_world_def backup_dir_def path_join_def
        is_absolute_def example_env_path_def env_state_path_def path_parent_def map_filter_Nil)
  then show "clock_ahead (backup_dir [RootDir, Normal ''b''] e) (clocked_world t)"
    by (simp add: clock_ahead_def) (simp add: clocked_world_def)
  show "file_at example_env_path (clocked_world t) = Some (as_bytes t)"
    by (simp add: clocked_world_def unsynced_world_def stored_world_def file_at_def)
qed (auto simp: clocked_world_def unsynced_world_def stored_world_def table_ok_def honest_fs_def quiet_world_def calm_def
    no_temporaries_def file_at_def example_env_path_def env_state_path_def file_name_def split: if_splits)

lemma settled_examples: "settled_name example_env_path" "settled_name env_state_path"
  by (simp_all add: settled_name_def named_path_def example_env_path_def env_state_path_def file_name_def)

theorem replaced_file_is_kept_witness:
  "\<exists>w' p. apply_remote_if_unchanged total_prims example_entry example_env_path (Some (env_hash total_prims (as_bytes ''A=1'')))
       [RootDir, Normal ''b''] ''B=2'' ''r2'' 2 env_state_path (clocked_world ''A=1'') = (Inr (), w') \<and>
     file_at example_env_path w' = Some (as_bytes ''B=2'') \<and> file_at p w' = Some (as_bytes ''A=1'')"
proof -
  let ?d = "backup_dir [RootDir, Normal ''b''] example_entry"
  have few: "length (backups_in ?d (clocked_world ''A=1'')) < BACKUPS_KEPT"
    unfolding clocked_world_settled(5) by (simp add: BACKUPS_KEPT_def)
  obtain w' where run: "apply_remote_if_unchanged total_prims example_entry example_env_path
      (Some (env_hash total_prims (as_bytes ''A=1''))) [RootDir, Normal ''b''] ''B=2'' ''r2'' 2 env_state_path
      (clocked_world ''A=1'') = (Inr (), w')"
    by (rule apply_carried_through [OF clocked_world_settled(1,2) settled_examples total_json_total
          clocked_world_settled(7) example_text(1) refl few clocked_world_settled(3)])
  have paths: "named_path example_env_path" "named_path env_state_path" "example_env_path \<noteq> env_state_path"
    "path_parent example_env_path \<noteq> Some ?d" "path_parent env_state_path \<noteq> Some ?d"
    by (simp_all add: backup_dir_def path_join_def is_absolute_def)
      (simp_all add: example_env_path_def env_state_path_def path_parent_def)
  have "as_bytes ''A=1'' \<noteq> as_bytes ''B=2''" by simp
  with replaced_file_is_kept [OF run clocked_world_settled(4,3) total_json_ok paths clocked_world_settled(7)] run
    clocked_world_settled(6) show ?thesis by (metis option.inject)
qed

section \<open>What a clock that was set back does\<close>

lemma oldest_dropped:
  assumes "distinct all" "s \<in> set all" "n < length all" "\<forall>s' \<in> set all. s' \<noteq> s \<longrightarrow> fst s < fst s'"
  shows "s \<in> set (drop n (newest_first all))"
proof (rule ccontr)
  assume not: "s \<notin> set (drop n (newest_first all))"
  let ?ns = "newest_first all"
  have split: "?ns = take n ?ns @ drop n ?ns" by simp
  have mem: "set ?ns = set all" "length ?ns = length all" by (simp_all add: newest_first_def)
  have "s \<in> set ?ns" using mem(1) assms(2) by simp
  with not split have s: "s \<in> set (take n ?ns)" by (metis Un_iff set_append)
  obtain t where t: "t \<in> set (drop n ?ns)" using assms(3) mem(2) by (cases "drop n ?ns") auto
  have "sorted (map (\<lambda>s. - int (fst s)) (take n ?ns) @ map (\<lambda>s. - int (fst s)) (drop n ?ns))"
    by (metis split map_append newest_first_def sorted_sort_key)
  with s t have "fst t \<le> fst s" by (auto simp: sorted_append)
  moreover have "t \<in> set all" "t \<noteq> s" using t not mem(1) by (auto dest: in_set_dropD)
  ultimately show False using assms(4) by force
qed

lemma map_of_gone: "q \<in> G \<Longrightarrow> map_of (filter (\<lambda>f. fst f \<notin> G) fs) q = None"
  by (induction fs) auto

text \<open>With ten backups stamped in the future, the copy just taken is the oldest and is evicted at once:
  the backup is reported as made, and the file it names is not there.\<close>

lemma clock_set_back_loses_backup:
  assumes "back_up_secret root entry current w = (Inr r, w')" and "table_ok w"
    and "n = clock w (tick w) div 1000000" "int n < 2 ^ 128"
    and "BACKUPS_KEPT \<le> length (backups_in (backup_dir root entry) w)"
    and "\<forall>s \<in> set (backups_in (backup_dir root entry) w). n < fst s"
  shows "\<exists>p. r = Some p \<and> file_at p w' = None"
proof -
  let ?d = "backup_dir root entry"
  define p where "p = path_join ?d [Normal (zero_padded 20 n)]"
  from assms(1) obtain w1 where wr: "write_secret_atomic p current (advance w) = (Inr (), w1)"
    and ev: "evict_old_backups ?d w1 = (Inr (), w')" and r: "r = Some p"
    by (auto simp: back_up_secret_def Let_def io_eqs now_nanos_def p_def backup_dir_def assms(3))
  note t = backup_target [OF assms(4) p_def]
  have at: "file_at p w1 \<noteq> None" using write_secret_target [OF t(3) wr] by simp
  have others: "file_at q w1 = file_at q w" if "q \<noteq> p" for q using write_secret_others [OF t(3) wr that] by simp
  have set1: "set (backups_in ?d w1) = insert (n, p) (set (backups_in ?d w))"
  proof (rule set_eqI)
    fix s show "s \<in> set (backups_in ?d w1) \<longleftrightarrow> s \<in> insert (n, p) (set (backups_in ?d w))"
      using t(1,2) at others [of "snd s"] assms(6) by (cases "snd s = p") (auto simp: backups_in_iff)
  qed
  have new: "(n, p) \<notin> set (backups_in ?d w)" using assms(6) by force
  have tab: "table_ok w1" using table_ok_write_secret [OF t(3) wr] assms(2) by simp
  have "length (backups_in ?d w1) = Suc (length (backups_in ?d w))"
    using set1 new by (metis card_insert_disjoint distinct_backups distinct_card finite_set tab assms(2))
  then have more: "BACKUPS_KEPT < length (backups_in ?d w1)" using assms(5) by simp
  have gone: "(n, p) \<in> set (drop BACKUPS_KEPT (newest_first (backups_in ?d w1)))"
    by (rule oldest_dropped [OF distinct_backups [OF tab] _ more]) (use set1 assms(6) in auto)
  from ev have "file_at p w' = None"
  proof (cases rule: evict_Inr)
    case 2
    let ?gone = "set (map snd (drop BACKUPS_KEPT (newest_first (backups_in ?d w1))))"
    have "p \<in> ?gone" using gone by force
    then show ?thesis unfolding file_at_def 2(2) by (rule map_of_gone)
  qed (use more in simp)
  with r show ?thesis by blast
qed

end
