(* ===== verification/Env_Vault.thy ===== *)
theory Env_Vault
  imports Env_Apply Sync_Session
begin

text \<open>
  The catalogue and the environment key on the sync service: the free functions of
  \<^verbatim>\<open>zode_env_sync/src/session.rs\<close> that load and write the encrypted catalogue, list the stored
  entries and fetch the wrapped key. A saved catalogue is what a load answers next; it is also all
  that is left of what was stored before, and a refused write is not reported, which the last
  section shows.
\<close>

section \<open>Loading and writing the catalogue\<close>

definition load_manifest ::
    "prims \<Rightarrow> 'w sync_context \<Rightarrow> env_dek \<Rightarrow> ('w world, env_sync_error, manifest) io" where
  "load_manifest P C k =
     io_bind (io_res (map_err EnvCrypto manifest_resource)) (\<lambda>resource.
     io_bind (io_map_err EnvClient (fetch P (sc_api C) resource)) (\<lambda>document.
     case document of
       None \<Rightarrow> io_ok manifest_new
     | Some document \<Rightarrow>
         io_bind (io_res (map_err (\<lambda>e. EnvCrypto (env_of_crypto e)) (from_blob P (doc_blob document)))) (\<lambda>envelope.
         io_bind (io_res (map_err EnvCrypto (env_open P k (sc_user_id C) resource None envelope))) (\<lambda>opened.
         io_res (map_err EnvCrypto (from_json P (op_payload opened)))))))"

text \<open>\<^verbatim>\<open>opened.seq + 1\<close> is a release build's: it wraps at the largest \<^verbatim>\<open>u64\<close>.\<close>

definition next_manifest_seq ::
    "prims \<Rightarrow> 'w sync_context \<Rightarrow> env_dek \<Rightarrow> resource \<Rightarrow> remote_document option \<Rightarrow> u64" where
  "next_manifest_seq P C k resource current =
     (case current of
        None \<Rightarrow> 1
      | Some document \<Rightarrow>
          (case from_blob P (doc_blob document) of
             Inl _ \<Rightarrow> 1
           | Inr envelope \<Rightarrow>
               (case env_open P k (sc_user_id C) resource None envelope of
                  Inl _ \<Rightarrow> 1
                | Inr opened \<Rightarrow> op_seq opened + 1)))"

definition manifest_precondition :: "remote_document option \<Rightarrow> precondition" where
  "manifest_precondition current =
     (case current of Some document \<Rightarrow> Replace (doc_revision document) | None \<Rightarrow> Create)"

definition write_manifest ::
    "prims \<Rightarrow> 'w sync_context \<Rightarrow> env_dek \<Rightarrow> manifest \<Rightarrow> ('w world, env_sync_error, unit) io" where
  "write_manifest P C k m =
     io_bind (io_res (map_err EnvCrypto manifest_resource)) (\<lambda>resource.
     io_bind (io_map_err EnvClient (fetch P (sc_api C) resource)) (\<lambda>current.
     io_bind (io_res (map_err EnvCrypto (to_json P m))) (\<lambda>payload.
     io_bind (io_map_err EnvCrypto
       (env_seal P k (sc_user_id C) resource (next_manifest_seq P C k resource current) payload)) (\<lambda>envelope.
     io_bind (io_res (map_err (\<lambda>e. EnvCrypto (env_of_crypto e)) (to_blob P envelope))) (\<lambda>blob.
     io_bind (io_map_err EnvClient
       (store P (sc_api C) resource blob (manifest_precondition current))) (\<lambda>_. io_ok ()))))))"

definition list_entries ::
    "prims \<Rightarrow> 'w sync_context \<Rightarrow> ('w world, env_sync_error, remote_entry list) io" where
  "list_entries P C =
     io_bind (io_map_err EnvClient (fetch_body P (sc_api C) resource_env_listing)) (\<lambda>body.
     case body of
       Some body \<Rightarrow> io_res (map_err EnvCrypto (parse_listing P body))
     | None \<Rightarrow> io_err (EnvCrypto (EnvMalformed ''the sync service has no environment store'')))"

definition fetch_env_key ::
    "prims \<Rightarrow> 'w sync_context \<Rightarrow> dek \<Rightarrow> ('w world, env_sync_error, env_dek option) io" where
  "fetch_env_key P C d =
     io_bind (io_res (map_err (\<lambda>e. EnvCrypto (env_of_crypto e)) (resource_env_singleton ENV_KEY_RESOURCE))) (\<lambda>resource.
     io_bind (io_map_err EnvClient (fetch P (sc_api C) resource)) (\<lambda>document.
     case document of
       None \<Rightarrow> io_ok None
     | Some document \<Rightarrow>
         io_bind (io_res (map_err (\<lambda>e. EnvCrypto (env_of_crypto e)) (from_blob P (doc_blob document)))) (\<lambda>envelope.
         io_bind (io_res (map_err EnvCrypto (unwrap_key P d (sc_user_id C) envelope))) (\<lambda>k. io_ok (Some k)))))"

section \<open>What was saved is what is loaded\<close>

lemma manifest_resource_eq: "manifest_resource = Inr \<lparr>r_path = ''sync/env-manifest'', r_aad_label = ''env-manifest'', r_discriminator = None\<rparr>"
  by code_simp

lemma frame_fake_up:
  "frame (\<lambda>w. fake_up (net w)) (fetch P (fake_api P) r)"
  "frame (\<lambda>w. fake_up (net w)) (store P (fake_api P) r blob pre)"
proof -
  have "fake_up (snd (fake_exchange P q F)) = fake_up F" for q F
    by (auto simp: fake_exchange_def fake_put_def Let_def fake_up_def split: option.splits bool.splits)
  then have h: "frame (\<lambda>w. fake_up (net w)) (http_send (fake_api P) q)" for q
    by (auto simp: frame_def http_send_def fake_api_def split: prod.splits option.splits) (metis snd_conv)+
  show "frame (\<lambda>w. fake_up (net w)) (fetch P (fake_api P) r)"
    "frame (\<lambda>w. fake_up (net w)) (store P (fake_api P) r blob pre)"
    unfolding fetch_def fetch_body_def store_def by (intro frame_intros frame_prod h)+
qed

lemma manifest_stored:
  assumes "calm w" "fake_up (net w)" "gcm_ok P" "sha256_ok P" "base64_ok P" "json_ok P" "json_total P" "gcm_total P"
    and "env_dek_ok k" "to_json P m = Inr payload" "length payload \<le> MAX_PAYLOAD_BYTES" "manifest_resource = Inr res"
  obtains w' rv seq where "write_manifest P (fake_context P) k m w = (Inr (), w')" "calm w'" "fake_up (net w')"
    "env_cell_of P k fake_user res (fake_doc (net w') (fake_at P res)) = Some (rv, Some (seq, payload))"
proof -
  let ?C = "fake_context P" and ?cur = "fake_doc (net w) (fake_at P res)"
  have api: "sc_api ?C = fake_api P" "sc_user_id ?C = fake_user" by (simp_all add: fake_context_def)
  define w1 where "w1 = w\<lparr>net := (net w)\<lparr>fk_requests := Suc (fk_requests (net w))\<rparr>\<rparr>"
  define seq where "seq = next_manifest_seq P ?C k res ?cur"
  have ft: "fetch P (fake_api P) res w = (Inr ?cur, w1)" using fake_fetch_total [OF assms(6,7)] by (simp add: w1_def)
  have c1: "calm w1" "fake_up (net w1)" "fake_doc (net w1) = fake_doc (net w)"
    using assms(1,2) by (simp_all add: w1_def fake_up_def) (simp add: fake_doc_def fun_eq_iff)
  obtain wire where wire: "env_wire P k fake_user res seq payload w1 = (Inr wire, advance w1)"
    using env_wire_calm [OF c1(1) assms(8,7,9,11)] by blast
  then obtain e where e: "env_seal P k fake_user res seq payload w1 = (Inr e, advance w1)" "to_blob P e = Inr (wire_blob wire)"
    by (auto simp: env_wire_def io_eqs)
  have "admits (manifest_precondition ?cur) (fake_doc (net (advance w1)) (fake_at P res))"
    using c1(3) by (simp add: manifest_precondition_def split: option.splits)
  then obtain rv n where st: "store P (fake_api P) res (wire_blob wire) (manifest_precondition ?cur) (advance w1) =
      (Inr (Stored rv), (advance w1)\<lparr>net := n\<rparr>)"
    using fake_store_stored [OF assms(6,7), of "advance w1"] c1(2) by (metis advance_simps(1))
  let ?w' = "(advance w1)\<lparr>net := n\<rparr>"
  have run: "write_manifest P ?C k m w = (Inr (), ?w')"
    using ft e st unfolding write_manifest_def assms(10,12) api map_err_simps io_bind_pure
    by (simp add: io_bind_apply io_map_err_apply api seq_def)
  have "fake_doc (net ?w') = (fake_doc (net (advance w1)))(fake_at P res \<mapsto> \<lparr>doc_blob = wire_blob wire, doc_revision = rv\<rparr>)"
    using fake.store_law [OF assms(6) st] by simp
  then have cell: "env_cell_of P k fake_user res (fake_doc (net ?w') (fake_at P res)) = Some (rv, Some (seq, payload))"
    using wire_cell [OF wire assms(3-6,9)] by (simp add: env_cell_of_def)
  have "fake_up (net ?w')" using frameD [OF frame_fake_up(2) st] c1(2) by simp
  with that run cell c1(1) show thesis by simp
qed

lemma manifest_loaded:
  assumes "env_cell_of P k fake_user res (fake_doc (net v) (fake_at P res)) = Some (rv, Some (seq, payload))"
    and "to_json P m = Inr payload" "manifest_wf m" "mf_v m = MANIFEST_VERSION" "json_ok P" "json_total P"
    and "manifest_resource = Inr res"
  obtains v' where "load_manifest P (fake_context P) k v = (Inr m, v')"
proof -
  let ?C = "fake_context P"
  have api: "sc_api ?C = fake_api P" "sc_user_id ?C = fake_user" by (simp_all add: fake_context_def)
  from assms(1) obtain d where d: "fake_doc (net v) (fake_at P res) = Some d"
    "cell_content P k fake_user res (doc_blob d) = Some (seq, payload)"
    by (auto simp: env_cell_of_def)
  then obtain e x where e: "from_blob P (doc_blob d) = Inr e" and x: "env_open P k fake_user res None e = Inr x" "op_payload x = payload"
    by (cases "from_blob P (doc_blob d)") (auto simp: cell_content_def)
  have "from_json P payload = Inr m" by (rule to_json_from_json [OF assms(5,3,4,2)])
  with d e x show thesis
    using that unfolding load_manifest_def assms(7) api map_err_simps io_bind_pure
    by (simp add: io_bind_apply io_map_err_apply fake_fetch_total [OF assms(5,6)])
qed

text \<open>A catalogue that was saved is the catalogue that is loaded. On a machine and a service where no
  call fails, writing a well-formed catalogue succeeds whatever the service held before (nothing, an
  older catalogue, or a blob this key does not open), and a load by any machine with the key then
  answers exactly that catalogue: every project, entry, path and version.\<close>

theorem catalogue_saved_is_loaded:
  assumes "calm w" "fake_up (net w)" "gcm_ok P" "sha256_ok P" "base64_ok P" "json_ok P" "json_total P" "gcm_total P"
    and "env_dek_ok k" "to_json P m = Inr payload" "length payload \<le> MAX_PAYLOAD_BYTES"
    and "manifest_wf m" "mf_v m = MANIFEST_VERSION"
  shows "\<exists>w'. write_manifest P (fake_context P) k m w = (Inr (), w') \<and>
    (\<forall>v. net v = net w' \<longrightarrow> fst (load_manifest P (fake_context P) k v) = Inr m)"
proof -
  from assms(1-11) manifest_resource_eq obtain w' rv seq where w':
    "write_manifest P (fake_context P) k m w = (Inr (), w')"
    "env_cell_of P k fake_user \<lparr>r_path = ''sync/env-manifest'', r_aad_label = ''env-manifest'', r_discriminator = None\<rparr>
       (fake_doc (net w') (fake_at P \<lparr>r_path = ''sync/env-manifest'', r_aad_label = ''env-manifest'', r_discriminator = None\<rparr>)) =
       Some (rv, Some (seq, payload))"
    by (rule manifest_stored)
  have "fst (load_manifest P (fake_context P) k v) = Inr m" if "net v = net w'" for v
    using manifest_loaded [of P k _ v, OF w'(2) [folded that] assms(10,12,13,6,7) manifest_resource_eq] by (metis fst_conv)
  with w'(1) show ?thesis by blast
qed

lemma example_manifest_json:
  obtains payload where "to_json total_prims (example_manifest ''.env'') = Inr payload" "length payload \<le> MAX_PAYLOAD_BYTES"
proof
  let ?text = "code_print (manifest_json (example_manifest ''.env''))"
  show "to_json total_prims (example_manifest ''.env'') = Inr (as_bytes ?text)"
    by (simp add: to_json_def total_prims_def)
  have "length ?text \<le> 1000" by code_simp
  then show "length (as_bytes ?text) \<le> MAX_PAYLOAD_BYTES" by (simp add: MAX_PAYLOAD_BYTES_def)
qed

lemma example_version: "mf_v (example_manifest p) = MANIFEST_VERSION"
  by (simp add: example_manifest_def)

theorem catalogue_saved_is_loaded_witness:
  "\<exists>w'. write_manifest total_prims (fake_context total_prims) example_env_key (example_manifest ''.env'') (unsynced_world ''A=1'') = (Inr (), w') \<and>
     fst (load_manifest total_prims (fake_context total_prims) example_env_key w') = Inr (example_manifest ''.env'')"
proof -
  obtain payload where p: "to_json total_prims (example_manifest ''.env'') = Inr payload" "length payload \<le> MAX_PAYLOAD_BYTES"
    by (rule example_manifest_json)
  have w: "calm (unsynced_world ''A=1'')" "fake_up (net (unsynced_world ''A=1''))"
    using unsynced_ready [OF example_text] by (simp_all add: push_ready_def)
  from catalogue_saved_is_loaded [OF w total_gcm_ok total_sha256_ok total_base64_ok total_json_ok total_json_total
      total_gcm_total example_env_key_ok p example_manifest_wf example_version] show ?thesis by blast
qed

section \<open>What a catalogue write does to another machine's\<close>

text \<open>The precondition of a catalogue write is read back just before the write, so it never refers to
  the catalogue this machine started from. Two machines that loaded the same catalogue and each
  added a file both report success, and only the second one's catalogue is left.\<close>

lemma catalogue_last_writer_wins:
  assumes "calm w" "fake_up (net w)" "gcm_ok P" "sha256_ok P" "base64_ok P" "json_ok P" "json_total P" "gcm_total P" "env_dek_ok k"
    and "to_json P mine = Inr p1" "length p1 \<le> MAX_PAYLOAD_BYTES"
    and "to_json P theirs = Inr p2" "length p2 \<le> MAX_PAYLOAD_BYTES" "manifest_wf theirs" "mf_v theirs = MANIFEST_VERSION"
  shows "\<exists>w1 w2. write_manifest P (fake_context P) k mine w = (Inr (), w1) \<and>
    write_manifest P (fake_context P) k theirs w1 = (Inr (), w2) \<and>
    fst (load_manifest P (fake_context P) k w2) = Inr theirs"
proof -
  obtain res where res: "manifest_resource = Inr res" using manifest_resource_eq by blast
  from assms(1-11) res obtain w1 where w1: "write_manifest P (fake_context P) k mine w = (Inr (), w1)"
    "calm w1" "fake_up (net w1)" by (rule manifest_stored)
  from w1(2,3) assms(3-9,12,13) res obtain w2 rv seq where w2: "write_manifest P (fake_context P) k theirs w1 = (Inr (), w2)"
    "env_cell_of P k fake_user res (fake_doc (net w2) (fake_at P res)) = Some (rv, Some (seq, p2))"
    by (rule manifest_stored)
  obtain v' where "load_manifest P (fake_context P) k w2 = (Inr theirs, v')"
    using w2(2) assms(12,14,15,6,7) res by (rule manifest_loaded)
  with w1(1) w2(1) show ?thesis by force
qed

text \<open>And when the service does refuse the write, because another machine wrote between the read and
  the write, the refusal is answered as success: whatever outcome the service gave, the catalogue
  counts as written.\<close>

lemma refused_catalogue_reported_written:
  assumes "manifest_resource = Inr res" "fetch P (sc_api C) res w = (Inr current, w1)" "to_json P m = Inr payload"
    and "env_seal P k (sc_user_id C) res (next_manifest_seq P C k res current) payload w1 = (Inr e, w2)"
    and "to_blob P e = Inr blob"
    and "store P (sc_api C) res blob (manifest_precondition current) w2 = (Inr (Conflict d), w3)"
  shows "write_manifest P C k m w = (Inr (), w3)"
  using assms(2-6) unfolding write_manifest_def assms(1,3) map_err_simps io_bind_pure
  by (simp add: io_bind_apply io_map_err_apply)

end
