(* ===== verification/Env_Session.thy ===== *)
theory Env_Session
  imports Env_Vault
begin

text \<open>
  \<^verbatim>\<open>zode_env_sync/src/session.rs\<close>: the state behind the environment-file windows and every
  operation on it. An operation runs on the main thread and may start a task; a task is a function
  of the world that answers the update it will make to the session (the closure the code hands to
  \<^verbatim>\<open>this.update\<close>), so a task reads and writes the world when it runs and touches the session only
  when its answer lands. The windows only redraw on \<^verbatim>\<open>cx.emit\<close> and \<^verbatim>\<open>cx.notify\<close>, which are left
  out; the account is the interface of \<open>Sync_Session\<close>.
\<close>

section \<open>State\<close>

record pending_env =
  pe_entry :: entry_id
  pe_local_path :: path
  pe_diff :: text_diff
  pe_remote :: string
  pe_revision :: string
  pe_seq :: u64
  pe_safe_to_apply :: bool
  pe_local_hash :: "string option"

datatype env_status =
    EnvIdle
  | EnvWorking
  | EnvDone string
  | EnvNeedsRecoveryKey
  | EnvStatusKeyMismatch
  | EnvStatusRollback u64 u64
  | EnvPlanLimited plan_limit
  | EnvFailed string

fun status_sentence :: "env_status \<Rightarrow> string" where
  "status_sentence EnvIdle = ''ready''"
| "status_sentence EnvWorking = ''Syncing environment file'' @ string_of_chars [8230]"
| "status_sentence (EnvDone message) = message"
| "status_sentence EnvNeedsRecoveryKey = ''enter your recovery key first''"
| "status_sentence EnvStatusKeyMismatch = ''encrypted with a different key''"
| "status_sentence (EnvStatusRollback seen got) =
     ''the server offered version '' @ nat_str (unat got) @ '' of a file already at '' @ nat_str (unat seen) @
     '' here '' @ string_of_chars [8212] @ '' nothing was written''"
| "status_sentence (EnvPlanLimited limit) = sentence limit"
| "status_sentence (EnvFailed message) = message"

record session_files =
  sf_bindings :: path
  sf_state :: path
  sf_backups :: path

record 'w target =
  tg_file :: "'w env_file"
  tg_shown_as :: path

definition target_local :: "path \<Rightarrow> 'w target" where
  "target_local p = \<lparr>tg_file = local_env_file p, tg_shown_as = p\<rparr>"

text \<open>\<open>vs_applying\<close> says that the slot of a running remote write is taken; the tasks themselves are
  kept beside the session, below.\<close>

record 'w env_session =
  vs_dek :: "env_dek option"
  vs_manifest :: manifest
  vs_reconciliation :: reconciliation
  vs_bindings :: bindings
  vs_status :: env_status
  vs_pending :: "pending_env option"
  vs_pending_file :: "'w env_file option"
  vs_prepared :: "(prepared_push \<times> 'w target) option"
  vs_applying :: bool
  vs_files :: session_files

type_synonym 'w env_answer = "'w env_session \<Rightarrow> 'w env_session"
type_synonym 'w env_task = "'w world \<Rightarrow> 'w env_answer \<times> 'w world"

record difference_identity =
  di_entry :: entry_id
  di_local_path :: path
  di_revision :: string
  di_seq :: u64
  di_local_hash :: "string option"

definition identity_of :: "pending_env \<Rightarrow> difference_identity" where
  "identity_of p =
     \<lparr>di_entry = pe_entry p, di_local_path = pe_local_path p, di_revision = pe_revision p, di_seq = pe_seq p,
      di_local_hash = pe_local_hash p\<rparr>"

definition vault_new :: "prims \<Rightarrow> session_files \<Rightarrow> 'w world \<Rightarrow> 'w env_session \<times> 'w world" where
  "vault_new P fs w =
     (case bindings_load P (sf_bindings fs) w of
        (b, w') \<Rightarrow>
          (\<lparr>vs_dek = None, vs_manifest = manifest_new, vs_reconciliation = reconciliation_default,
            vs_bindings = (case b of Inr b \<Rightarrow> b | Inl (_ :: unit) \<Rightarrow> bindings_default),
            vs_status = EnvIdle, vs_pending = None, vs_pending_file = None, vs_prepared = None,
            vs_applying = False, vs_files = fs\<rparr>, w'))"

definition vault_set_status :: "env_status \<Rightarrow> 'w env_answer" where
  "vault_set_status s S = S\<lparr>vs_status := s\<rparr>"

definition APPLYING :: string where
  "APPLYING = ''a write to the host is still running''"

definition refuse_while_applying :: "'w env_session \<Rightarrow> bool \<times> 'w env_session" where
  "refuse_while_applying S =
     (if \<not> vs_applying S then (False, S) else (True, vault_set_status (EnvFailed APPLYING) S))"

definition vault_unavailable :: env_status where
  "vault_unavailable = EnvFailed (''sign in again '' @ string_of_chars [8212] @ '' this session could not be used'')"

text \<open>A plan refusal also asks the account to read the plan again, which is outside this state.\<close>

definition vault_fail :: "env_sync_error \<Rightarrow> 'w env_answer" where
  "vault_fail e =
     (case e of
        EnvClient (PlanLimited l) \<Rightarrow> vault_set_status (EnvPlanLimited l)
      | _ \<Rightarrow> vault_set_status (EnvFailed (env_sync_display e)))"

text \<open>The start of most tasks: a context, or the status that says there is none.\<close>

definition with_context :: "'w account \<Rightarrow> ('w sync_context \<Rightarrow> 'w env_task) \<Rightarrow> 'w env_task" where
  "with_context acc k w =
     (case acc_context acc w of
        (None, w1) \<Rightarrow> (vault_set_status vault_unavailable, w1)
      | (Some C, w1) \<Rightarrow> k C w1)"

section \<open>Bindings and keys\<close>

definition vault_bind ::
    "prims \<Rightarrow> checkout \<Rightarrow> project_id \<Rightarrow> 'w env_session \<Rightarrow> 'w world \<Rightarrow> 'w env_session \<times> 'w world" where
  "vault_bind P c project S w =
     (let S = S\<lparr>vs_bindings := bind_checkout c project (vs_bindings S)\<rparr> in
      case bindings_save P (vs_bindings S) (sf_bindings (vs_files S)) w of
        (Inl e, w') \<Rightarrow> (vault_set_status (EnvFailed e) S, w')
      | (Inr _, w') \<Rightarrow> (S, w'))"

definition key_mismatch :: "env_sync_error \<Rightarrow> bool" where
  "key_mismatch e \<longleftrightarrow> (case e of EnvCrypto EnvWrongKey \<Rightarrow> True | EnvCrypto (EnvKeyRotated _ _) \<Rightarrow> True | _ \<Rightarrow> False)"

definition unlock_fetched ::
    "prims \<Rightarrow> 'w sync_context \<Rightarrow> dek \<Rightarrow> 'w env_task" where
  "unlock_fetched P C d w =
     (case fetch_env_key P C d w of
        (Inr (Some k), w1) \<Rightarrow>
          ((\<lambda>S. vault_set_status EnvIdle (S\<lparr>vs_dek := Some k\<rparr>)), snd (env_key_write (sc_user_id C) k w1))
      | (Inr None, w1) \<Rightarrow> (vault_set_status EnvIdle, w1)
      | (Inl e, w1) \<Rightarrow> (if key_mismatch e then vault_set_status EnvStatusKeyMismatch else vault_fail e, w1))"

definition vault_unlock :: "prims \<Rightarrow> 'w account \<Rightarrow> 'w env_session \<Rightarrow> 'w env_task option" where
  "vault_unlock P acc S =
     (if vs_dek S \<noteq> None then None
      else Some (\<lambda>w. case env_key_read w of
          (Inr (Some found), w1) \<Rightarrow> ((\<lambda>S. vault_set_status EnvIdle (S\<lparr>vs_dek := Some found\<rparr>)), w1)
        | ((_ :: unit + env_dek option), w1) \<Rightarrow>
            (case key_read w1 of
               (Inr (Some d), w2) \<Rightarrow> with_context acc (\<lambda>C. unlock_fetched P C d) w2
             | ((_ :: unit + dek option), w2) \<Rightarrow> (vault_set_status EnvNeedsRecoveryKey, w2))))"

text \<open>The outcome of the stored write is only looked at for an error.\<close>

definition created_key ::
    "prims \<Rightarrow> 'w sync_context \<Rightarrow> dek \<Rightarrow> 'w world \<Rightarrow> (string + unit) \<times> 'w env_answer \<times> 'w world" where
  "created_key P C d w =
     (case io_bind env_dek_generate (\<lambda>k.
           io_bind (io_map_err env_crypto_display (wrap_key P d (sc_user_id C) k)) (\<lambda>wrapped.
           io_bind (io_res (map_err crypto_display (to_blob P wrapped))) (\<lambda>blob.
           io_bind (io_res (map_err crypto_display (resource_env_singleton ENV_KEY_RESOURCE))) (\<lambda>resource.
           io_ok (k, blob, resource))))) w of
        (Inl e, w1) \<Rightarrow> (Inl e, id, w1)
      | (Inr (k, blob, resource), w1) \<Rightarrow>
          (case store P (sc_api C) resource blob Create w1 of
             (Inl e, w2) \<Rightarrow> (Inl (env_sync_display (EnvClient e)), vault_fail (EnvClient e), w2)
           | (Inr _, w2) \<Rightarrow>
               (case env_key_write (sc_user_id C) k w2 of
                  (Inl e, w3) \<Rightarrow> (Inl e, id, w3)
                | (Inr _, w3) \<Rightarrow>
                    (Inr (), (\<lambda>S. vault_set_status (EnvDone ''environment sync is ready'') (S\<lparr>vs_dek := Some k\<rparr>)), w3))))"

definition vault_create_key ::
    "prims \<Rightarrow> 'w account \<Rightarrow> 'w world \<Rightarrow> (string + unit) \<times> 'w env_answer \<times> 'w world" where
  "vault_create_key P acc w =
     (case key_read w of
        (Inr (Some d), w1) \<Rightarrow>
          (case acc_context acc w1 of
             (None, w2) \<Rightarrow> (Inl ''the sync service could not be reached'', id, w2)
           | (Some C, w2) \<Rightarrow> created_key P C d w2)
      | ((_ :: unit + dek option), w1) \<Rightarrow> (Inl ''this machine has no recovery key yet'', id, w1))"

section \<open>Preparing and sending\<close>

definition hold_prepared :: "env_sync_error + prepared_push option \<Rightarrow> 'w target \<Rightarrow> 'w env_answer" where
  "hold_prepared prepared target S =
     (case prepared of
        Inr (Some p) \<Rightarrow> vault_set_status EnvIdle (S\<lparr>vs_prepared := Some (p, target)\<rparr>)
      | Inr None \<Rightarrow> vault_set_status (EnvDone ''already up to date'') (S\<lparr>vs_prepared := None\<rparr>)
      | Inl e \<Rightarrow> vault_set_status (EnvFailed (env_sync_display e)) (S\<lparr>vs_prepared := None\<rparr>))"

definition vault_prepare ::
    "prims \<Rightarrow> 'w account \<Rightarrow> entry_id \<Rightarrow> path \<Rightarrow> 'w env_session \<Rightarrow> 'w world \<Rightarrow> 'w env_session \<times> 'w world" where
  "vault_prepare P acc entry local_path S w =
     (case refuse_while_applying S of
        (True, S) \<Rightarrow> (S, w)
      | (False, S) \<Rightarrow>
          (case vs_dek S of
             None \<Rightarrow> (vault_set_status EnvNeedsRecoveryKey S, w)
           | Some k \<Rightarrow>
               (case acc_user acc of
                  None \<Rightarrow> (vault_set_status vault_unavailable S, w)
                | Some user_id \<Rightarrow>
                    (case prepare_push P k user_id entry local_path (sf_state (vs_files S)) w of
                       (prepared, w') \<Rightarrow> (hold_prepared prepared (target_local local_path) S, w')))))"

definition drop_stale_difference :: "'w env_answer" where
  "drop_stale_difference S = S\<lparr>vs_pending := None, vs_pending_file := None\<rparr>"

definition vault_prepare_file ::
    "prims \<Rightarrow> 'w account \<Rightarrow> entry_id \<Rightarrow> 'w env_file \<Rightarrow> path \<Rightarrow> 'w env_session \<Rightarrow>
     'w env_session \<times> 'w env_task option" where
  "vault_prepare_file P acc entry f shown_as S =
     (case refuse_while_applying S of
        (True, S) \<Rightarrow> (S, None)
      | (False, S) \<Rightarrow>
          let S = drop_stale_difference S in
          (case vs_dek S of
             None \<Rightarrow> (vault_set_status EnvNeedsRecoveryKey S, None)
           | Some k \<Rightarrow>
               (case acc_user acc of
                  None \<Rightarrow> (vault_set_status vault_unavailable S, None)
                | Some user_id \<Rightarrow>
                    (vault_set_status EnvWorking (S\<lparr>vs_prepared := None\<rparr>),
                     Some (\<lambda>w. case prepare_push_from P k user_id entry f (sf_state (vs_files S)) w of
                         (prepared, w') \<Rightarrow> (hold_prepared prepared \<lparr>tg_file = f, tg_shown_as = shown_as\<rparr>, w'))))))"

definition hold_difference :: "entry_id \<Rightarrow> 'w target \<Rightarrow> env_divergence \<Rightarrow> bool \<Rightarrow> 'w env_answer" where
  "hold_difference entry target dv safe S =
     (let S = S\<lparr>vs_pending_file := Some (tg_file target),
                vs_pending := Some \<lparr>pe_entry = entry, pe_local_path = tg_shown_as target, pe_diff = ed_diff dv,
                  pe_remote = ed_remote dv, pe_revision = ed_revision dv, pe_seq = ed_seq dv,
                  pe_safe_to_apply = safe, pe_local_hash = ed_local_hash dv\<rparr>\<rparr>
      in if \<not> vs_applying S then vault_set_status EnvIdle S else S)"

definition absorb_env_push ::
    "entry_id \<Rightarrow> 'w target \<Rightarrow> string \<Rightarrow> env_sync_error + env_push_outcome \<Rightarrow> 'w env_answer" where
  "absorb_env_push entry target nothing outcome =
     (case outcome of
        Inr (EnvStored _ _) \<Rightarrow> vault_set_status (EnvDone ''sent'')
      | Inr EnvPushUpToDate \<Rightarrow> vault_set_status (EnvDone ''already up to date'')
      | Inr EnvNothingToPush \<Rightarrow> vault_set_status (EnvDone nothing)
      | Inr (EnvPushConflict dv) \<Rightarrow> hold_difference entry target dv False
      | Inl e \<Rightarrow> vault_fail e)"

definition vault_send_prepared ::
    "prims \<Rightarrow> 'w account \<Rightarrow> entry_id \<Rightarrow> wire_bytes \<Rightarrow> 'w env_session \<Rightarrow> 'w env_session \<times> 'w env_task option" where
  "vault_send_prepared P acc shown_entry shown S =
     (case refuse_while_applying S of
        (True, S) \<Rightarrow> (S, None)
      | (False, S) \<Rightarrow>
          (case vs_prepared S of
             None \<Rightarrow> (S, None)
           | Some (held, target) \<Rightarrow>
               if pp_entry held \<noteq> shown_entry \<or> pp_wire held \<noteq> shown
               then (vault_set_status (EnvFailed
                      ''what the window showed is no longer what would be sent; nothing was sent'') S, None)
               else
                 let S = S\<lparr>vs_prepared := None\<rparr> in
                 (case vs_dek S of
                    None \<Rightarrow> (vault_set_status EnvNeedsRecoveryKey S, None)
                  | Some k \<Rightarrow>
                      (vault_set_status EnvWorking S,
                       Some (with_context acc (\<lambda>C w.
                         case send_prepared P C k held (sf_state (vs_files S)) w of
                           (outcome, w') \<Rightarrow>
                             (absorb_env_push (pp_entry held) target ''there was nothing to send'' outcome, w')))))))"

definition discard_prepared :: "'w env_answer" where
  "discard_prepared S =
     (let S = S\<lparr>vs_prepared := None\<rparr> in if \<not> vs_applying S then vault_set_status EnvIdle S else S)"

definition vault_push ::
    "prims \<Rightarrow> 'w account \<Rightarrow> entry_id \<Rightarrow> path \<Rightarrow> 'w env_session \<Rightarrow> 'w env_session \<times> 'w env_task option" where
  "vault_push P acc entry local_path S =
     (case refuse_while_applying S of
        (True, S) \<Rightarrow> (S, None)
      | (False, S) \<Rightarrow>
          (case vs_dek S of
             None \<Rightarrow> (vault_set_status EnvNeedsRecoveryKey S, None)
           | Some k \<Rightarrow>
               (vault_set_status EnvWorking S,
                Some (with_context acc (\<lambda>C w.
                  case env_push P C k entry local_path (sf_state (vs_files S)) w of
                    (outcome, w') \<Rightarrow>
                      (absorb_env_push entry (target_local local_path) ''there is no file to send'' outcome, w'))))))"

section \<open>Pulling and applying\<close>

definition absorb_env_pull ::
    "entry_id \<Rightarrow> 'w target \<Rightarrow> string \<Rightarrow> env_sync_error + env_pull_outcome \<Rightarrow> 'w env_answer" where
  "absorb_env_pull entry target name outcome =
     (case outcome of
        Inr EnvUpToDate \<Rightarrow> vault_set_status (EnvDone (name @ '' here already matches the stored copy''))
      | Inr EnvLocalOnly \<Rightarrow> vault_set_status (EnvDone (''your account holds nothing for '' @ name))
      | Inr (EnvRemoteNewer dv) \<Rightarrow> hold_difference entry target dv True
      | Inr (EnvConflict dv) \<Rightarrow> hold_difference entry target dv False
      | Inr (EnvKeyMismatch _) \<Rightarrow> vault_set_status EnvStatusKeyMismatch
      | Inr (EnvPullRollback seen got) \<Rightarrow> vault_set_status (EnvStatusRollback seen got)
      | Inl e \<Rightarrow> vault_fail e)"

text \<open>\<^verbatim>\<open>to_string_lossy\<close> of a name that is not Unicode is not rendered; the model shows the bytes.\<close>

definition shown_name :: "path \<Rightarrow> string" where
  "shown_name p = (case file_name p of Some n \<Rightarrow> n | None \<Rightarrow> ''that file'')"

definition vault_pull_file ::
    "prims \<Rightarrow> 'w account \<Rightarrow> entry_id \<Rightarrow> 'w env_file \<Rightarrow> path \<Rightarrow> 'w env_session \<Rightarrow>
     'w env_session \<times> 'w env_task option" where
  "vault_pull_file P acc entry f shown_as S =
     (case refuse_while_applying S of
        (True, S) \<Rightarrow> (S, None)
      | (False, S) \<Rightarrow>
          let S = drop_stale_difference S in
          (case vs_dek S of
             None \<Rightarrow> (vault_set_status EnvNeedsRecoveryKey S, None)
           | Some k \<Rightarrow>
               (vault_set_status EnvWorking S,
                Some (with_context acc (\<lambda>C w.
                  case env_pull_file P C k entry f (sf_state (vs_files S)) w of
                    (outcome, w') \<Rightarrow>
                      (absorb_env_pull entry \<lparr>tg_file = f, tg_shown_as = shown_as\<rparr> (shown_name shown_as) outcome, w'))))))"

definition vault_pull ::
    "prims \<Rightarrow> 'w account \<Rightarrow> entry_id \<Rightarrow> path \<Rightarrow> 'w env_session \<Rightarrow> 'w env_session \<times> 'w env_task option" where
  "vault_pull P acc entry local_path S = vault_pull_file P acc entry (local_env_file local_path) local_path S"

definition finish_apply ::
    "env_sync_error + unit \<Rightarrow> difference_identity \<Rightarrow> 'w env_session \<Rightarrow> bool \<times> 'w env_session" where
  "finish_apply applied identity S =
     (let S = S\<lparr>vs_applying := False\<rparr> in
      case applied of
        Inr _ \<Rightarrow>
          let S = (if (case vs_pending S of Some p \<Rightarrow> identity_of p = identity | None \<Rightarrow> False)
                   then S\<lparr>vs_pending := None, vs_pending_file := None\<rparr> else S)
          in (True, vault_set_status (EnvDone ''written'') S)
      | Inl e \<Rightarrow> (False, vault_set_status (EnvFailed (env_sync_display e)) S))"

text \<open>A local file is replaced before this returns; a file on another host by the task it starts.\<close>

definition vault_apply ::
    "prims \<Rightarrow> 'w env_session \<Rightarrow> 'w world \<Rightarrow> bool \<times> 'w env_session \<times> 'w env_task option \<times> 'w world" where
  "vault_apply P S w =
     (case refuse_while_applying S of
        (True, S) \<Rightarrow> (False, S, None, w)
      | (False, S) \<Rightarrow>
          (case vs_pending S of
             None \<Rightarrow> (False, S, None, w)
           | Some p \<Rightarrow>
               (case vs_pending_file S of
                  None \<Rightarrow>
                    (False, vault_set_status (EnvFailed ''nothing says where this difference would be written'') S, None, w)
                | Some f \<Rightarrow>
                    (case ef_local_path f of
                       Some local_path \<Rightarrow>
                         (case apply_remote_if_unchanged P (pe_entry p) local_path (pe_local_hash p) (sf_backups (vs_files S))
                                 (pe_remote p) (pe_revision p) (pe_seq p) (sf_state (vs_files S)) w of
                            (applied, w') \<Rightarrow>
                              (case finish_apply applied (identity_of p) S of (did, S') \<Rightarrow> (did, S', None, w')))
                     | None \<Rightarrow>
                         (False, (vault_set_status EnvWorking S)\<lparr>vs_applying := True\<rparr>,
                          Some (\<lambda>w. case apply_remote_to P (pe_entry p) f (pe_local_hash p) (sf_backups (vs_files S))
                                   (pe_remote p) (pe_revision p) (pe_seq p) (sf_state (vs_files S)) w of
                              (applied, w') \<Rightarrow> ((\<lambda>S. snd (finish_apply applied (identity_of p) S)), w')), w)))))"

definition acknowledge :: "'w env_answer" where
  "acknowledge S = (if \<not> vs_applying S \<and> vs_status S \<noteq> EnvWorking then vault_set_status EnvIdle S else S)"

definition vault_dismiss :: "'w env_session \<Rightarrow> bool \<times> 'w env_session" where
  "vault_dismiss S =
     (case refuse_while_applying S of
        (True, S) \<Rightarrow> (False, S)
      | (False, S) \<Rightarrow> (True, vault_set_status EnvIdle (S\<lparr>vs_pending := None, vs_pending_file := None\<rparr>)))"

section \<open>The catalogue\<close>

definition absorb_vault ::
    "env_sync_error + manifest \<Rightarrow> env_sync_error + remote_entry list \<Rightarrow> 'w env_answer" where
  "absorb_vault loaded listed =
     (case (loaded, listed) of
        (Inr m, Inr remote) \<Rightarrow>
          (\<lambda>S. vault_set_status EnvIdle (S\<lparr>vs_manifest := m, vs_reconciliation := reconcile m remote\<rparr>))
      | (Inl e, _) \<Rightarrow> if key_mismatch e then vault_set_status EnvStatusKeyMismatch else vault_fail e
      | (_, Inl e) \<Rightarrow> vault_fail e)"

definition load_vault :: "prims \<Rightarrow> 'w account \<Rightarrow> 'w env_session \<Rightarrow> 'w env_session \<times> 'w env_task option" where
  "load_vault P acc S =
     (case refuse_while_applying S of
        (True, S) \<Rightarrow> (S, None)
      | (False, S) \<Rightarrow>
          (case vs_dek S of
             None \<Rightarrow> (vault_set_status EnvNeedsRecoveryKey S, None)
           | Some k \<Rightarrow>
               (vault_set_status EnvWorking S,
                Some (with_context acc (\<lambda>C w.
                  case load_manifest P C k w of
                    (loaded, w1) \<Rightarrow>
                      (case list_entries P C w1 of (listed, w2) \<Rightarrow> (absorb_vault loaded listed, w2)))))))"

definition entry_at :: "'w env_session \<Rightarrow> checkout \<Rightarrow> string \<Rightarrow> entry_id option" where
  "entry_at S c relative =
     (case project_for_checkout (vs_bindings S) c of
        None \<Rightarrow> None
      | Some project \<Rightarrow>
          (case bt_get (mf_projects (vs_manifest S)) project of
             None \<Rightarrow> None
           | Some holder \<Rightarrow> map_option fst (List.find (\<lambda>(_, e). me_path e = relative) (mp_entries holder))))"

definition relative_path_for :: "'w env_session \<Rightarrow> entry_id \<Rightarrow> string option" where
  "relative_path_for S entry =
     (case project_of (vs_manifest S) entry of
        None \<Rightarrow> None
      | Some (_, holder) \<Rightarrow> map_option me_path (bt_get (mp_entries holder) entry))"

definition local_path_for :: "'w env_session \<Rightarrow> entry_id \<Rightarrow> path option" where
  "local_path_for S entry =
     (case project_of (vs_manifest S) entry of
        None \<Rightarrow> None
      | Some (project, holder) \<Rightarrow>
          (case bt_get (mp_entries holder) entry of
             None \<Rightarrow> None
           | Some e \<Rightarrow>
               (case worktrees_for (vs_bindings S) project of
                  [] \<Rightarrow> None
                | root # _ \<Rightarrow> Some (path_join (components root) (components (me_path e))))))"

text \<open>\<^verbatim>\<open>save_manifest\<close> starts its write and does not wait for it.\<close>

definition save_manifest :: "prims \<Rightarrow> 'w account \<Rightarrow> 'w env_session \<Rightarrow> 'w env_session \<times> 'w env_task option" where
  "save_manifest P acc S =
     (case vs_dek S of
        None \<Rightarrow> (vault_set_status EnvNeedsRecoveryKey S, None)
      | Some k \<Rightarrow>
          (S, Some (with_context acc (\<lambda>C w.
             case write_manifest P C k (vs_manifest S) w of
               (Inl e, w') \<Rightarrow> (vault_fail e, w')
             | (Inr _, w') \<Rightarrow> (id, w')))))"

definition set_project :: "project_id \<Rightarrow> manifest_project \<Rightarrow> 'w env_answer" where
  "set_project project holder S =
     S\<lparr>vs_manifest := (vs_manifest S)\<lparr>mf_projects := bt_insert project holder (mf_projects (vs_manifest S))\<rparr>\<rparr>"

definition insert_entry ::
    "prims \<Rightarrow> 'w account \<Rightarrow> project_id \<Rightarrow> string \<Rightarrow> 'w env_session \<Rightarrow> 'w world \<Rightarrow>
     entry_id option \<times> 'w env_session \<times> 'w env_task option \<times> 'w world" where
  "insert_entry P acc project relative S w =
     (let relative = unique_path (vs_manifest S) project relative None in
      case entry_generate w of
        (Inl e, w') \<Rightarrow> (None, vault_set_status (EnvFailed e) S, None, w')
      | (Inr entry, w') \<Rightarrow>
          (case bt_get (mf_projects (vs_manifest S)) project of
             None \<Rightarrow> (None, vault_set_status (EnvFailed ''that project is no longer in your vault'') S, None, w')
           | Some holder \<Rightarrow>
               (case save_manifest P acc (set_project project
                      (holder\<lparr>mp_entries := bt_insert entry \<lparr>me_path = relative, me_seq = 0\<rparr> (mp_entries holder)\<rparr>) S) of
                  (S', t) \<Rightarrow> (Some entry, S', t, w'))))"

definition bare_name :: "string \<Rightarrow> string" where
  "bare_name absolute = (case file_name (components absolute) of Some n \<Rightarrow> n | None \<Rightarrow> ''.env'')"

text \<open>The first bound root the file is below; unlike \<open>checkout_relative\<close>, the root itself counts.\<close>

definition recorded_path :: "string list \<Rightarrow> string \<Rightarrow> string" where
  "recorded_path roots absolute =
     (case List.map_filter (\<lambda>root. map_option slashes (path_strip_prefix root absolute)) roots of
        r # _ \<Rightarrow> r
      | [] \<Rightarrow> bare_name absolute)"

definition add_file ::
    "prims \<Rightarrow> 'w account \<Rightarrow> project_id \<Rightarrow> string \<Rightarrow> 'w env_session \<Rightarrow> 'w world \<Rightarrow>
     entry_id option \<times> 'w env_session \<times> 'w env_task option \<times> 'w world" where
  "add_file P acc project absolute S w =
     insert_entry P acc project (recorded_path (worktrees_for (vs_bindings S) project) absolute) S w"

definition add_file_in ::
    "prims \<Rightarrow> 'w account \<Rightarrow> project_id \<Rightarrow> checkout \<Rightarrow> string \<Rightarrow> 'w env_session \<Rightarrow> 'w world \<Rightarrow>
     entry_id option \<times> 'w env_session \<times> 'w env_task option \<times> 'w world" where
  "add_file_in P acc project c absolute S w =
     (if checkout_is_local c then add_file P acc project absolute S w
      else insert_entry P acc project
        (case checkout_relative c absolute of Some r \<Rightarrow> r | None \<Rightarrow> bare_name absolute) S w)"

definition rename_entry ::
    "prims \<Rightarrow> 'w account \<Rightarrow> entry_id \<Rightarrow> string \<Rightarrow> 'w env_session \<Rightarrow> bool \<times> 'w env_session \<times> 'w env_task option" where
  "rename_entry P acc entry wanted S =
     (let wanted = trim wanted; gone = EnvFailed ''that file is no longer in your vault'' in
      if \<not> names_a_file_inside wanted
      then (False, vault_set_status (EnvFailed ''that name does not describe a file inside a project'') S, None)
      else case project_of (vs_manifest S) entry of
        None \<Rightarrow> (False, vault_set_status gone S, None)
      | Some (project, _) \<Rightarrow>
          let unique = unique_path (vs_manifest S) project wanted (Some entry) in
          (case bt_get (mf_projects (vs_manifest S)) project of
             None \<Rightarrow> (False, vault_set_status gone S, None)
           | Some holder \<Rightarrow>
               (case bt_get (mp_entries holder) entry of
                  None \<Rightarrow> (False, vault_set_status gone S, None)
                | Some held \<Rightarrow>
                    if me_path held = unique then (True, S, None)
                    else
                      (case save_manifest P acc (set_project project
                             (holder\<lparr>mp_entries := bt_insert entry (held\<lparr>me_path := unique\<rparr>) (mp_entries holder)\<rparr>) S) of
                         (S', t) \<Rightarrow> (True, S', t)))))"

definition add_project ::
    "prims \<Rightarrow> 'w account \<Rightarrow> string \<Rightarrow> 'w env_session \<Rightarrow> 'w world \<Rightarrow>
     project_id option \<times> 'w env_session \<times> 'w env_task option \<times> 'w world" where
  "add_project P acc name S w =
     (case project_generate w of
        (Inl _, w') \<Rightarrow> (None, S, None, w')
      | (Inr project, w') \<Rightarrow>
          (case save_manifest P acc (set_project project \<lparr>mp_name = name, mp_entries = []\<rparr> S) of
             (S', t) \<Rightarrow> (Some project, S', t, w')))"

definition forget_task :: "prims \<Rightarrow> 'w account \<Rightarrow> entry_id \<Rightarrow> 'w env_task" where
  "forget_task P acc entry w =
     (case acc_context acc w of
        (None, w1) \<Rightarrow> (id, w1)
      | (Some C, w1) \<Rightarrow>
          (case entry_resource entry of
             Inl _ \<Rightarrow> (id, w1)
           | Inr resource \<Rightarrow> (id, snd (forget P (sc_api C) resource w1))))"

definition without_entry :: "entry_id \<Rightarrow> manifest \<Rightarrow> manifest" where
  "without_entry entry m =
     m\<lparr>mf_projects := map (\<lambda>(i, p). (i, p\<lparr>mp_entries := bt_remove entry (mp_entries p)\<rparr>)) (mf_projects m)\<rparr>"

definition forget_entry ::
    "prims \<Rightarrow> 'w account \<Rightarrow> entry_id \<Rightarrow> 'w env_session \<Rightarrow> 'w env_session \<times> 'w env_task option \<times> 'w env_task" where
  "forget_entry P acc entry S =
     (case save_manifest P acc (S\<lparr>vs_manifest := without_entry entry (vs_manifest S)\<rparr>) of
        (S', t) \<Rightarrow> (S', t, forget_task P acc entry))"

section \<open>Tasks in flight\<close>

text \<open>The running program: the session, the slot of the current transfer (starting another drops the
  one before, whatever it had done), the slot of a remote write, the detached tasks, and the world.
  A task first runs, then its answer lands; everything else may happen in between.\<close>

datatype 'w env_running = Waiting "'w env_task" | Answered "'w env_answer"

record 'w env_machine =
  em_session :: "'w env_session"
  em_task :: "'w env_running option"
  em_applying :: "'w env_running option"
  em_detached :: "'w env_running list"
  em_world :: "'w world"

datatype 'w env_action =
    BindCheckout checkout project_id
  | Unlock
  | CreateKey
  | Prepare entry_id path
  | PrepareFile entry_id "'w env_file" path
  | SendPrepared entry_id wire_bytes
  | DiscardPrepared
  | PushFile entry_id path
  | PullFile entry_id "'w env_file" path
  | ApplyPending
  | Acknowledge
  | DismissPending
  | LoadVault
  | AddFile project_id string
  | AddFileIn project_id checkout string
  | RenameEntry entry_id string
  | AddProject string
  | ForgetEntry entry_id

definition in_task :: "'w env_machine \<Rightarrow> 'w env_session \<times> 'w env_task option \<Rightarrow> 'w env_machine" where
  "in_task M r =
     (case r of
        (S, None) \<Rightarrow> M\<lparr>em_session := S\<rparr>
      | (S, Some t) \<Rightarrow> M\<lparr>em_session := S, em_task := Some (Waiting t)\<rparr>)"

definition detached :: "'w env_machine \<Rightarrow> 'w env_session \<Rightarrow> 'w env_task list \<Rightarrow> 'w world \<Rightarrow> 'w env_machine" where
  "detached M S ts w = M\<lparr>em_session := S, em_detached := em_detached M @ map Waiting ts, em_world := w\<rparr>"

definition task_list :: "'w env_task option \<Rightarrow> 'w env_task list" where
  "task_list t = (case t of Some t \<Rightarrow> [t] | None \<Rightarrow> [])"

fun vault_act :: "prims \<Rightarrow> 'w account \<Rightarrow> 'w env_action \<Rightarrow> 'w env_machine \<Rightarrow> 'w env_machine" where
  "vault_act P acc (BindCheckout c project) M =
     (case vault_bind P c project (em_session M) (em_world M) of (S, w) \<Rightarrow> detached M S [] w)"
| "vault_act P acc Unlock M =
     detached M (em_session M) (task_list (vault_unlock P acc (em_session M))) (em_world M)"
| "vault_act P acc CreateKey M =
     detached M (em_session M) [\<lambda>w. snd (vault_create_key P acc w)] (em_world M)"
| "vault_act P acc (Prepare entry p) M =
     (case vault_prepare P acc entry p (em_session M) (em_world M) of (S, w) \<Rightarrow> detached M S [] w)"
| "vault_act P acc (PrepareFile entry f p) M =
     (case vault_prepare_file P acc entry f p (em_session M) of (S, t) \<Rightarrow> detached M S (task_list t) (em_world M))"
| "vault_act P acc (SendPrepared entry wire) M = in_task M (vault_send_prepared P acc entry wire (em_session M))"
| "vault_act P acc DiscardPrepared M = M\<lparr>em_session := discard_prepared (em_session M)\<rparr>"
| "vault_act P acc (PushFile entry p) M = in_task M (vault_push P acc entry p (em_session M))"
| "vault_act P acc (PullFile entry f p) M = in_task M (vault_pull_file P acc entry f p (em_session M))"
| "vault_act P acc ApplyPending M =
     (case vault_apply P (em_session M) (em_world M) of
        (_, S, None, w) \<Rightarrow> M\<lparr>em_session := S, em_world := w\<rparr>
      | (_, S, Some t, w) \<Rightarrow> M\<lparr>em_session := S, em_applying := Some (Waiting t), em_world := w\<rparr>)"
| "vault_act P acc Acknowledge M = M\<lparr>em_session := acknowledge (em_session M)\<rparr>"
| "vault_act P acc DismissPending M = M\<lparr>em_session := snd (vault_dismiss (em_session M))\<rparr>"
| "vault_act P acc LoadVault M = in_task M (load_vault P acc (em_session M))"
| "vault_act P acc (AddFile project absolute) M =
     (case add_file P acc project absolute (em_session M) (em_world M) of (_, S, t, w) \<Rightarrow> detached M S (task_list t) w)"
| "vault_act P acc (AddFileIn project c absolute) M =
     (case add_file_in P acc project c absolute (em_session M) (em_world M) of
        (_, S, t, w) \<Rightarrow> detached M S (task_list t) w)"
| "vault_act P acc (RenameEntry entry wanted) M =
     (case rename_entry P acc entry wanted (em_session M) of (_, S, t) \<Rightarrow> detached M S (task_list t) (em_world M))"
| "vault_act P acc (AddProject name) M =
     (case add_project P acc name (em_session M) (em_world M) of (_, S, t, w) \<Rightarrow> detached M S (task_list t) w)"
| "vault_act P acc (ForgetEntry entry) M =
     (case forget_entry P acc entry (em_session M) of
        (S, t, f) \<Rightarrow> detached M S (task_list t @ [f]) (em_world M))"

text \<open>The steps: an operation, a task that runs, an answer that lands, and whatever other programs,
  other machines and the service do to the world.\<close>

inductive vault_step :: "prims \<Rightarrow> 'w env_machine \<Rightarrow> 'w env_machine \<Rightarrow> bool" for P where
  act: "vault_step P M (vault_act P acc a M)"
| run_task: "em_task M = Some (Waiting t) \<Longrightarrow> t (em_world M) = (ans, w) \<Longrightarrow>
    vault_step P M (M\<lparr>em_task := Some (Answered ans), em_world := w\<rparr>)"
| land_task: "em_task M = Some (Answered ans) \<Longrightarrow>
    vault_step P M (M\<lparr>em_session := ans (em_session M), em_task := None\<rparr>)"
| run_apply: "em_applying M = Some (Waiting t) \<Longrightarrow> t (em_world M) = (ans, w) \<Longrightarrow>
    vault_step P M (M\<lparr>em_applying := Some (Answered ans), em_world := w\<rparr>)"
| land_apply: "em_applying M = Some (Answered ans) \<Longrightarrow>
    vault_step P M (M\<lparr>em_session := ans (em_session M), em_applying := None\<rparr>)"
| run_detached: "em_detached M = xs @ Waiting t # ys \<Longrightarrow> t (em_world M) = (ans, w) \<Longrightarrow>
    vault_step P M (M\<lparr>em_detached := xs @ Answered ans # ys, em_world := w\<rparr>)"
| land_detached: "em_detached M = xs @ Answered ans # ys \<Longrightarrow>
    vault_step P M (M\<lparr>em_session := ans (em_session M), em_detached := xs @ ys\<rparr>)"
| elsewhere: "vault_step P M (M\<lparr>em_world := w\<rparr>)"

inductive_cases vault_stepE: "vault_step P M M'"

definition vault_start :: "prims \<Rightarrow> session_files \<Rightarrow> 'w world \<Rightarrow> 'w env_machine" where
  "vault_start P fs w =
     (case vault_new P fs w of
        (S, w') \<Rightarrow> \<lparr>em_session = S, em_task = None, em_applying = None, em_detached = [], em_world = w'\<rparr>)"

inductive vault_reach :: "prims \<Rightarrow> 'w env_machine \<Rightarrow> bool" for P where
  start: "vault_reach P (vault_start P fs w)"
| step: "vault_reach P M \<Longrightarrow> vault_step P M M' \<Longrightarrow> vault_reach P M'"

end
