(* ===== verification/Env_Machine.thy ===== *)
theory Env_Machine
  imports Env_Session
begin

text \<open>
  Invariants of the environment session, over every interleaving of operations, tasks and landings
  (\<open>vault_step\<close>), and what the session does with a path the catalogue holds. Each answer a task may
  land keeps the session's state consistent; the operations spawn only such answers; so every
  reachable session is consistent. The contract is the locale \<open>settled\<close>.
\<close>

section \<open>What an answer may do\<close>

text \<open>A held difference and the file it would be written to come and go together.\<close>

definition pending_ok :: "'w env_session \<Rightarrow> bool" where
  "pending_ok S \<longleftrightarrow> (vs_pending S = None \<longleftrightarrow> vs_pending_file S = None)"

definition answer_ok :: "'w env_answer \<Rightarrow> bool" where
  "answer_ok ans \<longleftrightarrow>
     (\<forall>S. pending_ok S \<longrightarrow> pending_ok (ans S) \<and> vs_applying (ans S) = vs_applying S) \<and>
     (\<forall>S. vs_pending S \<noteq> None \<longrightarrow> vs_pending (ans S) \<noteq> None)"

definition task_ok :: "'w env_task \<Rightarrow> bool" where
  "task_ok t \<longleftrightarrow> (\<forall>w. answer_ok (fst (t w)))"

fun running_ok :: "'w env_running \<Rightarrow> bool" where
  "running_ok (Waiting t) = task_ok t"
| "running_ok (Answered ans) = answer_ok ans"

text \<open>The one answer that ends a remote write, for the difference the write was started for.\<close>

fun ends_write :: "difference_identity \<Rightarrow> 'w env_running \<Rightarrow> bool" where
  "ends_write i (Waiting t) \<longleftrightarrow> (\<forall>w. \<exists>applied. fst (t w) = (\<lambda>S. snd (finish_apply applied i S)))"
| "ends_write i (Answered ans) \<longleftrightarrow> (\<exists>applied. ans = (\<lambda>S. snd (finish_apply applied i S)))"

named_theorems answers

lemma answer_set_status [answers]: "answer_ok (vault_set_status s)"
  by (simp add: answer_ok_def vault_set_status_def pending_ok_def)

lemma answer_fail [answers]: "answer_ok (vault_fail e)"
  unfolding vault_fail_def by (auto intro: answers split: env_sync_error.splits client_error.splits)

lemma answer_id [answers]: "answer_ok id"
  by (simp add: answer_ok_def)

lemma answer_dek [answers]: "answer_ok (\<lambda>S. vault_set_status s (S\<lparr>vs_dek := d\<rparr>))"
  by (simp add: answer_ok_def vault_set_status_def pending_ok_def)

lemma answer_hold [answers]: "answer_ok (hold_difference entry target dv safe)"
  by (simp add: answer_ok_def hold_difference_def vault_set_status_def pending_ok_def Let_def)

lemma answer_prepared [answers]: "answer_ok (hold_prepared prepared target)"
  by (auto simp: answer_ok_def hold_prepared_def vault_set_status_def pending_ok_def split: sum.splits option.splits)

lemma answer_absorb [answers]:
  "answer_ok (absorb_env_push entry target nothing out)" "answer_ok (absorb_env_pull entry target name out')"
  "answer_ok (absorb_vault loaded listed)"
proof -
  have vault: "answer_ok (\<lambda>S. vault_set_status s (S\<lparr>vs_manifest := m, vs_reconciliation := r\<rparr>))" for s :: env_status and m r
    by (simp add: answer_ok_def vault_set_status_def pending_ok_def)
  show "answer_ok (absorb_env_push entry target nothing out)"
    unfolding absorb_env_push_def by (auto intro: answers split: sum.splits env_push_outcome.splits)
  show "answer_ok (absorb_env_pull entry target name out')"
    unfolding absorb_env_pull_def by (auto intro: answers split: sum.splits env_pull_outcome.splits)
  show "answer_ok (absorb_vault loaded listed)"
    unfolding absorb_vault_def by (auto intro: answers vault split: sum.splits)
qed

lemma task_with_context: "(\<And>C. task_ok (k C)) \<Longrightarrow> task_ok (with_context acc k)"
  by (auto simp: task_ok_def with_context_def intro: answers split: prod.splits option.splits)

lemma task_single: "(\<And>r w. answer_ok (f r)) \<Longrightarrow> task_ok (\<lambda>w. case m w of (r, w') \<Rightarrow> (f r, w'))"
  by (simp add: task_ok_def split: prod.splits)

lemma task_unlock: "vault_unlock P acc S = Some t \<Longrightarrow> task_ok t"
proof -
  have "task_ok (unlock_fetched P C d)" for C :: "'a sync_context" and d
    by (auto simp: task_ok_def unlock_fetched_def intro: answers split: prod.splits sum.splits option.splits)
  then have "answer_ok (fst (with_context acc (\<lambda>C. unlock_fetched P C d) w))" for d w
    using task_with_context [of "\<lambda>C. unlock_fetched P C d" acc] by (simp add: task_ok_def)
  then show "vault_unlock P acc S = Some t \<Longrightarrow> task_ok t"
    by (auto simp: vault_unlock_def task_ok_def intro: answers split: if_splits prod.splits sum.splits option.splits)
qed

lemma task_create_key [answers]: "task_ok (\<lambda>w. snd (vault_create_key P acc w))"
  by (auto simp: task_ok_def vault_create_key_def created_key_def intro: answers split: prod.splits sum.splits option.splits)

lemma task_forget [answers]: "task_ok (forget_task P acc entry)"
  by (auto simp: task_ok_def forget_task_def intro: answers split: prod.splits sum.splits option.splits)

section \<open>What an operation may do\<close>

lemma set_status_simps [simp]:
  "vs_pending (vault_set_status s S) = vs_pending S" "vs_pending_file (vault_set_status s S) = vs_pending_file S"
  "vs_applying (vault_set_status s S) = vs_applying S" "vs_dek (vault_set_status s S) = vs_dek S"
  "vs_manifest (vault_set_status s S) = vs_manifest S" "vs_files (vault_set_status s S) = vs_files S"
  "vs_prepared (vault_set_status s S) = vs_prepared S" "vs_bindings (vault_set_status s S) = vs_bindings S"
  "pending_ok (vault_set_status s S) = pending_ok S"
  by (simp_all add: vault_set_status_def pending_ok_def)

text \<open>The difference is left alone while it is being written; otherwise the state stays consistent.\<close>

definition undisturbed :: "'w env_session \<Rightarrow> 'w env_session \<Rightarrow> bool" where
  "undisturbed S S' \<longleftrightarrow>
     vs_applying S' = vs_applying S \<and> (pending_ok S \<longrightarrow> pending_ok S') \<and>
     (vs_applying S \<longrightarrow> vs_pending S' = vs_pending S \<and> vs_pending_file S' = vs_pending_file S)"

lemma undisturbed_same [simp]:
  "undisturbed S S" "undisturbed S (vault_set_status s S)"
  "undisturbed S (S\<lparr>vs_prepared := p\<rparr>)" "undisturbed S (S\<lparr>vs_manifest := m\<rparr>)" "undisturbed S (S\<lparr>vs_bindings := b\<rparr>)"
  by (simp_all add: undisturbed_def pending_ok_def)

lemma undisturbed_trans: "undisturbed S S' \<Longrightarrow> undisturbed S' S'' \<Longrightarrow> undisturbed S S''"
  by (auto simp: undisturbed_def)

lemma undisturbed_status [simp]: "undisturbed S (vault_set_status s S') = undisturbed S S'"
  by (simp add: undisturbed_def)

lemma undisturbed_drop: "\<not> vs_applying S \<Longrightarrow> undisturbed S (drop_stale_difference S)"
  by (simp add: undisturbed_def drop_stale_difference_def pending_ok_def)

text \<open>An operation that starts a task in the transfer slot: it starts none during a remote write.\<close>

definition transfer_ok :: "'w env_session \<Rightarrow> 'w env_session \<times> 'w env_task option \<Rightarrow> bool" where
  "transfer_ok S r \<longleftrightarrow>
     undisturbed S (fst r) \<and> (vs_applying S \<longrightarrow> snd r = None) \<and> (\<forall>t. snd r = Some t \<longrightarrow> task_ok t)"

lemma refuse_cases:
  "refuse_while_applying S = (if vs_applying S then (True, vault_set_status (EnvFailed APPLYING) S) else (False, S))"
  by (simp add: refuse_while_applying_def)

lemma transfers:
  "transfer_ok S (vault_send_prepared P acc e wire S)" "transfer_ok S (vault_push P acc e p S)"
  "transfer_ok S (vault_pull_file P acc e f p S)" "transfer_ok S (load_vault P acc S)"
  "transfer_ok S (vault_prepare_file P acc e f p S)"
proof -
  have step: "task_ok (with_context acc (\<lambda>C w. case m C w of (r, w') \<Rightarrow> (g r, w')))"
    if "\<And>r. answer_ok (g r)" for m :: "'a sync_context \<Rightarrow> 'a world \<Rightarrow> 'r \<times> 'a world" and g
    using that by (intro task_with_context task_single)
  show "transfer_ok S (vault_push P acc e p S)"
    unfolding transfer_ok_def vault_push_def refuse_cases by (auto intro!: step answers split: option.splits)
  show "transfer_ok S (vault_send_prepared P acc e wire S)"
    unfolding transfer_ok_def vault_send_prepared_def refuse_cases Let_def
    by (auto intro!: step answers split: option.splits if_splits)
  show "transfer_ok S (vault_pull_file P acc e f p S)"
    unfolding transfer_ok_def vault_pull_file_def refuse_cases Let_def
    by (auto intro!: step answers undisturbed_drop split: option.splits)
  show "transfer_ok S (vault_prepare_file P acc e f p S)"
    unfolding transfer_ok_def vault_prepare_file_def refuse_cases Let_def
    by (auto intro!: task_single answers undisturbed_drop split: option.splits) (simp add: undisturbed_def drop_stale_difference_def pending_ok_def)
  have "task_ok (\<lambda>w. case load_manifest P C k w of
      (loaded, w1) \<Rightarrow> (case list_entries P C w1 of (listed, w2) \<Rightarrow> (absorb_vault loaded listed, w2)))"
    for C :: "'a sync_context" and k
    by (simp add: task_ok_def answers split: prod.splits)
  then show "transfer_ok S (load_vault P acc S)"
    unfolding transfer_ok_def load_vault_def refuse_cases by (auto intro!: task_with_context split: option.splits)
qed

text \<open>The other operations detach what they start, and never touch the difference.\<close>

definition edit_ok :: "'w env_session \<Rightarrow> 'w env_session \<Rightarrow> 'w env_task list \<Rightarrow> bool" where
  "edit_ok S S' ts \<longleftrightarrow> undisturbed S S' \<and> list_all task_ok ts"

lemma edit_save: "save_manifest P acc S = (S', t) \<Longrightarrow> edit_ok S S' (task_list t)"
proof -
  have "task_ok (\<lambda>w. case write_manifest P C k m w of (Inl e, w') \<Rightarrow> (vault_fail e, w') | (Inr _, w') \<Rightarrow> (id, w'))"
    for C :: "'a sync_context" and k m
    by (auto simp: task_ok_def answers split: prod.splits sum.splits)
  then show "save_manifest P acc S = (S', t) \<Longrightarrow> edit_ok S S' (task_list t)"
    by (auto simp: save_manifest_def edit_ok_def task_list_def intro!: task_with_context split: option.splits)
qed

lemma edit_saved: "save_manifest P acc (set_project i h S) = (S', t) \<Longrightarrow> edit_ok S S' (task_list t)"
  using edit_save [of P acc "set_project i h S" S' t] undisturbed_trans [of S "set_project i h S" S']
  by (simp add: edit_ok_def set_project_def)

lemma edit_insert: "insert_entry P acc project relative S w = (e, S', t, w') \<Longrightarrow> edit_ok S S' (task_list t)"
  by (auto simp: insert_entry_def Let_def edit_ok_def task_list_def dest!: edit_saved split: sum.splits prod.splits option.splits)

lemma edits:
  "add_file P acc project p S w = (e, S', t, w') \<Longrightarrow> edit_ok S S' (task_list t)"
  "add_file_in P acc project c p S w = (e, S', t, w') \<Longrightarrow> edit_ok S S' (task_list t)"
  "rename_entry P acc entry wanted S = (b, S', t) \<Longrightarrow> edit_ok S S' (task_list t)"
  "add_project P acc name S w = (i, S', t, w') \<Longrightarrow> edit_ok S S' (task_list t)"
  "forget_entry P acc entry S = (S', t, g) \<Longrightarrow> edit_ok S S' (task_list t @ [g])"
proof -
  show add: "add_file P acc project p S w = (e, S', t, w') \<Longrightarrow> edit_ok S S' (task_list t)"
    by (simp add: add_file_def edit_insert)
  show "add_file_in P acc project c p S w = (e, S', t, w') \<Longrightarrow> edit_ok S S' (task_list t)"
    using add by (simp add: add_file_in_def edit_insert split: if_splits)
  show "rename_entry P acc entry wanted S = (b, S', t) \<Longrightarrow> edit_ok S S' (task_list t)"
    by (auto simp: rename_entry_def Let_def edit_ok_def task_list_def dest!: edit_saved split: if_splits prod.splits option.splits)
  show "add_project P acc name S w = (i, S', t, w') \<Longrightarrow> edit_ok S S' (task_list t)"
    by (auto simp: add_project_def edit_ok_def task_list_def dest!: edit_saved split: sum.splits prod.splits option.splits)
  show "forget_entry P acc entry S = (S', t, g) \<Longrightarrow> edit_ok S S' (task_list t @ [g])"
    using edit_save [of P acc "S\<lparr>vs_manifest := without_entry entry (vs_manifest S)\<rparr>" S' t]
      undisturbed_trans [of S "S\<lparr>vs_manifest := without_entry entry (vs_manifest S)\<rparr>" S'] task_forget
    by (auto simp: forget_entry_def edit_ok_def split: prod.splits)
qed

lemma edit_now:
  "vault_bind P c project S w = (S', w') \<Longrightarrow> edit_ok S S' []"
  "vault_prepare P acc e p S w = (S', w') \<Longrightarrow> edit_ok S S' []"
  "edit_ok S (discard_prepared S) []" "edit_ok S (acknowledge S) []" "edit_ok S (snd (vault_dismiss S)) []"
proof -
  show "vault_bind P c project S w = (S', w') \<Longrightarrow> edit_ok S S' []"
    by (auto simp: vault_bind_def Let_def edit_ok_def split: prod.splits sum.splits)
  show "vault_prepare P acc e p S w = (S', w') \<Longrightarrow> edit_ok S S' []"
    by (auto simp: vault_prepare_def refuse_cases hold_prepared_def edit_ok_def split: if_splits option.splits prod.splits sum.splits)
  show "edit_ok S (discard_prepared S) []" "edit_ok S (acknowledge S) []"
    by (simp_all add: discard_prepared_def acknowledge_def edit_ok_def Let_def)
  show "edit_ok S (snd (vault_dismiss S)) []"
    by (simp add: vault_dismiss_def refuse_cases edit_ok_def) (simp add: undisturbed_def pending_ok_def)
qed

lemma finish_simps [simp]:
  "vs_applying (snd (finish_apply applied i S)) = False"
  "pending_ok S \<Longrightarrow> pending_ok (snd (finish_apply applied i S))"
  by (auto simp: finish_apply_def Let_def pending_ok_def split: sum.splits option.splits)

lemma apply_shape:
  assumes "vault_apply P S w = (b, S', t, w')"
  obtains (settled) "t = None" "vs_applying S' = vs_applying S" "pending_ok S \<Longrightarrow> pending_ok S'"
      "vs_applying S \<Longrightarrow> vs_pending S' = vs_pending S \<and> vs_pending_file S' = vs_pending_file S"
  | (remote) p u where "\<not> vs_applying S" "vs_applying S'" "t = Some u" "vs_pending S = Some p" "vs_pending S' = vs_pending S"
      "vs_pending_file S' = vs_pending_file S" "ends_write (identity_of p) (Waiting u)"
proof (cases "vs_applying S")
  case True
  with assms show thesis by (intro settled) (auto simp: vault_apply_def refuse_cases)
next
  case idle: False
  show thesis
  proof (cases "vs_pending S = None \<or> vs_pending_file S = None")
    case True
    with idle assms show thesis by (intro settled) (auto simp: vault_apply_def refuse_cases split: option.splits)
  next
    case False
    then obtain p f where pf: "vs_pending S = Some p" "vs_pending_file S = Some f" by auto
    show thesis
    proof (cases "ef_local_path f")
      case None
      with idle pf assms show thesis by (intro remote) (auto simp: vault_apply_def refuse_cases split: prod.splits)
    next
      case (Some lp)
      obtain applied w1 where a: "apply_remote_if_unchanged P (pe_entry p) lp (pe_local_hash p) (sf_backups (vs_files S))
          (pe_remote p) (pe_revision p) (pe_seq p) (sf_state (vs_files S)) w = (applied, w1)" by force
      with idle pf Some assms have "S' = snd (finish_apply applied (identity_of p) S)" "t = None"
        by (auto simp: vault_apply_def refuse_cases split: prod.splits)
      with idle show thesis by (intro settled) auto
    qed
  qed
qed

section \<open>The invariant of the running session\<close>

definition machine_ok :: "'w env_machine \<Rightarrow> bool" where
  "machine_ok M \<longleftrightarrow>
     pending_ok (em_session M) \<and> (vs_applying (em_session M) \<longleftrightarrow> em_applying M \<noteq> None) \<and>
     (\<forall>r. em_task M = Some r \<longrightarrow> running_ok r) \<and> list_all running_ok (em_detached M) \<and>
     (\<forall>r. em_applying M = Some r \<longrightarrow> (\<exists>i. ends_write i r))"

lemma machine_ok_edit:
  assumes "machine_ok M" "edit_ok (em_session M) S ts"
  shows "machine_ok (detached M S ts w)"
  using assms by (auto simp: machine_ok_def detached_def edit_ok_def undisturbed_def list_all_iff)

lemma machine_ok_transfer:
  assumes "machine_ok M" "transfer_ok (em_session M) r"
  shows "machine_ok (in_task M r)"
  using assms by (cases r) (auto simp: machine_ok_def in_task_def transfer_ok_def undisturbed_def split: option.splits)

lemma machine_ok_session: "machine_ok M \<Longrightarrow> edit_ok (em_session M) S [] \<Longrightarrow> machine_ok (M\<lparr>em_session := S\<rparr>)"
  by (auto simp: machine_ok_def edit_ok_def undisturbed_def)

text \<open>Every operation but applying is one of three kinds.\<close>

inductive benign :: "'w env_machine \<Rightarrow> 'w env_machine \<Rightarrow> bool" where
  edit: "edit_ok (em_session M) S ts \<Longrightarrow> benign M (detached M S ts w)"
| now: "edit_ok (em_session M) S [] \<Longrightarrow> benign M (M\<lparr>em_session := S\<rparr>)"
| transfer: "transfer_ok (em_session M) r \<Longrightarrow> benign M (in_task M r)"

lemma act_benign: "a \<noteq> ApplyPending \<Longrightarrow> benign M (vault_act P acc a M)"
proof (cases a)
  case (PrepareFile e f p)
  obtain S t where r: "vault_prepare_file P acc e f p (em_session M) = (S, t)" by force
  have "edit_ok (em_session M) S (task_list t)"
    using transfers(5) [of "em_session M" P acc e f p] r by (auto simp: transfer_ok_def edit_ok_def task_list_def split: option.splits)
  with r PrepareFile show ?thesis by (simp add: benign.edit)
next
  case Unlock
  have "edit_ok (em_session M) (em_session M) (task_list (vault_unlock P acc (em_session M)))"
    using task_unlock [of P acc "em_session M"] by (auto simp: edit_ok_def task_list_def split: option.splits)
  with Unlock show ?thesis by (simp add: benign.edit)
next
  case CreateKey
  have "edit_ok (em_session M) (em_session M) [\<lambda>w. snd (vault_create_key P acc w)]"
    using task_create_key by (simp add: edit_ok_def)
  with CreateKey show ?thesis by (simp add: benign.edit)
qed (auto intro!: benign.intros intro: transfers edit_now edits split: prod.splits)

lemma benign_ok: "benign M M' \<Longrightarrow> machine_ok M \<Longrightarrow> machine_ok M'"
  by (induction rule: benign.induct) (simp_all add: machine_ok_edit machine_ok_session machine_ok_transfer)

lemma benign_during_write:
  "benign M M' \<Longrightarrow> vs_applying (em_session M) \<Longrightarrow>
     em_applying M' = em_applying M \<and> em_task M' = em_task M \<and>
     vs_pending (em_session M') = vs_pending (em_session M) \<and>
     vs_pending_file (em_session M') = vs_pending_file (em_session M)"
  by (induction rule: benign.induct)
    (auto simp: detached_def in_task_def edit_ok_def transfer_ok_def undisturbed_def split: prod.splits option.splits)

lemma apply_ok: "machine_ok M \<Longrightarrow> machine_ok (vault_act P acc ApplyPending M)"
proof -
  assume ok: "machine_ok M"
  obtain b S t w where r: "vault_apply P (em_session M) (em_world M) = (b, S, t, w)" by (metis prod_cases4)
  from r show ?thesis
  proof (cases rule: apply_shape)
    case settled
    with ok r show ?thesis by (simp add: machine_ok_def)
  next
    case (remote p u)
    with ok r have "pending_ok S" by (simp add: machine_ok_def pending_ok_def)
    with remote ok r show ?thesis by (auto simp: machine_ok_def)
  qed
qed

lemma task_answer: "task_ok t \<Longrightarrow> t w = (ans, w') \<Longrightarrow> answer_ok ans"
  by (metis task_ok_def fst_conv)

lemma step_ok: "vault_step P M M' \<Longrightarrow> machine_ok M \<Longrightarrow> machine_ok M'"
proof (induction rule: vault_step.induct)
  case (act M acc a)
  then show ?case using act_benign benign_ok apply_ok by metis
next
  case (run_task M t ans w)
  then have "task_ok t" by (simp add: machine_ok_def)
  then have "answer_ok ans" using task_answer run_task.hyps by blast
  with run_task show ?case by (simp add: machine_ok_def)
next
  case (run_detached M xs t ys ans w)
  then have "task_ok t" by (simp add: machine_ok_def)
  then have "answer_ok ans" using task_answer run_detached.hyps by blast
  with run_detached show ?case by (simp add: machine_ok_def)
next
  case (run_apply M t ans w)
  then obtain i where "ends_write i (Waiting t)" by (auto simp: machine_ok_def)
  with run_apply have "ends_write i (Answered ans)" by simp (metis fst_conv)
  with run_apply show ?case by (auto simp: machine_ok_def)
qed (auto simp: machine_ok_def answer_ok_def)

locale settled =
  fixes P :: prims
    and inv :: "'w env_machine \<Rightarrow> bool"
  assumes starts: "inv (vault_start P fs w)"
    and steps: "inv M \<Longrightarrow> vault_step P M M' \<Longrightarrow> inv M'"
begin

lemma always: "vault_reach P M \<Longrightarrow> inv M"
  by (induction rule: vault_reach.induct) (auto intro: starts steps)

end

interpretation vault: settled P machine_ok for P
proof
  show "machine_ok (vault_start P fs w)" for fs and w :: "'a world"
    by (simp add: vault_start_def vault_new_def machine_ok_def pending_ok_def split: prod.splits)
qed (rule step_ok)

text \<open>While a remote write is on its way, a step either leaves it there, or runs it, or lands its answer;
  only the last can clear the difference the session holds.\<close>

lemma write_step:
  assumes "machine_ok M" "em_applying M = Some r" "vault_step P M M'"
  shows "(em_applying M' = Some r \<or>
        (\<exists>t. r = Waiting t \<and> em_applying M' = Some (Answered (fst (t (em_world M)))) \<and> em_session M' = em_session M)) \<and>
      (vs_pending (em_session M) \<noteq> None \<longrightarrow> vs_pending (em_session M') \<noteq> None) \<or>
    (\<exists>ans. r = Answered ans \<and> em_applying M' = None \<and> em_session M' = ans (em_session M))"
  using assms(3)
proof cases
  case (act acc a)
  have busy: "vs_applying (em_session M)" using assms(1,2) by (simp add: machine_ok_def)
  show ?thesis
  proof (cases "a = ApplyPending")
    case True
    with act busy assms(2) show ?thesis by (simp add: vault_apply_def refuse_cases)
  next
    case False
    with act busy assms(2) show ?thesis using benign_during_write [OF act_benign [OF False]] by simp
  qed
next
  case (land_task ans)
  then have "answer_ok ans" using assms(1) by (simp add: machine_ok_def)
  with land_task assms(2) show ?thesis by (simp add: answer_ok_def)
next
  case (land_detached xs ans ys)
  then have "answer_ok ans" using assms(1) by (simp add: machine_ok_def)
  with land_detached assms(2) show ?thesis by (simp add: answer_ok_def)
qed (use assms(2) in auto)

text \<open>C37. In every session the program can reach, with operations, tasks, answers and other programs
  interleaved in any order: a held difference always says where it would be written and nothing else
  does, and the session knows exactly when a remote write is running. While one is, no operation of
  the user starts another transfer, drops the write, or replaces or discards the held difference. A
  transfer that was already on its way may still land and hold another difference in its place; but
  no step of any kind stops the write or leaves the session without a difference, short of the write's
  own answer. Whatever that answers, and whatever the session holds by then, it clears at most the
  difference the write was started for.\<close>

theorem vault_write_undisturbed:
  assumes "vault_reach P M"
  shows "(vs_pending (em_session M) = None \<longleftrightarrow> vs_pending_file (em_session M) = None) \<and>
    (vs_applying (em_session M) \<longleftrightarrow> em_applying M \<noteq> None) \<and>
    (\<forall>r acc a. em_applying M = Some r \<longrightarrow>
       em_applying (vault_act P acc a M) = Some r \<and> em_task (vault_act P acc a M) = em_task M \<and>
       vs_pending (em_session (vault_act P acc a M)) = vs_pending (em_session M) \<and>
       vs_pending_file (em_session (vault_act P acc a M)) = vs_pending_file (em_session M)) \<and>
    (\<forall>r M'. em_applying M = Some r \<and> vault_step P M M' \<longrightarrow>
       (em_applying M' = Some r \<or>
          (\<exists>t. r = Waiting t \<and> em_applying M' = Some (Answered (fst (t (em_world M)))) \<and> em_session M' = em_session M)) \<and>
         (vs_pending (em_session M) \<noteq> None \<longrightarrow> vs_pending (em_session M') \<noteq> None) \<or>
       (\<exists>ans. r = Answered ans \<and> em_applying M' = None \<and> em_session M' = ans (em_session M))) \<and>
    (\<forall>acc t w S. em_applying M = None \<and> em_applying (vault_act P acc ApplyPending M) = Some (Waiting t) \<longrightarrow>
       (\<exists>p. vs_pending (em_session M) = Some p \<and>
          (vs_pending (fst (t w) S) = vs_pending S \<or>
           map_option identity_of (vs_pending S) = Some (identity_of p) \<and> vs_pending (fst (t w) S) = None)))"
proof -
  have ok: "machine_ok M" by (rule vault.always [OF assms])
  have during: "em_applying (vault_act P acc a M) = Some r \<and> em_task (vault_act P acc a M) = em_task M \<and>
       vs_pending (em_session (vault_act P acc a M)) = vs_pending (em_session M) \<and>
       vs_pending_file (em_session (vault_act P acc a M)) = vs_pending_file (em_session M)"
    if r: "em_applying M = Some r" for r acc a
  proof (cases "a = ApplyPending")
    case True
    from ok r have "vs_applying (em_session M)" by (simp add: machine_ok_def)
    with True r show ?thesis by (simp add: vault_apply_def refuse_cases)
  next
    case False
    from ok r have "vs_applying (em_session M)" by (simp add: machine_ok_def)
    with benign_during_write [OF act_benign [OF False]] r show ?thesis by simp
  qed
  have lands: "\<exists>p. vs_pending (em_session M) = Some p \<and>
        (vs_pending (fst (t w) S) = vs_pending S \<or>
         map_option identity_of (vs_pending S) = Some (identity_of p) \<and> vs_pending (fst (t w) S) = None)"
    if t: "em_applying M = None" "em_applying (vault_act P acc ApplyPending M) = Some (Waiting t)" for acc t w S
  proof -
    obtain b S' u w' where r: "vault_apply P (em_session M) (em_world M) = (b, S', u, w')" by (metis prod_cases4)
    from r show ?thesis
    proof (cases rule: apply_shape)
      case settled
      with t r show ?thesis by simp
    next
      case (remote p v)
      with t r have "v = t" by simp
      with remote(7) obtain applied where "fst (t w) = (\<lambda>S. snd (finish_apply applied (identity_of p) S))" by auto
      then show ?thesis using remote(4) by (auto simp: finish_apply_def Let_def split: sum.splits option.splits)
    qed
  qed
  have "(vs_pending (em_session M) = None \<longleftrightarrow> vs_pending_file (em_session M) = None) \<and>
      (vs_applying (em_session M) \<longleftrightarrow> em_applying M \<noteq> None)" using ok unfolding machine_ok_def pending_ok_def by blast
  with during lands write_step [OF ok] show ?thesis by (intro conjI allI impI) (blast+)
qed

definition example_session_files :: session_files where
  "example_session_files = \<lparr>sf_bindings = [RootDir, Normal ''bindings''], sf_state = env_state_path,
     sf_backups = [RootDir, Normal ''b'']\<rparr>"

definition remote_copy :: "path \<Rightarrow> 'w env_file" where
  "remote_copy p = (local_env_file p)\<lparr>ef_local_path := None\<rparr>"

lemma remote_copy_pull: "env_pull_file P C k entry (remote_copy p) sp = env_pull P C k entry p sp"
  by (simp add: env_pull_def env_pull_file_def read_text_def remote_copy_def)

text \<open>A write to another host on its way is a state the program reaches: unlock with the cached key, pull
  a file that lives elsewhere, and apply the difference the pull found.\<close>

lemma unlocked_reachable:
  fixes n :: 'a
  assumes "length (ek_bytes k) = DEK_LEN"
  obtains M where "vault_reach P M" "vs_dek (em_session M) = Some k" "\<not> vs_applying (em_session M)"
    "em_task M = None" "em_applying M = None" "vs_files (em_session M) = fs" "(em_world M :: 'a world) = w"
proof -
  define acc :: "'a account" where "acc = undefined"
  define w0 where "w0 = (quiet_world n)\<lparr>keychain := [(ENV_KEYCHAIN_URL, ([], ek_bytes k))]\<rparr>"
  have rd: "\<exists>w1. env_key_read w0 = (Inr (Some k) :: unit + env_dek option, w1)"
    using assms by (cases k) (simp add: env_key_read_def io_case_def kc_read_def key_at_def w0_def quiet_world_def io_ok_def)
  then obtain w1 where w1: "env_key_read w0 = (Inr (Some k) :: unit + env_dek option, w1)" ..
  define M0 where "M0 = vault_start P fs w0"
  define M1 where "M1 = (vault_act P acc Unlock M0)\<lparr>em_world := w0\<rparr>"
  have M0: "vs_dek (em_session M0) = None" "\<not> vs_applying (em_session M0)" "vs_files (em_session M0) = fs"
    "em_task M0 = None" "em_applying M0 = None" "em_detached M0 = []"
    by (simp_all add: M0_def vault_start_def vault_new_def split: prod.splits)
  then obtain t ans where t: "em_detached M1 = [] @ Waiting t # []" "t w0 = (ans, w1)"
    "ans = (\<lambda>S. vault_set_status EnvIdle (S\<lparr>vs_dek := Some k\<rparr>))"
    by (simp add: M1_def detached_def vault_unlock_def task_list_def w1)
  have "vault_reach P M0" unfolding M0_def by (rule vault_reach.start)
  then have "vault_reach P M1" unfolding M1_def by (intro vault_reach.step [OF vault_reach.step, OF _ vault_step.act vault_step.elsewhere])
  moreover have "vault_step P M1 (M1\<lparr>em_detached := [] @ Answered ans # [], em_world := w1\<rparr>)"
    using t(1,2) by (intro vault_step.run_detached [of _ _ t]) (auto simp: M1_def)
  ultimately have "vault_reach P (M1\<lparr>em_detached := [] @ Answered ans # [], em_world := w1\<rparr>)" (is "vault_reach P ?M2")
    by (rule vault_reach.step)
  then have "vault_reach P (?M2\<lparr>em_session := ans (em_session ?M2), em_detached := [] @ []\<rparr>)" (is "vault_reach P ?M3")
    by (rule vault_reach.step) (rule vault_step.land_detached, simp)
  then have reach: "vault_reach P (?M3\<lparr>em_world := w\<rparr>)" by (rule vault_reach.step [OF _ vault_step.elsewhere])
  show thesis by (rule that [OF reach]) (use M0 in \<open>auto simp: t(3) M1_def detached_def vault_set_status_def\<close>)
qed

lemma write_in_flight:
  fixes v :: "'a world" and fs :: session_files
  assumes pull: "env_pull P C k entry lp (sf_state fs) v = (Inr (EnvRemoteNewer dv), v') \<or>
      env_pull P C k entry lp (sf_state fs) v = (Inr (EnvConflict dv), v')"
    and k: "length (ek_bytes k) = DEK_LEN"
  obtains M t where "vault_reach P (M :: 'a env_machine)" "em_applying M = Some (Waiting t)" "vs_pending (em_session M) \<noteq> None"
proof -
  obtain M0 :: "'a env_machine" where M0: "vault_reach P M0" "vs_dek (em_session M0) = Some k" "\<not> vs_applying (em_session M0)"
    "em_task M0 = None" "em_applying M0 = None" "vs_files (em_session M0) = fs" "em_world M0 = v"
    by (rule unlocked_reachable [OF k])
  define acc :: "'a account" where "acc = (undefined :: 'a account)\<lparr>acc_context := \<lambda>w. (Some C, w)\<rparr>"
  define M1 where "M1 = vault_act P acc (PullFile entry (remote_copy lp) lp) M0"
  obtain t where t: "em_task M1 = Some (Waiting t)" "em_world M1 = v" "\<not> vs_applying (em_session M1)"
      "\<exists>ans. t v = (ans, v') \<and> vs_pending (ans (em_session M1)) \<noteq> None \<and> \<not> vs_applying (ans (em_session M1)) \<and>
        vs_pending_file (ans (em_session M1)) = Some (remote_copy lp)"
    using M0 pull by (auto simp: M1_def in_task_def vault_pull_file_def refuse_cases drop_stale_difference_def Let_def
        with_context_def acc_def remote_copy_pull absorb_env_pull_def hold_difference_def vault_set_status_def)
  then obtain ans where ans: "t v = (ans, v')" "vs_pending (ans (em_session M1)) \<noteq> None" "\<not> vs_applying (ans (em_session M1))"
    "vs_pending_file (ans (em_session M1)) = Some (remote_copy lp)" by blast
  have "vault_reach P M1" unfolding M1_def using M0(1) by (rule vault_reach.step) (rule vault_step.act)
  moreover have "vault_step P M1 (M1\<lparr>em_task := Some (Answered ans), em_world := v'\<rparr>)"
    using t(1) ans(1) by (intro vault_step.run_task [of _ t]) (simp_all add: t(2))
  ultimately have "vault_reach P (M1\<lparr>em_task := Some (Answered ans), em_world := v'\<rparr>)" (is "vault_reach P ?M2")
    by (rule vault_reach.step)
  then have "vault_reach P (?M2\<lparr>em_session := ans (em_session ?M2), em_task := None\<rparr>)" (is "vault_reach P ?M3")
    by (rule vault_reach.step) (rule vault_step.land_task, simp)
  then have reach: "vault_reach P (vault_act P acc ApplyPending ?M3)" by (rule vault_reach.step) (rule vault_step.act)
  obtain p where "vs_pending (ans (em_session M1)) = Some p" using ans(2) by blast
  with ans(3,4) show thesis
    using that [OF reach] by (simp add: vault_apply_def refuse_cases remote_copy_def vault_set_status_def)
qed

lemma example_pull_differs:
  "\<exists>dv v v'. env_pull total_prims (fake_context total_prims) example_env_key example_entry example_env_path env_state_path v =
       (Inr (EnvRemoteNewer dv), v') \<or>
     env_pull total_prims (fake_context total_prims) example_env_key example_entry example_env_path env_state_path v =
       (Inr (EnvConflict dv), v')"
proof -
  let ?w = "unsynced_world ''A=1''"
  have st: "env_state_at total_prims env_state_path (unsynced_world t) = env_state_default" for t
    by (simp add: unsynced_world_def)
  obtain rv w' where run: "env_push total_prims (fake_context total_prims) example_env_key example_entry example_env_path
      env_state_path ?w = (Inr (EnvStored rv 1), w')"
    by (rule push_stored [OF unsynced_ready [OF example_text] total_json_ok total_json_total total_gcm_total
          example_env_key_ok]) (auto simp: st next_seq_def)
  obtain res where res: "entry_resource example_entry = Inr res" using example_entry_ok by (simp add: entry_resource_eq)
  have w: "quiet_fs ?w" "file_at example_env_path ?w = Some (as_bytes ''A=1'')"
    using calm_quiet_fs [OF stored_world_simps(1)] by (simp_all add: unsynced_world_def)
  obtain d where d: "fake_doc (net w') (entry_hex example_entry) = Some d"
    "cell_content total_prims example_env_key fake_user res (doc_blob d) = Some (1, as_bytes ''A=1'')"
    by (rule push_stored_cell [OF run w(1) total_gcm_ok total_sha256_ok total_base64_ok total_json_ok example_env_key_ok
          example_entry_ok res w(2) example_text(1)])
  define v where "v = (quiet_world (net w') :: fake_store world)"
  have v: "quiet_fs v" "file_at p v = None" "net v = net w'" for p
    by (simp_all add: v_def quiet_world_def quiet_fs_def file_at_def)
  then have fr: "fresh (seen_seq (env_state_at total_prims env_state_path v) example_entry) 1"
    by (simp add: fresh_def seen_seq_def env_state_at_def)
  have "hd (replicate 32 0) \<noteq> hd (as_bytes ''A=1'' @ replicate 29 0)"
    by (simp add: hd_append as_bytes_def hd_replicate byte_of_char_def)
  then have "replicate 32 0 \<noteq> as_bytes ''A=1'' @ replicate 29 0" by metis
  then have ne: "env_hash total_prims [] \<noteq> env_hash total_prims (as_bytes ''A=1'')"
    by (simp add: env_hash_def total_prims_def ref_prims_def ref_sha256_def)
  show ?thesis
    by (rule pull_of_cell [OF v(1) total_json_ok total_json_total example_entry_ok res _ d(2) example_text(1) fr,
          where local_path = example_env_path]) (use v ne d(1) in \<open>auto\<close>)
qed

theorem vault_write_undisturbed_witness:
  "\<exists>M t. vault_reach total_prims (M :: fake_store env_machine) \<and> em_applying M = Some (Waiting t) \<and>
     vs_pending (em_session M) \<noteq> None \<and> vs_applying (em_session M) \<and>
     em_applying (vault_act total_prims example_account DismissPending M) = Some (Waiting t) \<and>
     vs_pending (em_session (vault_act total_prims example_account DismissPending M)) = vs_pending (em_session M)"
proof -
  obtain dv v and v' :: "fake_store world" where
    "env_pull total_prims (fake_context total_prims) example_env_key example_entry example_env_path
       (sf_state example_session_files) v = (Inr (EnvRemoteNewer dv), v') \<or>
     env_pull total_prims (fake_context total_prims) example_env_key example_entry example_env_path
       (sf_state example_session_files) v = (Inr (EnvConflict dv), v')"
    using example_pull_differs unfolding example_session_files_def by auto
  moreover have "length (ek_bytes example_env_key) = DEK_LEN"
    using example_env_key_ok by (simp add: env_dek_ok_def)
  ultimately obtain M t where M: "vault_reach total_prims (M :: fake_store env_machine)" "em_applying M = Some (Waiting t)"
    "vs_pending (em_session M) \<noteq> None" by (rule write_in_flight)
  with vault_write_undisturbed [OF M(1)] show ?thesis by blast
qed

section \<open>Paths in the catalogue\<close>

text \<open>No two files of a project are recorded under one path.\<close>

definition paths_unique :: "manifest \<Rightarrow> bool" where
  "paths_unique m \<longleftrightarrow> list_all (\<lambda>p. distinct (map (\<lambda>e. me_path (snd e)) (mp_entries p))) (map snd (mf_projects m))"

lemma bt_insert_distinct:
  assumes "bt_ok m" "distinct (map (\<lambda>e. g (snd e)) m)" "\<forall>(k', v') \<in> set m. k' \<noteq> k \<longrightarrow> g v' \<noteq> g v"
  shows "distinct (map (\<lambda>e. g (snd e)) (bt_insert k v m))"
  using assms
proof (induction k v m rule: bt_insert.induct)
  case (2 k v k' v' m)
  have ok: "bt_ok m" "\<forall>x \<in> fst ` set m. k' < x" using "2.prems"(1) by (auto simp: bt_ok_Cons)
  have g: "g v' \<notin> (\<lambda>e. g (snd e)) ` set (bt_insert k v m)" if "k' \<noteq> k"
    using "2.prems"(2,3) that set_bt_insert [of k v m] by auto
  have new: "g (snd e) \<noteq> g v" if "e \<in> set m" "k \<le> k'" for e
  proof -
    have "fst e \<noteq> k" using ok(2) that by fastforce
    then show ?thesis using "2.prems"(3) that(1) by fastforce
  qed
  consider "k < k'" | "k = k'" | "k' < k" by force
  then show ?case
  proof cases
    case 1
    then have "g v \<notin> (\<lambda>e. g (snd e)) ` set m" using new by force
    with 1 show ?thesis using "2.prems"(2,3) by auto
  next
    case 2
    then have "g v \<notin> (\<lambda>e. g (snd e)) ` set m" using new by force
    with 2 show ?thesis using "2.prems"(2) by auto
  next
    case 3
    then show ?thesis using "2.prems"(2,3) "2.IH" ok(1) g by auto
  qed
qed simp

definition catalogue_ok :: "manifest \<Rightarrow> bool" where
  "catalogue_ok m \<longleftrightarrow> manifest_wf m \<and> paths_unique m"

definition project_good :: "manifest_project \<Rightarrow> bool" where
  "project_good p \<longleftrightarrow> project_wf p \<and> distinct (map (\<lambda>e. me_path (snd e)) (mp_entries p))"

lemma catalogue_ok_iff:
  "catalogue_ok m \<longleftrightarrow> bt_ok (mf_projects m) \<and> (\<forall>e \<in> set (mf_projects m). project_ok (fst e) \<and> project_good (snd e))"
  by (auto simp: catalogue_ok_def manifest_wf_def paths_unique_def project_good_def list_all_iff)

lemma catalogue_get: "catalogue_ok m \<Longrightarrow> bt_get (mf_projects m) i = Some p \<Longrightarrow> project_ok i \<and> project_good p"
  using map_of_SomeD [of "mf_projects m" i p] by (force simp: catalogue_ok_iff bt_get_def)

lemma catalogue_insert:
  assumes "catalogue_ok m" "project_ok i" "project_good p"
  shows "catalogue_ok (m\<lparr>mf_projects := bt_insert i p (mf_projects m)\<rparr>)"
  using assms set_bt_insert [of i p "mf_projects m"] by (fastforce simp: catalogue_ok_iff bt_ok_insert)

lemma project_insert:
  assumes "project_good h" "entry_ok i" "me_path e \<notin> set (taken_paths h except)" "except = None \<or> except = Some i"
  shows "project_good (h\<lparr>mp_entries := bt_insert i e (mp_entries h)\<rparr>)"
proof -
  have "\<forall>(k', v') \<in> set (mp_entries h). k' \<noteq> i \<longrightarrow> me_path v' \<noteq> me_path e"
    using assms(3,4) by (force simp: taken_paths_def)
  then show ?thesis
    using assms(1,2) bt_insert_distinct [of "mp_entries h" me_path i e] set_bt_insert_keys [of i e "mp_entries h"]
    by (auto simp: project_good_def project_wf_def bt_ok_insert list_all_iff image_iff)
qed

lemma project_remove: "project_good p \<Longrightarrow> project_good (p\<lparr>mp_entries := bt_remove i (mp_entries p)\<rparr>)"
  using bt_ok_remove [of "mp_entries p" i]
  by (auto simp: project_good_def project_wf_def bt_remove_def list_all_iff distinct_map intro: inj_on_subset)

lemma catalogue_remove: "catalogue_ok m \<Longrightarrow> catalogue_ok (without_entry i m)"
proof -
  assume ok: "catalogue_ok m"
  have "map fst (mf_projects (without_entry i m)) = map fst (mf_projects m)"
    by (simp add: without_entry_def case_prod_unfold comp_def)
  with ok show ?thesis by (auto simp: catalogue_ok_iff bt_ok_def) (auto simp: without_entry_def project_remove)
qed

lemma save_manifest_same [simp]: "save_manifest P acc S = (S', t) \<Longrightarrow> vs_manifest S' = vs_manifest S"
  by (auto simp: save_manifest_def split: option.splits)

lemma insert_entry_catalogue:
  assumes "insert_entry P acc project relative S w = (e, S', t, w')" "catalogue_ok (vs_manifest S)"
  shows "catalogue_ok (vs_manifest S')"
proof -
  consider "vs_manifest S' = vs_manifest S"
    | h i where "bt_get (mf_projects (vs_manifest S)) project = Some h" "entry_ok i"
      "vs_manifest S' = vs_manifest (set_project project (h\<lparr>mp_entries := bt_insert i
         \<lparr>me_path = unique_path (vs_manifest S) project relative None, me_seq = 0\<rparr> (mp_entries h)\<rparr>) S)"
    using assms(1)
    by (auto simp: insert_entry_def Let_def dest: entry_generate_ok dest!: save_manifest_same split: prod.splits sum.splits option.splits)
  then show ?thesis
  proof cases
    case (2 h i)
    have "project_good (h\<lparr>mp_entries := bt_insert i \<lparr>me_path = unique_path (vs_manifest S) project relative None, me_seq = 0\<rparr> (mp_entries h)\<rparr>)"
      using project_insert [of h i _ None] catalogue_get [OF assms(2) 2(1)] 2(2) unique_path_free [OF 2(1)] by simp
    with 2 catalogue_get [OF assms(2) 2(1)] show ?thesis by (simp add: set_project_def catalogue_insert assms(2))
  qed (use assms(2) in simp)
qed

lemma rename_shape:
  assumes "rename_entry P acc entry wanted S = (b, S', t)"
  obtains (same) "vs_manifest S' = vs_manifest S"
  | (renamed) i h e where "bt_get (mf_projects (vs_manifest S)) i = Some h" "bt_get (mp_entries h) entry = Some e"
      "vs_manifest S' = vs_manifest (set_project i (h\<lparr>mp_entries := bt_insert entry
         (e\<lparr>me_path := unique_path (vs_manifest S) i (trim wanted) (Some entry)\<rparr>) (mp_entries h)\<rparr>) S)"
proof (cases "project_of (vs_manifest S) entry")
  case None
  with assms show thesis by (intro same) (auto simp: rename_entry_def Let_def split: if_splits)
next
  case (Some ix)
  obtain i x where ix: "ix = (i, x)" by force
  let ?u = "unique_path (vs_manifest S) i (trim wanted) (Some entry)"
  show thesis
  proof (cases "\<exists>h e. bt_get (mf_projects (vs_manifest S)) i = Some h \<and> bt_get (mp_entries h) entry = Some e \<and> me_path e \<noteq> ?u \<and>
      names_a_file_inside (trim wanted)")
    case True
    then obtain h e where he: "bt_get (mf_projects (vs_manifest S)) i = Some h" "bt_get (mp_entries h) entry = Some e"
      "me_path e \<noteq> ?u" "names_a_file_inside (trim wanted)" by blast
    let ?S = "set_project i (h\<lparr>mp_entries := bt_insert entry (e\<lparr>me_path := ?u\<rparr>) (mp_entries h)\<rparr>) S"
    have "save_manifest P acc ?S = (S', t)"
      using assms Some ix he by (simp add: rename_entry_def Let_def split: prod.splits)
    then have "vs_manifest S' = vs_manifest ?S" by (rule save_manifest_same)
    with he(1,2) show thesis by (rule renamed)
  next
    case False
    with assms Some ix show thesis
      by (intro same) (auto simp: rename_entry_def Let_def split: if_splits option.splits)
  qed
qed

lemma rename_entry_catalogue:
  assumes "rename_entry P acc entry wanted S = (b, S', t)" "catalogue_ok (vs_manifest S)"
  shows "catalogue_ok (vs_manifest S')"
  using assms(1)
proof (cases rule: rename_shape)
  case (renamed i h e)
  note good = catalogue_get [OF assms(2) renamed(1)]
  have "entry_ok entry" using good map_of_SomeD [of "mp_entries h" entry e] renamed(2)
    by (force simp: project_good_def project_wf_def list_all_iff bt_get_def)
  then have "project_good (h\<lparr>mp_entries := bt_insert entry
       (e\<lparr>me_path := unique_path (vs_manifest S) i (trim wanted) (Some entry)\<rparr>) (mp_entries h)\<rparr>)"
    using project_insert [of h entry _ "Some entry"] good unique_path_free [OF renamed(1)] by simp
  with renamed good show ?thesis by (simp add: set_project_def catalogue_insert assms(2))
qed (use assms(2) in simp)

lemma add_project_catalogue:
  assumes "add_project P acc name S w = (i, S', t, w')" "catalogue_ok (vs_manifest S)"
  shows "catalogue_ok (vs_manifest S')"
proof -
  have "project_good \<lparr>mp_name = name, mp_entries = []\<rparr>"
    by (simp add: project_good_def project_wf_def bt_ok_def)
  with assms show ?thesis
    by (auto simp: add_project_def set_project_def catalogue_insert dest: project_generate_ok dest!: save_manifest_same
        split: prod.splits sum.splits)
qed

lemma edit_manifest_same:
  "vault_bind P c project S w = (S', w') \<Longrightarrow> vs_manifest S' = vs_manifest S"
  "vault_prepare P acc e p S w = (S', w') \<Longrightarrow> vs_manifest S' = vs_manifest S"
  "vault_prepare_file P acc e f p S = (S', t) \<Longrightarrow> vs_manifest S' = vs_manifest S"
  "vault_send_prepared P acc e wire S = (S', t) \<Longrightarrow> vs_manifest S' = vs_manifest S"
  "vault_push P acc e p S = (S', t) \<Longrightarrow> vs_manifest S' = vs_manifest S"
  "vault_pull_file P acc e f p S = (S', t) \<Longrightarrow> vs_manifest S' = vs_manifest S"
  "load_vault P acc S = (S', t) \<Longrightarrow> vs_manifest S' = vs_manifest S"
  "vs_manifest (discard_prepared S) = vs_manifest S" "vs_manifest (acknowledge S) = vs_manifest S"
  "vs_manifest (snd (vault_dismiss S)) = vs_manifest S"
  by (auto simp: vault_bind_def vault_prepare_def vault_prepare_file_def vault_send_prepared_def vault_push_def vault_pull_file_def
      load_vault_def discard_prepared_def acknowledge_def vault_dismiss_def refuse_cases hold_prepared_def drop_stale_difference_def Let_def
      split: if_splits option.splits prod.splits sum.splits)

lemma apply_manifest_same: "vault_apply P S w = (b, S', t, w') \<Longrightarrow> vs_manifest S' = vs_manifest S"
  by (auto simp: vault_apply_def refuse_cases finish_apply_def Let_def split: if_splits option.splits prod.splits sum.splits)

lemma machine_manifest [simp]:
  "vs_manifest (em_session (detached M S ts w)) = vs_manifest S"
  "vs_manifest (em_session (in_task M r)) = vs_manifest (fst r)"
  by (auto simp: detached_def in_task_def split: prod.splits option.splits)

text \<open>C38. Editing the catalogue keeps it well-formed and its paths unique: after any operation of the
  session, adding files, renaming, adding projects and forgetting included, every identifier is whole
  and in order and no two files of one project are recorded under the same path, so no two pulls
  write to one file.\<close>

theorem catalogue_paths_stay_unique:
  assumes "manifest_wf (vs_manifest (em_session M))" "paths_unique (vs_manifest (em_session M))"
  shows "manifest_wf (vs_manifest (em_session (vault_act P acc a M))) \<and>
    paths_unique (vs_manifest (em_session (vault_act P acc a M)))"
proof -
  have ok: "catalogue_ok (vs_manifest (em_session M))" using assms by (simp add: catalogue_ok_def)
  have "catalogue_ok (vs_manifest (em_session (vault_act P acc a M)))"
  proof (cases a)
    case (SendPrepared e wire)
    then show ?thesis using ok edit_manifest_same(4) [of P acc e wire "em_session M"] by (metis machine_manifest(2) prod.collapse vault_act.simps(6))
  next
    case (PushFile e p)
    then show ?thesis using ok edit_manifest_same(5) [of P acc e p "em_session M"] by (metis machine_manifest(2) prod.collapse vault_act.simps(8))
  next
    case (PullFile e f p)
    then show ?thesis using ok edit_manifest_same(6) [of P acc e f p "em_session M"] by (metis machine_manifest(2) prod.collapse vault_act.simps(9))
  next
    case LoadVault
    then show ?thesis using ok edit_manifest_same(7) [of P acc "em_session M"] by (metis machine_manifest(2) prod.collapse vault_act.simps(13))
  next
    case (AddFileIn project c absolute)
    then show ?thesis using ok
      by (auto simp: add_file_in_def add_file_def dest!: insert_entry_catalogue split: prod.splits if_splits)
  qed (use ok in \<open>auto simp: edit_manifest_same add_file_def forget_entry_def catalogue_remove
        dest!: edit_manifest_same(1-3) insert_entry_catalogue rename_entry_catalogue add_project_catalogue apply_manifest_same
        save_manifest_same split: prod.splits option.splits\<close>)
  then show ?thesis by (simp add: catalogue_ok_def)
qed

definition signed_out :: "unit account" where
  "signed_out = \<lparr>acc_user = None, acc_context = (\<lambda>w. (None, w)),
     acc_paths = \<lparr>settings_file = [RootDir], settings_backup_file = [RootDir], keymap_file = [RootDir],
       keymap_backup_file = [RootDir], sync_state_file = [RootDir]\<rparr>\<rparr>"

definition example_machine :: "unit env_machine" where
  "example_machine =
     (let M = vault_start total_prims example_session_files (quiet_world ())
      in M\<lparr>em_session := (em_session M)\<lparr>vs_manifest := example_manifest ''.env''\<rparr>\<rparr>)"

theorem catalogue_paths_stay_unique_witness:
  "paths_unique (vs_manifest (em_session (vault_act total_prims signed_out (AddFile example_project ''/w/.env'') example_machine)))"
proof -
  have m: "vs_manifest (em_session example_machine) = example_manifest ''.env''" by (simp add: example_machine_def Let_def)
  have "manifest_wf (vs_manifest (em_session example_machine))" "paths_unique (vs_manifest (em_session example_machine))"
    unfolding m by (simp_all add: paths_unique_def example_manifest_def) (simp add: example_manifest_wf [unfolded example_manifest_def])
  from catalogue_paths_stay_unique [OF this] show ?thesis by blast
qed

section \<open>Where a stored path leads\<close>

text \<open>A recorded path that names a file inside leads below the bound checkout.\<close>

lemma local_path_inside:
  assumes "local_path_for S entry = Some p"
  obtains project holder e root where "project_of (vs_manifest S) entry = Some (project, holder)"
    "bt_get (mp_entries holder) entry = Some e" "root \<in> set (worktrees_for (vs_bindings S) project)"
    "p = path_join (components root) (components (me_path e))"
    "has_a_safe_path e \<Longrightarrow> p = components root @ components (me_path e)"
proof -
  from assms obtain project holder e root rest where x: "project_of (vs_manifest S) entry = Some (project, holder)"
    "bt_get (mp_entries holder) entry = Some e" "worktrees_for (vs_bindings S) project = root # rest"
    "p = path_join (components root) (components (me_path e))"
    by (auto simp: local_path_for_def split: option.splits list.splits)
  moreover have "has_a_safe_path e \<Longrightarrow> p = components root @ components (me_path e)"
    using x(4) by (simp add: has_a_safe_path_def path_join_normal)
  ultimately show thesis by (intro that) auto
qed

text \<open>But nothing checks it: an absolute path in a catalogue is where the file is read and written, on
  every machine that binds the project, wherever its checkout is.\<close>

lemma absolute_path_escapes:
  assumes "project_of (vs_manifest S) entry = Some (project, holder)" "bt_get (mp_entries holder) entry = Some e"
    and "is_absolute (components (me_path e))" "worktrees_for (vs_bindings S) project \<noteq> []"
  shows "local_path_for S entry = Some (components (me_path e))"
  using assms by (auto simp: local_path_for_def path_join_def split: list.splits)

section \<open>What a refused key and a conflict do\<close>

text \<open>A machine whose new key the service refused, because another machine had just stored one, keeps
  its own key, caches it and reports that environment sync is ready.\<close>

lemma refused_key_adopted:
  assumes "env_dek_generate w = (Inr k, w1)" "wrap_key P d (sc_user_id C) k w1 = (Inr wrapped, w2)"
    and "to_blob P wrapped = Inr blob" "resource_env_singleton ENV_KEY_RESOURCE = Inr resource"
    and "store P (sc_api C) resource blob Create w2 = (Inr (Conflict theirs), w3)"
    and "env_key_write (sc_user_id C) k w3 = (Inr (), w4)"
  shows "\<exists>ans. created_key P C d w = (Inr (), ans, w4) \<and> vs_dek (ans S) = Some k \<and>
    vs_status (ans S) = EnvDone ''environment sync is ready''"
  using assms by (simp add: created_key_def io_bind_apply io_map_err_apply vault_set_status_def)

text \<open>A conflicting push shows the stored version whatever this machine has already seen, and applying a
  held difference records its version whatever was on record: together an older version replaces a
  newer one, which a pull would have answered as a rollback.\<close>

lemma conflict_offers_any_version:
  assumes "from_blob P (doc_blob d) = Inr e" "env_open P k (sc_user_id C) res None e = Inr x" "from_utf8 (op_payload x) = Some t"
  obtains dv w' where "send_outcome P C k res p sp (Conflict d) w = (Inr (EnvPushConflict dv), w')"
    "ed_seq dv = op_seq x" "ed_remote dv = t"
proof -
  obtain s where "env_state_load P sp w = (Inr s :: env_sync_error + env_state, advance w)" by (rule env_state_load_total)
  with assms show thesis by (intro that) (auto simp: send_outcome_def io_bind_apply opened_text_def)
qed

lemma apply_records_its_version:
  assumes "apply_remote_if_unchanged P entry lp seen root remote revision seq sp w = (Inr (), w')"
    and "honest_fs w" "file_at lp w = Some old" "json_ok P" "named_path sp"
  shows "seen_seq (env_state_at P sp w') entry = Some seq"
  using assms(1-3)
proof (cases rule: apply_steps)
  case (replace w1 p w2 x w3)
  then have "record_applied P entry remote revision seq sp w3 = (Inr (), w')" by (cases x) auto
  from record_applied_effect(2) [OF this assms(4,5)] show ?thesis by (simp add: seen_seq_def)
qed auto

end
