(* ===== verification/Relay_Frame.thy ===== *)
theory Relay_Frame
  imports Rust_Std
begin

text \<open>
  The framing of \<^verbatim>\<open>remote_relay_protocol\<close> (\<^verbatim>\<open>frame.rs\<close>): the outer frame the relay server sees, a
  session number and bytes it cannot read; the inner frame inside the encrypted channel, a control
  message on stream 0 or data on a numbered stream; and the cutting of a stream into data frames.
  Both frames are strict codecs: what is built reads back, and nothing but an encoding is read.
  A \<^verbatim>\<open>usize\<close> length is a \<open>nat\<close>.
\<close>

section \<open>Limits\<close>

definition MAX_NOISE_MESSAGE_LEN :: nat where
  "MAX_NOISE_MESSAGE_LEN = 65535"

definition MAX_INNER_FRAME_LEN :: nat where
  "MAX_INNER_FRAME_LEN = 60 * 1024"

definition INNER_HEADER_LEN :: nat where
  "INNER_HEADER_LEN = 5"

definition MAX_INNER_PAYLOAD_LEN :: nat where
  "MAX_INNER_PAYLOAD_LEN = MAX_INNER_FRAME_LEN - INNER_HEADER_LEN"

definition RELAY_HEADER_LEN :: nat where
  "RELAY_HEADER_LEN = 4"

definition MAX_RELAY_PAYLOAD_LEN :: nat where
  "MAX_RELAY_PAYLOAD_LEN = MAX_NOISE_MESSAGE_LEN"

lemmas frame_limits =
  MAX_NOISE_MESSAGE_LEN_def MAX_INNER_FRAME_LEN_def INNER_HEADER_LEN_def MAX_INNER_PAYLOAD_LEN_def
  RELAY_HEADER_LEN_def MAX_RELAY_PAYLOAD_LEN_def

section \<open>Errors\<close>

datatype frame_error =
    Truncated (truncated_actual: nat) (truncated_needed: nat)
  | EmptyPayload
  | FrameTooLarge (too_large_actual: nat) (too_large_limit: nat)
  | UnknownKind u8
  | InvalidStream string

fun frame_display :: "frame_error \<Rightarrow> string" where
  "frame_display (Truncated actual needed) =
     ''frame is '' @ nat_str actual @ '' bytes, shorter than its '' @ nat_str needed @ ''-byte header''"
| "frame_display EmptyPayload = ''frame carries no payload''"
| "frame_display (FrameTooLarge actual limit) =
     ''payload is '' @ nat_str actual @ '' bytes, over the '' @ nat_str limit @ ''-byte limit''"
| "frame_display (UnknownKind kind) = ''unknown inner frame kind '' @ nat_str (unat kind)"
| "frame_display (InvalidStream what) = what"

section \<open>Relay frames\<close>

record relay_frame =
  rf_session_id :: u32
  rf_payload :: bytes

definition encode_relay_frame :: "u32 \<Rightarrow> bytes \<Rightarrow> frame_error + bytes" where
  "encode_relay_frame session_id payload =
     (if payload = [] then Inl EmptyPayload
      else if MAX_RELAY_PAYLOAD_LEN < length payload
      then Inl (FrameTooLarge (length payload) MAX_RELAY_PAYLOAD_LEN)
      else Inr (u32_to_be_bytes session_id @ payload))"

definition decode_relay_frame :: "bytes \<Rightarrow> frame_error + relay_frame" where
  "decode_relay_frame bs =
     (case split_first_chunk RELAY_HEADER_LEN bs of
        None \<Rightarrow> Inl (Truncated (length bs) RELAY_HEADER_LEN)
      | Some (header, payload) \<Rightarrow>
          if payload = [] then Inl EmptyPayload
          else if MAX_RELAY_PAYLOAD_LEN < length payload
          then Inl (FrameTooLarge (length payload) MAX_RELAY_PAYLOAD_LEN)
          else Inr \<lparr>rf_session_id = u32_from_be_bytes header, rf_payload = payload\<rparr>)"

section \<open>Inner frames\<close>

datatype inner_kind = InnerControl | InnerData

fun kind_byte :: "inner_kind \<Rightarrow> u8" where
  "kind_byte InnerControl = 0"
| "kind_byte InnerData = 1"

definition kind_from_byte :: "u8 \<Rightarrow> frame_error + inner_kind" where
  "kind_from_byte b = (if b = 0 then Inr InnerControl else if b = 1 then Inr InnerData else Inl (UnknownKind b))"

record inner_frame =
  if_kind :: inner_kind
  if_stream_id :: u32
  if_payload :: bytes

definition inner_validated :: "inner_kind \<Rightarrow> u32 \<Rightarrow> bytes \<Rightarrow> frame_error + inner_frame" where
  "inner_validated kind stream_id payload =
     (if kind = InnerControl \<and> stream_id \<noteq> 0 then Inl (InvalidStream ''control frames use stream 0'')
      else if kind = InnerControl \<and> payload = [] then Inl EmptyPayload
      else if kind = InnerData \<and> stream_id = 0
      then Inl (InvalidStream ''stream 0 is reserved for control frames'')
      else if MAX_INNER_PAYLOAD_LEN < length payload
      then Inl (FrameTooLarge (length payload) MAX_INNER_PAYLOAD_LEN)
      else Inr \<lparr>if_kind = kind, if_stream_id = stream_id, if_payload = payload\<rparr>)"

definition inner_control :: "bytes \<Rightarrow> frame_error + inner_frame" where
  "inner_control payload = inner_validated InnerControl 0 payload"

definition inner_data :: "u32 \<Rightarrow> bytes \<Rightarrow> frame_error + inner_frame" where
  "inner_data stream_id payload = inner_validated InnerData stream_id payload"

definition end_of_stream :: "u32 \<Rightarrow> frame_error + inner_frame" where
  "end_of_stream stream_id = inner_validated InnerData stream_id []"

definition encode_inner_frame :: "inner_frame \<Rightarrow> bytes" where
  "encode_inner_frame f = kind_byte (if_kind f) # u32_to_be_bytes (if_stream_id f) @ if_payload f"

definition decode_inner_frame :: "bytes \<Rightarrow> frame_error + inner_frame" where
  "decode_inner_frame bs =
     (case bs of
        [] \<Rightarrow> Inl (Truncated 0 INNER_HEADER_LEN)
      | kind # rest \<Rightarrow>
          (case split_first_chunk 4 rest of
             None \<Rightarrow> Inl (Truncated (length bs) INNER_HEADER_LEN)
           | Some (stream_id, payload) \<Rightarrow>
               bind_res (kind_from_byte kind) (\<lambda>kind.
               inner_validated kind (u32_from_be_bytes stream_id) payload)))"

definition split_data :: "u32 \<Rightarrow> bytes \<Rightarrow> frame_error + inner_frame list" where
  "split_data stream_id data =
     collect_ok (\<lambda>chunk. inner_data stream_id chunk) (chunks MAX_INNER_PAYLOAD_LEN data)"

section \<open>What a frame promises\<close>

definition relay_frame_ok :: "relay_frame \<Rightarrow> bool" where
  "relay_frame_ok f \<longleftrightarrow> rf_payload f \<noteq> [] \<and> length (rf_payload f) \<le> MAX_RELAY_PAYLOAD_LEN"

definition inner_frame_ok :: "inner_frame \<Rightarrow> bool" where
  "inner_frame_ok f \<longleftrightarrow>
     length (if_payload f) \<le> MAX_INNER_PAYLOAD_LEN \<and>
     (case if_kind f of
        InnerControl \<Rightarrow> if_stream_id f = 0 \<and> if_payload f \<noteq> []
      | InnerData \<Rightarrow> if_stream_id f \<noteq> 0)"

lemma kind_round_trip [simp]: "kind_from_byte (kind_byte k) = Inr k"
  by (cases k) (simp_all add: kind_from_byte_def)

lemma kind_from_byte_Inr: "kind_from_byte b = Inr k \<longleftrightarrow> b = kind_byte k"
  by (cases k) (auto simp: kind_from_byte_def)

lemma inner_validated_Inr:
  "inner_validated k s p = Inr f \<longleftrightarrow>
     f = \<lparr>if_kind = k, if_stream_id = s, if_payload = p\<rparr> \<and> inner_frame_ok f"
  by (cases k) (auto simp: inner_validated_def inner_frame_ok_def)

lemma length_encode_inner_frame [simp]:
  "length (encode_inner_frame f) = INNER_HEADER_LEN + length (if_payload f)"
  by (simp add: encode_inner_frame_def INNER_HEADER_LEN_def)

lemma inner_frame_fits: "inner_frame_ok f \<Longrightarrow> length (encode_inner_frame f) \<le> MAX_INNER_FRAME_LEN"
  by (simp add: inner_frame_ok_def frame_limits)

interpretation relay_codec:
  codec "\<lambda>f. u32_to_be_bytes (rf_session_id f) @ rf_payload f" "\<lambda>b. ok (decode_relay_frame b)" relay_frame_ok
proof
  fix f assume "relay_frame_ok f"
  then show "ok (decode_relay_frame (u32_to_be_bytes (rf_session_id f) @ rf_payload f)) = Some f"
    by (simp add: decode_relay_frame_def relay_frame_ok_def RELAY_HEADER_LEN_def)
next
  fix b f assume "ok (decode_relay_frame b) = Some f"
  then show "relay_frame_ok f \<and> u32_to_be_bytes (rf_session_id f) @ rf_payload f = b"
    by (auto simp: decode_relay_frame_def relay_frame_ok_def RELAY_HEADER_LEN_def split_first_chunk_Some
        split: option.splits if_splits)
qed

interpretation inner_codec:
  codec encode_inner_frame "\<lambda>b. ok (decode_inner_frame b)" inner_frame_ok
proof
  fix f assume "inner_frame_ok f"
  then show "ok (decode_inner_frame (encode_inner_frame f)) = Some f"
    by (simp add: decode_inner_frame_def encode_inner_frame_def inner_validated_Inr)
next
  fix b f assume "ok (decode_inner_frame b) = Some f"
  then show "inner_frame_ok f \<and> encode_inner_frame f = b"
    by (auto simp: decode_inner_frame_def encode_inner_frame_def inner_validated_Inr bind_res_eq_Inr
        kind_from_byte_Inr split_first_chunk_Some split: option.splits list.splits)
qed

lemma encode_relay_frame_Inr:
  "encode_relay_frame s p = Inr b \<longleftrightarrow>
     relay_frame_ok \<lparr>rf_session_id = s, rf_payload = p\<rparr> \<and> b = u32_to_be_bytes s @ p"
  by (auto simp: encode_relay_frame_def relay_frame_ok_def)

lemma decode_inner_iff: "decode_inner_frame b = Inr f \<longleftrightarrow> inner_frame_ok f \<and> b = encode_inner_frame f"
  using inner_codec.dec_iff [of b f] by simp

lemma collect_ok_map: "(\<And>x. x \<in> set xs \<Longrightarrow> f x = Inr (g x)) \<Longrightarrow> collect_ok f xs = Inr (map g xs)"
  by (induction xs) simp_all

text \<open>Cutting a stream: on a numbered stream it never fails, and the frames are the pieces.\<close>

lemma split_data_eq:
  assumes "stream_id \<noteq> 0"
  shows "split_data stream_id data =
     Inr (map (\<lambda>c. \<lparr>if_kind = InnerData, if_stream_id = stream_id, if_payload = c\<rparr>)
       (chunks MAX_INNER_PAYLOAD_LEN data))"
  unfolding split_data_def
  by (rule collect_ok_map)
    (use assms in \<open>auto simp: inner_data_def inner_validated_Inr inner_frame_ok_def dest: chunks_bounds\<close>)

lemma split_data_reserved: "split_data 0 data = (if data = [] then Inr [] else Inl (InvalidStream ''stream 0 is reserved for control frames''))"
  by (simp add: split_data_def inner_data_def inner_validated_def chunks.simps [of _ data] frame_limits)

end
