(* ===== verification/Relay_Keys.thy ===== *)
theory Relay_Keys
  imports World Relay_Frame
begin

text \<open>
  The first half of \<^verbatim>\<open>remote_relay_protocol\<close>'s \<^verbatim>\<open>noise_session.rs\<close>: the check that refuses a
  low-order public key, the errors of the encrypted channel, a device's key pair, and the prologue
  that binds a handshake to one account and two devices.
\<close>

section \<open>Public keys\<close>

definition KEY_LEN :: nat where
  "KEY_LEN = 32"

definition FIELD_SEPARATOR :: u8 where
  "FIELD_SEPARATOR = 0x1F"

definition prime_plus :: "u8 \<Rightarrow> bytes" where
  "prime_plus first_byte = ((replicate KEY_LEN 0xff)[0 := first_byte])[KEY_LEN - 1 := 0x7f]"

definition SMALL_ORDER_KEYS :: "bytes list" where
  "SMALL_ORDER_KEYS =
     [replicate KEY_LEN 0,
      (replicate KEY_LEN 0)[0 := 1],
      [0xe0, 0xeb, 0x7a, 0x7c, 0x3b, 0x41, 0xb8, 0xae, 0x16, 0x56, 0xe3, 0xfa, 0xf1, 0x9f, 0xc4,
       0x6a, 0xda, 0x09, 0x8d, 0xeb, 0x9c, 0x32, 0xb1, 0xfd, 0x86, 0x62, 0x05, 0x16, 0x5f, 0x49,
       0xb8, 0x00],
      [0x5f, 0x9c, 0x95, 0xbc, 0xa3, 0x50, 0x8c, 0x24, 0xb1, 0xd0, 0xb1, 0x55, 0x9c, 0x83, 0xef,
       0x5b, 0x04, 0x44, 0x5c, 0xc4, 0x58, 0x1c, 0x8e, 0x86, 0xd8, 0x22, 0x4e, 0xdd, 0xd0, 0x9f,
       0x11, 0x57],
      prime_plus 0xec, prime_plus 0xed, prime_plus 0xee]"

definition is_low_order_public_key :: "bytes \<Rightarrow> bool" where
  "is_low_order_public_key public_key =
     (public_key[KEY_LEN - 1 := public_key ! (KEY_LEN - 1) AND 0x7f] \<in> set SMALL_ORDER_KEYS)"

section \<open>Errors\<close>

datatype noise_error =
    NoiseSnow string
  | InvalidIdentity string
  | InvalidKeyLength nat
  | NoiseTooLarge nat nat
  | NoiseExhausted
  | NoiseClosed
  | HandshakeFailed
  | NoiseLowOrderKey
  | NoiseFrame frame_error

fun noise_display :: "noise_error \<Rightarrow> string" where
  "noise_display (NoiseSnow e) = ''noise: '' @ e"
| "noise_display (InvalidIdentity field) = field @ '' must be non-empty and must not contain a unit separator''"
| "noise_display (InvalidKeyLength n) = ''a key must be '' @ nat_str KEY_LEN @ '' bytes, found '' @ nat_str n"
| "noise_display (NoiseTooLarge actual limit) =
     ''message is '' @ nat_str actual @ '' bytes, over the '' @ nat_str limit @ ''-byte limit''"
| "noise_display NoiseExhausted = ''the session has sent or received its maximum number of messages''"
| "noise_display NoiseClosed = ''the session failed to authenticate a message and is closed''"
| "noise_display HandshakeFailed = ''the handshake failed and cannot be continued''"
| "noise_display NoiseLowOrderKey = ''a low-order public key was presented''"
| "noise_display (NoiseFrame e) = frame_display e"

section \<open>Device keys\<close>

record device_keypair =
  dk_private :: bytes
  dk_public :: bytes

definition key_from_slice :: "bytes \<Rightarrow> noise_error + bytes" where
  "key_from_slice bs = (if length bs = KEY_LEN then Inr bs else Inl (InvalidKeyLength (length bs)))"

text \<open>What \<^verbatim>\<open>snow\<close>'s random number generator hands it: \<open>None\<close> when the system refused.\<close>

definition snow_random :: "('w world, 'e, bytes option) io" where
  "snow_random = io_case (random_fill KEY_LEN) (\<lambda>r. io_ok (ok r))"

definition device_generate :: "prims \<Rightarrow> ('w world, noise_error, device_keypair) io" where
  "device_generate P =
     io_bind snow_random (\<lambda>seed.
     io_res (
       bind_res (map_err NoiseSnow (noise_keypair P seed)) (\<lambda>(private, public).
       bind_res (key_from_slice private) (\<lambda>private.
       bind_res (key_from_slice public) (\<lambda>public.
       Inr \<lparr>dk_private = private, dk_public = public\<rparr>)))))"

text \<open>\<^verbatim>\<open>x25519_public\<close> is \<^verbatim>\<open>snow\<close>'s resolver and its scalar multiplication.\<close>

definition device_from_private_key :: "prims \<Rightarrow> bytes \<Rightarrow> noise_error + device_keypair" where
  "device_from_private_key P private_key =
     bind_res (map_err NoiseSnow (x25519_public P private_key)) (\<lambda>public.
     bind_res (key_from_slice public) (\<lambda>public.
     Inr \<lparr>dk_private = private_key, dk_public = public\<rparr>))"

definition device_from_parts :: "bytes \<Rightarrow> bytes \<Rightarrow> device_keypair" where
  "device_from_parts private_key public_key = \<lparr>dk_private = private_key, dk_public = public_key\<rparr>"

definition RELAY_PROLOGUE_LABEL :: string where
  "RELAY_PROLOGUE_LABEL = ''zode-remote/1''"

text \<open>The bytes both sides must agree on before any key is derived.\<close>

definition identity_field :: "string \<Rightarrow> string \<Rightarrow> bytes \<Rightarrow> noise_error + bytes" where
  "identity_field field value bs =
     (if value = [] \<or> FIELD_SEPARATOR \<in> set (as_bytes value) then Inl (InvalidIdentity field)
      else Inr (bs @ FIELD_SEPARATOR # as_bytes value))"

definition build_prologue :: "string \<Rightarrow> string \<Rightarrow> string \<Rightarrow> noise_error + bytes" where
  "build_prologue user_id initiator_device_id responder_device_id =
     bind_res (identity_field ''user id'' user_id (as_bytes RELAY_PROLOGUE_LABEL)) (\<lambda>bs.
     bind_res (identity_field ''initiator device id'' initiator_device_id bs) (\<lambda>bs.
     identity_field ''responder device id'' responder_device_id bs))"

end
