(* ===== verification/Team_Keys.thy ===== *)
theory Team_Keys
  imports Total_Reference Relay_Keys
begin

text \<open>
  The keys of \<^verbatim>\<open>zode_team_vault\<close>: its errors (\<^verbatim>\<open>zode_team_vault.rs\<close>), the member's sharing key
  pair and its fingerprint (\<^verbatim>\<open>sharing_key.rs\<close>, over the \<^verbatim>\<open>DeviceKeypair\<close> and the low-order check of
  \<open>Relay_Keys\<close>), and the team key, its keyring and the envelope that carries it from
  one member to another (\<^verbatim>\<open>team_key.rs\<close>). The Noise \<^verbatim>\<open>X\<close> handshake of the \<^verbatim>\<open>snow\<close> crate is a
  parameter; what is shown of an envelope is that its prologue names exactly one team, recipient
  and version, that what was wrapped unwraps, and that a key is handed out only when the sealer is
  the expected one.
\<close>

section \<open>Fingerprints\<close>

definition FINGERPRINT_LEN :: nat where
  "FINGERPRINT_LEN = 16"

datatype fingerprint = Fingerprint (fp_bytes: bytes)

definition fingerprint_of :: "prims \<Rightarrow> bytes \<Rightarrow> fingerprint" where
  "fingerprint_of P public_key = Fingerprint (take FINGERPRINT_LEN (sha256 P public_key))"

definition fingerprint_hex :: "fingerprint \<Rightarrow> string" where
  "fingerprint_hex f = id_hex (fp_bytes f)"

definition fingerprint_hex_value :: "u8 \<Rightarrow> u8 option" where
  "fingerprint_hex_value b =
     (if 48 \<le> b \<and> b \<le> 57 then Some (b - 48)
      else if 97 \<le> b \<and> b \<le> 102 then Some (b - 97 + 10)
      else None)"

fun fingerprint_pairs :: "bytes \<Rightarrow> bytes option" where
  "fingerprint_pairs (h # l # rest) =
     (case fingerprint_hex_value h of
        None \<Rightarrow> None
      | Some high \<Rightarrow>
          (case fingerprint_hex_value l of
             None \<Rightarrow> None
           | Some low \<Rightarrow> map_option (\<lambda>bs. (push_bit 4 high OR low) # bs) (fingerprint_pairs rest)))"
| "fingerprint_pairs bs = Some []"

definition fingerprint_from_hex :: "string \<Rightarrow> fingerprint option" where
  "fingerprint_from_hex raw =
     (if length raw \<noteq> FINGERPRINT_LEN * 2 then None
      else map_option Fingerprint (fingerprint_pairs (as_bytes raw)))"

text \<open>Eight groups of four digits, for reading aloud.\<close>

fun fingerprint_groups :: "bytes \<Rightarrow> string list" where
  "fingerprint_groups (a # b # rest) = id_hex [a, b] # fingerprint_groups rest"
| "fingerprint_groups bs = []"

fun join_with_spaces :: "string list \<Rightarrow> string" where
  "join_with_spaces [] = []"
| "join_with_spaces [s] = s"
| "join_with_spaces (s # rest) = s @ '' '' @ join_with_spaces rest"

definition fingerprint_display :: "fingerprint \<Rightarrow> string" where
  "fingerprint_display f = join_with_spaces (fingerprint_groups (fp_bytes f))"

section \<open>Errors\<close>

datatype team_crypto_error =
    TeamWrongKey
  | TeamKeyRotated
  | WrapperMismatch fingerprint fingerprint
  | LowOrderKey
  | TeamRollback u64 u64
  | KeyVersionRollback u32 u32
  | KeyVersionMismatch u32 u32
  | TeamMalformed string
  | TeamTooLarge nat nat

fun team_crypto_display :: "team_crypto_error \<Rightarrow> string" where
  "team_crypto_display TeamWrongKey = ''this team data does not open with the keys on this machine''"
| "team_crypto_display TeamKeyRotated =
     ''this entry was sealed under a different team key '' @ string_of_chars [8212] @
     '' the team key was probably rotated''"
| "team_crypto_display (WrapperMismatch expected found) =
     ''the team key was sealed by a key ('' @ fingerprint_display found @
     '') that is not the one pinned for that member ('' @ fingerprint_display expected @ ''), so it was not used''"
| "team_crypto_display LowOrderKey = ''a public key that offers no secrecy was refused''"
| "team_crypto_display (TeamRollback seen got) =
     ''the server offered version '' @ nat_str (unat got) @
     '' of this entry, but this machine has already seen version '' @ nat_str (unat seen)"
| "team_crypto_display (KeyVersionRollback seen got) =
     ''the server named team key version '' @ nat_str (unat got) @
     '', but this machine has already seen version '' @ nat_str (unat seen)"
| "team_crypto_display (KeyVersionMismatch listed sealed) =
     ''this entry is listed under team key version '' @ nat_str (unat listed) @
     '' but was sealed under '' @ nat_str (unat sealed)"
| "team_crypto_display (TeamMalformed reason) = ''this is not Zode team data: '' @ reason"
| "team_crypto_display (TeamTooLarge n limit) =
     ''this entry is '' @ nat_str n @ '' bytes; the limit is '' @ nat_str limit"

fun team_of_crypto :: "sync_crypto_error \<Rightarrow> team_crypto_error" where
  "team_of_crypto WrongKey = TeamWrongKey"
| "team_of_crypto (KeyRotated theirs ours) = TeamKeyRotated"
| "team_of_crypto (UnsupportedVersion v) =
     TeamMalformed (''envelope format '' @ nat_str (unat v) @ '' is not supported'')"
| "team_of_crypto (Malformed reason) = TeamMalformed reason"

fun team_of_env :: "env_crypto_error \<Rightarrow> team_crypto_error" where
  "team_of_env EnvWrongKey = TeamWrongKey"
| "team_of_env (EnvKeyRotated theirs ours) = TeamKeyRotated"
| "team_of_env (EnvRollback seen got) = TeamRollback seen got"
| "team_of_env (EnvUnsupportedVersion v) = TeamMalformed (''format '' @ nat_str (unat v) @ '' is not supported'')"
| "team_of_env (EnvMalformed reason) = TeamMalformed reason"
| "team_of_env (EnvTooLarge n limit) = TeamTooLarge n limit"

datatype team_vault_error =
    TeamCrypto team_crypto_error
  | TeamClient client_error
  | KeyChanged string
  | NotPinned string
  | NoSharingKey string
  | NoTeamKey
  | SharingKeyUnreadable
  | KeyVersionStale
  | TeamConflict
  | TeamStorage string

fun team_vault_display :: "team_vault_error \<Rightarrow> string" where
  "team_vault_display (TeamCrypto e) = team_crypto_display e"
| "team_vault_display (TeamClient e) =
     (if e = Rejected ''billing_disabled''
      then ''team sharing is not available on Zode's service right now''
      else if e = Rejected ''admin_required'' then ''only a team owner or admin can do this''
      else client_display e)"
| "team_vault_display (KeyChanged user_id) =
     ''the sharing key of member '' @ user_id @
     '' changed since it was first seen; check it with them before granting''"
| "team_vault_display (NotPinned user_id) =
     ''the sharing key of member '' @ user_id @
     '' is not verified on this machine; compare its fingerprint with them, then trust it in the members window''"
| "team_vault_display (NoSharingKey user_id) =
     ''member '' @ user_id @ '' has not opened team sharing in Zode yet''"
| "team_vault_display NoTeamKey = ''this machine does not hold the team key yet''"
| "team_vault_display SharingKeyUnreadable =
     ''your sharing key was sealed under a different recovery key than the one on this machine''"
| "team_vault_display KeyVersionStale =
     ''the team key was rotated since this list was loaded; refresh and try again''"
| "team_vault_display TeamConflict = ''someone else changed this entry first''"
| "team_vault_display (TeamStorage detail) = ''the local team trust record: '' @ detail"

section \<open>The sharing key pair\<close>

type_synonym sharing_keypair = device_keypair

definition sharing_generate :: "prims \<Rightarrow> ('w world, team_crypto_error, sharing_keypair) io" where
  "sharing_generate P = io_map_err (\<lambda>e. TeamMalformed (noise_display e)) (device_generate P)"

definition sharing_from_private_key :: "prims \<Rightarrow> bytes \<Rightarrow> team_crypto_error + sharing_keypair" where
  "sharing_from_private_key P private_key =
     bind_res (map_err (\<lambda>e. TeamMalformed (noise_display e)) (device_from_private_key P private_key)) (\<lambda>keypair.
     if is_low_order_public_key (dk_public keypair) then Inl LowOrderKey else Inr keypair)"

definition sharing_fingerprint :: "prims \<Rightarrow> sharing_keypair \<Rightarrow> fingerprint" where
  "sharing_fingerprint P me = fingerprint_of P (dk_public me)"

definition encode_public_key :: "prims \<Rightarrow> bytes \<Rightarrow> string" where
  "encode_public_key P public_key = b64url_encode P public_key"

definition decode_public_key :: "prims \<Rightarrow> string \<Rightarrow> team_crypto_error + bytes" where
  "decode_public_key P encoded =
     bind_res (ok_or (TeamMalformed ''a public key is 32 bytes of base64url'')
       (case b64url_decode P encoded of
          Some bs \<Rightarrow> if length bs = KEY_LEN then Some bs else None
        | None \<Rightarrow> None)) (\<lambda>public_key.
     if is_low_order_public_key public_key then Inl LowOrderKey else Inr public_key)"

definition seal_private_key ::
    "prims \<Rightarrow> dek \<Rightarrow> string \<Rightarrow> sharing_keypair \<Rightarrow> ('w world, team_crypto_error, envelope) io" where
  "seal_private_key P d user_id keypair =
     io_map_err team_of_crypto (encrypt_at P d user_id resource_sharing_key (dk_private keypair))"

definition open_private_key :: "prims \<Rightarrow> dek \<Rightarrow> string \<Rightarrow> envelope \<Rightarrow> team_crypto_error + sharing_keypair" where
  "open_private_key P d user_id envelope =
     bind_res (map_err team_of_crypto (decrypt_at P d user_id resource_sharing_key envelope)) (\<lambda>bs.
     if length bs \<noteq> KEY_LEN
     then Inl (TeamMalformed (''the sealed sharing key is '' @ nat_str (length bs) @ '' bytes, not '' @ nat_str KEY_LEN))
     else sharing_from_private_key P bs)"

section \<open>The team key and its keyring\<close>

definition TEAM_KEY_LEN :: nat where
  "TEAM_KEY_LEN = DEK_LEN"

definition WRAPPED_KEY_LEN :: nat where
  "WRAPPED_KEY_LEN = 128"

record team_key =
  tk_bytes :: bytes

definition team_key_generate :: "('w world, team_crypto_error, team_key) io" where
  "team_key_generate =
     io_bind (io_map_err (\<lambda>_. TeamMalformed ''no randomness available'') (random_fill TEAM_KEY_LEN)) (\<lambda>bs.
     io_ok \<lparr>tk_bytes = bs\<rparr>)"

definition team_kid :: "prims \<Rightarrow> team_key \<Rightarrow> bytes" where
  "team_kid P k = take KID_LEN (sha256 P (tk_bytes k))"

definition team_as_dek :: "team_key \<Rightarrow> dek" where
  "team_as_dek k = \<lparr>dek_bytes = tk_bytes k\<rparr>"

type_synonym team_keyring = "(u32, team_key) btree"

definition keyring_insert :: "u32 \<Rightarrow> team_key \<Rightarrow> team_keyring \<Rightarrow> team_keyring" where
  "keyring_insert key_version key r = bt_insert key_version key r"

definition keyring_get :: "team_keyring \<Rightarrow> u32 \<Rightarrow> team_key option" where
  "keyring_get r key_version = bt_get r key_version"

definition keyring_current :: "team_keyring \<Rightarrow> (u32 \<times> team_key) option" where
  "keyring_current r = (if r = [] then None else Some (last r))"

definition keyring_versions :: "team_keyring \<Rightarrow> u32 list" where
  "keyring_versions r = map fst r"

section \<open>Envelopes\<close>

record envelope_ids =
  ei_team_id :: string
  ei_recipient_user_id :: string
  ei_key_version :: u32

definition PROLOGUE_LABEL :: string where
  "PROLOGUE_LABEL = ''zode-team-key-v1''"

text \<open>One turn of the loop over the two identities.\<close>

definition prologue_field :: "string \<Rightarrow> string \<Rightarrow> bytes \<Rightarrow> team_crypto_error + bytes" where
  "prologue_field field value bs =
     (if value = [] \<or> FIELD_SEPARATOR \<in> set (as_bytes value)
      then Inl (TeamMalformed (field @ '' must be non-empty and free of separators''))
      else Inr (bs @ FIELD_SEPARATOR # as_bytes value))"

definition prologue :: "envelope_ids \<Rightarrow> team_crypto_error + bytes" where
  "prologue ids =
     (if ei_key_version ids = 0 then Inl (TeamMalformed ''team key versions start at 1'')
      else
        bind_res (prologue_field ''team id'' (ei_team_id ids) (as_bytes PROLOGUE_LABEL)) (\<lambda>bs.
        bind_res (prologue_field ''recipient user id'' (ei_recipient_user_id ids) bs) (\<lambda>bs.
        Inr (bs @ FIELD_SEPARATOR # as_bytes (nat_str (unat (ei_key_version ids)))))))"

definition noise_malformed :: "string \<Rightarrow> team_crypto_error" where
  "noise_malformed e = TeamMalformed (''noise: '' @ e)"

definition wrap ::
    "prims \<Rightarrow> sharing_keypair \<Rightarrow> bytes \<Rightarrow> envelope_ids \<Rightarrow> team_key \<Rightarrow> ('w world, team_crypto_error, bytes) io" where
  "wrap P wrapper recipient_public_key ids team_key =
     (if is_low_order_public_key recipient_public_key then io_err LowOrderKey
      else
        io_bind (io_res (prologue ids)) (\<lambda>prologue.
        io_bind snow_random (\<lambda>ephemeral.
        io_bind (io_res (map_err noise_malformed
          (noise_x_seal P ephemeral (dk_private wrapper) prologue recipient_public_key (tk_bytes team_key)))) (\<lambda>message.
        if length message \<noteq> WRAPPED_KEY_LEN
        then io_err (TeamMalformed (''an envelope is '' @ nat_str WRAPPED_KEY_LEN @ '' bytes, this one came out '' @
               nat_str (length message)))
        else io_ok message))))"

definition unwrap ::
    "prims \<Rightarrow> sharing_keypair \<Rightarrow> bytes \<Rightarrow> envelope_ids \<Rightarrow> fingerprint \<Rightarrow> team_crypto_error + team_key" where
  "unwrap P me wrapped ids expected_wrapper =
     (if length wrapped \<noteq> WRAPPED_KEY_LEN
      then Inl (TeamMalformed (''an envelope is '' @ nat_str WRAPPED_KEY_LEN @ '' bytes, this one is '' @
             nat_str (length wrapped)))
      else if is_low_order_public_key (take KEY_LEN wrapped) then Inl LowOrderKey
      else
        bind_res (prologue ids) (\<lambda>prologue.
        bind_res (map_err noise_malformed (noise_x_open P (dk_private me) prologue wrapped)) (\<lambda>read.
        case read of
          None \<Rightarrow> Inl TeamWrongKey
        | Some (payload, remote_static, finished) \<Rightarrow>
            if \<not> finished then Inl (TeamMalformed ''the envelope is incomplete'')
            else
              bind_res (ok_or (TeamMalformed ''the envelope names no sealer'')
                (case remote_static of
                   Some key \<Rightarrow> if length key = KEY_LEN then Some key else None
                 | None \<Rightarrow> None)) (\<lambda>wrapper_key.
              if is_low_order_public_key wrapper_key then Inl LowOrderKey
              else
                let found = fingerprint_of P wrapper_key in
                if found \<noteq> expected_wrapper then Inl (WrapperMismatch expected_wrapper found)
                else if length payload \<noteq> TEAM_KEY_LEN
                then Inl (TeamMalformed (''the sealed team key is '' @ nat_str (length payload) @ '' bytes, not '' @
                       nat_str TEAM_KEY_LEN))
                else Inr \<lparr>tk_bytes = payload\<rparr>))))"

section \<open>Laws of the handshake\<close>

text \<open>X25519 public keys are 32 bytes and, being multiples of the base point by a clamped scalar,
  never of low order; a generated pair is a private key and its public key.\<close>

definition x25519_ok :: "prims \<Rightarrow> bool" where
  "x25519_ok P \<longleftrightarrow>
     (\<forall>k pk. x25519_public P k = Inr pk \<longrightarrow> length pk = KEY_LEN \<and> \<not> is_low_order_public_key pk) \<and>
     (\<forall>seed k pk. noise_keypair P seed = Inr (k, pk) \<longrightarrow> x25519_public P k = Inr pk)"

text \<open>A message of the \<^verbatim>\<open>X\<close> pattern starts with the ephemeral public key, is 96 bytes longer than its
  payload, and reads back under the same prologue with the recipient's private key, naming the
  sealer's static key.\<close>

definition noise_ok :: "prims \<Rightarrow> bool" where
  "noise_ok P \<longleftrightarrow>
     (\<forall>seed s prologue pk payload msg. noise_x_seal P seed s prologue pk payload = Inr msg \<longrightarrow>
        length msg = 96 + length payload \<and>
        (\<exists>e. x25519_public P e = Inr (take KEY_LEN msg)) \<and>
        (\<forall>r. x25519_public P r = Inr pk \<longrightarrow>
           (\<exists>me. x25519_public P s = Inr me \<and> noise_x_open P r prologue msg = Inr (Some (payload, Some me, True)))))"

text \<open>A pair whose halves belong together, and a key of the right size.\<close>

definition keypair_ok :: "prims \<Rightarrow> sharing_keypair \<Rightarrow> bool" where
  "keypair_ok P k \<longleftrightarrow> x25519_public P (dk_private k) = Inr (dk_public k)"

definition team_key_ok :: "team_key \<Rightarrow> bool" where
  "team_key_ok k \<longleftrightarrow> length (tk_bytes k) = TEAM_KEY_LEN"

lemma device_generate_ok:
  "x25519_ok P \<Longrightarrow> device_generate P w = (Inr k, w') \<Longrightarrow> keypair_ok P k"
  by (auto simp: device_generate_def x25519_ok_def keypair_ok_def key_from_slice_def io_eqs bind_res_eq_Inr
      split: if_splits)

lemma sharing_generate_ok:
  "x25519_ok P \<Longrightarrow> sharing_generate P w = (Inr k, w') \<Longrightarrow> keypair_ok P k"
  by (auto simp: sharing_generate_def io_eqs dest: device_generate_ok)

lemma sharing_from_private_ok:
  "sharing_from_private_key P s = Inr k \<Longrightarrow> keypair_ok P k \<and> dk_private k = s \<and> \<not> is_low_order_public_key (dk_public k)"
  by (auto simp: sharing_from_private_key_def device_from_private_key_def keypair_ok_def key_from_slice_def bind_res_eq_Inr
      split: if_splits)

lemma team_key_generate_ok: "team_key_generate w = (Inr k, w') \<Longrightarrow> team_key_ok k"
  by (auto simp: team_key_generate_def team_key_ok_def io_eqs dest!: length_random_fill)

section \<open>Fingerprints are a codec\<close>

lemma fingerprint_hex_value_eq: "fingerprint_hex_value b = ok (hex_value b)"
  by (simp add: fingerprint_hex_value_def hex_value_def)

lemma fingerprint_pairs_eq: "fingerprint_pairs bs = ok (hex_pairs bs)"
  by (induction bs rule: hex_pairs.induct)
    (auto simp: fingerprint_hex_value_eq bind_res_def ok_def split: sum.splits)

definition fingerprint_ok :: "fingerprint \<Rightarrow> bool" where
  "fingerprint_ok f \<longleftrightarrow> length (fp_bytes f) = FINGERPRINT_LEN"

interpretation fp: codec fingerprint_hex fingerprint_from_hex fingerprint_ok
proof
  show "fingerprint_from_hex (fingerprint_hex f) = Some f" if "fingerprint_ok f" for f
    using that by (simp add: fingerprint_from_hex_def fingerprint_hex_def fingerprint_ok_def fingerprint_pairs_eq hex_pairs_id_hex)
  show "fingerprint_ok f \<and> fingerprint_hex f = raw" if "fingerprint_from_hex raw = Some f" for raw f
  proof -
    from that have len: "length raw = 2 * FINGERPRINT_LEN" and "hex_pairs (as_bytes raw) = Inr (fp_bytes f)"
      by (auto simp: fingerprint_from_hex_def fingerprint_pairs_eq split: if_splits)
    with hex_pairs_Inr [of "as_bytes raw" "fp_bytes f"] have "raw = id_hex (fp_bytes f)" by simp
    with len show ?thesis by (auto simp: fingerprint_ok_def fingerprint_hex_def)
  qed
qed

lemma fingerprint_of_ok [simp]: "sha256_ok P \<Longrightarrow> fingerprint_ok (fingerprint_of P pk)"
  by (simp add: fingerprint_ok_def fingerprint_of_def sha256_ok_def FINGERPRINT_LEN_def)

section \<open>The keyring\<close>

lemma keyring_simps [simp]:
  "keyring_get (keyring_insert v k r) = (keyring_get r)(v \<mapsto> k)" "keyring_get [] = Map.empty"
  by (auto simp: keyring_get_def keyring_insert_def fun_eq_iff)

lemma keyring_insert_ok [simp]: "bt_ok r \<Longrightarrow> bt_ok (keyring_insert v k r)"
  by (simp add: keyring_insert_def bt_ok_insert)

text \<open>The current version is the highest one held.\<close>

lemma keyring_current_get:
  assumes "bt_ok r" "keyring_current r = Some (v, k)"
  shows "keyring_get r v = Some k" "keyring_get r v' = Some k' \<Longrightarrow> v' \<le> v"
proof -
  from assms(2) obtain r' where r: "r = r' @ [(v, k)]"
    by (cases r rule: rev_cases) (auto simp: keyring_current_def)
  with assms(1) have lt: "\<forall>x \<in> set (map fst r'). x < v" and "distinct (map fst r)"
    by (auto simp: bt_ok_def sorted_wrt_append strict_sorted_iff)
  then show "keyring_get r v = Some k" using map_of_eq_None_iff [of r' v] by (simp add: keyring_get_def bt_get_def r map_add_def)
  show "v' \<le> v" if "keyring_get r v' = Some k'"
    using that lt map_of_SomeD [of r v' k'] by (force simp: keyring_get_def bt_get_def r)
qed

lemma keyring_current_None [simp]: "keyring_current r = None \<longleftrightarrow> r = []"
  by (simp add: keyring_current_def)

section \<open>Envelopes\<close>

lemma prologue_Inr:
  "prologue ids = Inr b \<longleftrightarrow>
     ei_key_version ids \<noteq> 0 \<and> ei_team_id ids \<noteq> [] \<and> ei_recipient_user_id ids \<noteq> [] \<and>
     FIELD_SEPARATOR \<notin> set (as_bytes (ei_team_id ids)) \<and> FIELD_SEPARATOR \<notin> set (as_bytes (ei_recipient_user_id ids)) \<and>
     b = as_bytes PROLOGUE_LABEL @ FIELD_SEPARATOR # as_bytes (ei_team_id ids) @
       FIELD_SEPARATOR # as_bytes (ei_recipient_user_id ids) @ FIELD_SEPARATOR # as_bytes (nat_str (unat (ei_key_version ids)))"
  by (auto simp: prologue_def prologue_field_def bind_res_eq_Inr)

lemma prologue_inj:
  assumes "prologue i = Inr b" "prologue j = Inr b"
  shows "i = j"
proof -
  have "ei_team_id i = ei_team_id j" "ei_recipient_user_id i = ei_recipient_user_id j"
    "ei_key_version i = ei_key_version j"
    using assms unfolding prologue_Inr by (auto simp: split_at_separator word_unat_eq_iff)
  then show ?thesis by simp
qed

text \<open>An envelope opens for the member it was wrapped to, when they expect its sealer.\<close>

lemma wrap_Inr:
  assumes "wrap P wrapper pk ids k w = (Inr msg, w')"
  obtains seed b where "\<not> is_low_order_public_key pk" "prologue ids = Inr b" "length msg = WRAPPED_KEY_LEN"
    "noise_x_seal P seed (dk_private wrapper) b pk (tk_bytes k) = Inr msg"
  using assms by (auto simp: wrap_def io_eqs split: if_splits)

lemma wrap_unwrap:
  assumes "noise_ok P" "x25519_ok P" "keypair_ok P wrapper" "keypair_ok P me" "team_key_ok k"
    and "wrap P wrapper (dk_public me) ids k w = (Inr msg, w')"
  shows "unwrap P me msg ids (sharing_fingerprint P wrapper) = Inr k"
proof -
  from assms(6) obtain seed b where w: "\<not> is_low_order_public_key (dk_public me)" "prologue ids = Inr b"
    "length msg = WRAPPED_KEY_LEN" "noise_x_seal P seed (dk_private wrapper) b (dk_public me) (tk_bytes k) = Inr msg"
    by (rule wrap_Inr)
  have noise: "\<exists>e. x25519_public P e = Inr (take KEY_LEN msg)"
    "noise_x_open P (dk_private me) b msg = Inr (Some (tk_bytes k, Some (dk_public wrapper), True))"
    using assms(1,3,4) w(4) unfolding noise_ok_def keypair_ok_def by fastforce+
  have low: "\<not> is_low_order_public_key (take KEY_LEN msg)" "\<not> is_low_order_public_key (dk_public wrapper)"
    "length (dk_public wrapper) = KEY_LEN"
    using noise(1) assms(2,3) unfolding x25519_ok_def keypair_ok_def by blast+
  show ?thesis
    using assms(5) w(2,3) noise(2) low
    by (simp add: unwrap_def Let_def sharing_fingerprint_def team_key_ok_def)
qed

text \<open>A key is handed out only if the message authenticated under exactly these identities and its
  sealer's static key has the expected fingerprint.\<close>

lemma unwrap_Inr:
  assumes "unwrap P me msg ids expected = Inr k"
  obtains b sealer where "prologue ids = Inr b" "length msg = WRAPPED_KEY_LEN"
    "noise_x_open P (dk_private me) b msg = Inr (Some (tk_bytes k, Some sealer, True))"
    "length sealer = KEY_LEN" "fingerprint_of P sealer = expected" "\<not> is_low_order_public_key sealer" "team_key_ok k"
  using assms by (auto simp: unwrap_def Let_def bind_res_eq_Inr team_key_ok_def split: if_splits option.splits)

section \<open>The sharing key at rest\<close>

lemma sharing_key_roundtrip:
  assumes "gcm_ok P" "sha256_ok P" "base64_ok P" "x25519_ok P" "dek_ok d" "keypair_ok P me" "length (dk_private me) = KEY_LEN"
    and "seal_private_key P d user me w = (Inr e, w')"
  shows "open_private_key P d user e = Inr me"
proof -
  have "decrypt_at P d user resource_sharing_key e = Inr (dk_private me)"
    using assms(1-3,5,8) by (auto simp: seal_private_key_def io_eqs intro: decrypt_encrypt)
  moreover have "length (dk_public me) = KEY_LEN" "\<not> is_low_order_public_key (dk_public me)"
    using assms(4,6) by (auto simp: x25519_ok_def keypair_ok_def)
  ultimately show ?thesis
    using assms(6,7) by (simp add: open_private_key_def sharing_from_private_key_def device_from_private_key_def
        keypair_ok_def key_from_slice_def)
qed

section \<open>The handshake of the reference instances\<close>

lemma ref_public_low:
  assumes "ref_public k = Inr pk"
  shows "length pk = KEY_LEN \<and> \<not> is_low_order_public_key pk"
proof -
  from assms have pk: "pk = 7 # tl k" "length (tl k) = 31" by (auto simp: ref_public_def split: if_splits)
  have "hd (pk[KEY_LEN - 1 := x]) = 7" for x by (simp add: pk(1) KEY_LEN_def)
  moreover have "hd key \<noteq> 7" if "key \<in> set SMALL_ORDER_KEYS" for key
    using that by (auto simp: SMALL_ORDER_KEYS_def prime_plus_def KEY_LEN_def hd_conv_nth nth_list_update)
  ultimately have "pk[KEY_LEN - 1 := x] \<notin> set SMALL_ORDER_KEYS" for x by blast
  then show ?thesis using pk by (simp add: is_low_order_public_key_def KEY_LEN_def)
qed

lemma ref_keypair_Inr: "ref_keypair seed = Inr (k, pk) \<Longrightarrow> ref_public k = Inr pk"
  by (auto simp: ref_keypair_def bind_res_eq_Inr split: option.splits)

lemma ref_x_seal_Inr:
  assumes "ref_x_seal seed s b pk payload = Inr msg"
  obtains k e me t where "ref_public k = Inr e" "ref_public s = Inr me" "t = ref_tag16 me b (pk @ payload)"
    "msg = e @ me @ t @ payload @ t" "length e = 32" "length me = 32" "length t = 16"
proof -
  from assms obtain k e me where x: "ref_keypair seed = Inr (k, e)" "ref_public s = Inr me"
    "msg = e @ me @ ref_tag16 me b (pk @ payload) @ payload @ ref_tag16 me b (pk @ payload)"
    by (auto simp: ref_x_seal_def Let_def bind_res_eq_Inr)
  note len = ref_public_low [OF ref_keypair_Inr [OF x(1)]] ref_public_low [OF x(2)]
  show thesis
    by (rule that [OF ref_keypair_Inr [OF x(1)] x(2) refl x(3)]) (use len in \<open>simp_all add: KEY_LEN_def ref_tag16_def\<close>)
qed

lemma ref_x_open_eq:
  assumes "ref_public r = Inr pk" "length e = 32" "length me = 32" "t = ref_tag16 me b (pk @ payload)"
  shows "ref_x_open r b (e @ me @ t @ payload @ t) = Inr (Some (payload, Some me, True))"
  using assms by (simp add: ref_x_open_def Let_def ref_tag16_def)

lemma ref_noise_laws:
  assumes "noise_x_seal P = ref_x_seal" "noise_x_open P = ref_x_open" "x25519_public P = ref_public" "noise_keypair P = ref_keypair"
  shows "x25519_ok P" "noise_ok P"
proof -
  show "x25519_ok P" unfolding x25519_ok_def assms using ref_public_low ref_keypair_Inr by blast
  have "length msg = 96 + length payload \<and> (\<exists>e. ref_public e = Inr (take KEY_LEN msg)) \<and>
      (\<forall>r. ref_public r = Inr pk \<longrightarrow>
         (\<exists>me. ref_public s = Inr me \<and> ref_x_open r b msg = Inr (Some (payload, Some me, True))))"
    if "ref_x_seal seed s b pk payload = Inr msg" for seed s b pk payload msg
  proof -
    from that obtain k e me t where x: "ref_public k = Inr e" "ref_public s = Inr me" "t = ref_tag16 me b (pk @ payload)"
      "msg = e @ me @ t @ payload @ t" "length e = 32" "length me = 32" "length t = 16" by (rule ref_x_seal_Inr)
    from x(1,4,5) have "ref_public k = Inr (take KEY_LEN msg)" by (simp add: KEY_LEN_def)
    with x ref_x_open_eq [OF _ x(5,6,3)] show ?thesis by auto
  qed
  then show "noise_ok P" unfolding noise_ok_def assms by blast
qed

lemma ref_x25519_ok: "x25519_ok ref_prims" and ref_noise_ok: "noise_ok ref_prims"
  by (rule ref_noise_laws; simp add: ref_prims_def)+

end
