(* ===== verification/Team_Entry.thy ===== *)
theory Team_Entry
  imports Team_Keys
begin

text \<open>
  The entries of a team vault: sealing and opening one (\<^verbatim>\<open>seal.rs\<close>), the shared database
  connection (\<^verbatim>\<open>connection_entry.rs\<close>) and the team's catalogue (\<^verbatim>\<open>manifest.rs\<close>), as bytes in and
  bytes out. The key version and the sequence number are inside the ciphertext; the team, the slot
  and the version's key are bound to it by the additional data.
\<close>

section \<open>Sealing\<close>

definition KEY_VERSION_BYTES :: nat where
  "KEY_VERSION_BYTES = 4"

definition MAX_ENTRY_BYTES :: nat where
  "MAX_ENTRY_BYTES = MAX_PAYLOAD_BYTES - KEY_VERSION_BYTES"

definition team_entry_resource :: "string \<Rightarrow> entry_id \<Rightarrow> team_crypto_error + resource" where
  "team_entry_resource team_id entry = map_err team_of_crypto (resource_team_entry team_id (entry_hex entry))"

record opened_entry =
  oe_seq :: u64
  oe_key_version :: u32
  oe_payload :: bytes

definition seal_entry ::
    "prims \<Rightarrow> team_key \<Rightarrow> string \<Rightarrow> entry_id \<Rightarrow> u32 \<Rightarrow> u64 \<Rightarrow> bytes \<Rightarrow> ('w world, team_crypto_error, envelope) io" where
  "seal_entry P team_key team_id entry key_version seq payload =
     (if length payload > MAX_ENTRY_BYTES then io_err (TeamTooLarge (length payload) MAX_ENTRY_BYTES)
      else
        io_bind (io_res (team_entry_resource team_id entry)) (\<lambda>resource.
        let inner = u32_to_le_bytes key_version @ payload in
        io_bind (io_res (map_err team_of_env (pack seq inner))) (\<lambda>block.
        io_map_err team_of_crypto (encrypt_at P (team_as_dek team_key) team_id resource block))))"

definition open_entry ::
    "prims \<Rightarrow> team_key \<Rightarrow> string \<Rightarrow> entry_id \<Rightarrow> u32 \<Rightarrow> u64 option \<Rightarrow> envelope \<Rightarrow> team_crypto_error + opened_entry" where
  "open_entry P team_key team_id entry key_version seen_seq envelope =
     bind_res (team_entry_resource team_id entry) (\<lambda>resource.
     bind_res (map_err team_of_crypto (decrypt_at P (team_as_dek team_key) team_id resource envelope)) (\<lambda>block.
     bind_res (map_err team_of_env (unpack block)) (\<lambda>(seq, inner).
     bind_res (if KEY_VERSION_BYTES \<le> length inner then Inr (u32_from_le_bytes (take KEY_VERSION_BYTES inner))
               else Inl (TeamMalformed ''the entry carries no key version'')) (\<lambda>sealed_version.
     if sealed_version \<noteq> key_version then Inl (KeyVersionMismatch key_version sealed_version)
     else
       case seen_seq of
         Some seen \<Rightarrow>
           if seq < seen then Inl (TeamRollback seen seq)
           else Inr \<lparr>oe_seq = seq, oe_key_version = sealed_version, oe_payload = drop KEY_VERSION_BYTES inner\<rparr>
       | None \<Rightarrow>
           Inr \<lparr>oe_seq = seq, oe_key_version = sealed_version, oe_payload = drop KEY_VERSION_BYTES inner\<rparr>))))"

section \<open>A shared connection\<close>

record connection_entry =
  ce_name :: string
  ce_driver :: string
  ce_url :: string
  ce_password :: "string option"

definition connection_json :: "connection_entry \<Rightarrow> json" where
  "connection_json c =
     JObj ([(''name'', JStr (ce_name c)), (''driver'', JStr (ce_driver c)), (''url'', JStr (ce_url c))] @
       (case ce_password c of Some p \<Rightarrow> [(''password'', JStr p)] | None \<Rightarrow> []))"

definition connection_of_json :: "json \<Rightarrow> connection_entry option" where
  "connection_of_json j =
     (case struct_fields_default [''name'', ''driver'', ''url'', ''password''] [''password''] j of
        Some [n, d, u, p] \<Rightarrow>
          (case (as_req as_str n, as_req as_str d, as_req as_str u, as_opt as_str p) of
             (Some n, Some d, Some u, Some p) \<Rightarrow>
               Some \<lparr>ce_name = n, ce_driver = d, ce_url = u, ce_password = p\<rparr>
           | _ \<Rightarrow> None)
      | _ \<Rightarrow> None)"

definition connection_to_json :: "prims \<Rightarrow> connection_entry \<Rightarrow> team_crypto_error + bytes" where
  "connection_to_json P c = map_err TeamMalformed (bind_res (json_text P (connection_json c)) (\<lambda>t. Inr (as_bytes t)))"

definition connection_from_json :: "prims \<Rightarrow> bytes \<Rightarrow> team_crypto_error + connection_entry" where
  "connection_from_json P bs =
     ok_or (TeamMalformed ''not a shared connection'')
       (case json_read P (string_of_bytes bs) of Inl _ \<Rightarrow> None | Inr j \<Rightarrow> connection_of_json j)"

section \<open>The catalogue\<close>

definition MANIFEST_ENTRY_ID :: string where
  "MANIFEST_ENTRY_ID = ''00000000000000000000000000000000''"

definition TEAM_MANIFEST_VERSION :: u32 where
  "TEAM_MANIFEST_VERSION = 1"

definition manifest_entry_id :: "team_crypto_error + entry_id" where
  "manifest_entry_id = map_err team_of_env (entry_parse MANIFEST_ENTRY_ID)"

datatype manifest_entry_kind = KindEnv | KindDbConnection

record team_manifest_entry =
  tme_entry_id :: entry_id
  tme_kind :: manifest_entry_kind
  tme_label :: string
  tme_project_hint :: "string option"

type_synonym team_manifest = "team_manifest_entry list"

definition team_manifest_get :: "team_manifest \<Rightarrow> entry_id \<Rightarrow> team_manifest_entry option" where
  "team_manifest_get m entry_id = find (\<lambda>e. tme_entry_id e = entry_id) m"

text \<open>The first entry with the id is replaced where it stands; a new one goes to the end.\<close>

fun upsert_at :: "team_manifest_entry \<Rightarrow> team_manifest \<Rightarrow> team_manifest" where
  "upsert_at entry [] = [entry]"
| "upsert_at entry (e # m) = (if tme_entry_id e = tme_entry_id entry then entry # m else e # upsert_at entry m)"

definition team_manifest_upsert :: "team_manifest_entry \<Rightarrow> team_manifest \<Rightarrow> team_crypto_error + team_manifest" where
  "team_manifest_upsert entry m =
     bind_res manifest_entry_id (\<lambda>reserved.
     if tme_entry_id entry = reserved then Inl (TeamMalformed ''the manifest cannot list its own slot'')
     else Inr (upsert_at entry m))"

definition team_manifest_remove :: "entry_id \<Rightarrow> team_manifest \<Rightarrow> bool \<times> team_manifest" where
  "team_manifest_remove entry_id m =
     (let m' = filter (\<lambda>e. tme_entry_id e \<noteq> entry_id) m in (length m' \<noteq> length m, m'))"

definition kind_name :: "manifest_entry_kind \<Rightarrow> string" where
  "kind_name k = (case k of KindEnv \<Rightarrow> ''env'' | KindDbConnection \<Rightarrow> ''db_connection'')"

definition kind_of_name :: "string \<Rightarrow> manifest_entry_kind option" where
  "kind_of_name s = (if s = ''env'' then Some KindEnv else if s = ''db_connection'' then Some KindDbConnection else None)"

definition team_manifest_entry_json :: "team_manifest_entry \<Rightarrow> json" where
  "team_manifest_entry_json e =
     JObj ([(''entryId'', JStr (entry_hex (tme_entry_id e))), (''kind'', JStr (kind_name (tme_kind e))),
            (''label'', JStr (tme_label e))] @
       (case tme_project_hint e of Some h \<Rightarrow> [(''projectHint'', JStr h)] | None \<Rightarrow> []))"

definition team_manifest_entry_of_json :: "json \<Rightarrow> team_manifest_entry option" where
  "team_manifest_entry_of_json j =
     (case struct_fields_default [''entryId'', ''kind'', ''label'', ''projectHint''] [''projectHint''] j of
        Some [i, k, l, h] \<Rightarrow>
          (case (as_req entry_id_of_json i, as_req (as_variant kind_of_name) k, as_req as_str l, as_opt as_str h) of
             (Some i, Some k, Some l, Some h) \<Rightarrow>
               Some \<lparr>tme_entry_id = i, tme_kind = k, tme_label = l, tme_project_hint = h\<rparr>
           | _ \<Rightarrow> None)
      | _ \<Rightarrow> None)"

definition team_manifest_json :: "team_manifest \<Rightarrow> json" where
  "team_manifest_json m =
     JObj [(''v'', JNum (uint TEAM_MANIFEST_VERSION)), (''entries'', JArr (map team_manifest_entry_json m))]"

definition team_manifest_wire :: "json \<Rightarrow> (u32 \<times> team_manifest) option" where
  "team_manifest_wire j =
     (case struct_fields [''v'', ''entries''] j of
        Some [v, es] \<Rightarrow>
          (case (as_req as_u32 v, as_req (as_list team_manifest_entry_of_json) es) of
             (Some v, Some es) \<Rightarrow> Some (v, es)
           | _ \<Rightarrow> None)
      | _ \<Rightarrow> None)"

definition team_manifest_to_json :: "prims \<Rightarrow> team_manifest \<Rightarrow> team_crypto_error + bytes" where
  "team_manifest_to_json P m =
     map_err TeamMalformed (bind_res (json_text P (team_manifest_json m)) (\<lambda>t. Inr (as_bytes t)))"

fun listed_where_allowed :: "entry_id \<Rightarrow> entry_id list \<Rightarrow> team_manifest \<Rightarrow> team_crypto_error + unit" where
  "listed_where_allowed reserved seen [] = Inr ()"
| "listed_where_allowed reserved seen (e # m) =
     (if tme_entry_id e = reserved \<or> tme_entry_id e \<in> set seen
      then Inl (TeamMalformed (''team manifest lists '' @ entry_hex (tme_entry_id e) @ '' where it may not''))
      else listed_where_allowed reserved (tme_entry_id e # seen) m)"

text \<open>The text of a \<^verbatim>\<open>serde_json\<close> error is a parameter, of the input it is about.\<close>

definition team_manifest_from_json :: "prims \<Rightarrow> bytes \<Rightarrow> team_crypto_error + team_manifest" where
  "team_manifest_from_json P bs =
     bind_res (map_err (\<lambda>e. TeamMalformed (''team manifest: '' @ e))
       (bind_res (json_read P (string_of_bytes bs)) (\<lambda>j. ok_or (serde_error P j) (team_manifest_wire j)))) (\<lambda>(v, entries).
     if v \<noteq> TEAM_MANIFEST_VERSION
     then Inl (TeamMalformed (''team manifest version '' @ nat_str (unat v) @ '' is not supported''))
     else
       bind_res manifest_entry_id (\<lambda>reserved.
       bind_res (listed_where_allowed reserved [] entries) (\<lambda>_. Inr entries)))"

section \<open>What was sealed opens, once, in its place\<close>

lemma seal_entry_Inr:
  assumes "seal_entry P k team_id entry v seq payload w = (Inr e, w')"
  obtains r block where "team_entry_resource team_id entry = Inr r" "pack seq (u32_to_le_bytes v @ payload) = Inr block"
    "encrypt_at P (team_as_dek k) team_id r block w = (Inr e, w')" "length payload \<le> MAX_ENTRY_BYTES"
  using assms by (auto simp: seal_entry_def Let_def io_eqs split: if_splits)

lemma team_key_dek_ok [simp]: "dek_ok (team_as_dek k) \<longleftrightarrow> team_key_ok k"
  by (simp add: dek_ok_def team_as_dek_def team_key_ok_def TEAM_KEY_LEN_def)

text \<open>The whole outcome of opening a sealed entry where it belongs: the version inside the ciphertext
  is compared with the listed one, then the sequence number with what was seen.\<close>

lemma open_seal_entry:
  assumes "seal_entry P k team_id entry v seq payload w = (Inr e, w')"
    and "gcm_ok P" "sha256_ok P" "base64_ok P" "team_key_ok k"
  shows "open_entry P k team_id entry listed seen e =
    (if v \<noteq> listed then Inl (KeyVersionMismatch listed v)
     else case seen of
       Some s \<Rightarrow> if seq < s then Inl (TeamRollback s seq) else Inr \<lparr>oe_seq = seq, oe_key_version = v, oe_payload = payload\<rparr>
     | None \<Rightarrow> Inr \<lparr>oe_seq = seq, oe_key_version = v, oe_payload = payload\<rparr>)"
proof -
  from assms(1) obtain r block where r: "team_entry_resource team_id entry = Inr r"
    "pack seq (u32_to_le_bytes v @ payload) = Inr block" "encrypt_at P (team_as_dek k) team_id r block w = (Inr e, w')"
    by (rule seal_entry_Inr)
  have "decrypt_at P (team_as_dek k) team_id r e = Inr block"
    using decrypt_encrypt [OF r(3) assms(2-4)] assms(5) by simp
  moreover have "unpack block = Inr (seq, u32_to_le_bytes v @ payload)" by (rule unpack_pack [OF r(2)])
  ultimately show ?thesis
    by (simp add: open_entry_def r(1) KEY_VERSION_BYTES_def split: option.splits)
qed

text \<open>A vault entry opens exactly where and as it was sealed. Opened with its team's key at its own
  slot, an entry gives back its payload, version and sequence number when the listing names the
  version it was sealed under and it is not older than what this machine has seen; a listing that
  misnames the version is refused with both versions, and an older entry is refused as a rollback,
  without its payload. The version and the sequence number compared are the ones inside the
  ciphertext, whatever the service says.\<close>

theorem team_entry_opens_as_sealed:
  assumes "seal_entry P k team_id entry v seq payload w = (Inr e, w')"
    and "gcm_ok P" "sha256_ok P" "base64_ok P" "team_key_ok k"
  shows "open_entry P k team_id entry listed seen e =
    (if listed \<noteq> v then Inl (KeyVersionMismatch listed v)
     else if \<exists>s. seen = Some s \<and> seq < s then Inl (TeamRollback (the seen) seq)
     else Inr \<lparr>oe_seq = seq, oe_key_version = v, oe_payload = payload\<rparr>)"
  unfolding open_seal_entry [OF assms] by (simp split: option.splits)

lemma team_entry_resource_total:
  assumes "validated_segment team_id = Inr team_id" "entry_ok entry"
  obtains r where "team_entry_resource team_id entry = Inr r"
proof -
  have "length (entry_hex entry) = 32" using assms(2) by (simp add: entry_hex_def entry_ok_def ID_BYTES_def)
  moreover from this have "entry_hex entry \<noteq> []" by (metis list.size(3) zero_neq_numeral)
  ultimately have "validated_segment (entry_hex entry) = Inr (entry_hex entry)"
    unfolding validated_segment_iff by (simp add: entry_hex_def id_hex_segment)
  with assms(1) that show thesis by (simp add: team_entry_resource_def resource_team_entry_def)
qed

lemma seal_entry_total:
  assumes "calm w" "gcm_total P" "team_key_ok k" "validated_segment team_id = Inr team_id" "entry_ok entry"
    and "length payload \<le> MAX_ENTRY_BYTES"
  shows "\<exists>e. seal_entry P k team_id entry v seq payload w = (Inr e, advance w)"
proof -
  obtain r where r: "team_entry_resource team_id entry = Inr r" by (rule team_entry_resource_total [OF assms(4,5)])
  obtain block where "pack seq (u32_to_le_bytes v @ payload) = Inr block"
    using pack_total [of "u32_to_le_bytes v @ payload" seq] assms(6)
    by (auto simp: MAX_ENTRY_BYTES_def KEY_VERSION_BYTES_def MAX_PAYLOAD_BYTES_def)
  moreover obtain e where "encrypt_at P (team_as_dek k) team_id r block w = (Inr e, advance w)"
    using encrypt_at_calm [OF assms(1,2), of "team_as_dek k"] assms(3) by (metis team_key_dek_ok)
  ultimately show ?thesis
    using assms(6) by (simp add: seal_entry_def r Let_def io_map_err_apply)
qed

definition example_vault_entry :: entry_id where
  "example_vault_entry = EntryId (replicate 16 5)"

theorem team_entry_opens_as_sealed_witness:
  "\<exists>e w'. seal_entry total_prims \<lparr>tk_bytes = replicate 32 9\<rparr> ''t1'' example_vault_entry 2 3 [65] (quiet_world ()) = (Inr e, w') \<and>
     open_entry total_prims \<lparr>tk_bytes = replicate 32 9\<rparr> ''t1'' example_vault_entry 2 (Some 3) e =
       Inr \<lparr>oe_seq = 3, oe_key_version = 2, oe_payload = [65]\<rparr> \<and>
     open_entry total_prims \<lparr>tk_bytes = replicate 32 9\<rparr> ''t1'' example_vault_entry 2 (Some 4) e = Inl (TeamRollback 4 3) \<and>
     open_entry total_prims \<lparr>tk_bytes = replicate 32 9\<rparr> ''t1'' example_vault_entry 1 None e = Inl (KeyVersionMismatch 1 2)"
proof -
  let ?k = "\<lparr>tk_bytes = replicate 32 9\<rparr>"
  have k: "team_key_ok ?k" by (simp add: team_key_ok_def TEAM_KEY_LEN_def DEK_LEN_def)
  have v: "validated_segment ''t1'' = Inr ''t1''" "entry_ok example_vault_entry" "length [65 :: u8] \<le> MAX_ENTRY_BYTES"
    by (simp_all add: validated_segment_def segment_char_def Let_def example_vault_entry_def entry_ok_def ID_BYTES_def
        MAX_ENTRY_BYTES_def MAX_PAYLOAD_BYTES_def KEY_VERSION_BYTES_def)
  obtain e where sealed: "seal_entry total_prims ?k ''t1'' example_vault_entry 2 3 [65] (quiet_world ()) =
      (Inr e, advance (quiet_world ()))"
    using seal_entry_total [OF calm_quiet [of "()"] total_gcm_total k v, of 2 3] by (elim exE)
  note opens = team_entry_opens_as_sealed [OF sealed total_gcm_ok total_sha256_ok total_base64_ok k]
  show ?thesis
    using sealed opens [of 2 "Some 3"] opens [of 2 "Some 4"] opens [of 1 None] by simp
qed

lemma open_entry_Inr:
  assumes "open_entry P k team_id entry listed seen e = Inr x"
  shows "oe_key_version x = listed" "seen = Some s \<Longrightarrow> s \<le> oe_seq x"
  using assms by (auto simp: open_entry_def bind_res_eq_Inr split: if_splits option.splits)

section \<open>JSON\<close>

lemma kind_roundtrip [simp]: "kind_of_name (kind_name k) = Some k"
  by (cases k) (simp_all add: kind_of_name_def kind_name_def)

lemma connection_json_roundtrip [simp]: "connection_of_json (connection_json c) = Some c"
  by (cases "ce_password c")
    (simp_all add: connection_json_def connection_of_json_def struct_simps as_opt_def)

lemma connection_roundtrip: "json_ok P \<Longrightarrow> connection_to_json P c = Inr bs \<Longrightarrow> connection_from_json P bs = Inr c"
  by (auto simp: connection_to_json_def connection_from_json_def bind_res_eq_Inr json_ok_def)

text \<open>Without a password nothing on the wire says there could be one.\<close>

lemma connection_no_password:
  "ce_password c = None \<Longrightarrow> connection_json c = JObj fs \<Longrightarrow> ''password'' \<notin> fst ` set fs"
  by (auto simp: connection_json_def)

lemma team_manifest_entry_roundtrip [simp]:
  "entry_ok (tme_entry_id e) \<Longrightarrow> team_manifest_entry_of_json (team_manifest_entry_json e) = Some e"
  using entry.dec_enc [of "tme_entry_id e"]
  by (cases "tme_project_hint e")
    (simp_all add: team_manifest_entry_json_def team_manifest_entry_of_json_def struct_simps as_opt_def as_variant_def
      entry_id_of_json_def)

section \<open>Catalogues that list an entry once\<close>

text \<open>What a reader accepts: whole identifiers, each listed once, none the catalogue's own.\<close>

definition team_manifest_ok :: "team_manifest \<Rightarrow> bool" where
  "team_manifest_ok m \<longleftrightarrow> distinct (map tme_entry_id m) \<and>
     list_all (\<lambda>e. entry_ok (tme_entry_id e) \<and> manifest_entry_id \<noteq> Inr (tme_entry_id e)) m"

lemma manifest_entry_id_eq: "manifest_entry_id = Inr (EntryId (replicate 16 0))"
proof -
  have "entry_hex (EntryId (replicate 16 0)) = MANIFEST_ENTRY_ID"
    by (simp add: entry_hex_def MANIFEST_ENTRY_ID_def id_hex_def HEX_def numeral_eq_Suc)
  moreover have "entry_ok (EntryId (replicate 16 0))" by (simp add: entry_ok_def ID_BYTES_def)
  ultimately show ?thesis
    using entry.dec_enc [of "EntryId (replicate 16 0)"] by (simp add: manifest_entry_id_def)
qed

lemma set_upsert_at_ids: "set (map tme_entry_id (upsert_at e m)) = insert (tme_entry_id e) (set (map tme_entry_id m))"
  by (induction e m rule: upsert_at.induct) auto

lemma distinct_upsert_at: "distinct (map tme_entry_id m) \<Longrightarrow> distinct (map tme_entry_id (upsert_at e m))"
proof (induction e m rule: upsert_at.induct)
  case (2 e f m)
  then show ?case using set_upsert_at_ids [of e m] by auto
qed simp

lemma set_upsert_at: "set (upsert_at e m) \<subseteq> insert e (set m)"
  by (induction e m rule: upsert_at.induct) auto

lemma upsert_ok:
  assumes "team_manifest_upsert e m = Inr m'" "team_manifest_ok m" "entry_ok (tme_entry_id e)"
  shows "team_manifest_ok m'"
proof -
  from assms(1) have "m' = upsert_at e m" "manifest_entry_id \<noteq> Inr (tme_entry_id e)"
    by (auto simp: team_manifest_upsert_def manifest_entry_id_eq split: if_splits)
  with assms(2,3) set_upsert_at [of e m] distinct_upsert_at [of m e] show ?thesis
    by (auto simp: team_manifest_ok_def list_all_iff)
qed

lemma find_upsert_at:
  "List.find (\<lambda>x. tme_entry_id x = i) (upsert_at e m) =
     (if i = tme_entry_id e then Some e else List.find (\<lambda>x. tme_entry_id x = i) m)"
  by (induction e m rule: upsert_at.induct) auto

lemma remove_ok: "team_manifest_ok m \<Longrightarrow> team_manifest_ok (snd (team_manifest_remove i m))"
  by (auto simp: team_manifest_remove_def team_manifest_ok_def list_all_iff Let_def distinct_map_filter)

lemma find_filter_other:
  "List.find (\<lambda>x. tme_entry_id x = j) (filter (\<lambda>e. tme_entry_id e \<noteq> i) m) =
     (if j = i then None else List.find (\<lambda>x. tme_entry_id x = j) m)"
  by (induction m) auto

lemma listed_where_allowed_iff:
  "listed_where_allowed reserved seen m = Inr () \<longleftrightarrow>
     distinct (map tme_entry_id m) \<and> reserved \<notin> tme_entry_id ` set m \<and> set seen \<inter> tme_entry_id ` set m = {}"
  by (induction reserved seen m rule: listed_where_allowed.induct) auto

lemma team_manifest_wire_json:
  assumes "list_all (\<lambda>e. entry_ok (tme_entry_id e)) m"
  shows "team_manifest_wire (team_manifest_json m) = Some (TEAM_MANIFEST_VERSION, m)"
proof -
  have "read_all team_manifest_entry_of_json (map team_manifest_entry_json m) = Some m"
    using assms by (intro read_all_map) (simp add: list_all_iff)
  then show ?thesis
    by (simp add: team_manifest_wire_def team_manifest_json_def struct_simps as_list_def)
qed

lemma team_manifest_roundtrip:
  assumes "json_ok P" "team_manifest_ok m" "team_manifest_to_json P m = Inr bs"
  shows "team_manifest_from_json P bs = Inr m"
proof -
  have "listed_where_allowed (EntryId (replicate 16 0)) [] m = Inr ()"
    using assms(2) unfolding listed_where_allowed_iff
    by (auto simp: team_manifest_ok_def list_all_iff manifest_entry_id_eq)
  moreover have "team_manifest_wire (team_manifest_json m) = Some (TEAM_MANIFEST_VERSION, m)"
    using assms(2) by (intro team_manifest_wire_json) (auto simp: team_manifest_ok_def list_all_iff)
  ultimately show ?thesis
    using assms(1,3)
    by (auto simp: team_manifest_to_json_def team_manifest_from_json_def bind_res_eq_Inr json_ok_def manifest_entry_id_eq)
qed

lemma team_manifest_entry_of_json_ok: "team_manifest_entry_of_json j = Some e \<Longrightarrow> entry_ok (tme_entry_id e)"
  using entry.enc_dec
  by (auto simp: team_manifest_entry_of_json_def entry_id_of_json_def as_req_def split: option.splits list.splits)

text \<open>And nothing else is read.\<close>

lemma team_manifest_from_json_ok:
  assumes "team_manifest_from_json P bs = Inr m"
  shows "team_manifest_ok m"
proof -
  from assms obtain j where "team_manifest_wire j = Some (TEAM_MANIFEST_VERSION, m)"
    "listed_where_allowed (EntryId (replicate 16 0)) [] m = Inr ()"
    by (auto simp: team_manifest_from_json_def bind_res_eq_Inr manifest_entry_id_eq split: if_splits)
  moreover from this(1) have "entry_ok (tme_entry_id e)" if "e \<in> set m" for e
    using that by (auto simp: team_manifest_wire_def as_req_def as_list_def dest!: read_all_set team_manifest_entry_of_json_ok
        split: option.splits list.splits json.splits)
  ultimately show ?thesis
    unfolding listed_where_allowed_iff by (auto simp: team_manifest_ok_def list_all_iff manifest_entry_id_eq)
qed

end
