(* ===== verification/Team_Client.thy ===== *)
theory Team_Client
  imports Team_Entry
begin

text \<open>
  \<^verbatim>\<open>zode_team_vault/src/client.rs\<close>: the routes of the team service, one function each, over the
  request function and the classification of \<^verbatim>\<open>zode_sync\<close>. The fingerprint the service states for a
  key is checked against the key; a 404 that only says billing is off is never read as an absence;
  and every write of an entry carries a precondition.
\<close>

section \<open>What travels\<close>

record registered_key =
  rk_public_key :: bytes
  rk_fingerprint :: fingerprint

datatype key_registration = RegisterCreate | RegisterRotate fingerprint

datatype register_outcome = Registered | RegisterConflict

record sealed_envelope =
  se_key_version :: u32
  se_wrapped_key :: bytes
  se_wrapped_by :: string

datatype key_answer = KeyEnvelopesAnswer u32 "sealed_envelope list" | KeyPending | KeyNotMember

record member_key =
  mk_user_id :: string
  mk_email :: string
  mk_key :: "registered_key option"
  mk_has_current_envelope :: bool

record member_keys =
  ms_current_version :: u32
  ms_rotation_recommended :: bool
  ms_members :: "member_key list"

record outgoing_envelope =
  og_user_id :: string
  og_recipient_fingerprint :: fingerprint
  og_wrapped_key :: bytes

datatype envelope_write = EnvelopeStored | EnvelopeVersionStale | EnvelopeRecipientChanged | EnvelopeNotMember

datatype rotate_write = RotateRotated | RotateVersionStale | RotateRecipientChanged "string option" | RotateNotMember

record vault_listing =
  vl_entry_id :: entry_id
  vl_revision :: string
  vl_key_version :: u32
  vl_byte_length :: u64
  vl_updated_at :: string
  vl_updated_by :: string

record vault_document =
  vd_blob :: string
  vd_revision :: string
  vd_key_version :: u32

datatype vault_precondition = VaultCreate | VaultReplace string

datatype vault_write = VaultStored string | VaultConflict vault_document | VaultVersionStale | VaultGone

section \<open>Reading answers\<close>

definition team_parse :: "prims \<Rightarrow> (json \<Rightarrow> 'a option) \<Rightarrow> string \<Rightarrow> team_crypto_error + 'a" where
  "team_parse P read body =
     ok_or (TeamMalformed ''the team service answered with unusable JSON'')
       (case json_read P body of Inl _ \<Rightarrow> None | Inr j \<Rightarrow> read j)"

definition team_body :: "prims \<Rightarrow> json \<Rightarrow> team_vault_error + string" where
  "team_body P value = map_err (\<lambda>_. TeamClient (Unreachable ''the request could not be built'')) (json_text P value)"

text \<open>A \<^verbatim>\<open>serde_json::Value\<close> keeps the last of two members with one name.\<close>

definition error_field :: "prims \<Rightarrow> string \<Rightarrow> string \<Rightarrow> string option" where
  "error_field P body field =
     (case json_read P body of
        Inr (JObj fs) \<Rightarrow> (case occurrences field fs of [] \<Rightarrow> None | vs \<Rightarrow> as_str (last vs))
      | _ \<Rightarrow> None)"

definition error_slug :: "prims \<Rightarrow> string \<Rightarrow> string option" where
  "error_slug P body =
     (case json_read P body of
        Inl _ \<Rightarrow> None
      | Inr j \<Rightarrow> (case struct_fields [''error''] j of Some [e] \<Rightarrow> as_req as_str e | _ \<Rightarrow> None))"

definition make_registered_key :: "prims \<Rightarrow> string \<Rightarrow> string \<Rightarrow> team_crypto_error + registered_key" where
  "make_registered_key P public_key stated =
     bind_res (decode_public_key P public_key) (\<lambda>public_key.
     let computed = fingerprint_of P public_key in
     if fingerprint_from_hex stated \<noteq> Some computed
     then Inl (TeamMalformed ''a key whose fingerprint does not match it'')
     else Inr \<lparr>rk_public_key = public_key, rk_fingerprint = computed\<rparr>)"

definition read_wire_key :: "json \<Rightarrow> (string \<times> string) option" where
  "read_wire_key j =
     (case struct_fields [''publicKey'', ''fingerprint''] j of
        Some [k, f] \<Rightarrow>
          (case (as_req as_str k, as_req as_str f) of (Some k, Some f) \<Rightarrow> Some (k, f) | _ \<Rightarrow> None)
      | _ \<Rightarrow> None)"

definition read_wire_envelope :: "json \<Rightarrow> (u32 \<times> string \<times> string) option" where
  "read_wire_envelope j =
     (case struct_fields [''keyVersion'', ''wrappedKey'', ''wrappedByUserId''] j of
        Some [v, k, u] \<Rightarrow>
          (case (as_req as_u32 v, as_req as_str k, as_req as_str u) of
             (Some v, Some k, Some u) \<Rightarrow> Some (v, k, u)
           | _ \<Rightarrow> None)
      | _ \<Rightarrow> None)"

definition read_key_answer :: "json \<Rightarrow> (u32 \<times> (u32 \<times> string \<times> string) list) option" where
  "read_key_answer j =
     (case struct_fields [''currentVersion'', ''envelopes''] j of
        Some [v, es] \<Rightarrow>
          (case (as_req as_u32 v, as_req (as_list read_wire_envelope) es) of
             (Some v, Some es) \<Rightarrow> Some (v, es)
           | _ \<Rightarrow> None)
      | _ \<Rightarrow> None)"

definition make_sealed_envelope :: "prims \<Rightarrow> u32 \<times> string \<times> string \<Rightarrow> team_crypto_error + sealed_envelope" where
  "make_sealed_envelope P e =
     (case e of (v, k, u) \<Rightarrow>
        bind_res (ok_or (TeamMalformed ''a wrapped key is not base64'') (b64_decode P k)) (\<lambda>k.
        Inr \<lparr>se_key_version = v, se_wrapped_key = k, se_wrapped_by = u\<rparr>))"

record wire_member =
  wm_user_id :: string
  wm_email :: string
  wm_public_key :: "string option"
  wm_fingerprint :: "string option"
  wm_has_current_envelope :: bool

definition read_wire_member :: "json \<Rightarrow> wire_member option" where
  "read_wire_member j =
     (case struct_fields_default [''userId'', ''email'', ''publicKey'', ''fingerprint'', ''hasCurrentEnvelope'']
             [''hasCurrentEnvelope''] j of
        Some [u, e, k, f, h] \<Rightarrow>
          (case (as_req as_str u, as_req as_str e, as_opt as_str k, as_opt as_str f, as_default False as_bool h) of
             (Some u, Some e, Some k, Some f, Some h) \<Rightarrow>
               Some \<lparr>wm_user_id = u, wm_email = e, wm_public_key = k, wm_fingerprint = f, wm_has_current_envelope = h\<rparr>
           | _ \<Rightarrow> None)
      | _ \<Rightarrow> None)"

definition read_members :: "json \<Rightarrow> (u32 \<times> bool \<times> wire_member list) option" where
  "read_members j =
     (case struct_fields_default [''currentVersion'', ''rotationRecommended'', ''members''] [''rotationRecommended''] j of
        Some [v, r, ms] \<Rightarrow>
          (case (as_req as_u32 v, as_default False as_bool r, as_req (as_list read_wire_member) ms) of
             (Some v, Some r, Some ms) \<Rightarrow> Some (v, r, ms)
           | _ \<Rightarrow> None)
      | _ \<Rightarrow> None)"

definition make_member :: "prims \<Rightarrow> wire_member \<Rightarrow> team_crypto_error + member_key" where
  "make_member P m =
     bind_res (case (wm_public_key m, wm_fingerprint m) of
         (Some k, Some f) \<Rightarrow> bind_res (make_registered_key P k f) (\<lambda>key. Inr (Some key))
       | (None, None) \<Rightarrow> Inr None
       | _ \<Rightarrow> Inl (TeamMalformed ''a member key without its fingerprint'')) (\<lambda>key.
     Inr \<lparr>mk_user_id = wm_user_id m, mk_email = wm_email m, mk_key = key,
          mk_has_current_envelope = wm_has_current_envelope m\<rparr>)"

record wire_listing =
  wl_entry_id :: string
  wl_revision :: string
  wl_key_version :: u32
  wl_byte_length :: u64
  wl_updated_at :: string
  wl_updated_by :: string

definition read_wire_listing :: "json \<Rightarrow> wire_listing option" where
  "read_wire_listing j =
     (case struct_fields [''entryId'', ''revision'', ''keyVersion'', ''byteLength'', ''updatedAt'', ''updatedBy''] j of
        Some [i, r, v, b, a, u] \<Rightarrow>
          (case (as_req as_str i, as_req as_str r, as_req as_u32 v, as_req as_u64 b, as_req as_str a, as_req as_str u) of
             (Some i, Some r, Some v, Some b, Some a, Some u) \<Rightarrow>
               Some \<lparr>wl_entry_id = i, wl_revision = r, wl_key_version = v, wl_byte_length = b, wl_updated_at = a,
                 wl_updated_by = u\<rparr>
           | _ \<Rightarrow> None)
      | _ \<Rightarrow> None)"

definition read_vault :: "json \<Rightarrow> wire_listing list option" where
  "read_vault j = (case struct_fields [''entries''] j of Some [es] \<Rightarrow> as_req (as_list read_wire_listing) es | _ \<Rightarrow> None)"

definition make_listing :: "wire_listing \<Rightarrow> team_crypto_error + vault_listing" where
  "make_listing l =
     bind_res (map_err team_of_env (entry_parse (wl_entry_id l))) (\<lambda>entry.
     Inr \<lparr>vl_entry_id = entry, vl_revision = wl_revision l, vl_key_version = wl_key_version l,
          vl_byte_length = wl_byte_length l, vl_updated_at = wl_updated_at l, vl_updated_by = wl_updated_by l\<rparr>)"

definition read_vault_document :: "json \<Rightarrow> vault_document option" where
  "read_vault_document j =
     (case struct_fields [''blob'', ''revision'', ''keyVersion''] j of
        Some [b, r, v] \<Rightarrow>
          (case (as_req as_str b, as_req as_str r, as_req as_u32 v) of
             (Some b, Some r, Some v) \<Rightarrow> Some \<lparr>vd_blob = b, vd_revision = r, vd_key_version = v\<rparr>
           | _ \<Rightarrow> None)
      | _ \<Rightarrow> None)"

definition parse_document :: "prims \<Rightarrow> string \<Rightarrow> team_crypto_error + vault_document" where
  "parse_document P body = team_parse P read_vault_document body"

definition read_revision :: "json \<Rightarrow> string option" where
  "read_revision j = (case struct_fields [''revision''] j of Some [r] \<Rightarrow> as_req as_str r | _ \<Rightarrow> None)"

definition wire_envelopes :: "prims \<Rightarrow> outgoing_envelope list \<Rightarrow> json" where
  "wire_envelopes P es =
     JArr (map (\<lambda>e. JObj [(''userId'', JStr (og_user_id e)),
       (''recipientFingerprint'', JStr (fingerprint_hex (og_recipient_fingerprint e))),
       (''wrappedKey'', JStr (b64_encode P (og_wrapped_key e)))]) es)"

section \<open>The calls\<close>

definition team_call ::
    "prims \<Rightarrow> 'w sync_context \<Rightarrow> resource \<Rightarrow> string \<Rightarrow> string option \<Rightarrow> (string \<times> string) list \<Rightarrow>
     ('w world, team_vault_error, nat \<times> string) io" where
  "team_call P C resource method body headers =
     io_map_err TeamClient (io_bind (client_request (sc_api C) resource method body headers) (\<lambda>(status, body).
       if status = 404 \<and> error_slug P body = Some ''billing_disabled'' then io_err (Rejected ''billing_disabled'')
       else io_ok (status, body)))"

definition team_classify :: "prims \<Rightarrow> 'w sync_context \<Rightarrow> nat \<Rightarrow> string \<Rightarrow> team_vault_error + unit" where
  "team_classify P C status body = map_err TeamClient (classify P (web_origin (sc_api C)) status body)"

definition team_slot :: "sync_crypto_error + resource \<Rightarrow> team_vault_error + resource" where
  "team_slot r = map_err (\<lambda>e. TeamCrypto (team_of_crypto e)) r"

definition fetch_registered_key ::
    "prims \<Rightarrow> 'w sync_context \<Rightarrow> ('w world, team_vault_error, registered_key option) io" where
  "fetch_registered_key P C =
     io_bind (team_call P C resource_account_sharing_key ''GET'' None []) (\<lambda>(status, body).
     if status = 404 then io_ok None
     else
       io_res (bind_res (team_classify P C status body) (\<lambda>_.
         map_err TeamCrypto (bind_res (team_parse P read_wire_key body) (\<lambda>(k, f).
           bind_res (make_registered_key P k f) (\<lambda>key. Inr (Some key)))))))"

definition register_sharing_key ::
    "prims \<Rightarrow> 'w sync_context \<Rightarrow> bytes \<Rightarrow> key_registration \<Rightarrow> ('w world, team_vault_error, register_outcome) io" where
  "register_sharing_key P C public_key registration =
     io_bind (io_res (team_body P (JObj [(''publicKey'', JStr (encode_public_key P public_key))]))) (\<lambda>body.
     let header = (case registration of
         RegisterCreate \<Rightarrow> (''If-None-Match'', ''*'')
       | RegisterRotate f \<Rightarrow> (''If-Match'', fingerprint_hex f))
     in
     io_bind (team_call P C resource_account_sharing_key ''PUT'' (Some body) [header]) (\<lambda>(status, body).
     if status = 409 \<or> status = 404 then io_ok RegisterConflict
     else io_res (bind_res (team_classify P C status body) (\<lambda>_. Inr Registered))))"

definition fetch_team_key ::
    "prims \<Rightarrow> 'w sync_context \<Rightarrow> string \<Rightarrow> ('w world, team_vault_error, key_answer) io" where
  "fetch_team_key P C team_id =
     io_bind (io_res (team_slot (resource_team_route team_id Key))) (\<lambda>resource.
     io_bind (team_call P C resource ''GET'' None []) (\<lambda>(status, body).
     if status = 404
     then io_ok (if error_slug P body = Some ''key_pending'' then KeyPending else KeyNotMember)
     else
       io_res (bind_res (team_classify P C status body) (\<lambda>_.
         map_err TeamCrypto (bind_res (team_parse P read_key_answer body) (\<lambda>(current, es).
           bind_res (collect_ok (make_sealed_envelope P) es) (\<lambda>es. Inr (KeyEnvelopesAnswer current es))))))))"

definition fetch_member_keys ::
    "prims \<Rightarrow> 'w sync_context \<Rightarrow> string \<Rightarrow> ('w world, team_vault_error, member_keys option) io" where
  "fetch_member_keys P C team_id =
     io_bind (io_res (team_slot (resource_team_route team_id MemberKeys))) (\<lambda>resource.
     io_bind (team_call P C resource ''GET'' None []) (\<lambda>(status, body).
     if status = 404 then io_ok None
     else
       io_res (bind_res (team_classify P C status body) (\<lambda>_.
         map_err TeamCrypto (bind_res (team_parse P read_members body) (\<lambda>(current, recommended, ms).
           bind_res (collect_ok (make_member P) ms) (\<lambda>ms.
           Inr (Some \<lparr>ms_current_version = current, ms_rotation_recommended = recommended, ms_members = ms\<rparr>))))))))"

definition put_envelopes ::
    "prims \<Rightarrow> 'w sync_context \<Rightarrow> string \<Rightarrow> u32 \<Rightarrow> outgoing_envelope list \<Rightarrow>
     ('w world, team_vault_error, envelope_write) io" where
  "put_envelopes P C team_id key_version envelopes =
     io_bind (io_res (team_slot (resource_team_route team_id KeyEnvelopes))) (\<lambda>resource.
     io_bind (io_res (team_body P (JObj [(''keyVersion'', JNum (uint key_version)),
       (''envelopes'', wire_envelopes P envelopes)]))) (\<lambda>body.
     io_bind (team_call P C resource ''PUT'' (Some body) []) (\<lambda>(status, body).
     if status = 404 then io_ok EnvelopeNotMember
     else if status = 409 \<and> error_slug P body = Some ''key_version_stale'' then io_ok EnvelopeVersionStale
     else if status = 409 \<and> error_slug P body = Some ''recipient_key_changed'' then io_ok EnvelopeRecipientChanged
     else io_res (bind_res (team_classify P C status body) (\<lambda>_. Inr EnvelopeStored)))))"

definition client_rotate_key ::
    "prims \<Rightarrow> 'w sync_context \<Rightarrow> string \<Rightarrow> u32 \<Rightarrow> outgoing_envelope list \<Rightarrow>
     ('w world, team_vault_error, rotate_write) io" where
  "client_rotate_key P C team_id from_version envelopes =
     io_bind (io_res (team_slot (resource_team_route team_id KeyRotate))) (\<lambda>resource.
     io_bind (io_res (team_body P (JObj [(''fromVersion'', JNum (uint from_version)),
       (''envelopes'', wire_envelopes P envelopes)]))) (\<lambda>body.
     io_bind (team_call P C resource ''POST'' (Some body) []) (\<lambda>(status, body).
     if status = 404 then io_ok RotateNotMember
     else if status = 409 \<and> error_slug P body = Some ''key_version_stale'' then io_ok RotateVersionStale
     else if status = 409 \<and> error_slug P body = Some ''recipient_key_changed''
     then io_ok (RotateRecipientChanged (error_field P body ''userId''))
     else io_res (bind_res (team_classify P C status body) (\<lambda>_. Inr RotateRotated)))))"

definition list_vault ::
    "prims \<Rightarrow> 'w sync_context \<Rightarrow> string \<Rightarrow> ('w world, team_vault_error, vault_listing list option) io" where
  "list_vault P C team_id =
     io_bind (io_res (team_slot (resource_team_listing team_id))) (\<lambda>resource.
     io_bind (team_call P C resource ''GET'' None []) (\<lambda>(status, body).
     if status = 404 then io_ok None
     else
       io_res (bind_res (team_classify P C status body) (\<lambda>_.
         map_err TeamCrypto (bind_res (team_parse P read_vault body) (\<lambda>ls.
           bind_res (collect_ok make_listing ls) (\<lambda>ls. Inr (Some ls))))))))"

definition fetch_entry ::
    "prims \<Rightarrow> 'w sync_context \<Rightarrow> string \<Rightarrow> entry_id \<Rightarrow> ('w world, team_vault_error, vault_document option) io" where
  "fetch_entry P C team_id entry =
     io_bind (io_res (team_slot (resource_team_entry team_id (entry_hex entry)))) (\<lambda>resource.
     io_bind (team_call P C resource ''GET'' None []) (\<lambda>(status, body).
     if status = 404 then io_ok None
     else
       io_res (bind_res (team_classify P C status body) (\<lambda>_.
         map_err TeamCrypto (bind_res (parse_document P body) (\<lambda>d. Inr (Some d)))))))"

definition vault_header :: "vault_precondition \<Rightarrow> string \<times> string" where
  "vault_header p = (case p of VaultCreate \<Rightarrow> (''If-None-Match'', ''*'') | VaultReplace revision \<Rightarrow> (''If-Match'', revision))"

definition store_entry ::
    "prims \<Rightarrow> 'w sync_context \<Rightarrow> string \<Rightarrow> entry_id \<Rightarrow> string \<Rightarrow> u32 \<Rightarrow> vault_precondition \<Rightarrow>
     ('w world, team_vault_error, vault_write) io" where
  "store_entry P C team_id entry blob key_version precondition =
     io_bind (io_res (team_slot (resource_team_entry team_id (entry_hex entry)))) (\<lambda>resource.
     io_bind (io_res (team_body P (JObj [(''blob'', JStr blob), (''keyVersion'', JNum (uint key_version))]))) (\<lambda>body.
     io_bind (team_call P C resource ''PUT'' (Some body) [vault_header precondition]) (\<lambda>(status, body).
     if status = 409 \<and> error_slug P body = Some ''key_version_stale'' then io_ok VaultVersionStale
     else if status = 409 then io_res (map_err TeamCrypto (bind_res (parse_document P body) (\<lambda>d. Inr (VaultConflict d))))
     else if status = 404 then io_ok VaultGone
     else
       io_res (bind_res (team_classify P C status body) (\<lambda>_.
         map_err TeamCrypto (bind_res (team_parse P read_revision body) (\<lambda>revision. Inr (VaultStored revision))))))))"

definition delete_entry ::
    "prims \<Rightarrow> 'w sync_context \<Rightarrow> string \<Rightarrow> entry_id \<Rightarrow> ('w world, team_vault_error, unit) io" where
  "delete_entry P C team_id entry =
     io_bind (io_res (team_slot (resource_team_entry team_id (entry_hex entry)))) (\<lambda>resource.
     io_bind (team_call P C resource ''DELETE'' None []) (\<lambda>(status, body).
     if status = 404 then io_ok () else io_res (team_classify P C status body)))"

section \<open>A key is the key its fingerprint names\<close>

definition member_ok :: "prims \<Rightarrow> member_key \<Rightarrow> bool" where
  "member_ok P m \<longleftrightarrow>
     (case mk_key m of
        None \<Rightarrow> True
      | Some key \<Rightarrow> rk_fingerprint key = fingerprint_of P (rk_public_key key) \<and>
          length (rk_public_key key) = KEY_LEN \<and> \<not> is_low_order_public_key (rk_public_key key))"

lemma make_registered_key_ok:
  "make_registered_key P k f = Inr key \<Longrightarrow>
     rk_fingerprint key = fingerprint_of P (rk_public_key key) \<and>
     length (rk_public_key key) = KEY_LEN \<and> \<not> is_low_order_public_key (rk_public_key key) \<and>
     fingerprint_from_hex f = Some (rk_fingerprint key)"
  by (auto simp: make_registered_key_def decode_public_key_def Let_def bind_res_eq_Inr split: if_splits option.splits)

lemma make_member_ok: "make_member P m = Inr k \<Longrightarrow> member_ok P k"
  by (auto simp: make_member_def member_ok_def bind_res_eq_Inr dest!: make_registered_key_ok split: option.splits)

lemma fetch_member_keys_ok:
  "fetch_member_keys P C team_id w = (Inr (Some ms), w') \<Longrightarrow> m \<in> set (ms_members ms) \<Longrightarrow> member_ok P m"
  by (auto simp: fetch_member_keys_def io_eqs bind_res_eq_Inr split: if_splits prod.splits dest!: collect_ok_set
      intro: make_member_ok)

lemma list_vault_ok:
  "list_vault P C team_id w = (Inr (Some ls), w') \<Longrightarrow> l \<in> set ls \<Longrightarrow> entry_ok (vl_entry_id l)"
  using entry.enc_dec
  by (auto simp: list_vault_def make_listing_def io_eqs bind_res_eq_Inr split: if_splits prod.splits dest!: collect_ok_set)

text \<open>An answer that only says billing is off is an error of every call, never an absence.\<close>

lemma team_call_no_billing:
  "team_call P C r m b hs w = (Inr (404, body), w') \<Longrightarrow> error_slug P body \<noteq> Some ''billing_disabled''"
  by (auto simp: team_call_def io_eqs split: if_splits prod.splits)

section \<open>What the calls leave alone\<close>

lemma frame_team_call [frame_intros]:
  "frame files (team_call P C r m b hs)" "frame keychain (team_call P C r m b hs)"
  unfolding team_call_def by (intro frame_intros)+

end
