(* ===== verification/Team_Trust.thy ===== *)
theory Team_Trust
  imports Team_Client
begin

text \<open>
  \<^verbatim>\<open>zode_team_vault/src/pins.rs\<close>, what this machine has decided to trust about a team and what it
  has seen of it, and \<^verbatim>\<open>grant.rs\<close>, the two directions a team key travels in. A key is sealed only to
  a fingerprint the user verified; an envelope is opened only against the sealer's pin, its own
  key, or, on a team never opened before, the key the listing names, which is then remembered as
  seen and no more.
\<close>

section \<open>The trust record\<close>

record pinned_key =
  pk_fingerprint :: fingerprint
  pk_email :: string
  pk_pinned_at :: u64
  pk_verified :: bool

datatype pin_check = PinNew | PinSeen | PinVerified | PinChanged pinned_key

record team_trust =
  tt_pins :: "(string \<times> string, pinned_key) btree"
  tt_key_version_floor :: "(string, u32) btree"
  tt_seen_seq :: "(string \<times> string, u64) btree"

definition team_trust_default :: team_trust where
  "team_trust_default = \<lparr>tt_pins = [], tt_key_version_floor = [], tt_seen_seq = []\<rparr>"

definition pinned :: "team_trust \<Rightarrow> string \<Rightarrow> string \<Rightarrow> pinned_key option" where
  "pinned T team_id user_id = bt_get (tt_pins T) (team_id, user_id)"

definition trust_check :: "team_trust \<Rightarrow> string \<Rightarrow> string \<Rightarrow> fingerprint \<Rightarrow> pin_check" where
  "trust_check T team_id user_id f =
     (case pinned T team_id user_id of
        None \<Rightarrow> PinNew
      | Some p \<Rightarrow>
          if pk_fingerprint p = f \<and> pk_verified p then PinVerified
          else if pk_fingerprint p = f then PinSeen
          else PinChanged p)"

definition insert_pin ::
    "string \<Rightarrow> string \<Rightarrow> string \<Rightarrow> fingerprint \<Rightarrow> u64 \<Rightarrow> bool \<Rightarrow> team_trust \<Rightarrow> team_trust" where
  "insert_pin team_id user_id email f now verified T =
     T\<lparr>tt_pins := bt_insert (team_id, user_id)
        \<lparr>pk_fingerprint = f, pk_email = email, pk_pinned_at = now, pk_verified = verified\<rparr> (tt_pins T)\<rparr>"

definition verify_pin :: "string \<Rightarrow> string \<Rightarrow> string \<Rightarrow> fingerprint \<Rightarrow> u64 \<Rightarrow> team_trust \<Rightarrow> team_trust" where
  "verify_pin team_id user_id email f now T = insert_pin team_id user_id email f now True T"

definition remember_first_sight :: "string \<Rightarrow> string \<Rightarrow> string \<Rightarrow> fingerprint \<Rightarrow> u64 \<Rightarrow> team_trust \<Rightarrow> team_trust" where
  "remember_first_sight team_id user_id email f now T =
     (if pinned T team_id user_id = None then insert_pin team_id user_id email f now False T else T)"

definition key_version_floor :: "team_trust \<Rightarrow> string \<Rightarrow> u32" where
  "key_version_floor T team_id = (case bt_get (tt_key_version_floor T) team_id of Some v \<Rightarrow> v | None \<Rightarrow> 0)"

definition has_opened :: "team_trust \<Rightarrow> string \<Rightarrow> bool" where
  "has_opened T team_id \<longleftrightarrow>
     key_version_floor T team_id > 0 \<or> list_ex (\<lambda>(pinned_team, _). pinned_team = team_id) (map fst (tt_pins T))"

definition observe_key_version :: "string \<Rightarrow> u32 \<Rightarrow> team_trust \<Rightarrow> team_crypto_error + bool \<times> team_trust" where
  "observe_key_version team_id version T =
     (let seen = key_version_floor T team_id in
      if version < seen then Inl (KeyVersionRollback seen version)
      else if version > seen
      then Inr (True, T\<lparr>tt_key_version_floor := bt_insert team_id version (tt_key_version_floor T)\<rparr>)
      else Inr (False, T))"

definition trust_seen_seq :: "team_trust \<Rightarrow> string \<Rightarrow> string \<Rightarrow> u64 option" where
  "trust_seen_seq T team_id entry_id = bt_get (tt_seen_seq T) (team_id, entry_id)"

definition trust_record_seq :: "string \<Rightarrow> string \<Rightarrow> u64 \<Rightarrow> team_trust \<Rightarrow> bool \<times> team_trust" where
  "trust_record_seq team_id entry_id seq T =
     (let slot = (case bt_get (tt_seen_seq T) (team_id, entry_id) of Some s \<Rightarrow> s | None \<Rightarrow> 0);
          next = (if seq > slot then seq else slot)
      in (seq > slot, T\<lparr>tt_seen_seq := bt_insert (team_id, entry_id) next (tt_seen_seq T)\<rparr>))"

section \<open>The record on disk\<close>

definition RECORD_VERSION :: u32 where
  "RECORD_VERSION = 1"

record stored_pin =
  sp_team_id :: string
  sp_user_id :: string
  sp_email :: string
  sp_fingerprint :: string
  sp_pinned_at :: u64
  sp_verified :: bool

record stored_seq =
  ss_team_id :: string
  ss_entry_id :: string
  ss_seq :: u64

record stored_record =
  sr_v :: u32
  sr_pins :: "stored_pin list"
  sr_floors :: "(string, u32) btree"
  sr_seen :: "stored_seq list"

definition stored_pin_json :: "stored_pin \<Rightarrow> json" where
  "stored_pin_json p =
     JObj [(''teamId'', JStr (sp_team_id p)), (''userId'', JStr (sp_user_id p)), (''email'', JStr (sp_email p)),
       (''fingerprint'', JStr (sp_fingerprint p)), (''pinnedAt'', JNum (uint (sp_pinned_at p))),
       (''verified'', JBool (sp_verified p))]"

definition stored_seq_json :: "stored_seq \<Rightarrow> json" where
  "stored_seq_json s =
     JObj [(''teamId'', JStr (ss_team_id s)), (''entryId'', JStr (ss_entry_id s)), (''seq'', JNum (uint (ss_seq s)))]"

definition stored_record_json :: "stored_record \<Rightarrow> json" where
  "stored_record_json r =
     JObj [(''v'', JNum (uint (sr_v r))), (''pins'', JArr (map stored_pin_json (sr_pins r))),
       (''floors'', JObj (map (\<lambda>(k, v). (k, JNum (uint v))) (sr_floors r))),
       (''seen'', JArr (map stored_seq_json (sr_seen r)))]"

definition stored_pin_of_json :: "json \<Rightarrow> stored_pin option" where
  "stored_pin_of_json j =
     (case struct_fields_default [''teamId'', ''userId'', ''email'', ''fingerprint'', ''pinnedAt'', ''verified''] [''verified''] j of
        Some [t, u, e, f, a, v] \<Rightarrow>
          (case (as_req as_str t, as_req as_str u, as_req as_str e, as_req as_str f, as_req as_u64 a, as_default False as_bool v) of
             (Some t, Some u, Some e, Some f, Some a, Some v) \<Rightarrow>
               Some \<lparr>sp_team_id = t, sp_user_id = u, sp_email = e, sp_fingerprint = f, sp_pinned_at = a, sp_verified = v\<rparr>
           | _ \<Rightarrow> None)
      | _ \<Rightarrow> None)"

definition stored_seq_of_json :: "json \<Rightarrow> stored_seq option" where
  "stored_seq_of_json j =
     (case struct_fields [''teamId'', ''entryId'', ''seq''] j of
        Some [t, e, s] \<Rightarrow>
          (case (as_req as_str t, as_req as_str e, as_req as_u64 s) of
             (Some t, Some e, Some s) \<Rightarrow> Some \<lparr>ss_team_id = t, ss_entry_id = e, ss_seq = s\<rparr>
           | _ \<Rightarrow> None)
      | _ \<Rightarrow> None)"

text \<open>A \<^verbatim>\<open>BTreeMap\<close> reads its members in order, a later one replacing an earlier one.\<close>

definition as_btree :: "(json \<Rightarrow> 'v option) \<Rightarrow> json \<Rightarrow> (string, 'v) btree option" where
  "as_btree f j =
     (case j of
        JObj fs \<Rightarrow> map_option (\<lambda>kvs. fold (\<lambda>(k, v). bt_insert k v) kvs [])
          (read_all (\<lambda>(k, j). map_option (\<lambda>v. (k, v)) (f j)) fs)
      | _ \<Rightarrow> None)"

definition stored_record_of_json :: "json \<Rightarrow> stored_record option" where
  "stored_record_of_json j =
     (case struct_fields [''v'', ''pins'', ''floors'', ''seen''] j of
        Some [v, ps, fs, ss] \<Rightarrow>
          (case (as_req as_u32 v, as_req (as_list stored_pin_of_json) ps, as_req (as_btree as_u32) fs,
                 as_req (as_list stored_seq_of_json) ss) of
             (Some v, Some ps, Some fs, Some ss) \<Rightarrow> Some \<lparr>sr_v = v, sr_pins = ps, sr_floors = fs, sr_seen = ss\<rparr>
           | _ \<Rightarrow> None)
      | _ \<Rightarrow> None)"

definition stored_of_trust :: "team_trust \<Rightarrow> stored_record" where
  "stored_of_trust T =
     \<lparr>sr_v = RECORD_VERSION,
      sr_pins = map (\<lambda>((t, u), p). \<lparr>sp_team_id = t, sp_user_id = u, sp_email = pk_email p,
        sp_fingerprint = fingerprint_hex (pk_fingerprint p), sp_pinned_at = pk_pinned_at p, sp_verified = pk_verified p\<rparr>) (tt_pins T),
      sr_floors = tt_key_version_floor T,
      sr_seen = map (\<lambda>((t, e), s). \<lparr>ss_team_id = t, ss_entry_id = e, ss_seq = s\<rparr>) (tt_seen_seq T)\<rparr>"

definition trust_to_json :: "prims \<Rightarrow> team_trust \<Rightarrow> team_vault_error + string" where
  "trust_to_json P T = map_err TeamStorage (json_text P (stored_record_json (stored_of_trust T)))"

fun take_pins :: "stored_pin list \<Rightarrow> team_trust \<Rightarrow> team_vault_error + team_trust" where
  "take_pins [] T = Inr T"
| "take_pins (p # ps) T =
     bind_res (ok_or (TeamStorage (''an unreadable pin for '' @ sp_user_id p)) (fingerprint_from_hex (sp_fingerprint p))) (\<lambda>f.
     take_pins ps (insert_pin (sp_team_id p) (sp_user_id p) (sp_email p) f (sp_pinned_at p) (sp_verified p) T))"

definition trust_from_json :: "prims \<Rightarrow> string \<Rightarrow> team_vault_error + team_trust" where
  "trust_from_json P raw =
     bind_res (map_err (\<lambda>e. TeamStorage (''unreadable: '' @ e))
       (bind_res (json_read P raw) (\<lambda>j. ok_or (serde_error P j) (stored_record_of_json j)))) (\<lambda>r.
     if sr_v r \<noteq> RECORD_VERSION
     then Inl (TeamStorage (''record version '' @ nat_str (unat (sr_v r)) @ '' is not supported''))
     else
       bind_res (take_pins (sr_pins r) (team_trust_default\<lparr>tt_key_version_floor := sr_floors r\<rparr>)) (\<lambda>T.
       Inr (fold (\<lambda>s T. snd (trust_record_seq (ss_team_id s) (ss_entry_id s) (ss_seq s) T)) (sr_seen r) T)))"

definition storage_key :: "string \<Rightarrow> string" where
  "storage_key user_id = ''zode_team_trust:'' @ user_id"

definition pins_load :: "prims \<Rightarrow> string \<Rightarrow> ('w world, team_vault_error, team_trust) io" where
  "pins_load P user_id =
     io_bind (io_map_err TeamStorage (kv_read (storage_key user_id))) (\<lambda>stored.
     case stored of
       None \<Rightarrow> io_ok team_trust_default
     | Some raw \<Rightarrow> io_res (trust_from_json P raw))"

definition pins_save :: "prims \<Rightarrow> string \<Rightarrow> team_trust \<Rightarrow> ('w world, team_vault_error, unit) io" where
  "pins_save P user_id T =
     io_bind (io_res (trust_to_json P T)) (\<lambda>value. io_map_err TeamStorage (kv_write (storage_key user_id) value))"

section \<open>Granting\<close>

definition prepare_grant ::
    "prims \<Rightarrow> team_trust \<Rightarrow> string \<Rightarrow> sharing_keypair \<Rightarrow> team_keyring \<Rightarrow> member_key \<Rightarrow>
     ('w world, team_vault_error, u32 \<times> outgoing_envelope) io" where
  "prepare_grant P T team_id wrapper keyring member =
     io_bind (io_res (ok_or (NoSharingKey (mk_user_id member)) (mk_key member))) (\<lambda>key.
     case trust_check T team_id (mk_user_id member) (rk_fingerprint key) of
       PinNew \<Rightarrow> io_err (NotPinned (mk_user_id member))
     | PinSeen \<Rightarrow> io_err (NotPinned (mk_user_id member))
     | PinChanged _ \<Rightarrow> io_err (KeyChanged (mk_user_id member))
     | PinVerified \<Rightarrow>
         io_bind (io_res (ok_or NoTeamKey (keyring_current keyring))) (\<lambda>(key_version, team_key).
         io_bind (io_map_err TeamCrypto (wrap P wrapper (rk_public_key key)
             \<lparr>ei_team_id = team_id, ei_recipient_user_id = mk_user_id member, ei_key_version = key_version\<rparr> team_key)) (\<lambda>wrapped.
         io_ok (key_version, \<lparr>og_user_id = mk_user_id member, og_recipient_fingerprint = rk_fingerprint key,
           og_wrapped_key = wrapped\<rparr>))))"

section \<open>Opening what was granted\<close>

definition version_counts :: "sealed_envelope list \<Rightarrow> (u32, nat) btree" where
  "version_counts es =
     fold (\<lambda>e m. bt_insert (se_key_version e)
       (Suc (case bt_get m (se_key_version e) of Some n \<Rightarrow> n | None \<Rightarrow> 0)) m) es []"

definition duplicate_problems :: "(u32, nat) btree \<Rightarrow> (u32 \<times> team_vault_error) list" where
  "duplicate_problems counts =
     map (\<lambda>(version, count). (version, TeamCrypto (TeamMalformed (''the server sent '' @ nat_str count @
            '' envelopes for team key version '' @ nat_str (unat version)))))
       (filter (\<lambda>(_, count). count > 1) counts)"

text \<open>Whose key an envelope is held against, and whether that is a first sighting.\<close>

definition expected_sealer ::
    "prims \<Rightarrow> team_trust \<Rightarrow> bool \<Rightarrow> string \<Rightarrow> string \<Rightarrow> sharing_keypair \<Rightarrow> member_key list \<Rightarrow> string \<Rightarrow>
     (fingerprint \<times> member_key option) option" where
  "expected_sealer P T first_open team_id my_user_id me members sealer =
     (if sealer = my_user_id then Some (sharing_fingerprint P me, None)
      else case pinned T team_id sealer of
        Some p \<Rightarrow> Some (pk_fingerprint p, None)
      | None \<Rightarrow>
          (case List.find (\<lambda>m. mk_user_id m = sealer) members of
             None \<Rightarrow> None
           | Some member \<Rightarrow>
               (case mk_key member of
                  Some key \<Rightarrow> if first_open then Some (rk_fingerprint key, Some member) else None
                | None \<Rightarrow> None)))"

type_synonym unsealing = "team_trust \<times> team_keyring \<times> (u32 \<times> team_vault_error) list"

definition open_envelope ::
    "prims \<Rightarrow> bool \<Rightarrow> (u32, nat) btree \<Rightarrow> string \<Rightarrow> string \<Rightarrow> sharing_keypair \<Rightarrow> member_key list \<Rightarrow> u64 \<Rightarrow>
     sealed_envelope \<Rightarrow> unsealing \<Rightarrow> unsealing" where
  "open_envelope P first_open counts team_id my_user_id me members now e st =
     (case st of (T, keyring, problems) \<Rightarrow>
        if bt_get counts (se_key_version e) \<noteq> Some 1 then st
        else
          case expected_sealer P T first_open team_id my_user_id me members (se_wrapped_by e) of
            None \<Rightarrow> (T, keyring, problems @ [(se_key_version e, NotPinned (se_wrapped_by e))])
          | Some (expected, first_sighting) \<Rightarrow>
              (case unwrap P me (se_wrapped_key e)
                   \<lparr>ei_team_id = team_id, ei_recipient_user_id = my_user_id, ei_key_version = se_key_version e\<rparr> expected of
                 Inr team_key \<Rightarrow>
                   ((case first_sighting of
                       Some member \<Rightarrow> remember_first_sight team_id (se_wrapped_by e) (mk_email member) expected now T
                     | None \<Rightarrow> T),
                    keyring_insert (se_key_version e) team_key keyring, problems)
               | Inl err \<Rightarrow> (T, keyring, problems @ [(se_key_version e, TeamCrypto err)])))"

definition open_envelopes ::
    "prims \<Rightarrow> team_trust \<Rightarrow> string \<Rightarrow> string \<Rightarrow> sharing_keypair \<Rightarrow> sealed_envelope list \<Rightarrow> member_key list \<Rightarrow> u64 \<Rightarrow> unsealing" where
  "open_envelopes P T team_id my_user_id me envelopes members now =
     (let first_open = \<not> has_opened T team_id; counts = version_counts envelopes
      in fold (open_envelope P first_open counts team_id my_user_id me members now) envelopes
           (T, [], duplicate_problems counts))"

section \<open>What the record remembers\<close>

lemma pinned_insert [simp]:
  "pinned (insert_pin t u em f now v T) t' u' =
     (if (t', u') = (t, u) then Some \<lparr>pk_fingerprint = f, pk_email = em, pk_pinned_at = now, pk_verified = v\<rparr> else pinned T t' u')"
  by (simp add: pinned_def insert_pin_def)

lemma insert_pin_others [simp]:
  "tt_key_version_floor (insert_pin t u em f now v T) = tt_key_version_floor T"
  "tt_seen_seq (insert_pin t u em f now v T) = tt_seen_seq T"
  by (simp_all add: insert_pin_def)

lemma remember_others [simp]:
  "tt_key_version_floor (remember_first_sight t u em f now T) = tt_key_version_floor T"
  "tt_seen_seq (remember_first_sight t u em f now T) = tt_seen_seq T"
  by (simp_all add: remember_first_sight_def)

lemma pinned_remember:
  "pinned (remember_first_sight t u em f now T) t' u' =
     (if (t', u') = (t, u) \<and> pinned T t u = None
      then Some \<lparr>pk_fingerprint = f, pk_email = em, pk_pinned_at = now, pk_verified = False\<rparr> else pinned T t' u')"
  by (simp add: remember_first_sight_def)

lemma trust_check_verified:
  "trust_check T t u f = PinVerified \<longleftrightarrow> (\<exists>p. pinned T t u = Some p \<and> pk_fingerprint p = f \<and> pk_verified p)"
  by (simp add: trust_check_def split: option.splits)

lemma observe_Inr:
  assumes "observe_key_version t v T = Inr (moved, T')"
  shows "key_version_floor T t \<le> v" "key_version_floor T' t = v" "tt_pins T' = tt_pins T" "tt_seen_seq T' = tt_seen_seq T"
    "t' \<noteq> t \<Longrightarrow> key_version_floor T' t' = key_version_floor T t'"
  using assms by (auto simp: observe_key_version_def Let_def key_version_floor_def split: if_splits option.splits)

lemma record_seq_seen:
  "trust_seen_seq (snd (trust_record_seq t e s T)) t' e' =
     (if (t', e') = (t, e) then Some (max s (case trust_seen_seq T t e of Some x \<Rightarrow> x | None \<Rightarrow> 0)) else trust_seen_seq T t' e')"
  by (auto simp: trust_record_seq_def trust_seen_seq_def Let_def max_def word_gt_0 not_less split: option.splits)

lemma record_seq_others [simp]:
  "tt_pins (snd (trust_record_seq t e s T)) = tt_pins T"
  "tt_key_version_floor (snd (trust_record_seq t e s T)) = tt_key_version_floor T"
  by (simp_all add: trust_record_seq_def Let_def)

text \<open>What a record knows only grows: versions and sequence numbers never go down, no pin is dropped
  and a verified pin stays what it is.\<close>

definition trust_le :: "team_trust \<Rightarrow> team_trust \<Rightarrow> bool" where
  "trust_le T T' \<longleftrightarrow>
     (\<forall>t. key_version_floor T t \<le> key_version_floor T' t) \<and>
     (\<forall>t e s. trust_seen_seq T t e = Some s \<longrightarrow> (\<exists>s'. trust_seen_seq T' t e = Some s' \<and> s \<le> s')) \<and>
     (\<forall>t u p. pinned T t u = Some p \<longrightarrow> pinned T' t u = Some p)"

lemma trust_le_refl [simp]: "trust_le T T"
  by (auto simp: trust_le_def)

lemma trust_le_trans: "trust_le T U \<Longrightarrow> trust_le U V \<Longrightarrow> trust_le T V"
  unfolding trust_le_def by (meson order_trans)

lemma floor_cong: "tt_key_version_floor T = tt_key_version_floor U \<Longrightarrow> key_version_floor T t = key_version_floor U t"
  by (simp add: key_version_floor_def)

lemma seen_cong: "tt_seen_seq T = tt_seen_seq U \<Longrightarrow> trust_seen_seq T t e = trust_seen_seq U t e"
  by (simp add: trust_seen_seq_def)

lemma pinned_cong: "tt_pins T = tt_pins U \<Longrightarrow> pinned T t u = pinned U t u"
  by (simp add: pinned_def)

lemma observe_trust_le: "observe_key_version t v T = Inr (moved, T') \<Longrightarrow> trust_le T T'"
  unfolding trust_le_def
  by (metis (no_types) observe_Inr(1-5) order_refl pinned_cong seen_cong)

lemma record_seq_trust_le: "trust_le T (snd (trust_record_seq t e s T))"
  by (auto simp: trust_le_def record_seq_seen key_version_floor_def pinned_def)

lemma remember_trust_le: "trust_le T (remember_first_sight t u em f now T)"
  by (auto simp: trust_le_def pinned_remember trust_seen_seq_def key_version_floor_def)

section \<open>The record reads back\<close>

definition trust_ok :: "team_trust \<Rightarrow> bool" where
  "trust_ok T \<longleftrightarrow> bt_ok (tt_pins T) \<and> bt_ok (tt_key_version_floor T) \<and> bt_ok (tt_seen_seq T) \<and>
     list_all (\<lambda>(_, p). fingerprint_ok (pk_fingerprint p)) (tt_pins T)"

lemma stored_pin_roundtrip [simp]: "stored_pin_of_json (stored_pin_json p) = Some p"
  by (simp add: stored_pin_of_json_def stored_pin_json_def struct_simps as_default_def)

lemma stored_seq_roundtrip [simp]: "stored_seq_of_json (stored_seq_json p) = Some p"
  by (simp add: stored_seq_of_json_def stored_seq_json_def struct_simps)

lemma as_btree_roundtrip:
  assumes "bt_ok m"
  shows "as_btree as_u32 (JObj (map (\<lambda>(k, v). (k, JNum (uint v))) m)) = Some m"
proof -
  have "read_all (\<lambda>(k, j). map_option (\<lambda>v. (k, v)) (as_u32 j)) (map (\<lambda>(k, v). (k, JNum (uint v))) m) = Some m"
    by (intro read_all_map) auto
  then show ?thesis using bt_rebuild [of "[]" m] assms by (simp add: as_btree_def)
qed

lemma stored_record_roundtrip:
  "bt_ok (sr_floors r) \<Longrightarrow> stored_record_of_json (stored_record_json r) = Some r"
  using as_btree_roundtrip [of "sr_floors r"]
  by (simp add: stored_record_of_json_def stored_record_json_def struct_simps as_list_def read_all_map)

lemma take_pins_stored:
  assumes "list_all (\<lambda>(_, p). fingerprint_ok (pk_fingerprint p)) ps"
  shows "take_pins (map (\<lambda>((t, u), p). \<lparr>sp_team_id = t, sp_user_id = u, sp_email = pk_email p,
      sp_fingerprint = fingerprint_hex (pk_fingerprint p), sp_pinned_at = pk_pinned_at p, sp_verified = pk_verified p\<rparr>) ps) T =
    Inr (T\<lparr>tt_pins := fold (\<lambda>(k, v). bt_insert k v) ps (tt_pins T)\<rparr>)"
  using assms
proof (induction ps arbitrary: T)
  case (Cons e ps)
  obtain t u p where "e = ((t, u), p)" by (metis prod.collapse)
  with Cons show ?case by (cases p) (simp add: fp.dec_enc insert_pin_def)
qed simp

lemma record_seqs_stored:
  assumes "bt_ok (tt_seen_seq T @ ss)"
  shows "fold (\<lambda>s T. snd (trust_record_seq (ss_team_id s) (ss_entry_id s) (ss_seq s) T))
      (map (\<lambda>((t, e), s). \<lparr>ss_team_id = t, ss_entry_id = e, ss_seq = s\<rparr>) ss) T =
    T\<lparr>tt_seen_seq := tt_seen_seq T @ ss\<rparr>"
  using assms
proof (induction ss arbitrary: T)
  case (Cons x ss)
  obtain t e s where x: "x = ((t, e), s)" by (metis prod.collapse)
  have lt: "\<forall>k \<in> fst ` set (tt_seen_seq T). k < (t, e)"
    using Cons.prems by (auto simp: x bt_ok_def sorted_wrt_append)
  then have "bt_get (tt_seen_seq T) (t, e) = None" by (auto simp: bt_get_notin)
  then have "snd (trust_record_seq t e s T) = T\<lparr>tt_seen_seq := tt_seen_seq T @ [((t, e), s)]\<rparr>"
    using bt_insert_greatest [OF lt, of s] by (cases "s = 0") (simp_all add: trust_record_seq_def Let_def word_gt_0)
  with Cons.IH [of "T\<lparr>tt_seen_seq := tt_seen_seq T @ [((t, e), s)]\<rparr>"] Cons.prems show ?case by (simp add: x)
qed simp

lemma trust_roundtrip:
  assumes "json_ok P" "trust_ok T" "trust_to_json P T = Inr raw"
  shows "trust_from_json P raw = Inr T"
proof -
  have "stored_record_of_json (stored_record_json (stored_of_trust T)) = Some (stored_of_trust T)"
    using assms(2) by (intro stored_record_roundtrip) (simp add: stored_of_trust_def trust_ok_def)
  moreover have "json_read P raw = Inr (stored_record_json (stored_of_trust T))"
    using assms(1,3) by (auto simp: trust_to_json_def json_ok_def)
  moreover have "take_pins (sr_pins (stored_of_trust T)) (team_trust_default\<lparr>tt_key_version_floor := sr_floors (stored_of_trust T)\<rparr>) =
      Inr (T\<lparr>tt_seen_seq := []\<rparr>)"
    using bt_rebuild [of "[]" "tt_pins T"] assms(2)
    by (cases T) (simp add: trust_ok_def stored_of_trust_def take_pins_stored team_trust_default_def)
  moreover have "fold (\<lambda>s T. snd (trust_record_seq (ss_team_id s) (ss_entry_id s) (ss_seq s) T))
      (sr_seen (stored_of_trust T)) (T\<lparr>tt_seen_seq := []\<rparr>) = T"
    using assms(2) record_seqs_stored [of "T\<lparr>tt_seen_seq := []\<rparr>" "tt_seen_seq T"] by (simp add: trust_ok_def stored_of_trust_def)
  moreover have "sr_v (stored_of_trust T) = RECORD_VERSION" by (simp add: stored_of_trust_def)
  ultimately show ?thesis by (simp add: trust_from_json_def)
qed

text \<open>The trust record survives, or its loss is noticed. A record that was saved is the record that
  is loaded, every pin, floor and sequence number of it; only an account with no record at all starts
  from an empty one; and a record that does not read is an error, so a damaged one never turns a
  member back into somebody new.\<close>

theorem trust_record_survives:
  assumes "json_ok P" "trust_ok T" "pins_save P user_id T w = (Inr (), w')" "kv_fault w' (tick w') = None"
  shows "fst (pins_load P user_id w') = Inr T \<and>
    (fst (pins_load P user_id v) = Inr team_trust_default \<longrightarrow>
       map_of (kv_rows v) (storage_key user_id) = None \<or>
       (\<exists>raw. map_of (kv_rows v) (storage_key user_id) = Some raw \<and> trust_from_json P raw = Inr team_trust_default))"
proof
  obtain raw where raw: "trust_to_json P T = Inr raw" "map_of (kv_rows w') (storage_key user_id) = Some raw"
    using assms(3) by (auto simp: pins_save_def io_eqs kv_write_def update_conv split: option.splits)
  then show "fst (pins_load P user_id w') = Inr T"
    using trust_roundtrip [OF assms(1,2) raw(1)] assms(4)
    by (simp add: pins_load_def kv_read_def io_bind_apply io_map_err_apply)
qed (auto simp: pins_load_def kv_read_def io_bind_apply io_map_err_apply split: option.splits)

lemma set_bt_insert_subset: "set (bt_insert k v m) \<subseteq> insert (k, v) (set m)"
  by (induction k v m rule: bt_insert.induct) auto

lemma trust_ok_default: "trust_ok team_trust_default"
  by (simp add: trust_ok_def team_trust_default_def)

lemma trust_ok_insert: "trust_ok T \<Longrightarrow> fingerprint_ok f \<Longrightarrow> trust_ok (insert_pin t u em f now v T)"
  by (auto simp: trust_ok_def insert_pin_def bt_ok_insert list_all_iff dest!: set_bt_insert_subset [THEN subsetD])

theorem trust_record_survives_witness:
  "\<exists>w'. pins_save total_prims ''u1'' (verify_pin ''t1'' ''u2'' ''m@h'' (Fingerprint (replicate 16 3)) 7 team_trust_default)
      (quiet_world ()) = (Inr (), w') \<and>
    fst (pins_load total_prims ''u1'' w') =
      Inr (verify_pin ''t1'' ''u2'' ''m@h'' (Fingerprint (replicate 16 3)) 7 team_trust_default)"
proof -
  let ?T = "verify_pin ''t1'' ''u2'' ''m@h'' (Fingerprint (replicate 16 3)) 7 team_trust_default"
  have T: "trust_ok ?T"
    unfolding verify_pin_def by (intro trust_ok_insert trust_ok_default) (simp add: fingerprint_ok_def FINGERPRINT_LEN_def)
  obtain raw where "trust_to_json total_prims ?T = Inr raw"
    using total_json_total by (auto simp: trust_to_json_def json_total_def)
  then obtain w' :: "unit world" where w': "pins_save total_prims ''u1'' ?T (quiet_world ()) = (Inr (), w')" "kv_fault w' (tick w') = None"
    by (simp add: pins_save_def kv_write_def quiet_world_def io_map_err_apply advance_def)
  from trust_record_survives [OF total_json_ok T this, of "quiet_world ()"] w'(1) show ?thesis by blast
qed

section \<open>Whose envelopes are opened\<close>

lemma version_counts_from:
  "bt_get (fold (\<lambda>e m. bt_insert (se_key_version e)
       (Suc (case bt_get m (se_key_version e) of Some n \<Rightarrow> n | None \<Rightarrow> 0)) m) es m) v =
     (let n = length (filter (\<lambda>e. se_key_version e = v) es) in
      if n = 0 then bt_get m v else Some (n + (case bt_get m v of Some k \<Rightarrow> k | None \<Rightarrow> 0)))"
  by (induction es arbitrary: m) (auto simp: Let_def split: option.splits)

lemma version_counts_get:
  "bt_get (version_counts es) v =
     (let n = length (filter (\<lambda>e. se_key_version e = v) es) in if n = 0 then None else Some n)"
  by (simp add: version_counts_def version_counts_from)

text \<open>Whose fingerprint an envelope may be held against: this account's own, the pin, and only on a
  team never opened before, the key the listing names for a sealer without a pin.\<close>

definition sealer_allowed ::
    "prims \<Rightarrow> team_trust \<Rightarrow> string \<Rightarrow> string \<Rightarrow> sharing_keypair \<Rightarrow> member_key list \<Rightarrow> string \<Rightarrow> fingerprint \<Rightarrow> bool" where
  "sealer_allowed P T team_id my_user_id me members sealer f \<longleftrightarrow>
     (if sealer = my_user_id then f = sharing_fingerprint P me
      else case pinned T team_id sealer of
        Some p \<Rightarrow> f = pk_fingerprint p
      | None \<Rightarrow> \<not> has_opened T team_id \<and>
          (\<exists>m key. List.find (\<lambda>m. mk_user_id m = sealer) members = Some m \<and> mk_key m = Some key \<and> f = rk_fingerprint key))"

text \<open>What opening keeps, step by step.\<close>

definition sound_opening ::
    "prims \<Rightarrow> team_trust \<Rightarrow> string \<Rightarrow> string \<Rightarrow> sharing_keypair \<Rightarrow> sealed_envelope list \<Rightarrow> member_key list \<Rightarrow> unsealing \<Rightarrow> bool" where
  "sound_opening P T team_id my_user_id me es members st \<longleftrightarrow>
     (case st of (T', r, _) \<Rightarrow>
        bt_ok r \<and> trust_le T T' \<and> tt_key_version_floor T' = tt_key_version_floor T \<and> tt_seen_seq T' = tt_seen_seq T \<and>
        (\<forall>t u p. pinned T' t u = Some p \<and> pinned T t u = None \<longrightarrow>
           t = team_id \<and> \<not> has_opened T team_id \<and> \<not> pk_verified p \<and>
           u \<noteq> my_user_id \<and> sealer_allowed P T team_id my_user_id me members u (pk_fingerprint p)) \<and>
        (\<forall>v k. keyring_get r v = Some k \<longrightarrow>
           (\<exists>e f. filter (\<lambda>e. se_key_version e = v) es = [e] \<and>
              sealer_allowed P T team_id my_user_id me members (se_wrapped_by e) f \<and>
              unwrap P me (se_wrapped_key e)
                \<lparr>ei_team_id = team_id, ei_recipient_user_id = my_user_id, ei_key_version = v\<rparr> f = Inr k)))"

lemma only_one: "length (filter Q xs) = 1 \<Longrightarrow> x \<in> set xs \<Longrightarrow> Q x \<Longrightarrow> filter Q xs = [x]"
proof -
  assume "length (filter Q xs) = 1" and x: "x \<in> set xs" "Q x"
  then obtain y where y: "filter Q xs = [y]" by (auto simp: length_Suc_conv)
  moreover have "x \<in> set (filter Q xs)" using x by simp
  ultimately show "filter Q xs = [x]" by simp
qed

lemma sound_opening_problems:
  "sound_opening P T team_id my_user_id me es members (T', r, ps) \<Longrightarrow>
   sound_opening P T team_id my_user_id me es members (T', r, ps')"
  unfolding sound_opening_def prod.case .

lemma expected_sealer_allowed:
  assumes "expected_sealer P T' (\<not> has_opened T team_id) team_id my_user_id me members sealer = Some (f, sighting)"
    and "sound_opening P T team_id my_user_id me es members (T', r, ps)"
  shows "sealer_allowed P T team_id my_user_id me members sealer f"
    "sighting = Some m \<Longrightarrow> \<not> has_opened T team_id \<and> sealer \<noteq> my_user_id \<and> pinned T team_id sealer = None"
proof -
  note inv = assms(2) [unfolded sound_opening_def, simplified]
  have keep: "pinned T' team_id sealer = None \<Longrightarrow> pinned T team_id sealer = None"
    using inv by (cases "pinned T team_id sealer") (auto simp: trust_le_def)
  show "sealer_allowed P T team_id my_user_id me members sealer f"
  proof (cases "sealer = my_user_id")
    case False
    show ?thesis
    proof (cases "pinned T' team_id sealer")
      case None
      with False keep assms(1) show ?thesis
        by (auto simp: expected_sealer_def sealer_allowed_def split: option.splits if_splits)
    next
      case (Some p)
      then have f: "f = pk_fingerprint p" using False assms(1) by (auto simp: expected_sealer_def)
      show ?thesis
      proof (cases "pinned T team_id sealer")
        case None
        with Some inv f show ?thesis by blast
      next
        case (Some q)
        then have "pinned T' team_id sealer = Some q" using inv by (auto simp: trust_le_def)
        with \<open>pinned T' team_id sealer = Some p\<close> f Some False show ?thesis by (simp add: sealer_allowed_def)
      qed
    qed
  qed (use assms(1) in \<open>auto simp: expected_sealer_def sealer_allowed_def\<close>)
  show "\<not> has_opened T team_id \<and> sealer \<noteq> my_user_id \<and> pinned T team_id sealer = None" if "sighting = Some m"
    using that keep assms(1) by (auto simp: expected_sealer_def split: option.splits if_splits)
qed

lemma open_envelope_sound:
  assumes "e \<in> set es" "sound_opening P T team_id my_user_id me es members st"
  shows "sound_opening P T team_id my_user_id me es members
    (open_envelope P (\<not> has_opened T team_id) (version_counts es) team_id my_user_id me members now e st)"
proof -
  obtain T' r ps where st: "st = (T', r, ps)" by (metis prod_cases3)
  note inv = assms(2) [unfolded st]
  show ?thesis
  proof (cases "bt_get (version_counts es) (se_key_version e) = Some 1 \<and>
      (\<exists>f sighting k. expected_sealer P T' (\<not> has_opened T team_id) team_id my_user_id me members (se_wrapped_by e) = Some (f, sighting) \<and>
        unwrap P me (se_wrapped_key e)
          \<lparr>ei_team_id = team_id, ei_recipient_user_id = my_user_id, ei_key_version = se_key_version e\<rparr> f = Inr k)")
    case False
    then have "\<exists>ps'. open_envelope P (\<not> has_opened T team_id) (version_counts es) team_id my_user_id me members now e st = (T', r, ps')"
      by (auto simp: open_envelope_def st split: option.splits prod.splits sum.splits)
    then show ?thesis using sound_opening_problems [OF inv] by metis
  next
    case True
    then obtain f sighting k where one: "bt_get (version_counts es) (se_key_version e) = Some 1"
      and ex: "expected_sealer P T' (\<not> has_opened T team_id) team_id my_user_id me members (se_wrapped_by e) = Some (f, sighting)"
      and un: "unwrap P me (se_wrapped_key e)
          \<lparr>ei_team_id = team_id, ei_recipient_user_id = my_user_id, ei_key_version = se_key_version e\<rparr> f = Inr k" by blast
    have "length (filter (\<lambda>x. se_key_version x = se_key_version e) es) = 1"
      using one by (auto simp: version_counts_get Let_def split: if_splits)
    then have single: "filter (\<lambda>x. se_key_version x = se_key_version e) es = [e]"
      using only_one [OF _ assms(1), of "\<lambda>x. se_key_version x = se_key_version e"] by simp
    note allowed = expected_sealer_allowed [OF ex inv]
    define T'' where "T'' = (case sighting of
      Some member \<Rightarrow> remember_first_sight team_id (se_wrapped_by e) (mk_email member) f now T' | None \<Rightarrow> T')"
    have res: "open_envelope P (\<not> has_opened T team_id) (version_counts es) team_id my_user_id me members now e st =
        (T'', keyring_insert (se_key_version e) k r, ps)"
      using one ex un by (simp add: open_envelope_def st T''_def)
    have "trust_le T' T''" by (auto simp: T''_def remember_trust_le split: option.splits)
    then have le: "trust_le T T''" using inv trust_le_trans by (auto simp: sound_opening_def)
    have pins: "t = team_id \<and> \<not> has_opened T team_id \<and> \<not> pk_verified p \<and> u \<noteq> my_user_id \<and>
        sealer_allowed P T team_id my_user_id me members u (pk_fingerprint p)"
      if new: "pinned T'' t u = Some p" and old: "pinned T t u = None" for t u p
    proof (cases "pinned T' t u = Some p")
      case True
      then show ?thesis using old inv [unfolded sound_opening_def prod.case] by blast
    next
      case False
      then obtain m where "sighting = Some m" "t = team_id" "u = se_wrapped_by e" "\<not> pk_verified p" "pk_fingerprint p = f"
        using new by (auto simp: T''_def pinned_remember split: option.splits if_splits)
      then show ?thesis using allowed by blast
    qed
    have same: "tt_key_version_floor T'' = tt_key_version_floor T" "tt_seen_seq T'' = tt_seen_seq T"
      using inv by (auto simp: T''_def sound_opening_def split: option.splits)
    have keys: "\<exists>x f. filter (\<lambda>e. se_key_version e = v) es = [x] \<and>
        sealer_allowed P T team_id my_user_id me members (se_wrapped_by x) f \<and>
        unwrap P me (se_wrapped_key x)
          \<lparr>ei_team_id = team_id, ei_recipient_user_id = my_user_id, ei_key_version = v\<rparr> f = Inr k'"
      if "keyring_get (keyring_insert (se_key_version e) k r) v = Some k'" for v k'
    proof (cases "v = se_key_version e")
      case True
      then show ?thesis using that allowed(1) un single by auto
    next
      case False
      then show ?thesis using that inv [unfolded sound_opening_def prod.case] by simp
    qed
    have "bt_ok (keyring_insert (se_key_version e) k r)" using inv by (simp add: sound_opening_def)
    with le pins same keys show ?thesis unfolding res sound_opening_def prod.case by blast
  qed
qed

lemma open_envelopes_sound:
  "sound_opening P T team_id my_user_id me es members (open_envelopes P T team_id my_user_id me es members now)"
proof -
  have "sound_opening P T team_id my_user_id me es members
      (fold (open_envelope P (\<not> has_opened T team_id) (version_counts es) team_id my_user_id me members now) es
         (T, [], duplicate_problems (version_counts es)))"
  proof (rule fold_invariant [where Q = "\<lambda>e. e \<in> set es"])
    show "sound_opening P T team_id my_user_id me es members (T, [], duplicate_problems (version_counts es))"
      by (auto simp: sound_opening_def bt_ok_def)
  qed (auto intro: open_envelope_sound)
  then show ?thesis by (simp add: open_envelopes_def Let_def)
qed

end
