(* ===== verification/Team_Rotate.thy ===== *)
theory Team_Rotate
  imports Team_Trust
begin

text \<open>
  \<^verbatim>\<open>zode_team_vault/src/rotate.rs\<close>: moving a team to a new key version, then re-sealing what the
  older ones sealed. The new key is sealed to every member who holds a sharing key, each of them
  verified on this machine, before the version moves by compare-and-swap; entries are then re-sealed
  one conditional write at a time, each at most three times.
\<close>

section \<open>The new key for everyone\<close>

definition RESEAL_ATTEMPTS :: nat where
  "RESEAL_ATTEMPTS = 3"

text \<open>Whether the new key may be sealed to a member: their own key for this account, and a verified
  pin for everyone else.\<close>

definition rotation_allows ::
    "prims \<Rightarrow> team_trust \<Rightarrow> string \<Rightarrow> string \<Rightarrow> sharing_keypair \<Rightarrow> member_key \<Rightarrow> registered_key \<Rightarrow> team_vault_error + unit" where
  "rotation_allows P T team_id my_user_id me member key =
     (if mk_user_id member = my_user_id
      then if rk_fingerprint key \<noteq> sharing_fingerprint P me then Inl (KeyChanged (mk_user_id member)) else Inr ()
      else case trust_check T team_id (mk_user_id member) (rk_fingerprint key) of
        PinVerified \<Rightarrow> Inr ()
      | PinNew \<Rightarrow> Inl (NotPinned (mk_user_id member))
      | PinSeen \<Rightarrow> Inl (NotPinned (mk_user_id member))
      | PinChanged _ \<Rightarrow> Inl (KeyChanged (mk_user_id member)))"

fun rotation_members ::
    "prims \<Rightarrow> team_trust \<Rightarrow> string \<Rightarrow> string \<Rightarrow> sharing_keypair \<Rightarrow> u32 \<Rightarrow> team_key \<Rightarrow> member_key list \<Rightarrow>
     outgoing_envelope list \<Rightarrow> bool \<Rightarrow> ('w world, team_vault_error, outgoing_envelope list \<times> bool) io" where
  "rotation_members P T team_id my_user_id me key_version team_key [] envelopes includes_me =
     io_ok (envelopes, includes_me)"
| "rotation_members P T team_id my_user_id me key_version team_key (member # members) envelopes includes_me =
     (case mk_key member of
        None \<Rightarrow> rotation_members P T team_id my_user_id me key_version team_key members envelopes includes_me
      | Some key \<Rightarrow>
          io_bind (io_res (rotation_allows P T team_id my_user_id me member key)) (\<lambda>_.
          io_bind (io_map_err TeamCrypto (wrap P me (rk_public_key key)
            \<lparr>ei_team_id = team_id, ei_recipient_user_id = mk_user_id member, ei_key_version = key_version\<rparr> team_key)) (\<lambda>wrapped.
          rotation_members P T team_id my_user_id me key_version team_key members
            (envelopes @ [\<lparr>og_user_id = mk_user_id member, og_recipient_fingerprint = rk_fingerprint key, og_wrapped_key = wrapped\<rparr>])
            (includes_me \<or> mk_user_id member = my_user_id))))"

definition rotation_envelopes ::
    "prims \<Rightarrow> team_trust \<Rightarrow> string \<Rightarrow> string \<Rightarrow> sharing_keypair \<Rightarrow> member_key list \<Rightarrow> u32 \<Rightarrow> team_key \<Rightarrow>
     ('w world, team_vault_error, outgoing_envelope list) io" where
  "rotation_envelopes P T team_id my_user_id me members key_version team_key =
     io_bind (rotation_members P T team_id my_user_id me key_version team_key members [] False) (\<lambda>(envelopes, includes_me).
     if \<not> includes_me then io_err (TeamCrypto (TeamMalformed ''the member listing does not include this account''))
     else io_ok envelopes)"

section \<open>Moving the version\<close>

datatype rotation_step = StepRotated u32 team_key | StepLostRace

definition rotate_key_version ::
    "prims \<Rightarrow> 'w sync_context \<Rightarrow> team_trust \<Rightarrow> string \<Rightarrow> sharing_keypair \<Rightarrow> team_keyring \<Rightarrow> member_key list \<Rightarrow>
     ('w world, team_vault_error, rotation_step) io" where
  "rotate_key_version P C T team_id me keyring members =
     io_bind (io_res (ok_or NoTeamKey (keyring_current keyring))) (\<lambda>(from_version, _).
     let key_version = from_version + 1 in
     io_bind (io_map_err TeamCrypto team_key_generate) (\<lambda>team_key.
     io_bind (rotation_envelopes P T team_id (sc_user_id C) me members key_version team_key) (\<lambda>envelopes.
     io_bind (client_rotate_key P C team_id from_version envelopes) (\<lambda>written.
     case written of
       RotateRotated \<Rightarrow> io_ok (StepRotated key_version team_key)
     | RotateVersionStale \<Rightarrow> io_ok StepLostRace
     | RotateRecipientChanged user_id \<Rightarrow> io_err (KeyChanged (case user_id of Some u \<Rightarrow> u | None \<Rightarrow> []))
     | RotateNotMember \<Rightarrow> io_err (TeamClient (Rejected ''not_found''))))))"

section \<open>Re-sealing\<close>

record reseal_report =
  rr_resealed :: nat
  rr_unreadable :: "entry_id list"
  rr_refused :: "(entry_id \<times> team_crypto_error) list"
  rr_written :: "(entry_id \<times> u64) list"

definition reseal_report_default :: reseal_report where
  "reseal_report_default = \<lparr>rr_resealed = 0, rr_unreadable = [], rr_refused = [], rr_written = []\<rparr>"

text \<open>One document: what is written in its place, or why nothing is.\<close>

definition reseal_document ::
    "prims \<Rightarrow> 'w sync_context \<Rightarrow> team_trust \<Rightarrow> string \<Rightarrow> u32 \<Rightarrow> team_key \<Rightarrow> entry_id \<Rightarrow> vault_document \<Rightarrow> team_key \<Rightarrow>
     ('w world, team_vault_error, team_crypto_error + u64 \<times> vault_write) io" where
  "reseal_document P C T team_id current_version current_key entry document old_key =
     io_bind (io_res (map_err (\<lambda>e. TeamCrypto (team_of_crypto e)) (from_blob P (vd_blob document)))) (\<lambda>envelope.
     case open_entry P old_key team_id entry (vd_key_version document) (trust_seen_seq T team_id (entry_hex entry)) envelope of
       Inl e \<Rightarrow> io_ok (Inl e)
     | Inr opened \<Rightarrow>
         let seq = oe_seq opened + 1 in
         io_bind (io_map_err TeamCrypto (seal_entry P current_key team_id entry current_version seq (oe_payload opened))) (\<lambda>sealed.
         io_bind (io_res (map_err (\<lambda>e. TeamCrypto (team_of_crypto e)) (to_blob P sealed))) (\<lambda>blob.
         io_bind (store_entry P C team_id entry blob current_version (VaultReplace (vd_revision document))) (\<lambda>written.
         io_ok (Inr (seq, written))))))"

fun reseal_entry ::
    "prims \<Rightarrow> 'w sync_context \<Rightarrow> team_trust \<Rightarrow> string \<Rightarrow> team_keyring \<Rightarrow> u32 \<Rightarrow> team_key \<Rightarrow> entry_id \<Rightarrow> nat \<Rightarrow> reseal_report \<Rightarrow>
     ('w world, team_vault_error, reseal_report) io" where
  "reseal_entry P C T team_id keyring current_version current_key entry 0 report = io_ok report"
| "reseal_entry P C T team_id keyring current_version current_key entry (Suc n) report =
     io_bind (fetch_entry P C team_id entry) (\<lambda>found.
     case found of
       None \<Rightarrow> io_ok report
     | Some document \<Rightarrow>
         if vd_key_version document \<ge> current_version then io_ok report
         else
           case keyring_get keyring (vd_key_version document) of
             None \<Rightarrow> io_ok (report\<lparr>rr_unreadable := rr_unreadable report @ [entry]\<rparr>)
           | Some old_key \<Rightarrow>
               io_bind (reseal_document P C T team_id current_version current_key entry document old_key) (\<lambda>outcome.
               case outcome of
                 Inl e \<Rightarrow> io_ok (report\<lparr>rr_refused := rr_refused report @ [(entry, e)]\<rparr>)
               | Inr (seq, VaultStored _) \<Rightarrow>
                   io_ok (report\<lparr>rr_resealed := Suc (rr_resealed report), rr_written := rr_written report @ [(entry, seq)]\<rparr>)
               | Inr (_, VaultConflict _) \<Rightarrow>
                   reseal_entry P C T team_id keyring current_version current_key entry n report
               | Inr (_, VaultGone) \<Rightarrow> io_ok report
               | Inr (_, VaultVersionStale) \<Rightarrow> io_err KeyVersionStale))"

fun reseal_entries ::
    "prims \<Rightarrow> 'w sync_context \<Rightarrow> team_trust \<Rightarrow> string \<Rightarrow> team_keyring \<Rightarrow> u32 \<Rightarrow> team_key \<Rightarrow> entry_id list \<Rightarrow> reseal_report \<Rightarrow>
     ('w world, team_vault_error, reseal_report) io" where
  "reseal_entries P C T team_id keyring current_version current_key [] report = io_ok report"
| "reseal_entries P C T team_id keyring current_version current_key (entry # entries) report =
     io_bind (reseal_entry P C T team_id keyring current_version current_key entry RESEAL_ATTEMPTS report) (\<lambda>report.
     reseal_entries P C T team_id keyring current_version current_key entries report)"

definition reseal_older_entries ::
    "prims \<Rightarrow> 'w sync_context \<Rightarrow> team_trust \<Rightarrow> string \<Rightarrow> team_keyring \<Rightarrow> ('w world, team_vault_error, reseal_report) io" where
  "reseal_older_entries P C T team_id keyring =
     io_bind (io_res (ok_or NoTeamKey (keyring_current keyring))) (\<lambda>(current_version, current_key).
     io_bind (list_vault P C team_id) (\<lambda>listing.
     io_bind (io_res (ok_or (TeamClient (Rejected ''not_found'')) listing)) (\<lambda>listing.
     reseal_entries P C T team_id keyring current_version current_key
       (map vl_entry_id (filter (\<lambda>l. vl_key_version l < current_version) listing)) reseal_report_default)))"

section \<open>Who a team key is sealed to\<close>

text \<open>An outgoing envelope is a sealing of the key to a member's registered key, under the identities
  it is for.\<close>

definition sealed_to ::
    "prims \<Rightarrow> sharing_keypair \<Rightarrow> string \<Rightarrow> u32 \<Rightarrow> team_key \<Rightarrow> member_key \<Rightarrow> registered_key \<Rightarrow> outgoing_envelope \<Rightarrow> bool" where
  "sealed_to P me team_id v k member key e \<longleftrightarrow>
     mk_key member = Some key \<and> og_user_id e = mk_user_id member \<and> og_recipient_fingerprint e = rk_fingerprint key \<and>
     (\<exists>seed b. prologue \<lparr>ei_team_id = team_id, ei_recipient_user_id = mk_user_id member, ei_key_version = v\<rparr> = Inr b \<and>
        noise_x_seal P seed (dk_private me) b (rk_public_key key) (tk_bytes k) = Inr (og_wrapped_key e))"

definition verified_here :: "team_trust \<Rightarrow> string \<Rightarrow> string \<Rightarrow> fingerprint \<Rightarrow> bool" where
  "verified_here T team_id user_id f \<longleftrightarrow> (\<exists>p. pinned T team_id user_id = Some p \<and> pk_fingerprint p = f \<and> pk_verified p)"

lemma grant_verified:
  assumes "prepare_grant P T team_id wrapper keyring member w = (Inr (v, e), w')"
  obtains key k where "keyring_current keyring = Some (v, k)" "sealed_to P wrapper team_id v k member key e"
    "verified_here T team_id (mk_user_id member) (rk_fingerprint key)"
proof -
  from assms obtain key where key: "mk_key member = Some key"
    by (cases "mk_key member") (auto simp: prepare_grant_def io_eqs)
  have check: "trust_check T team_id (mk_user_id member) (rk_fingerprint key) = PinVerified"
    using assms by (cases "trust_check T team_id (mk_user_id member) (rk_fingerprint key)") (auto simp: prepare_grant_def key)
  from assms obtain k wrapped w1 where x: "keyring_current keyring = Some (v, k)"
    "wrap P wrapper (rk_public_key key)
       \<lparr>ei_team_id = team_id, ei_recipient_user_id = mk_user_id member, ei_key_version = v\<rparr> k w = (Inr wrapped, w1)"
    "e = \<lparr>og_user_id = mk_user_id member, og_recipient_fingerprint = rk_fingerprint key, og_wrapped_key = wrapped\<rparr>"
    by (auto simp: prepare_grant_def key check io_eqs)
  from x(2) obtain seed b where "prologue \<lparr>ei_team_id = team_id, ei_recipient_user_id = mk_user_id member, ei_key_version = v\<rparr> = Inr b"
    "noise_x_seal P seed (dk_private wrapper) b (rk_public_key key) (tk_bytes k) = Inr wrapped"
    by (rule wrap_Inr)
  then show thesis using x key check [unfolded trust_check_verified]
    by (intro that) (auto simp: sealed_to_def verified_here_def)
qed

definition may_receive :: "prims \<Rightarrow> team_trust \<Rightarrow> string \<Rightarrow> string \<Rightarrow> sharing_keypair \<Rightarrow> string \<Rightarrow> fingerprint \<Rightarrow> bool" where
  "may_receive P T team_id my_user_id me user_id f \<longleftrightarrow>
     (if user_id = my_user_id then f = sharing_fingerprint P me else verified_here T team_id user_id f)"

lemma rotation_allows_iff:
  "rotation_allows P T team_id my_user_id me member key = Inr () \<longleftrightarrow>
     may_receive P T team_id my_user_id me (mk_user_id member) (rk_fingerprint key)"
  by (auto simp: rotation_allows_def may_receive_def verified_here_def trust_check_def split: option.splits)

lemma rotation_members_sealed:
  assumes "rotation_members P T team_id my_user_id me v k members es b w = (Inr (es', b'), w')"
  obtains new where "es' = es @ new"
    "list_all2 (\<lambda>m e. \<exists>key. sealed_to P me team_id v k m key e \<and>
        may_receive P T team_id my_user_id me (mk_user_id m) (rk_fingerprint key))
      (filter (\<lambda>m. mk_key m \<noteq> None) members) new"
    "b' \<longleftrightarrow> b \<or> (\<exists>m \<in> set members. mk_key m \<noteq> None \<and> mk_user_id m = my_user_id)"
  using assms
proof (induction members arbitrary: es b w thesis)
  case Nil
  then show ?case by simp
next
  case (Cons m members)
  show ?case
  proof (cases "mk_key m")
    case None
    with Cons.prems(2) have "rotation_members P T team_id my_user_id me v k members es b w = (Inr (es', b'), w')" by simp
    from Cons.IH [OF _ this] show ?thesis using None Cons.prems(1) by auto
  next
    case (Some key)
    then obtain wrapped w1 where x: "rotation_allows P T team_id my_user_id me m key = Inr ()"
      "wrap P me (rk_public_key key)
         \<lparr>ei_team_id = team_id, ei_recipient_user_id = mk_user_id m, ei_key_version = v\<rparr> k w = (Inr wrapped, w1)"
      "rotation_members P T team_id my_user_id me v k members
         (es @ [\<lparr>og_user_id = mk_user_id m, og_recipient_fingerprint = rk_fingerprint key, og_wrapped_key = wrapped\<rparr>])
         (b \<or> mk_user_id m = my_user_id) w1 = (Inr (es', b'), w')"
      using Cons.prems(2) by (auto simp: io_eqs)
    let ?e = "\<lparr>og_user_id = mk_user_id m, og_recipient_fingerprint = rk_fingerprint key, og_wrapped_key = wrapped\<rparr>"
    from x(2) have "sealed_to P me team_id v k m key ?e"
      by (rule wrap_Inr) (auto simp: sealed_to_def Some)
    moreover obtain new where "es' = (es @ [?e]) @ new"
      "list_all2 (\<lambda>m e. \<exists>key. sealed_to P me team_id v k m key e \<and>
          may_receive P T team_id my_user_id me (mk_user_id m) (rk_fingerprint key))
        (filter (\<lambda>m. mk_key m \<noteq> None) members) new"
      "b' \<longleftrightarrow> (b \<or> mk_user_id m = my_user_id) \<or> (\<exists>m \<in> set members. mk_key m \<noteq> None \<and> mk_user_id m = my_user_id)"
      using Cons.IH [OF _ x(3)] by blast
    ultimately show ?thesis
      using Cons.prems(1) [of "?e # new"] Some x(1) [unfolded rotation_allows_iff] by auto
  qed
qed

lemma rotation_envelopes_sealed:
  assumes "rotation_envelopes P T team_id my_user_id me members v k w = (Inr es, w')"
  shows "list_all2 (\<lambda>m e. \<exists>key. sealed_to P me team_id v k m key e \<and>
        may_receive P T team_id my_user_id me (mk_user_id m) (rk_fingerprint key))
      (filter (\<lambda>m. mk_key m \<noteq> None) members) es"
    "\<exists>m \<in> set members. mk_key m \<noteq> None \<and> mk_user_id m = my_user_id"
proof -
  from assms obtain b where "rotation_members P T team_id my_user_id me v k members [] False w = (Inr (es, b), w')" "b"
    by (auto simp: rotation_envelopes_def io_eqs split: if_splits prod.splits)
  from rotation_members_sealed [OF this(1)] this(2)
  show "list_all2 (\<lambda>m e. \<exists>key. sealed_to P me team_id v k m key e \<and>
        may_receive P T team_id my_user_id me (mk_user_id m) (rk_fingerprint key))
      (filter (\<lambda>m. mk_key m \<noteq> None) members) es"
    "\<exists>m \<in> set members. mk_key m \<noteq> None \<and> mk_user_id m = my_user_id" by auto
qed

text \<open>C9. A team key is sealed only to keys the user verified on this machine. A grant produces an
  envelope only for a member whose registered key matches a verified pin, and seals to exactly that
  key; a rotation seals the new key to every member who holds a sharing key and to nobody else, each
  of them verified here or, for this account, its own key, and always to this account. A key nobody
  compared, one only seen, and one that changed all get nothing.\<close>

theorem team_key_sealed_only_to_verified:
  "(prepare_grant P T team_id me keyring member w = (Inr (v, e), w') \<longrightarrow>
      (\<exists>key k. keyring_current keyring = Some (v, k) \<and> sealed_to P me team_id v k member key e \<and>
         verified_here T team_id (mk_user_id member) (rk_fingerprint key))) \<and>
   (rotation_envelopes P T team_id my_user_id me members v' k' u = (Inr es, u') \<longrightarrow>
      list_all2 (\<lambda>m e. \<exists>key. sealed_to P me team_id v' k' m key e \<and>
          (if mk_user_id m = my_user_id then rk_fingerprint key = sharing_fingerprint P me
           else verified_here T team_id (mk_user_id m) (rk_fingerprint key)))
        (filter (\<lambda>m. mk_key m \<noteq> None) members) es \<and>
      my_user_id \<in> set (map og_user_id es))"
proof (intro conjI impI)
  show "\<exists>key k. keyring_current keyring = Some (v, k) \<and> sealed_to P me team_id v k member key e \<and>
      verified_here T team_id (mk_user_id member) (rk_fingerprint key)"
    if "prepare_grant P T team_id me keyring member w = (Inr (v, e), w')"
    using that by (rule grant_verified) blast
next
  assume run: "rotation_envelopes P T team_id my_user_id me members v' k' u = (Inr es, u')"
  note x = rotation_envelopes_sealed [OF run]
  show "list_all2 (\<lambda>m e. \<exists>key. sealed_to P me team_id v' k' m key e \<and>
        (if mk_user_id m = my_user_id then rk_fingerprint key = sharing_fingerprint P me
         else verified_here T team_id (mk_user_id m) (rk_fingerprint key)))
      (filter (\<lambda>m. mk_key m \<noteq> None) members) es"
    using x(1) by (simp add: may_receive_def)
  have "map og_user_id es = map mk_user_id (filter (\<lambda>m. mk_key m \<noteq> None) members)"
    using x(1) by (induction rule: list_all2_induct) (auto simp: sealed_to_def)
  then show "my_user_id \<in> set (map og_user_id es)" using x(2) by auto
qed

section \<open>A worked example\<close>

definition example_admin :: sharing_keypair where
  "example_admin = \<lparr>dk_private = replicate 32 1, dk_public = 7 # replicate 31 1\<rparr>"

definition example_bo :: sharing_keypair where
  "example_bo = \<lparr>dk_private = replicate 32 2, dk_public = 7 # replicate 31 2\<rparr>"

definition example_team_key :: team_key where
  "example_team_key = \<lparr>tk_bytes = replicate 32 9\<rparr>"

definition example_member :: member_key where
  "example_member = \<lparr>mk_user_id = ''bo'', mk_email = ''bo@h'',
     mk_key = Some \<lparr>rk_public_key = dk_public example_bo, rk_fingerprint = sharing_fingerprint ref_prims example_bo\<rparr>,
     mk_has_current_envelope = False\<rparr>"

definition example_trust :: team_trust where
  "example_trust = verify_pin ''team'' ''bo'' ''bo@h'' (sharing_fingerprint ref_prims example_bo) 1 team_trust_default"

lemma example_pairs: "keypair_ok ref_prims example_admin" "keypair_ok ref_prims example_bo"
  by (simp_all add: keypair_ok_def ref_prims_def ref_public_def example_admin_def example_bo_def)

lemma example_team_key_ok: "team_key_ok example_team_key"
  by (simp add: team_key_ok_def example_team_key_def TEAM_KEY_LEN_def DEK_LEN_def)

lemma ref_x_seal_total:
  "length s = 32 \<Longrightarrow> length seed = 32 \<Longrightarrow>
   \<exists>msg. ref_x_seal (Some seed) s b pk payload = Inr msg \<and> length msg = 96 + length payload"
  by (simp add: ref_x_seal_def ref_keypair_def ref_public_def Let_def ref_tag16_def)

lemma ref_wrap_total:
  assumes "noise_x_seal P = ref_x_seal" "length (dk_private me) = 32" "team_key_ok k"
    and "\<not> is_low_order_public_key pk" "prologue ids = Inr b" "\<not> random_fails w (tick w)"
  shows "\<exists>msg. wrap P me pk ids k w = (Inr msg, advance w)"
proof -
  let ?seed = "map (random_byte w (tick w)) [0..<KEY_LEN]"
  obtain msg where "ref_x_seal (Some ?seed) (dk_private me) b pk (tk_bytes k) = Inr msg" "length msg = 96 + length (tk_bytes k)"
    using ref_x_seal_total [OF assms(2), of ?seed b pk "tk_bytes k"] by (auto simp: KEY_LEN_def)
  then show ?thesis
    using assms(3-6)
    by (simp add: wrap_def snow_random_def io_bind_apply io_case_apply random_fill_def assms(1) WRAPPED_KEY_LEN_def
        team_key_ok_def TEAM_KEY_LEN_def DEK_LEN_def)
qed

lemma example_prologue:
  "\<exists>b. prologue \<lparr>ei_team_id = ''team'', ei_recipient_user_id = ''bo'', ei_key_version = 1\<rparr> = Inr b"
  by (simp add: prologue_Inr as_bytes_def byte_of_char_def FIELD_SEPARATOR_def)

lemma example_bo_not_low: "\<not> is_low_order_public_key (dk_public example_bo)"
  using ref_x25519_ok example_pairs(2) unfolding x25519_ok_def keypair_ok_def by blast

lemma example_grant:
  obtains e where "prepare_grant ref_prims example_trust ''team'' example_admin [(1, example_team_key)] example_member
      (quiet_world ()) = (Inr (1, e), advance (quiet_world ()))"
proof -
  obtain b where "prologue \<lparr>ei_team_id = ''team'', ei_recipient_user_id = ''bo'', ei_key_version = 1\<rparr> = Inr b"
    using example_prologue by blast
  then have "\<exists>msg. wrap ref_prims example_admin (dk_public example_bo)
      \<lparr>ei_team_id = ''team'', ei_recipient_user_id = ''bo'', ei_key_version = 1\<rparr> example_team_key (quiet_world ()) =
      (Inr msg, advance (quiet_world ()))"
    by (intro ref_wrap_total example_team_key_ok example_bo_not_low)
      (simp_all add: ref_prims_def example_admin_def quiet_world_def)
  then show thesis
    using that by (auto simp: prepare_grant_def example_member_def trust_check_def example_trust_def verify_pin_def
        keyring_current_def io_bind_apply io_map_err_apply)
qed

theorem team_key_sealed_only_to_verified_witness:
  "\<exists>e w' key. prepare_grant ref_prims example_trust ''team'' example_admin [(1, example_team_key)] example_member
      (quiet_world ()) = (Inr (1, e), w') \<and>
    sealed_to ref_prims example_admin ''team'' 1 example_team_key example_member key e \<and>
    verified_here example_trust ''team'' ''bo'' (rk_fingerprint key)"
proof -
  obtain e where run: "prepare_grant ref_prims example_trust ''team'' example_admin [(1, example_team_key)] example_member
      (quiet_world ()) = (Inr (1, e), advance (quiet_world ()))" by (rule example_grant)
  obtain key k where "keyring_current [(1 :: u32, example_team_key)] = Some (1, k)"
    "sealed_to ref_prims example_admin ''team'' 1 k example_member key e"
    "verified_here example_trust ''team'' (mk_user_id example_member) (rk_fingerprint key)"
    using team_key_sealed_only_to_verified [THEN conjunct1, rule_format, OF run] by blast
  moreover from this(1) have "k = example_team_key" by (simp add: keyring_current_def)
  moreover have "mk_user_id example_member = ''bo''" by (simp add: example_member_def)
  ultimately show ?thesis using run by metis
qed

section \<open>From an admin's grant to a member's keyring\<close>

lemma open_envelope_other:
  assumes "se_key_version e \<noteq> v"
  shows "keyring_get (fst (snd (open_envelope P fo counts team_id my_user_id me members now e st))) v = keyring_get (fst (snd st)) v"
  using assms by (auto simp: open_envelope_def split: prod.splits option.splits sum.splits)

lemma fold_open_other:
  assumes "\<forall>e \<in> set es. se_key_version e \<noteq> v"
  shows "keyring_get (fst (snd (fold (open_envelope P fo counts team_id my_user_id me members now) es st))) v =
    keyring_get (fst (snd st)) v"
  using assms by (induction es arbitrary: st) (auto simp: open_envelope_other)

text \<open>The one envelope of a version, sealed by the expected sealer, is in the keyring afterwards,
  whatever else the service sent along.\<close>

lemma open_envelopes_get:
  assumes "filter (\<lambda>x. se_key_version x = se_key_version e) es = [e]" "se_wrapped_by e \<noteq> my_user_id"
    and "pinned T team_id (se_wrapped_by e) = Some p"
    and "unwrap P me (se_wrapped_key e)
       \<lparr>ei_team_id = team_id, ei_recipient_user_id = my_user_id, ei_key_version = se_key_version e\<rparr> (pk_fingerprint p) = Inr k"
  shows "keyring_get (fst (snd (open_envelopes P T team_id my_user_id me es members now))) (se_key_version e) = Some k"
proof -
  let ?step = "open_envelope P (\<not> has_opened T team_id) (version_counts es) team_id my_user_id me members now"
  obtain xs ys where "es = xs @ e # ys" "[] = filter (\<lambda>x. se_key_version x = se_key_version e) ys"
    using assms(1) unfolding filter_eq_Cons_iff by blast
  then have es: "es = xs @ e # ys" "\<forall>x \<in> set ys. se_key_version x \<noteq> se_key_version e"
    using filter_empty_conv [of "\<lambda>x. se_key_version x = se_key_version e" ys] by auto
  define st where "st = fold ?step xs (T, [], duplicate_problems (version_counts es))"
  have "sound_opening P T team_id my_user_id me es members st"
    unfolding st_def
  proof (rule fold_invariant [where Q = "\<lambda>e. e \<in> set es"])
    show "sound_opening P T team_id my_user_id me es members (T, [], duplicate_problems (version_counts es))"
      by (auto simp: sound_opening_def bt_ok_def)
  qed (auto simp: es(1) intro: open_envelope_sound [of _ es, unfolded es(1)])
  then have "pinned (fst st) team_id (se_wrapped_by e) = Some p"
    using assms(3) by (auto simp: sound_opening_def trust_le_def split: prod.splits)
  moreover have "bt_get (version_counts es) (se_key_version e) = Some 1"
    using assms(1) by (simp add: version_counts_get)
  ultimately have "keyring_get (fst (snd (?step e st))) (se_key_version e) = Some k"
    using assms(2,4) by (auto simp: open_envelope_def expected_sealer_def split: prod.splits)
  then show ?thesis
    using fold_open_other [OF es(2), of P "\<not> has_opened T team_id" "version_counts es" team_id my_user_id me members now "?step e st"]
    by (simp add: open_envelopes_def Let_def st_def es(1))
qed


definition example_member_trust :: team_trust where
  "example_member_trust =
     remember_first_sight ''team'' ''ada'' ''ada@h'' (sharing_fingerprint ref_prims example_admin) 1 team_trust_default"


text \<open>C10. Only keys from a trusted sealer enter the keyring. Whatever envelopes and members the service
  sends, each key this machine then holds is what the handshake read from the one envelope for its
  version, under a prologue made of this team, this member and that version. The static key that
  handshake authenticated is a whole key, of no small order, and its fingerprint is this account's
  own, or the one pinned for the member the envelope is said to come from, or, only on a team this
  machine had never opened, the one listed for a sealer it had no pin for. Opening never changes or
  drops a pin; a pin it adds is never a verified one, and on a team opened before it adds none.\<close>

theorem opened_keys_have_trusted_sealers:
  "case open_envelopes P T team_id my_user_id me es members now of (T', keyring, problems) \<Rightarrow>
     (\<forall>v k. keyring_get keyring v = Some k \<longrightarrow>
        (\<exists>e b sealer. filter (\<lambda>e. se_key_version e = v) es = [e] \<and>
           prologue \<lparr>ei_team_id = team_id, ei_recipient_user_id = my_user_id, ei_key_version = v\<rparr> = Inr b \<and>
           noise_x_open P (dk_private me) b (se_wrapped_key e) = Inr (Some (tk_bytes k, Some sealer, True)) \<and>
           length sealer = KEY_LEN \<and> \<not> is_low_order_public_key sealer \<and> length (tk_bytes k) = TEAM_KEY_LEN \<and>
           (if se_wrapped_by e = my_user_id then fingerprint_of P sealer = sharing_fingerprint P me
            else case pinned T team_id (se_wrapped_by e) of
              Some p \<Rightarrow> fingerprint_of P sealer = pk_fingerprint p
            | None \<Rightarrow> \<not> has_opened T team_id \<and>
                (\<exists>m key. m \<in> set members \<and> mk_user_id m = se_wrapped_by e \<and> mk_key m = Some key \<and>
                   fingerprint_of P sealer = rk_fingerprint key)))) \<and>
     (\<forall>t u. pinned T' t u = pinned T t u \<or>
        (\<exists>p. pinned T t u = None \<and> pinned T' t u = Some p \<and> \<not> pk_verified p \<and> t = team_id \<and> \<not> has_opened T team_id)) \<and>
     (\<forall>t. key_version_floor T' t = key_version_floor T t) \<and>
     (\<forall>t e. trust_seen_seq T' t e = trust_seen_seq T t e)"
proof -
  obtain T' r ps where run: "open_envelopes P T team_id my_user_id me es members now = (T', r, ps)" by (metis prod_cases3)
  have inv: "sound_opening P T team_id my_user_id me es members (T', r, ps)"
    using open_envelopes_sound [of P T team_id my_user_id me es members now] by (simp add: run)
  let ?allowed = "\<lambda>sealer f. if sealer = my_user_id then f = sharing_fingerprint P me
      else case pinned T team_id sealer of
        Some p \<Rightarrow> f = pk_fingerprint p
      | None \<Rightarrow> \<not> has_opened T team_id \<and>
          (\<exists>m key. m \<in> set members \<and> mk_user_id m = sealer \<and> mk_key m = Some key \<and> f = rk_fingerprint key)"
  have allowed: "?allowed sealer f"
    if "sealer_allowed P T team_id my_user_id me members sealer f" for sealer f
    using that by (auto simp: sealer_allowed_def find_Some_iff split: option.splits if_splits) (metis nth_mem)+
  have "\<exists>e b sealer. filter (\<lambda>e. se_key_version e = v) es = [e] \<and>
      prologue \<lparr>ei_team_id = team_id, ei_recipient_user_id = my_user_id, ei_key_version = v\<rparr> = Inr b \<and>
      noise_x_open P (dk_private me) b (se_wrapped_key e) = Inr (Some (tk_bytes k, Some sealer, True)) \<and>
      length sealer = KEY_LEN \<and> \<not> is_low_order_public_key sealer \<and> length (tk_bytes k) = TEAM_KEY_LEN \<and>
      ?allowed (se_wrapped_by e) (fingerprint_of P sealer)"
    if "keyring_get r v = Some k" for v k
  proof -
    from that inv [unfolded sound_opening_def prod.case] obtain e f where e: "filter (\<lambda>e. se_key_version e = v) es = [e]"
      "unwrap P me (se_wrapped_key e)
        \<lparr>ei_team_id = team_id, ei_recipient_user_id = my_user_id, ei_key_version = v\<rparr> f = Inr k"
      "sealer_allowed P T team_id my_user_id me members (se_wrapped_by e) f" by blast
    from e(2) obtain b sealer where u: "prologue \<lparr>ei_team_id = team_id, ei_recipient_user_id = my_user_id, ei_key_version = v\<rparr> = Inr b"
      "noise_x_open P (dk_private me) b (se_wrapped_key e) = Inr (Some (tk_bytes k, Some sealer, True))"
      "length sealer = KEY_LEN" "fingerprint_of P sealer = f" "\<not> is_low_order_public_key sealer" "team_key_ok k"
      by (rule unwrap_Inr)
    from u(6) have "length (tk_bytes k) = TEAM_KEY_LEN" by (simp add: team_key_ok_def)
    with e(1) u(1-3,5) allowed [OF e(3), folded u(4)] show ?thesis by (intro exI conjI)
  qed
  moreover have "pinned T' t u = pinned T t u \<or>
      (\<exists>p. pinned T t u = None \<and> pinned T' t u = Some p \<and> \<not> pk_verified p \<and> t = team_id \<and> \<not> has_opened T team_id)" for t u
    using inv [unfolded sound_opening_def prod.case]
    by (cases "pinned T t u"; cases "pinned T' t u") (auto simp: trust_le_def)
  moreover have "key_version_floor T' t = key_version_floor T t" "trust_seen_seq T' t e = trust_seen_seq T t e" for t e
    using inv [unfolded sound_opening_def prod.case] by (auto intro: floor_cong seen_cong)
  ultimately show ?thesis unfolding run prod.case by (intro conjI allI impI)
qed

theorem opened_keys_have_trusted_sealers_witness:
  "\<exists>e T' keyring problems b sealer. open_envelopes ref_prims example_member_trust ''team'' ''bo'' example_bo
      [\<lparr>se_key_version = 1, se_wrapped_key = e, se_wrapped_by = ''ada''\<rparr>] [] 5 = (T', keyring, problems) \<and>
    keyring_get keyring 1 = Some example_team_key \<and>
    noise_x_open ref_prims (dk_private example_bo) b e = Inr (Some (tk_bytes example_team_key, Some sealer, True)) \<and>
    fingerprint_of ref_prims sealer = sharing_fingerprint ref_prims example_admin"
proof -
  obtain e where "prepare_grant ref_prims example_trust ''team'' example_admin [(1, example_team_key)] example_member
      (quiet_world ()) = (Inr (1, e), advance (quiet_world ()))" by (rule example_grant)
  then have un: "unwrap ref_prims example_bo (og_wrapped_key e)
      \<lparr>ei_team_id = ''team'', ei_recipient_user_id = ''bo'', ei_key_version = 1\<rparr>
      (sharing_fingerprint ref_prims example_admin) = Inr example_team_key"
    by (intro wrap_unwrap [OF ref_noise_ok ref_x25519_ok example_pairs example_team_key_ok])
      (auto simp: prepare_grant_def example_member_def trust_check_def example_trust_def verify_pin_def keyring_current_def io_eqs)
  have pin: "pinned example_member_trust ''team'' ''ada'' = Some \<lparr>pk_fingerprint = sharing_fingerprint ref_prims example_admin,
      pk_email = ''ada@h'', pk_pinned_at = 1, pk_verified = False\<rparr>"
    by (simp add: example_member_trust_def remember_first_sight_def) (simp add: pinned_def team_trust_default_def)
  let ?es = "[\<lparr>se_key_version = 1, se_wrapped_key = og_wrapped_key e, se_wrapped_by = ''ada''\<rparr>]"
  obtain T' r ps where run: "open_envelopes ref_prims example_member_trust ''team'' ''bo'' example_bo ?es [] 5 = (T', r, ps)"
    by (metis prod_cases3)
  have get: "keyring_get r 1 = Some example_team_key"
    using open_envelopes_get [of "hd ?es" ?es "''bo''" example_member_trust "''team''" _ ref_prims example_bo example_team_key "[]" 5]
      pin un run by simp
  from opened_keys_have_trusted_sealers [where P = ref_prims and T = example_member_trust and team_id = "''team''" and
      my_user_id = "''bo''" and me = example_bo and es = ?es and members = "[]" and now = 5, unfolded run prod.case,
      THEN conjunct1, rule_format, OF get]
  have "\<exists>b sealer. noise_x_open ref_prims (dk_private example_bo) b (og_wrapped_key e) =
        Inr (Some (tk_bytes example_team_key, Some sealer, True)) \<and>
      fingerprint_of ref_prims sealer = sharing_fingerprint ref_prims example_admin"
    by (auto simp: pin)
  with run get show ?thesis by blast
qed

end
