(* ===== verification/Team_Session.thy ===== *)
theory Team_Session
  imports Team_Rotate Sync_Session
begin

text \<open>
  \<^verbatim>\<open>zode_team_vault/src/session.rs\<close>: the state behind the team windows and every operation of
  them. The state is the session and the world around it; an operation is the whole of what the
  button does, run to its end, with the request that starts it, every answer it waits for, and what
  it does to the session on the way. A refresh is given in its two halves as well, so that a load
  that ends after another one started, or after the team was left, can be told apart. The account
  is an interface: who is signed in, what plan is known, and a context to make requests with. The
  writes of the trust record are made in the order they are asked for, which is what chaining each
  save to the one before is for; the loss of the session entity during a task is not modelled.
\<close>

section \<open>State\<close>

datatype team_role = Owner | Admin | Member

definition team_role_parse :: "string \<Rightarrow> team_role" where
  "team_role_parse role = (if role = ''owner'' then Owner else if role = ''admin'' then Admin else Member)"

definition can_administer :: "team_role \<Rightarrow> bool" where
  "can_administer r = (r = Owner \<or> r = Admin)"

datatype team_vault_status =
    NoTeam
  | TeamNeedsRecoveryKey
  | StatusSharingKeyUnreadable
  | TeamWorking
  | StatusKeyPending
  | SealerNotVerified string string
  | TeamReady
  | TeamReadOnly
  | TeamPlanLimited plan_limit
  | TeamFailed string

fun team_status_sentence :: "team_vault_status \<Rightarrow> string" where
  "team_status_sentence NoTeam = ''you are not in a team''"
| "team_status_sentence TeamNeedsRecoveryKey = ''enter your recovery key first''"
| "team_status_sentence StatusSharingKeyUnreadable =
     ''Your sharing key does not open with the recovery key on this machine. Enter the recovery key you use elsewhere, or replace your sharing key: admins must then grant you the team key again, in every team.''"
| "team_status_sentence TeamWorking = ''Syncing team vault'' @ string_of_chars [8230]"
| "team_status_sentence StatusKeyPending = ''waiting for an admin to grant you the team key''"
| "team_status_sentence (SealerNotVerified user_id email) =
     email @ '' sealed the current team key for you, and their key is not verified on this machine. Open Members, compare their fingerprint with them, then trust it.''"
| "team_status_sentence TeamReady = ''ready''"
| "team_status_sentence TeamReadOnly = ''Your team's plan has ended. Shared files are read-only.''"
| "team_status_sentence (TeamPlanLimited limit) = sentence limit"
| "team_status_sentence (TeamFailed message) = message"

record member_view =
  mv_user_id :: string
  mv_email :: string
  mv_fingerprint :: "fingerprint option"
  mv_pin :: "pin_check option"
  mv_has_current_envelope :: bool
  mv_is_me :: bool

record vault_entry_view =
  ve_listing :: vault_listing
  ve_manifest :: "team_manifest_entry option"

record pulled_entry =
  pu_payload :: bytes
  pu_revision :: string

datatype push_base = BaseCreate | BaseReplace string | BaseLatest

datatype manifest_change = ChangeUpsert team_manifest_entry | ChangeRemove entry_id

definition MANIFEST_ATTEMPTS :: nat where
  "MANIFEST_ATTEMPTS = 3"

record team_rotation_report =
  tr_key_version :: u32
  tr_rotated_here :: bool
  tr_still_recommended :: bool
  tr_reseal :: reseal_report

record active_team =
  at_team_id :: string
  at_name :: string
  at_role :: team_role
  at_me :: sharing_keypair
  at_keyring :: team_keyring
  at_members :: "member_key list"
  at_rotation_recommended :: bool
  at_listing :: "vault_listing list"
  at_manifest :: team_manifest
  at_unverified_sealer :: "(string \<times> string) option"

text \<open>\<open>tv_plan_reads\<close> counts the reads of the plan asked of the account.\<close>

record team_session =
  tv_status :: team_vault_status
  tv_team :: "active_team option"
  tv_trust :: "(string \<times> team_trust) option"
  tv_generation :: u64
  tv_refresh_after_plan :: bool
  tv_plan_reads :: nat

definition team_session_new :: team_session where
  "team_session_new =
     \<lparr>tv_status = NoTeam, tv_team = None, tv_trust = None, tv_generation = 0, tv_refresh_after_plan = False,
      tv_plan_reads = 0\<rparr>"

text \<open>The account: who is signed in, the team of the plan if a plan is known, whether a read of the
  plan is under way, and whether one is right after it was asked for.\<close>

record 'w team_account =
  ta_user :: "string option"
  ta_plan_team :: "team_summary option option"
  ta_reading_plan :: bool
  ta_read_starts :: bool
  ta_context :: "'w world \<Rightarrow> 'w sync_context option \<times> 'w world"

record 'w team_machine =
  tm_session :: team_session
  tm_world :: "'w world"

type_synonym ('w, 'a) team_io = "('w team_machine, team_vault_error, 'a) io"

definition in_world :: "('w world, 'e, 'a) io \<Rightarrow> ('w team_machine, 'e, 'a) io" where
  "in_world m = (\<lambda>M. case m (tm_world M) of (r, w) \<Rightarrow> (r, M\<lparr>tm_world := w\<rparr>))"

definition of_session :: "(team_session \<Rightarrow> 'a) \<Rightarrow> ('w team_machine, 'e, 'a) io" where
  "of_session f = (\<lambda>M. (Inr (f (tm_session M)), M))"

definition on_session :: "(team_session \<Rightarrow> team_session) \<Rightarrow> 'w team_machine \<Rightarrow> 'w team_machine" where
  "on_session f M = M\<lparr>tm_session := f (tm_session M)\<rparr>"

definition do_session :: "(team_session \<Rightarrow> team_session) \<Rightarrow> ('w team_machine, 'e, unit) io" where
  "do_session f = (\<lambda>M. (Inr (), on_session f M))"

section \<open>Views\<close>

definition team_list :: "team_session \<Rightarrow> vault_entry_view list" where
  "team_list S =
     (case tv_team S of
        None \<Rightarrow> []
      | Some team \<Rightarrow>
          map (\<lambda>l. \<lparr>ve_listing = l, ve_manifest = team_manifest_get (at_manifest team) (vl_entry_id l)\<rparr>)
            (filter (\<lambda>l. Some (vl_entry_id l) \<noteq> ok manifest_entry_id) (at_listing team)))"

definition member_view_of :: "string \<Rightarrow> string \<Rightarrow> team_trust \<Rightarrow> member_key \<Rightarrow> member_view" where
  "member_view_of team_id user_id T m =
     (let is_me = (mk_user_id m = user_id); f = map_option rk_fingerprint (mk_key m) in
      \<lparr>mv_user_id = mk_user_id m, mv_email = mk_email m, mv_fingerprint = f,
       mv_pin = (if is_me then None else map_option (trust_check T team_id (mk_user_id m)) f),
       mv_has_current_envelope = mk_has_current_envelope m, mv_is_me = is_me\<rparr>)"

definition team_members :: "team_session \<Rightarrow> member_view list" where
  "team_members S =
     (case (tv_team S, tv_trust S) of
        (Some team, Some (user_id, T)) \<Rightarrow> map (member_view_of (at_team_id team) user_id T) (at_members team)
      | _ \<Rightarrow> [])"

definition pending_members :: "team_session \<Rightarrow> member_view list" where
  "pending_members S =
     filter (\<lambda>m. \<not> mv_is_me m \<and> \<not> mv_has_current_envelope m \<and> mv_fingerprint m \<noteq> None) (team_members S)"

definition team_keys :: "team_session \<Rightarrow> (string \<times> team_keyring) option" where
  "team_keys S =
     (case tv_team S of
        None \<Rightarrow> None
      | Some team \<Rightarrow> if at_keyring team \<noteq> [] then Some (at_team_id team, at_keyring team) else None)"

section \<open>Status\<close>

definition team_set_status :: "team_vault_status \<Rightarrow> team_session \<Rightarrow> team_session" where
  "team_set_status s S = S\<lparr>tv_status := s\<rparr>"

definition refresh_plan :: "team_session \<Rightarrow> team_session" where
  "refresh_plan S = S\<lparr>tv_plan_reads := Suc (tv_plan_reads S)\<rparr>"

definition drop_team :: "team_session \<Rightarrow> team_session" where
  "drop_team S = team_set_status NoTeam (S\<lparr>tv_generation := tv_generation S + 1, tv_team := None\<rparr>)"

text \<open>Problems of one entry or one member are the caller's to show.\<close>

fun callers_problem :: "team_vault_error \<Rightarrow> bool" where
  "callers_problem TeamConflict = True"
| "callers_problem (KeyChanged _) = True"
| "callers_problem (NotPinned _) = True"
| "callers_problem (NoSharingKey _) = True"
| "callers_problem (TeamCrypto (TeamRollback _ _)) = True"
| "callers_problem _ = False"

definition team_absorb :: "team_vault_error + 'a \<Rightarrow> team_session \<Rightarrow> team_session" where
  "team_absorb result S =
     (case result of
        Inr _ \<Rightarrow> S
      | Inl error \<Rightarrow>
          (case error of
             TeamClient (PlanLimited limit) \<Rightarrow>
               if pl_reason limit = TeamInactive then team_set_status TeamReadOnly S
               else team_set_status (TeamPlanLimited limit) (refresh_plan S)
           | _ \<Rightarrow>
               if callers_problem error \<and> tv_team S \<noteq> None
               then if tv_status S = TeamWorking then team_set_status TeamReady S else S
               else team_set_status (TeamFailed (team_vault_display error)) S))"

definition PLAN_UNREADABLE :: string where
  "PLAN_UNREADABLE = ''Could not read your plan from Zode's service. Check your connection, then try again.''"

definition plan_read_settled :: "bool \<Rightarrow> bool \<Rightarrow> team_session \<Rightarrow> team_session" where
  "plan_read_settled plan_known reading S =
     (if \<not> tv_refresh_after_plan S then S
      else if plan_known \<or> reading then S
      else team_set_status (TeamFailed PLAN_UNREADABLE) (S\<lparr>tv_refresh_after_plan := False\<rparr>))"

section \<open>Trust\<close>

definition not_loaded :: team_vault_error where
  "not_loaded = TeamStorage ''not loaded''"

definition trust_mut :: "(team_trust \<Rightarrow> team_vault_error + 'a \<times> team_trust) \<Rightarrow> ('w, 'a) team_io" where
  "trust_mut f = (\<lambda>M.
     case tv_trust (tm_session M) of
       None \<Rightarrow> (Inl not_loaded, M)
     | Some (user_id, T) \<Rightarrow>
         (case f T of
            Inl e \<Rightarrow> (Inl e, M)
          | Inr (a, T') \<Rightarrow> (Inr a, on_session (\<lambda>S. S\<lparr>tv_trust := Some (user_id, T')\<rparr>) M)))"

definition persist_trust :: "prims \<Rightarrow> ('w, unit) team_io" where
  "persist_trust P = (\<lambda>M.
     case tv_trust (tm_session M) of
       None \<Rightarrow> (Inl not_loaded, M)
     | Some (user_id, T) \<Rightarrow> in_world (pins_save P user_id T) M)"

definition trust_snapshot :: "('w, team_trust) team_io" where
  "trust_snapshot =
     io_bind (of_session (\<lambda>S. map_option snd (tv_trust S))) (\<lambda>T. io_res (ok_or not_loaded T))"

definition team_seen_seq :: "string \<Rightarrow> entry_id \<Rightarrow> ('w, u64 option) team_io" where
  "team_seen_seq team_id entry =
     io_bind trust_snapshot (\<lambda>T. io_ok (trust_seen_seq T team_id (entry_hex entry)))"

definition team_record_seq :: "prims \<Rightarrow> string \<Rightarrow> entry_id \<Rightarrow> u64 \<Rightarrow> ('w, unit) team_io" where
  "team_record_seq P team_id entry seq =
     io_bind (trust_mut (\<lambda>T. Inr ((), snd (trust_record_seq team_id (entry_hex entry) seq T)))) (\<lambda>_. persist_trust P)"

definition ensure_trust :: "prims \<Rightarrow> string \<Rightarrow> ('w, unit) team_io" where
  "ensure_trust P user_id =
     io_bind (of_session (\<lambda>S. case tv_trust S of Some (owner, _) \<Rightarrow> owner = user_id | None \<Rightarrow> False)) (\<lambda>loaded.
     if loaded then io_ok ()
     else io_bind (in_world (pins_load P user_id)) (\<lambda>T. do_session (\<lambda>S. S\<lparr>tv_trust := Some (user_id, T)\<rparr>)))"

definition now_secs :: "('w world, 'e, u64) io" where
  "now_secs = io_bind now_nanos (\<lambda>n. io_ok (word_of_nat (n div 1000000000)))"

definition no_credential :: team_vault_error where
  "no_credential = TeamClient (Unreachable ''check your connection, and that you are signed in'')"

definition team_context :: "'w team_account \<Rightarrow> ('w, 'w sync_context) team_io" where
  "team_context acc = in_world (\<lambda>w. case ta_context acc w of (C, w') \<Rightarrow> (ok_or no_credential C, w'))"

definition team_not_found :: team_vault_error where
  "team_not_found = TeamClient (Rejected ''not_found'')"

definition admin_required :: team_vault_error where
  "admin_required = TeamClient (Rejected ''admin_required'')"

section \<open>The sharing key\<close>

definition open_stored_key :: "prims \<Rightarrow> dek \<Rightarrow> string \<Rightarrow> string \<Rightarrow> team_vault_error + sharing_keypair" where
  "open_stored_key P d user_id blob =
     bind_res (map_err (\<lambda>e. TeamCrypto (team_of_crypto e)) (from_blob P blob)) (\<lambda>envelope.
     map_err (\<lambda>e. if e = TeamKeyRotated \<or> e = TeamWrongKey then SharingKeyUnreadable else TeamCrypto e)
       (open_private_key P d user_id envelope))"

definition sealed_key_blob :: "prims \<Rightarrow> dek \<Rightarrow> string \<Rightarrow> sharing_keypair \<Rightarrow> ('w world, team_vault_error, string) io" where
  "sealed_key_blob P d user_id keypair =
     io_bind (io_map_err TeamCrypto (seal_private_key P d user_id keypair)) (\<lambda>envelope.
     io_res (map_err (\<lambda>e. TeamCrypto (team_of_crypto e)) (to_blob P envelope)))"

definition load_or_create_sharing_key ::
    "prims \<Rightarrow> 'w sync_context \<Rightarrow> dek \<Rightarrow> ('w world, team_vault_error, sharing_keypair) io" where
  "load_or_create_sharing_key P C d =
     io_bind (io_map_err TeamClient (fetch P (sc_api C) resource_sharing_key)) (\<lambda>stored.
     case stored of
       Some document \<Rightarrow> io_res (open_stored_key P d (sc_user_id C) (doc_blob document))
     | None \<Rightarrow>
         io_bind (io_map_err TeamCrypto (sharing_generate P)) (\<lambda>keypair.
         io_bind (sealed_key_blob P d (sc_user_id C) keypair) (\<lambda>blob.
         io_bind (io_map_err TeamClient (store P (sc_api C) resource_sharing_key blob Create)) (\<lambda>written.
         case written of
           Stored _ \<Rightarrow> io_ok keypair
         | Conflict document \<Rightarrow> io_res (open_stored_key P d (sc_user_id C) (doc_blob document))
         | Gone \<Rightarrow> io_err team_not_found))))"

definition ensure_registered ::
    "prims \<Rightarrow> 'w sync_context \<Rightarrow> sharing_keypair \<Rightarrow> ('w world, team_vault_error, unit) io" where
  "ensure_registered P C me =
     (let mine = (\<lambda>r. rk_fingerprint r = sharing_fingerprint P me);
          register = (\<lambda>registration.
            io_bind (register_sharing_key P C (dk_public me) registration) (\<lambda>outcome.
            case outcome of
              Registered \<Rightarrow> io_ok ()
            | RegisterConflict \<Rightarrow>
                io_bind (fetch_registered_key P C) (\<lambda>found.
                case found of
                  Some r \<Rightarrow> if mine r then io_ok () else io_err (TeamClient (Rejected ''sharing_key_conflict''))
                | None \<Rightarrow> io_err (TeamClient (Rejected ''sharing_key_conflict'')))))
      in
      io_bind (fetch_registered_key P C) (\<lambda>found.
      case found of
        Some r \<Rightarrow> if mine r then io_ok () else register (RegisterRotate (rk_fingerprint r))
      | None \<Rightarrow> register RegisterCreate))"

definition replace_stored_sharing_key ::
    "prims \<Rightarrow> 'w sync_context \<Rightarrow> dek \<Rightarrow> ('w world, team_vault_error, unit) io" where
  "replace_stored_sharing_key P C d =
     io_bind (io_map_err TeamClient (fetch P (sc_api C) resource_sharing_key)) (\<lambda>stored.
     if (case stored of
           Some document \<Rightarrow> ok (open_stored_key P d (sc_user_id C) (doc_blob document)) \<noteq> None
         | None \<Rightarrow> False)
     then io_err (TeamStorage ''your sharing key opens on this machine; nothing was replaced'')
     else
       io_bind (io_map_err TeamCrypto (sharing_generate P)) (\<lambda>keypair.
       io_bind (sealed_key_blob P d (sc_user_id C) keypair) (\<lambda>blob.
       let precondition = (case stored of Some document \<Rightarrow> Replace (doc_revision document) | None \<Rightarrow> Create) in
       io_bind (io_map_err TeamClient (store P (sc_api C) resource_sharing_key blob precondition)) (\<lambda>written.
       case written of
         Stored _ \<Rightarrow> ensure_registered P C keypair
       | Conflict _ \<Rightarrow> io_err TeamConflict
       | Gone \<Rightarrow> io_err TeamConflict))))"

section \<open>Entries\<close>

definition open_document ::
    "prims \<Rightarrow> string \<Rightarrow> team_keyring \<Rightarrow> entry_id \<Rightarrow> vault_document \<Rightarrow> ('w, opened_entry) team_io" where
  "open_document P team_id keyring entry document =
     io_bind (io_res (ok_or NoTeamKey (keyring_get keyring (vd_key_version document)))) (\<lambda>team_key.
     io_bind (io_res (map_err (\<lambda>e. TeamCrypto (team_of_crypto e)) (from_blob P (vd_blob document)))) (\<lambda>envelope.
     io_bind (team_seen_seq team_id entry) (\<lambda>seen.
     io_res (map_err TeamCrypto (open_entry P team_key team_id entry (vd_key_version document) seen envelope)))))"

record current_entry =
  cu_revision :: string
  cu_seq :: u64
  cu_payload :: bytes

definition read_current ::
    "prims \<Rightarrow> 'w sync_context \<Rightarrow> string \<Rightarrow> team_keyring \<Rightarrow> entry_id \<Rightarrow> ('w, current_entry option) team_io" where
  "read_current P C team_id keyring entry =
     io_bind (in_world (fetch_entry P C team_id entry)) (\<lambda>found.
     case found of
       None \<Rightarrow> io_ok None
     | Some document \<Rightarrow>
         io_bind (open_document P team_id keyring entry document) (\<lambda>opened.
         io_ok (Some \<lparr>cu_revision = vd_revision document, cu_seq = oe_seq opened, cu_payload = oe_payload opened\<rparr>)))"

fun upsert_listing :: "vault_listing \<Rightarrow> vault_listing list \<Rightarrow> vault_listing list" where
  "upsert_listing l [] = [l]"
| "upsert_listing l (x # xs) = (if vl_entry_id x = vl_entry_id l then l # xs else x # upsert_listing l xs)"

definition in_team :: "(active_team \<Rightarrow> active_team) \<Rightarrow> team_session \<Rightarrow> team_session" where
  "in_team f S = S\<lparr>tv_team := map_option f (tv_team S)\<rparr>"

definition write_after ::
    "prims \<Rightarrow> 'w sync_context \<Rightarrow> string \<Rightarrow> team_keyring \<Rightarrow> entry_id \<Rightarrow> bytes \<Rightarrow> current_entry option \<Rightarrow> ('w, bool) team_io" where
  "write_after P C team_id keyring entry payload current =
     io_bind (io_res (ok_or NoTeamKey (keyring_current keyring))) (\<lambda>(key_version, team_key).
     io_bind trust_snapshot (\<lambda>T.
     let floor = key_version_floor T team_id in
     if key_version < floor then io_err (TeamCrypto (KeyVersionRollback floor key_version))
     else
       io_bind (team_seen_seq team_id entry) (\<lambda>seen.
       let seen = (case seen of Some s \<Rightarrow> s | None \<Rightarrow> 0);
           seq = (case current of Some c \<Rightarrow> max (cu_seq c) seen | None \<Rightarrow> seen) + 1
       in
       io_bind (io_map_err TeamCrypto (in_world (seal_entry P team_key team_id entry key_version seq payload))) (\<lambda>sealed.
       io_bind (io_res (map_err (\<lambda>e. TeamCrypto (team_of_crypto e)) (to_blob P sealed))) (\<lambda>blob.
       let precondition = (case current of Some c \<Rightarrow> VaultReplace (cu_revision c) | None \<Rightarrow> VaultCreate) in
       io_bind (in_world (store_entry P C team_id entry blob key_version precondition)) (\<lambda>written.
       case written of
         VaultStored revision \<Rightarrow>
           io_bind (team_record_seq P team_id entry seq) (\<lambda>_.
           io_bind (do_session (in_team (\<lambda>team. team\<lparr>at_listing := upsert_listing
             \<lparr>vl_entry_id = entry, vl_revision = revision, vl_key_version = key_version,
              vl_byte_length = word_of_nat (length blob), vl_updated_at = [], vl_updated_by = sc_user_id C\<rparr> (at_listing team)\<rparr>))) (\<lambda>_.
           io_ok True))
       | VaultConflict _ \<Rightarrow> io_ok False
       | VaultGone \<Rightarrow> io_ok False
       | VaultVersionStale \<Rightarrow> io_err KeyVersionStale))))))"

definition base_expects :: "push_base \<Rightarrow> current_entry option \<Rightarrow> bool" where
  "base_expects base current =
     (case (base, current) of
        (BaseCreate, None) \<Rightarrow> True
      | (BaseLatest, _) \<Rightarrow> True
      | (BaseReplace seen, Some c) \<Rightarrow> seen = cu_revision c
      | (BaseCreate, Some _) \<Rightarrow> False
      | (BaseReplace _, None) \<Rightarrow> False)"

definition push_entry ::
    "prims \<Rightarrow> 'w sync_context \<Rightarrow> string \<Rightarrow> team_keyring \<Rightarrow> entry_id \<Rightarrow> bytes \<Rightarrow> push_base \<Rightarrow> ('w, unit) team_io" where
  "push_entry P C team_id keyring entry payload base =
     io_bind (read_current P C team_id keyring entry) (\<lambda>current.
     if \<not> base_expects base current then io_err TeamConflict
     else
       io_bind (write_after P C team_id keyring entry payload current) (\<lambda>landed.
       if landed then io_ok () else io_err TeamConflict))"

text \<open>What a change makes of the catalogue: the new one, or \<open>None\<close> for nothing to write.\<close>

definition change_manifest :: "manifest_change \<Rightarrow> team_manifest \<Rightarrow> team_crypto_error + team_manifest option" where
  "change_manifest change m =
     (case change of
        ChangeUpsert named \<Rightarrow> bind_res (team_manifest_upsert named m) (\<lambda>m'. Inr (Some m'))
      | ChangeRemove entry_id \<Rightarrow>
          (case team_manifest_remove entry_id m of (did, m') \<Rightarrow> Inr (if did then Some m' else None)))"

fun edit_manifest_attempts ::
    "prims \<Rightarrow> 'w sync_context \<Rightarrow> string \<Rightarrow> team_keyring \<Rightarrow> entry_id \<Rightarrow> manifest_change \<Rightarrow> nat \<Rightarrow> ('w, team_manifest) team_io" where
  "edit_manifest_attempts P C team_id keyring entry change 0 = io_err TeamConflict"
| "edit_manifest_attempts P C team_id keyring entry change (Suc n) =
     io_bind (read_current P C team_id keyring entry) (\<lambda>current.
     io_bind (io_res (map_err TeamCrypto
       (case current of Some c \<Rightarrow> team_manifest_from_json P (cu_payload c) | None \<Rightarrow> Inr []))) (\<lambda>manifest.
     io_bind (io_res (map_err TeamCrypto (change_manifest change manifest))) (\<lambda>changed.
     case changed of
       None \<Rightarrow> io_ok manifest
     | Some manifest \<Rightarrow>
         io_bind (io_res (map_err TeamCrypto (team_manifest_to_json P manifest))) (\<lambda>payload.
         io_bind (write_after P C team_id keyring entry payload current) (\<lambda>landed.
         if landed then io_ok manifest
         else edit_manifest_attempts P C team_id keyring entry change n)))))"

definition edit_manifest_entry ::
    "prims \<Rightarrow> 'w sync_context \<Rightarrow> string \<Rightarrow> team_keyring \<Rightarrow> manifest_change \<Rightarrow> ('w, team_manifest) team_io" where
  "edit_manifest_entry P C team_id keyring change =
     io_bind (io_res (map_err TeamCrypto manifest_entry_id)) (\<lambda>entry.
     edit_manifest_attempts P C team_id keyring entry change MANIFEST_ATTEMPTS)"

section \<open>Loading a team\<close>

datatype stop = StopNoTeam | StopNeedsRecoveryKey | StopSharingKeyUnreadable | StopError team_vault_error

fun stop_of :: "team_vault_error \<Rightarrow> stop" where
  "stop_of SharingKeyUnreadable = StopSharingKeyUnreadable"
| "stop_of e = StopError e"

text \<open>The service's word on the current version is checked before anything is opened; what opened is
  then the new floor. The record is changed in memory even where the floor then refuses.\<close>

definition open_team_keys ::
    "prims \<Rightarrow> string \<Rightarrow> string \<Rightarrow> sharing_keypair \<Rightarrow> u32 \<Rightarrow> sealed_envelope list \<Rightarrow> member_key list \<Rightarrow> u64 \<Rightarrow>
     ('w, team_keyring \<times> (u32 \<times> team_vault_error) list) team_io" where
  "open_team_keys P team_id user_id me current_version envelopes members now = (\<lambda>M.
     case tv_trust (tm_session M) of
       None \<Rightarrow> (Inl not_loaded, M)
     | Some (owner, T) \<Rightarrow>
         let floor = key_version_floor T team_id in
         if current_version < floor then (Inl (TeamCrypto (KeyVersionRollback floor current_version)), M)
         else
           case open_envelopes P T team_id user_id me envelopes members now of (T', keyring, problems) \<Rightarrow>
             (case (case keyring_current keyring of
                      Some (v, _) \<Rightarrow> observe_key_version team_id v T'
                    | None \<Rightarrow> Inr (False, T')) of
                Inl e \<Rightarrow> (Inl (TeamCrypto e), on_session (\<lambda>S. S\<lparr>tv_trust := Some (owner, T')\<rparr>) M)
              | Inr (_, T'') \<Rightarrow>
                  (Inr (keyring, problems), on_session (\<lambda>S. S\<lparr>tv_trust := Some (owner, T'')\<rparr>) M)))"

definition team_base ::
    "team_summary \<Rightarrow> sharing_keypair \<Rightarrow> member_keys \<Rightarrow> team_keyring \<Rightarrow> vault_listing list \<Rightarrow> team_manifest \<Rightarrow>
     (string \<times> string) option \<Rightarrow> active_team" where
  "team_base team me listed keyring listing manifest unverified =
     \<lparr>at_team_id = ts_id team, at_name = ts_name team, at_role = team_role_parse (ts_role team), at_me = me,
      at_keyring = keyring, at_members = ms_members listed, at_rotation_recommended = ms_rotation_recommended listed,
      at_listing = listing, at_manifest = manifest, at_unverified_sealer = unverified\<rparr>"

text \<open>The current key did not open: an unverified sealer is the user's to settle, anything else that
  went wrong with it is an error, and no envelope for it is a wait.\<close>

definition current_key_missing ::
    "team_summary \<Rightarrow> sharing_keypair \<Rightarrow> member_keys \<Rightarrow> u32 \<Rightarrow> (u32 \<times> team_vault_error) list \<Rightarrow> stop + active_team" where
  "current_key_missing team me listed current_version problems =
     (case List.find (\<lambda>(version, _). version = current_version) problems of
        Some (_, NotPinned user_id) \<Rightarrow>
          let email = (case List.find (\<lambda>m. mk_user_id m = user_id) (ms_members listed) of
              Some m \<Rightarrow> mk_email m | None \<Rightarrow> user_id)
          in Inr (team_base team me listed [] [] [] (Some (user_id, email)))
      | Some (_, e) \<Rightarrow> Inl (StopError e)
      | None \<Rightarrow> Inr (team_base team me listed [] [] [] None))"

definition load_manifest_entry ::
    "prims \<Rightarrow> 'w sync_context \<Rightarrow> string \<Rightarrow> team_keyring \<Rightarrow> vault_listing list \<Rightarrow> ('w, team_manifest) team_io" where
  "load_manifest_entry P C team_id keyring listing =
     io_bind (io_res (map_err TeamCrypto manifest_entry_id)) (\<lambda>manifest_id.
     if List.find (\<lambda>l. vl_entry_id l = manifest_id) listing = None then io_ok []
     else
       io_bind (in_world (fetch_entry P C team_id manifest_id)) (\<lambda>found.
       case found of
         None \<Rightarrow> io_ok []
       | Some document \<Rightarrow>
           io_bind (open_document P team_id keyring manifest_id document) (\<lambda>opened.
           io_bind (team_record_seq P team_id manifest_id (oe_seq opened)) (\<lambda>_.
           io_res (map_err TeamCrypto (team_manifest_from_json P (oe_payload opened)))))))"

definition load_team ::
    "prims \<Rightarrow> 'w team_account \<Rightarrow> team_summary \<Rightarrow> ('w team_machine, stop, active_team) io" where
  "load_team P acc team =
     io_bind (io_map_err stop_of (team_context acc)) (\<lambda>C.
     io_bind (io_map_err stop_of (ensure_trust P (sc_user_id C))) (\<lambda>_.
     io_bind (in_world key_read) (\<lambda>key.
     case key of
       None \<Rightarrow> io_err StopNeedsRecoveryKey
     | Some d \<Rightarrow>
         io_bind (io_map_err stop_of (in_world (load_or_create_sharing_key P C d))) (\<lambda>me.
         io_bind (io_map_err stop_of (in_world (ensure_registered P C me))) (\<lambda>_.
         io_bind (io_map_err stop_of (in_world (fetch_team_key P C (ts_id team)))) (\<lambda>answer.
         io_bind (io_map_err stop_of (in_world (fetch_member_keys P C (ts_id team)))) (\<lambda>listed.
         case listed of
           None \<Rightarrow> io_err StopNoTeam
         | Some listed \<Rightarrow>
             (case answer of
                KeyNotMember \<Rightarrow> io_err StopNoTeam
              | KeyPending \<Rightarrow> io_ok (team_base team me listed [] [] [] None)
              | KeyEnvelopesAnswer current_version envelopes \<Rightarrow>
                  io_bind (in_world now_secs) (\<lambda>now.
                  io_bind (io_map_err stop_of (open_team_keys P (ts_id team) (sc_user_id C) me current_version envelopes
                    (ms_members listed) now)) (\<lambda>(keyring, problems).
                  io_bind (io_map_err stop_of (persist_trust P)) (\<lambda>_.
                  if keyring_get keyring current_version = None
                  then io_res (current_key_missing team me listed current_version problems)
                  else
                    io_bind (io_map_err stop_of (in_world (list_vault P C (ts_id team)))) (\<lambda>listing.
                    case listing of
                      None \<Rightarrow> io_err StopNoTeam
                    | Some listing \<Rightarrow>
                        io_bind (io_map_err stop_of (load_manifest_entry P C (ts_id team) keyring listing)) (\<lambda>manifest.
                        io_ok (team_base team me listed keyring listing manifest None))))))))))))))"

definition apply_load :: "stop + active_team \<Rightarrow> team_session \<Rightarrow> team_session" where
  "apply_load outcome S =
     (case outcome of
        Inr team \<Rightarrow>
          team_set_status
            (case at_unverified_sealer team of
               Some (user_id, email) \<Rightarrow> SealerNotVerified user_id email
             | None \<Rightarrow> if at_keyring team = [] then StatusKeyPending else TeamReady)
            (S\<lparr>tv_team := Some team\<rparr>)
      | Inl StopNoTeam \<Rightarrow> refresh_plan (drop_team S)
      | Inl StopNeedsRecoveryKey \<Rightarrow> team_set_status TeamNeedsRecoveryKey (S\<lparr>tv_team := None\<rparr>)
      | Inl StopSharingKeyUnreadable \<Rightarrow> team_set_status StatusSharingKeyUnreadable (S\<lparr>tv_team := None\<rparr>)
      | Inl (StopError e) \<Rightarrow> team_absorb (Inl e :: team_vault_error + unit) (S\<lparr>tv_team := None\<rparr>))"

text \<open>The half of a refresh that runs at once: the load it starts, if it starts one, with its
  generation.\<close>

definition refresh_start :: "'w team_account \<Rightarrow> team_session \<Rightarrow> (u64 \<times> team_summary) option \<times> team_session" where
  "refresh_start acc S =
     (case ta_plan_team acc of
        Some (Some team) \<Rightarrow>
          let S = S\<lparr>tv_generation := tv_generation S + 1\<rparr>
          in (Some (tv_generation S, team), team_set_status TeamWorking S)
      | Some None \<Rightarrow> (None, drop_team S)
      | None \<Rightarrow>
          if ta_user acc \<noteq> None
          then (None, plan_read_settled False (ta_read_starts acc)
                  (team_set_status TeamWorking (refresh_plan (S\<lparr>tv_refresh_after_plan := True\<rparr>))))
          else (None, drop_team S))"

text \<open>The half that runs when the load ends: nothing, unless it is still the latest.\<close>

definition land_load :: "u64 \<Rightarrow> stop + active_team \<Rightarrow> team_session \<Rightarrow> team_session" where
  "land_load generation outcome S = (if tv_generation S = generation then apply_load outcome S else S)"

definition team_refresh :: "prims \<Rightarrow> 'w team_account \<Rightarrow> ('w, unit) team_io" where
  "team_refresh P acc = (\<lambda>M.
     case refresh_start acc (tm_session M) of
       (None, S) \<Rightarrow> (Inr (), M\<lparr>tm_session := S\<rparr>)
     | (Some (generation, team), S) \<Rightarrow>
         (case load_team P acc team (M\<lparr>tm_session := S\<rparr>) of
            (outcome, M') \<Rightarrow> (Inr (), on_session (land_load generation outcome) M')))"

definition account_changed :: "prims \<Rightarrow> 'w team_account \<Rightarrow> ('w, unit) team_io" where
  "account_changed P acc =
     io_bind (do_session (\<lambda>S.
       if (case tv_trust S of Some (owner, _) \<Rightarrow> Some owner \<noteq> ta_user acc | None \<Rightarrow> False)
       then drop_team (S\<lparr>tv_trust := None\<rparr>) else S)) (\<lambda>_.
     if ta_user acc = None
     then do_session (\<lambda>S.
       let S = S\<lparr>tv_refresh_after_plan := False\<rparr> in if tv_team S \<noteq> None then drop_team S else S)
     else
       io_bind (do_session (\<lambda>S.
         case ta_plan_team acc of
           Some None \<Rightarrow> if tv_team S \<noteq> None then drop_team S else S
         | Some (Some team) \<Rightarrow>
             (case tv_team S of
                Some active \<Rightarrow> if at_team_id active \<noteq> ts_id team then drop_team S else S
              | None \<Rightarrow> S)
         | None \<Rightarrow> S)) (\<lambda>_.
       io_bind (of_session (\<lambda>S. tv_refresh_after_plan S \<and> ta_plan_team acc \<noteq> None)) (\<lambda>again.
       if again
       then io_bind (do_session (\<lambda>S. S\<lparr>tv_refresh_after_plan := False\<rparr>)) (\<lambda>_. team_refresh P acc)
       else io_ok ())))"

section \<open>The operations\<close>

text \<open>What a task answers is absorbed into the status and answered to the caller as well.\<close>

definition absorbed :: "('w, 'a) team_io \<Rightarrow> ('w, 'a) team_io" where
  "absorbed m = (\<lambda>M. case m M of (r, M') \<Rightarrow> (r, on_session (team_absorb r) M'))"

definition team_pull :: "prims \<Rightarrow> 'w team_account \<Rightarrow> entry_id \<Rightarrow> ('w, pulled_entry) team_io" where
  "team_pull P acc entry =
     io_bind (of_session team_keys) (\<lambda>keys.
     case keys of
       None \<Rightarrow> io_err NoTeamKey
     | Some (team_id, keyring) \<Rightarrow>
         absorbed (
           io_bind (team_context acc) (\<lambda>C.
           io_bind (in_world (fetch_entry P C team_id entry)) (\<lambda>found.
           io_bind (io_res (ok_or team_not_found found)) (\<lambda>document.
           io_bind (open_document P team_id keyring entry document) (\<lambda>opened.
           io_bind (team_record_seq P team_id entry (oe_seq opened)) (\<lambda>_.
           io_ok \<lparr>pu_payload = oe_payload opened, pu_revision = vd_revision document\<rparr>)))))))"

definition team_push :: "prims \<Rightarrow> 'w team_account \<Rightarrow> entry_id \<Rightarrow> bytes \<Rightarrow> push_base \<Rightarrow> ('w, unit) team_io" where
  "team_push P acc entry payload base =
     io_bind (of_session team_keys) (\<lambda>keys.
     case keys of
       None \<Rightarrow> io_err NoTeamKey
     | Some (team_id, keyring) \<Rightarrow>
         absorbed (
           io_bind (team_context acc) (\<lambda>C.
           push_entry P C team_id keyring entry payload base)))"

definition team_edit_manifest :: "prims \<Rightarrow> 'w team_account \<Rightarrow> manifest_change \<Rightarrow> ('w, unit) team_io" where
  "team_edit_manifest P acc change =
     io_bind (of_session team_keys) (\<lambda>keys.
     case keys of
       None \<Rightarrow> io_err NoTeamKey
     | Some (team_id, keyring) \<Rightarrow>
         absorbed (
           io_bind (team_context acc) (\<lambda>C.
           io_bind (edit_manifest_entry P C team_id keyring change) (\<lambda>manifest.
           do_session (in_team (\<lambda>team. team\<lparr>at_manifest := manifest\<rparr>))))))"

definition team_delete :: "prims \<Rightarrow> 'w team_account \<Rightarrow> entry_id \<Rightarrow> ('w, unit) team_io" where
  "team_delete P acc entry =
     io_bind (of_session tv_team) (\<lambda>team.
     case team of
       None \<Rightarrow> io_err NoTeamKey
     | Some team \<Rightarrow>
         if \<not> can_administer (at_role team) then io_err admin_required
         else
           absorbed (
             io_bind (team_context acc) (\<lambda>C.
             io_bind (in_world (delete_entry P C (at_team_id team) entry)) (\<lambda>_.
             do_session (in_team (\<lambda>team. team\<lparr>at_listing := filter (\<lambda>l. vl_entry_id l \<noteq> entry) (at_listing team)\<rparr>))))))"

definition granted :: "string \<Rightarrow> member_keys \<Rightarrow> active_team \<Rightarrow> active_team" where
  "granted user_id listed team =
     team\<lparr>at_members := map (\<lambda>m. if mk_user_id m = user_id then m\<lparr>mk_has_current_envelope := True\<rparr> else m) (ms_members listed),
          at_rotation_recommended := ms_rotation_recommended listed\<rparr>"

definition envelope_written :: "string \<Rightarrow> envelope_write \<Rightarrow> team_vault_error + unit" where
  "envelope_written user_id written =
     (case written of
        EnvelopeStored \<Rightarrow> Inr ()
      | EnvelopeRecipientChanged \<Rightarrow> Inl (KeyChanged user_id)
      | EnvelopeVersionStale \<Rightarrow> Inl KeyVersionStale
      | EnvelopeNotMember \<Rightarrow> Inl team_not_found)"

definition team_grant :: "prims \<Rightarrow> 'w team_account \<Rightarrow> string \<Rightarrow> ('w, unit) team_io" where
  "team_grant P acc user_id =
     io_bind (of_session tv_team) (\<lambda>team.
     case team of
       None \<Rightarrow> io_err NoTeamKey
     | Some team \<Rightarrow>
         absorbed (
           io_bind (team_context acc) (\<lambda>C.
           io_bind (in_world (fetch_member_keys P C (at_team_id team))) (\<lambda>listed.
           io_bind (io_res (ok_or team_not_found listed)) (\<lambda>listed.
           io_bind (io_res (ok_or team_not_found (List.find (\<lambda>m. mk_user_id m = user_id) (ms_members listed)))) (\<lambda>member.
           io_bind trust_snapshot (\<lambda>T.
           io_bind (in_world (prepare_grant P T (at_team_id team) (at_me team) (at_keyring team) member)) (\<lambda>(key_version, envelope).
           io_bind (in_world (put_envelopes P C (at_team_id team) key_version [envelope])) (\<lambda>written.
           io_bind (io_res (envelope_written user_id written)) (\<lambda>_.
           do_session (in_team (granted user_id listed))))))))))))"

definition team_trust_member_key :: "prims \<Rightarrow> 'w team_account \<Rightarrow> string \<Rightarrow> ('w, unit) team_io" where
  "team_trust_member_key P acc user_id =
     io_bind (of_session tv_team) (\<lambda>team.
     case team of
       None \<Rightarrow> io_err NoTeamKey
     | Some team \<Rightarrow>
         (case List.find (\<lambda>m. mk_user_id m = user_id) (at_members team) of
            Some member \<Rightarrow>
              (case mk_key member of
                 None \<Rightarrow> io_err (NoSharingKey user_id)
               | Some key \<Rightarrow>
                   io_bind (in_world now_secs) (\<lambda>now.
                   io_bind (trust_mut (\<lambda>T. Inr ((), verify_pin (at_team_id team) user_id (mk_email member) (rk_fingerprint key) now T))) (\<lambda>_.
                   io_bind (persist_trust P) (\<lambda>_.
                   io_bind (of_session (\<lambda>S. case tv_status S of SealerNotVerified sealer _ \<Rightarrow> sealer = user_id | _ \<Rightarrow> False)) (\<lambda>reopen.
                   if reopen then team_refresh P acc else io_ok ())))))
          | None \<Rightarrow> io_err (NoSharingKey user_id)))"

definition team_replace_sharing_key :: "prims \<Rightarrow> 'w team_account \<Rightarrow> ('w, unit) team_io" where
  "team_replace_sharing_key P acc =
     io_bind (of_session tv_status) (\<lambda>status.
     if status \<noteq> StatusSharingKeyUnreadable
     then io_err (TeamStorage ''your sharing key opens on this machine; nothing to replace'')
     else
       io_bind (do_session (team_set_status TeamWorking)) (\<lambda>_.
       io_case (
         io_bind (team_context acc) (\<lambda>C.
         io_bind (in_world key_read) (\<lambda>key.
         io_bind (io_res (ok_or (TeamStorage ''this machine has no recovery key'') key)) (\<lambda>d.
         in_world (replace_stored_sharing_key P C d))))) (\<lambda>result.
       case result of
         Inr _ \<Rightarrow> team_refresh P acc
       | Inl e \<Rightarrow> io_bind (do_session (team_set_status StatusSharingKeyUnreadable)) (\<lambda>_. io_err e))))"

definition team_create_key :: "prims \<Rightarrow> 'w team_account \<Rightarrow> ('w, unit) team_io" where
  "team_create_key P acc =
     io_bind (of_session tv_team) (\<lambda>team.
     case team of
       None \<Rightarrow> io_err NoTeamKey
     | Some team \<Rightarrow>
         if \<not> can_administer (at_role team) \<or> at_keyring team \<noteq> [] then io_err admin_required
         else
           io_bind (absorbed (
             io_bind (team_context acc) (\<lambda>C.
             io_bind (io_map_err TeamCrypto (in_world team_key_generate)) (\<lambda>team_key.
             io_bind (io_map_err TeamCrypto (in_world (wrap P (at_me team) (dk_public (at_me team))
               \<lparr>ei_team_id = at_team_id team, ei_recipient_user_id = sc_user_id C, ei_key_version = 1\<rparr> team_key))) (\<lambda>wrapped.
             io_bind (in_world (put_envelopes P C (at_team_id team) 1
               [\<lparr>og_user_id = sc_user_id C, og_recipient_fingerprint = sharing_fingerprint P (at_me team), og_wrapped_key = wrapped\<rparr>]))
               (\<lambda>written. io_res (envelope_written (sc_user_id C) written))))))) (\<lambda>_. team_refresh P acc))"

section \<open>Rotation\<close>

definition reseal_and_record ::
    "prims \<Rightarrow> 'w sync_context \<Rightarrow> string \<Rightarrow> team_keyring \<Rightarrow> ('w, reseal_report) team_io" where
  "reseal_and_record P C team_id keyring =
     io_bind trust_snapshot (\<lambda>T.
     io_bind (in_world (reseal_older_entries P C T team_id keyring)) (\<lambda>report.
     io_bind (trust_mut (\<lambda>T. Inr ((), fold (\<lambda>(entry, seq) T. snd (trust_record_seq team_id (entry_hex entry) seq T))
       (rr_written report) T))) (\<lambda>_.
     io_bind (persist_trust P) (\<lambda>_. io_ok report))))"

text \<open>The keys to carry on with: this machine's new one, or the winner's, read again.\<close>

definition rotated_keyring ::
    "prims \<Rightarrow> 'w team_account \<Rightarrow> u32 \<Rightarrow> team_keyring \<Rightarrow> rotation_step \<Rightarrow> ('w, team_keyring \<times> bool) team_io" where
  "rotated_keyring P acc from_version keyring step =
     (case step of
        StepRotated key_version team_key \<Rightarrow> io_ok (keyring_insert key_version team_key keyring, True)
      | StepLostRace \<Rightarrow>
          io_bind (team_refresh P acc) (\<lambda>_.
          io_bind (of_session (\<lambda>S. map_option at_keyring (tv_team S))) (\<lambda>keyring.
          io_bind (io_res (ok_or NoTeamKey keyring)) (\<lambda>keyring.
          case keyring_current keyring of
            Some (version, _) \<Rightarrow> if version > from_version then io_ok (keyring, False) else io_err KeyVersionStale
          | None \<Rightarrow> io_err KeyVersionStale))))"

definition rotate_team ::
    "prims \<Rightarrow> 'w team_account \<Rightarrow> string \<Rightarrow> sharing_keypair \<Rightarrow> team_keyring \<Rightarrow> ('w, team_rotation_report) team_io" where
  "rotate_team P acc team_id me keyring =
     io_bind (team_context acc) (\<lambda>C.
     io_bind (in_world (fetch_member_keys P C team_id)) (\<lambda>listed.
     io_bind (io_res (ok_or team_not_found listed)) (\<lambda>listed.
     io_bind trust_snapshot (\<lambda>T.
     io_bind (io_res (ok_or NoTeamKey (keyring_current keyring))) (\<lambda>(from_version, _).
     io_bind (in_world (rotate_key_version P C T team_id me keyring (ms_members listed))) (\<lambda>step.
     io_bind (rotated_keyring P acc from_version keyring step) (\<lambda>(keyring, rotated_here).
     io_bind (io_res (ok_or NoTeamKey (keyring_current keyring))) (\<lambda>(key_version, _).
     io_bind (in_world (fetch_member_keys P C team_id)) (\<lambda>listed.
     io_bind (io_res (ok_or team_not_found listed)) (\<lambda>listed.
     io_bind (trust_mut (\<lambda>T. map_err TeamCrypto (bind_res (observe_key_version team_id key_version T) (\<lambda>(_, T'). Inr ((), T'))))) (\<lambda>_.
     io_bind (do_session (in_team (\<lambda>team. team\<lparr>at_keyring := keyring, at_members := ms_members listed,
       at_rotation_recommended := ms_rotation_recommended listed\<rparr>))) (\<lambda>_.
     io_bind (persist_trust P) (\<lambda>_.
     io_bind (reseal_and_record P C team_id keyring) (\<lambda>reseal.
     io_ok \<lparr>tr_key_version = key_version, tr_rotated_here = rotated_here,
       tr_still_recommended = ms_rotation_recommended listed, tr_reseal = reseal\<rparr>))))))))))))))"

definition team_rotate :: "prims \<Rightarrow> 'w team_account \<Rightarrow> ('w, team_rotation_report) team_io" where
  "team_rotate P acc =
     io_bind (of_session tv_team) (\<lambda>team.
     case team of
       None \<Rightarrow> io_err NoTeamKey
     | Some team \<Rightarrow>
         if \<not> can_administer (at_role team) then io_err admin_required
         else
           io_bind (do_session (team_set_status TeamWorking)) (\<lambda>_.
           io_bind (absorbed (rotate_team P acc (at_team_id team) (at_me team) (at_keyring team))) (\<lambda>report.
           io_bind (do_session (\<lambda>S. if tv_status S = TeamWorking then team_set_status TeamReady S else S)) (\<lambda>_.
           io_ok report))))"

definition team_reseal :: "prims \<Rightarrow> 'w team_account \<Rightarrow> ('w, reseal_report) team_io" where
  "team_reseal P acc =
     io_bind (of_session tv_team) (\<lambda>team.
     case team of
       None \<Rightarrow> io_err NoTeamKey
     | Some team \<Rightarrow>
         if \<not> can_administer (at_role team) then io_err admin_required
         else
           absorbed (io_bind (team_context acc) (\<lambda>C. reseal_and_record P C (at_team_id team) (at_keyring team))))"

end
