(* ===== verification/Team_Safety.thy ===== *)
theory Team_Safety
  imports Team_Session
begin

text \<open>
  What holds of a team session over any run of its operations: the keys it holds are on its record,
  the record never goes back, neither do pulls, and nothing is written blindly. The steps of a
  session are a relation; the laws an invariant needs to survive all of them are a locale, with two
  interpretations on the model's own operations.
\<close>

section \<open>What an operation leaves of the session\<close>

lemma frame_in_world [frame_intros]: "frame tm_session (in_world m)"
  by (auto simp: frame_def in_world_def split: prod.splits)

lemma keeps_in_world [frame_intros]: "keeps (\<lambda>M. J (tm_session M)) (in_world m)"
  by (auto simp: keeps_def in_world_def split: prod.splits)

lemma keeps_of_session [frame_intros]: "keeps (\<lambda>M. J (tm_session M)) (of_session f)"
  by (simp add: keeps_def of_session_def)

lemma keeps_do_session: "(\<And>S. J S \<Longrightarrow> J (f S)) \<Longrightarrow> keeps (\<lambda>M. J (tm_session M)) (do_session f)"
  by (simp add: keeps_def do_session_def on_session_def)

lemma keeps_absorbed:
  "keeps (\<lambda>M. J (tm_session M)) m \<Longrightarrow> (\<And>S r. J S \<Longrightarrow> J (team_absorb (r :: team_vault_error + 'a) S)) \<Longrightarrow>
     keeps (\<lambda>M. J (tm_session M)) (absorbed (m :: ('w, 'a) team_io))"
  by (simp add: keeps_def absorbed_def on_session_def split: prod.splits) (metis snd_conv)

lemma keeps_trust_mut:
  "(\<And>S u T a T'. J S \<Longrightarrow> tv_trust S = Some (u, T) \<Longrightarrow> f T = Inr (a, T') \<Longrightarrow> J (S\<lparr>tv_trust := Some (u, T')\<rparr>)) \<Longrightarrow>
     keeps (\<lambda>M. J (tm_session M)) (trust_mut f)"
  by (auto simp: keeps_def trust_mut_def on_session_def split: option.splits sum.splits)

lemma keeps_persist [frame_intros]: "keeps (\<lambda>M. J (tm_session M)) (persist_trust P)"
  using keeps_in_world [of J "pins_save P u T" for u T]
  by (auto simp: keeps_def persist_trust_def split: option.splits)

lemma keeps_reads [frame_intros]:
  "keeps (\<lambda>M. J (tm_session M)) trust_snapshot"
  "keeps (\<lambda>M. J (tm_session M)) (team_seen_seq t e)"
  "keeps (\<lambda>M. J (tm_session M)) (team_context acc)"
  unfolding trust_snapshot_def team_seen_seq_def team_context_def by (intro frame_intros)+

lemma keeps_open_document [frame_intros]: "keeps (\<lambda>M. J (tm_session M)) (open_document P t kr e d)"
  unfolding open_document_def by (intro frame_intros)

lemma keeps_read_current [frame_intros]: "keeps (\<lambda>M. J (tm_session M)) (read_current P C t kr e)"
  unfolding read_current_def by (intro frame_intros)

text \<open>The steps of a session: every operation of it, under an account \<open>good\<close> allows, a read of
  the plan that ended, and anything at all that others do to the world around it.\<close>

inductive team_step :: "prims \<Rightarrow> ('w team_account \<Rightarrow> bool) \<Rightarrow> 'w team_machine \<Rightarrow> 'w team_machine \<Rightarrow> bool"
  for P :: prims and good :: "'w team_account \<Rightarrow> bool" where
  "good acc \<Longrightarrow> team_step P good M (snd (team_refresh P acc M))"
| "good acc \<Longrightarrow> team_step P good M (snd (account_changed P acc M))"
| "good acc \<Longrightarrow> team_step P good M (snd (team_pull P acc e M))"
| "good acc \<Longrightarrow> team_step P good M (snd (team_push P acc e p base M))"
| "good acc \<Longrightarrow> team_step P good M (snd (team_edit_manifest P acc change M))"
| "good acc \<Longrightarrow> team_step P good M (snd (team_delete P acc e M))"
| "good acc \<Longrightarrow> team_step P good M (snd (team_grant P acc u M))"
| "good acc \<Longrightarrow> team_step P good M (snd (team_trust_member_key P acc u M))"
| "good acc \<Longrightarrow> team_step P good M (snd (team_replace_sharing_key P acc M))"
| "good acc \<Longrightarrow> team_step P good M (snd (team_create_key P acc M))"
| "good acc \<Longrightarrow> team_step P good M (snd (team_rotate P acc M))"
| "good acc \<Longrightarrow> team_step P good M (snd (team_reseal P acc M))"
| "team_step P good M (on_session (plan_read_settled known reading) M)"
| "team_step P good M (M\<lparr>tm_world := w\<rparr>)"

text \<open>The laws an invariant of the session needs for every step to keep it: the small changes the
  operations make, and the two operations that bring in keys.\<close>

locale session_invariant =
  fixes J :: "team_session \<Rightarrow> bool" and P :: prims and good :: "'w team_account \<Rightarrow> bool"
  assumes status: "J S \<Longrightarrow> s \<noteq> NoTeam \<Longrightarrow> (s = TeamReady \<Longrightarrow> tv_team S \<noteq> None) \<Longrightarrow> J (team_set_status s S)"
    and plan_read: "J S \<Longrightarrow> J (refresh_plan S)"
    and waiting: "J S \<Longrightarrow> J (S\<lparr>tv_refresh_after_plan := b\<rparr>)"
    and dropped: "J S \<Longrightarrow> J (drop_team S)"
    and switched: "good acc \<Longrightarrow> J S \<Longrightarrow> tv_trust S = Some (owner, T) \<Longrightarrow> Some owner \<noteq> ta_user acc \<Longrightarrow>
      J (drop_team (S\<lparr>tv_trust := None\<rparr>))"
    and seq: "J S \<Longrightarrow> tv_trust S = Some (u, T) \<Longrightarrow> J (S\<lparr>tv_trust := Some (u, snd (trust_record_seq t e n T))\<rparr>)"
    and pin: "J S \<Longrightarrow> tv_trust S = Some (u, T) \<Longrightarrow> J (S\<lparr>tv_trust := Some (u, verify_pin t m em key n T)\<rparr>)"
    and views: "J S \<Longrightarrow> (\<And>x. at_team_id (f x) = at_team_id x \<and> at_keyring (f x) = at_keyring x) \<Longrightarrow> J (in_team f S)"
    and refreshed: "good acc \<Longrightarrow> keeps (\<lambda>M. J (tm_session M)) (team_refresh P acc)"
    and rotated: "good acc \<Longrightarrow> keeps (\<lambda>M. J (tm_session M)) (team_rotate P acc)"
begin

abbreviation kept :: "('w team_machine, 'e, 'a) io \<Rightarrow> bool" where
  "kept \<equiv> keeps (\<lambda>M. J (tm_session M))"

lemma absorb: "J S \<Longrightarrow> J (team_absorb r S)"
  by (auto simp: team_absorb_def split: sum.splits team_vault_error.splits client_error.splits
      intro!: status plan_read)

lemma kept_absorbed: "kept m \<Longrightarrow> kept (absorbed m)"
  by (rule keeps_absorbed) (auto intro: absorb)

lemma kept_record: "kept (team_record_seq P t e n)"
  unfolding team_record_seq_def
  by (intro frame_intros keeps_trust_mut) (auto intro: seq)

lemma kept_views:
  "(\<And>x. at_team_id (f x) = at_team_id x \<and> at_keyring (f x) = at_keyring x) \<Longrightarrow> kept (do_session (in_team f))"
  by (rule keeps_do_session) (rule views)

lemmas kept_intros = frame_intros kept_absorbed kept_record kept_views refreshed

lemma kept_write_after: "kept (write_after P C t kr e p c)"
  unfolding write_after_def Let_def
  by (intro kept_intros) (auto split: vault_write.splits intro!: kept_intros)

lemma kept_edit_attempts: "kept (edit_manifest_attempts P C t kr e change n)"
  by (induction n; simp only: edit_manifest_attempts.simps) (intro kept_intros kept_write_after, assumption?)+

lemma kept_pull: "kept (team_pull P acc e)"
  unfolding team_pull_def by (intro kept_intros)

lemma kept_push: "kept (team_push P acc e p base)"
  unfolding team_push_def push_entry_def by (intro kept_intros kept_write_after)

lemma kept_edit: "kept (team_edit_manifest P acc change)"
  unfolding team_edit_manifest_def edit_manifest_entry_def
  by (intro kept_intros kept_edit_attempts) simp_all

lemma kept_delete: "kept (team_delete P acc e)"
  unfolding team_delete_def by (intro kept_intros) simp_all

lemma kept_grant: "kept (team_grant P acc u)"
  unfolding team_grant_def by (intro kept_intros) (simp_all add: granted_def)

lemma kept_trust:
  assumes "good acc"
  shows "kept (team_trust_member_key P acc u)"
  unfolding team_trust_member_key_def using assms
  by (intro kept_intros keeps_trust_mut) (auto intro: pin)

lemma kept_replace:
  assumes "good acc"
  shows "kept (team_replace_sharing_key P acc)"
  unfolding team_replace_sharing_key_def using assms
  by (intro kept_intros keeps_do_session status) auto

lemma kept_create:
  assumes "good acc"
  shows "kept (team_create_key P acc)"
  unfolding team_create_key_def using assms by (intro kept_intros)

lemma records: "J S \<Longrightarrow> tv_trust S = Some (u, T) \<Longrightarrow>
    J (S\<lparr>tv_trust := Some (u, fold (\<lambda>(e, n) T. snd (trust_record_seq t (entry_hex e) n T)) ws T)\<rparr>)"
proof (induction ws arbitrary: S T)
  case (Cons x ws)
  obtain e n where x: "x = (e, n)" by (cases x)
  from Cons.IH [OF seq [OF Cons.prems, of t "entry_hex e" n]] show ?case by (simp add: x)
next
  case Nil
  then show ?case by (cases S) simp
qed

lemma kept_reseal_and_record: "kept (reseal_and_record P C t kr)"
  unfolding reseal_and_record_def
  by (intro kept_intros keeps_trust_mut) (auto intro: records)

lemma kept_reseal: "kept (team_reseal P acc)"
  unfolding team_reseal_def by (intro kept_intros kept_reseal_and_record)

lemma kept_account_changed:
  assumes "good acc"
  shows "kept (account_changed P acc)"
  unfolding account_changed_def Let_def using assms
  by (intro kept_intros keeps_do_session)
    (auto intro: switched dropped waiting simp del: waiting split: option.splits)

lemma settled: "J S \<Longrightarrow> J (plan_read_settled known reading S)"
  by (auto simp: plan_read_settled_def intro!: status waiting)

lemma kept_step:
  assumes "team_step P good M M'" "J (tm_session M)"
  shows "J (tm_session M')"
  using assms
proof cases
  case 13
  with assms(2) show ?thesis by (simp add: on_session_def settled)
next
  case 14
  with assms(2) show ?thesis by simp
qed (use assms(2) in \<open>auto intro: keepsD [OF _ _ prod.collapse [symmetric]] refreshed rotated kept_account_changed
  kept_pull kept_push kept_edit kept_delete kept_grant kept_trust kept_replace kept_create kept_reseal\<close>)

lemma kept_steps: "(team_step P good)\<^sup>*\<^sup>* M M' \<Longrightarrow> J (tm_session M) \<Longrightarrow> J (tm_session M')"
  by (induction rule: rtranclp_induct) (auto intro: kept_step)

end

section \<open>The keys a session holds are on its record\<close>

definition keys_on_record :: "team_session \<Rightarrow> bool" where
  "keys_on_record S \<longleftrightarrow>
     (\<forall>t v k. tv_team S = Some t \<longrightarrow> keyring_current (at_keyring t) = Some (v, k) \<longrightarrow>
        (\<exists>u T. tv_trust S = Some (u, T) \<and> key_version_floor T (at_team_id t) = v)) \<and>
     (tv_status S = NoTeam \<longrightarrow> tv_team S = None) \<and>
     (tv_status S = TeamReady \<longrightarrow> tv_team S \<noteq> None)"

text \<open>The version on record for a team, a view most of a load leaves alone.\<close>

definition recorded :: "string \<Rightarrow> u32 \<Rightarrow> team_session \<Rightarrow> bool" where
  "recorded t v S \<longleftrightarrow> (\<exists>u T. tv_trust S = Some (u, T) \<and> key_version_floor T t = v)"

lemma floor_record_seq [simp]: "key_version_floor (snd (trust_record_seq t e n T)) t' = key_version_floor T t'"
  by (simp add: key_version_floor_def)

lemma floor_verify_pin [simp]: "key_version_floor (verify_pin t m em f n T) t' = key_version_floor T t'"
  by (simp add: key_version_floor_def verify_pin_def)

lemma keyring_current_Nil [simp]: "keyring_current [] = None"
  by (simp add: keyring_current_def)

lemma recorded_load_manifest: "keeps (\<lambda>M. recorded t v (tm_session M)) (load_manifest_entry P C team_id kr ls)"
  unfolding load_manifest_entry_def team_record_seq_def
  by (intro frame_intros keeps_trust_mut) (auto simp: recorded_def)

lemma open_team_keys_recorded:
  assumes "open_team_keys P t u me cv es ms now M = (Inr (kr, problems), M')" "keyring_current kr = Some (v, k)"
  shows "recorded t v (tm_session M')"
  using assms
  by (auto simp: open_team_keys_def recorded_def on_session_def Let_def split: option.splits if_splits prod.splits sum.splits
      dest!: observe_Inr(2))

text \<open>Triples: from a state in \<open>I\<close>, a run that answers ends in \<open>Q\<close> and one that fails ends in \<open>E\<close>.\<close>

definition ends :: "('w \<Rightarrow> bool) \<Rightarrow> ('w, 'e, 'a) io \<Rightarrow> ('a \<Rightarrow> 'w \<Rightarrow> bool) \<Rightarrow> ('w \<Rightarrow> bool) \<Rightarrow> bool" where
  "ends I m Q E \<longleftrightarrow>
     (\<forall>w a w'. I w \<longrightarrow> m w = (Inr a, w') \<longrightarrow> Q a w') \<and> (\<forall>w e w'. I w \<longrightarrow> m w = (Inl e, w') \<longrightarrow> E w')"

abbreviation gives :: "('w \<Rightarrow> bool) \<Rightarrow> ('w, 'e, 'a) io \<Rightarrow> ('a \<Rightarrow> 'w \<Rightarrow> bool) \<Rightarrow> bool" where
  "gives I m Q \<equiv> ends I m Q (\<lambda>_. True)"

lemma endsD: "ends I m Q E \<Longrightarrow> I w \<Longrightarrow> m w = (Inr a, w') \<Longrightarrow> Q a w'"
  by (auto simp: ends_def)

lemma ends_bind: "ends I m R E \<Longrightarrow> (\<And>a. ends (R a) (k a) Q E) \<Longrightarrow> ends I (io_bind m k) Q E"
  unfolding ends_def io_bind_eq_Inr io_bind_eq_Inl by blast

lemma gives_any: "gives I m (\<lambda>_ _. True)"
  by (simp add: ends_def)

lemma ends_keeps: "keeps I m \<Longrightarrow> (\<And>w. I w \<Longrightarrow> E w) \<Longrightarrow> ends I m (\<lambda>_. I) E"
  unfolding ends_def by (blast dest: keepsD)

lemma keeps_if_ends: "ends I m (\<lambda>_. I) I \<Longrightarrow> keeps I m"
  unfolding ends_def keeps_def by (metis old.sum.exhaust prod.collapse)

lemmas gives_then = ends_bind [OF gives_any]

lemma ends_pure:
  "ends I (io_ok a) Q E \<longleftrightarrow> (\<forall>w. I w \<longrightarrow> Q a w)"
  "ends I (io_err e) Q E \<longleftrightarrow> (\<forall>w. I w \<longrightarrow> E w)"
  "ends I (io_res r) Q E \<longleftrightarrow> (\<forall>w. I w \<longrightarrow> (case r of Inr a \<Rightarrow> Q a w | Inl _ \<Rightarrow> E w))"
  by (auto simp: ends_def split: sum.splits)

lemma ends_map_err: "ends I m Q E \<Longrightarrow> ends I (io_map_err f m) Q E"
  by (auto simp: ends_def io_map_err_eq_Inr io_map_err_eq_Inl)

text \<open>The current key of a keyring is the version on record for a team.\<close>

definition ring_recorded :: "team_keyring \<Rightarrow> string \<Rightarrow> 'w team_machine \<Rightarrow> bool" where
  "ring_recorded kr t M \<longleftrightarrow> (\<forall>v k. keyring_current kr = Some (v, k) \<longrightarrow> recorded t v (tm_session M))"

definition loaded_recorded :: "active_team \<Rightarrow> 'w team_machine \<Rightarrow> bool" where
  "loaded_recorded t M = ring_recorded (at_keyring t) (at_team_id t) M"

lemma ring_recorded_Nil [simp]: "ring_recorded [] t M"
  by (simp add: ring_recorded_def)

lemma loaded_recorded_base [simp]: "loaded_recorded (team_base team me listed kr ls m s) M = ring_recorded kr (ts_id team) M"
  by (simp add: loaded_recorded_def team_base_def)

lemma loaded_recorded_missing: "current_key_missing team me listed cv ps = Inr t \<Longrightarrow> loaded_recorded t M"
  by (auto simp: current_key_missing_def Let_def split: option.splits prod.splits team_vault_error.splits)

lemma gives_open_team_keys:
  "gives I (open_team_keys P t u me cv es ms now) (\<lambda>(kr, _). ring_recorded kr t)"
  by (auto simp: ends_def ring_recorded_def open_team_keys_recorded)

lemma gives_ring_recorded:
  assumes "\<And>v. keeps (\<lambda>M. recorded t v (tm_session M)) m"
  shows "gives (ring_recorded kr t) m (\<lambda>_. ring_recorded kr t)"
  unfolding ends_def ring_recorded_def using keepsD [OF assms] by blast

lemma gives_load_tail:
  "gives (ring_recorded kr (ts_id team))
     (io_bind (io_map_err stop_of (in_world (list_vault P C (ts_id team)))) (\<lambda>listing.
        case listing of
          None \<Rightarrow> io_err StopNoTeam
        | Some listing \<Rightarrow>
            io_bind (io_map_err stop_of (load_manifest_entry P C (ts_id team) kr listing)) (\<lambda>manifest.
            io_ok (team_base team me listed kr listing manifest None)))) loaded_recorded"
  by (intro ends_bind [OF gives_ring_recorded] frame_intros)
    (auto simp: ends_pure split: option.split intro!: ends_bind [OF gives_ring_recorded] frame_intros recorded_load_manifest)

lemma gives_load_keys:
  "gives I
     (io_bind (in_world now_secs) (\<lambda>now.
      io_bind (io_map_err stop_of (open_team_keys P (ts_id team) u me cv es ms now)) (\<lambda>(keyring, problems).
      io_bind (io_map_err stop_of (persist_trust P)) (\<lambda>_.
      if keyring_get keyring cv = None
      then io_res (current_key_missing team me listed cv problems)
      else
        io_bind (io_map_err stop_of (in_world (list_vault P C (ts_id team)))) (\<lambda>listing.
        case listing of
          None \<Rightarrow> io_err StopNoTeam
        | Some listing \<Rightarrow>
            io_bind (io_map_err stop_of (load_manifest_entry P C (ts_id team) keyring listing)) (\<lambda>manifest.
            io_ok (team_base team me listed keyring listing manifest None)))))))
     loaded_recorded"
  by (rule gives_then, rule ends_bind [OF ends_map_err [OF gives_open_team_keys]])
    (auto simp: ends_pure loaded_recorded_missing split: sum.split
      intro!: ends_bind [OF gives_ring_recorded] frame_intros gives_load_tail)

lemma load_team_recorded: "gives I (load_team P acc team) loaded_recorded"
  unfolding load_team_def
  by (intro gives_then; simp add: ends_pure split: option.split key_answer.split; intro allI impI conjI)
    (intro gives_then; simp add: ends_pure gives_load_keys split: option.split key_answer.split)+

lemma open_envelopes_le: "open_envelopes P T t u me es ms now = (T', kr, ps) \<Longrightarrow> trust_le T T'"
  using open_envelopes_sound [of P T t u me es ms now] by (simp add: sound_opening_def)

lemma keeps_open_team_keys:
  assumes learn: "\<And>S u T T'. J S \<Longrightarrow> tv_trust S = Some (u, T) \<Longrightarrow> trust_le T T' \<Longrightarrow> J (S\<lparr>tv_trust := Some (u, T')\<rparr>)"
  shows "keeps (\<lambda>M. J (tm_session M)) (open_team_keys P t u me cv es ms now)"
  by (auto simp: keeps_def open_team_keys_def on_session_def Let_def split: option.splits prod.splits sum.splits
      intro!: learn intro: trust_le_trans dest!: open_envelopes_le observe_trust_le)

lemma keeps_team_context_bind:
  assumes "\<And>C w w'. ta_context acc w = (Some C, w') \<Longrightarrow> keeps (\<lambda>M. J (tm_session M)) (k C)"
  shows "keeps (\<lambda>M. J (tm_session M)) (io_bind (io_map_err f (team_context acc)) k)"
  using assms
  by (auto simp: keeps_def io_bind_apply io_map_err_apply team_context_def in_world_def ok_or_def split: prod.splits sum.splits option.splits)

lemma keeps_load_team:
  assumes learn: "\<And>S u T T'. J S \<Longrightarrow> tv_trust S = Some (u, T) \<Longrightarrow> trust_le T T' \<Longrightarrow> J (S\<lparr>tv_trust := Some (u, T')\<rparr>)"
    and ensured: "\<And>C w w'. ta_context acc w = (Some C, w') \<Longrightarrow>
      keeps (\<lambda>M. J (tm_session M)) (ensure_trust P (sc_user_id C) :: ('w, unit) team_io)"
  shows "keeps (\<lambda>M. J (tm_session M)) (load_team P (acc :: 'w team_account) team)"
proof -
  have seq: "keeps (\<lambda>M. J (tm_session M)) (team_record_seq P t e n)" for t e n
    unfolding team_record_seq_def
    by (intro frame_intros keeps_trust_mut) (auto intro: learn record_seq_trust_le)
  show ?thesis
    unfolding load_team_def load_manifest_entry_def
    by (intro keeps_team_context_bind) (auto split: key_answer.split
      intro!: frame_intros seq keeps_open_team_keys learn ensured)
qed

lemma keeps_generation: "keeps (\<lambda>M. tv_generation (tm_session M) = g) (load_team P acc team)"
  by (rule keeps_load_team) (auto simp: ensure_trust_def intro!: frame_intros keeps_do_session)

lemma apply_load_on_record:
  assumes "\<And>t. outcome = Inr t \<Longrightarrow> loaded_recorded t (M :: 'w team_machine)"
  shows "keys_on_record (apply_load outcome (tm_session M))"
  using assms
  by (auto simp: apply_load_def keys_on_record_def drop_team_def team_set_status_def refresh_plan_def team_absorb_def
      loaded_recorded_def ring_recorded_def recorded_def split: sum.splits stop.splits option.splits team_vault_error.splits
      client_error.splits)

lemma on_record_drop [simp]: "keys_on_record (drop_team S)"
  by (simp add: keys_on_record_def drop_team_def team_set_status_def)

lemma on_record_status:
  "keys_on_record S \<Longrightarrow> s \<noteq> NoTeam \<Longrightarrow> (s = TeamReady \<Longrightarrow> tv_team S \<noteq> None) \<Longrightarrow> keys_on_record (team_set_status s S)"
  by (auto simp: keys_on_record_def team_set_status_def)

lemma on_record_plan [simp]:
  "keys_on_record (refresh_plan S) = keys_on_record S"
  "keys_on_record (S\<lparr>tv_refresh_after_plan := b\<rparr>) = keys_on_record S"
  by (simp_all add: keys_on_record_def refresh_plan_def)

lemma on_record_settled: "keys_on_record S \<Longrightarrow> keys_on_record (plan_read_settled known reading S)"
  by (auto simp: plan_read_settled_def intro!: on_record_status)

lemma on_record_refresh: "keeps (\<lambda>M. keys_on_record (tm_session M)) (team_refresh P acc)"
proof -
  have started: "keys_on_record S'" if "refresh_start acc S = (None, S')" "keys_on_record S" for S S'
    using that by (auto simp: refresh_start_def Let_def split: option.splits if_splits intro!: on_record_settled on_record_status)
  have generation: "tv_generation S' = g" if "refresh_start acc S = (Some (g, team), S')" for S S' g team
    using that by (auto simp: refresh_start_def Let_def team_set_status_def split: option.splits if_splits)
  have "keys_on_record (land_load g outcome (tm_session M'))"
    if "load_team P acc team (M\<lparr>tm_session := S'\<rparr>) = (outcome, M')" "tv_generation S' = g" for g outcome M M' team S'
  proof -
    have "tv_generation (tm_session M') = g" using keepsD [OF keeps_generation _ that(1)] that(2) by simp
    moreover have "loaded_recorded t M'" if "outcome = Inr t" for t
      using endsD [OF load_team_recorded, where I = "\<lambda>_. True"] \<open>load_team P acc team _ = _\<close> that by simp
    ultimately show ?thesis by (simp add: land_load_def apply_load_on_record)
  qed
  then show ?thesis
    by (auto simp: keeps_def team_refresh_def on_session_def split: prod.splits option.splits dest: started generation)
qed

text \<open>A session about to rotate holds the team it rotates; once the new keys are there it holds that
  team, or the keys it is about to take over.\<close>

definition rotates :: "string \<Rightarrow> team_session \<Rightarrow> bool" where
  "rotates team_id S \<longleftrightarrow> keys_on_record S \<and> (\<exists>t. tv_team S = Some t \<and> at_team_id t = team_id)"

definition rotates_to :: "string \<Rightarrow> team_keyring \<Rightarrow> team_session \<Rightarrow> bool" where
  "rotates_to team_id kr S \<longleftrightarrow>
     keys_on_record S \<and> (\<exists>t. tv_team S = Some t \<and> (at_team_id t = team_id \<or> at_keyring t = kr))"

lemma ends_rotated_keyring:
  "ends (\<lambda>M. rotates team_id (tm_session M)) (rotated_keyring P acc from_version keyring step)
     (\<lambda>(kr, _) M. rotates_to team_id kr (tm_session M)) (\<lambda>M. keys_on_record (tm_session M))"
proof (cases step)
  case StepLostRace
  have "ends (\<lambda>M. rotates team_id (tm_session M)) (team_refresh P acc) (\<lambda>_ M. keys_on_record (tm_session M))
      (\<lambda>M. keys_on_record (tm_session M))"
    using on_record_refresh [of P acc] by (auto simp: ends_def rotates_def dest: keepsD)
  then show ?thesis
    unfolding rotated_keyring_def StepLostRace rotation_step.case
    by (rule ends_bind)
      (auto simp: ends_def io_bind_apply of_session_def ok_or_def rotates_to_def
        split: option.splits prod.splits if_splits)
qed (auto simp: rotated_keyring_def ends_pure rotates_def rotates_to_def)

lemma observed_on_record:
  assumes S: "rotates_to team_id kr S" "tv_trust S = Some (u, T)"
    and obs: "observe_key_version team_id v T = Inr (moved, T')" and v: "keyring_current kr = Some (v, k)"
    and f: "\<And>t. at_team_id (f t) = at_team_id t \<and> at_keyring (f t) = kr"
  shows "keys_on_record (in_team f (S\<lparr>tv_trust := Some (u, T')\<rparr>))"
proof -
  from S obtain t where t: "tv_team S = Some t" "at_team_id t = team_id \<or> at_keyring t = kr" "keys_on_record S"
    by (auto simp: rotates_to_def)
  have "key_version_floor T' (at_team_id t) = v"
  proof (cases "at_team_id t = team_id")
    case True
    then show ?thesis using observe_Inr(2) [OF obs] by simp
  next
    case False
    then have "key_version_floor T (at_team_id t) = v" using t v S(2) by (auto simp: keys_on_record_def)
    then show ?thesis using observe_Inr(5) [OF obs False] by simp
  qed
  then show ?thesis using t f v by (auto simp: keys_on_record_def in_team_def)
qed


definition holds_team :: "team_session \<Rightarrow> bool" where
  "holds_team S \<longleftrightarrow> keys_on_record S \<and> tv_team S \<noteq> None"

lemma ends_observe:
  assumes "keyring_current kr = Some (v, k)"
  shows "ends (\<lambda>M. rotates_to team_id kr (tm_session M))
    (trust_mut (\<lambda>T. map_err TeamCrypto (bind_res (observe_key_version team_id v T) (\<lambda>(_, T'). Inr ((), T')))))
    (\<lambda>_ M. \<forall>f. (\<forall>t. at_team_id (f t) = at_team_id t \<and> at_keyring (f t) = kr) \<longrightarrow> holds_team (in_team f (tm_session M)))
    (\<lambda>M. keys_on_record (tm_session M))"
proof -
  have "holds_team (in_team f (S\<lparr>tv_trust := Some (u, T')\<rparr>))"
    if "rotates_to team_id kr S" "tv_trust S = Some (u, T)" "observe_key_version team_id v T = Inr (moved, T')"
      "\<forall>t. at_team_id (f t) = at_team_id t \<and> at_keyring (f t) = kr" for S u T moved T' f
    using observed_on_record [OF that(1-3) assms, of f] that(1,4) by (auto simp: holds_team_def rotates_to_def in_team_def)
  then show ?thesis
    by (auto simp: ends_def trust_mut_def on_session_def bind_res_eq_Inr rotates_to_def split: option.splits sum.splits)
qed

lemma holds_team_seq:
  "holds_team S \<Longrightarrow> tv_trust S = Some (u, T) \<Longrightarrow>
     holds_team (S\<lparr>tv_trust := Some (u, fold (\<lambda>(e, n) T. snd (trust_record_seq t (entry_hex e) n T)) ws T)\<rparr>)"
proof (induction ws arbitrary: T S)
  case (Cons x ws)
  obtain e n where x: "x = (e, n)" by (cases x)
  have "holds_team (S\<lparr>tv_trust := Some (u, snd (trust_record_seq t (entry_hex e) n T))\<rparr>)"
    using Cons.prems by (auto simp: holds_team_def keys_on_record_def)
  from Cons.IH [OF this] show ?case by (simp add: x)
next
  case Nil
  then show ?case by (cases S) simp
qed

lemma ends_rotate_tail:
  assumes "keyring_current kr = Some (v, k)"
  shows "ends (\<lambda>M. rotates_to team_id kr (tm_session M))
    (io_bind (trust_mut (\<lambda>T. map_err TeamCrypto (bind_res (observe_key_version team_id v T) (\<lambda>(_, T'). Inr ((), T'))))) (\<lambda>_.
     io_bind (do_session (in_team (\<lambda>team. team\<lparr>at_keyring := kr, at_members := ms, at_rotation_recommended := b\<rparr>))) (\<lambda>_.
     io_bind (persist_trust P) (\<lambda>_.
     io_bind (reseal_and_record P C team_id kr) (\<lambda>reseal. io_ok (report reseal))))))
    (\<lambda>_ M. holds_team (tm_session M)) (\<lambda>M. keys_on_record (tm_session M))"
proof -
  have taken: "ends (\<lambda>M. \<forall>f. (\<forall>t. at_team_id (f t) = at_team_id t \<and> at_keyring (f t) = kr) \<longrightarrow> holds_team (in_team f (tm_session M)))
      (do_session (in_team (\<lambda>team. team\<lparr>at_keyring := kr, at_members := ms, at_rotation_recommended := b\<rparr>)))
      (\<lambda>_ M. holds_team (tm_session M)) E" for E
    by (auto simp: ends_def do_session_def on_session_def)
  have "keeps (\<lambda>M. holds_team (tm_session M)) (reseal_and_record P C team_id kr)"
    unfolding reseal_and_record_def by (intro frame_intros keeps_trust_mut) (auto intro: holds_team_seq)
  then show ?thesis
    by (intro ends_bind [OF ends_observe [OF assms]] ends_bind [OF taken] ends_bind [OF ends_keeps] frame_intros)
      (auto simp: ends_pure holds_team_def)
qed

lemma rotates_on_record: "rotates t S \<Longrightarrow> keys_on_record S" "rotates_to t kr S \<Longrightarrow> keys_on_record S"
  by (simp_all add: rotates_def rotates_to_def)

lemma ends_reads:
  assumes "\<And>J. keeps (\<lambda>M. J (tm_session M)) m"
  shows "ends (\<lambda>M. rotates t (tm_session M)) m (\<lambda>_ M. rotates t (tm_session M)) (\<lambda>M. keys_on_record (tm_session M))"
    and "ends (\<lambda>M. rotates_to t kr (tm_session M)) m (\<lambda>_ M. rotates_to t kr (tm_session M)) (\<lambda>M. keys_on_record (tm_session M))"
  by (rule ends_keeps [OF assms], erule rotates_on_record)+

lemmas ends_world = ends_bind [OF ends_reads(1) [OF keeps_in_world]] ends_bind [OF ends_reads(1) [OF keeps_ok(3)]]
  ends_bind [OF ends_reads(1) [OF keeps_reads(1)]] ends_bind [OF ends_reads(1) [OF keeps_reads(3)]]

lemma ends_current:
  assumes "\<And>v k. keyring_current kr = Some (v, k) \<Longrightarrow> ends I (f (v, k)) Q E" "\<And>w. I w \<Longrightarrow> E w"
  shows "ends I (io_bind (io_res (ok_or NoTeamKey (keyring_current kr))) f) Q E"
  using assms by (cases "keyring_current kr") (auto simp: ends_pure)

lemma rotate_team_on_record:
  "ends (\<lambda>M. rotates team_id (tm_session M)) (rotate_team P acc team_id me keyring)
     (\<lambda>_ M. holds_team (tm_session M)) (\<lambda>M. keys_on_record (tm_session M))"
proof -
  have tail: "ends (\<lambda>M. rotates_to team_id kr (tm_session M))
     (io_bind (io_res (ok_or NoTeamKey (keyring_current kr))) (\<lambda>(key_version, _).
     io_bind (in_world (fetch_member_keys P C team_id)) (\<lambda>listed.
     io_bind (io_res (ok_or team_not_found listed)) (\<lambda>listed.
     io_bind (trust_mut (\<lambda>T. map_err TeamCrypto (bind_res (observe_key_version team_id key_version T) (\<lambda>(_, T'). Inr ((), T'))))) (\<lambda>_.
     io_bind (do_session (in_team (\<lambda>team. team\<lparr>at_keyring := kr, at_members := ms_members listed,
       at_rotation_recommended := ms_rotation_recommended listed\<rparr>))) (\<lambda>_.
     io_bind (persist_trust P) (\<lambda>_.
     io_bind (reseal_and_record P C team_id kr) (\<lambda>reseal.
     io_ok \<lparr>tr_key_version = key_version, tr_rotated_here = here,
       tr_still_recommended = ms_rotation_recommended listed, tr_reseal = reseal\<rparr>))))))))
     (\<lambda>_ M. holds_team (tm_session M)) (\<lambda>M. keys_on_record (tm_session M))" for C kr here
    by (rule ends_current)
      (auto dest: rotates_on_record intro!: ends_bind [OF ends_reads(2)] frame_intros ends_rotate_tail)
  show ?thesis
    unfolding rotate_team_def
    by (intro ends_world ends_current; (erule rotates_on_record)?; simp only: prod.case;
        intro ends_world ends_bind [OF ends_rotated_keyring]) (auto intro!: tail)
qed

lemma absorb_Inr [simp]: "team_absorb (Inr a) S = S"
  by (simp add: team_absorb_def)

lemma on_record_absorb: "keys_on_record S \<Longrightarrow> keys_on_record (team_absorb r S)"
  by (auto simp: team_absorb_def split: sum.splits team_vault_error.splits client_error.splits
      intro!: on_record_status)

lemma on_record_rotate: "keeps (\<lambda>M. keys_on_record (tm_session M)) (team_rotate P acc)"
proof -
  have "keys_on_record (tm_session M')" if S: "keys_on_record (tm_session M)" and run: "team_rotate P acc M = (r, M')" for M M' r
  proof (cases "tv_team (tm_session M)")
    case None
    with S run show ?thesis by (auto simp: team_rotate_def io_bind_apply of_session_def)
  next
    case (Some t)
    let ?M = "on_session (team_set_status TeamWorking) M"
    have pre: "rotates (at_team_id t) (tm_session ?M)"
      using S Some by (simp add: rotates_def on_session_def on_record_status) (simp add: team_set_status_def)
    show ?thesis
    proof (cases "can_administer (at_role t)")
      case True
      obtain x M1 where x: "rotate_team P acc (at_team_id t) (at_me t) (at_keyring t) ?M = (x, M1)" by (metis prod.collapse)
      have after: "keys_on_record (tm_session M1)" "\<And>a. x = Inr a \<Longrightarrow> tv_team (tm_session M1) \<noteq> None"
        using rotate_team_on_record [of "at_team_id t" P acc "at_me t" "at_keyring t"] pre x
        by (cases x; auto simp: ends_def holds_team_def)+
      from run Some True x after show ?thesis
        by (cases x) (auto simp: team_rotate_def io_bind_apply of_session_def do_session_def absorbed_def on_session_def on_record_status on_record_absorb)
    qed (use S run Some in \<open>auto simp: team_rotate_def io_bind_apply of_session_def\<close>)
  qed
  then show ?thesis unfolding keeps_def by (metis prod.collapse)
qed

interpretation recorded_keys: session_invariant keys_on_record P "\<lambda>_. True" for P
  by unfold_locales
    (auto simp: on_record_status on_record_refresh on_record_rotate, auto simp: keys_on_record_def in_team_def)

section \<open>The record never goes back\<close>

definition record_le :: "team_trust \<Rightarrow> team_trust \<Rightarrow> bool" where
  "record_le T T' \<longleftrightarrow>
     (\<forall>t. key_version_floor T t \<le> key_version_floor T' t) \<and>
     (\<forall>t e s. trust_seen_seq T t e = Some s \<longrightarrow> (\<exists>s'. trust_seen_seq T' t e = Some s' \<and> s \<le> s')) \<and>
     (\<forall>t m. pinned T t m \<noteq> None \<longrightarrow> pinned T' t m \<noteq> None)"

lemma record_le_refl [simp]: "record_le T T"
  by (simp add: record_le_def)

lemma record_le_trans: "record_le T U \<Longrightarrow> record_le U V \<Longrightarrow> record_le T V"
  unfolding record_le_def by (meson order_trans)

lemma record_le_if: "trust_le T U \<Longrightarrow> record_le T U"
  unfolding trust_le_def record_le_def by blast

lemma record_le_verify: "record_le T (verify_pin t m em f n T)"
  by (simp add: record_le_def verify_pin_def trust_seen_seq_def key_version_floor_def)

text \<open>Accounts that act for one user throughout.\<close>

definition account_of :: "string \<Rightarrow> 'w team_account \<Rightarrow> bool" where
  "account_of u acc \<longleftrightarrow> ta_user acc = Some u \<and> (\<forall>w C w'. ta_context acc w = (Some C, w') \<longrightarrow> sc_user_id C = u)"

lemma account_of_context: "account_of u acc \<Longrightarrow> ta_context acc w = (Some C, w') \<Longrightarrow> sc_user_id C = u"
  by (auto simp: account_of_def)

definition grown :: "string \<Rightarrow> team_trust \<Rightarrow> team_session \<Rightarrow> bool" where
  "grown u Told S \<longleftrightarrow> (\<exists>T. tv_trust S = Some (u, T) \<and> record_le Told T)"

lemma grown_simps [simp]:
  "grown u Told (team_set_status s S) = grown u Told S"
  "grown u Told (refresh_plan S) = grown u Told S"
  "grown u Told (drop_team S) = grown u Told S"
  "grown u Told (in_team f S) = grown u Told S"
  "grown u Told (S\<lparr>tv_refresh_after_plan := b\<rparr>) = grown u Told S"
  "grown u Told (S\<lparr>tv_generation := g\<rparr>) = grown u Told S"
  "grown u Told (S\<lparr>tv_team := x\<rparr>) = grown u Told S"
  "grown u Told (plan_read_settled known reading S) = grown u Told S"
  by (simp_all add: grown_def team_set_status_def refresh_plan_def drop_team_def in_team_def plan_read_settled_def)

lemma grown_learn:
  "grown u Told S \<Longrightarrow> tv_trust S = Some (o', T) \<Longrightarrow> record_le T T' \<Longrightarrow> grown u Told (S\<lparr>tv_trust := Some (o', T')\<rparr>)"
  by (auto simp: grown_def intro: record_le_trans)

lemma grown_absorb [simp]: "grown u Told (team_absorb r S) = grown u Told S"
  by (auto simp: team_absorb_def split: sum.splits team_vault_error.splits client_error.splits)

lemma grown_apply_load [simp]: "grown u Told (apply_load outcome S) = grown u Told S"
  by (auto simp: apply_load_def split: sum.splits stop.splits option.splits)

lemma grown_refresh_start: "refresh_start acc S = (x, S') \<Longrightarrow> grown u Told S' = grown u Told S"
  by (auto simp: refresh_start_def Let_def split: option.splits if_splits)

lemma grown_ensure: "keeps (\<lambda>M. grown u Told (tm_session M)) (ensure_trust P u)"
  by (auto simp: keeps_def ensure_trust_def io_bind_apply of_session_def grown_def)

lemma grown_refresh:
  assumes "account_of u acc"
  shows "keeps (\<lambda>M. grown u Told (tm_session M)) (team_refresh P acc)"
proof -
  have load: "keeps (\<lambda>M. grown u Told (tm_session M)) (load_team P acc team)" for team
    using assms by (intro keeps_load_team) (auto simp: account_of_context grown_ensure intro: grown_learn record_le_if)
  show ?thesis
    by (auto simp: keeps_def team_refresh_def on_session_def land_load_def grown_refresh_start split: prod.splits option.splits
        dest!: keepsD [OF load, rotated 1])
qed


lemma grown_rotate:
  assumes "account_of u acc"
  shows "keeps (\<lambda>M. grown u Told (tm_session M)) (team_rotate P acc)"
proof -
  have records: "record_le T (fold (\<lambda>(e, n) T. snd (trust_record_seq t (entry_hex e) n T)) ws T)" for t ws T
    by (induction ws arbitrary: T) (auto intro: record_le_trans [OF record_le_if [OF record_seq_trust_le]])
  show ?thesis
    unfolding team_rotate_def rotate_team_def rotated_keyring_def reseal_and_record_def
    by (intro frame_intros keeps_absorbed)
      (auto split: rotation_step.split simp: bind_res_eq_Inr
        intro!: frame_intros keeps_do_session keeps_trust_mut grown_refresh [OF assms] grown_learn records
        intro: record_le_if [OF observe_trust_le])
qed

interpretation growing: session_invariant "grown u Told" P "account_of u" for u Told P
  by unfold_locales
    (auto simp: grown_refresh grown_rotate account_of_def intro: grown_learn record_le_if record_seq_trust_le record_le_verify,
     auto simp: grown_def)

section \<open>Pulling\<close>

text \<open>What the service serves of an entry, read without regard to anything this machine remembers: the
  document it answers to the machine as it stands, opened under the key held for the version the
  document names, with the sequence number sealed inside it.\<close>

definition served_entry ::
    "prims \<Rightarrow> 'w team_account \<Rightarrow> entry_id \<Rightarrow> 'w team_machine \<Rightarrow> (u64 \<times> pulled_entry) option" where
  "served_entry P acc e M =
     (case (team_keys (tm_session M), ta_context acc (tm_world M)) of
        (Some (t, kr), (Some C, w)) \<Rightarrow>
          (case fst (fetch_entry P C t e w) of
             Inr (Some d) \<Rightarrow>
               (case (keyring_get kr (vd_key_version d), from_blob P (vd_blob d), team_entry_resource t e) of
                  (Some k, Inr env, Inr resource) \<Rightarrow>
                    (case decrypt_at P (team_as_dek k) t resource env of
                       Inr block \<Rightarrow>
                         (case unpack block of
                            Inr (s, inner) \<Rightarrow>
                              Some (s, \<lparr>pu_payload = drop KEY_VERSION_BYTES inner, pu_revision = vd_revision d\<rparr>)
                          | _ \<Rightarrow> None)
                     | _ \<Rightarrow> None)
                | _ \<Rightarrow> None)
           | _ \<Rightarrow> None)
      | _ \<Rightarrow> None)"

lemma record_seq_run:
  assumes "team_record_seq P t e s M = (Inr x, M')" "tv_trust (tm_session M) = Some (u, T)"
  shows "tv_trust (tm_session M') = Some (u, snd (trust_record_seq t (entry_hex e) s T))"
proof -
  let ?M = "on_session (\<lambda>S. S\<lparr>tv_trust := Some (u, snd (trust_record_seq t (entry_hex e) s T))\<rparr>) M"
  from assms have "persist_trust P ?M = (Inr x, M')"
    by (auto simp: team_record_seq_def trust_mut_def io_bind_apply)
  from keepsD [OF keeps_persist [where J = "\<lambda>S. tv_trust S = tv_trust (tm_session ?M)"] _ this]
  show ?thesis by (simp add: on_session_def)
qed

lemma open_document_run:
  assumes "open_document P t kr e d M = (Inr opened, M')"
  obtains u T k env where "M' = M" "tv_trust (tm_session M) = Some (u, T)" "keyring_get kr (vd_key_version d) = Some k"
    "from_blob P (vd_blob d) = Inr env"
    "open_entry P k t e (vd_key_version d) (trust_seen_seq T t (entry_hex e)) env = Inr opened"
  using assms
  by (auto simp: open_document_def team_seen_seq_def trust_snapshot_def of_session_def io_bind_eq_Inr)

lemma open_entry_reads:
  assumes "open_entry P k t e v seen env = Inr x"
  shows "\<exists>resource block inner. team_entry_resource t e = Inr resource \<and>
    decrypt_at P (team_as_dek k) t resource env = Inr block \<and> unpack block = Inr (oe_seq x, inner) \<and>
    oe_payload x = drop KEY_VERSION_BYTES inner"
  using assms by (auto simp: open_entry_def bind_res_eq_Inr split: if_splits option.splits)

lemma pull_run:
  assumes "team_pull P acc e M = (Inr p, M')" "team_keys (tm_session M) = Some (t, kr)"
  obtains u T T' s where "tv_trust (tm_session M) = Some (u, T)" "tv_trust (tm_session M') = Some (u, T')"
    "served_entry P acc e M = Some (s, p)" "trust_seen_seq T' t (entry_hex e) = Some s"
    "\<And>old. trust_seen_seq T t (entry_hex e) = Some old \<Longrightarrow> old \<le> s"
proof -
  from assms obtain C M1 d M2 opened M3 M4 where x: "team_context acc M = (Inr C, M1)"
    "in_world (fetch_entry P C t e) M1 = (Inr (Some d), M2)" "open_document P t kr e d M2 = (Inr opened, M3)"
    "team_record_seq P t e (oe_seq opened) M3 = (Inr (), M4)" "tm_session M' = tm_session M4"
    "p = \<lparr>pu_payload = oe_payload opened, pu_revision = vd_revision d\<rparr>"
    by (auto simp: team_pull_def of_session_def absorbed_def on_session_def io_bind_eq_Inr split: prod.splits)
  from open_document_run [OF x(3)] obtain u T k env where y: "M3 = M2" "tv_trust (tm_session M2) = Some (u, T)"
    "keyring_get kr (vd_key_version d) = Some k" "from_blob P (vd_blob d) = Inr env"
    "open_entry P k t e (vd_key_version d) (trust_seen_seq T t (entry_hex e)) env = Inr opened" by metis
  have same: "tm_session M2 = tm_session M"
    using frameD [OF frame_in_world x(2)] x(1) by (auto simp: team_context_def dest: frameD [OF frame_in_world])
  from x(1) have ctx: "ta_context acc (tm_world M) = (Some C, tm_world M1)"
    by (auto simp: team_context_def in_world_def split: prod.splits option.splits)
  have "fst (fetch_entry P C t e (tm_world M1)) = Inr (Some d)"
    using x(2) by (auto simp: in_world_def split: prod.splits)
  with ctx y(3,4) open_entry_reads [OF y(5)] have "served_entry P acc e M = Some (oe_seq opened, p)"
    by (auto simp: served_entry_def assms(2) x(6))
  with same show thesis
    using record_seq_run [OF x(4)] x(5) y(1,2) open_entry_Inr(2) [OF y(5)]
    by (intro that [of u T "snd (trust_record_seq t (entry_hex e) (oe_seq opened) T)" "oe_seq opened"])
      (auto simp: record_seq_seen max_def split: option.splits)
qed

section \<open>Writing\<close>

text \<open>The requests sharing may make: reads and removals, and writes that name what they replace and
  carry a key version of at least \<open>v0\<close>.\<close>

definition vault_request :: "prims \<Rightarrow> u32 \<Rightarrow> request \<Rightarrow> bool" where
  "vault_request P v0 r \<longleftrightarrow>
     conditional r \<and>
     (req_method r = ''PUT'' \<longrightarrow>
        (\<exists>v blob body. v0 \<le> v \<and> json_text P (JObj [(''blob'', JStr blob), (''keyVersion'', JNum (uint v))]) = Inr body \<and>
           req_body r = Some body))"

lemma fold_with_header: "fold (\<lambda>(n, v). with_header n v) hs b = b\<lparr>req_headers := req_headers b @ hs\<rparr>"
  by (induction hs arbitrary: b) (auto simp: with_header_def)

lemma keeps_team_call:
  assumes "kept_by allowed I (sc_api C)"
    and "\<And>r. req_method r = m \<Longrightarrow> req_body r = body \<Longrightarrow> set hs \<subseteq> set (req_headers r) \<Longrightarrow> allowed r"
  shows "keeps (on_net I) (team_call P C r m body hs)"
  unfolding team_call_def client_request_def Let_def fold_with_header
  by (intro frame_intros keeps_finish [OF assms(1)] keeps_http [OF assms(1)] assms(2))
    (auto simp: build_def with_header_def split: option.splits)

lemma keeps_net_if: "frame net m \<Longrightarrow> keeps (on_net I) m"
  by (simp add: frame_def keeps_def on_net_def)

lemma keeps_fetch_entry:
  assumes "kept_by (vault_request P v0) I (sc_api C)"
  shows "keeps (on_net I) (fetch_entry P C t e)"
  unfolding fetch_entry_def
  by (intro frame_intros keeps_team_call [OF assms]) (auto simp: vault_request_def conditional_def)

lemma keeps_store_entry:
  assumes "kept_by (vault_request P v0) I (sc_api C)" "v0 \<le> v"
  shows "keeps (on_net I) (store_entry P C t e blob v pre)"
proof -
  have "keeps (on_net I) (team_call P C r ''PUT'' (Some body) [vault_header pre])"
    if "team_body P (JObj [(''blob'', JStr blob), (''keyVersion'', JNum (uint v))]) = Inr body" for r body
    using that assms(2)
    by (intro keeps_team_call [OF assms(1)])
      (auto simp: vault_request_def conditional_def vault_header_def team_body_def split: vault_precondition.splits)
  then show ?thesis
    unfolding store_entry_def
    by (cases "team_body P (JObj [(''blob'', JStr blob), (''keyVersion'', JNum (uint v))])") (auto intro!: frame_intros)
qed

lemma frame_net_saves [frame_intros]:
  "frame net (pins_save P u T)" "frame net (seal_entry P k t e v s p)"
proof -
  have "frame net (kv_write k v)" for k v by (auto simp: frame_def kv_write_def split: option.splits)
  then show "frame net (pins_save P u T)" unfolding pins_save_def by (intro frame_intros)
  show "frame net (seal_entry P k t e v s p)" unfolding seal_entry_def Let_def by (intro frame_intros)
qed

text \<open>The network as it may be, and a record that knows version \<open>v0\<close> of the team.\<close>

definition sharing_state :: "('w \<Rightarrow> bool) \<Rightarrow> string \<Rightarrow> u32 \<Rightarrow> 'w team_machine \<Rightarrow> bool" where
  "sharing_state I t v0 M \<longleftrightarrow>
     I (net (tm_world M)) \<and> (\<exists>u T. tv_trust (tm_session M) = Some (u, T) \<and> v0 \<le> key_version_floor T t)"

lemma sharing_world: "keeps (on_net I) m \<Longrightarrow> keeps (sharing_state I t v0) (in_world m)"
  by (auto simp: keeps_def sharing_state_def in_world_def on_net_def split: prod.splits)

lemma sharing_session:
  "(\<And>S. tv_trust (f S) = tv_trust S) \<Longrightarrow> keeps (sharing_state I t v0) (do_session f)"
  "keeps (sharing_state I t v0) (of_session g)"
  by (auto simp: keeps_def sharing_state_def do_session_def of_session_def on_session_def)

lemma sharing_snapshot_bind:
  "(\<And>T. v0 \<le> key_version_floor T t \<Longrightarrow> keeps (sharing_state I t v0) (k T)) \<Longrightarrow>
     keeps (sharing_state I t v0) (io_bind trust_snapshot k)"
  by (auto simp: keeps_def sharing_state_def trust_snapshot_def of_session_def io_bind_apply)

lemma sharing_record: "keeps (sharing_state I t v0) (team_record_seq P t' e n)"
proof -
  have "keeps (sharing_state I t v0) (trust_mut (\<lambda>T. Inr ((), snd (trust_record_seq t' (entry_hex e) n T))))"
    by (auto simp: keeps_def sharing_state_def trust_mut_def on_session_def split: option.splits)
  moreover have "keeps (sharing_state I t v0) (persist_trust P)"
    using sharing_world [OF keeps_net_if [OF frame_net_saves(1)], of I t v0 P]
    by (auto simp: keeps_def persist_trust_def split: option.splits)
  ultimately show ?thesis unfolding team_record_seq_def by (intro frame_intros)
qed

lemmas sharing_intros = frame_intros sharing_world sharing_session sharing_record keeps_net_if sharing_snapshot_bind

lemma sharing_seen: "keeps (sharing_state I t v0) (team_seen_seq t' e)"
  unfolding team_seen_seq_def by (intro sharing_intros)

lemma sharing_read:
  assumes "kept_by (vault_request P v0) I (sc_api C)"
  shows "keeps (sharing_state I t v0) (read_current P C t kr e)"
  unfolding read_current_def open_document_def
  by (intro sharing_intros keeps_fetch_entry [OF assms] sharing_seen)

lemma sharing_write:
  assumes "kept_by (vault_request P v0) I (sc_api C)"
  shows "keeps (sharing_state I t v0) (write_after P C t kr e p c)"
  unfolding write_after_def Let_def
  by (intro frame_intros sharing_snapshot_bind)
    (auto intro!: sharing_intros sharing_seen keeps_store_entry [OF assms] split: vault_write.splits simp: in_team_def)

lemma sharing_edit:
  assumes "kept_by (vault_request P v0) I (sc_api C)"
  shows "keeps (sharing_state I t v0) (edit_manifest_attempts P C t kr e change n)"
  by (induction n; simp only: edit_manifest_attempts.simps)
    (intro frame_intros sharing_read [OF assms] sharing_write [OF assms], assumption?)+


lemma sharing_context_bind:
  assumes "\<And>C w w'. ta_context acc w = (Some C, w') \<Longrightarrow> keeps (sharing_state I t v0) (k C)"
    and "\<And>w. I (net w) \<Longrightarrow> I (net (snd (ta_context acc w)))"
  shows "keeps (sharing_state I t v0) (io_bind (team_context acc) k)"
proof -
  have "sharing_state I t v0 (M\<lparr>tm_world := w'\<rparr>)" if "sharing_state I t v0 M" "ta_context acc (tm_world M) = (x, w')" for M x w'
    using that assms(2) [of "tm_world M"] by (auto simp: sharing_state_def)
  then show ?thesis
    using assms(1)
    by (auto simp: keeps_def io_bind_apply team_context_def in_world_def ok_or_def split: prod.splits sum.splits option.splits)
qed

lemma absorb_trust [simp]: "tv_trust (team_absorb r S) = tv_trust S"
  by (auto simp: team_absorb_def team_set_status_def refresh_plan_def split: sum.splits team_vault_error.splits client_error.splits)

lemma sharing_absorbed: "keeps (sharing_state I t v0) m \<Longrightarrow> keeps (sharing_state I t v0) (absorbed m)"
  by (auto simp: keeps_def absorbed_def on_session_def sharing_state_def split: prod.splits)

section \<open>A service that answers one document\<close>

definition serving_api :: "string api" where
  "serving_api =
     \<lparr>builds = (\<lambda>_. True), exchange = (\<lambda>_ body. (Some (200, Some body), body)), api_url = ''http://h'',
      access_token = ''t'', web_origin = ''http://w''\<rparr>"

definition serving_account :: "string team_account" where
  "serving_account =
     \<lparr>ta_user = Some ''u1'', ta_plan_team = None, ta_reading_plan = False, ta_read_starts = False,
      ta_context = (\<lambda>w. (Some \<lparr>sc_api = serving_api, sc_user_id = ''u1''\<rparr>, w))\<rparr>"

definition document_json :: "vault_document \<Rightarrow> json" where
  "document_json d =
     JObj [(''blob'', JStr (vd_blob d)), (''revision'', JStr (vd_revision d)), (''keyVersion'', JNum (uint (vd_key_version d)))]"

lemma read_document_json: "read_vault_document (document_json d) = Some d"
  by (simp add: read_vault_document_def document_json_def struct_simps)

lemma fetch_served:
  assumes "json_read P (net w) = Inr (document_json d)" "team_slot (resource_team_entry t (entry_hex e)) = Inr r"
  shows "fetch_entry P \<lparr>sc_api = serving_api, sc_user_id = u\<rparr> t e w = (Inr (Some d), w)"
  using assms
  by (simp add: fetch_entry_def team_call_def client_request_def serving_api_def http_send_def finish_def Let_def io_bind_apply
      io_map_err_apply team_classify_def classify_def parse_document_def team_parse_def read_document_json)

lemma save_calm:
  assumes "json_total P" "\<And>n. kv_fault w n = None"
  shows "\<exists>w'. pins_save P u T w = (Inr (), w') \<and> kv_fault w' = kv_fault w \<and> net w' = net w"
proof -
  obtain v where "json_text P (stored_record_json (stored_of_trust T)) = Inr v"
    using assms(1) by (auto simp: json_total_def)
  then show ?thesis
    by (simp add: pins_save_def trust_to_json_def io_bind_apply io_map_err_apply kv_write_def advance_def assms(2))
qed

lemma pull_served:
  assumes "json_read P (net (tm_world M)) = Inr (document_json d)" "from_blob P (vd_blob d) = Inr env"
    and "team_slot (resource_team_entry t (entry_hex e)) = Inr r"
    and "team_keys (tm_session M) = Some (t, kr)" "keyring_get kr (vd_key_version d) = Some k"
    and "tv_trust (tm_session M) = Some (u, T)"
    and "open_entry P k t e (vd_key_version d) (trust_seen_seq T t (entry_hex e)) env = Inr opened"
    and "json_total P" "\<And>n. kv_fault (tm_world M) n = None"
  shows "\<exists>M'. team_pull P serving_account e M =
      (Inr \<lparr>pu_payload = oe_payload opened, pu_revision = vd_revision d\<rparr>, M') \<and>
    tm_session M' = (tm_session M)\<lparr>tv_trust := Some (u, snd (trust_record_seq t (entry_hex e) (oe_seq opened) T))\<rparr> \<and>
    kv_fault (tm_world M') = kv_fault (tm_world M)"
proof -
  let ?T = "snd (trust_record_seq t (entry_hex e) (oe_seq opened) T)"
  obtain w' where w': "pins_save P u ?T (tm_world M) = (Inr (), w')" "kv_fault w' = kv_fault (tm_world M)"
    using save_calm [OF assms(8), of "tm_world M" u ?T] assms(9) by auto
  have "fetch_entry P \<lparr>sc_api = serving_api, sc_user_id = ''u1''\<rparr> t e (tm_world M) = (Inr (Some d), tm_world M)"
    by (rule fetch_served [OF assms(1,3)])
  then show ?thesis
    using assms(2,4-7) w'
    by (simp add: team_pull_def of_session_def absorbed_def team_context_def in_world_def serving_account_def open_document_def
        team_seen_seq_def trust_snapshot_def team_record_seq_def trust_mut_def persist_trust_def on_session_def io_bind_apply)
qed

section \<open>Over any run of a session\<close>

text \<open>Where operations run one after the other, the current key a session holds is the version its record
  has as that team's floor, and the status says what is held. An operation of the program can be
  overtaken while it waits for the service, and then this may fail for a time: a refresh that read
  the keys before a rotation ended still counts as the latest when it lands, and puts the older keys
  back under the newer floor. A write under them is refused all the same.\<close>

lemma team_keys_on_record:
  assumes "(team_step P (\<lambda>_. True))\<^sup>*\<^sup>* \<lparr>tm_session = team_session_new, tm_world = w\<rparr> M"
  shows "keys_on_record (tm_session M)"
proof -
  have "keys_on_record team_session_new" by (simp add: keys_on_record_def team_session_new_def)
  with recorded_keys.kept_steps [OF assms] show ?thesis by simp
qed

lemma late_load_below_record:
  assumes "tv_generation S = generation" "tv_trust S = Some (u, T)"
    and "keyring_current (at_keyring team) = Some (v, k)" "v < key_version_floor T (at_team_id team)"
  shows "tv_team (land_load generation (Inr team) S) = Some team" "\<not> keys_on_record (land_load generation (Inr team) S)"
  using assms by (auto simp: land_load_def apply_load_def keys_on_record_def team_set_status_def)

text \<open>C13. The record never goes back. Through any run of a session for one user, whatever the service
  answers and whatever becomes of the disk, the key version on record for a team and the sequence
  number seen of an entry never decrease, and no member's pin is dropped.\<close>

theorem team_record_never_goes_back:
  assumes "(team_step P (account_of u))\<^sup>*\<^sup>* M M'" "tv_trust (tm_session M) = Some (u, T)"
  shows "\<exists>T'. tv_trust (tm_session M') = Some (u, T') \<and>
    (\<forall>t. key_version_floor T t \<le> key_version_floor T' t) \<and>
    (\<forall>t e s. trust_seen_seq T t e = Some s \<longrightarrow> (\<exists>s'. trust_seen_seq T' t e = Some s' \<and> s \<le> s')) \<and>
    (\<forall>t m. pinned T t m \<noteq> None \<longrightarrow> pinned T' t m \<noteq> None)"
  using growing.kept_steps [OF assms(1), where Told = T] assms(2) by (auto simp: grown_def record_le_def)

text \<open>C12. Pulls never go back. If a session pulls an entry, and later, after any run for the same user,
  pulls it again from the same team, then each pull hands out exactly what the service served to it,
  and the sequence number sealed in what it served the second time is at least that of the first: the
  service cannot make the session hand out an older version than one it has already handed out.\<close>

theorem team_pulls_never_go_back:
  assumes "team_pull P acc e M = (Inr p, M1)" "team_keys (tm_session M) = Some (t, kr)"
    and "tv_trust (tm_session M) = Some (u, T)" "(team_step P (account_of u))\<^sup>*\<^sup>* M1 M2"
    and "team_pull P acc' e M2 = (Inr q, M3)" "team_keys (tm_session M2) = Some (t, kr2)"
  shows "\<exists>s1 s2. served_entry P acc e M = Some (s1, p) \<and> served_entry P acc' e M2 = Some (s2, q) \<and> s1 \<le> s2"
proof -
  from pull_run [OF assms(1,2)] assms(3) obtain T1 s1 where one: "tv_trust (tm_session M1) = Some (u, T1)"
    "served_entry P acc e M = Some (s1, p)" "trust_seen_seq T1 t (entry_hex e) = Some s1" by (metis Pair_inject option.inject)
  then have "grown u T1 (tm_session M1)" by (simp add: grown_def)
  then obtain T2 where "tv_trust (tm_session M2) = Some (u, T2)" "record_le T1 T2"
    using growing.kept_steps [OF assms(4)] by (auto simp: grown_def)
  with one(3) obtain s' where s': "tv_trust (tm_session M2) = Some (u, T2)" "trust_seen_seq T2 t (entry_hex e) = Some s'" "s1 \<le> s'"
    unfolding record_le_def by blast
  from pull_run [OF assms(5,6)] s' obtain s2 where "served_entry P acc' e M2 = Some (s2, q)" "s' \<le> s2"
    by (metis Pair_inject option.inject)
  with one(2) s'(3) show ?thesis by (meson order_trans)
qed

definition sharing_team :: active_team where
  "sharing_team =
     \<lparr>at_team_id = ''t1'', at_name = ''T'', at_role = Member, at_me = \<lparr>dk_private = replicate 32 1, dk_public = replicate 32 2\<rparr>,
      at_keyring = [(2, \<lparr>tk_bytes = replicate 32 9\<rparr>)], at_members = [], at_rotation_recommended = False,
      at_listing = [], at_manifest = [], at_unverified_sealer = None\<rparr>"

definition sharing_machine :: "'w \<Rightarrow> team_trust \<Rightarrow> 'w team_machine" where
  "sharing_machine n T =
     \<lparr>tm_session = team_session_new\<lparr>tv_status := TeamReady, tv_team := Some sharing_team, tv_trust := Some (''u1'', T)\<rparr>,
      tm_world = quiet_world n\<rparr>"

lemma sharing_machine_simps [simp]:
  "tv_team (tm_session (sharing_machine n T)) = Some sharing_team"
  "tv_trust (tm_session (sharing_machine n T)) = Some (''u1'', T)"
  "net (tm_world (sharing_machine n T)) = n" "kv_fault (tm_world (sharing_machine n T)) = (\<lambda>_. None)"
  by (simp_all add: sharing_machine_def quiet_world_def)

lemma sharing_keys:
  "tv_team S = Some sharing_team \<Longrightarrow> team_keys S = Some (''t1'', [(2, \<lparr>tk_bytes = replicate 32 9\<rparr>)])"
  by (simp add: team_keys_def sharing_team_def)

lemma served_document:
  assumes "length payload \<le> MAX_ENTRY_BYTES"
  shows "\<exists>body d env. json_read total_prims body = Inr (document_json d) \<and> from_blob total_prims (vd_blob d) = Inr env \<and>
    vd_key_version d = 2 \<and> (\<forall>seen. (\<forall>s. seen = Some s \<longrightarrow> s \<le> seq) \<longrightarrow>
      open_entry total_prims \<lparr>tk_bytes = replicate 32 9\<rparr> ''t1'' example_vault_entry 2 seen env =
        Inr \<lparr>oe_seq = seq, oe_key_version = 2, oe_payload = payload\<rparr>)"
proof -
  let ?k = "\<lparr>tk_bytes = replicate 32 9\<rparr>"
  have k: "team_key_ok ?k" by (simp add: team_key_ok_def TEAM_KEY_LEN_def DEK_LEN_def)
  have v: "validated_segment ''t1'' = Inr ''t1''" "entry_ok example_vault_entry"
    by (simp_all add: validated_segment_def segment_char_def Let_def example_vault_entry_def entry_ok_def ID_BYTES_def)
  obtain env where sealed: "seal_entry total_prims ?k ''t1'' example_vault_entry 2 seq payload (quiet_world ()) =
      (Inr env, advance (quiet_world ()))"
    using seal_entry_total [OF calm_quiet [of "()"] total_gcm_total k v assms, of 2 seq] by (elim exE)
  obtain json where "json_text total_prims (envelope_json env) = Inr json"
    using total_json_total unfolding json_total_def by blast
  then obtain blob where "to_blob total_prims env = Inr blob" by (simp add: to_blob_def)
  then have blob: "from_blob total_prims blob = Inr env" by (intro blob_roundtrip) simp_all
  let ?d = "\<lparr>vd_blob = blob, vd_revision = ''r1'', vd_key_version = 2\<rparr>"
  obtain body where "json_read total_prims body = Inr (document_json ?d)"
    using total_json_total total_json_ok by (metis json_total_def json_ok_def)
  moreover have "open_entry total_prims ?k ''t1'' example_vault_entry 2 seen env =
      Inr \<lparr>oe_seq = seq, oe_key_version = 2, oe_payload = payload\<rparr>" if "\<forall>s. seen = Some s \<longrightarrow> s \<le> seq" for seen
    unfolding open_seal_entry [OF sealed total_gcm_ok total_sha256_ok total_base64_ok k] using that
    by (auto split: option.splits simp: not_less)
  ultimately show ?thesis using blob by (intro exI [of _ body] exI [of _ ?d] exI [of _ env]) simp
qed


text \<open>An answer from which a pull takes \<open>payload\<close> at sequence number \<open>seq\<close>.\<close>

definition pull_gives :: "string \<Rightarrow> u64 \<Rightarrow> bytes \<Rightarrow> bool" where
  "pull_gives body seq payload \<longleftrightarrow>
     (\<forall>M T. net (tm_world M) = body \<longrightarrow> kv_fault (tm_world M) = (\<lambda>_. None) \<longrightarrow>
       tv_team (tm_session M) = Some sharing_team \<longrightarrow> tv_trust (tm_session M) = Some (''u1'', T) \<longrightarrow>
       (\<forall>s. trust_seen_seq T ''t1'' (entry_hex example_vault_entry) = Some s \<longrightarrow> s \<le> seq) \<longrightarrow>
       (\<exists>rev M'. team_pull total_prims serving_account example_vault_entry M = (Inr \<lparr>pu_payload = payload, pu_revision = rev\<rparr>, M') \<and>
         tm_session M' = (tm_session M)\<lparr>tv_trust := Some (''u1'', snd (trust_record_seq ''t1'' (entry_hex example_vault_entry) seq T))\<rparr>))"

lemma pull_gives_total:
  assumes "length payload \<le> MAX_ENTRY_BYTES"
  shows "\<exists>body. pull_gives body seq payload"
proof -
  from served_document [OF assms, of seq] obtain body d env where x: "json_read total_prims body = Inr (document_json d)"
    "from_blob total_prims (vd_blob d) = Inr env" "vd_key_version d = 2"
    "\<And>seen. (\<forall>s. seen = Some s \<longrightarrow> s \<le> seq) \<Longrightarrow>
      open_entry total_prims \<lparr>tk_bytes = replicate 32 9\<rparr> ''t1'' example_vault_entry 2 seen env =
        Inr \<lparr>oe_seq = seq, oe_key_version = 2, oe_payload = payload\<rparr>" by blast
  obtain r where r: "team_slot (resource_team_entry ''t1'' (entry_hex example_vault_entry)) = Inr r"
    using team_entry_resource_total [of "''t1''" example_vault_entry]
    by (auto simp: validated_segment_def segment_char_def Let_def example_vault_entry_def entry_ok_def ID_BYTES_def
        team_entry_resource_def team_slot_def)
  have get: "keyring_get [(2, \<lparr>tk_bytes = replicate 32 9\<rparr>)] (vd_key_version d) = Some \<lparr>tk_bytes = replicate 32 9\<rparr>"
    by (simp add: x(3) keyring_get_def bt_get_def)
  have "\<exists>rev M'. team_pull total_prims serving_account example_vault_entry M = (Inr \<lparr>pu_payload = payload, pu_revision = rev\<rparr>, M') \<and>
      tm_session M' = (tm_session M)\<lparr>tv_trust := Some (''u1'', snd (trust_record_seq ''t1'' (entry_hex example_vault_entry) seq T))\<rparr>"
    if M: "net (tm_world M) = body" "kv_fault (tm_world M) = (\<lambda>_. None)" "tv_team (tm_session M) = Some sharing_team"
      "tv_trust (tm_session M) = Some (''u1'', T)"
      "\<forall>s. trust_seen_seq T ''t1'' (entry_hex example_vault_entry) = Some s \<longrightarrow> s \<le> seq" for M T
    using pull_served [of total_prims M d env, OF _ x(2) r sharing_keys [OF M(3)] get M(4) x(4) [OF M(5), folded x(3)] total_json_total]
      x(1) M(1,2) by auto
  then show ?thesis unfolding pull_gives_def by blast
qed

lemma serving_account_of: "account_of ''u1'' serving_account"
  by (simp add: account_of_def serving_account_def)

theorem team_record_never_goes_back_witness:
  "\<exists>T' s'. tv_trust (tm_session (snd (team_pull total_prims serving_account example_vault_entry
      (sharing_machine [] (snd (trust_record_seq ''t1'' ''e'' 7 team_trust_default)))))) = Some (''u1'', T') \<and>
    trust_seen_seq T' ''t1'' ''e'' = Some s' \<and> 7 \<le> s'"
proof -
  let ?T = "snd (trust_record_seq ''t1'' ''e'' 7 team_trust_default)"
  have "(team_step total_prims (account_of ''u1''))\<^sup>*\<^sup>* (sharing_machine [] ?T)
      (snd (team_pull total_prims serving_account example_vault_entry (sharing_machine [] ?T)))"
    by (intro r_into_rtranclp team_step.intros(3) serving_account_of)
  moreover have "trust_seen_seq ?T ''t1'' ''e'' = Some 7"
    by (simp add: record_seq_seen) (simp add: trust_seen_seq_def team_trust_default_def bt_get_def)
  ultimately show ?thesis using team_record_never_goes_back [where T = ?T] by fastforce
qed

theorem team_pulls_never_go_back_witness:
  "\<exists>M p M1 w q M3. team_pull total_prims serving_account example_vault_entry M = (Inr p, M1) \<and>
     team_pull total_prims serving_account example_vault_entry (M1\<lparr>tm_world := w\<rparr>) = (Inr q, M3) \<and>
     pu_payload p = [65] \<and> pu_payload q = [66] \<and>
     (\<exists>s1 s2. served_entry total_prims serving_account example_vault_entry M = Some (s1, p) \<and>
        served_entry total_prims serving_account example_vault_entry (M1\<lparr>tm_world := w\<rparr>) = Some (s2, q) \<and> s1 \<le> s2)"
proof -
  have len: "length [x :: u8] \<le> MAX_ENTRY_BYTES" for x
    by (simp add: MAX_ENTRY_BYTES_def MAX_PAYLOAD_BYTES_def KEY_VERSION_BYTES_def)
  let ?e = "entry_hex example_vault_entry" and ?T = team_trust_default
  obtain b1 b2 where b: "pull_gives b1 3 [65]" "pull_gives b2 4 [66]" using pull_gives_total [OF len] by blast
  have unseen: "trust_seen_seq ?T ''t1'' ?e = None" by (simp add: trust_seen_seq_def team_trust_default_def bt_get_def)
  let ?M = "sharing_machine b1 ?T"
  obtain rev M1 where M1: "team_pull total_prims serving_account example_vault_entry ?M = (Inr \<lparr>pu_payload = [65], pu_revision = rev\<rparr>, M1)"
    "tm_session M1 = (tm_session ?M)\<lparr>tv_trust := Some (''u1'', snd (trust_record_seq ''t1'' ?e 3 ?T))\<rparr>"
    using b(1) [unfolded pull_gives_def, rule_format, of ?M ?T] unseen by auto
  let ?M2 = "M1\<lparr>tm_world := quiet_world b2\<rparr>"
  have seen: "trust_seen_seq (snd (trust_record_seq ''t1'' ?e 3 ?T)) ''t1'' ?e = Some 3" by (simp add: record_seq_seen unseen)
  obtain rev' M3 where M3: "team_pull total_prims serving_account example_vault_entry ?M2 = (Inr \<lparr>pu_payload = [66], pu_revision = rev'\<rparr>, M3)"
    using b(2) [unfolded pull_gives_def, rule_format, of ?M2 "snd (trust_record_seq ''t1'' ?e 3 ?T)"] seen M1(2)
    by (auto simp: quiet_world_def)
  have "(team_step total_prims (account_of ''u1''))\<^sup>*\<^sup>* M1 ?M2"
    by (intro r_into_rtranclp team_step.intros(14))
  from team_pulls_never_go_back [OF M1(1) sharing_keys sharing_machine_simps(2) this M3 sharing_keys]
  have "\<exists>s1 s2. served_entry total_prims serving_account example_vault_entry ?M = Some (s1, \<lparr>pu_payload = [65], pu_revision = rev\<rparr>) \<and>
      served_entry total_prims serving_account example_vault_entry ?M2 = Some (s2, \<lparr>pu_payload = [66], pu_revision = rev'\<rparr>) \<and> s1 \<le> s2"
    by (simp add: M1(2))
  then show ?thesis
    by (intro exI [of _ ?M] exI [of _ "\<lparr>pu_payload = [65], pu_revision = rev\<rparr>"] exI [of _ M1] exI [of _ "quiet_world b2"]
        exI [of _ "\<lparr>pu_payload = [66], pu_revision = rev'\<rparr>"] exI [of _ M3]) (simp add: M1(1) M3)
qed


text \<open>C14. Sharing never writes blindly or backwards. Any invariant of the network that survives reads,
  removals, and writes that carry \<open>If-Match\<close> or \<open>If-None-Match\<close> and a key version no older than the one
  this machine has on record for the team survives a push and an edit of the catalogue, whatever the
  service answers: so neither ever sends another kind of write, and nothing is sealed under a key
  the team has moved on from.\<close>

theorem team_writes_guarded:
  fixes acc :: "'w team_account"
  assumes "\<And>w C w'. ta_context acc w = (Some C, w') \<Longrightarrow> kept_by (vault_request P (key_version_floor T t)) I (sc_api C)"
    and "\<And>w. I (net w) \<Longrightarrow> I (net (snd (ta_context acc w)))"
    and "team_keys (tm_session M) = Some (t, kr)" "tv_trust (tm_session M) = Some (u, T)" "I (net (tm_world M))"
  shows "I (net (tm_world (snd (team_push P acc e p base M)))) \<and>
    I (net (tm_world (snd (team_edit_manifest P acc change M))))"
proof -
  let ?K = "sharing_state I t (key_version_floor T t)"
  have K: "?K M" using assms(4,5) by (auto simp: sharing_state_def)
  have ops: "keeps ?K (absorbed (io_bind (team_context acc) (\<lambda>C. push_entry P C t kr e p base)))"
    "keeps ?K (absorbed (io_bind (team_context acc) (\<lambda>C. io_bind (edit_manifest_entry P C t kr change) (\<lambda>manifest.
       do_session (in_team (\<lambda>team. team\<lparr>at_manifest := manifest\<rparr>))))))"
    unfolding push_entry_def edit_manifest_entry_def
    by (intro sharing_absorbed sharing_context_bind assms(2) frame_intros sharing_session sharing_read sharing_write sharing_edit
        assms(1); (assumption | simp add: in_team_def)?)+
  show ?thesis
    using keepsD [OF ops(1) K] keepsD [OF ops(2) K] assms(3)
    by (auto simp: team_push_def team_edit_manifest_def of_session_def io_bind_apply sharing_state_def)
      (metis prod.collapse)+
qed


definition watching_api :: "request list api" where
  "watching_api =
     \<lparr>builds = (\<lambda>_. True), exchange = (\<lambda>r log. (Some (404, Some []), log @ [r])), api_url = ''http://h'',
      access_token = ''t'', web_origin = ''http://w''\<rparr>"

definition watching_account :: "request list team_account" where
  "watching_account =
     \<lparr>ta_user = Some ''u1'', ta_plan_team = None, ta_reading_plan = False, ta_read_starts = False,
      ta_context = (\<lambda>w. (Some \<lparr>sc_api = watching_api, sc_user_id = ''u1''\<rparr>, w))\<rparr>"

theorem team_writes_guarded_witness:
  "list_all (vault_request total_prims 0)
     (net (tm_world (snd (team_push total_prims watching_account example_vault_entry [65] BaseCreate
        (sharing_machine [] team_trust_default)))))"
proof -
  have floor: "key_version_floor team_trust_default ''t1'' = 0"
    by (simp add: key_version_floor_def team_trust_default_def bt_get_def)
  have "kept_by (vault_request total_prims (key_version_floor team_trust_default ''t1''))
      (list_all (vault_request total_prims 0)) watching_api"
    by (simp add: kept_by_def watching_api_def floor)
  from team_writes_guarded [of watching_account total_prims team_trust_default "''t1''" "list_all (vault_request total_prims 0)"
      "sharing_machine [] team_trust_default" _ "''u1''", OF _ _ sharing_keys] this
  show ?thesis by (simp add: watching_account_def)
qed

end
