(* ===== verification/Relay_Messages.thy ===== *)
theory Relay_Messages
  imports Relay_Keys
begin

text \<open>
  The messages of remote control: the control messages inside the encrypted channel and the pairing
  messages before it (\<^verbatim>\<open>remote_relay_protocol\<close>'s \<^verbatim>\<open>messages.rs\<close>), and the relay's own text frames
  (\<^verbatim>\<open>remote_relay_client\<close>'s \<^verbatim>\<open>relay_wire.rs\<close>). What \<^verbatim>\<open>serde\<close> derives is written out, a reader a variant:
  which fields are required, which are optional or have a default, and what a tag nobody knows does.
\<close>

section \<open>Numbers\<close>

type_synonym u16 = "16 word"
type_synonym i32 = "32 word"

definition as_u16 :: "json \<Rightarrow> u16 option" where
  "as_u16 j = map_option word_of_nat (as_uint 16 j)"

text \<open>An \<^verbatim>\<open>i32\<close> is a word read as signed.\<close>

definition as_i32 :: "json \<Rightarrow> i32 option" where
  "as_i32 j = (case j of JNum i \<Rightarrow> if - (2 ^ 31) \<le> i \<and> i < 2 ^ 31 then Some (word_of_int i) else None | _ \<Rightarrow> None)"

section \<open>Errors and their codes\<close>

definition ERROR_VERSION :: string where "ERROR_VERSION = ''version''"

definition RELAY_PROTOCOL_VERSION :: u32 where "RELAY_PROTOCOL_VERSION = 1"

definition RPC_PROTOCOL_VERSION :: u32 where "RPC_PROTOCOL_VERSION = 1"

datatype message_error = MessageInvalid string | MessageFrame frame_error

fun message_display :: "message_error \<Rightarrow> string" where
  "message_display (MessageInvalid e) = ''message is not a valid control message: '' @ e"
| "message_display (MessageFrame e) = frame_display e"

section \<open>Summaries\<close>

datatype agent_status = StatusWorking | StatusWaitingForInput | StatusIdle | StatusFinished | StatusFailed | StatusUnknown

fun status_name :: "agent_status \<Rightarrow> string" where
  "status_name StatusWorking = ''working''"
| "status_name StatusWaitingForInput = ''waiting_for_input''"
| "status_name StatusIdle = ''idle''"
| "status_name StatusFinished = ''finished''"
| "status_name StatusFailed = ''failed''"
| "status_name StatusUnknown = ''unknown''"

text \<open>\<^verbatim>\<open>#[serde(other)]\<close>: a status a newer peer introduced is \<open>StatusUnknown\<close>.\<close>

definition status_of_name :: "string \<Rightarrow> agent_status" where
  "status_of_name s =
     (if s = ''working'' then StatusWorking
      else if s = ''waiting_for_input'' then StatusWaitingForInput
      else if s = ''idle'' then StatusIdle
      else if s = ''finished'' then StatusFinished
      else if s = ''failed'' then StatusFailed
      else StatusUnknown)"

datatype file_kind = KindFile | KindDirectory | KindSymlink | KindOther

fun file_kind_name :: "file_kind \<Rightarrow> string" where
  "file_kind_name KindFile = ''file''"
| "file_kind_name KindDirectory = ''directory''"
| "file_kind_name KindSymlink = ''symlink''"
| "file_kind_name KindOther = ''other''"

definition file_kind_of_name :: "string \<Rightarrow> file_kind" where
  "file_kind_of_name s =
     (if s = ''file'' then KindFile
      else if s = ''directory'' then KindDirectory
      else if s = ''symlink'' then KindSymlink
      else KindOther)"

record agent_summary =
  ag_id :: string
  ag_name :: string
  ag_status :: agent_status
  ag_title :: "string option"
  ag_session_id :: "string option"
  ag_agent :: "string option"

definition agent_summary_json :: "agent_summary \<Rightarrow> json" where
  "agent_summary_json x =
     JObj (present_fields
       [''id'', ''name'', ''status'', ''title'', ''session_id'', ''agent'']
       [Some (JStr (ag_id x)), Some (JStr (ag_name x)), Some (JStr (status_name (ag_status x))),
        map_option JStr (ag_title x), map_option JStr (ag_session_id x),
        map_option JStr (ag_agent x)])"

definition agent_summary_of_json :: "json \<Rightarrow> agent_summary option" where
  "agent_summary_of_json j =
     (case struct_fields_default
           [''id'', ''name'', ''status'', ''title'', ''session_id'', ''agent'']
           [''title'', ''session_id'', ''agent''] j of
        Some [a, b, c, d, e, f] \<Rightarrow>
          apply_field (apply_field (apply_field (apply_field (apply_field (apply_field (Some agent_summary.make)
            (as_req as_str a))
            (as_req as_str b))
            (as_req (as_buffered_variant (\<lambda>s. Some (status_of_name s))) c))
            (as_opt as_str d))
            (as_opt as_str e))
            (as_opt as_str f)
      | _ \<Rightarrow> None)"

record terminal_summary =
  ts_id :: string
  ts_title :: string
  ts_columns :: u16
  ts_rows :: u16

definition terminal_summary_json :: "terminal_summary \<Rightarrow> json" where
  "terminal_summary_json x =
     JObj (present_fields
       [''id'', ''title'', ''columns'', ''rows'']
       [Some (JStr (ts_id x)), Some (JStr (ts_title x)), Some (JNum (uint (ts_columns x))),
        Some (JNum (uint (ts_rows x)))])"

definition terminal_summary_of_json :: "json \<Rightarrow> terminal_summary option" where
  "terminal_summary_of_json j =
     (case struct_fields_default
           [''id'', ''title'', ''columns'', ''rows'']
           [] j of
        Some [a, b, c, d] \<Rightarrow>
          apply_field (apply_field (apply_field (apply_field (Some terminal_summary.make)
            (as_req as_str a))
            (as_req as_str b))
            (as_req as_u16 c))
            (as_req as_u16 d)
      | _ \<Rightarrow> None)"

record file_entry =
  fe_name :: string
  fe_kind :: file_kind
  fe_size :: "u64 option"
  fe_worktree_id :: "string option"

definition file_entry_json :: "file_entry \<Rightarrow> json" where
  "file_entry_json x =
     JObj (present_fields
       [''name'', ''kind'', ''size'', ''worktree_id'']
       [Some (JStr (fe_name x)), Some (JStr (file_kind_name (fe_kind x))),
        map_option (\<lambda>x. JNum (uint x)) (fe_size x), map_option JStr (fe_worktree_id x)])"

definition file_entry_of_json :: "json \<Rightarrow> file_entry option" where
  "file_entry_of_json j =
     (case struct_fields_default
           [''name'', ''kind'', ''size'', ''worktree_id'']
           [''size'', ''worktree_id''] j of
        Some [a, b, c, d] \<Rightarrow>
          apply_field (apply_field (apply_field (apply_field (Some file_entry.make)
            (as_req as_str a))
            (as_req (as_buffered_variant (\<lambda>s. Some (file_kind_of_name s))) b))
            (as_opt as_u64 c))
            (as_opt as_str d)
      | _ \<Rightarrow> None)"

record session_cursor =
  sc_updated_at :: u64
  sc_id :: string

definition session_cursor_json :: "session_cursor \<Rightarrow> json" where
  "session_cursor_json x =
     JObj (present_fields
       [''updated_at'', ''id'']
       [Some (JNum (uint (sc_updated_at x))), Some (JStr (sc_id x))])"

definition session_cursor_of_json :: "json \<Rightarrow> session_cursor option" where
  "session_cursor_of_json j =
     (case struct_fields_default
           [''updated_at'', ''id'']
           [] j of
        Some [a, b] \<Rightarrow>
          apply_field (apply_field (Some session_cursor.make)
            (as_req as_u64 a))
            (as_req as_str b)
      | _ \<Rightarrow> None)"

record session_entry =
  se_id :: string
  se_agent :: string
  se_title :: string
  se_preview :: "string option"
  se_worktree_id :: string
  se_folder :: string
  se_branch :: "string option"
  se_updated_at :: u64
  se_can_fork :: bool
  se_open_agent_id :: "string option"
  se_host :: "string option"

definition session_entry_json :: "session_entry \<Rightarrow> json" where
  "session_entry_json x =
     JObj (present_fields
       [''id'', ''agent'', ''title'', ''preview'', ''worktree_id'', ''folder'', ''branch'',
        ''updated_at'', ''can_fork'', ''open_agent_id'', ''host'']
       [Some (JStr (se_id x)), Some (JStr (se_agent x)), Some (JStr (se_title x)),
        map_option JStr (se_preview x), Some (JStr (se_worktree_id x)), Some (JStr (se_folder x)),
        map_option JStr (se_branch x), Some (JNum (uint (se_updated_at x))),
        Some (JBool (se_can_fork x)), map_option JStr (se_open_agent_id x),
        map_option JStr (se_host x)])"

definition session_entry_of_json :: "json \<Rightarrow> session_entry option" where
  "session_entry_of_json j =
     (case struct_fields_default
           [''id'', ''agent'', ''title'', ''preview'', ''worktree_id'', ''folder'', ''branch'',
            ''updated_at'', ''can_fork'', ''open_agent_id'', ''host'']
           [''preview'', ''branch'', ''can_fork'', ''open_agent_id'', ''host''] j of
        Some [a, b, c, d, e, f, g, h, i, j, k] \<Rightarrow>
          apply_field (apply_field (apply_field (apply_field (apply_field (apply_field (apply_field (apply_field (apply_field (apply_field (apply_field (Some session_entry.make)
            (as_req as_str a))
            (as_req as_str b))
            (as_req as_str c))
            (as_opt as_str d))
            (as_req as_str e))
            (as_req as_str f))
            (as_opt as_str g))
            (as_req as_u64 h))
            (as_default False as_bool i))
            (as_opt as_str j))
            (as_opt as_str k)
      | _ \<Rightarrow> None)"

record unavailable_host =
  uh_host :: string
  uh_reason :: string

definition unavailable_host_json :: "unavailable_host \<Rightarrow> json" where
  "unavailable_host_json x =
     JObj (present_fields
       [''host'', ''reason'']
       [Some (JStr (uh_host x)), Some (JStr (uh_reason x))])"

definition unavailable_host_of_json :: "json \<Rightarrow> unavailable_host option" where
  "unavailable_host_of_json j =
     (case struct_fields_default
           [''host'', ''reason'']
           [] j of
        Some [a, b] \<Rightarrow>
          apply_field (apply_field (Some unavailable_host.make)
            (as_req as_str a))
            (as_req as_str b)
      | _ \<Rightarrow> None)"

section \<open>Control messages\<close>

definition tagged_json :: "string \<Rightarrow> string list \<Rightarrow> json option list \<Rightarrow> json" where
  "tagged_json variant names values = JObj ((''t'', JStr variant) # present_fields names values)"

datatype control =
    Hello u32 string u32 "string list"
  | HelloAck u32 string u32 "string list"
  | ControlError string string "u32 option"
  | Ping
  | Pong
  | AgentList "agent_summary list"
  | AgentUpdate agent_summary
  | TerminalList "terminal_summary list"
  | TerminalAttach string u32
  | TerminalAttached string u32 u16 u16
  | TerminalDetach string
  | TerminalResized string u16 u16
  | TerminalClosed string "i32 option"
  | IdeOpen u32 string "u32 option" "u32 option" "string option" "u32 option"
  | IdeOpened u32 "u32 option" "string option" "string option" "string option"
  | FilesList u32 "string option" string
  | FilesListReply u32 "file_entry list" bool bool
  | FileRead u32 "string option" string
  | FileReadReply u32 u64 u32
  | DiffRequest u32 "string option"
  | DiffReply u32 u32 bool
  | SessionsList u32 "session_cursor option" "u32 option"
  | SessionsListReply u32 "session_entry list" bool "session_cursor option" "unavailable_host list"
  | SessionResume u32 string bool
  | SessionResumed u32 "string option"

fun control_json :: "control \<Rightarrow> json" where
  "control_json (Hello a b c d) =
     tagged_json ''hello''
       [''relay_protocol'', ''app_version'', ''rpc_protocol'', ''capabilities'']
       [Some (JNum (uint a)), Some (JStr b), Some (JNum (uint c)), Some (JArr (map JStr d))]"
| "control_json (HelloAck a b c d) =
     tagged_json ''hello_ack''
       [''relay_protocol'', ''app_version'', ''rpc_protocol'', ''capabilities'']
       [Some (JNum (uint a)), Some (JStr b), Some (JNum (uint c)), Some (JArr (map JStr d))]"
| "control_json (ControlError a b c) =
     tagged_json ''error''
       [''code'', ''message'', ''request_id'']
       [Some (JStr a), Some (JStr b), map_option (\<lambda>x. JNum (uint x)) c]"
| "control_json Ping =
     tagged_json ''ping''
       []
       []"
| "control_json Pong =
     tagged_json ''pong''
       []
       []"
| "control_json (AgentList a) =
     tagged_json ''agent_list''
       [''agents'']
       [Some (JArr (map agent_summary_json a))]"
| "control_json (AgentUpdate a) =
     tagged_json ''agent_update''
       [''agent'']
       [Some (agent_summary_json a)]"
| "control_json (TerminalList a) =
     tagged_json ''terminal_list''
       [''terminals'']
       [Some (JArr (map terminal_summary_json a))]"
| "control_json (TerminalAttach a b) =
     tagged_json ''terminal_attach''
       [''terminal_id'', ''stream_id'']
       [Some (JStr a), Some (JNum (uint b))]"
| "control_json (TerminalAttached a b c d) =
     tagged_json ''terminal_attached''
       [''terminal_id'', ''stream_id'', ''columns'', ''rows'']
       [Some (JStr a), Some (JNum (uint b)), Some (JNum (uint c)), Some (JNum (uint d))]"
| "control_json (TerminalDetach a) =
     tagged_json ''terminal_detach''
       [''terminal_id'']
       [Some (JStr a)]"
| "control_json (TerminalResized a b c) =
     tagged_json ''terminal_resized''
       [''terminal_id'', ''columns'', ''rows'']
       [Some (JStr a), Some (JNum (uint b)), Some (JNum (uint c))]"
| "control_json (TerminalClosed a b) =
     tagged_json ''terminal_closed''
       [''terminal_id'', ''exit_code'']
       [Some (JStr a), map_option (\<lambda>x. JNum (sint x)) b]"
| "control_json (IdeOpen a b c d e f) =
     tagged_json ''ide_open''
       [''request_id'', ''path'', ''line'', ''stream_id'', ''app_version'', ''proto_version'']
       [Some (JNum (uint a)), Some (JStr b), map_option (\<lambda>x. JNum (uint x)) c,
        map_option (\<lambda>x. JNum (uint x)) d, map_option JStr e,
        map_option (\<lambda>x. JNum (uint x)) f]"
| "control_json (IdeOpened a b c d e) =
     tagged_json ''ide_opened''
       [''request_id'', ''stream_id'', ''path_style'', ''shell'', ''default_shell'']
       [Some (JNum (uint a)), map_option (\<lambda>x. JNum (uint x)) b, map_option JStr c,
        map_option JStr d, map_option JStr e]"
| "control_json (FilesList a b c) =
     tagged_json ''files_list''
       [''request_id'', ''worktree_id'', ''path'']
       [Some (JNum (uint a)), map_option JStr b, Some (JStr c)]"
| "control_json (FilesListReply a b c d) =
     tagged_json ''files_list_reply''
       [''request_id'', ''entries'', ''truncated'', ''more'']
       [Some (JNum (uint a)), Some (JArr (map file_entry_json b)), Some (JBool c), Some (JBool d)]"
| "control_json (FileRead a b c) =
     tagged_json ''file_read''
       [''request_id'', ''worktree_id'', ''path'']
       [Some (JNum (uint a)), map_option JStr b, Some (JStr c)]"
| "control_json (FileReadReply a b c) =
     tagged_json ''file_read_reply''
       [''request_id'', ''size'', ''stream_id'']
       [Some (JNum (uint a)), Some (JNum (uint b)), Some (JNum (uint c))]"
| "control_json (DiffRequest a b) =
     tagged_json ''diff_request''
       [''request_id'', ''worktree_id'']
       [Some (JNum (uint a)), map_option JStr b]"
| "control_json (DiffReply a b c) =
     tagged_json ''diff_reply''
       [''request_id'', ''stream_id'', ''truncated'']
       [Some (JNum (uint a)), Some (JNum (uint b)), Some (JBool c)]"
| "control_json (SessionsList a b c) =
     tagged_json ''sessions_list''
       [''request_id'', ''before'', ''limit'']
       [Some (JNum (uint a)), map_option session_cursor_json b,
        map_option (\<lambda>x. JNum (uint x)) c]"
| "control_json (SessionsListReply a b c d e) =
     tagged_json ''sessions_list_reply''
       [''request_id'', ''sessions'', ''more'', ''next'', ''unavailable_hosts'']
       [Some (JNum (uint a)), Some (JArr (map session_entry_json b)), Some (JBool c),
        map_option session_cursor_json d,
        (if e = [] then None else Some (JArr (map unavailable_host_json e)))]"
| "control_json (SessionResume a b c) =
     tagged_json ''session_resume''
       [''request_id'', ''session_id'', ''fork'']
       [Some (JNum (uint a)), Some (JStr b), Some (JBool c)]"
| "control_json (SessionResumed a b) =
     tagged_json ''session_resumed''
       [''request_id'', ''open_agent_id'']
       [Some (JNum (uint a)), map_option JStr b]"

definition read_hello :: "json \<Rightarrow> control option" where
  "read_hello j =
     (case struct_fields_default
           [''relay_protocol'', ''app_version'', ''rpc_protocol'', ''capabilities'']
           [] j of
        Some [a, b, c, d] \<Rightarrow>
          apply_field (apply_field (apply_field (apply_field (Some Hello)
            (as_req as_u32 a))
            (as_req as_str b))
            (as_req as_u32 c))
            (as_req (as_list as_str) d)
      | _ \<Rightarrow> None)"

definition read_hello_ack :: "json \<Rightarrow> control option" where
  "read_hello_ack j =
     (case struct_fields_default
           [''relay_protocol'', ''app_version'', ''rpc_protocol'', ''capabilities'']
           [] j of
        Some [a, b, c, d] \<Rightarrow>
          apply_field (apply_field (apply_field (apply_field (Some HelloAck)
            (as_req as_u32 a))
            (as_req as_str b))
            (as_req as_u32 c))
            (as_req (as_list as_str) d)
      | _ \<Rightarrow> None)"

definition read_error :: "json \<Rightarrow> control option" where
  "read_error j =
     (case struct_fields_default
           [''code'', ''message'', ''request_id'']
           [''request_id''] j of
        Some [a, b, c] \<Rightarrow>
          apply_field (apply_field (apply_field (Some ControlError)
            (as_req as_str a))
            (as_req as_str b))
            (as_opt as_u32 c)
      | _ \<Rightarrow> None)"

definition read_ping :: "json \<Rightarrow> control option" where
  "read_ping j = (if tagged_unit j then Some Ping else None)"

definition read_pong :: "json \<Rightarrow> control option" where
  "read_pong j = (if tagged_unit j then Some Pong else None)"

definition read_agent_list :: "json \<Rightarrow> control option" where
  "read_agent_list j =
     (case struct_fields_default
           [''agents'']
           [] j of
        Some [a] \<Rightarrow>
          apply_field (Some AgentList)
            (as_req (as_list agent_summary_of_json) a)
      | _ \<Rightarrow> None)"

definition read_agent_update :: "json \<Rightarrow> control option" where
  "read_agent_update j =
     (case struct_fields_default
           [''agent'']
           [] j of
        Some [a] \<Rightarrow>
          apply_field (Some AgentUpdate)
            (as_req agent_summary_of_json a)
      | _ \<Rightarrow> None)"

definition read_terminal_list :: "json \<Rightarrow> control option" where
  "read_terminal_list j =
     (case struct_fields_default
           [''terminals'']
           [] j of
        Some [a] \<Rightarrow>
          apply_field (Some TerminalList)
            (as_req (as_list terminal_summary_of_json) a)
      | _ \<Rightarrow> None)"

definition read_terminal_attach :: "json \<Rightarrow> control option" where
  "read_terminal_attach j =
     (case struct_fields_default
           [''terminal_id'', ''stream_id'']
           [] j of
        Some [a, b] \<Rightarrow>
          apply_field (apply_field (Some TerminalAttach)
            (as_req as_str a))
            (as_req as_u32 b)
      | _ \<Rightarrow> None)"

definition read_terminal_attached :: "json \<Rightarrow> control option" where
  "read_terminal_attached j =
     (case struct_fields_default
           [''terminal_id'', ''stream_id'', ''columns'', ''rows'']
           [] j of
        Some [a, b, c, d] \<Rightarrow>
          apply_field (apply_field (apply_field (apply_field (Some TerminalAttached)
            (as_req as_str a))
            (as_req as_u32 b))
            (as_req as_u16 c))
            (as_req as_u16 d)
      | _ \<Rightarrow> None)"

definition read_terminal_detach :: "json \<Rightarrow> control option" where
  "read_terminal_detach j =
     (case struct_fields_default
           [''terminal_id'']
           [] j of
        Some [a] \<Rightarrow>
          apply_field (Some TerminalDetach)
            (as_req as_str a)
      | _ \<Rightarrow> None)"

definition read_terminal_resized :: "json \<Rightarrow> control option" where
  "read_terminal_resized j =
     (case struct_fields_default
           [''terminal_id'', ''columns'', ''rows'']
           [] j of
        Some [a, b, c] \<Rightarrow>
          apply_field (apply_field (apply_field (Some TerminalResized)
            (as_req as_str a))
            (as_req as_u16 b))
            (as_req as_u16 c)
      | _ \<Rightarrow> None)"

definition read_terminal_closed :: "json \<Rightarrow> control option" where
  "read_terminal_closed j =
     (case struct_fields_default
           [''terminal_id'', ''exit_code'']
           [''exit_code''] j of
        Some [a, b] \<Rightarrow>
          apply_field (apply_field (Some TerminalClosed)
            (as_req as_str a))
            (as_opt as_i32 b)
      | _ \<Rightarrow> None)"

definition read_ide_open :: "json \<Rightarrow> control option" where
  "read_ide_open j =
     (case struct_fields_default
           [''request_id'', ''path'', ''line'', ''stream_id'', ''app_version'', ''proto_version'']
           [''line'', ''stream_id'', ''app_version'', ''proto_version''] j of
        Some [a, b, c, d, e, f] \<Rightarrow>
          apply_field (apply_field (apply_field (apply_field (apply_field (apply_field (Some IdeOpen)
            (as_req as_u32 a))
            (as_req as_str b))
            (as_opt as_u32 c))
            (as_opt as_u32 d))
            (as_opt as_str e))
            (as_opt as_u32 f)
      | _ \<Rightarrow> None)"

definition read_ide_opened :: "json \<Rightarrow> control option" where
  "read_ide_opened j =
     (case struct_fields_default
           [''request_id'', ''stream_id'', ''path_style'', ''shell'', ''default_shell'']
           [''stream_id'', ''path_style'', ''shell'', ''default_shell''] j of
        Some [a, b, c, d, e] \<Rightarrow>
          apply_field (apply_field (apply_field (apply_field (apply_field (Some IdeOpened)
            (as_req as_u32 a))
            (as_opt as_u32 b))
            (as_opt as_str c))
            (as_opt as_str d))
            (as_opt as_str e)
      | _ \<Rightarrow> None)"

definition read_files_list :: "json \<Rightarrow> control option" where
  "read_files_list j =
     (case struct_fields_default
           [''request_id'', ''worktree_id'', ''path'']
           [''worktree_id''] j of
        Some [a, b, c] \<Rightarrow>
          apply_field (apply_field (apply_field (Some FilesList)
            (as_req as_u32 a))
            (as_opt as_str b))
            (as_req as_str c)
      | _ \<Rightarrow> None)"

definition read_files_list_reply :: "json \<Rightarrow> control option" where
  "read_files_list_reply j =
     (case struct_fields_default
           [''request_id'', ''entries'', ''truncated'', ''more'']
           [''truncated'', ''more''] j of
        Some [a, b, c, d] \<Rightarrow>
          apply_field (apply_field (apply_field (apply_field (Some FilesListReply)
            (as_req as_u32 a))
            (as_req (as_list file_entry_of_json) b))
            (as_default False as_bool c))
            (as_default False as_bool d)
      | _ \<Rightarrow> None)"

definition read_file_read :: "json \<Rightarrow> control option" where
  "read_file_read j =
     (case struct_fields_default
           [''request_id'', ''worktree_id'', ''path'']
           [''worktree_id''] j of
        Some [a, b, c] \<Rightarrow>
          apply_field (apply_field (apply_field (Some FileRead)
            (as_req as_u32 a))
            (as_opt as_str b))
            (as_req as_str c)
      | _ \<Rightarrow> None)"

definition read_file_read_reply :: "json \<Rightarrow> control option" where
  "read_file_read_reply j =
     (case struct_fields_default
           [''request_id'', ''size'', ''stream_id'']
           [] j of
        Some [a, b, c] \<Rightarrow>
          apply_field (apply_field (apply_field (Some FileReadReply)
            (as_req as_u32 a))
            (as_req as_u64 b))
            (as_req as_u32 c)
      | _ \<Rightarrow> None)"

definition read_diff_request :: "json \<Rightarrow> control option" where
  "read_diff_request j =
     (case struct_fields_default
           [''request_id'', ''worktree_id'']
           [''worktree_id''] j of
        Some [a, b] \<Rightarrow>
          apply_field (apply_field (Some DiffRequest)
            (as_req as_u32 a))
            (as_opt as_str b)
      | _ \<Rightarrow> None)"

definition read_diff_reply :: "json \<Rightarrow> control option" where
  "read_diff_reply j =
     (case struct_fields_default
           [''request_id'', ''stream_id'', ''truncated'']
           [''truncated''] j of
        Some [a, b, c] \<Rightarrow>
          apply_field (apply_field (apply_field (Some DiffReply)
            (as_req as_u32 a))
            (as_req as_u32 b))
            (as_default False as_bool c)
      | _ \<Rightarrow> None)"

definition read_sessions_list :: "json \<Rightarrow> control option" where
  "read_sessions_list j =
     (case struct_fields_default
           [''request_id'', ''before'', ''limit'']
           [''before'', ''limit''] j of
        Some [a, b, c] \<Rightarrow>
          apply_field (apply_field (apply_field (Some SessionsList)
            (as_req as_u32 a))
            (as_opt session_cursor_of_json b))
            (as_opt as_u32 c)
      | _ \<Rightarrow> None)"

definition read_sessions_list_reply :: "json \<Rightarrow> control option" where
  "read_sessions_list_reply j =
     (case struct_fields_default
           [''request_id'', ''sessions'', ''more'', ''next'', ''unavailable_hosts'']
           [''more'', ''next'', ''unavailable_hosts''] j of
        Some [a, b, c, d, e] \<Rightarrow>
          apply_field (apply_field (apply_field (apply_field (apply_field (Some SessionsListReply)
            (as_req as_u32 a))
            (as_req (as_list session_entry_of_json) b))
            (as_default False as_bool c))
            (as_opt session_cursor_of_json d))
            (as_default [] (as_list unavailable_host_of_json) e)
      | _ \<Rightarrow> None)"

definition read_session_resume :: "json \<Rightarrow> control option" where
  "read_session_resume j =
     (case struct_fields_default
           [''request_id'', ''session_id'', ''fork'']
           [''fork''] j of
        Some [a, b, c] \<Rightarrow>
          apply_field (apply_field (apply_field (Some SessionResume)
            (as_req as_u32 a))
            (as_req as_str b))
            (as_default False as_bool c)
      | _ \<Rightarrow> None)"

definition read_session_resumed :: "json \<Rightarrow> control option" where
  "read_session_resumed j =
     (case struct_fields_default
           [''request_id'', ''open_agent_id'']
           [''open_agent_id''] j of
        Some [a, b] \<Rightarrow>
          apply_field (apply_field (Some SessionResumed)
            (as_req as_u32 a))
            (as_opt as_str b)
      | _ \<Rightarrow> None)"

definition control_variants :: "(string \<times> (json \<Rightarrow> control option)) list" where
  "control_variants =
     [(''hello'', read_hello), (''hello_ack'', read_hello_ack), (''error'', read_error),
      (''ping'', read_ping), (''pong'', read_pong), (''agent_list'', read_agent_list),
      (''agent_update'', read_agent_update), (''terminal_list'', read_terminal_list),
      (''terminal_attach'', read_terminal_attach), (''terminal_attached'', read_terminal_attached),
      (''terminal_detach'', read_terminal_detach), (''terminal_resized'', read_terminal_resized),
      (''terminal_closed'', read_terminal_closed), (''ide_open'', read_ide_open),
      (''ide_opened'', read_ide_opened), (''files_list'', read_files_list),
      (''files_list_reply'', read_files_list_reply), (''file_read'', read_file_read),
      (''file_read_reply'', read_file_read_reply), (''diff_request'', read_diff_request),
      (''diff_reply'', read_diff_reply), (''sessions_list'', read_sessions_list),
      (''sessions_list_reply'', read_sessions_list_reply),
      (''session_resume'', read_session_resume), (''session_resumed'', read_session_resumed)]"

text \<open>A tag nobody recognises is an error.\<close>

definition control_of_json :: "json \<Rightarrow> control option" where
  "control_of_json j =
     (case tagged_enum ''t'' j of
        None \<Rightarrow> None
      | Some (variant, body) \<Rightarrow>
          (case map_of control_variants variant of None \<Rightarrow> None | Some read \<Rightarrow> read body))"

definition encode_control :: "prims \<Rightarrow> control \<Rightarrow> message_error + bytes" where
  "encode_control P control =
     bind_res (map_err MessageInvalid (json_text P (control_json control))) (\<lambda>written.
     let bs = as_bytes written in
     if MAX_INNER_PAYLOAD_LEN < length bs
     then Inl (MessageFrame (FrameTooLarge (length bs) MAX_INNER_PAYLOAD_LEN))
     else Inr bs)"

definition decode_control :: "prims \<Rightarrow> bytes \<Rightarrow> message_error + control" where
  "decode_control P bs =
     map_err MessageInvalid
       (bind_res (json_read P (string_of_bytes bs)) (\<lambda>j. ok_or (serde_error P j) (control_of_json j)))"

definition reject_unknown_version :: "u32 \<Rightarrow> control option" where
  "reject_unknown_version peer =
     (if peer \<noteq> RELAY_PROTOCOL_VERSION
      then Some (ControlError ERROR_VERSION
             (''this peer speaks relay protocol '' @ nat_str (unat RELAY_PROTOCOL_VERSION) @ '', not '' @
              nat_str (unat peer)) None)
      else None)"

section \<open>Pairing messages\<close>

definition NONCE_LEN :: nat where "NONCE_LEN = 32"

definition COMMITMENT_LEN :: nat where "COMMITMENT_LEN = 32"

datatype pairing_message =
    PairRequest (pr_public_key: bytes) (pr_commitment: bytes)
  | PairAccept (pa_public_key: bytes) (pa_nonce: bytes)
  | PairReveal (pv_nonce: bytes)

definition as_base64_array :: "prims \<Rightarrow> nat \<Rightarrow> json \<Rightarrow> bytes option" where
  "as_base64_array P len j =
     (case as_str j of
        None \<Rightarrow> None
      | Some encoded \<Rightarrow>
          (case b64_decode P encoded of
             None \<Rightarrow> None
           | Some decoded \<Rightarrow> if length decoded = len then Some decoded else None))"

fun pairing_json :: "prims \<Rightarrow> pairing_message \<Rightarrow> json" where
  "pairing_json P (PairRequest k c) =
     tagged_json ''pair_request'' [''public_key'', ''commitment'']
       [Some (JStr (b64_encode P k)), Some (JStr (b64_encode P c))]"
| "pairing_json P (PairAccept k n) =
     tagged_json ''pair_accept'' [''public_key'', ''nonce'']
       [Some (JStr (b64_encode P k)), Some (JStr (b64_encode P n))]"
| "pairing_json P (PairReveal n) = tagged_json ''pair_reveal'' [''nonce''] [Some (JStr (b64_encode P n))]"

definition read_pair_request :: "prims \<Rightarrow> json \<Rightarrow> pairing_message option" where
  "read_pair_request P j =
     (case struct_fields_default [''public_key'', ''commitment''] [] j of
        Some [k, c] \<Rightarrow>
          apply_field (apply_field (Some PairRequest)
            (as_req (as_base64_array P KEY_LEN) k))
            (as_req (as_base64_array P COMMITMENT_LEN) c)
      | _ \<Rightarrow> None)"

definition read_pair_accept :: "prims \<Rightarrow> json \<Rightarrow> pairing_message option" where
  "read_pair_accept P j =
     (case struct_fields_default [''public_key'', ''nonce''] [] j of
        Some [k, n] \<Rightarrow>
          apply_field (apply_field (Some PairAccept)
            (as_req (as_base64_array P KEY_LEN) k))
            (as_req (as_base64_array P NONCE_LEN) n)
      | _ \<Rightarrow> None)"

definition read_pair_reveal :: "prims \<Rightarrow> json \<Rightarrow> pairing_message option" where
  "read_pair_reveal P j =
     (case struct_fields_default [''nonce''] [] j of
        Some [n] \<Rightarrow> apply_field (Some PairReveal) (as_req (as_base64_array P NONCE_LEN) n)
      | _ \<Rightarrow> None)"

definition pairing_of_json :: "prims \<Rightarrow> json \<Rightarrow> pairing_message option" where
  "pairing_of_json P j =
     (case tagged_enum ''t'' j of
        None \<Rightarrow> None
      | Some (variant, body) \<Rightarrow>
          if variant = ''pair_request'' then read_pair_request P body
          else if variant = ''pair_accept'' then read_pair_accept P body
          else if variant = ''pair_reveal'' then read_pair_reveal P body
          else None)"

section \<open>The relay's text frames\<close>

text \<open>A \<^verbatim>\<open>serde_json::Value\<close> keeps one value a key, the last one, at the place of the first
  (\<^verbatim>\<open>preserve_order\<close>).\<close>

fun set_key :: "string \<Rightarrow> json \<Rightarrow> (string \<times> json) list \<Rightarrow> (string \<times> json) list" where
  "set_key k v [] = [(k, v)]"
| "set_key k v (f # fs) = (if fst f = k then (k, v) # fs else f # set_key k v fs)"

fun to_value :: "json \<Rightarrow> json" where
  "to_value (JObj fs) = JObj (foldl (\<lambda>acc (k, v). set_key k v acc) [] (map (\<lambda>(k, v). (k, to_value v)) fs))"
| "to_value (JArr vs) = JArr (map to_value vs)"
| "to_value j = j"

definition value_get :: "string \<Rightarrow> json \<Rightarrow> json option" where
  "value_get k j = (case j of JObj fs \<Rightarrow> map_of fs k | _ \<Rightarrow> None)"

datatype open_mode = ModePair | ModeSession

fun open_mode_name :: "open_mode \<Rightarrow> string" where
  "open_mode_name ModePair = ''pair''"
| "open_mode_name ModeSession = ''session''"

definition open_mode_of_name :: "string \<Rightarrow> open_mode option" where
  "open_mode_of_name s =
     (if s = ''pair'' then Some ModePair else if s = ''session'' then Some ModeSession else None)"

datatype wire_error = WireJson string | MissingSession

datatype relay_text =
    TextHello u32 string
  | TextPresence "string list"
  | TextOpened u32 string string open_mode
  | TextClose u32 string
  | TextDeviceRevoked string
  | TextError string
  | TextPairing u32 pairing_message

text \<open>The inner option is \<open>None\<close> for a tag this build does not know.\<close>

definition incoming_of_json :: "json \<Rightarrow> relay_text option option" where
  "incoming_of_json j =
     (case tagged_enum ''t'' j of
        None \<Rightarrow> None
      | Some (variant, body) \<Rightarrow>
          if variant = ''hello'' then
            (case struct_fields_default [''relay'', ''role''] [] body of
               Some [a, b] \<Rightarrow> map_option Some (apply_field (apply_field (Some TextHello) (as_req as_u32 a)) (as_req as_str b))
             | _ \<Rightarrow> None)
          else if variant = ''presence'' then
            (case struct_fields_default [''hosts''] [] body of
               Some [a] \<Rightarrow> map_option Some (apply_field (Some TextPresence) (as_req (as_list as_str) a))
             | _ \<Rightarrow> None)
          else if variant = ''opened'' then
            (case struct_fields_default [''sid'', ''peer'', ''peerKind'', ''mode''] [''peerKind''] body of
               Some [a, b, c, d] \<Rightarrow>
                 map_option Some
                   (apply_field (apply_field (apply_field (apply_field (Some TextOpened)
                     (as_req as_u32 a))
                     (as_req as_str b))
                     (as_default [] as_str c))
                     (as_req (as_buffered_variant open_mode_of_name) d))
             | _ \<Rightarrow> None)
          else if variant = ''close'' then
            (case struct_fields_default [''sid'', ''reason''] [''reason''] body of
               Some [a, b] \<Rightarrow>
                 map_option Some (apply_field (apply_field (Some TextClose) (as_req as_u32 a)) (as_default [] as_str b))
             | _ \<Rightarrow> None)
          else if variant = ''device_revoked'' then
            (case struct_fields_default [''deviceId''] [] body of
               Some [a] \<Rightarrow> map_option Some (apply_field (Some TextDeviceRevoked) (as_req as_str a))
             | _ \<Rightarrow> None)
          else if variant = ''error'' then
            (case struct_fields_default [''code''] [] body of
               Some [a] \<Rightarrow> map_option Some (apply_field (Some TextError) (as_req as_str a))
             | _ \<Rightarrow> None)
          else if tagged_unit body then Some None
          else None)"

definition session_of_value :: "json \<Rightarrow> u32 option" where
  "session_of_value j =
     (case value_get ''sid'' j of
        None \<Rightarrow> None
      | Some v \<Rightarrow>
          (case as_u64 v of
             None \<Rightarrow> None
           | Some sid \<Rightarrow> if unat sid < 2 ^ 32 \<and> sid \<noteq> 0 then Some (ucast sid) else None))"

definition parse_relay_text :: "prims \<Rightarrow> string \<Rightarrow> wire_error + relay_text option" where
  "parse_relay_text P raw =
     bind_res (map_err WireJson (json_read P raw)) (\<lambda>j.
     let j = to_value j;
         tag = (case value_get ''t'' j of Some (JStr s) \<Rightarrow> s | _ \<Rightarrow> [])
     in if starts_with ''pair_'' tag
        then bind_res (ok_or MissingSession (session_of_value j)) (\<lambda>sid.
             bind_res (ok_or (WireJson (serde_error P j)) (pairing_of_json P j)) (\<lambda>message.
             Inr (Some (TextPairing sid message))))
        else ok_or (WireJson (serde_error P j)) (incoming_of_json j))"

definition encode_pairing :: "prims \<Rightarrow> u32 \<Rightarrow> pairing_message \<Rightarrow> wire_error + string" where
  "encode_pairing P sid message =
     (let value = to_value (pairing_json P message);
          value = (case value of JObj fs \<Rightarrow> JObj (set_key ''sid'' (JNum (uint sid)) fs) | _ \<Rightarrow> value)
      in map_err WireJson (json_text P value))"

text \<open>A \<^verbatim>\<open>json!\<close> value written by \<^verbatim>\<open>to_string\<close>, which panics where writing fails.\<close>

definition encode_close :: "prims \<Rightarrow> u32 \<Rightarrow> string + string" where
  "encode_close P sid = json_text P (JObj [(''t'', JStr ''close''), (''sid'', JNum (uint sid))])"

definition encode_open :: "prims \<Rightarrow> string \<Rightarrow> open_mode \<Rightarrow> string + string" where
  "encode_open P host_device_id mode =
     json_text P (JObj [(''t'', JStr ''open''), (''host'', JStr host_device_id), (''mode'', JStr (open_mode_name mode))])"

section \<open>What is written reads back\<close>

declare present_fields.simps [simp del]

lemma as_u16_JNum [simp]: "as_u16 (JNum (uint (x :: u16))) = Some x"
  using unsigned_less [of x] by (simp add: as_u16_def as_uint_def flip: unat_eq_nat_uint)

lemma as_i32_JNum [simp]: "as_i32 (JNum (sint (x :: i32))) = Some x"
  using sint_ge [of x] sint_lt [of x] by (simp add: as_i32_def)

lemma as_opt_written:
  assumes "\<And>x. f (enc x) = Some x" "\<And>x. enc x \<noteq> JNull"
  shows "as_opt f (map_option enc v) = Some v"
proof (cases v)
  case (Some x)
  with assms(2) [of x] assms(1) [of x] show ?thesis by (cases "enc x") (simp_all add: as_opt_def)
qed (simp add: as_opt_def)

lemma as_opt_simps [simp]:
  "as_opt as_str (map_option JStr a) = Some a"
  "as_opt as_u32 (map_option (\<lambda>x. JNum (uint x)) b) = Some b"
  "as_opt as_u64 (map_option (\<lambda>x. JNum (uint x)) c) = Some c"
  "as_opt as_i32 (map_option (\<lambda>x. JNum (sint x)) d) = Some d"
  by (rule as_opt_written; simp)+

lemma as_list_map:
  assumes "\<And>x. f (enc x) = Some x"
  shows "as_list f (JArr (map enc xs)) = Some xs"
  using assms by (simp add: as_list_def read_all_map)

lemma status_name_read [simp]: "status_of_name (status_name s) = s"
  by (cases s) (simp_all add: status_of_name_def)

lemma file_kind_name_read [simp]: "file_kind_of_name (file_kind_name k) = k"
  by (cases k) (simp_all add: file_kind_of_name_def)

lemma as_buffered_variant_JStr [simp]: "as_buffered_variant f (JStr s) = f s"
  by (simp add: as_buffered_variant_def)

lemma as_default_Some [simp]: "as_default d f (Some j) = f j"
  by (simp add: as_default_def)

lemmas written_simps = struct_fields_present as_list_map

lemma agent_summary_read [simp]: "agent_summary_of_json (agent_summary_json x) = Some x"
  by (simp add: agent_summary_of_json_def agent_summary_json_def written_simps agent_summary.defs)

lemma terminal_summary_read [simp]: "terminal_summary_of_json (terminal_summary_json x) = Some x"
  by (simp add: terminal_summary_of_json_def terminal_summary_json_def written_simps terminal_summary.defs)

lemma file_entry_read [simp]: "file_entry_of_json (file_entry_json x) = Some x"
  by (simp add: file_entry_of_json_def file_entry_json_def written_simps file_entry.defs)

lemma session_cursor_read [simp]: "session_cursor_of_json (session_cursor_json x) = Some x"
  by (simp add: session_cursor_of_json_def session_cursor_json_def written_simps session_cursor.defs)

lemma session_entry_read [simp]: "session_entry_of_json (session_entry_json x) = Some x"
  by (simp add: session_entry_of_json_def session_entry_json_def written_simps session_entry.defs)

lemma unavailable_host_read [simp]: "unavailable_host_of_json (unavailable_host_json x) = Some x"
  by (simp add: unavailable_host_of_json_def unavailable_host_json_def written_simps unavailable_host.defs)

lemma as_opt_cursor [simp]: "as_opt session_cursor_of_json (map_option session_cursor_json a) = Some a"
  by (rule as_opt_written) (simp, simp add: session_cursor_json_def)

lemma as_default_skipped [simp]:
  "as_default [] (as_list unavailable_host_of_json) (if hs = [] then None else Some (JArr (map unavailable_host_json hs))) = Some hs"
  by (simp add: as_default_def as_list_map)

lemmas control_reads =
  read_hello_def read_hello_ack_def read_error_def read_ping_def read_pong_def read_agent_list_def
  read_agent_update_def read_terminal_list_def read_terminal_attach_def read_terminal_attached_def
  read_terminal_detach_def read_terminal_resized_def read_terminal_closed_def read_ide_open_def
  read_ide_opened_def read_files_list_def read_files_list_reply_def read_file_read_def
  read_file_read_reply_def read_diff_request_def read_diff_reply_def read_sessions_list_def
  read_sessions_list_reply_def read_session_resume_def read_session_resumed_def

lemma control_round_trip: "control_of_json (control_json c) = Some c"
  by (cases c) (simp_all add: control_of_json_def control_variants_def tagged_json_def tagged_enum_present
      control_reads written_simps tagged_unit_def)

lemma decode_encode_control:
  assumes "json_ok P" "encode_control P c = Inr bs"
  shows "decode_control P bs = Inr c \<and> length bs \<le> MAX_INNER_PAYLOAD_LEN"
proof -
  from assms(2) obtain s where "json_text P (control_json c) = Inr s" "bs = as_bytes s" "length bs \<le> MAX_INNER_PAYLOAD_LEN"
    by (auto simp: encode_control_def bind_res_eq_Inr map_err_eq_Inr Let_def split: if_splits)
  moreover from this assms(1) have "json_read P s = Inr (control_json c)" by (auto simp: json_ok_def)
  ultimately show ?thesis by (simp add: decode_control_def control_round_trip)
qed

text \<open>A control message whose tag this build does not know is refused, and a relay frame whose tag it
  does not know is passed over, whatever fields it carries.\<close>

lemma unknown_control_refused:
  assumes "tag \<notin> fst ` set control_variants" "\<forall>(k, v) \<in> set fs. k \<noteq> ''t''"
  shows "control_of_json (JObj ((''t'', JStr tag) # fs)) = None"
proof -
  have "occurrences ''t'' fs = []" using assms(2) by (intro occurrences_Nil) auto
  moreover have "map_of control_variants tag = None" using assms(1) by (simp add: map_of_eq_None_iff)
  ultimately show ?thesis by (simp add: control_of_json_def tagged_enum_def occurrences_Cons)
qed

section \<open>Pairing messages on the wire\<close>

definition pairing_message_ok :: "pairing_message \<Rightarrow> bool" where
  "pairing_message_ok m =
     (case m of
        PairRequest k c \<Rightarrow> length k = KEY_LEN \<and> length c = COMMITMENT_LEN
      | PairAccept k n \<Rightarrow> length k = KEY_LEN \<and> length n = NONCE_LEN
      | PairReveal n \<Rightarrow> length n = NONCE_LEN)"

lemma as_base64_array_written [simp]:
  "base64_ok P \<Longrightarrow> length bs = n \<Longrightarrow> as_base64_array P n (JStr (b64_encode P bs)) = Some bs"
  by (simp add: as_base64_array_def base64_ok_def)

lemma session_of_written:
  assumes "''sid'' \<notin> fst ` set fs" "sid \<noteq> (0 :: u32)"
  shows "session_of_value (JObj (fs @ [(''sid'', JNum (uint sid))])) = Some sid"
proof -
  have "uint sid < 2 ^ 32" using unsigned_less [of sid, where ?'a = int] by simp
  then have u: "as_u64 (JNum (uint sid)) = Some (ucast sid)"
    by (simp add: as_u64_def as_uint_def flip: unat_eq_nat_uint)
  have "map_of fs ''sid'' = None" using assms(1) by (simp add: map_of_eq_None_iff)
  moreover have less: "unat sid < 2 ^ 32" using unsigned_less [of sid, where ?'a = nat] by simp
  moreover from less have up: "unat (ucast sid :: u64) = unat sid"
    by (simp add: unsigned_ucast_eq take_bit_nat_eq_self)
  moreover have "(ucast (ucast sid :: u64) :: u32) = sid"
    using less by (simp only: word_unat_eq_iff unsigned_ucast_eq up) (simp add: take_bit_nat_eq_self take_bit_word_eq_self)
  moreover have "(ucast sid :: u64) \<noteq> 0" using assms(2) up by (metis unat_0 word_unat_eq_iff)
  ultimately show ?thesis by (simp add: session_of_value_def value_get_def map_add_def u)
qed

lemma pairing_value: "to_value (pairing_json P m) = pairing_json P m"
  by (cases m) (simp_all add: tagged_json_def present_fields.simps)

lemma pairing_frame_read:
  assumes "json_ok P" "base64_ok P" "pairing_message_ok m" "sid \<noteq> 0" "encode_pairing P sid m = Inr s"
  shows "parse_relay_text P s = Inr (Some (TextPairing sid m))"
proof -
  obtain fs where fs: "pairing_json P m = JObj fs" by (cases m) (simp_all add: tagged_json_def)
  have names: "''sid'' \<notin> fst ` set fs" using fs by (cases m) (auto simp: tagged_json_def present_fields.simps)
  then have set: "set_key ''sid'' v fs = fs @ [(''sid'', v)]" for v
    by (induction fs) auto
  let ?j = "JObj (fs @ [(''sid'', JNum (uint sid))])"
  have "to_value (JObj fs) = JObj fs" using pairing_value [of P m] by (simp only: fs)
  then have "json_text P ?j = Inr s"
    using assms(5) by (simp add: encode_pairing_def fs set Let_def map_err_eq_Inr del: to_value.simps)
  then have read: "json_read P s = Inr ?j" using assms(1) by (auto simp: json_ok_def)
  have norm: "to_value ?j = ?j" using fs by (cases m) (auto simp: tagged_json_def present_fields.simps)
  have "pairing_of_json P ?j = Some m"
    using fs assms(2,3)
    by (cases m) (auto simp: pairing_of_json_def tagged_json_def present_fields.simps tagged_enum_def struct_simps
        read_pair_request_def read_pair_accept_def read_pair_reveal_def pairing_message_ok_def)
  moreover have "\<exists>tag. value_get ''t'' ?j = Some (JStr tag) \<and> starts_with ''pair_'' tag"
    using fs by (cases m) (auto simp: tagged_json_def value_get_def starts_with_def)
  ultimately show ?thesis
    using read norm session_of_written [OF names assms(4)] by (auto simp: parse_relay_text_def Let_def)
qed

end
