(* ===== verification/Relay_Noise.thy ===== *)
theory Relay_Noise
  imports Relay_Keys
begin

text \<open>
  The second half of \<^verbatim>\<open>remote_relay_protocol\<close>'s \<^verbatim>\<open>noise_session.rs\<close>: the Noise \<^verbatim>\<open>KK\<close> handshake and
  the session it leaves. The handshake and transport states of the \<^verbatim>\<open>snow\<close> crate are the type
  parameters \<open>'h\<close> and \<open>'t\<close>, its functions a record, and what a theorem relies on of them one of
  the predicates \<open>transport_counts\<close>, \<open>transport_writes\<close> and \<open>transport_linked\<close>. A method that
  takes \<^verbatim>\<open>&mut self\<close> is a computation over the handshake or the session.
\<close>

section \<open>The \<^verbatim>\<open>snow\<close> crate\<close>

text \<open>A handshake is built from its role, the prologue, the local private and the remote public key;
  writing a message draws an ephemeral key from the generator's bytes. The last argument of a
  write or read is the length of the buffer it may fill.\<close>

record ('h, 't) snow =
  snow_build :: "bool \<Rightarrow> bytes \<Rightarrow> bytes \<Rightarrow> bytes \<Rightarrow> string + 'h"
  handshake_write :: "bytes option \<Rightarrow> 'h \<Rightarrow> bytes \<Rightarrow> nat \<Rightarrow> (string + bytes) \<times> 'h"
  handshake_read :: "'h \<Rightarrow> bytes \<Rightarrow> nat \<Rightarrow> (string + bytes) \<times> 'h"
  handshake_finished :: "'h \<Rightarrow> bool"
  handshake_initiates :: "'h \<Rightarrow> bool"
  handshake_digest :: "'h \<Rightarrow> bytes"
  transport_mode :: "'h \<Rightarrow> string + 't"
  transport_write :: "'t \<Rightarrow> bytes \<Rightarrow> nat \<Rightarrow> (string + bytes) \<times> 't"
  transport_read :: "'t \<Rightarrow> bytes \<Rightarrow> nat \<Rightarrow> (string + bytes) \<times> 't"
  sending_nonce :: "'t \<Rightarrow> u64"
  receiving_nonce :: "'t \<Rightarrow> u64"

section \<open>Limits\<close>

definition NOISE_TAG_LEN :: nat where
  "NOISE_TAG_LEN = 16"

definition MAX_MESSAGES_PER_DIRECTION :: u64 where
  "MAX_MESSAGES_PER_DIRECTION = push_bit 32 1"

definition MAX_HANDSHAKE_PAYLOAD_LEN :: nat where
  "MAX_HANDSHAKE_PAYLOAD_LEN = MAX_NOISE_MESSAGE_LEN - KEY_LEN - NOISE_TAG_LEN"

text \<open>Durations and instants are nanoseconds.\<close>

definition seconds :: "nat \<Rightarrow> nat" where
  "seconds n = n * 1000000000"

definition HANDSHAKE_TIMEOUT :: nat where
  "HANDSHAKE_TIMEOUT = seconds 10"

definition MAX_HALF_OPEN_HANDSHAKES :: nat where
  "MAX_HALF_OPEN_HANDSHAKES = 8"

section \<open>The handshake\<close>

record handshake_parameters =
  hp_local_private_key :: bytes
  hp_remote_public_key :: bytes
  hp_prologue :: bytes

record 'h handshake =
  hs_state :: 'h
  hs_failed :: bool

definition handshake_build :: "('h, 't) snow \<Rightarrow> handshake_parameters \<Rightarrow> bool \<Rightarrow> noise_error + 'h handshake" where
  "handshake_build S parameters initiator =
     (if is_low_order_public_key (hp_remote_public_key parameters) then Inl NoiseLowOrderKey
      else bind_res (map_err NoiseSnow
             (snow_build S initiator (hp_prologue parameters) (hp_local_private_key parameters)
               (hp_remote_public_key parameters))) (\<lambda>state.
           Inr \<lparr>hs_state = state, hs_failed = False\<rparr>))"

definition handshake_initiator :: "('h, 't) snow \<Rightarrow> handshake_parameters \<Rightarrow> noise_error + 'h handshake" where
  "handshake_initiator S parameters = handshake_build S parameters True"

definition handshake_responder :: "('h, 't) snow \<Rightarrow> handshake_parameters \<Rightarrow> noise_error + 'h handshake" where
  "handshake_responder S parameters = handshake_build S parameters False"

definition ensure_usable :: "('h handshake, noise_error, unit) io" where
  "ensure_usable = (\<lambda>h. (if hs_failed h then Inl HandshakeFailed else Inr (), h))"

definition write_message :: "('h, 't) snow \<Rightarrow> bytes option \<Rightarrow> bytes \<Rightarrow> ('h handshake, noise_error, bytes) io" where
  "write_message S seed payload =
     io_bind ensure_usable (\<lambda>_.
     if MAX_HANDSHAKE_PAYLOAD_LEN < length payload
     then io_err (NoiseTooLarge (length payload) MAX_HANDSHAKE_PAYLOAD_LEN)
     else (\<lambda>h.
       case handshake_write S seed (hs_state h) payload MAX_NOISE_MESSAGE_LEN of
         (Inr buffer, state) \<Rightarrow> (Inr buffer, h\<lparr>hs_state := state\<rparr>)
       | (Inl e, state) \<Rightarrow> (Inl (NoiseSnow e), h\<lparr>hs_state := state, hs_failed := True\<rparr>)))"

definition read_checked :: "('h, 't) snow \<Rightarrow> bytes \<Rightarrow> ('h handshake, noise_error, bytes) io" where
  "read_checked S message =
     (if MAX_NOISE_MESSAGE_LEN < length message
      then io_err (NoiseTooLarge (length message) MAX_NOISE_MESSAGE_LEN)
      else if KEY_LEN \<le> length message \<and> is_low_order_public_key (take KEY_LEN message)
      then io_err NoiseLowOrderKey
      else (\<lambda>h.
        case handshake_read S (hs_state h) message MAX_NOISE_MESSAGE_LEN of
          (Inr buffer, state) \<Rightarrow> (Inr buffer, h\<lparr>hs_state := state\<rparr>)
        | (Inl e, state) \<Rightarrow> (Inl (NoiseSnow e), h\<lparr>hs_state := state\<rparr>)))"

definition read_message :: "('h, 't) snow \<Rightarrow> bytes \<Rightarrow> ('h handshake, noise_error, bytes) io" where
  "read_message S message =
     io_bind ensure_usable (\<lambda>_.
     io_case (read_checked S message) (\<lambda>result h.
       (result, case result of Inl e \<Rightarrow> h\<lparr>hs_failed := True\<rparr> | Inr _ \<Rightarrow> h)))"

definition is_finished :: "('h, 't) snow \<Rightarrow> 'h handshake \<Rightarrow> bool" where
  "is_finished S h = handshake_finished S (hs_state h)"

definition handshake_hash :: "('h, 't) snow \<Rightarrow> 'h handshake \<Rightarrow> bytes" where
  "handshake_hash S h = handshake_digest S (hs_state h)"

section \<open>The session\<close>

record 't noise_session =
  ns_transport :: 't
  ns_closed :: bool
  ns_confirmed :: bool

definition into_session :: "('h, 't) snow \<Rightarrow> 'h handshake \<Rightarrow> noise_error + 't noise_session" where
  "into_session S h =
     bind_res (fst (ensure_usable h)) (\<lambda>_.
     let confirmed = handshake_initiates S (hs_state h) in
     bind_res (map_err NoiseSnow (transport_mode S (hs_state h))) (\<lambda>transport.
     Inr \<lparr>ns_transport = transport, ns_closed = False, ns_confirmed = confirmed\<rparr>))"

definition is_confirmed :: "'t noise_session \<Rightarrow> bool" where
  "is_confirmed s = ns_confirmed s"

definition is_closed :: "'t noise_session \<Rightarrow> bool" where
  "is_closed s = ns_closed s"

definition ensure_open :: "('t noise_session, noise_error, unit) io" where
  "ensure_open = (\<lambda>s. (if ns_closed s then Inl NoiseClosed else Inr (), s))"

definition encrypt :: "('h, 't) snow \<Rightarrow> bytes \<Rightarrow> ('t noise_session, noise_error, bytes) io" where
  "encrypt S plaintext =
     io_bind ensure_open (\<lambda>_.
     if MAX_INNER_FRAME_LEN < length plaintext
     then io_err (NoiseTooLarge (length plaintext) MAX_INNER_FRAME_LEN)
     else (\<lambda>s.
       if MAX_MESSAGES_PER_DIRECTION \<le> sending_nonce S (ns_transport s)
       then (Inl NoiseExhausted, s\<lparr>ns_closed := True\<rparr>)
       else (case transport_write S (ns_transport s) plaintext (length plaintext + NOISE_TAG_LEN) of
               (Inr buffer, t) \<Rightarrow> (Inr buffer, s\<lparr>ns_transport := t\<rparr>)
             | (Inl e, t) \<Rightarrow> (Inl (NoiseSnow e), s\<lparr>ns_transport := t, ns_closed := True\<rparr>))))"

definition decrypt :: "('h, 't) snow \<Rightarrow> bytes \<Rightarrow> ('t noise_session, noise_error, bytes) io" where
  "decrypt S ciphertext =
     io_bind ensure_open (\<lambda>_.
     if MAX_NOISE_MESSAGE_LEN < length ciphertext
     then io_err (NoiseTooLarge (length ciphertext) MAX_NOISE_MESSAGE_LEN)
     else (\<lambda>s.
       if MAX_MESSAGES_PER_DIRECTION \<le> receiving_nonce S (ns_transport s)
       then (Inl NoiseExhausted, s\<lparr>ns_closed := True\<rparr>)
       else (case transport_read S (ns_transport s) ciphertext (length ciphertext) of
               (Inr buffer, t) \<Rightarrow> (Inr buffer, s\<lparr>ns_transport := t, ns_confirmed := True\<rparr>)
             | (Inl e, t) \<Rightarrow> (Inl (NoiseSnow e), s\<lparr>ns_transport := t, ns_closed := True\<rparr>))))"

definition encrypt_frame :: "('h, 't) snow \<Rightarrow> inner_frame \<Rightarrow> ('t noise_session, noise_error, bytes) io" where
  "encrypt_frame S f = encrypt S (encode_inner_frame f)"

definition decrypt_frame :: "('h, 't) snow \<Rightarrow> bytes \<Rightarrow> ('t noise_session, noise_error, inner_frame) io" where
  "decrypt_frame S ciphertext =
     io_bind (decrypt S ciphertext) (\<lambda>plaintext.
     io_res (map_err NoiseFrame (decode_inner_frame plaintext)))"

definition chunks_fit :: "u64 \<Rightarrow> nat \<Rightarrow> bool" where
  "chunks_fit sending count =
     (let remaining = (if sending \<le> MAX_MESSAGES_PER_DIRECTION then MAX_MESSAGES_PER_DIRECTION - sending else 0)
      in count \<le> unat remaining)"

fun encrypt_each :: "('h, 't) snow \<Rightarrow> inner_frame list \<Rightarrow> ('t noise_session, noise_error, bytes list) io" where
  "encrypt_each S [] = io_ok []"
| "encrypt_each S (f # fs) =
     io_bind (encrypt_frame S f) (\<lambda>c.
     io_bind (encrypt_each S fs) (\<lambda>cs. io_ok (c # cs)))"

definition encrypt_data_chunks ::
  "('h, 't) snow \<Rightarrow> u32 \<Rightarrow> bytes \<Rightarrow> ('t noise_session, noise_error, bytes list) io" where
  "encrypt_data_chunks S stream_id data =
     io_bind ensure_open (\<lambda>_.
     io_bind (io_res (map_err NoiseFrame (split_data stream_id data))) (\<lambda>frames s.
       if \<not> chunks_fit (sending_nonce S (ns_transport s)) (length frames)
       then (Inl NoiseExhausted, s\<lparr>ns_closed := True\<rparr>)
       else encrypt_each S frames s))"

section \<open>Calls on a session\<close>

text \<open>Every method of a session that changes it, and a run of them with what each answered.\<close>

datatype session_call =
    CallEncrypt bytes
  | CallDecrypt bytes
  | CallEncryptFrame inner_frame
  | CallDecryptFrame bytes
  | CallEncryptDataChunks u32 bytes

datatype session_answer =
    Sealed "bytes list"
  | OpenedBytes bytes
  | OpenedFrame inner_frame
  | Refused noise_error

definition answer :: "('a \<Rightarrow> session_answer) \<Rightarrow> (noise_error + 'a) \<times> 's \<Rightarrow> session_answer \<times> 's" where
  "answer f r = (case r of (Inr a, s) \<Rightarrow> (f a, s) | (Inl e, s) \<Rightarrow> (Refused e, s))"

fun run_call :: "('h, 't) snow \<Rightarrow> session_call \<Rightarrow> 't noise_session \<Rightarrow> session_answer \<times> 't noise_session" where
  "run_call S (CallEncrypt p) s = answer (\<lambda>c. Sealed [c]) (encrypt S p s)"
| "run_call S (CallDecrypt c) s = answer OpenedBytes (decrypt S c s)"
| "run_call S (CallEncryptFrame f) s = answer (\<lambda>c. Sealed [c]) (encrypt_frame S f s)"
| "run_call S (CallDecryptFrame c) s = answer OpenedFrame (decrypt_frame S c s)"
| "run_call S (CallEncryptDataChunks i d) s = answer Sealed (encrypt_data_chunks S i d s)"

fun run_calls ::
  "('h, 't) snow \<Rightarrow> session_call list \<Rightarrow> 't noise_session \<Rightarrow> session_answer list \<times> 't noise_session" where
  "run_calls S [] s = ([], s)"
| "run_calls S (c # cs) s =
     (case run_call S c s of (a, s1) \<Rightarrow> (case run_calls S cs s1 of (as, s2) \<Rightarrow> (a # as, s2)))"

text \<open>Reading a list of ciphertexts in the order they were sent.\<close>

fun decrypt_each :: "('h, 't) snow \<Rightarrow> bytes list \<Rightarrow> ('t noise_session, noise_error, inner_frame list) io" where
  "decrypt_each S [] = io_ok []"
| "decrypt_each S (c # cs) =
     io_bind (decrypt_frame S c) (\<lambda>f.
     io_bind (decrypt_each S cs) (\<lambda>fs. io_ok (f # fs)))"

section \<open>What is relied on\<close>

text \<open>A write or read that succeeds moves its own counter on by one, and one that fails moves
  neither: \<^verbatim>\<open>snow\<close> refuses to reach the last nonce, so the counter does not wrap.\<close>

definition transport_counts :: "('h, 't) snow \<Rightarrow> bool" where
  "transport_counts S \<longleftrightarrow>
     (\<forall>t p n. case transport_write S t p n of (r, t') \<Rightarrow>
        receiving_nonce S t' = receiving_nonce S t \<and>
        unat (sending_nonce S t') = unat (sending_nonce S t) + (case r of Inl _ \<Rightarrow> 0 | Inr _ \<Rightarrow> 1)) \<and>
     (\<forall>t c n. case transport_read S t c n of (r, t') \<Rightarrow>
        sending_nonce S t' = sending_nonce S t \<and>
        unat (receiving_nonce S t') = unat (receiving_nonce S t) + (case r of Inl _ \<Rightarrow> 0 | Inr _ \<Rightarrow> 1))"

text \<open>A write into a large enough buffer, of a message within Noise's limit, at a nonce short of
  the last one, succeeds and adds the tag.\<close>

definition transport_writes :: "('h, 't) snow \<Rightarrow> bool" where
  "transport_writes S \<longleftrightarrow>
     (\<forall>t p n. length p + NOISE_TAG_LEN \<le> n \<longrightarrow> length p + NOISE_TAG_LEN \<le> MAX_NOISE_MESSAGE_LEN \<longrightarrow>
        sending_nonce S t < - 1 \<longrightarrow>
        (\<exists>c t'. transport_write S t p n = (Inr c, t') \<and> length c = length p + NOISE_TAG_LEN))"

text \<open>Two ends whose keys match and whose counters agree: what one writes next, the other reads.\<close>

definition transport_linked :: "('h, 't) snow \<Rightarrow> ('t \<Rightarrow> 't \<Rightarrow> bool) \<Rightarrow> bool" where
  "transport_linked S linked \<longleftrightarrow>
     (\<forall>a b. linked a b \<longrightarrow> receiving_nonce S b = sending_nonce S a \<and>
        (\<forall>p n c a' m. transport_write S a p n = (Inr c, a') \<longrightarrow> length p \<le> m \<longrightarrow>
           (\<exists>b'. transport_read S b c m = (Inr p, b') \<and> linked a' b')))"


section \<open>One call\<close>

lemmas session_call_defs = encrypt_def decrypt_def ensure_open_def io_bind_def

text \<open>What sealing and opening one message may do to a session.\<close>

lemma encrypt_effect:
  assumes "encrypt S p s = (r, s')"
  shows "(r = Inl NoiseClosed \<and> ns_closed s \<and> s' = s) \<or>
    (r = Inl (NoiseTooLarge (length p) MAX_INNER_FRAME_LEN) \<and> \<not> ns_closed s \<and>
      MAX_INNER_FRAME_LEN < length p \<and> s' = s) \<or>
    (r = Inl NoiseExhausted \<and> \<not> ns_closed s \<and> MAX_MESSAGES_PER_DIRECTION \<le> sending_nonce S (ns_transport s) \<and>
      s' = s\<lparr>ns_closed := True\<rparr>) \<or>
    (\<exists>x t. transport_write S (ns_transport s) p (length p + NOISE_TAG_LEN) = (x, t) \<and> \<not> ns_closed s \<and>
      sending_nonce S (ns_transport s) < MAX_MESSAGES_PER_DIRECTION \<and> length p \<le> MAX_INNER_FRAME_LEN \<and>
      map_err NoiseSnow x = r \<and> s' = s\<lparr>ns_transport := t, ns_closed := isl x\<rparr>)"
  using assms by (auto simp: session_call_defs not_le not_less split: if_splits prod.splits sum.splits)

lemma decrypt_effect:
  assumes "decrypt S c s = (r, s')"
  shows "(r = Inl NoiseClosed \<and> ns_closed s \<and> s' = s) \<or>
    (r = Inl (NoiseTooLarge (length c) MAX_NOISE_MESSAGE_LEN) \<and> \<not> ns_closed s \<and> s' = s) \<or>
    (r = Inl NoiseExhausted \<and> \<not> ns_closed s \<and> MAX_MESSAGES_PER_DIRECTION \<le> receiving_nonce S (ns_transport s) \<and>
      s' = s\<lparr>ns_closed := True\<rparr>) \<or>
    (\<exists>x t. transport_read S (ns_transport s) c (length c) = (x, t) \<and> \<not> ns_closed s \<and>
      receiving_nonce S (ns_transport s) < MAX_MESSAGES_PER_DIRECTION \<and> map_err NoiseSnow x = r \<and>
      s' = s\<lparr>ns_transport := t, ns_closed := isl x, ns_confirmed := ns_confirmed s \<or> \<not> isl x\<rparr>)"
  using assms by (auto simp: session_call_defs not_le split: if_splits prod.splits sum.splits)

text \<open>An error that ends the session.\<close>

fun fatal :: "noise_error \<Rightarrow> bool" where
  "fatal (NoiseSnow e) = True"
| "fatal NoiseExhausted = True"
| "fatal NoiseClosed = True"
| "fatal e = False"

lemma encrypt_fatal: "encrypt S p s = (Inl e, s') \<Longrightarrow> fatal e \<Longrightarrow> ns_closed s'"
  by (drule encrypt_effect) (auto simp: map_err_eq_Inl)

lemma decrypt_fatal: "decrypt S c s = (Inl e, s') \<Longrightarrow> fatal e \<Longrightarrow> ns_closed s'"
  by (drule decrypt_effect) (auto simp: map_err_eq_Inl)

lemma encrypt_each_fatal: "encrypt_each S fs s = (Inl e, s') \<Longrightarrow> fatal e \<Longrightarrow> ns_closed s'"
  by (induction fs arbitrary: s) (auto simp: io_eqs encrypt_frame_def dest: encrypt_fatal)

lemma encrypt_each_confirmed: "encrypt_each S fs s = (r, s') \<Longrightarrow> ns_confirmed s' = ns_confirmed s"
proof (induction fs arbitrary: s s' r)
  case (Cons f fs)
  obtain x s1 where e: "encrypt S (encode_inner_frame f) s = (x, s1)" by force
  then have "ns_confirmed s1 = ns_confirmed s" by (auto dest!: encrypt_effect)
  with Cons e show ?case
    by (cases x) (auto simp: io_simps encrypt_frame_def split: prod.splits sum.splits)
qed simp

lemma run_call_closed: "ns_closed s \<Longrightarrow> run_call S c s = (Refused NoiseClosed, s)"
  by (cases c) (simp_all add: answer_def session_call_defs encrypt_frame_def decrypt_frame_def encrypt_data_chunks_def)

lemma run_call_fatal: "run_call S c s = (Refused e, s') \<Longrightarrow> fatal e \<Longrightarrow> ns_closed s'"
  by (cases c) (auto simp: answer_def encrypt_frame_def decrypt_frame_def encrypt_data_chunks_def io_eqs
      ensure_open_def map_err_eq_Inl split: prod.splits sum.splits if_splits
      dest: encrypt_fatal decrypt_fatal encrypt_each_fatal)

text \<open>A message that authenticated, whatever it then read as.\<close>

fun authenticated :: "session_call \<Rightarrow> session_answer \<Rightarrow> bool" where
  "authenticated (CallDecrypt c) (OpenedBytes p) = True"
| "authenticated (CallDecryptFrame c) (OpenedFrame f) = True"
| "authenticated (CallDecryptFrame c) (Refused (NoiseFrame e)) = True"
| "authenticated c a = False"

fun sealed_messages :: "session_answer \<Rightarrow> bytes list" where
  "sealed_messages (Sealed cs) = cs"
| "sealed_messages a = []"

lemma isl_map_err [simp]: "isl (map_err f x) = isl x"
  by (cases x) simp_all

lemma decrypt_confirmed:
  "decrypt S c s = (r, s') \<Longrightarrow> ns_confirmed s' = (ns_confirmed s \<or> \<not> isl r) \<and> (\<forall>e. r \<noteq> Inl (NoiseFrame e))"
  by (drule decrypt_effect) (auto simp: map_err_eq_Inl)

lemma run_call_confirmed:
  assumes "run_call S c s = (a, s')"
  shows "ns_confirmed s' = (ns_confirmed s \<or> authenticated c a)"
proof (cases c)
  case (CallEncrypt p)
  with assms show ?thesis by (auto simp: answer_def split: prod.splits sum.splits dest!: encrypt_effect)
next
  case (CallDecrypt m)
  obtain r s1 where "decrypt S m s = (r, s1)" by force
  with assms CallDecrypt show ?thesis by (cases r) (auto simp: answer_def dest!: decrypt_confirmed)
next
  case (CallEncryptFrame f)
  with assms show ?thesis by (auto simp: answer_def encrypt_frame_def split: prod.splits sum.splits dest!: encrypt_effect)
next
  case (CallDecryptFrame m)
  obtain r s1 where d: "decrypt S m s = (r, s1)" by force
  show ?thesis
  proof (cases r)
    case (Inl e)
    with d have "ns_confirmed s1 = ns_confirmed s" "\<forall>e'. e \<noteq> NoiseFrame e'" by (auto dest!: decrypt_confirmed)
    with assms CallDecryptFrame d Inl show ?thesis by (cases e) (auto simp: answer_def decrypt_frame_def io_bind_def)
  next
    case (Inr p)
    with d have "ns_confirmed s1" by (auto dest!: decrypt_confirmed)
    with assms CallDecryptFrame d Inr show ?thesis
      by (cases "decode_inner_frame p") (auto simp: answer_def decrypt_frame_def io_bind_def)
  qed
next
  case (CallEncryptDataChunks i d)
  with assms show ?thesis
    by (auto simp: answer_def encrypt_data_chunks_def io_bind_def ensure_open_def
        split: prod.splits sum.splits if_splits dest!: encrypt_each_confirmed)
qed

section \<open>Counting messages\<close>

lemma MAX_MESSAGES_nat: "unat MAX_MESSAGES_PER_DIRECTION = 2 ^ 32"
  by (simp add: MAX_MESSAGES_PER_DIRECTION_def push_bit_eq_mult)

definition sent_so_far :: "('h, 't) snow \<Rightarrow> 't noise_session \<Rightarrow> nat" where
  "sent_so_far S s = unat (sending_nonce S (ns_transport s))"

lemma encrypt_counts:
  assumes "transport_counts S" "encrypt S p s = (r, s')" "sent_so_far S s \<le> 2 ^ 32"
  shows "sent_so_far S s' \<le> 2 ^ 32 \<and>
    sent_so_far S s + (case r of Inl _ \<Rightarrow> 0 | Inr _ \<Rightarrow> 1) \<le> sent_so_far S s'"
proof -
  have "unat (sending_nonce S t') = unat (sending_nonce S t) + (case x of Inl _ \<Rightarrow> 0 | Inr _ \<Rightarrow> 1)"
    if "transport_write S t p n = (x, t')" for t t' n x
    using assms(1) that unfolding transport_counts_def by (auto dest!: spec [of _ t] spec [of _ p] spec [of _ n])
  with encrypt_effect [OF assms(2)] assms(3) show ?thesis
    by (fastforce simp: sent_so_far_def word_less_nat_alt MAX_MESSAGES_nat map_err_eq_Inl map_err_eq_Inr
        split: sum.splits)
qed

lemma decrypt_counts:
  assumes "transport_counts S" "decrypt S c s = (r, s')"
  shows "sent_so_far S s' = sent_so_far S s"
proof -
  have "sending_nonce S t' = sending_nonce S t" if "transport_read S t c n = (x, t')" for t t' n x
    using assms(1) that unfolding transport_counts_def by (auto dest!: spec [of _ t] spec [of _ c] spec [of _ n])
  with decrypt_effect [OF assms(2)] show ?thesis by (auto simp: sent_so_far_def)
qed

lemma encrypt_each_counts:
  assumes "transport_counts S"
  shows "encrypt_each S fs s = (r, s') \<Longrightarrow> sent_so_far S s \<le> 2 ^ 32 \<Longrightarrow>
    sent_so_far S s' \<le> 2 ^ 32 \<and>
    sent_so_far S s + (case r of Inl _ \<Rightarrow> 0 | Inr cs \<Rightarrow> length cs) \<le> sent_so_far S s'"
proof (induction fs arbitrary: s s' r)
  case (Cons f fs)
  obtain x s1 where e: "encrypt S (encode_inner_frame f) s = (x, s1)" by force
  obtain y s2 where es: "encrypt_each S fs s1 = (y, s2)" by force
  note c = encrypt_counts [OF assms e Cons.prems(2)]
  show ?case
    using Cons.prems(1) c Cons.IH [OF es] e es
    by (cases x; cases y) (auto simp: io_bind_def encrypt_frame_def)
qed simp

lemma run_call_counts:
  assumes "transport_counts S" "run_call S c s = (a, s')" "sent_so_far S s \<le> 2 ^ 32"
  shows "sent_so_far S s' \<le> 2 ^ 32 \<and> sent_so_far S s + length (sealed_messages a) \<le> sent_so_far S s'"
proof (cases c)
  case (CallEncrypt p)
  obtain r s1 where "encrypt S p s = (r, s1)" by force
  with assms CallEncrypt encrypt_counts [OF assms(1) this assms(3)] show ?thesis
    by (cases r) (auto simp: answer_def)
next
  case (CallDecrypt m)
  obtain r s1 where "decrypt S m s = (r, s1)" by force
  with assms CallDecrypt decrypt_counts [OF assms(1) this] show ?thesis
    by (cases r) (auto simp: answer_def)
next
  case (CallEncryptFrame f)
  obtain r s1 where "encrypt S (encode_inner_frame f) s = (r, s1)" by force
  with assms CallEncryptFrame encrypt_counts [OF assms(1) this assms(3)] show ?thesis
    by (cases r) (auto simp: answer_def encrypt_frame_def)
next
  case (CallDecryptFrame m)
  obtain r s1 where "decrypt S m s = (r, s1)" by force
  with assms CallDecryptFrame decrypt_counts [OF assms(1) this] show ?thesis
    by (auto simp: answer_def decrypt_frame_def io_bind_def split: sum.splits)
next
  case (CallEncryptDataChunks i d)
  have "sent_so_far S (s\<lparr>ns_closed := b\<rparr>) = sent_so_far S s" for b by (simp add: sent_so_far_def)
  with assms CallEncryptDataChunks show ?thesis
    by (auto simp: answer_def encrypt_data_chunks_def io_bind_def ensure_open_def
        split: prod.splits sum.splits if_splits dest!: encrypt_each_counts [OF assms(1) _ assms(3)])
qed

section \<open>Runs\<close>

lemma length_run_calls: "run_calls S cs s = (as, s') \<Longrightarrow> length as = length cs"
  by (induction cs arbitrary: s as) (auto split: prod.splits)

lemma run_calls_closed: "ns_closed s \<Longrightarrow> run_calls S cs s = (replicate (length cs) (Refused NoiseClosed), s)"
  by (induction cs) (simp_all add: run_call_closed)

lemma run_calls_append:
  "run_calls S (xs @ ys) s =
     (case run_calls S xs s of (as, s1) \<Rightarrow> (case run_calls S ys s1 of (bs, s2) \<Rightarrow> (as @ bs, s2)))"
  by (induction xs arbitrary: s) (auto split: prod.splits)

lemma run_calls_counts:
  assumes "transport_counts S"
  shows "run_calls S cs s = (as, s') \<Longrightarrow> sent_so_far S s \<le> 2 ^ 32 \<Longrightarrow>
    sent_so_far S s' \<le> 2 ^ 32 \<and>
    sent_so_far S s + length (concat (map sealed_messages as)) \<le> sent_so_far S s'"
proof (induction cs arbitrary: s s' as)
  case (Cons c cs)
  obtain a s1 where c: "run_call S c s = (a, s1)" by force
  obtain bs s2 where cs: "run_calls S cs s1 = (bs, s2)" by force
  note n = run_call_counts [OF assms c Cons.prems(2)]
  show ?case using Cons.prems(1) Cons.IH [OF cs] n c cs by auto
qed simp

lemma run_calls_confirmed:
  "run_calls S cs s = (as, s') \<Longrightarrow>
     ns_confirmed s' = (ns_confirmed s \<or> (\<exists>(c, a) \<in> set (zip cs as). authenticated c a))"
proof (induction cs arbitrary: s s' as)
  case (Cons c cs)
  obtain a s1 where c: "run_call S c s = (a, s1)" by force
  obtain bs s2 where cs: "run_calls S cs s1 = (bs, s2)" by force
  show ?case using Cons.prems Cons.IH [OF cs] run_call_confirmed [OF c] c cs by auto
qed simp

section \<open>Delivery in order\<close>

lemma encrypt_ok:
  assumes "transport_counts S" "transport_writes S" "\<not> ns_closed s" "length p \<le> MAX_INNER_FRAME_LEN"
    "sent_so_far S s < 2 ^ 32"
  obtains c t where "transport_write S (ns_transport s) p (length p + NOISE_TAG_LEN) = (Inr c, t)"
    "encrypt S p s = (Inr c, s\<lparr>ns_transport := t\<rparr>)" "length c = length p + NOISE_TAG_LEN"
    "sent_so_far S (s\<lparr>ns_transport := t\<rparr>) = Suc (sent_so_far S s)"
proof -
  have low: "sending_nonce S (ns_transport s) < MAX_MESSAGES_PER_DIRECTION"
    using assms(5) by (simp add: sent_so_far_def word_less_nat_alt MAX_MESSAGES_nat)
  then have "sending_nonce S (ns_transport s) < - 1" by (simp add: word_order.not_eq_extremum less_le_trans)
  moreover have "length p + NOISE_TAG_LEN \<le> MAX_NOISE_MESSAGE_LEN"
    using assms(4) by (simp add: frame_limits NOISE_TAG_LEN_def)
  ultimately obtain c t where w: "transport_write S (ns_transport s) p (length p + NOISE_TAG_LEN) = (Inr c, t)"
    "length c = length p + NOISE_TAG_LEN"
    using assms(2) unfolding transport_writes_def by blast
  moreover have "unat (sending_nonce S t) = unat (sending_nonce S (ns_transport s)) + 1"
    using assms(1) w(1) unfolding transport_counts_def
    by (auto dest!: spec [of _ "ns_transport s"] spec [of _ p] spec [of _ "length p + NOISE_TAG_LEN"])
  moreover have "encrypt S p s = (Inr c, s\<lparr>ns_transport := t\<rparr>)"
    using assms(3,4) low w(1) by (simp add: session_call_defs not_le)
  ultimately show ?thesis using that by (simp add: sent_so_far_def)
qed

lemma message_delivered:
  assumes "transport_counts S" "transport_writes S" "transport_linked S linked"
    "linked (ns_transport a) (ns_transport b)" "\<not> ns_closed a" "\<not> ns_closed b"
    "length p \<le> MAX_INNER_FRAME_LEN" "sent_so_far S a < 2 ^ 32"
  obtains c t u where "encrypt S p a = (Inr c, a\<lparr>ns_transport := t\<rparr>)"
    "decrypt S c b = (Inr p, b\<lparr>ns_transport := u, ns_confirmed := True\<rparr>)" "linked t u"
    "sent_so_far S (a\<lparr>ns_transport := t\<rparr>) = Suc (sent_so_far S a)"
proof -
  obtain c t where e: "transport_write S (ns_transport a) p (length p + NOISE_TAG_LEN) = (Inr c, t)"
    "encrypt S p a = (Inr c, a\<lparr>ns_transport := t\<rparr>)" "length c = length p + NOISE_TAG_LEN"
    "sent_so_far S (a\<lparr>ns_transport := t\<rparr>) = Suc (sent_so_far S a)"
    by (rule encrypt_ok [OF assms(1,2,5,7,8)])
  have nonce: "receiving_nonce S (ns_transport b) = sending_nonce S (ns_transport a)"
    using assms(3,4) unfolding transport_linked_def by blast
  have "length p \<le> length c" using e(3) by simp
  then obtain u where r: "transport_read S (ns_transport b) c (length c) = (Inr p, u)" "linked t u"
    using assms(3,4) e(1) unfolding transport_linked_def by blast
  have "length c \<le> MAX_NOISE_MESSAGE_LEN" using e(3) assms(7) by (simp add: frame_limits NOISE_TAG_LEN_def)
  moreover have "receiving_nonce S (ns_transport b) < MAX_MESSAGES_PER_DIRECTION"
    using assms(8) nonce by (simp add: sent_so_far_def word_less_nat_alt MAX_MESSAGES_nat)
  ultimately have "decrypt S c b = (Inr p, b\<lparr>ns_transport := u, ns_confirmed := True\<rparr>)"
    using assms(6) r(1) by (simp add: session_call_defs not_le)
  with e r that show ?thesis by blast
qed

lemma frames_delivered:
  assumes "transport_counts S" "transport_writes S" "transport_linked S linked"
  shows "linked (ns_transport a) (ns_transport b) \<Longrightarrow> \<not> ns_closed a \<Longrightarrow> \<not> ns_closed b \<Longrightarrow>
    list_all inner_frame_ok fs \<Longrightarrow> sent_so_far S a + length fs \<le> 2 ^ 32 \<Longrightarrow>
    \<exists>cs a' b'. encrypt_each S fs a = (Inr cs, a') \<and> decrypt_each S cs b = (Inr fs, b') \<and>
      length cs = length fs \<and> linked (ns_transport a') (ns_transport b')"
proof (induction fs arbitrary: a b)
  case (Cons f fs)
  have f: "inner_frame_ok f" "length (encode_inner_frame f) \<le> MAX_INNER_FRAME_LEN" "sent_so_far S a < 2 ^ 32"
    using Cons.prems(4,5) inner_frame_fits [of f] by auto
  obtain c t u where m: "encrypt S (encode_inner_frame f) a = (Inr c, a\<lparr>ns_transport := t\<rparr>)"
    "decrypt S c b = (Inr (encode_inner_frame f), b\<lparr>ns_transport := u, ns_confirmed := True\<rparr>)" "linked t u"
    "sent_so_far S (a\<lparr>ns_transport := t\<rparr>) = Suc (sent_so_far S a)"
    by (rule message_delivered [OF assms Cons.prems(1-3) f(2,3)])
  have d: "decode_inner_frame (encode_inner_frame f) = Inr f" using f(1) by (simp add: decode_inner_iff)
  obtain cs a' b' where r: "encrypt_each S fs (a\<lparr>ns_transport := t\<rparr>) = (Inr cs, a')"
    "decrypt_each S cs (b\<lparr>ns_transport := u, ns_confirmed := True\<rparr>) = (Inr fs, b')"
    "length cs = length fs" "linked (ns_transport a') (ns_transport b')"
    using Cons.IH [of "a\<lparr>ns_transport := t\<rparr>" "b\<lparr>ns_transport := u, ns_confirmed := True\<rparr>"] Cons.prems m(3,4) by auto
  have "encrypt_each S (f # fs) a = (Inr (c # cs), a')" "decrypt_each S (c # cs) b = (Inr (f # fs), b')"
    using m(1,2) r(1,2) d by (simp_all add: io_bind_def encrypt_frame_def decrypt_frame_def)
  with r(3,4) show ?case by (intro exI [of _ "c # cs"]) auto
qed simp

lemma split_data_ok:
  assumes "stream_id \<noteq> 0" "split_data stream_id data = Inr fs"
  shows "list_all inner_frame_ok fs \<and> concat (map if_payload fs) = data \<and>
    length fs = length (chunks MAX_INNER_PAYLOAD_LEN data) \<and>
    (\<forall>f \<in> set fs. if_kind f = InnerData \<and> if_stream_id f = stream_id \<and> if_payload f \<noteq> [])"
  using assms chunks_bounds [of _ MAX_INNER_PAYLOAD_LEN data] concat_chunks [of MAX_INNER_PAYLOAD_LEN data]
  by (auto simp: split_data_eq list_all_iff inner_frame_ok_def comp_def MAX_INNER_PAYLOAD_LEN_def
      MAX_INNER_FRAME_LEN_def INNER_HEADER_LEN_def)

lemma chunks_fit_iff: "sent_so_far S s \<le> 2 ^ 32 \<Longrightarrow>
  chunks_fit (sending_nonce S (ns_transport s)) n \<longleftrightarrow> sent_so_far S s + n \<le> 2 ^ 32"
  by (auto simp: chunks_fit_def sent_so_far_def word_le_nat_alt MAX_MESSAGES_nat unat_sub)

section \<open>Handshakes\<close>

lemma read_message_failed:
  "read_message S m h = (Inl e, h') \<Longrightarrow> hs_failed h'"
  by (auto simp: read_message_def ensure_usable_def io_bind_def io_case_def split: if_splits prod.splits)

lemma handshake_dead:
  assumes "hs_failed h"
  shows "read_message S m h = (Inl HandshakeFailed, h)" "write_message S seed p h = (Inl HandshakeFailed, h)"
    "into_session S h = Inl HandshakeFailed"
  using assms by (simp_all add: read_message_def write_message_def into_session_def ensure_usable_def io_bind_def)

lemma read_message_Inr:
  assumes "read_message S m h = (Inr p, h')"
  shows "\<not> hs_failed h \<and> length m \<le> MAX_NOISE_MESSAGE_LEN \<and>
    (KEY_LEN \<le> length m \<longrightarrow> \<not> is_low_order_public_key (take KEY_LEN m)) \<and>
    (\<exists>state. handshake_read S (hs_state h) m MAX_NOISE_MESSAGE_LEN = (Inr p, state) \<and> h' = h\<lparr>hs_state := state\<rparr>)"
  using assms
  by (auto simp: read_message_def read_checked_def ensure_usable_def io_bind_def io_case_def not_less
      split: if_splits prod.splits sum.splits)

lemma write_message_Inr:
  assumes "write_message S seed p h = (Inr m, h')"
  shows "\<not> hs_failed h \<and> length p \<le> MAX_HANDSHAKE_PAYLOAD_LEN \<and>
    (\<exists>state. handshake_write S seed (hs_state h) p MAX_NOISE_MESSAGE_LEN = (Inr m, state) \<and> h' = h\<lparr>hs_state := state\<rparr>)"
  using assms
  by (auto simp: write_message_def ensure_usable_def io_bind_def not_less split: if_splits prod.splits sum.splits)

lemma into_session_Inr:
  "into_session S h = Inr s \<longleftrightarrow>
     \<not> hs_failed h \<and> (\<exists>t. transport_mode S (hs_state h) = Inr t \<and>
       s = \<lparr>ns_transport = t, ns_closed = False, ns_confirmed = handshake_initiates S (hs_state h)\<rparr>)"
  by (auto simp: into_session_def ensure_usable_def bind_res_eq_Inr map_err_eq_Inr Let_def)

section \<open>The prologue\<close>

lemma build_prologue_Inr:
  "build_prologue u i r = Inr b \<longleftrightarrow>
     u \<noteq> [] \<and> i \<noteq> [] \<and> r \<noteq> [] \<and> FIELD_SEPARATOR \<notin> set (as_bytes u) \<and> FIELD_SEPARATOR \<notin> set (as_bytes i) \<and>
     FIELD_SEPARATOR \<notin> set (as_bytes r) \<and>
     b = as_bytes RELAY_PROLOGUE_LABEL @ FIELD_SEPARATOR # as_bytes u @ FIELD_SEPARATOR # as_bytes i @
       FIELD_SEPARATOR # as_bytes r"
  by (auto simp: build_prologue_def identity_field_def bind_res_eq_Inr)

lemma build_prologue_inj:
  "build_prologue u i r = Inr b \<Longrightarrow> build_prologue u' i' r' = Inr b \<Longrightarrow> u = u' \<and> i = i' \<and> r = r'"
  unfolding build_prologue_Inr by (auto simp: split_at_separator)

end
