(* ===== verification/Relay_Pairing.thy ===== *)
theory Relay_Pairing
  imports Relay_Messages Relay_Noise
begin

text \<open>
  Pairing two devices (\<^verbatim>\<open>remote_relay_protocol\<close>'s \<^verbatim>\<open>pairing.rs\<close>): the commitment, the six digits, the
  requester's and the acceptor's side of one exchange, and the gate that holds the acceptor's state
  across exchanges. An \<^verbatim>\<open>Instant\<close> is a number of nanoseconds. A gate method is a computation over the
  gate; the failure counter is the \<^verbatim>\<open>u32\<close> of the source.
\<close>

section \<open>Constants and errors\<close>

definition PAIRING_EXPIRY :: nat where
  "PAIRING_EXPIRY = seconds 120"

definition MAX_FAILED_PAIRING_ATTEMPTS :: u32 where
  "MAX_FAILED_PAIRING_ATTEMPTS = 3"

definition SAS_LABEL :: bytes where
  "SAS_LABEL = as_bytes ''zode-pair/1''"

definition SAS_MODULUS :: u32 where
  "SAS_MODULUS = 1000000"

datatype pairing_error =
    PairCommitmentMismatch
  | PairIdenticalKeys
  | PairNoRandomness
  | PairInvalidPublicKey
  | PairExpired
  | PairBusy
  | PairLockedOut
  | PairNoPendingExchange

fun pairing_display :: "pairing_error \<Rightarrow> string" where
  "pairing_display PairCommitmentMismatch = ''the revealed nonce does not match the commitment made before it''"
| "pairing_display PairIdenticalKeys = ''both devices presented the same public key''"
| "pairing_display PairNoRandomness = ''no randomness available''"
| "pairing_display PairInvalidPublicKey = ''the peer presented a public key that cannot be used''"
| "pairing_display PairExpired = ''the pairing exchange expired''"
| "pairing_display PairBusy = ''another pairing exchange is already in progress''"
| "pairing_display PairLockedOut = ''pairing is locked after repeated failures''"
| "pairing_display PairNoPendingExchange = ''there is no pairing exchange to continue''"

section \<open>The commitment and the digits\<close>

definition random_nonce :: "('w world, pairing_error, bytes) io" where
  "random_nonce = io_map_err (\<lambda>_. PairNoRandomness) (random_fill NONCE_LEN)"

definition commitment :: "prims \<Rightarrow> bytes \<Rightarrow> bytes \<Rightarrow> bytes" where
  "commitment P requester_public_key requester_nonce = sha256 P (requester_public_key @ requester_nonce)"

definition six_digits :: "u32 \<Rightarrow> string" where
  "six_digits n = (let s = nat_str (unat n) in replicate (6 - length s) CHR ''0'' @ s)"

definition short_authentication_string :: "prims \<Rightarrow> bytes \<Rightarrow> bytes \<Rightarrow> bytes \<Rightarrow> bytes \<Rightarrow> string" where
  "short_authentication_string P acceptor_public_key requester_public_key acceptor_nonce requester_nonce =
     (let digest = sha256 P (SAS_LABEL @ acceptor_public_key @ requester_public_key @ acceptor_nonce @ requester_nonce);
          first_twenty_bits = push_bit 12 (ucast (digest ! 0) :: u32) OR push_bit 4 (ucast (digest ! 1)) OR
            drop_bit 4 (ucast (digest ! 2))
      in six_digits (first_twenty_bits mod SAS_MODULUS))"

record pairing_outcome =
  po_peer_public_key :: bytes
  po_digits :: string

section \<open>The requester\<close>

record pairing_requester =
  rq_public_key :: bytes
  rq_nonce :: bytes

definition requester_start :: "prims \<Rightarrow> bytes \<Rightarrow> bytes \<Rightarrow> pairing_requester \<times> pairing_message" where
  "requester_start P public_key nonce =
     (\<lparr>rq_public_key = public_key, rq_nonce = nonce\<rparr>, PairRequest public_key (commitment P public_key nonce))"

definition receive_accept ::
  "prims \<Rightarrow> pairing_requester \<Rightarrow> bytes \<Rightarrow> bytes \<Rightarrow> pairing_error + pairing_message \<times> pairing_outcome" where
  "receive_accept P requester acceptor_public_key acceptor_nonce =
     (if acceptor_public_key = rq_public_key requester then Inl PairIdenticalKeys
      else if is_low_order_public_key acceptor_public_key then Inl PairInvalidPublicKey
      else Inr (PairReveal (rq_nonce requester),
        \<lparr>po_peer_public_key = acceptor_public_key,
         po_digits = short_authentication_string P acceptor_public_key (rq_public_key requester)
           acceptor_nonce (rq_nonce requester)\<rparr>))"

section \<open>The acceptor\<close>

record pairing_acceptor =
  ac_public_key :: bytes
  ac_nonce :: bytes
  ac_requester_public_key :: bytes
  ac_requester_commitment :: bytes
  ac_deadline :: nat

definition receive_request ::
  "bytes \<Rightarrow> bytes \<Rightarrow> bytes \<Rightarrow> bytes \<Rightarrow> nat \<Rightarrow> pairing_error + pairing_acceptor \<times> pairing_message" where
  "receive_request public_key nonce requester_public_key requester_commitment now =
     (if requester_public_key = public_key then Inl PairIdenticalKeys
      else if is_low_order_public_key requester_public_key then Inl PairInvalidPublicKey
      else Inr (\<lparr>ac_public_key = public_key, ac_nonce = nonce, ac_requester_public_key = requester_public_key,
                 ac_requester_commitment = requester_commitment, ac_deadline = now + PAIRING_EXPIRY\<rparr>,
                PairAccept public_key nonce))"

definition receive_reveal :: "prims \<Rightarrow> pairing_acceptor \<Rightarrow> bytes \<Rightarrow> nat \<Rightarrow> pairing_error + pairing_outcome" where
  "receive_reveal P acceptor requester_nonce now =
     (if ac_deadline acceptor \<le> now then Inl PairExpired
      else if commitment P (ac_requester_public_key acceptor) requester_nonce \<noteq> ac_requester_commitment acceptor
      then Inl PairCommitmentMismatch
      else Inr \<lparr>po_peer_public_key = ac_requester_public_key acceptor,
        po_digits = short_authentication_string P (ac_public_key acceptor) (ac_requester_public_key acceptor)
          (ac_nonce acceptor) requester_nonce\<rparr>)"

section \<open>The gate\<close>

record pairing_gate =
  pg_pending :: "pairing_acceptor option"
  pg_deciding_until :: "nat option"
  pg_failed_attempts :: u32

definition new_gate :: pairing_gate where
  "new_gate = \<lparr>pg_pending = None, pg_deciding_until = None, pg_failed_attempts = 0\<rparr>"

definition gate_locked_out :: "pairing_gate \<Rightarrow> bool" where
  "gate_locked_out g = (MAX_FAILED_PAIRING_ATTEMPTS \<le> pg_failed_attempts g)"

definition gate_in_progress :: "pairing_gate \<Rightarrow> nat \<Rightarrow> bool" where
  "gate_in_progress g now =
     ((case pg_pending g of None \<Rightarrow> False | Some pending \<Rightarrow> now < ac_deadline pending) \<or>
      (case pg_deciding_until g of None \<Rightarrow> False | Some deadline \<Rightarrow> now < deadline))"

definition gate_begin ::
  "bytes \<Rightarrow> bytes \<Rightarrow> bytes \<Rightarrow> bytes \<Rightarrow> nat \<Rightarrow> (pairing_gate, pairing_error, pairing_message) io" where
  "gate_begin public_key nonce requester_public_key requester_commitment now g =
     (if gate_locked_out g then (Inl PairLockedOut, g)
      else if gate_in_progress g now then (Inl PairBusy, g)
      else (case receive_request public_key nonce requester_public_key requester_commitment now of
              Inl e \<Rightarrow> (Inl e, g)
            | Inr (acceptor, accept) \<Rightarrow>
                (Inr accept, g\<lparr>pg_pending := Some acceptor, pg_deciding_until := None\<rparr>)))"

definition gate_reveal :: "prims \<Rightarrow> bytes \<Rightarrow> nat \<Rightarrow> (pairing_gate, pairing_error, pairing_outcome) io" where
  "gate_reveal P requester_nonce now g =
     (if gate_locked_out g then (Inl PairLockedOut, g)
      else (case pg_pending g of
              None \<Rightarrow> (Inl PairNoPendingExchange, g)
            | Some acceptor \<Rightarrow>
                let g = g\<lparr>pg_pending := None\<rparr>; outcome = receive_reveal P acceptor requester_nonce now in
                (outcome,
                 case outcome of
                   Inr _ \<Rightarrow> g\<lparr>pg_deciding_until := Some (ac_deadline acceptor)\<rparr>
                 | Inl PairCommitmentMismatch \<Rightarrow> g\<lparr>pg_failed_attempts := pg_failed_attempts g + 1\<rparr>
                 | Inl _ \<Rightarrow> g)))"

definition gate_reject_digits :: "pairing_gate \<Rightarrow> pairing_gate" where
  "gate_reject_digits g = g\<lparr>pg_deciding_until := None, pg_failed_attempts := pg_failed_attempts g + 1\<rparr>"

definition gate_confirm_digits :: "pairing_gate \<Rightarrow> pairing_gate" where
  "gate_confirm_digits g = g\<lparr>pg_deciding_until := None, pg_failed_attempts := 0\<rparr>"

definition gate_cancel_pending :: "pairing_gate \<Rightarrow> pairing_gate" where
  "gate_cancel_pending g = g\<lparr>pg_pending := None, pg_deciding_until := None\<rparr>"

definition gate_reset_lockout :: "pairing_gate \<Rightarrow> pairing_gate" where
  "gate_reset_lockout g = gate_cancel_pending (g\<lparr>pg_failed_attempts := 0\<rparr>)"

lemmas gate_defs =
  gate_begin_def gate_reveal_def gate_reject_digits_def gate_confirm_digits_def gate_cancel_pending_def
  gate_reset_lockout_def gate_locked_out_def gate_in_progress_def

section \<open>The digits\<close>

text \<open>Twenty bits of the digest, six decimal digits.\<close>

lemma length_six_digits:
  assumes "unat n < 10 ^ 6"
  shows "length (six_digits n) = 6"
  using nat_str_length [of "unat n" 5] assms by (simp add: six_digits_def Let_def)

lemma sas_length [simp]: "length (short_authentication_string P a b c d) = 6"
proof -
  have "unat (x mod SAS_MODULUS) < 10 ^ 6" for x :: u32
    by (simp add: unat_mod_distrib SAS_MODULUS_def)
  then show ?thesis by (simp add: short_authentication_string_def Let_def length_six_digits)
qed

lemma six_digits_are_digits: "c \<in> set (six_digits n) \<Longrightarrow> 48 \<le> (of_char c :: nat) \<and> (of_char c :: nat) \<le> 57"
  by (auto simp: six_digits_def Let_def dest!: nat_str_digits)

section \<open>One exchange\<close>

lemma receive_request_Inr:
  "receive_request k n rk com now = Inr (a, m) \<longleftrightarrow>
     rk \<noteq> k \<and> \<not> is_low_order_public_key rk \<and> m = PairAccept k n \<and>
     a = \<lparr>ac_public_key = k, ac_nonce = n, ac_requester_public_key = rk, ac_requester_commitment = com,
          ac_deadline = now + PAIRING_EXPIRY\<rparr>"
  by (auto simp: receive_request_def)

lemma receive_reveal_Inr:
  "receive_reveal P a n now = Inr out \<longleftrightarrow>
     now < ac_deadline a \<and> commitment P (ac_requester_public_key a) n = ac_requester_commitment a \<and>
     out = \<lparr>po_peer_public_key = ac_requester_public_key a,
       po_digits = short_authentication_string P (ac_public_key a) (ac_requester_public_key a) (ac_nonce a) n\<rparr>"
  by (auto simp: receive_reveal_def)

lemma gate_begin_effect:
  assumes "gate_begin k n rk com now g = (r, g')"
  shows "(isl r \<and> g' = g) \<or>
    (\<exists>a. r = Inr (PairAccept k n) \<and> \<not> gate_locked_out g \<and> \<not> gate_in_progress g now \<and>
      receive_request k n rk com now = Inr (a, PairAccept k n) \<and>
      g' = g\<lparr>pg_pending := Some a, pg_deciding_until := None\<rparr>)"
  using assms by (auto simp: gate_begin_def receive_request_Inr split: if_splits sum.splits)

lemma gate_reveal_effect:
  assumes "gate_reveal P n now g = (r, g')" "pg_pending g = Some a" "\<not> gate_locked_out g"
  shows "r = receive_reveal P a n now \<and> pg_pending g' = None \<and>
    pg_deciding_until g' = (if isl r then pg_deciding_until g else Some (ac_deadline a)) \<and>
    pg_failed_attempts g' = pg_failed_attempts g + (if r = Inl PairCommitmentMismatch then 1 else 0)"
  using assms by (auto simp: gate_reveal_def Let_def split: sum.splits pairing_error.splits)

end
