(* ===== verification/Pairing_Flow.thy ===== *)
theory Pairing_Flow
  imports Relay_Pairing Reference
begin

text \<open>
  The host's side of pairing (\<^verbatim>\<open>remote_control\<close>'s \<^verbatim>\<open>pairing_flow.rs\<close>): what a person at the screen adds
  to the gate of \<open>Relay_Pairing\<close>, one question at a time, a cap on how often a request is answered or
  the question asked, and a deadline over the whole exchange. Every method is one event of a run. Shown
  of all runs: the stage and the gate agree, a lockout holds until the person unlocks it, questions
  and answers keep to their hourly allowances, and the digits on screen are those of a key and a
  nonce that were committed to before the host's own nonce was sent.
\<close>

section \<open>Constants and types\<close>

definition MAX_PAIRING_REQUESTS_PER_HOUR :: nat where
  "MAX_PAIRING_REQUESTS_PER_HOUR = 3"

definition MAX_ANSWERED_REQUESTS_PER_DEVICE_PER_HOUR :: nat where
  "MAX_ANSWERED_REQUESTS_PER_DEVICE_PER_HOUR = 3"

definition MAX_ANSWERED_REQUESTS_PER_HOUR :: nat where
  "MAX_ANSWERED_REQUESTS_PER_HOUR = 12"

definition REQUEST_WINDOW :: nat where
  "REQUEST_WINDOW = seconds (60 * 60)"

definition wait_for :: "nat \<Rightarrow> nat \<Rightarrow> nat" where
  "wait_for at now = at + REQUEST_WINDOW - now"

datatype pairing_refusal =
    RateLimited nat
  | TooManyAnswered nat
  | RefusedBusy
  | RefusedLockedOut
  | RefusedInvalidRequest
  | RefusedNoPendingExchange
  | RefusedCommitmentMismatch
  | RefusedExpired

fun refusal_of_error :: "pairing_error \<Rightarrow> pairing_refusal" where
  "refusal_of_error PairBusy = RefusedBusy"
| "refusal_of_error PairLockedOut = RefusedLockedOut"
| "refusal_of_error PairExpired = RefusedExpired"
| "refusal_of_error PairCommitmentMismatch = RefusedCommitmentMismatch"
| "refusal_of_error PairNoPendingExchange = RefusedNoPendingExchange"
| "refusal_of_error PairIdenticalKeys = RefusedInvalidRequest"
| "refusal_of_error PairInvalidPublicKey = RefusedInvalidRequest"
| "refusal_of_error PairNoRandomness = RefusedInvalidRequest"

record pending_decision =
  pd_session_id :: u32
  pd_peer_device_id :: string
  pd_peer_name :: string
  pd_peer_public_key :: bytes
  pd_code :: string
  pd_replaces :: "string option"
  pd_started :: nat

datatype stage =
    StageIdle
  | AwaitingReveal u32 string nat
  | AwaitingName u32 string bytes string nat
  | StageDeciding pending_decision

record pairing_history =
  ph_gate :: pairing_gate
  ph_requests :: "nat list"
  ph_answered :: "(nat \<times> string) list"

record pairing_flow =
  pf_history :: pairing_history
  pf_stage :: stage

abbreviation flow_gate :: "pairing_flow \<Rightarrow> pairing_gate" where
  "flow_gate f \<equiv> ph_gate (pf_history f)"

definition set_gate :: "pairing_gate \<Rightarrow> pairing_flow \<Rightarrow> pairing_flow" where
  "set_gate g f = f\<lparr>pf_history := (pf_history f)\<lparr>ph_gate := g\<rparr>\<rparr>"

section \<open>The operations\<close>

definition new_history :: pairing_history where
  "new_history = \<lparr>ph_gate = new_gate, ph_requests = [], ph_answered = []\<rparr>"

definition flow_resume :: "pairing_history \<Rightarrow> pairing_flow" where
  "flow_resume history =
     \<lparr>pf_history = history\<lparr>ph_gate := gate_cancel_pending (ph_gate history)\<rparr>, pf_stage = StageIdle\<rparr>"

definition into_history :: "pairing_flow \<Rightarrow> pairing_history" where
  "into_history f = (pf_history f)\<lparr>ph_gate := gate_cancel_pending (flow_gate f)\<rparr>"

definition new_flow :: pairing_flow where
  "new_flow = \<lparr>pf_history = new_history, pf_stage = StageIdle\<rparr>"

definition flow_locked_out :: "pairing_flow \<Rightarrow> bool" where
  "flow_locked_out f = gate_locked_out (flow_gate f)"

definition flow_pending_decision :: "pairing_flow \<Rightarrow> pending_decision option" where
  "flow_pending_decision f = (case pf_stage f of StageDeciding decision \<Rightarrow> Some decision | _ \<Rightarrow> None)"

definition active_session :: "pairing_flow \<Rightarrow> u32 option" where
  "active_session f =
     (case pf_stage f of
        StageIdle \<Rightarrow> None
      | AwaitingReveal session_id _ _ \<Rightarrow> Some session_id
      | AwaitingName session_id _ _ _ _ \<Rightarrow> Some session_id
      | StageDeciding decision \<Rightarrow> Some (pd_session_id decision))"

definition flow_started :: "pairing_flow \<Rightarrow> nat option" where
  "flow_started f =
     (case pf_stage f of
        StageIdle \<Rightarrow> None
      | AwaitingReveal _ _ started \<Rightarrow> Some started
      | AwaitingName _ _ _ _ started \<Rightarrow> Some started
      | StageDeciding decision \<Rightarrow> Some (pd_started decision))"

definition flow_expire :: "nat \<Rightarrow> pairing_flow \<Rightarrow> u32 option \<times> pairing_flow" where
  "flow_expire now f =
     (case flow_started f of
        None \<Rightarrow> (None, f)
      | Some started \<Rightarrow>
          if now < started + PAIRING_EXPIRY then (None, f)
          else (active_session f, set_gate (gate_cancel_pending (flow_gate f)) (f\<lparr>pf_stage := StageIdle\<rparr>)))"

definition in_window :: "nat \<Rightarrow> nat \<Rightarrow> bool" where
  "in_window now at \<longleftrightarrow> now - at < REQUEST_WINDOW"

definition answer_wait :: "string \<Rightarrow> nat \<Rightarrow> (nat \<times> string) list \<Rightarrow> nat option" where
  "answer_wait peer_device_id now answered =
     (let retry_after = (if MAX_ANSWERED_REQUESTS_PER_HOUR \<le> length answered
                         then (case answered of [] \<Rightarrow> None | (oldest, _) # _ \<Rightarrow> Some (wait_for oldest now)) else None);
          for_device = filter (\<lambda>(_, device_id). device_id = peer_device_id) answered
      in if MAX_ANSWERED_REQUESTS_PER_DEVICE_PER_HOUR \<le> length for_device
         then (case for_device of
                 [] \<Rightarrow> retry_after
               | (oldest, _) # _ \<Rightarrow>
                   let wait = wait_for oldest now in
                   Some (case retry_after of None \<Rightarrow> wait | Some other \<Rightarrow> max other wait))
         else retry_after)"

definition flow_request ::
  "u32 \<Rightarrow> string \<Rightarrow> bytes \<Rightarrow> bytes \<Rightarrow> bytes \<Rightarrow> bytes \<Rightarrow> nat \<Rightarrow>
   pairing_flow \<Rightarrow> (pairing_refusal + pairing_message) \<times> pairing_flow" where
  "flow_request session_id peer_device_id local_public_key nonce requester_public_key com now f =
     (let f = snd (flow_expire now f) in
      if gate_locked_out (flow_gate f) then (Inl RefusedLockedOut, f)
      else if pf_stage f \<noteq> StageIdle then (Inl RefusedBusy, f)
      else
        let requests = dropWhile (\<lambda>asked. \<not> in_window now asked) (ph_requests (pf_history f));
            f = f\<lparr>pf_history := (pf_history f)\<lparr>ph_requests := requests\<rparr>\<rparr>
        in if MAX_PAIRING_REQUESTS_PER_HOUR \<le> length requests
           then (Inl (RateLimited (case requests of [] \<Rightarrow> 0 | asked # _ \<Rightarrow> wait_for asked now)), f)
           else
             let answered = dropWhile (\<lambda>(answered_at, _). \<not> in_window now answered_at) (ph_answered (pf_history f));
                 f = f\<lparr>pf_history := (pf_history f)\<lparr>ph_answered := answered\<rparr>\<rparr>
             in (case answer_wait peer_device_id now answered of
                   Some retry_after \<Rightarrow> (Inl (TooManyAnswered retry_after), f)
                 | None \<Rightarrow>
                     (case gate_begin local_public_key nonce requester_public_key com now (flow_gate f) of
                        (Inl e, g) \<Rightarrow> (Inl (refusal_of_error e), set_gate g f)
                      | (Inr accept, g) \<Rightarrow>
                          (Inr accept,
                           \<lparr>pf_history = (pf_history f)\<lparr>ph_gate := g, ph_answered := answered @ [(now, peer_device_id)]\<rparr>,
                            pf_stage = AwaitingReveal session_id peer_device_id now\<rparr>))))"

definition flow_reveal ::
  "prims \<Rightarrow> u32 \<Rightarrow> bytes \<Rightarrow> nat \<Rightarrow> pairing_flow \<Rightarrow> (pairing_refusal + string) \<times> pairing_flow" where
  "flow_reveal P session_id nonce now f =
     (case pf_stage f of
        AwaitingReveal expected peer_device_id started \<Rightarrow>
          if expected \<noteq> session_id then (Inl RefusedNoPendingExchange, f)
          else
            (case gate_reveal P nonce now (flow_gate f) of
               (Inl e, g) \<Rightarrow> (Inl (refusal_of_error e), set_gate g (f\<lparr>pf_stage := StageIdle\<rparr>))
             | (Inr outcome, g) \<Rightarrow>
                 (Inr peer_device_id,
                  set_gate g (f\<lparr>pf_stage := AwaitingName session_id peer_device_id (po_peer_public_key outcome)
                    (po_digits outcome) started\<rparr>)))
      | _ \<Rightarrow> (Inl RefusedNoPendingExchange, f))"

definition flow_present ::
  "u32 \<Rightarrow> string \<Rightarrow> (string \<Rightarrow> bytes \<Rightarrow> string option) \<Rightarrow> nat \<Rightarrow> pairing_flow \<Rightarrow> bool \<times> pairing_flow" where
  "flow_present session_id peer_name replaced_name_of now f =
     (let f = snd (flow_expire now f) in
      case pf_stage f of
        AwaitingName expected peer_device_id peer_public_key code started \<Rightarrow>
          if expected = session_id
          then (True,
            \<lparr>pf_history = (pf_history f)\<lparr>ph_requests := ph_requests (pf_history f) @ [now]\<rparr>,
             pf_stage = StageDeciding
               \<lparr>pd_session_id = session_id, pd_peer_device_id = peer_device_id, pd_peer_name = peer_name,
                pd_peer_public_key = peer_public_key, pd_code = code,
                pd_replaces = replaced_name_of peer_device_id peer_public_key, pd_started = started\<rparr>\<rparr>)
          else (False, f)
      | _ \<Rightarrow> (False, f))"

definition flow_decide :: "u32 \<Rightarrow> bool \<Rightarrow> nat \<Rightarrow> pairing_flow \<Rightarrow> pending_decision option \<times> pairing_flow" where
  "flow_decide session_id trust now f =
     (let f = snd (flow_expire now f) in
      case pf_stage f of
        StageDeciding decision \<Rightarrow>
          if pd_session_id decision \<noteq> session_id then (None, f)
          else (Some decision,
            set_gate ((if trust then gate_confirm_digits else gate_reject_digits) (flow_gate f))
              (f\<lparr>pf_stage := StageIdle\<rparr>))
      | _ \<Rightarrow> (None, f))"

definition flow_dismiss :: "u32 \<Rightarrow> nat \<Rightarrow> pairing_flow \<Rightarrow> pending_decision option \<times> pairing_flow" where
  "flow_dismiss session_id now f =
     (let f = snd (flow_expire now f) in
      case pf_stage f of
        StageDeciding decision \<Rightarrow>
          if pd_session_id decision \<noteq> session_id then (None, f)
          else (Some decision, set_gate (gate_cancel_pending (flow_gate f)) (f\<lparr>pf_stage := StageIdle\<rparr>))
      | _ \<Rightarrow> (None, f))"

definition flow_session_gone :: "u32 \<Rightarrow> pairing_flow \<Rightarrow> bool \<times> pairing_flow" where
  "flow_session_gone session_id f =
     (if active_session f = Some session_id
      then (True, set_gate (gate_cancel_pending (flow_gate f)) (f\<lparr>pf_stage := StageIdle\<rparr>))
      else (False, f))"

definition flow_unlock :: "pairing_flow \<Rightarrow> u32 option \<times> pairing_flow" where
  "flow_unlock f = (active_session f, set_gate (gate_reset_lockout (flow_gate f)) (f\<lparr>pf_stage := StageIdle\<rparr>))"

section \<open>Runs\<close>

datatype flow_event =
    DoRequest u32 string bytes bytes bytes bytes nat
  | DoReveal u32 bytes nat
  | DoPresent u32 string "string \<Rightarrow> bytes \<Rightarrow> string option" nat
  | DoDecide u32 bool nat
  | DoDismiss u32 nat
  | DoExpire nat
  | DoSessionGone u32
  | DoUnlock
  | DoRestart

datatype flow_answer =
    Answered "pairing_refusal + pairing_message"
  | Revealed "pairing_refusal + string"
  | Presented bool
  | Decided "pending_decision option"
  | Freed "u32 option"
  | Gone bool
  | Restarted

fun do_event :: "prims \<Rightarrow> flow_event \<Rightarrow> pairing_flow \<Rightarrow> flow_answer \<times> pairing_flow" where
  "do_event P (DoRequest s d k n rk c now) f = map_prod Answered id (flow_request s d k n rk c now f)"
| "do_event P (DoReveal s n now) f = map_prod Revealed id (flow_reveal P s n now f)"
| "do_event P (DoPresent s name r now) f = map_prod Presented id (flow_present s name r now f)"
| "do_event P (DoDecide s trust now) f = map_prod Decided id (flow_decide s trust now f)"
| "do_event P (DoDismiss s now) f = map_prod Decided id (flow_dismiss s now f)"
| "do_event P (DoExpire now) f = map_prod Freed id (flow_expire now f)"
| "do_event P (DoSessionGone s) f = map_prod Gone id (flow_session_gone s f)"
| "do_event P DoUnlock f = map_prod Freed id (flow_unlock f)"
| "do_event P DoRestart f = (Restarted, flow_resume (into_history f))"

text \<open>A run is the list of what was done and answered, oldest first, as a step relation over it and
  the clock, which never goes back.\<close>

type_synonym flow_trace = "(flow_event \<times> flow_answer) list"

fun event_time :: "flow_event \<Rightarrow> nat option" where
  "event_time (DoRequest s d k n rk c now) = Some now"
| "event_time (DoReveal s n now) = Some now"
| "event_time (DoPresent s name r now) = Some now"
| "event_time (DoDecide s trust now) = Some now"
| "event_time (DoDismiss s now) = Some now"
| "event_time (DoExpire now) = Some now"
| "event_time e = None"

inductive flow_run :: "prims \<Rightarrow> flow_trace \<Rightarrow> nat \<Rightarrow> pairing_flow \<Rightarrow> bool" for P where
  start: "flow_run P [] t new_flow"
| step: "flow_run P tr t f \<Longrightarrow> event_time e = None \<or> event_time e = Some t' \<Longrightarrow> t \<le> t' \<Longrightarrow>
    do_event P e f = (a, f') \<Longrightarrow> flow_run P (tr @ [(e, a)]) t' f'"

section \<open>The gate and the stage agree\<close>

lemma map_prod_answer [simp]: "map_prod c id x = (a, f') \<longleftrightarrow> (\<exists>r. x = (r, f') \<and> a = c r)"
  by (cases x) auto

lemma gate_locked_iff: "gate_locked_out g \<longleftrightarrow> 3 \<le> unat (pg_failed_attempts g)"
  by (simp add: gate_locked_out_def MAX_FAILED_PAIRING_ATTEMPTS_def word_le_nat_alt)

lemma unat_bump: "unat (x :: u32) < 3 \<Longrightarrow> unat (x + 1) = Suc (unat x)"
  by (simp add: unat_word_ariths)

fun stage_agrees :: "stage \<Rightarrow> pairing_gate \<Rightarrow> bool" where
  "stage_agrees StageIdle g \<longleftrightarrow> pg_pending g = None \<and> pg_deciding_until g = None"
| "stage_agrees (AwaitingReveal s d started) g \<longleftrightarrow>
     \<not> gate_locked_out g \<and> pg_deciding_until g = None \<and>
     (\<exists>a. pg_pending g = Some a \<and> ac_deadline a = started + PAIRING_EXPIRY)"
| "stage_agrees (AwaitingName s d k c started) g \<longleftrightarrow>
     \<not> gate_locked_out g \<and> pg_pending g = None \<and> pg_deciding_until g = Some (started + PAIRING_EXPIRY)"
| "stage_agrees (StageDeciding d) g \<longleftrightarrow>
     \<not> gate_locked_out g \<and> pg_pending g = None \<and> pg_deciding_until g = Some (pd_started d + PAIRING_EXPIRY)"

definition flow_ok :: "pairing_flow \<Rightarrow> bool" where
  "flow_ok f \<longleftrightarrow> unat (pg_failed_attempts (flow_gate f)) \<le> 3 \<and> stage_agrees (pf_stage f) (flow_gate f)"

lemma set_gate_simps [simp]:
  "flow_gate (set_gate g f) = g" "pf_stage (set_gate g f) = pf_stage f"
  "ph_requests (pf_history (set_gate g f)) = ph_requests (pf_history f)"
  "ph_answered (pf_history (set_gate g f)) = ph_answered (pf_history f)"
  by (simp_all add: set_gate_def)

lemma cancel_simps [simp]:
  "pg_pending (gate_cancel_pending g) = None" "pg_deciding_until (gate_cancel_pending g) = None"
  "pg_failed_attempts (gate_cancel_pending g) = pg_failed_attempts g"
  "gate_locked_out (gate_cancel_pending g) = gate_locked_out g"
  by (simp_all add: gate_cancel_pending_def gate_locked_out_def)

text \<open>Expiring either does nothing, or it drops the exchange, whose time is over.\<close>

lemma flow_expire_effect:
  assumes "flow_expire now f = (r, f')"
  shows "f' = f \<or>
    (pf_stage f \<noteq> StageIdle \<and> f' = set_gate (gate_cancel_pending (flow_gate f)) (f\<lparr>pf_stage := StageIdle\<rparr>))"
  using assms by (auto simp: flow_expire_def flow_started_def split: option.splits if_splits stage.splits)

lemma expire_keeps:
  assumes "flow_ok f"
  shows "flow_ok (snd (flow_expire now f))"
    "pg_failed_attempts (flow_gate (snd (flow_expire now f))) = pg_failed_attempts (flow_gate f)"
    "ph_requests (pf_history (snd (flow_expire now f))) = ph_requests (pf_history f)"
    "ph_answered (pf_history (snd (flow_expire now f))) = ph_answered (pf_history f)"
    "pf_stage (snd (flow_expire now f)) = StageIdle \<or> snd (flow_expire now f) = f"
proof -
  obtain r f' where e: "flow_expire now f = (r, f')" by force
  from flow_expire_effect [OF e] assms
  show "flow_ok (snd (flow_expire now f))"
    "pg_failed_attempts (flow_gate (snd (flow_expire now f))) = pg_failed_attempts (flow_gate f)"
    "ph_requests (pf_history (snd (flow_expire now f))) = ph_requests (pf_history f)"
    "ph_answered (pf_history (snd (flow_expire now f))) = ph_answered (pf_history f)"
    "pf_stage (snd (flow_expire now f)) = StageIdle \<or> snd (flow_expire now f) = f"
    by (auto simp: e flow_ok_def)
qed

lemma answer_wait_None:
  assumes "answer_wait d now answered = None"
  shows "length answered < 12 \<and> length (filter (\<lambda>x. snd x = d) answered) < 3"
proof -
  have "filter (\<lambda>x. snd x = d) answered = filter (\<lambda>(_, device_id). device_id = d) answered"
    by (rule filter_cong) auto
  with assms show ?thesis
    by (auto simp: answer_wait_def Let_def MAX_ANSWERED_REQUESTS_PER_HOUR_def
        MAX_ANSWERED_REQUESTS_PER_DEVICE_PER_HOUR_def split: if_splits list.splits prod.splits)
qed

lemma flow_request_effect:
  assumes "flow_request s d k n rk com now f = (r, f')"
  defines "f1 \<equiv> snd (flow_expire now f)"
  defines "asked \<equiv> dropWhile (\<lambda>at. \<not> in_window now at) (ph_requests (pf_history f1))"
  defines "answered \<equiv> dropWhile (\<lambda>x. \<not> in_window now (fst x)) (ph_answered (pf_history f1))"
  shows "(isl r \<and> pf_stage f' = pf_stage f1 \<and> flow_gate f' = flow_gate f1 \<and>
      ph_requests (pf_history f') \<in> {ph_requests (pf_history f1), asked} \<and>
      ph_answered (pf_history f') \<in> {ph_answered (pf_history f1), answered}) \<or>
    (\<exists>a. r = Inr (PairAccept k n) \<and> pf_stage f1 = StageIdle \<and> \<not> gate_locked_out (flow_gate f1) \<and>
      length asked < 3 \<and> answer_wait d now answered = None \<and>
      receive_request k n rk com now = Inr (a, PairAccept k n) \<and>
      flow_gate f' = (flow_gate f1)\<lparr>pg_pending := Some a, pg_deciding_until := None\<rparr> \<and>
      ph_requests (pf_history f') = asked \<and> ph_answered (pf_history f') = answered @ [(now, d)] \<and>
      pf_stage f' = AwaitingReveal s d now)"
proof -
  have fst: "(\<lambda>(answered_at, _). \<not> in_window now answered_at) = (\<lambda>x :: nat \<times> string. \<not> in_window now (fst x))"
    by auto
  show ?thesis
    using assms(1) unfolding flow_request_def Let_def fst f1_def [symmetric]
    by (auto simp: asked_def answered_def set_gate_def MAX_PAIRING_REQUESTS_PER_HOUR_def not_le
        split: if_splits option.splits prod.splits sum.splits dest!: gate_begin_effect)
qed

lemma flow_request_ok:
  assumes "flow_ok f" "flow_request s d k n rk com now f = (r, f')"
  shows "flow_ok f'"
  using flow_request_effect [OF assms(2)] expire_keeps(1) [OF assms(1), of now]
  by (auto simp: flow_ok_def gate_locked_iff receive_request_Inr)

lemma flow_reveal_effect:
  assumes "flow_ok f" "flow_reveal P s n now f = (r, f')"
  shows "(r = Inl RefusedNoPendingExchange \<and> f' = f) \<or>
    (\<exists>d started a. pf_stage f = AwaitingReveal s d started \<and> pg_pending (flow_gate f) = Some a \<and>
      ac_deadline a = started + PAIRING_EXPIRY \<and> pg_pending (flow_gate f') = None \<and>
      ph_requests (pf_history f') = ph_requests (pf_history f) \<and> ph_answered (pf_history f') = ph_answered (pf_history f) \<and>
      ((\<exists>e. receive_reveal P a n now = Inl e \<and> r = Inl (refusal_of_error e) \<and> pf_stage f' = StageIdle \<and> pg_deciding_until (flow_gate f') = None \<and>
           unat (pg_failed_attempts (flow_gate f')) =
             unat (pg_failed_attempts (flow_gate f)) + (if e = PairCommitmentMismatch then 1 else 0)) \<or>
       (\<exists>out. receive_reveal P a n now = Inr out \<and> r = Inr d \<and> pg_deciding_until (flow_gate f') = Some (ac_deadline a) \<and>
           pg_failed_attempts (flow_gate f') = pg_failed_attempts (flow_gate f) \<and>
           pf_stage f' = AwaitingName s d (po_peer_public_key out) (po_digits out) started)))"
proof (cases "\<exists>d started. pf_stage f = AwaitingReveal s d started")
  case True
  then obtain d started where st: "pf_stage f = AwaitingReveal s d started" by blast
  with assms(1) obtain a where a: "pg_pending (flow_gate f) = Some a" "ac_deadline a = started + PAIRING_EXPIRY"
    "\<not> gate_locked_out (flow_gate f)" "pg_deciding_until (flow_gate f) = None"
    by (auto simp: flow_ok_def)
  obtain r1 g where g: "gate_reveal P n now (flow_gate f) = (r1, g)" by force
  note e = gate_reveal_effect [OF g a(1,3)]
  from a(3) have "unat (pg_failed_attempts (flow_gate f) + 1) = Suc (unat (pg_failed_attempts (flow_gate f)))"
    by (simp add: gate_locked_iff unat_bump)
  with st a e g assms(2) show ?thesis
    by (cases "receive_reveal P a n now") (auto simp: flow_reveal_def)
next
  case False
  with assms(2) show ?thesis by (auto simp: flow_reveal_def split: stage.splits if_splits)
qed

lemma flow_reveal_ok:
  assumes "flow_ok f" "flow_reveal P s n now f = (r, f')"
  shows "flow_ok f'"
  using flow_reveal_effect [OF assms] assms(1)
  by (auto simp: flow_ok_def gate_locked_iff)

lemma flow_present_effect:
  assumes "flow_present s name rep now f = (b, f')"
  defines "f1 \<equiv> snd (flow_expire now f)"
  shows "(\<not> b \<and> f' = f1) \<or>
    (b \<and> (\<exists>d k c started. pf_stage f1 = AwaitingName s d k c started \<and> flow_gate f' = flow_gate f1 \<and>
      ph_requests (pf_history f') = ph_requests (pf_history f1) @ [now] \<and>
      ph_answered (pf_history f') = ph_answered (pf_history f1) \<and>
      pf_stage f' = StageDeciding \<lparr>pd_session_id = s, pd_peer_device_id = d, pd_peer_name = name,
        pd_peer_public_key = k, pd_code = c, pd_replaces = rep d k, pd_started = started\<rparr>))"
  using assms(1) unfolding flow_present_def Let_def f1_def [symmetric] by (auto split: stage.splits if_splits)

lemma flow_present_ok:
  assumes "flow_ok f" "flow_present s name rep now f = (b, f')"
  shows "flow_ok f'"
  using flow_present_effect [OF assms(2)] expire_keeps(1) [OF assms(1), of now]
  by (auto simp: flow_ok_def)

lemma flow_decide_effect:
  assumes "flow_decide s trust now f = (r, f')"
  defines "f1 \<equiv> snd (flow_expire now f)"
  shows "(r = None \<and> f' = f1) \<or>
    (\<exists>d. r = Some d \<and> pf_stage f1 = StageDeciding d \<and> pd_session_id d = s \<and>
      f' = set_gate ((if trust then gate_confirm_digits else gate_reject_digits) (flow_gate f1)) (f1\<lparr>pf_stage := StageIdle\<rparr>))"
  using assms(1) unfolding flow_decide_def Let_def f1_def [symmetric] by (auto split: stage.splits if_splits)

lemma flow_dismiss_effect:
  assumes "flow_dismiss s now f = (r, f')"
  defines "f1 \<equiv> snd (flow_expire now f)"
  shows "(r = None \<and> f' = f1) \<or>
    (\<exists>d. r = Some d \<and> pf_stage f1 = StageDeciding d \<and> pd_session_id d = s \<and>
      f' = set_gate (gate_cancel_pending (flow_gate f1)) (f1\<lparr>pf_stage := StageIdle\<rparr>))"
  using assms(1) unfolding flow_dismiss_def Let_def f1_def [symmetric] by (auto split: stage.splits if_splits)

lemma flow_decide_ok:
  assumes "flow_ok f" "flow_decide s trust now f = (r, f')"
  shows "flow_ok f'"
  using flow_decide_effect [OF assms(2)] expire_keeps(1) [OF assms(1), of now]
  by (auto simp: flow_ok_def gate_confirm_digits_def gate_reject_digits_def gate_locked_iff unat_bump)

lemma flow_dismiss_ok:
  assumes "flow_ok f" "flow_dismiss s now f = (r, f')"
  shows "flow_ok f'"
  using flow_dismiss_effect [OF assms(2)] expire_keeps(1) [OF assms(1), of now]
  by (auto simp: flow_ok_def)

lemma do_event_ok:
  assumes "flow_ok f" "do_event P e f = (a, f')"
  shows "flow_ok f'"
proof (cases e)
  case (DoExpire now)
  with assms expire_keeps(1) [OF assms(1), of now] show ?thesis by (cases "flow_expire now f") simp
next
  case (DoSessionGone s)
  with assms show ?thesis by (auto simp: flow_session_gone_def flow_ok_def split: if_splits)
next
  case DoUnlock
  with assms show ?thesis by (auto simp: flow_unlock_def flow_ok_def gate_reset_lockout_def)
next
  case DoRestart
  with assms show ?thesis by (auto simp: flow_resume_def into_history_def flow_ok_def)
qed (use assms in \<open>auto dest: flow_request_ok flow_reveal_ok flow_present_ok flow_decide_ok flow_dismiss_ok\<close>)

lemma new_flow_ok [simp]: "flow_ok new_flow"
  by (simp add: flow_ok_def new_flow_def new_history_def new_gate_def)

lemma flow_run_ok: "flow_run P tr t f \<Longrightarrow> flow_ok f"
  by (induction rule: flow_run.induct) (auto dest: do_event_ok)

section \<open>The lockout\<close>

text \<open>What the relay gains from an event: an answer, digits, a question on screen, a decision.\<close>

fun grants :: "flow_answer \<Rightarrow> bool" where
  "grants (Answered r) = (\<not> isl r)"
| "grants (Revealed r) = (\<not> isl r)"
| "grants (Presented b) = b"
| "grants (Decided d) = (d \<noteq> None)"
| "grants a = False"

text \<open>Failures in a row: a reveal that does not match its commitment, or digits said to differ.\<close>

fun fail_count :: "nat \<Rightarrow> flow_event \<times> flow_answer \<Rightarrow> nat" where
  "fail_count n (e, a) =
     (case e of
        DoReveal s x now \<Rightarrow> if a = Revealed (Inl RefusedCommitmentMismatch) then Suc n else n
      | DoDecide s trust now \<Rightarrow> if a = Decided None then n else if trust then 0 else Suc n
      | DoUnlock \<Rightarrow> 0
      | _ \<Rightarrow> n)"

definition failures_in_a_row :: "flow_trace \<Rightarrow> nat" where
  "failures_in_a_row tr = foldl fail_count 0 tr"

fun do_events :: "prims \<Rightarrow> flow_event list \<Rightarrow> pairing_flow \<Rightarrow> flow_answer list \<times> pairing_flow" where
  "do_events P [] f = ([], f)"
| "do_events P (e # es) f =
     (case do_event P e f of (a, f1) \<Rightarrow> (case do_events P es f1 of (as, f2) \<Rightarrow> (a # as, f2)))"

lemma locked_idle: "flow_ok f \<Longrightarrow> flow_locked_out f \<Longrightarrow> pf_stage f = StageIdle"
  by (cases "pf_stage f") (auto simp: flow_ok_def flow_locked_out_def)

lemma expire_idle [simp]: "pf_stage f = StageIdle \<Longrightarrow> flow_expire now f = (None, f)"
  by (simp add: flow_expire_def flow_started_def)

lemma locked_event:
  assumes "flow_ok f" "flow_locked_out f" "e \<noteq> DoUnlock" "do_event P e f = (a, f')"
  shows "flow_locked_out f' \<and> \<not> grants a"
  using locked_idle [OF assms(1,2)] assms(2-4)
  by (cases e) (auto simp: flow_request_def flow_reveal_def flow_present_def flow_decide_def flow_dismiss_def
      flow_session_gone_def active_session_def flow_locked_out_def flow_resume_def into_history_def)

lemma locked_events:
  "flow_ok f \<Longrightarrow> flow_locked_out f \<Longrightarrow> DoUnlock \<notin> set es \<Longrightarrow> do_events P es f = (as, f') \<Longrightarrow>
     flow_locked_out f' \<and> (\<forall>a \<in> set as. \<not> grants a)"
proof (induction es arbitrary: f f' as)
  case (Cons e es)
  obtain a f1 where e: "do_event P e f = (a, f1)" by force
  obtain bs f2 where es: "do_events P es f1 = (bs, f2)" by force
  have l: "flow_locked_out f1 \<and> \<not> grants a" using locked_event [OF Cons.prems(1,2) _ e] Cons.prems(3) by auto
  show ?case using Cons.prems(3,4) Cons.IH [OF do_event_ok [OF Cons.prems(1) e] _ _ es] l e es by auto
qed simp

lemma refusal_mismatch: "refusal_of_error e = RefusedCommitmentMismatch \<longleftrightarrow> e = PairCommitmentMismatch"
  by (cases e) simp_all

lemma do_event_failures:
  assumes "flow_ok f" "do_event P e f = (a, f')"
  shows "unat (pg_failed_attempts (flow_gate f')) = fail_count (unat (pg_failed_attempts (flow_gate f))) (e, a)"
proof (cases e)
  case (DoRequest s d k n rk c now)
  with assms obtain r where "flow_request s d k n rk c now f = (r, f')" "a = Answered r" by auto
  with flow_request_effect [OF this(1)] DoRequest expire_keeps(2) [OF assms(1), of now] show ?thesis by auto
next
  case (DoReveal s n now)
  with assms obtain r where r: "flow_reveal P s n now f = (r, f')" "a = Revealed r" by auto
  with flow_reveal_effect [OF assms(1) r(1)] DoReveal r(2) show ?thesis
    by (auto simp: refusal_mismatch split: if_splits)
next
  case (DoPresent s name rep now)
  with assms obtain b where "flow_present s name rep now f = (b, f')" "a = Presented b" by auto
  with flow_present_effect [OF this(1)] DoPresent expire_keeps(2) [OF assms(1), of now] show ?thesis by auto
next
  case (DoDecide s trust now)
  with assms obtain r where "flow_decide s trust now f = (r, f')" "a = Decided r" by auto
  with flow_decide_effect [OF this(1)] DoDecide expire_keeps(1,2) [OF assms(1), of now] show ?thesis
    by (auto simp: gate_confirm_digits_def gate_reject_digits_def flow_ok_def gate_locked_iff unat_bump)
next
  case (DoDismiss s now)
  with assms obtain r where "flow_dismiss s now f = (r, f')" "a = Decided r" by auto
  with flow_dismiss_effect [OF this(1)] DoDismiss expire_keeps(2) [OF assms(1), of now] show ?thesis by auto
next
  case (DoExpire now)
  with assms(2) expire_keeps(2) [OF assms(1), of now] show ?thesis by (cases "flow_expire now f") auto
qed (use assms in \<open>auto simp: flow_session_gone_def flow_unlock_def gate_reset_lockout_def flow_resume_def into_history_def
      split: if_splits\<close>)

lemma flow_run_failures: "flow_run P tr t f \<Longrightarrow> unat (pg_failed_attempts (flow_gate f)) = failures_in_a_row tr"
proof (induction rule: flow_run.induct)
  case (start t)
  then show ?case by (simp add: new_flow_def new_history_def new_gate_def failures_in_a_row_def)
next
  case (step tr t f e t' a f')
  from do_event_failures [OF flow_run_ok [OF step.hyps(1)] step.hyps(4)] step.IH
  show ?case by (simp add: failures_in_a_row_def)
qed

section \<open>Hourly allowances\<close>

text \<open>A log of times of which only a recent part is kept: what was let go is older than the window.
  While fewer than \<open>limit\<close> are kept, one more may be added, and no \<open>limit + 1\<close> in a row then fall
  within a window.\<close>

definition trails :: "('a \<Rightarrow> nat) \<Rightarrow> nat \<Rightarrow> nat \<Rightarrow> 'a list \<Rightarrow> 'a list \<Rightarrow> bool" where
  "trails at width now log recent \<longleftrightarrow> (\<exists>old. log = old @ recent \<and> (\<forall>x \<in> set old. at x + width \<le> now))"

definition spaced :: "('a \<Rightarrow> nat) \<Rightarrow> nat \<Rightarrow> nat \<Rightarrow> 'a list \<Rightarrow> bool" where
  "spaced at limit width log \<longleftrightarrow> (\<forall>i. i + limit < length log \<longrightarrow> at (log ! i) + width \<le> at (log ! (i + limit)))"

locale allowance =
  fixes at :: "'a \<Rightarrow> nat"
    and limit :: nat
    and width :: nat
  assumes limit_pos: "0 < limit"
    and width_pos: "0 < width"
begin

lemma trails_later: "trails at width now log recent \<Longrightarrow> now \<le> now' \<Longrightarrow> trails at width now' log recent"
  unfolding trails_def by (elim exE conjE) (intro exI conjI ballI, assumption, force)

lemma trails_prune:
  assumes "trails at width now log recent" "now \<le> now'"
  shows "trails at width now' log (dropWhile (\<lambda>x. \<not> now' - at x < width) recent)"
proof -
  from trails_later [OF assms] obtain old where old: "log = old @ recent" "\<forall>x \<in> set old. at x + width \<le> now'"
    unfolding trails_def by blast
  let ?go = "takeWhile (\<lambda>x. \<not> now' - at x < width) recent"
  have "\<forall>x \<in> set ?go. at x + width \<le> now'" using width_pos by (auto dest!: set_takeWhileD)
  with old show ?thesis unfolding trails_def
    by (intro exI [of _ "old @ ?go"]) (auto simp: takeWhile_dropWhile_id)
qed

lemma trails_add: "trails at width now log recent \<Longrightarrow> trails at width now (log @ [x]) (recent @ [x])"
  unfolding trails_def by auto

lemma spaced_add:
  assumes "spaced at limit width log" "trails at width now log recent" "length recent < limit" "now \<le> at x"
  shows "spaced at limit width (log @ [x])"
  unfolding spaced_def
proof (intro allI impI)
  fix i
  assume i: "i + limit < length (log @ [x])"
  show "at ((log @ [x]) ! i) + width \<le> at ((log @ [x]) ! (i + limit))"
  proof (cases "i + limit < length log")
    case True
    with assms(1) show ?thesis by (simp add: spaced_def nth_append)
  next
    case False
    with i have len: "i + limit = length log" by simp
    from assms(2) obtain old where old: "log = old @ recent" "\<forall>y \<in> set old. at y + width \<le> now"
      unfolding trails_def by blast
    with len assms(3) have "i < length old" by simp
    then have "at (log ! i) + width \<le> now" using old by (simp add: nth_append)
    moreover have "i < length log" using \<open>i < length old\<close> old(1) by simp
    ultimately show ?thesis using len assms(4) by (simp add: nth_append)
  qed
qed

end

interpretation question_allowance: allowance "\<lambda>t. t" MAX_PAIRING_REQUESTS_PER_HOUR REQUEST_WINDOW
  by unfold_locales (simp_all add: MAX_PAIRING_REQUESTS_PER_HOUR_def REQUEST_WINDOW_def seconds_def)

interpretation answer_allowance: allowance fst MAX_ANSWERED_REQUESTS_PER_HOUR REQUEST_WINDOW
  by unfold_locales (simp_all add: MAX_ANSWERED_REQUESTS_PER_HOUR_def REQUEST_WINDOW_def seconds_def)

interpretation device_allowance: allowance fst MAX_ANSWERED_REQUESTS_PER_DEVICE_PER_HOUR REQUEST_WINDOW
  by unfold_locales (simp_all add: MAX_ANSWERED_REQUESTS_PER_DEVICE_PER_HOUR_def REQUEST_WINDOW_def seconds_def)

lemma trails_filter: "trails at width now log recent \<Longrightarrow> trails at width now (filter p log) (filter p recent)"
  unfolding trails_def by (force intro: exI [of _ "filter p _"])

text \<open>When a question was put on screen, and when a request was answered for which device.\<close>

fun question_of :: "flow_event \<times> flow_answer \<Rightarrow> nat list" where
  "question_of (e, a) =
     (case e of DoPresent s name rep now \<Rightarrow> if grants a then [now] else [] | _ \<Rightarrow> [])"

fun answer_of :: "flow_event \<times> flow_answer \<Rightarrow> (nat \<times> string) list" where
  "answer_of (e, a) =
     (case e of DoRequest s d k n rk c now \<Rightarrow> if grants a then [(now, d)] else [] | _ \<Rightarrow> [])"

definition questions :: "flow_trace \<Rightarrow> nat list" where
  "questions tr = concat (map question_of tr)"

definition answers :: "flow_trace \<Rightarrow> (nat \<times> string) list" where
  "answers tr = concat (map answer_of tr)"

definition history_ok :: "flow_trace \<Rightarrow> nat \<Rightarrow> pairing_flow \<Rightarrow> bool" where
  "history_ok tr t f \<longleftrightarrow>
     trails (\<lambda>t. t) REQUEST_WINDOW t (questions tr) (ph_requests (pf_history f)) \<and>
     trails fst REQUEST_WINDOW t (answers tr) (ph_answered (pf_history f)) \<and>
     spaced (\<lambda>t. t) MAX_PAIRING_REQUESTS_PER_HOUR REQUEST_WINDOW (questions tr) \<and>
     spaced fst MAX_ANSWERED_REQUESTS_PER_HOUR REQUEST_WINDOW (answers tr) \<and>
     (\<forall>d. spaced fst MAX_ANSWERED_REQUESTS_PER_DEVICE_PER_HOUR REQUEST_WINDOW (filter (\<lambda>x. snd x = d) (answers tr))) \<and>
     (case pf_stage f of
        AwaitingReveal s d st \<Rightarrow> length (ph_requests (pf_history f)) < MAX_PAIRING_REQUESTS_PER_HOUR
      | AwaitingName s d k c st \<Rightarrow> length (ph_requests (pf_history f)) < MAX_PAIRING_REQUESTS_PER_HOUR
      | _ \<Rightarrow> True)"

lemma logs_snoc [simp]:
  "questions (tr @ [x]) = questions tr @ question_of x" "answers (tr @ [x]) = answers tr @ answer_of x"
  by (simp_all add: questions_def answers_def)

text \<open>An event that adds nothing to either log keeps the history, if it only prunes.\<close>

lemma history_kept:
  assumes "history_ok tr t f" "t \<le> t'" "question_of x = []" "answer_of x = []"
    "ph_requests (pf_history f') \<in> {ph_requests (pf_history f),
       dropWhile (\<lambda>at. \<not> in_window t' at) (ph_requests (pf_history f))}"
    "ph_answered (pf_history f') \<in> {ph_answered (pf_history f),
       dropWhile (\<lambda>x. \<not> in_window t' (fst x)) (ph_answered (pf_history f))}"
    "pf_stage f' = StageIdle \<or> (\<exists>d. pf_stage f' = StageDeciding d) \<or>
       (pf_stage f \<notin> {StageIdle} \<union> range StageDeciding \<and>
         length (ph_requests (pf_history f')) \<le> length (ph_requests (pf_history f)))"
  shows "history_ok (tr @ [x]) t' f'"
proof -
  from assms(1) have q: "trails (\<lambda>t. t) REQUEST_WINDOW t (questions tr) (ph_requests (pf_history f))"
    and a: "trails fst REQUEST_WINDOW t (answers tr) (ph_answered (pf_history f))"
    unfolding history_ok_def by simp_all
  have "trails (\<lambda>t. t) REQUEST_WINDOW t' (questions tr) (ph_requests (pf_history f'))"
    using question_allowance.trails_later [OF q assms(2)] question_allowance.trails_prune [OF q assms(2)] assms(5)
    by (auto simp: in_window_def)
  moreover have "trails fst REQUEST_WINDOW t' (answers tr) (ph_answered (pf_history f'))"
    using answer_allowance.trails_later [OF a assms(2)] answer_allowance.trails_prune [OF a assms(2)] assms(6)
    by (auto simp: in_window_def)
  moreover have "case pf_stage f' of
        AwaitingReveal s d st \<Rightarrow> length (ph_requests (pf_history f')) < MAX_PAIRING_REQUESTS_PER_HOUR
      | AwaitingName s d k c st \<Rightarrow> length (ph_requests (pf_history f')) < MAX_PAIRING_REQUESTS_PER_HOUR
      | _ \<Rightarrow> True"
    using assms(1,7) unfolding history_ok_def by (cases "pf_stage f") (auto split: stage.splits)
  ultimately show ?thesis using assms(1,3,4) unfolding history_ok_def logs_snoc by simp
qed

lemma history_answered:
  assumes "history_ok tr t f" "t \<le> now" "answer_of x = [(now, d)]" "question_of x = []"
    "ph_requests (pf_history f') = dropWhile (\<lambda>at. \<not> in_window now at) (ph_requests (pf_history f))"
    "ph_answered (pf_history f') = answered @ [(now, d)]"
    "answered = dropWhile (\<lambda>x. \<not> in_window now (fst x)) (ph_answered (pf_history f))"
    "length (ph_requests (pf_history f')) < 3" "answer_wait d now answered = None"
  shows "history_ok (tr @ [x]) now f'"
proof -
  note h = assms(1) [unfolded history_ok_def]
  have q: "trails (\<lambda>t. t) REQUEST_WINDOW now (questions tr) (ph_requests (pf_history f'))"
    using h assms(2,5) question_allowance.trails_prune unfolding in_window_def by auto
  have a: "trails fst REQUEST_WINDOW now (answers tr) answered"
    using h assms(2,7) answer_allowance.trails_prune unfolding in_window_def by auto
  note len = answer_wait_None [OF assms(9)]
  have all: "spaced fst MAX_ANSWERED_REQUESTS_PER_HOUR REQUEST_WINDOW (answers tr @ [(now, d)])"
    using answer_allowance.spaced_add [OF _ a] h len by (simp add: MAX_ANSWERED_REQUESTS_PER_HOUR_def)
  have "spaced fst MAX_ANSWERED_REQUESTS_PER_DEVICE_PER_HOUR REQUEST_WINDOW
      (filter (\<lambda>x. snd x = d') (answers tr @ [(now, d)]))" for d'
    using device_allowance.spaced_add [OF _ trails_filter [OF a, of "\<lambda>x. snd x = d"], of "(now, d)"] h len
    by (cases "d' = d") (simp_all add: MAX_ANSWERED_REQUESTS_PER_DEVICE_PER_HOUR_def)
  with q answer_allowance.trails_add [OF a, of "(now, d)"] all h assms(3-8) show ?thesis
    unfolding history_ok_def logs_snoc by (simp add: MAX_PAIRING_REQUESTS_PER_HOUR_def split: stage.split)
qed

lemma history_asked:
  assumes "history_ok tr t f" "t \<le> now" "answer_of x = []" "question_of x = [now]"
    "ph_requests (pf_history f') = ph_requests (pf_history f) @ [now]"
    "ph_answered (pf_history f') = ph_answered (pf_history f)"
    "pf_stage f = AwaitingName s d k c st" "pf_stage f' = StageDeciding dec"
  shows "history_ok (tr @ [x]) now f'"
proof -
  note h = assms(1) [unfolded history_ok_def]
  have q: "trails (\<lambda>t. t) REQUEST_WINDOW now (questions tr) (ph_requests (pf_history f))"
    using h assms(2) question_allowance.trails_later by blast
  have a: "trails fst REQUEST_WINDOW now (answers tr) (ph_answered (pf_history f))"
    using h assms(2) answer_allowance.trails_later by blast
  have "spaced (\<lambda>t. t) MAX_PAIRING_REQUESTS_PER_HOUR REQUEST_WINDOW (questions tr @ [now])"
    using question_allowance.spaced_add [OF _ q] h assms(7) by simp
  with question_allowance.trails_add [OF q, of now] a h assms(3-8) show ?thesis
    unfolding history_ok_def logs_snoc by simp
qed

lemma history_expire:
  assumes "flow_ok f" "history_ok tr t f"
  shows "history_ok tr t (snd (flow_expire now f))"
  using expire_keeps(5) [OF assms(1), of now]
proof
  assume "pf_stage (snd (flow_expire now f)) = StageIdle"
  with assms(2) expire_keeps(3,4) [OF assms(1), of now] show ?thesis by (simp add: history_ok_def)
qed (use assms(2) in simp)

lemma do_event_history:
  assumes "flow_ok f" "history_ok tr t f" "do_event P e f = (a, f')" "t \<le> t'"
    "event_time e = None \<or> event_time e = Some t'"
  shows "history_ok (tr @ [(e, a)]) t' f'"
proof (cases e)
  case (DoRequest s d k n rk c now)
  with assms obtain r where r: "flow_request s d k n rk c now f = (r, f')" "a = Answered r" "now = t'" by auto
  note h = history_expire [OF assms(1,2), of now]
  note eff = flow_request_effect [OF r(1)]
  show ?thesis
  proof (cases r)
    case (Inl x)
    with eff show ?thesis
      by (intro history_kept [OF h assms(4)]) (auto simp: DoRequest r length_dropWhile_le)
  next
    case (Inr m)
    with eff show ?thesis
      unfolding r(3) by (intro history_answered [OF h [unfolded r(3)] assms(4)]) (auto simp: DoRequest r)
  qed
next
  case (DoReveal s n now)
  with assms obtain r where r: "flow_reveal P s n now f = (r, f')" "a = Revealed r" "now = t'" by auto
  from flow_reveal_effect [OF assms(1) r(1)] show ?thesis
    by (intro history_kept [OF assms(2,4)]) (auto simp: DoReveal r)
next
  case (DoPresent s name rep now)
  with assms obtain b where b: "flow_present s name rep now f = (b, f')" "a = Presented b" "now = t'" by auto
  note h = history_expire [OF assms(1,2), of now]
  from flow_present_effect [OF b(1)] show ?thesis
  proof (elim disjE conjE exE)
    assume "\<not> b" "f' = snd (flow_expire now f)"
    then show ?thesis by (intro history_kept [OF h assms(4)]) (auto simp: DoPresent b)
  next
    fix d k c started
    assume "b" "pf_stage (snd (flow_expire now f)) = AwaitingName s d k c started"
      "ph_requests (pf_history f') = ph_requests (pf_history (snd (flow_expire now f))) @ [now]"
      "ph_answered (pf_history f') = ph_answered (pf_history (snd (flow_expire now f)))"
      "pf_stage f' = StageDeciding \<lparr>pd_session_id = s, pd_peer_device_id = d, pd_peer_name = name,
        pd_peer_public_key = k, pd_code = c, pd_replaces = rep d k, pd_started = started\<rparr>"
    then show ?thesis
      unfolding b(3) by (intro history_asked [OF h [unfolded b(3)] assms(4)]) (auto simp: DoPresent b)
  qed
next
  case (DoDecide s trust now)
  with assms obtain r where r: "flow_decide s trust now f = (r, f')" "a = Decided r" by auto
  from flow_decide_effect [OF r(1)] show ?thesis
    by (intro history_kept [OF history_expire [OF assms(1,2), of now] assms(4)]) (auto simp: DoDecide r)
next
  case (DoDismiss s now)
  with assms obtain r where r: "flow_dismiss s now f = (r, f')" "a = Decided r" by auto
  from flow_dismiss_effect [OF r(1)] show ?thesis
    by (intro history_kept [OF history_expire [OF assms(1,2), of now] assms(4)]) (auto simp: DoDismiss r)
next
  case (DoExpire now)
  with assms obtain r where "flow_expire now f = (r, f')" "a = Freed r" by auto
  then show ?thesis
    by (intro history_kept [OF history_expire [OF assms(1,2), of now] assms(4)]) (auto simp: DoExpire)
next
  case (DoSessionGone s)
  with assms show ?thesis
    by (intro history_kept [OF assms(2,4)]) (auto simp: flow_session_gone_def split: if_splits)
next
  case DoUnlock
  with assms show ?thesis by (intro history_kept [OF assms(2,4)]) (auto simp: flow_unlock_def)
next
  case DoRestart
  with assms show ?thesis by (intro history_kept [OF assms(2,4)]) (auto simp: flow_resume_def into_history_def)
qed

lemma flow_run_history: "flow_run P tr t f \<Longrightarrow> history_ok tr t f"
proof (induction rule: flow_run.induct)
  case (start t)
  then show ?case
    by (simp add: history_ok_def new_flow_def new_history_def questions_def answers_def trails_def spaced_def)
next
  case (step tr t f e t' a f')
  then show ?case using do_event_history [OF flow_run_ok] by blast
qed

section \<open>Digits and commitments\<close>

text \<open>A key and its digits are vouched for by a trace in which the key and a commitment came first,
  answered with the host's own nonce, and then the nonce that the commitment was made of.\<close>

definition before :: "'a list \<Rightarrow> 'a \<Rightarrow> 'a \<Rightarrow> bool" where
  "before tr x y \<longleftrightarrow> (\<exists>tr1 tr2. tr = tr1 @ tr2 \<and> x \<in> set tr1 \<and> y \<in> set tr2)"

definition vouched :: "prims \<Rightarrow> flow_trace \<Rightarrow> bytes \<Rightarrow> string \<Rightarrow> bool" where
  "vouched P tr rk code \<longleftrightarrow>
     (\<exists>s d k n t s' m t' d'.
        before tr (DoRequest s d k n rk (commitment P rk m) t, Answered (Inr (PairAccept k n)))
          (DoReveal s' m t', Revealed (Inr d')) \<and>
        code = short_authentication_string P k rk n m \<and> rk \<noteq> k \<and> \<not> is_low_order_public_key rk)"

definition asked_by :: "flow_trace \<Rightarrow> pairing_acceptor \<Rightarrow> bool" where
  "asked_by tr a \<longleftrightarrow>
     (\<exists>s d t. (DoRequest s d (ac_public_key a) (ac_nonce a) (ac_requester_public_key a) (ac_requester_commitment a) t,
        Answered (Inr (PairAccept (ac_public_key a) (ac_nonce a)))) \<in> set tr) \<and>
     ac_requester_public_key a \<noteq> ac_public_key a \<and> \<not> is_low_order_public_key (ac_requester_public_key a)"

fun stage_vouched :: "prims \<Rightarrow> flow_trace \<Rightarrow> stage \<Rightarrow> bool" where
  "stage_vouched P tr (AwaitingName s d k c st) = vouched P tr k c"
| "stage_vouched P tr (StageDeciding d) = vouched P tr (pd_peer_public_key d) (pd_code d)"
| "stage_vouched P tr st = True"

definition exchange_ok :: "prims \<Rightarrow> flow_trace \<Rightarrow> pairing_flow \<Rightarrow> bool" where
  "exchange_ok P tr f \<longleftrightarrow>
     (\<forall>a. pg_pending (flow_gate f) = Some a \<longrightarrow> asked_by tr a) \<and> stage_vouched P tr (pf_stage f) \<and>
     (\<forall>e d. (e, Decided (Some d)) \<in> set tr \<longrightarrow> vouched P tr (pd_peer_public_key d) (pd_code d))"

lemma before_append: "before tr x y \<Longrightarrow> before (tr @ xs) x y"
  unfolding before_def by (metis append_assoc set_append UnI1)

lemma before_last: "x \<in> set tr \<Longrightarrow> before (tr @ [y]) x y"
  unfolding before_def by (metis list.set_intros(1))

lemma vouchedI:
  assumes "before tr (DoRequest s d k n rk (commitment P rk m) t, Answered (Inr (PairAccept k n)))
      (DoReveal s' m t', Revealed (Inr d'))"
    "code = short_authentication_string P k rk n m" "rk \<noteq> k" "\<not> is_low_order_public_key rk"
  shows "vouched P tr rk code"
  unfolding vouched_def using assms by (intro exI conjI)

lemma vouched_append:
  assumes "vouched P tr k c"
  shows "vouched P (tr @ xs) k c"
  using assms [unfolded vouched_def] by (elim exE conjE) (rule vouchedI, rule before_append)

lemma asked_by_append: "asked_by tr a \<Longrightarrow> asked_by (tr @ xs) a"
  unfolding asked_by_def by auto

lemma stage_vouched_append: "stage_vouched P tr st \<Longrightarrow> stage_vouched P (tr @ xs) st"
  by (cases st) (simp_all add: vouched_append)

lemma exchange_kept:
  assumes "exchange_ok P tr f" "pg_pending (flow_gate f') = None \<or> pg_pending (flow_gate f') = pg_pending (flow_gate f)"
    "pf_stage f' = StageIdle \<or> pf_stage f' = pf_stage f"
    "\<And>d. a = Decided (Some d) \<Longrightarrow> pf_stage f = StageDeciding d"
  shows "exchange_ok P (tr @ [(e, a)]) f'"
  using assms stage_vouched_append [of P tr "pf_stage f" "[(e, a)]"]
  unfolding exchange_ok_def by (auto simp: asked_by_append vouched_append)

lemma exchange_expire:
  assumes "exchange_ok P tr f"
  shows "exchange_ok P tr (snd (flow_expire now f))"
proof -
  obtain r f' where e: "flow_expire now f = (r, f')" by force
  with flow_expire_effect [OF e] assms show ?thesis by (auto simp: exchange_ok_def)
qed

lemma do_event_exchange:
  assumes "flow_ok f" "exchange_ok P tr f" "do_event P e f = (a, f')"
  shows "exchange_ok P (tr @ [(e, a)]) f'"
proof (cases e)
  case (DoRequest s d k n rk c now)
  with assms obtain r where r: "flow_request s d k n rk c now f = (r, f')" "a = Answered r" by auto
  note h = exchange_expire [OF assms(2), of now]
  from flow_request_effect [OF r(1)] show ?thesis
  proof (elim disjE conjE exE)
    fix x assume "r = Inr (PairAccept k n)" "pf_stage (snd (flow_expire now f)) = StageIdle"
      "receive_request k n rk c now = Inr (x, PairAccept k n)"
      "flow_gate f' = (flow_gate (snd (flow_expire now f)))\<lparr>pg_pending := Some x, pg_deciding_until := None\<rparr>"
      "pf_stage f' = AwaitingReveal s d now"
    with h DoRequest r show ?thesis
      by (auto simp: exchange_ok_def receive_request_Inr asked_by_def vouched_append)
  qed (auto intro: exchange_kept [OF h] simp: r)
next
  case (DoReveal s n now)
  with assms obtain r where r: "flow_reveal P s n now f = (r, f')" "a = Revealed r" by auto
  from flow_reveal_effect [OF assms(1) r(1)] show ?thesis
  proof (elim disjE conjE exE)
    fix d started x out
    assume x: "pg_pending (flow_gate f) = Some x" "pg_pending (flow_gate f') = None" "receive_reveal P x n now = Inr out"
      "r = Inr d" "pf_stage f' = AwaitingName s d (po_peer_public_key out) (po_digits out) started"
    from x(1) assms(2) have ask: "asked_by tr x" by (simp add: exchange_ok_def)
    then obtain s0 d0 t0 where "(DoRequest s0 d0 (ac_public_key x) (ac_nonce x) (ac_requester_public_key x)
        (ac_requester_commitment x) t0, Answered (Inr (PairAccept (ac_public_key x) (ac_nonce x)))) \<in> set tr"
      unfolding asked_by_def by blast
    from before_last [OF this, of "(e, a)"] x(3) ask
    have "vouched P (tr @ [(e, a)]) (po_peer_public_key out) (po_digits out)"
      unfolding asked_by_def receive_reveal_Inr DoReveal r(2) x(4)
      by (intro vouchedI [where m = n and k = "ac_public_key x" and n = "ac_nonce x"]) auto
    with x assms(2) r(2) show ?thesis by (auto simp: exchange_ok_def vouched_append)
  qed (auto intro!: exchange_kept [OF assms(2)] simp: r)
next
  case (DoPresent s name rep now)
  with assms obtain b where b: "flow_present s name rep now f = (b, f')" "a = Presented b" by auto
  note h = exchange_expire [OF assms(2), of now]
  from flow_present_effect [OF b(1)] show ?thesis
  proof (elim disjE conjE exE)
    assume "f' = snd (flow_expire now f)"
    then show ?thesis using b by (intro exchange_kept [OF h]) auto
  next
    fix d k c started
    assume "pf_stage (snd (flow_expire now f)) = AwaitingName s d k c started" "flow_gate f' = flow_gate (snd (flow_expire now f))"
      "pf_stage f' = StageDeciding \<lparr>pd_session_id = s, pd_peer_device_id = d, pd_peer_name = name,
        pd_peer_public_key = k, pd_code = c, pd_replaces = rep d k, pd_started = started\<rparr>"
    with h b(2) show ?thesis by (auto simp: exchange_ok_def vouched_append asked_by_append)
  qed
next
  case (DoDecide s trust now)
  with assms obtain r where r: "flow_decide s trust now f = (r, f')" "a = Decided r" by auto
  from flow_decide_effect [OF r(1)] show ?thesis
    by (cases trust; intro exchange_kept [OF exchange_expire [OF assms(2), of now]])
      (auto simp: r gate_confirm_digits_def gate_reject_digits_def)
next
  case (DoDismiss s now)
  with assms obtain r where r: "flow_dismiss s now f = (r, f')" "a = Decided r" by auto
  from flow_dismiss_effect [OF r(1)] show ?thesis
    by (intro exchange_kept [OF exchange_expire [OF assms(2), of now]]) (auto simp: r)
next
  case (DoExpire now)
  with assms obtain r where "flow_expire now f = (r, f')" "a = Freed r" by auto
  then show ?thesis by (intro exchange_kept [OF exchange_expire [OF assms(2), of now]]) auto
qed (use assms in \<open>auto intro!: exchange_kept [OF assms(2)]
      simp: flow_session_gone_def flow_unlock_def flow_resume_def into_history_def gate_reset_lockout_def split: if_splits\<close>)

lemma flow_run_exchange: "flow_run P tr t f \<Longrightarrow> exchange_ok P tr f"
proof (induction rule: flow_run.induct)
  case (start t)
  then show ?case by (simp add: exchange_ok_def new_flow_def new_history_def new_gate_def)
next
  case (step tr t f e t' a f')
  then show ?case using do_event_exchange [OF flow_run_ok] by blast
qed

section \<open>An honest exchange\<close>

text \<open>A device that follows the protocol, once the host has answered it, ends with the same digits on
  both screens.\<close>

lemma honest_reveal:
  assumes "flow_ok f" "pf_stage f = AwaitingReveal s d started" "pg_pending (flow_gate f) = Some a"
    "receive_reveal P a m now = Inr out"
  obtains f' where "flow_reveal P s m now f = (Inr d, f')" "flow_ok f'"
    "pf_stage f' = AwaitingName s d (po_peer_public_key out) (po_digits out) started"
proof -
  obtain r f' where r: "flow_reveal P s m now f = (r, f')" by force
  have "\<not> gate_locked_out (flow_gate f)" using assms(1,2) by (simp add: flow_ok_def)
  with assms r have "r = Inr d \<and> pf_stage f' = AwaitingName s d (po_peer_public_key out) (po_digits out) started"
    by (auto simp: flow_reveal_def gate_reveal_def Let_def)
  with r flow_reveal_ok [OF assms(1) r] that show ?thesis by simp
qed

lemma honest_present:
  assumes "pf_stage f = AwaitingName s d k c started" "now < started + PAIRING_EXPIRY"
  obtains f' where "flow_present s name rep now f = (True, f')"
    "flow_pending_decision f' = Some \<lparr>pd_session_id = s, pd_peer_device_id = d, pd_peer_name = name,
        pd_peer_public_key = k, pd_code = c, pd_replaces = rep d k, pd_started = started\<rparr>"
  using assms by (simp add: flow_present_def flow_expire_def flow_started_def flow_pending_decision_def)

lemma honest_exchange:
  assumes "flow_ok f" "requester_start P key nonce = (requester, PairRequest key com)"
    "flow_request s d host_key host_nonce key com now f = (Inr reply, f1)" "\<not> is_low_order_public_key host_key"
    "now' < now + PAIRING_EXPIRY" "now'' < now + PAIRING_EXPIRY"
  obtains out f2 f3 decision where "reply = PairAccept host_key host_nonce"
    "receive_accept P requester host_key host_nonce = Inr (PairReveal nonce, out)"
    "flow_reveal P s nonce now' f1 = (Inr d, f2)" "flow_present s name rep now'' f2 = (True, f3)"
    "flow_pending_decision f3 = Some decision" "pd_code decision = po_digits out"
    "pd_peer_public_key decision = key" "po_peer_public_key out = host_key"
proof -
  from flow_request_effect [OF assms(3)] obtain a where
    a: "reply = PairAccept host_key host_nonce" "receive_request host_key host_nonce key com now = Inr (a, reply)"
      "pg_pending (flow_gate f1) = Some a" "pf_stage f1 = AwaitingReveal s d now"
    by auto
  have com: "com = commitment P key nonce" "requester = \<lparr>rq_public_key = key, rq_nonce = nonce\<rparr>"
    using assms(2) by (auto simp: requester_start_def)
  let ?digits = "short_authentication_string P host_key key host_nonce nonce"
  have "receive_reveal P a nonce now' = Inr \<lparr>po_peer_public_key = key, po_digits = ?digits\<rparr>"
    using a(2) com assms(5) by (auto simp: receive_reveal_Inr receive_request_Inr)
  from honest_reveal [OF flow_request_ok [OF assms(1,3)] a(4,3) this]
  obtain f2 where f2: "flow_reveal P s nonce now' f1 = (Inr d, f2)" "pf_stage f2 = AwaitingName s d key ?digits now"
    by auto
  obtain f3 where "flow_present s name rep now'' f2 = (True, f3)"
    "flow_pending_decision f3 = Some \<lparr>pd_session_id = s, pd_peer_device_id = d, pd_peer_name = name,
        pd_peer_public_key = key, pd_code = ?digits, pd_replaces = rep d key, pd_started = now\<rparr>"
    by (rule honest_present [OF f2(2) assms(6)])
  moreover have "receive_accept P requester host_key host_nonce =
      Inr (PairReveal nonce, \<lparr>po_peer_public_key = host_key, po_digits = ?digits\<rparr>)"
    using a(2) com(2) assms(4) by (auto simp: receive_accept_def receive_request_Inr)
  ultimately show ?thesis using that a(1) f2(1) by simp
qed

section \<open>A run to look at\<close>

text \<open>A browser asks, reveals and is named; and three reveals that do not match.\<close>

fun clock_after :: "nat \<Rightarrow> flow_event list \<Rightarrow> nat option" where
  "clock_after t [] = Some t"
| "clock_after t (e # es) =
     (case event_time e of
        None \<Rightarrow> clock_after t es
      | Some now \<Rightarrow> if t \<le> now then clock_after now es else None)"

lemma flow_run_events:
  "flow_run P tr t f \<Longrightarrow> clock_after t es = Some t' \<Longrightarrow> do_events P es f = (as, f') \<Longrightarrow>
     flow_run P (tr @ zip es as) t' f'"
proof (induction es arbitrary: tr t f as)
  case (Cons e es)
  obtain a f1 where e: "do_event P e f = (a, f1)" by force
  obtain bs f2 where es: "do_events P es f1 = (bs, f2)" by force
  define now where "now = (case event_time e of None \<Rightarrow> t | Some n \<Rightarrow> n)"
  have "event_time e = None \<or> event_time e = Some now" "t \<le> now" "clock_after now es = Some t'"
    using Cons.prems(2) by (auto simp: now_def split: option.splits if_splits)
  with Cons.prems e es Cons.IH [OF flow_run.step [OF Cons.prems(1) _ _ e], of now bs] show ?case by auto
qed simp

definition demo :: "u8 \<Rightarrow> bytes" where
  "demo b = replicate 32 b"

definition demo_exchange :: "flow_event list" where
  "demo_exchange =
     [DoRequest 1 ''laptop'' (demo 5) (demo 6) (demo 9) (commitment ref_prims (demo 9) (demo 8)) 0,
      DoReveal 1 (demo 8) 1, DoPresent 1 ''A laptop'' (\<lambda>_ _. None) 2]"

definition demo_guesses :: "flow_event list" where
  "demo_guesses =
     [DoRequest 1 ''laptop'' (demo 5) (demo 6) (demo 9) (demo 1) 0, DoReveal 1 (demo 8) 1,
      DoRequest 2 ''laptop'' (demo 5) (demo 6) (demo 9) (demo 1) 2, DoReveal 2 (demo 8) 3,
      DoRequest 3 ''laptop'' (demo 5) (demo 6) (demo 9) (demo 1) 4, DoReveal 3 (demo 8) 5]"

lemma demo_usable: "\<not> is_low_order_public_key (demo 9)" "\<not> is_low_order_public_key (demo 5)"
  by code_simp+

lemma demo_commitment: "commitment ref_prims (demo 9) n \<noteq> demo 1"
  by (simp add: commitment_def ref_prims_def ref_sha256_def demo_def)

lemmas demo_defs =
  new_flow_def new_history_def new_gate_def flow_request_def flow_expire_def flow_started_def in_window_def answer_wait_def
  gate_begin_def gate_locked_iff gate_in_progress_def receive_request_def flow_reveal_def gate_reveal_def receive_reveal_def
  set_gate_def flow_present_def flow_pending_decision_def flow_locked_out_def PAIRING_EXPIRY_def REQUEST_WINDOW_def seconds_def
  MAX_PAIRING_REQUESTS_PER_HOUR_def MAX_ANSWERED_REQUESTS_PER_HOUR_def
  MAX_ANSWERED_REQUESTS_PER_DEVICE_PER_HOUR_def

lemma demo_distinct: "demo 9 \<noteq> demo 5"
  by (simp add: demo_def)

lemma demo_exchange_run:
  obtains as f d where "do_events ref_prims demo_exchange new_flow = (as, f)" "flow_pending_decision f = Some d"
    "clock_after 0 demo_exchange = Some 2"
  by (simp add: demo_exchange_def demo_defs demo_usable demo_distinct Let_def)

lemma demo_guesses_run:
  obtains as f where "do_events ref_prims demo_guesses new_flow = (as, f)" "flow_locked_out f"
    "clock_after 0 demo_guesses = Some 5"
  by (simp add: demo_guesses_def demo_defs demo_usable demo_distinct demo_commitment Let_def)

section \<open>Properties\<close>

text \<open>C16. However requests, reveals, restarts and unlocks follow one another, and whatever device ids the relay
  invents: any four questions in a row put to the person span at least an hour, as do any thirteen
  requests answered in a row, and any four answered in a row for one device id.\<close>

theorem pairing_keeps_to_its_allowances:
  assumes "flow_run P tr t f"
  shows "spaced (\<lambda>at. at) MAX_PAIRING_REQUESTS_PER_HOUR REQUEST_WINDOW (questions tr) \<and>
    spaced fst MAX_ANSWERED_REQUESTS_PER_HOUR REQUEST_WINDOW (answers tr) \<and>
    (\<forall>d. spaced fst MAX_ANSWERED_REQUESTS_PER_DEVICE_PER_HOUR REQUEST_WINDOW
       (filter (\<lambda>x. snd x = d) (answers tr)))"
  using flow_run_history [OF assms] unfolding history_ok_def by blast

text \<open>C18. The failure counter is the number of failures in a row, it never passes three, pairing is locked
  exactly when it has reached three, and from then on, until the person unlocks it, no request is
  answered, no reveal accepted, no question asked and none decided.\<close>

theorem pairing_lockout_holds:
  assumes "flow_run P tr t f"
  shows "unat (pg_failed_attempts (flow_gate f)) = failures_in_a_row tr \<and> failures_in_a_row tr \<le> 3 \<and>
    (flow_locked_out f \<longleftrightarrow> failures_in_a_row tr = 3) \<and>
    (flow_locked_out f \<longrightarrow> DoUnlock \<notin> set es \<longrightarrow>
       flow_locked_out (snd (do_events P es f)) \<and> (\<forall>a \<in> set (fst (do_events P es f)). \<not> grants a))"
proof -
  note ok = flow_run_ok [OF assms]
  obtain as f' where es: "do_events P es f = (as, f')" by force
  have "failures_in_a_row tr \<le> 3" using ok flow_run_failures [OF assms] by (simp add: flow_ok_def)
  with es flow_run_failures [OF assms] locked_events [OF ok _ _ es] show ?thesis
    by (auto simp: flow_locked_out_def gate_locked_iff)
qed

text \<open>C15. The digits on the host's screen, and those of every question that was decided, are those of a usable
  key other than the host's own that was sent with a commitment, before the host sent its nonce, and of
  a nonce revealed afterwards that the commitment was made of.\<close>

theorem pairing_digits_were_committed:
  assumes "flow_run P tr t f" "flow_pending_decision f = Some d \<or> (\<exists>e. (e, Decided (Some d)) \<in> set tr)"
  shows "vouched P tr (pd_peer_public_key d) (pd_code d)"
  using flow_run_exchange [OF assms(1)] assms(2)
  by (auto simp: exchange_ok_def flow_pending_decision_def split: stage.splits)

text \<open>C21. A device that follows the protocol and is answered gets its question on the host's screen, if it
  reveals and is named in time, and both screens then show the same six digits, each with the
  other's key.\<close>

theorem pairing_screens_agree:
  assumes "flow_run P tr t f" "requester_start P key nonce = (requester, PairRequest key com)"
    "flow_request s d host_key host_nonce key com now f = (Inr reply, f1)" "\<not> is_low_order_public_key host_key"
    "now' < now + PAIRING_EXPIRY" "now'' < now + PAIRING_EXPIRY"
  shows "reply = PairAccept host_key host_nonce \<and>
    (\<exists>out f2 f3 decision. receive_accept P requester host_key host_nonce = Inr (PairReveal nonce, out) \<and>
      flow_reveal P s nonce now' f1 = (Inr d, f2) \<and> flow_present s name rep now'' f2 = (True, f3) \<and>
      flow_pending_decision f3 = Some decision \<and> pd_code decision = po_digits out \<and> length (po_digits out) = 6 \<and>
      pd_peer_public_key decision = key \<and> po_peer_public_key out = host_key)"
proof -
  obtain out f2 f3 decision where e: "reply = PairAccept host_key host_nonce"
    "receive_accept P requester host_key host_nonce = Inr (PairReveal nonce, out)"
    "flow_reveal P s nonce now' f1 = (Inr d, f2)" "flow_present s name rep now'' f2 = (True, f3)"
    "flow_pending_decision f3 = Some decision" "pd_code decision = po_digits out"
    "pd_peer_public_key decision = key" "po_peer_public_key out = host_key"
    by (rule honest_exchange [OF flow_run_ok [OF assms(1)] assms(2-6)])
  moreover have "length (po_digits out) = 6" using e(2) by (auto simp: receive_accept_def split: if_splits)
  ultimately show ?thesis by blast
qed

section \<open>The properties at a run\<close>

lemma demo_exchange_reached:
  obtains as f d where "flow_run ref_prims (zip demo_exchange as) 2 f" "flow_pending_decision f = Some d"
    "do_events ref_prims demo_exchange new_flow = (as, f)"
  using demo_exchange_run flow_run_events [OF flow_run.start, of 0 demo_exchange] by (metis append_Nil)

lemma demo_guesses_reached:
  obtains as f where "flow_run ref_prims (zip demo_guesses as) 5 f" "flow_locked_out f"
  using demo_guesses_run flow_run_events [OF flow_run.start, of 0 demo_guesses] by (metis append_Nil)

theorem pairing_keeps_to_its_allowances_witness:
  "\<exists>tr t f. flow_run ref_prims tr t f \<and> tr \<noteq> [] \<and>
     spaced (\<lambda>at. at) MAX_PAIRING_REQUESTS_PER_HOUR REQUEST_WINDOW (questions tr)"
proof -
  obtain as f d where r: "flow_run ref_prims (zip demo_exchange as) 2 f"
    "do_events ref_prims demo_exchange new_flow = (as, f)"
    by (rule demo_exchange_reached)
  have "zip demo_exchange as \<noteq> []"
    using r(2) by (auto simp: demo_exchange_def split: prod.splits)
  with r(1) pairing_keeps_to_its_allowances [OF r(1)] show ?thesis by blast
qed

theorem pairing_lockout_holds_witness:
  "\<exists>tr t f. flow_run ref_prims tr t f \<and> flow_locked_out f \<and> failures_in_a_row tr = 3 \<and>
     (\<forall>a \<in> set (fst (do_events ref_prims demo_exchange f)). \<not> grants a)"
proof -
  obtain as f where r: "flow_run ref_prims (zip demo_guesses as) 5 f" "flow_locked_out f"
    by (rule demo_guesses_reached)
  have "DoUnlock \<notin> set demo_exchange" by (simp add: demo_exchange_def)
  with r pairing_lockout_holds [OF r(1), of demo_exchange] show ?thesis by blast
qed

theorem pairing_digits_were_committed_witness:
  "\<exists>tr t f d. flow_run ref_prims tr t f \<and> flow_pending_decision f = Some d \<and>
     vouched ref_prims tr (pd_peer_public_key d) (pd_code d)"
proof -
  obtain as f d where r: "flow_run ref_prims (zip demo_exchange as) 2 f" "flow_pending_decision f = Some d"
    by (rule demo_exchange_reached)
  with pairing_digits_were_committed [OF r(1), of d] show ?thesis by blast
qed

lemma demo_answered:
  obtains f1 where "flow_request 1 ''laptop'' (demo 5) (demo 6) (demo 9) com 0 new_flow = (Inr (PairAccept (demo 5) (demo 6)), f1)"
  by (simp add: demo_defs demo_usable demo_distinct Let_def)

theorem pairing_screens_agree_witness:
  "\<exists>f1 f2 f3 out decision.
     flow_request 1 ''laptop'' (demo 5) (demo 6) (demo 9) (commitment ref_prims (demo 9) (demo 8)) 0 new_flow =
       (Inr (PairAccept (demo 5) (demo 6)), f1) \<and>
     receive_accept ref_prims \<lparr>rq_public_key = demo 9, rq_nonce = demo 8\<rparr> (demo 5) (demo 6) = Inr (PairReveal (demo 8), out) \<and>
     flow_reveal ref_prims 1 (demo 8) 1 f1 = (Inr ''laptop'', f2) \<and>
     flow_present 1 ''A laptop'' (\<lambda>_ _. None) 1 f2 = (True, f3) \<and>
     flow_pending_decision f3 = Some decision \<and> pd_code decision = po_digits out \<and> length (po_digits out) = 6"
proof -
  obtain f1 where q: "flow_request 1 ''laptop'' (demo 5) (demo 6) (demo 9) (commitment ref_prims (demo 9) (demo 8)) 0 new_flow =
      (Inr (PairAccept (demo 5) (demo 6)), f1)"
    by (rule demo_answered)
  have s: "requester_start ref_prims (demo 9) (demo 8) =
      (\<lparr>rq_public_key = demo 9, rq_nonce = demo 8\<rparr>, PairRequest (demo 9) (commitment ref_prims (demo 9) (demo 8)))"
    by (simp add: requester_start_def)
  have "(1 :: nat) < 0 + PAIRING_EXPIRY" by (simp add: PAIRING_EXPIRY_def seconds_def)
  from pairing_screens_agree [OF flow_run.start s q demo_usable(2) this this, of "''A laptop''" "\<lambda>_ _. None"] q
  show ?thesis by blast
qed

end
