(* ===== verification/Relay_Channel.thy ===== *)
theory Relay_Channel
  imports Relay_Noise Relay_Messages Reference
begin

text \<open>
  The responder's side of the encrypted channel (\<^verbatim>\<open>remote_relay_client\<close>'s \<^verbatim>\<open>secure_session.rs\<close>): the
  table of handshakes it is in the middle of, and an established session that speaks in control
  messages and streams. The table is a \<^verbatim>\<open>HashMap\<close> in the source; it is kept sorted here, which fixes
  the order in which \<^verbatim>\<open>expire\<close> reports and nothing else. The theory ends with an instance of the
  \<^verbatim>\<open>snow\<close> functions for which everything relied on of them holds.
\<close>

section \<open>Waiting handshakes\<close>

datatype handshake_refusal =
    TooManyOpen
  | NotExpected
  | HandshakeExpired
  | RefusedNoise noise_error

record awaited =
  aw_remote_public_key :: bytes
  aw_prologue :: bytes
  aw_deadline :: nat

type_synonym responder_handshakes = "(u32, awaited) btree"

definition is_expecting :: "responder_handshakes \<Rightarrow> u32 \<Rightarrow> bool" where
  "is_expecting t session_id = (bt_get t session_id \<noteq> None)"

definition waiting :: "nat \<Rightarrow> responder_handshakes \<Rightarrow> nat" where
  "waiting now t = length (filter (\<lambda>(_, awaited). now < aw_deadline awaited) t)"

definition handshake_expect ::
  "u32 \<Rightarrow> bytes \<Rightarrow> bytes \<Rightarrow> nat \<Rightarrow> (responder_handshakes, handshake_refusal, unit) io" where
  "handshake_expect session_id remote_public_key prologue now t =
     (if bt_get t session_id = None \<and> MAX_HALF_OPEN_HANDSHAKES \<le> waiting now t then (Inl TooManyOpen, t)
      else
        let deadline = (case bt_get t session_id of
                          None \<Rightarrow> now + HANDSHAKE_TIMEOUT
                        | Some existing \<Rightarrow>
                            if now < aw_deadline existing then aw_deadline existing else now + HANDSHAKE_TIMEOUT)
        in (Inr (), bt_insert session_id
              \<lparr>aw_remote_public_key = remote_public_key, aw_prologue = prologue, aw_deadline = deadline\<rparr> t))"

definition handshake_accept ::
  "('h, 't) snow \<Rightarrow> u32 \<Rightarrow> bytes \<Rightarrow> bytes option \<Rightarrow> bytes \<Rightarrow> nat \<Rightarrow>
   (responder_handshakes, handshake_refusal, 't noise_session \<times> bytes) io" where
  "handshake_accept S session_id local_private_key seed message now t =
     (case bt_get t session_id of
        None \<Rightarrow> (Inl NotExpected, t)
      | Some awaited \<Rightarrow>
          (if aw_deadline awaited \<le> now then Inl HandshakeExpired
           else map_err RefusedNoise
             (bind_res (handshake_responder S
                \<lparr>hp_local_private_key = local_private_key, hp_remote_public_key = aw_remote_public_key awaited,
                 hp_prologue = aw_prologue awaited\<rparr>) (\<lambda>handshake.
              fst (io_bind (read_message S message) (\<lambda>_.
                   io_bind (write_message S seed []) (\<lambda>reply handshake.
                     (bind_res (into_session S handshake) (\<lambda>session. Inr (session, reply)), handshake))) handshake))),
           bt_remove session_id t))"

definition handshake_expire :: "nat \<Rightarrow> responder_handshakes \<Rightarrow> u32 list \<times> responder_handshakes" where
  "handshake_expire now t =
     (let expired = map fst (filter (\<lambda>(_, awaited). aw_deadline awaited \<le> now) t)
      in (expired, fold bt_remove expired t))"

definition handshake_cancel :: "u32 \<Rightarrow> responder_handshakes \<Rightarrow> responder_handshakes" where
  "handshake_cancel session_id t = bt_remove session_id t"

definition handshake_clear :: "responder_handshakes \<Rightarrow> responder_handshakes" where
  "handshake_clear t = []"

section \<open>The secure channel\<close>

datatype channel_error =
    ChannelNoise noise_error
  | ChannelMessage message_error
  | ChannelFrame frame_error
  | NotConfirmed

type_synonym 't secure_channel = "'t noise_session"

definition channel_open :: "('h, 't) snow \<Rightarrow> bytes \<Rightarrow> ('t secure_channel, noise_error, inner_frame) io" where
  "channel_open S ciphertext = decrypt_frame S ciphertext"

definition require_confirmed :: "('t secure_channel, channel_error, unit) io" where
  "require_confirmed = (\<lambda>s. (if is_confirmed s then Inr () else Inl NotConfirmed, s))"

definition seal_encoded_control :: "('h, 't) snow \<Rightarrow> bytes \<Rightarrow> ('t secure_channel, channel_error, bytes) io" where
  "seal_encoded_control S encoded =
     io_bind require_confirmed (\<lambda>_.
     io_bind (io_res (map_err ChannelFrame (inner_control encoded))) (\<lambda>f.
     io_map_err ChannelNoise (encrypt_frame S f)))"

definition seal_control :: "('h, 't) snow \<Rightarrow> prims \<Rightarrow> control \<Rightarrow> ('t secure_channel, channel_error, bytes) io" where
  "seal_control S P control =
     io_bind require_confirmed (\<lambda>_.
     io_bind (io_res (map_err ChannelMessage (encode_control P control))) (\<lambda>encoded.
     seal_encoded_control S encoded))"

definition seal_data :: "('h, 't) snow \<Rightarrow> u32 \<Rightarrow> bytes \<Rightarrow> ('t secure_channel, channel_error, bytes) io" where
  "seal_data S stream_id data =
     io_bind require_confirmed (\<lambda>_.
     io_bind (io_res (map_err ChannelFrame (inner_data stream_id data))) (\<lambda>f.
     io_map_err ChannelNoise (encrypt_frame S f)))"

definition seal_end_of_stream :: "('h, 't) snow \<Rightarrow> u32 \<Rightarrow> ('t secure_channel, channel_error, bytes) io" where
  "seal_end_of_stream S stream_id =
     io_bind require_confirmed (\<lambda>_.
     io_bind (io_res (map_err ChannelFrame (end_of_stream stream_id))) (\<lambda>f.
     io_map_err ChannelNoise (encrypt_frame S f)))"

definition read_control :: "prims \<Rightarrow> inner_frame \<Rightarrow> message_error + control" where
  "read_control P f = decode_control P (if_payload f)"

section \<open>Calls on a channel\<close>

datatype channel_call =
    OpenMessage bytes
  | SealControl control
  | SealEncodedControl bytes
  | SealData u32 bytes
  | SealEndOfStream u32

datatype channel_answer =
    ChannelOpened "noise_error + inner_frame"
  | ChannelSealed "channel_error + bytes"

fun channel_step ::
  "('h, 't) snow \<Rightarrow> prims \<Rightarrow> channel_call \<Rightarrow> 't secure_channel \<Rightarrow> channel_answer \<times> 't secure_channel" where
  "channel_step S P (OpenMessage c) s = map_prod ChannelOpened id (channel_open S c s)"
| "channel_step S P (SealControl c) s = map_prod ChannelSealed id (seal_control S P c s)"
| "channel_step S P (SealEncodedControl b) s = map_prod ChannelSealed id (seal_encoded_control S b s)"
| "channel_step S P (SealData i d) s = map_prod ChannelSealed id (seal_data S i d s)"
| "channel_step S P (SealEndOfStream i) s = map_prod ChannelSealed id (seal_end_of_stream S i s)"

fun channel_run ::
  "('h, 't) snow \<Rightarrow> prims \<Rightarrow> channel_call list \<Rightarrow> 't secure_channel \<Rightarrow> channel_answer list \<times> 't secure_channel" where
  "channel_run S P [] s = ([], s)"
| "channel_run S P (c # cs) s =
     (case channel_step S P c s of (a, s1) \<Rightarrow> (case channel_run S P cs s1 of (as, s2) \<Rightarrow> (a # as, s2)))"

text \<open>An incoming message that authenticated, whatever it then read as.\<close>

fun proves_peer :: "channel_answer \<Rightarrow> bool" where
  "proves_peer (ChannelOpened (Inr f)) = True"
| "proves_peer (ChannelOpened (Inl (NoiseFrame e))) = True"
| "proves_peer a = False"

text \<open>\<^verbatim>\<open>snow\<close>: a handshake keeps the role it was built with.\<close>

definition snow_roles :: "('h, 't) snow \<Rightarrow> bool" where
  "snow_roles S \<longleftrightarrow>
     (\<forall>b p k r h. snow_build S b p k r = Inr h \<longrightarrow> handshake_initiates S h = b) \<and>
     (\<forall>h m n. handshake_initiates S (snd (handshake_read S h m n)) = handshake_initiates S h) \<and>
     (\<forall>seed h m n. handshake_initiates S (snd (handshake_write S seed h m n)) = handshake_initiates S h)"

section \<open>Nothing is sealed before the peer is proven\<close>

lemma map_prod_sealed [simp]: "map_prod c id x = (a, s') \<longleftrightarrow> (\<exists>r. x = (r, s') \<and> a = c r)"
  by (cases x) auto

lemma seal_unconfirmed:
  assumes "\<not> ns_confirmed s"
  shows "seal_control S P c s = (Inl NotConfirmed, s)" "seal_encoded_control S b s = (Inl NotConfirmed, s)"
    "seal_data S i d s = (Inl NotConfirmed, s)" "seal_end_of_stream S i s = (Inl NotConfirmed, s)"
  using assms by (simp_all add: seal_control_def seal_encoded_control_def seal_data_def seal_end_of_stream_def
      require_confirmed_def is_confirmed_def io_bind_def)

lemma channel_step_unconfirmed:
  assumes "\<not> ns_confirmed s" "channel_step S P c s = (a, s')" "\<not> proves_peer a"
  shows "\<not> ns_confirmed s' \<and> (\<forall>m. a \<noteq> ChannelSealed (Inr m))"
proof (cases c)
  case (OpenMessage m)
  with assms(2) obtain r where r: "decrypt_frame S m s = (r, s')" "a = ChannelOpened r" by (auto simp: channel_open_def)
  then have call: "run_call S (CallDecryptFrame m) s =
      ((case r of Inr f \<Rightarrow> OpenedFrame f | Inl e \<Rightarrow> Refused e), s')"
    by (simp add: answer_def split: sum.split)
  have "\<not> authenticated (CallDecryptFrame m) (case r of Inr f \<Rightarrow> OpenedFrame f | Inl e \<Rightarrow> Refused e)"
    using assms(3) r(2) by (cases r) (auto split: noise_error.split elim: authenticated.elims)
  with run_call_confirmed [OF call] assms(1) r(2) show ?thesis by simp
qed (use assms in \<open>auto simp: seal_unconfirmed\<close>)

lemma sealed_after_proof:
  "\<not> ns_confirmed s \<Longrightarrow> channel_run S P cs s = (as, s') \<Longrightarrow> i < length as \<Longrightarrow> as ! i = ChannelSealed (Inr m) \<Longrightarrow>
     \<exists>j < i. proves_peer (as ! j)"
proof (induction cs arbitrary: s s' as i)
  case (Cons c cs)
  obtain a s1 where a: "channel_step S P c s = (a, s1)" by force
  obtain bs s2 where bs: "channel_run S P cs s1 = (bs, s2)" by force
  from Cons.prems(2) a bs have as: "as = a # bs" by simp
  show ?case
  proof (cases "proves_peer a")
    case True
    then have "\<forall>m. a \<noteq> ChannelSealed (Inr m)" by (cases a) auto
    with Cons.prems(4) as have "0 < i" by (cases i) auto
    with True as show ?thesis by (intro exI [of _ 0]) simp
  next
    case False
    note u = channel_step_unconfirmed [OF Cons.prems(1) a False]
    with Cons.prems(4) as obtain k where "i = Suc k" by (cases i) auto
    moreover with Cons.prems(3,4) as u obtain j where "j < k" "proves_peer (bs ! j)"
      using Cons.IH [OF _ bs, of k] by auto
    ultimately show ?thesis using as by (intro exI [of _ "Suc j"]) simp
  qed
qed simp

lemma accepted_session:
  assumes "snow_roles S" "handshake_accept S sid k seed message now t = (Inr (s, reply), t')"
  obtains w where "bt_get t sid = Some w" "now < aw_deadline w" "t' = bt_remove sid t"
    "\<not> is_low_order_public_key (aw_remote_public_key w)"
    "KEY_LEN \<le> length message \<longrightarrow> \<not> is_low_order_public_key (take KEY_LEN message)"
    "\<not> ns_confirmed s" "\<not> ns_closed s"
proof -
  from assms(2) obtain w where w: "bt_get t sid = Some w" "t' = bt_remove sid t" "now < aw_deadline w"
    by (auto simp: handshake_accept_def split: option.splits if_splits)
  let ?hp = "\<lparr>hp_local_private_key = k, hp_remote_public_key = aw_remote_public_key w, hp_prologue = aw_prologue w\<rparr>"
  from assms(2) w obtain h h3 where "handshake_responder S ?hp = Inr h"
    "io_bind (read_message S message) (\<lambda>_. io_bind (write_message S seed []) (\<lambda>reply handshake.
       (bind_res (into_session S handshake) (\<lambda>session. Inr (session, reply)), handshake))) h = (Inr (s, reply), h3)"
    by (auto simp: handshake_accept_def map_err_eq_Inr bind_res_eq_Inr prod_eq_iff)
  then obtain p h1 h2 where h: "handshake_responder S ?hp = Inr h"
    "read_message S message h = (Inr p, h1)" "write_message S seed [] h1 = (Inr reply, h2)" "into_session S h2 = Inr s"
    by (auto simp: io_eqs bind_res_eq_Inr)
  have role: "handshake_initiates S (hs_state h) = False" "\<not> is_low_order_public_key (aw_remote_public_key w)"
    using h(1) assms(1) by (auto simp: handshake_responder_def handshake_build_def snow_roles_def bind_res_eq_Inr
        map_err_eq_Inr split: if_splits)
  from read_message_Inr [OF h(2)] have r: "KEY_LEN \<le> length message \<longrightarrow> \<not> is_low_order_public_key (take KEY_LEN message)"
    "hs_state h1 = snd (handshake_read S (hs_state h) message MAX_NOISE_MESSAGE_LEN)" by auto
  from write_message_Inr [OF h(3)]
  have "hs_state h2 = snd (handshake_write S seed (hs_state h1) [] MAX_NOISE_MESSAGE_LEN)" by auto
  with r(2) role(1) assms(1) have "\<not> handshake_initiates S (hs_state h2)" by (simp add: snow_roles_def)
  with h(4) have "\<not> ns_confirmed s" "\<not> ns_closed s" by (auto simp: into_session_Inr)
  with that w role(2) r(1) show ?thesis by blast
qed

section \<open>How many handshakes wait\<close>

text \<open>The table under any use, as long as a session that ran out of time is not announced again before
  it was swept, which the host does not let happen: it ignores an announcement of a session it still
  has open.\<close>

inductive table_run :: "('h, 't) snow \<Rightarrow> nat \<Rightarrow> responder_handshakes \<Rightarrow> bool" for S where
  empty: "table_run S now []"
| expect: "table_run S now t \<Longrightarrow> now \<le> now' \<Longrightarrow>
    (case bt_get t session_id of None \<Rightarrow> True | Some w \<Rightarrow> now' < aw_deadline w) \<Longrightarrow>
    handshake_expect session_id k p now' t = (r, t') \<Longrightarrow> table_run S now' t'"
| accept: "table_run S now t \<Longrightarrow> now \<le> now' \<Longrightarrow>
    handshake_accept S session_id local_key seed message now' t = (a, t') \<Longrightarrow> table_run S now' t'"
| sweep: "table_run S now t \<Longrightarrow> now \<le> now' \<Longrightarrow> handshake_expire now' t = (ids, t') \<Longrightarrow> table_run S now' t'"
| cancel: "table_run S now t \<Longrightarrow> table_run S now (handshake_cancel session_id t)"
| clear: "table_run S now t \<Longrightarrow> table_run S now (handshake_clear t)"

lemma accept_table: "handshake_accept S sid k seed m now t = (r, t') \<Longrightarrow> t' = bt_remove sid t \<or> t' = t"
  by (auto simp: handshake_accept_def split: option.splits)

lemma waiting_Cons: "waiting now (e # t) = (if now < aw_deadline (snd e) then 1 else 0) + waiting now t"
  by (cases e) (simp add: waiting_def)

lemma waiting_Nil [simp]: "waiting now [] = 0"
  by (simp add: waiting_def)

lemma waiting_later: "now \<le> now' \<Longrightarrow> waiting now' t \<le> waiting now t"
  by (induction t) (auto simp: waiting_Cons)

lemma waiting_remove: "waiting now (bt_remove k t) \<le> waiting now t"
  unfolding bt_remove_def by (induction t) (auto simp: waiting_Cons)

lemma waiting_removes: "waiting now (fold bt_remove ks t) \<le> waiting now t"
  by (induction ks arbitrary: t) (auto intro: order_trans waiting_remove)

lemma waiting_insert: "waiting now (bt_insert k w t) \<le> Suc (waiting now t)"
  by (induction k w t rule: bt_insert.induct) (auto simp: waiting_Cons)

lemma waiting_replace:
  "bt_ok t \<Longrightarrow> bt_get t k = Some v \<Longrightarrow> now < aw_deadline v \<Longrightarrow> waiting now (bt_insert k w t) \<le> waiting now t"
proof (induction k w t rule: bt_insert.induct)
  case (2 k w k' w' t)
  show ?case
  proof (cases "k = k'")
    case True
    with 2 show ?thesis by (simp add: bt_get_def waiting_Cons)
  next
    case False
    with 2 have "bt_get t k = Some v" by (simp add: bt_get_def)
    then have "k \<in> fst ` set t" by (metis bt_get_notin option.distinct(1))
    with 2(2) have "k' < k" by (auto simp: bt_ok_Cons)
    with 2 False \<open>bt_get t k = Some v\<close> show ?thesis by (auto simp: waiting_Cons bt_ok_Cons)
  qed
qed (simp add: bt_get_def)

lemma bt_ok_removes: "bt_ok t \<Longrightarrow> bt_ok (fold bt_remove ks t)"
  by (induction ks arbitrary: t) (auto simp: bt_ok_remove)

lemma expect_bounded:
  assumes "bt_ok t" "waiting now t \<le> MAX_HALF_OPEN_HANDSHAKES"
    "case bt_get t sid of None \<Rightarrow> True | Some w \<Rightarrow> now < aw_deadline w" "handshake_expect sid k p now t = (r, t')"
  shows "bt_ok t' \<and> waiting now t' \<le> MAX_HALF_OPEN_HANDSHAKES"
proof (cases "bt_get t sid")
  case None
  with assms(1,2,4) show ?thesis
    by (auto simp: handshake_expect_def Let_def bt_ok_insert split: if_splits intro: order_trans [OF waiting_insert])
next
  case (Some w)
  with assms(3) have "now < aw_deadline w" by simp
  from waiting_replace [OF assms(1) Some this] assms(1,2,4) Some show ?thesis
    by (auto simp: handshake_expect_def Let_def bt_ok_insert intro: order_trans)
qed

lemma table_bounded: "table_run S now t \<Longrightarrow> bt_ok t \<and> waiting now t \<le> MAX_HALF_OPEN_HANDSHAKES"
proof (induction rule: table_run.induct)
  case (expect now t now' sid k p r t')
  then have "waiting now' t \<le> MAX_HALF_OPEN_HANDSHAKES" using waiting_later le_trans by blast
  with expect show ?case using expect_bounded by blast
next
  case (accept now t now' sid k seed m a t')
  from accept_table [OF accept.hyps(3)] accept.IH show ?case
    using waiting_later [OF accept.hyps(2), of t] waiting_remove [of now' sid t] by (auto simp: bt_ok_remove)
next
  case (sweep now t now' ids t')
  then show ?case
    using waiting_later [OF sweep.hyps(2), of t] waiting_removes [of now' ids t]
    by (auto simp: handshake_expire_def Let_def bt_ok_removes)
next
  case (cancel now t sid)
  then show ?case using waiting_remove [of now sid t] by (simp add: handshake_cancel_def bt_ok_remove)
qed (simp_all add: handshake_clear_def bt_ok_def)

text \<open>Announced again before it was swept, a session that ran out of time is let in past the limit.\<close>

definition announce :: "u32 list \<Rightarrow> nat \<Rightarrow> responder_handshakes \<Rightarrow> responder_handshakes" where
  "announce ids now t = fold (\<lambda>i t. snd (handshake_expect i [] [] now t)) ids t"

lemma announced_again_passes_limit:
  "waiting HANDSHAKE_TIMEOUT (announce [0] HANDSHAKE_TIMEOUT
     (announce [8, 9, 10, 11, 12, 13, 14, 15] HANDSHAKE_TIMEOUT (announce [0] 0 []))) = Suc MAX_HALF_OPEN_HANDSHAKES"
  by (simp add: announce_def handshake_expect_def Let_def waiting_def bt_get_def HANDSHAKE_TIMEOUT_def seconds_def
      MAX_HALF_OPEN_HANDSHAKES_def word_less_nat_alt)

section \<open>An instance of \<^verbatim>\<open>snow\<close>\<close>

text \<open>A message is its payload and a tag over the key, the counter and the payload; a handshake message
  has the ephemeral key in front, and its tag covers the prologue and both static keys.\<close>

record ref_transport =
  rt_send :: bytes
  rt_receive :: bytes
  rt_sent :: u64
  rt_received :: u64

record ref_handshake =
  rh_initiator :: bool
  rh_prologue :: bytes
  rh_mine :: bytes
  rh_theirs :: bytes
  rh_my_e :: "bytes option"
  rh_their_e :: "bytes option"

definition ref_write :: "ref_transport \<Rightarrow> bytes \<Rightarrow> nat \<Rightarrow> (string + bytes) \<times> ref_transport" where
  "ref_write t p n =
     (if length p + 16 \<le> n \<and> length p + 16 \<le> MAX_NOISE_MESSAGE_LEN \<and> rt_sent t < - 1
      then (Inr (p @ ref_tag16 (rt_send t) (u64_to_le_bytes (rt_sent t)) p), t\<lparr>rt_sent := rt_sent t + 1\<rparr>)
      else (Inl ''input error'', t))"

definition ref_read_message :: "ref_transport \<Rightarrow> bytes \<Rightarrow> nat \<Rightarrow> (string + bytes) \<times> ref_transport" where
  "ref_read_message t c n =
     (let p = take (length c - 16) c in
      if 16 \<le> length c \<and> length p \<le> n \<and> rt_received t < - 1 \<and>
         drop (length c - 16) c = ref_tag16 (rt_receive t) (u64_to_le_bytes (rt_received t)) p
      then (Inr p, t\<lparr>rt_received := rt_received t + 1\<rparr>)
      else (Inl ''decrypt error'', t))"

definition ref_build :: "bool \<Rightarrow> bytes \<Rightarrow> bytes \<Rightarrow> bytes \<Rightarrow> string + ref_handshake" where
  "ref_build initiator prologue private remote =
     bind_res (ref_public private) (\<lambda>mine.
     Inr \<lparr>rh_initiator = initiator, rh_prologue = prologue, rh_mine = mine, rh_theirs = remote,
          rh_my_e = None, rh_their_e = None\<rparr>)"

definition ref_hs_write ::
  "bytes option \<Rightarrow> ref_handshake \<Rightarrow> bytes \<Rightarrow> nat \<Rightarrow> (string + bytes) \<times> ref_handshake" where
  "ref_hs_write seed h p n =
     (case bind_res (ref_keypair seed) (\<lambda>(_, e). Inr e) of
        Inl err \<Rightarrow> (Inl err, h)
      | Inr e \<Rightarrow> (Inr (e @ p @ ref_tag16 (rh_mine h) (rh_prologue h) (rh_theirs h @ p)), h\<lparr>rh_my_e := Some e\<rparr>))"

definition ref_hs_read :: "ref_handshake \<Rightarrow> bytes \<Rightarrow> nat \<Rightarrow> (string + bytes) \<times> ref_handshake" where
  "ref_hs_read h m n =
     (let p = take (length m - 48) (drop 32 m) in
      if 48 \<le> length m \<and> drop (length m - 16) m = ref_tag16 (rh_theirs h) (rh_prologue h) (rh_mine h @ p)
      then (Inr p, h\<lparr>rh_their_e := Some (take 32 m)\<rparr>)
      else (Inl ''decrypt error'', h))"

definition ref_into_transport :: "ref_handshake \<Rightarrow> string + ref_transport" where
  "ref_into_transport h =
     (case (rh_my_e h, rh_their_e h) of
        (Some mine, Some theirs) \<Rightarrow>
          Inr \<lparr>rt_send = (if rh_initiator h then 1 # mine @ theirs else 2 # theirs @ mine),
               rt_receive = (if rh_initiator h then 2 # mine @ theirs else 1 # theirs @ mine),
               rt_sent = 0, rt_received = 0\<rparr>
      | _ \<Rightarrow> Inl ''handshake not finished'')"

definition ref_snow :: "(ref_handshake, ref_transport) snow" where
  "ref_snow =
     \<lparr>snow_build = ref_build, handshake_write = ref_hs_write, handshake_read = ref_hs_read,
      handshake_finished = (\<lambda>h. rh_my_e h \<noteq> None \<and> rh_their_e h \<noteq> None), handshake_initiates = rh_initiator,
      handshake_digest = rh_prologue, transport_mode = ref_into_transport,
      transport_write = ref_write, transport_read = ref_read_message,
      sending_nonce = rt_sent, receiving_nonce = rt_received\<rparr>"

definition ref_linked :: "ref_transport \<Rightarrow> ref_transport \<Rightarrow> bool" where
  "ref_linked a b \<longleftrightarrow> rt_send a = rt_receive b \<and> rt_sent a = rt_received b"

lemma unat_next: "(x :: u64) < - 1 \<Longrightarrow> unat (x + 1) = unat x + 1"
proof -
  assume "x < - 1"
  then have "unat x < unat (- 1 :: u64)" by (simp only: word_less_nat_alt)
  then show ?thesis by (simp add: unat_word_ariths unsigned_minus_1_eq_mask mask_eq_exp_minus_1)
qed

lemma ref_snow_ok [simp]:
  "transport_counts ref_snow" "transport_writes ref_snow" "transport_linked ref_snow ref_linked" "snow_roles ref_snow"
proof -
  show "transport_counts ref_snow"
    by (auto simp: transport_counts_def ref_snow_def ref_write_def ref_read_message_def Let_def unat_next)
  show "transport_writes ref_snow"
    by (auto simp: transport_writes_def ref_snow_def ref_write_def NOISE_TAG_LEN_def ref_tag16_def)
  show "transport_linked ref_snow ref_linked"
    by (auto simp: transport_linked_def ref_snow_def ref_linked_def ref_write_def ref_read_message_def Let_def
        ref_tag16_def split: if_splits)
  show "snow_roles ref_snow"
    by (auto simp: snow_roles_def ref_snow_def ref_build_def ref_hs_write_def ref_hs_read_def Let_def bind_res_eq_Inr
        split: sum.splits)
qed

section \<open>Properties\<close>

lemma run_calls_fatal:
  assumes "run_calls S cs s = (as, s')" "i < length as" "as ! i = Refused e" "fatal e"
  shows "ns_closed s' \<and> (\<forall>j. i < j \<longrightarrow> j < length as \<longrightarrow> as ! j = Refused NoiseClosed)"
  using assms
proof (induction cs arbitrary: s as i)
  case (Cons c cs)
  obtain a s1 where a: "run_call S c s = (a, s1)" by force
  obtain bs s2 where bs: "run_calls S cs s1 = (bs, s2)" by force
  from Cons.prems(1) a bs have as: "as = a # bs" "s' = s2" by auto
  show ?case
  proof (cases i)
    case 0
    with Cons.prems(3,4) as a have "ns_closed s1" by (auto dest: run_call_fatal)
    from run_calls_closed [OF this, of S cs] bs as show ?thesis
      using 0 \<open>ns_closed s1\<close> by (auto simp: nth_Cons split: nat.splits)
  next
    case (Suc k)
    with Cons.IH [of s1 bs k] Cons.prems as bs show ?thesis by (auto simp: nth_Cons split: nat.splits)
  qed
qed simp

text \<open>C19. A stream sealed by one end and read by the other arrives whole: however long, it is cut into
  frames that each fit one message, none of them empty, all are sealed, and the other end reads the
  same bytes back in order; or, when the session has not enough messages left for all of them, none is
  sealed and the session is closed.\<close>

theorem stream_arrives_whole:
  assumes "transport_counts S" "transport_writes S" "transport_linked S linked"
    "linked (ns_transport a) (ns_transport b)" "\<not> ns_closed a" "\<not> ns_closed b" "stream_id \<noteq> 0"
    "sent_so_far S a \<le> 2 ^ 32"
  shows "if sent_so_far S a + length (chunks MAX_INNER_PAYLOAD_LEN data) \<le> 2 ^ 32
    then \<exists>cs fs a' b'. encrypt_data_chunks S stream_id data a = (Inr cs, a') \<and> decrypt_each S cs b = (Inr fs, b') \<and>
      concat (map if_payload fs) = data \<and>
      (\<forall>f \<in> set fs. if_kind f = InnerData \<and> if_stream_id f = stream_id \<and> if_payload f \<noteq> []) \<and>
      linked (ns_transport a') (ns_transport b')
    else encrypt_data_chunks S stream_id data a = (Inl NoiseExhausted, a\<lparr>ns_closed := True\<rparr>)"
proof -
  obtain fs where fs: "split_data stream_id data = Inr fs" using split_data_eq [OF assms(7)] by blast
  note ok = split_data_ok [OF assms(7) fs]
  have fit: "chunks_fit (sending_nonce S (ns_transport a)) (length fs) \<longleftrightarrow> sent_so_far S a + length fs \<le> 2 ^ 32"
    by (rule chunks_fit_iff [OF assms(8)])
  have run: "encrypt_data_chunks S stream_id data a =
      (if sent_so_far S a + length fs \<le> 2 ^ 32 then encrypt_each S fs a else (Inl NoiseExhausted, a\<lparr>ns_closed := True\<rparr>))"
    using assms(5) fs fit by (simp add: encrypt_data_chunks_def ensure_open_def io_bind_def)
  show ?thesis
  proof (cases "sent_so_far S a + length fs \<le> 2 ^ 32")
    case True
    with ok obtain cs a' b' where "encrypt_each S fs a = (Inr cs, a')" "decrypt_each S cs b = (Inr fs, b')"
      "linked (ns_transport a') (ns_transport b')"
      using frames_delivered [OF assms(1-6), of fs] by blast
    with run ok True show ?thesis by auto
  next
    case False
    with run ok show ?thesis by simp
  qed
qed

text \<open>C20. Whatever is asked of a session, in any order, it hands out at most \<open>2 ^ 32\<close> sealed messages over its
  life; and once a message failed to authenticate, or the limit was met, every later call is refused.\<close>

theorem session_limit_and_end:
  assumes "transport_counts S" "sent_so_far S s \<le> 2 ^ 32" "run_calls S cs s = (as, s')"
  shows "sent_so_far S s + length (concat (map sealed_messages as)) \<le> 2 ^ 32 \<and>
    (\<forall>i e. i < length as \<longrightarrow> as ! i = Refused e \<longrightarrow> fatal e \<longrightarrow>
       ns_closed s' \<and> (\<forall>j. i < j \<longrightarrow> j < length as \<longrightarrow> as ! j = Refused NoiseClosed))"
  using run_calls_counts [OF assms(1,3,2)] run_calls_fatal [OF assms(3)] by (meson le_trans)

text \<open>C17. A responder's session comes only from a handshake that was expected, in time, with a usable pinned
  key and a usable ephemeral key, which is then gone from the table; and nothing is sealed on it before
  a message from the peer has authenticated, so a replayed first message is never answered with data.\<close>

theorem responder_waits_for_proof:
  assumes "snow_roles S" "handshake_accept S sid k seed message now t = (Inr (s, reply), t')"
    "channel_run S P cs s = (as, s')" "i < length as" "as ! i = ChannelSealed (Inr m)"
  shows "(\<exists>j < i. proves_peer (as ! j)) \<and> \<not> is_expecting t' sid \<and>
    (\<exists>w. bt_get t sid = Some w \<and> now < aw_deadline w \<and> \<not> is_low_order_public_key (aw_remote_public_key w)) \<and>
    (KEY_LEN \<le> length message \<longrightarrow> \<not> is_low_order_public_key (take KEY_LEN message))"
proof -
  obtain w where w: "bt_get t sid = Some w" "now < aw_deadline w" "t' = bt_remove sid t"
    "\<not> is_low_order_public_key (aw_remote_public_key w)"
    "KEY_LEN \<le> length message \<longrightarrow> \<not> is_low_order_public_key (take KEY_LEN message)" "\<not> ns_confirmed s"
    by (rule accepted_session [OF assms(1,2)])
  have "\<not> is_expecting t' sid" by (simp add: is_expecting_def w(3) bt_get_remove)
  with w sealed_after_proof [OF w(6) assms(3-5)] show ?thesis by blast
qed

text \<open>A control message sealed by a confirmed end and opened by the other reads back as the message it
  was, on the control stream, and proves the sender: every variant of the protocol, with its optional
  and defaulted fields, survives encoding, framing and sealing.\<close>

theorem control_message_arrives:
  assumes "json_ok P" "transport_counts S" "transport_writes S" "transport_linked S linked"
    "linked (ns_transport a) (ns_transport b)" "\<not> ns_closed a" "\<not> ns_closed b" "ns_confirmed a"
    "sent_so_far S a < 2 ^ 32" "encode_control P c = Inr bs" "bs \<noteq> []"
  shows "\<exists>m a' f b'. seal_control S P c a = (Inr m, a') \<and> channel_open S m b = (Inr f, b') \<and>
    read_control P f = Inr c \<and> if_kind f = InnerControl \<and> if_stream_id f = 0 \<and> ns_confirmed b' \<and>
    linked (ns_transport a') (ns_transport b')"
proof -
  note d = decode_encode_control [OF assms(1,10)]
  let ?f = "\<lparr>if_kind = InnerControl, if_stream_id = 0, if_payload = bs\<rparr>"
  have ok: "inner_frame_ok ?f" using d assms(11) by (simp add: inner_frame_ok_def)
  then have f: "inner_control bs = Inr ?f" by (simp add: inner_control_def inner_validated_Inr)
  have dec: "decode_inner_frame (encode_inner_frame ?f) = Inr ?f" using ok by (simp add: decode_inner_iff)
  obtain m t u where m: "encrypt S (encode_inner_frame ?f) a = (Inr m, a\<lparr>ns_transport := t\<rparr>)"
    "decrypt S m b = (Inr (encode_inner_frame ?f), b\<lparr>ns_transport := u, ns_confirmed := True\<rparr>)" "linked t u"
    by (rule message_delivered [OF assms(2-7) inner_frame_fits [OF ok] assms(9)])
  have "seal_control S P c a = (Inr m, a\<lparr>ns_transport := t\<rparr>)"
    using assms(8,10) f m(1) by (simp add: seal_control_def seal_encoded_control_def require_confirmed_def is_confirmed_def
        io_bind_def io_map_err_def encrypt_frame_def)
  moreover have "channel_open S m b = (Inr ?f, b\<lparr>ns_transport := u, ns_confirmed := True\<rparr>)"
    using m(2) dec by (simp add: channel_open_def decrypt_frame_def io_bind_def)
  ultimately show ?thesis using d m(3) by (auto simp: read_control_def)
qed

text \<open>At most eight handshakes are waiting at any moment, however often the relay announces sessions, as
  long as a session that ran out of time is not announced again before it was swept.\<close>

theorem half_open_handshakes_bounded:
  assumes "table_run S now t" "now \<le> later"
  shows "waiting later t \<le> MAX_HALF_OPEN_HANDSHAKES"
  using table_bounded [OF assms(1)] waiting_later [OF assms(2), of t] by linarith

section \<open>The properties at an instance\<close>

definition demo_a :: "ref_transport noise_session" where
  "demo_a = \<lparr>ns_transport = \<lparr>rt_send = [1], rt_receive = [2], rt_sent = 0, rt_received = 0\<rparr>, ns_closed = False, ns_confirmed = True\<rparr>"

definition demo_b :: "ref_transport noise_session" where
  "demo_b = \<lparr>ns_transport = \<lparr>rt_send = [2], rt_receive = [1], rt_sent = 0, rt_received = 0\<rparr>, ns_closed = False, ns_confirmed = False\<rparr>"

lemma demo_sent [simp]: "sent_so_far ref_snow demo_a = 0" "sent_so_far ref_snow demo_b = 0"
  by (simp_all add: sent_so_far_def ref_snow_def demo_a_def demo_b_def)

theorem stream_arrives_whole_witness:
  "\<exists>cs fs a' b'. encrypt_data_chunks ref_snow 9 [5, 6, 7] demo_a = (Inr cs, a') \<and>
     decrypt_each ref_snow cs demo_b = (Inr fs, b') \<and> concat (map if_payload fs) = [5, 6, 7]"
proof -
  have l: "ref_linked (ns_transport demo_a) (ns_transport demo_b)" "\<not> ns_closed demo_a" "\<not> ns_closed demo_b" "(9 :: u32) \<noteq> 0"
    "sent_so_far ref_snow demo_a \<le> 2 ^ 32"
    by (simp_all add: ref_linked_def) (simp_all add: demo_a_def demo_b_def)
  have "length (chunks MAX_INNER_PAYLOAD_LEN [5, 6, 7 :: u8]) \<le> 1" by (simp add: length_chunks frame_limits)
  with stream_arrives_whole [OF ref_snow_ok(1-3) l, of "[5, 6, 7]"] show ?thesis by (auto split: if_splits)
qed

theorem session_limit_and_end_witness:
  "\<exists>as s'. run_calls ref_snow [CallDecrypt [], CallEncrypt [1]] demo_b = (as, s') \<and>
     length (concat (map sealed_messages as)) \<le> 2 ^ 32 \<and> ns_closed s' \<and> as ! 1 = Refused NoiseClosed"
proof -
  obtain as s' where r: "run_calls ref_snow [CallDecrypt [], CallEncrypt [1]] demo_b = (as, s')" by force
  have d: "run_call ref_snow (CallDecrypt []) demo_b =
      (Refused (NoiseSnow ''decrypt error''), demo_b\<lparr>ns_closed := True\<rparr>)"
    by (simp add: answer_def session_call_defs demo_b_def ref_snow_def ref_read_message_def MAX_NOISE_MESSAGE_LEN_def
        MAX_MESSAGES_PER_DIRECTION_def)
  have "length as = 2" using length_run_calls [OF r] by simp
  moreover have "as ! 0 = Refused (NoiseSnow ''decrypt error'')" using r d by (auto split: prod.splits)
  ultimately show ?thesis
    using r session_limit_and_end [OF ref_snow_ok(1) _ r] by force
qed

definition demo_initiator :: bytes where "demo_initiator = 7 # replicate 31 3"

definition demo_responder :: bytes where "demo_responder = 7 # replicate 31 4"

definition demo_secret :: bytes where "demo_secret = (7 # replicate 31 1) @ (7 # replicate 31 2)"

definition demo_first :: bytes where
  "demo_first = (7 # replicate 31 1) @ ref_tag16 demo_initiator [] demo_responder"

definition demo_table :: responder_handshakes where
  "demo_table = [(1, \<lparr>aw_remote_public_key = demo_initiator, aw_prologue = [], aw_deadline = 1\<rparr>)]"

definition demo_session :: "ref_transport noise_session" where
  "demo_session = \<lparr>ns_transport = \<lparr>rt_send = 2 # demo_secret, rt_receive = 1 # demo_secret, rt_sent = 0, rt_received = 0\<rparr>,
     ns_closed = False, ns_confirmed = False\<rparr>"

lemma length_ref_tag16 [simp]: "length (ref_tag16 k n a) = 16"
  by (simp add: ref_tag16_def)

lemma demo_keys_usable: "\<not> is_low_order_public_key demo_initiator" "\<not> is_low_order_public_key (7 # replicate 31 1)"
  by code_simp+

lemma demo_accepted:
  "\<exists>reply. handshake_accept ref_snow 1 (replicate 32 4) (Some (replicate 32 2)) demo_first 0 demo_table =
     (Inr (demo_session, reply), [])"
proof -
  have t: "take KEY_LEN demo_first = 7 # replicate 31 1" "length demo_first = 48"
    by (simp_all add: demo_first_def KEY_LEN_def)
  have r: "ref_public (replicate 32 4) = Inr demo_responder" "ref_public (replicate 32 2) = Inr (7 # replicate 31 2)"
    by (simp_all add: ref_public_def demo_responder_def)
  have read: "ref_hs_read h demo_first n = (Inr [], h\<lparr>rh_their_e := Some (7 # replicate 31 1)\<rparr>)"
    if "rh_theirs h = demo_initiator" "rh_prologue h = []" "rh_mine h = demo_responder" for h n
    using that t(2) by (simp add: ref_hs_read_def demo_first_def)
  show ?thesis
    by (simp add: handshake_accept_def demo_table_def bt_get_def bt_remove_def handshake_responder_def handshake_build_def
        demo_keys_usable ref_snow_def ref_build_def r read_message_def write_message_def ensure_usable_def read_checked_def
        io_bind_def io_case_def t read MAX_NOISE_MESSAGE_LEN_def MAX_HANDSHAKE_PAYLOAD_LEN_def ref_hs_write_def ref_keypair_def
        into_session_def ref_into_transport_def demo_session_def demo_secret_def Let_def)
qed

lemma demo_calls:
  "\<exists>m s'. channel_run ref_snow P [OpenMessage (ref_tag16 (1 # demo_secret) (u64_to_le_bytes 0) []), SealEndOfStream 9] demo_session =
     ([ChannelOpened (Inl (NoiseFrame (Truncated 0 INNER_HEADER_LEN))), ChannelSealed (Inr m)], s')"
  by (simp add: channel_open_def decrypt_frame_def session_call_defs demo_session_def ref_snow_def ref_read_message_def
      MAX_NOISE_MESSAGE_LEN_def MAX_MESSAGES_PER_DIRECTION_def decode_inner_frame_def seal_end_of_stream_def
      require_confirmed_def is_confirmed_def end_of_stream_def inner_validated_def encrypt_frame_def encode_inner_frame_def
      ref_write_def frame_limits NOISE_TAG_LEN_def io_map_err_def word_less_nat_alt unsigned_minus_1_eq_mask
      mask_eq_exp_minus_1)

theorem responder_waits_for_proof_witness:
  "\<exists>reply as s' m. handshake_accept ref_snow 1 (replicate 32 4) (Some (replicate 32 2)) demo_first 0 demo_table =
       (Inr (demo_session, reply), []) \<and>
     channel_run ref_snow ref_prims
       [OpenMessage (ref_tag16 (1 # demo_secret) (u64_to_le_bytes 0) []), SealEndOfStream 9] demo_session = (as, s') \<and>
     as ! 1 = ChannelSealed (Inr m) \<and> proves_peer (as ! 0)"
proof -
  obtain reply where a: "handshake_accept ref_snow 1 (replicate 32 4) (Some (replicate 32 2)) demo_first 0 demo_table =
       (Inr (demo_session, reply), [])"
    using demo_accepted by blast
  obtain m s' as where c: "channel_run ref_snow ref_prims
       [OpenMessage (ref_tag16 (1 # demo_secret) (u64_to_le_bytes 0) []), SealEndOfStream 9] demo_session = (as, s')"
    "as = [ChannelOpened (Inl (NoiseFrame (Truncated 0 INNER_HEADER_LEN))), ChannelSealed (Inr m)]"
    using demo_calls by blast
  have "1 < length as" "as ! 1 = ChannelSealed (Inr m)" by (simp_all add: c(2))
  with responder_waits_for_proof [OF ref_snow_ok(4) a c(1) this] a c(1) show ?thesis by (auto simp: less_Suc_eq)
qed

theorem half_open_handshakes_bounded_witness:
  "table_run ref_snow 0 (snd (handshake_expect 5 demo_initiator [] 0 [])) \<and>
     waiting 3 (snd (handshake_expect 5 demo_initiator [] 0 [])) \<le> MAX_HALF_OPEN_HANDSHAKES"
proof -
  obtain r t where e: "handshake_expect 5 demo_initiator [] 0 [] = (r, t)" by force
  have "table_run ref_snow 0 t"
    by (rule table_run.expect [OF table_run.empty _ _ e]) (simp_all add: bt_get_def)
  with e half_open_handshakes_bounded [OF this, of 3] show ?thesis by simp
qed

lemma demo_ping_text: "json_text ref_prims (control_json Ping) = Inr ''{\"t\":\"ping\"}''"
  by code_simp

lemma demo_ping: "encode_control ref_prims Ping = Inr (as_bytes ''{\"t\":\"ping\"}'')"
  unfolding encode_control_def demo_ping_text by (simp add: Let_def as_bytes_def frame_limits)

theorem control_message_arrives_witness:
  "\<exists>m a' f b'. seal_control ref_snow ref_prims Ping demo_a = (Inr m, a') \<and> channel_open ref_snow m demo_b = (Inr f, b') \<and>
     read_control ref_prims f = Inr Ping"
proof -
  have l: "ref_linked (ns_transport demo_a) (ns_transport demo_b)" "\<not> ns_closed demo_a" "\<not> ns_closed demo_b" "ns_confirmed demo_a"
    by (simp_all add: ref_linked_def demo_a_def demo_b_def)
  have "sent_so_far ref_snow demo_a < 2 ^ 32" by simp
  moreover have "as_bytes ''{\"t\":\"ping\"}'' \<noteq> []" by (simp add: as_bytes_def)
  ultimately show ?thesis
    using control_message_arrives [OF ref_json_ok ref_snow_ok(1-3) l _ demo_ping] by blast
qed

end
