(* ===== verification/Relay_Trust.thy ===== *)
theory Relay_Trust
  imports Total_Reference Relay_Keys
begin

text \<open>
  The devices a machine has paired with (\<^verbatim>\<open>remote_relay_client\<close>'s \<^verbatim>\<open>trust_store.rs\<close>): the pins of one
  account and one role, held in memory and written through to the key-value store. A change hands its
  write to a background task, and each such task waits for the one before it, so the store carries the
  values still to be written, oldest first, and \<open>write_next\<close> is the task at their front finishing.
  What is shown: pins survive a restart, one account's and role's record never touches another's, and
  a record that could not be read is never written over.
\<close>

section \<open>Pins\<close>

definition MAX_PINNED_DEVICES :: nat where
  "MAX_PINNED_DEVICES = 32"

record pinned_device =
  pin_device_id :: string
  pin_public_key :: bytes
  pin_name :: string
  pin_paired_at :: u64

record stored_device =
  sd_device_id :: string
  sd_public_key :: string
  sd_name :: string
  sd_paired_at :: u64

datatype trust_error = TrustTooMany | TrustUnreadable | TrustNotSaved string

fun trust_display :: "trust_error \<Rightarrow> string" where
  "trust_display TrustTooMany = ''too many devices are already trusted''"
| "trust_display TrustUnreadable =
     ''the saved trusted devices could not be read, so nothing can be changed until they can''"
| "trust_display (TrustNotSaved e) = ''the trusted devices could not be saved: '' @ e"

datatype trust_role = Controllers | Hosts

definition storage_key :: "string \<Rightarrow> trust_role \<Rightarrow> string" where
  "storage_key user_id role =
     (case role of
        Controllers \<Rightarrow> ''remote_control_trust:'' @ user_id
      | Hosts \<Rightarrow> ''remote_control_hosts:'' @ user_id)"

datatype saved_record = RecordIntact | SomePinsLost | RecordUnreadable

definition encode_device_key :: "prims \<Rightarrow> bytes \<Rightarrow> string" where
  "encode_device_key P public_key = b64url_encode P public_key"

definition decode_device_key :: "prims \<Rightarrow> string \<Rightarrow> bytes option" where
  "decode_device_key P encoded =
     (case b64url_decode P encoded of
        None \<Rightarrow> None
      | Some bs \<Rightarrow> if length bs = KEY_LEN then Some bs else None)"

section \<open>The store\<close>

record trust_store =
  tr_user_id :: string
  tr_role :: trust_role
  tr_pins :: "pinned_device list"
  tr_saved_record :: saved_record
  tr_unwritten :: "string list"
  tr_write_error :: "trust_error option"

definition with_record :: "string \<Rightarrow> trust_role \<Rightarrow> pinned_device list \<Rightarrow> saved_record \<Rightarrow> trust_store" where
  "with_record user_id role pins saved =
     \<lparr>tr_user_id = user_id, tr_role = role, tr_pins = pins, tr_saved_record = saved, tr_unwritten = [],
      tr_write_error = None\<rparr>"

definition empty_for :: "string \<Rightarrow> trust_role \<Rightarrow> trust_store" where
  "empty_for user_id role = with_record user_id role [] RecordIntact"

definition stored_device_of_json :: "json \<Rightarrow> stored_device option" where
  "stored_device_of_json j =
     (case struct_fields_default [''device_id'', ''public_key'', ''name'', ''paired_at''] [] j of
        Some [a, b, c, d] \<Rightarrow>
          apply_field (apply_field (apply_field (apply_field (Some stored_device.make)
            (as_req as_str a))
            (as_req as_str b))
            (as_req as_str c))
            (as_req as_u64 d)
      | _ \<Rightarrow> None)"

definition stored_device_json :: "stored_device \<Rightarrow> json" where
  "stored_device_json d =
     JObj (present_fields [''device_id'', ''public_key'', ''name'', ''paired_at'']
       [Some (JStr (sd_device_id d)), Some (JStr (sd_public_key d)), Some (JStr (sd_name d)),
        Some (JNum (uint (sd_paired_at d)))])"

definition pin_of_stored :: "prims \<Rightarrow> stored_device \<Rightarrow> pinned_device option" where
  "pin_of_stored P d =
     map_option (\<lambda>k. \<lparr>pin_device_id = sd_device_id d, pin_public_key = k, pin_name = sd_name d,
                      pin_paired_at = sd_paired_at d\<rparr>) (decode_device_key P (sd_public_key d))"

definition stored_of_pin :: "prims \<Rightarrow> pinned_device \<Rightarrow> stored_device" where
  "stored_of_pin P pin =
     \<lparr>sd_device_id = pin_device_id pin, sd_public_key = encode_device_key P (pin_public_key pin),
      sd_name = pin_name pin, sd_paired_at = pin_paired_at pin\<rparr>"

definition load_pins :: "prims \<Rightarrow> string + string option \<Rightarrow> pinned_device list \<times> saved_record" where
  "load_pins P row =
     (case row of
        Inr None \<Rightarrow> ([], RecordIntact)
      | Inr (Some raw) \<Rightarrow>
          (case bind_res (json_read P raw) (\<lambda>j. ok_or (serde_error P j) (as_list stored_device_of_json j)) of
             Inr stored \<Rightarrow>
               let pins = take MAX_PINNED_DEVICES (List.map_filter (pin_of_stored P) stored) in
               if length pins = length stored then (pins, RecordIntact) else (pins, SomePinsLost)
           | Inl _ \<Rightarrow> ([], RecordUnreadable))
      | Inl _ \<Rightarrow> ([], RecordUnreadable))"

definition load_for :: "prims \<Rightarrow> string \<Rightarrow> trust_role \<Rightarrow> 'w world \<Rightarrow> trust_store \<times> 'w world" where
  "load_for P user_id role w =
     (case kv_read (storage_key user_id role) w of
        (row, w) \<Rightarrow> (case load_pins P row of (pins, saved) \<Rightarrow> (with_record user_id role pins saved, w)))"

definition is_unreadable :: "trust_store \<Rightarrow> bool" where
  "is_unreadable s = (tr_saved_record s \<noteq> RecordIntact)"

definition trust_get :: "trust_store \<Rightarrow> string \<Rightarrow> pinned_device option" where
  "trust_get s device_id = List.find (\<lambda>pin. pin_device_id pin = device_id) (tr_pins s)"

definition check_can_pin :: "trust_store \<Rightarrow> string \<Rightarrow> trust_error + unit" where
  "check_can_pin s device_id =
     (if tr_saved_record s = RecordUnreadable then Inl TrustUnreadable
      else if trust_get s device_id = None \<and> MAX_PINNED_DEVICES \<le> length (tr_pins s) then Inl TrustTooMany
      else Inr ())"

definition persist :: "prims \<Rightarrow> trust_store \<Rightarrow> trust_store" where
  "persist P s =
     (case json_text P (JArr (map (\<lambda>pin. stored_device_json (stored_of_pin P pin)) (tr_pins s))) of
        Inl e \<Rightarrow> s\<lparr>tr_write_error := Some (TrustNotSaved e)\<rparr>
      | Inr value \<Rightarrow> s\<lparr>tr_saved_record := RecordIntact, tr_unwritten := tr_unwritten s @ [value]\<rparr>)"

text \<open>The first pin with the device's id is replaced in place.\<close>

fun replace_pin :: "pinned_device \<Rightarrow> pinned_device list \<Rightarrow> pinned_device list" where
  "replace_pin d [] = [d]"
| "replace_pin d (p # ps) = (if pin_device_id p = pin_device_id d then d # ps else p # replace_pin d ps)"

definition trust_pin :: "prims \<Rightarrow> pinned_device \<Rightarrow> (trust_store, trust_error, unit) io" where
  "trust_pin P device s =
     (case check_can_pin s (pin_device_id device) of
        Inl e \<Rightarrow> (Inl e, s)
      | Inr _ \<Rightarrow> (Inr (), persist P (s\<lparr>tr_pins := replace_pin device (tr_pins s)\<rparr>)))"

definition try_forget :: "prims \<Rightarrow> string \<Rightarrow> (trust_store, trust_error, bool) io" where
  "try_forget P device_id s =
     (if tr_saved_record s = RecordUnreadable then (Inl TrustUnreadable, s)
      else
        let pins = filter (\<lambda>pin. pin_device_id pin \<noteq> device_id) (tr_pins s);
            gone = (length pins \<noteq> length (tr_pins s));
            s = s\<lparr>tr_pins := pins\<rparr>
        in (Inr gone, if gone then persist P s else s))"

definition try_forget_all :: "prims \<Rightarrow> (trust_store, trust_error, unit) io" where
  "try_forget_all P s =
     (if tr_saved_record s = RecordUnreadable then (Inl TrustUnreadable, s)
      else (Inr (), if tr_pins s \<noteq> [] then persist P (s\<lparr>tr_pins := []\<rparr>) else s))"

text \<open>For a caller with nobody to tell: the refusal is only logged.\<close>

definition trust_forget :: "prims \<Rightarrow> string \<Rightarrow> trust_store \<Rightarrow> bool \<times> trust_store" where
  "trust_forget P device_id s =
     (case try_forget P device_id s of (Inr gone, s) \<Rightarrow> (gone, s) | (Inl _, s) \<Rightarrow> (False, s))"

definition trust_forget_all :: "prims \<Rightarrow> trust_store \<Rightarrow> trust_store" where
  "trust_forget_all P s = snd (try_forget_all P s)"

definition write_next :: "trust_store \<Rightarrow> 'w world \<Rightarrow> trust_store \<times> 'w world" where
  "write_next s w =
     (case tr_unwritten s of
        [] \<Rightarrow> (s, w)
      | value # rest \<Rightarrow>
          (case kv_write (storage_key (tr_user_id s) (tr_role s)) value w of
             (Inr _, w) \<Rightarrow> (s\<lparr>tr_unwritten := rest, tr_write_error := None\<rparr>, w)
           | (Inl e, w) \<Rightarrow> (s\<lparr>tr_unwritten := rest, tr_write_error := Some (TrustNotSaved e)\<rparr>, w)))"

definition flush :: "trust_store \<Rightarrow> 'w world \<Rightarrow> trust_store \<times> 'w world" where
  "flush s w = ((\<lambda>(s, w). write_next s w) ^^ length (tr_unwritten s)) (s, w)"

definition flush_checked :: "trust_store \<Rightarrow> 'w world \<Rightarrow> (trust_error + unit) \<times> trust_store \<times> 'w world" where
  "flush_checked s w =
     (case flush s w of (s, w) \<Rightarrow>
        ((case tr_write_error s of None \<Rightarrow> Inr () | Some e \<Rightarrow> Inl e), s, w))"

section \<open>Changes in a row\<close>

datatype trust_change = PinDevice pinned_device | ForgetDevice string | ForgetAll

fun apply_change :: "prims \<Rightarrow> trust_change \<Rightarrow> trust_store \<Rightarrow> trust_store" where
  "apply_change P (PinDevice d) s = snd (trust_pin P d s)"
| "apply_change P (ForgetDevice i) s = snd (try_forget P i s)"
| "apply_change P ForgetAll s = snd (try_forget_all P s)"

section \<open>What is relied on\<close>

definition b64url_ok :: "prims \<Rightarrow> bool" where
  "b64url_ok P \<longleftrightarrow> (\<forall>x. b64url_decode P (b64url_encode P x) = Some x)"

definition kv_calm :: "'w world \<Rightarrow> bool" where
  "kv_calm w \<longleftrightarrow> (\<forall>t. kv_fault w t = None)"

lemma kv_calm_simps [simp]: "kv_calm (advance w) = kv_calm w" "kv_calm (w\<lparr>kv_rows := rows\<rparr>) = kv_calm w"
  by (simp_all add: kv_calm_def advance_def)

lemma kv_rows_advance [simp]: "kv_rows (advance w) = kv_rows w"
  by (simp add: advance_def)

section \<open>Storage keys\<close>

lemma storage_key_inj: "storage_key u r = storage_key u' r' \<longleftrightarrow> u = u' \<and> r = r'"
  by (cases r; cases r') (simp_all add: storage_key_def)

section \<open>The invariant\<close>

definition pin_ok :: "pinned_device \<Rightarrow> bool" where
  "pin_ok pin \<longleftrightarrow> length (pin_public_key pin) = KEY_LEN"

fun change_ok :: "trust_change \<Rightarrow> bool" where
  "change_ok (PinDevice d) = pin_ok d"
| "change_ok c = True"

definition trust_ok :: "trust_store \<Rightarrow> bool" where
  "trust_ok s \<longleftrightarrow> length (tr_pins s) \<le> MAX_PINNED_DEVICES \<and> (\<forall>pin \<in> set (tr_pins s). pin_ok pin)"

lemma set_replace_pin: "set (replace_pin d ps) \<subseteq> insert d (set ps)"
  by (induction ps) auto

lemma length_replace_pin:
  "length (replace_pin d ps) = (if List.find (\<lambda>p. pin_device_id p = pin_device_id d) ps = None then Suc (length ps) else length ps)"
  by (induction ps) auto

lemma find_replace_pin: "List.find (\<lambda>p. pin_device_id p = i) (replace_pin d ps) =
    (if pin_device_id d = i then Some d else List.find (\<lambda>p. pin_device_id p = i) ps)"
  by (induction ps) auto

lemma persist_simps [simp]:
  "tr_pins (persist P s) = tr_pins s" "tr_user_id (persist P s) = tr_user_id s" "tr_role (persist P s) = tr_role s"
  by (simp_all add: persist_def split: sum.split)

lemma apply_change_ok:
  assumes "trust_ok s" "change_ok c"
  shows "trust_ok (apply_change P c s)"
proof (cases c)
  case (PinDevice d)
  have "length (replace_pin d (tr_pins s)) \<le> MAX_PINNED_DEVICES" if "check_can_pin s (pin_device_id d) = Inr ()"
    using that assms(1) by (auto simp: check_can_pin_def trust_ok_def trust_get_def length_replace_pin split: if_splits)
  moreover have "\<forall>pin \<in> set (replace_pin d (tr_pins s)). pin_ok pin"
    using assms PinDevice set_replace_pin [of d "tr_pins s"] by (auto simp: trust_ok_def)
  ultimately show ?thesis
    using assms(1) PinDevice by (auto simp: trust_pin_def trust_ok_def split: sum.split)
next
  case (ForgetDevice i)
  with assms(1) show ?thesis
    by (auto simp: try_forget_def trust_ok_def Let_def intro: order_trans [OF length_filter_le])
next
  case ForgetAll
  with assms(1) show ?thesis by (auto simp: try_forget_all_def trust_ok_def)
qed

lemma apply_change_who [simp]:
  "tr_user_id (apply_change P c s) = tr_user_id s" "tr_role (apply_change P c s) = tr_role s"
  by (cases c; simp add: trust_pin_def try_forget_def try_forget_all_def Let_def split: sum.split)+

lemma decode_device_key_ok: "decode_device_key P e = Some k \<Longrightarrow> length k = KEY_LEN"
  by (auto simp: decode_device_key_def split: option.splits if_splits)

lemma load_pins_ok:
  assumes "load_pins P row = (pins, saved)"
  shows "length pins \<le> MAX_PINNED_DEVICES \<and> (\<forall>pin \<in> set pins. pin_ok pin) \<and> (saved = RecordUnreadable \<longrightarrow> pins = [])"
proof -
  have "pin_ok pin" if "pin \<in> set (List.map_filter (pin_of_stored P) ds)" for pin ds
    using that by (auto simp: List.map_filter_def pin_of_stored_def pin_ok_def dest: decode_device_key_ok)
  with assms show ?thesis
    by (auto simp: load_pins_def Let_def split: sum.splits option.splits if_splits dest: in_set_takeD)
qed

section \<open>What is written is read\<close>

lemma stored_device_read [simp]: "stored_device_of_json (stored_device_json d) = Some d"
  by (simp add: stored_device_of_json_def stored_device_json_def struct_fields_present stored_device.defs
      del: present_fields.simps)

lemma stored_pin_read:
  assumes "b64url_ok P" "pin_ok pin"
  shows "pin_of_stored P (stored_of_pin P pin) = Some pin"
  using assms by (simp add: pin_of_stored_def stored_of_pin_def decode_device_key_def encode_device_key_def
      b64url_ok_def pin_ok_def)

lemma written_pins_read:
  assumes "json_ok P" "b64url_ok P" "length pins \<le> MAX_PINNED_DEVICES" "\<forall>pin \<in> set pins. pin_ok pin"
    "json_text P (JArr (map (\<lambda>pin. stored_device_json (stored_of_pin P pin)) pins)) = Inr v"
  shows "load_pins P (Inr (Some v)) = (pins, RecordIntact)"
proof -
  let ?stored = "map (stored_of_pin P) pins"
  have "json_read P v = Inr (JArr (map (\<lambda>pin. stored_device_json (stored_of_pin P pin)) pins))"
    using assms(1,5) by (auto simp: json_ok_def)
  moreover have "as_list stored_device_of_json (JArr (map (\<lambda>pin. stored_device_json (stored_of_pin P pin)) pins)) = Some ?stored"
    using read_all_map [of ?stored stored_device_of_json stored_device_json] by (simp add: as_list_def comp_def)
  moreover have "List.map_filter (pin_of_stored P) ?stored = pins"
    using assms(4) by (induction pins) (auto simp: map_filter_simps stored_pin_read [OF assms(2)])
  ultimately show ?thesis using assms(3) by (simp add: load_pins_def)
qed

text \<open>What the key-value store will hold for this store once every write made so far is done.\<close>

definition settled_row :: "string option \<Rightarrow> trust_store \<Rightarrow> string option" where
  "settled_row row s = (if tr_unwritten s = [] then row else Some (last (tr_unwritten s)))"

lemma persist_settled:
  assumes "json_ok P" "json_total P" "b64url_ok P" "trust_ok s"
  shows "fst (load_pins P (Inr (settled_row row (persist P s)))) = tr_pins s"
proof -
  obtain v where v: "json_text P (JArr (map (\<lambda>pin. stored_device_json (stored_of_pin P pin)) (tr_pins s))) = Inr v"
    by (rule json_totalE [OF assms(2)])
  from written_pins_read [OF assms(1,3) _ _ v] assms(4) v show ?thesis
    by (simp add: persist_def settled_row_def trust_ok_def)
qed

lemma filter_nothing_gone: "length (filter p xs) = length xs \<Longrightarrow> filter p xs = xs"
proof (induction xs)
  case (Cons x xs)
  then show ?case using length_filter_le [of p xs] by (auto simp del: length_filter_le split: if_splits)
qed simp

lemma apply_change_cases:
  "apply_change P c s = s \<or> (\<exists>s1. apply_change P c s = persist P s1 \<and> tr_pins s1 = tr_pins (apply_change P c s))"
proof (cases c)
  case (PinDevice d)
  then show ?thesis by (auto simp: trust_pin_def split: sum.split)
next
  case (ForgetDevice i)
  then show ?thesis by (auto simp: try_forget_def Let_def dest: filter_nothing_gone)
next
  case ForgetAll
  then show ?thesis by (auto simp: try_forget_all_def)
qed

lemma changes_settled:
  assumes "json_ok P" "json_total P" "b64url_ok P"
  shows "trust_ok s \<Longrightarrow> list_all change_ok cs \<Longrightarrow> fst (load_pins P (Inr (settled_row row s))) = tr_pins s \<Longrightarrow>
    trust_ok (fold (apply_change P) cs s) \<and>
    fst (load_pins P (Inr (settled_row row (fold (apply_change P) cs s)))) = tr_pins (fold (apply_change P) cs s)"
proof (induction cs arbitrary: s)
  case (Cons c cs)
  have ok: "trust_ok (apply_change P c s)" using apply_change_ok Cons.prems by simp
  have "fst (load_pins P (Inr (settled_row row (apply_change P c s)))) = tr_pins (apply_change P c s)"
    using apply_change_cases [of P c s]
  proof
    assume "\<exists>s1. apply_change P c s = persist P s1 \<and> tr_pins s1 = tr_pins (apply_change P c s)"
    then obtain s1 where s1: "apply_change P c s = persist P s1" "tr_pins s1 = tr_pins (apply_change P c s)" by blast
    have "trust_ok s1" using ok unfolding trust_ok_def s1(2) .
    from persist_settled [OF assms this, of row] show ?thesis unfolding s1(1) by simp
  qed (use Cons.prems(3) in simp)
  with Cons.IH [OF ok] Cons.prems(2) show ?case by simp
qed simp

lemma changes_who [simp]:
  "tr_user_id (fold (apply_change P) cs s) = tr_user_id s" "tr_role (fold (apply_change P) cs s) = tr_role s"
  by (induction cs arbitrary: s) simp_all

lemma changes_refused:
  assumes "tr_saved_record s = RecordUnreadable"
  shows "fold (apply_change P) cs s = s"
proof -
  have "apply_change P c s = s" for c
    using assms by (cases c) (simp_all add: trust_pin_def check_can_pin_def try_forget_def try_forget_all_def)
  then show ?thesis by (induction cs) simp_all
qed

section \<open>Writing it down\<close>

lemma flush_rec:
  "flush s w = (if tr_unwritten s = [] then (s, w) else case write_next s w of (s1, w1) \<Rightarrow> flush s1 w1)"
proof (cases "tr_unwritten s")
  case (Cons v vs)
  obtain s1 w1 where n: "write_next s w = (s1, w1)" by force
  then have "tr_unwritten s1 = vs" using Cons by (auto simp: write_next_def split: prod.splits sum.splits)
  with Cons n show ?thesis by (simp add: flush_def funpow_swap1)
qed (simp add: flush_def)

lemma flush_effect:
  "kv_calm w \<Longrightarrow> flush s w = (s', w') \<Longrightarrow>
     map_of (kv_rows w') =
       (if tr_unwritten s = [] then map_of (kv_rows w)
        else (map_of (kv_rows w))(storage_key (tr_user_id s) (tr_role s) \<mapsto> last (tr_unwritten s))) \<and>
     kv_calm w' \<and> (tr_unwritten s = [] \<longrightarrow> w' = w)"
proof (induction "tr_unwritten s" arbitrary: s w)
  case (Cons v vs)
  let ?w1 = "(advance w)\<lparr>kv_rows := AList.update (storage_key (tr_user_id s) (tr_role s)) v (kv_rows w)\<rparr>"
  let ?s1 = "s\<lparr>tr_unwritten := vs, tr_write_error := None\<rparr>"
  have "write_next s w = (?s1, ?w1)"
    using Cons.prems(1) Cons.hyps(2) [symmetric] by (simp add: write_next_def kv_write_def kv_calm_def)
  then have "flush ?s1 ?w1 = (s', w')"
    using Cons.prems(2) Cons.hyps(2) [symmetric] by (simp add: flush_rec [of s w])
  from Cons.hyps(1) [OF _ _ this] Cons.prems(1) Cons.hyps(2) [symmetric] show ?case
    by (auto simp: update_conv')
qed (simp add: flush_rec)

section \<open>Properties\<close>

text \<open>C22. Whatever devices are paired, paired again and forgotten, once the writes are done a restart finds
  exactly the devices that were trusted, never more than thirty-two; the record of no other account and
  of no other role is touched; and a record that could not be read refuses every change and is left as
  it was.\<close>

theorem pins_survive_restart:
  assumes "json_ok P" "json_total P" "b64url_ok P" "kv_calm w" "load_for P u r w = (s, w1)" "list_all change_ok cs"
    "fold (apply_change P) cs s = s'" "flush s' w1 = (s2, w2)"
  shows "tr_pins (fst (load_for P u r w2)) = tr_pins s' \<and> length (tr_pins s') \<le> MAX_PINNED_DEVICES \<and>
    (\<forall>u' r'. (u', r') \<noteq> (u, r) \<longrightarrow>
       map_of (kv_rows w2) (storage_key u' r') = map_of (kv_rows w) (storage_key u' r')) \<and>
    (tr_saved_record s = RecordUnreadable \<longrightarrow> s' = s \<and> kv_rows w2 = kv_rows w)"
proof -
  let ?row = "map_of (kv_rows w) (storage_key u r)"
  have kv: "kv_read k x = (Inr (map_of (kv_rows x) k), advance x)" if "kv_calm x" for k and x :: "'a world"
    using that by (simp add: kv_read_def kv_calm_def)
  obtain pins saved where l: "load_pins P (Inr ?row) = (pins, saved)" by force
  with assms(4,5) have s: "s = with_record u r pins saved" "w1 = advance w" by (simp_all add: load_for_def kv)
  have who: "tr_user_id s' = u" "tr_role s' = r" and un: "tr_unwritten s = []"
    using assms(7) s(1) by (auto simp: with_record_def)
  have "trust_ok s" using load_pins_ok [OF l] s(1) by (simp add: trust_ok_def with_record_def)
  moreover have "fst (load_pins P (Inr (settled_row ?row s))) = tr_pins s"
    using l s(1) un by (simp add: settled_row_def with_record_def)
  ultimately have c: "trust_ok s'" "fst (load_pins P (Inr (settled_row ?row s'))) = tr_pins s'"
    using changes_settled [OF assms(1-3), of s cs ?row] assms(6,7) by auto
  have f: "map_of (kv_rows w2) = (if tr_unwritten s' = [] then map_of (kv_rows w)
      else (map_of (kv_rows w))(storage_key u r \<mapsto> last (tr_unwritten s')))" "kv_calm w2" "tr_unwritten s' = [] \<longrightarrow> w2 = w1"
    using flush_effect [OF _ assms(8)] assms(4) s(2) who by auto
  then have "map_of (kv_rows w2) (storage_key u r) = settled_row ?row s'" by (simp add: settled_row_def)
  with c(2) f(2) have "tr_pins (fst (load_for P u r w2)) = tr_pins s'"
    by (simp add: load_for_def kv with_record_def split: prod.splits) (metis fst_conv)
  moreover have "s' = s \<and> kv_rows w2 = kv_rows w" if "tr_saved_record s = RecordUnreadable"
    using changes_refused [OF that, of P cs] assms(7) un f(3) s(2) by simp
  ultimately show ?thesis using c(1) f(1) by (auto simp: trust_ok_def storage_key_inj)
qed

definition demo_pin :: pinned_device where
  "demo_pin = \<lparr>pin_device_id = ''laptop'', pin_public_key = replicate 32 9, pin_name = ''A laptop'', pin_paired_at = 1\<rparr>"

lemma total_b64url_ok [simp]: "b64url_ok total_prims"
  by (simp add: b64url_ok_def total_prims_def ref_prims_def)

theorem pins_survive_restart_witness:
  "\<exists>s w1 s' s2 w2. load_for total_prims ''u'' Hosts (quiet_world ()) = (s, w1) \<and>
     apply_change total_prims (PinDevice demo_pin) s = s' \<and> flush s' w1 = (s2, w2) \<and>
     tr_pins s' = [demo_pin] \<and> tr_pins (fst (load_for total_prims ''u'' Hosts w2)) = [demo_pin]"
proof -
  obtain s w1 where l: "load_for total_prims ''u'' Hosts (quiet_world ()) = (s, w1)" by force
  obtain s' where c: "fold (apply_change total_prims) [PinDevice demo_pin] s = s'" by simp
  obtain s2 w2 where f: "flush s' w1 = (s2, w2)" by force
  have "s = with_record ''u'' Hosts [] RecordIntact"
    using l by (simp add: load_for_def kv_read_def quiet_world_def load_pins_def)
  then have "tr_pins s' = [demo_pin]"
    using c by (auto simp: trust_pin_def check_can_pin_def with_record_def trust_get_def MAX_PINNED_DEVICES_def)
  moreover have "kv_calm (quiet_world ())" "list_all change_ok [PinDevice demo_pin]"
    by (simp_all add: kv_calm_def quiet_world_def pin_ok_def demo_pin_def KEY_LEN_def)
  ultimately show ?thesis
    using l c f pins_survive_restart [OF total_json_ok total_json_total total_b64url_ok _ l _ c f] by auto
qed

end
