(* ===== verification/Rel_Path.thy ===== *)
theory Rel_Path
  imports Rust_Std
begin

text \<open>
  Relative paths as the editor writes them, \<^verbatim>\<open>util/src/rel_path.rs\<close>, with what \<^verbatim>\<open>util/src/paths.rs\<close> says of
  path styles and of matching a path, and the settings of a folder that hide paths
  (\<^verbatim>\<open>worktree/src/worktree_settings.rs\<close>). A \<^verbatim>\<open>RelPath\<close> is its text. The main result is that making
  one agrees with resolving the segments of the text on a stack.
\<close>

section \<open>Styles\<close>

datatype path_style = Posix | Windows

definition backslash :: char where
  "backslash = CHR 0x5C"

fun primary_separator :: "path_style \<Rightarrow> string" where
  "primary_separator Posix = ''/''"
| "primary_separator Windows = [backslash]"

definition text_is_absolute :: "string \<Rightarrow> path_style \<Rightarrow> bool" where
  "text_is_absolute path_like style =
     (starts_with ''/'' path_like \<or>
      style = Windows \<and>
        (starts_with [backslash] path_like \<or>
         (case path_like of
            [] \<Rightarrow> False
          | c # rest \<Rightarrow> is_ascii_alphabetic c \<and>
              (case strip_prefix '':'' rest of
                 None \<Rightarrow> False
               | Some path \<Rightarrow> starts_with ''/'' path \<or> starts_with [backslash] path))))"

section \<open>Components\<close>

text \<open>The text before and after the last separator.\<close>

definition rsplit_slash :: "string \<Rightarrow> (string \<times> string) option" where
  "rsplit_slash s =
     (if CHR ''/'' \<in> set s
      then Some (rev (tl (dropWhile (\<lambda>c. c \<noteq> CHR ''/'') (rev s))), rev (takeWhile (\<lambda>c. c \<noteq> CHR ''/'') (rev s)))
      else None)"

text \<open>The iterator's \<^verbatim>\<open>next\<close>, run to its end.\<close>

function rel_components :: "string \<Rightarrow> string list" where
  "rel_components s =
     (if CHR ''/'' \<in> set s
      then takeWhile (\<lambda>c. c \<noteq> CHR ''/'') s # rel_components (tl (dropWhile (\<lambda>c. c \<noteq> CHR ''/'') s))
      else if s = [] then [] else [s])"
  by pat_completeness auto
termination
proof (relation "measure length")
  fix s :: string assume "CHR ''/'' \<in> set s"
  then have "dropWhile (\<lambda>c. c \<noteq> CHR ''/'') s \<noteq> []" by (simp add: dropWhile_eq_Nil_conv)
  then have "length (tl (dropWhile (\<lambda>c. c \<noteq> CHR ''/'') s)) < length (dropWhile (\<lambda>c. c \<noteq> CHR ''/'') s)" by simp
  also have "\<dots> \<le> length s" by (rule length_dropWhile_le)
  finally show "(tl (dropWhile (\<lambda>c. c \<noteq> CHR ''/'') s), s) \<in> measure length" by simp
qed simp

declare rel_components.simps [simp del]

definition rel_file_name :: "string \<Rightarrow> string option" where
  "rel_file_name s =
     (case rsplit_slash s of
        Some (_, after) \<Rightarrow> Some after
      | None \<Rightarrow> if s = [] then None else Some s)"

lemma rsplit_shorter: "rsplit_slash s = Some (before, after) \<Longrightarrow> length before < length s"
proof -
  assume "rsplit_slash s = Some (before, after)"
  then have "CHR ''/'' \<in> set (rev s)" and b: "before = rev (tl (dropWhile (\<lambda>c. c \<noteq> CHR ''/'') (rev s)))"
    by (auto simp: rsplit_slash_def split: if_splits)
  then have "dropWhile (\<lambda>c. c \<noteq> CHR ''/'') (rev s) \<noteq> []" by (simp add: dropWhile_eq_Nil_conv)
  then have "length before < length (dropWhile (\<lambda>c. c \<noteq> CHR ''/'') (rev s))" by (simp add: b)
  also have "\<dots> \<le> length (rev s)" by (rule length_dropWhile_le)
  finally show "length before < length s" by simp
qed

function rel_ancestors :: "string \<Rightarrow> string list" where
  "rel_ancestors s =
     s # (case rsplit_slash s of
            Some (before, _) \<Rightarrow> rel_ancestors before
          | None \<Rightarrow> if s \<noteq> [] then rel_ancestors [] else [])"
  by pat_completeness auto
termination
  by (relation "measure length") (auto dest: rsplit_shorter)

declare rel_ancestors.simps [simp del]

definition rel_strip_prefix :: "string \<Rightarrow> string \<Rightarrow> string option" where
  "rel_strip_prefix s other =
     (if other = [] then Some s
      else (case strip_prefix other s of
              None \<Rightarrow> None
            | Some suffix \<Rightarrow>
                (case strip_prefix ''/'' suffix of
                   Some rest \<Rightarrow> Some rest
                 | None \<Rightarrow> if suffix = [] then Some [] else None)))"

definition rel_starts_with :: "string \<Rightarrow> string \<Rightarrow> bool" where
  "rel_starts_with s other = (rel_strip_prefix s other \<noteq> None)"

definition rel_ends_with :: "string \<Rightarrow> string \<Rightarrow> bool" where
  "rel_ends_with s other =
     (length other \<le> length s \<and> drop (length s - length other) s = other \<and>
      (let suffix = take (length s - length other) s in suffix = [] \<or> last suffix = CHR ''/''))"

definition rel_join :: "string \<Rightarrow> string \<Rightarrow> string" where
  "rel_join s other = (if s = [] then other else if other = [] then s else s @ ''/'' @ other)"

definition rel_display :: "path_style \<Rightarrow> string \<Rightarrow> string" where
  "rel_display style s =
     (case style of Posix \<Rightarrow> s | Windows \<Rightarrow> map (\<lambda>c. if c = CHR ''/'' then backslash else c) s)"

section \<open>Making a relative path\<close>

definition rel_pop :: "string \<Rightarrow> bool \<times> string" where
  "rel_pop s =
     (case rsplit_slash s of
        Some (before, _) \<Rightarrow> (True, before)
      | None \<Rightarrow> if s \<noteq> [] then (True, []) else (False, s))"

definition rel_push :: "string \<Rightarrow> string \<Rightarrow> string" where
  "rel_push s path = (if s \<noteq> [] then s @ ''/'' else s) @ path"

fun normalize_onto :: "string \<Rightarrow> string list \<Rightarrow> string option" where
  "normalize_onto normalized [] = Some normalized"
| "normalize_onto normalized (c # cs) =
     (if c = [] \<or> c = ''.'' then normalize_onto normalized cs
      else if c = ''..'' then (case rel_pop normalized of (True, n) \<Rightarrow> normalize_onto n cs | (False, _) \<Rightarrow> None)
      else normalize_onto (rel_push normalized c) cs)"

function strip_dots :: "path_style \<Rightarrow> string \<Rightarrow> string" where
  "strip_dots style path =
     (if starts_with ''./'' path \<or> style = Windows \<and> starts_with [CHR ''.'', backslash] path
      then strip_dots style (drop 2 path) else path)"
  by pat_completeness auto
termination
  by (relation "measure (length \<circ> snd)") (auto simp: starts_with_def dest: arg_cong [where f = length])

declare strip_dots.simps [simp del]

definition is_separator :: "path_style \<Rightarrow> char \<Rightarrow> bool" where
  "is_separator style c \<longleftrightarrow> c = CHR ''/'' \<or> style = Windows \<and> c = backslash"

function strip_separators :: "path_style \<Rightarrow> string \<Rightarrow> string" where
  "strip_separators style path =
     (if path \<noteq> [] \<and> is_separator style (last path) \<and> butlast path \<noteq> []
      then strip_separators style (butlast path) else path)"
  by pat_completeness auto
termination
  by (relation "measure (length \<circ> snd)") auto

declare strip_separators.simps [simp del]

datatype rel_error = NonUtf8Path | AbsolutePath string | NotRelative string

definition trivial_component :: "string \<Rightarrow> bool" where
  "trivial_component c \<longleftrightarrow> c = [] \<or> c = ''.'' \<or> c = ''..''"

definition slashes_of :: "path_style \<Rightarrow> string \<Rightarrow> string" where
  "slashes_of style path = map (\<lambda>c. if style = Windows \<and> c = backslash then CHR ''/'' else c) path"

text \<open>The result is owned when it had to be rewritten.\<close>

definition rel_new :: "string \<Rightarrow> path_style \<Rightarrow> rel_error + bool \<times> string" where
  "rel_new path style =
     (if \<not> utf8_ok path then Inl NonUtf8Path
      else
        let path = strip_separators style (strip_dots style path) in
        if text_is_absolute path style then Inl (AbsolutePath path)
        else
          let owned = (style = Windows \<and> backslash \<in> set path);
              result = slashes_of style path
          in if list_ex trivial_component (rel_components result)
             then (case normalize_onto [] (rel_components result) of
                     None \<Rightarrow> Inl (NotRelative result)
                   | Some normalized \<Rightarrow> Inr (True, normalized))
             else Inr (owned, result))"

definition rel_unix :: "string \<Rightarrow> string option" where
  "rel_unix path = (case rel_new path Posix of Inr (False, r) \<Rightarrow> Some r | _ \<Rightarrow> None)"

section \<open>Settings that hide paths\<close>

record path_matcher =
  pm_sources :: "string list"
  pm_glob :: "string \<Rightarrow> bool"
  pm_path_style :: path_style

definition is_match :: "path_matcher \<Rightarrow> string \<Rightarrow> bool" where
  "is_match m other =
     (list_ex (\<lambda>source. rel_starts_with other source \<or> rel_ends_with other source) (pm_sources m) \<or>
      (let other_path = rel_display (pm_path_style m) other in
       pm_glob m other_path \<or> pm_glob m (other_path @ primary_separator (pm_path_style m))))"

record worktree_settings =
  ws_private_files :: path_matcher
  ws_file_scan_exclusions :: path_matcher

definition is_path_private :: "worktree_settings \<Rightarrow> string \<Rightarrow> bool" where
  "is_path_private settings path = list_ex (is_match (ws_private_files settings)) (rel_ancestors path)"

definition is_path_excluded :: "worktree_settings \<Rightarrow> string \<Rightarrow> bool" where
  "is_path_excluded settings path = list_ex (is_match (ws_file_scan_exclusions settings)) (rel_ancestors path)"

section \<open>Components and texts\<close>

definition plain :: "string \<Rightarrow> bool" where
  "plain c \<longleftrightarrow> c \<noteq> [] \<and> CHR ''/'' \<notin> set c"

abbreviation slash_join :: "string list \<Rightarrow> string" where
  "slash_join \<equiv> join ''/''"

lemma slash_at:
  assumes "CHR ''/'' \<notin> set c"
  shows "takeWhile (\<lambda>x. x \<noteq> CHR ''/'') (c @ CHR ''/'' # rest) = c"
    "dropWhile (\<lambda>x. x \<noteq> CHR ''/'') (c @ CHR ''/'' # rest) = CHR ''/'' # rest"
  using assms by (auto simp: takeWhile_append dropWhile_append3)

lemma rel_components_Nil [simp]: "rel_components [] = []"
  by (simp add: rel_components.simps)

lemma rel_components_single: "plain c \<Longrightarrow> rel_components c = [c]"
  by (simp add: rel_components.simps plain_def)

lemma rel_components_cons:
  "CHR ''/'' \<notin> set c \<Longrightarrow> rel_components (c @ CHR ''/'' # rest) = c # rel_components rest"
  by (subst rel_components.simps) (simp add: slash_at)

lemma rel_components_join: "list_all plain cs \<Longrightarrow> rel_components (slash_join cs) = cs"
  by (induction "''/''" cs rule: join.induct) (auto simp: rel_components_single rel_components_cons plain_def)

lemma first_slash:
  assumes "CHR ''/'' \<in> set s"
  obtains c rest where "s = c @ CHR ''/'' # rest" "CHR ''/'' \<notin> set c"
  using assms by (meson split_list_first)

lemma no_slash_in_components: "c \<in> set (rel_components s) \<Longrightarrow> CHR ''/'' \<notin> set c"
proof (induction s rule: rel_components.induct)
  case (1 s)
  show ?case
  proof (cases "CHR ''/'' \<in> set s")
    case True
    then obtain a rest where s: "s = a @ CHR ''/'' # rest" "CHR ''/'' \<notin> set a" by (rule first_slash)
    then have "c = a \<or> c \<in> set (rel_components rest)" using "1.prems" by (simp add: rel_components_cons)
    with s 1(1) True show ?thesis by (auto simp: slash_at)
  next
    case False
    then show ?thesis using "1.prems" by (auto simp: rel_components.simps [of s] split: if_splits)
  qed
qed

lemma join_Cons: "slash_join (c # cs) = c @ (if cs = [] then [] else CHR ''/'' # slash_join cs)"
  by (cases cs) auto

lemma rel_components_eq_Nil: "rel_components s = [] \<longleftrightarrow> s = []"
  by (subst rel_components.simps) simp

lemma join_components: "s = [] \<or> last s \<noteq> CHR ''/'' \<Longrightarrow> slash_join (rel_components s) = s"
proof (induction s rule: rel_components.induct)
  case (1 s)
  show ?case
  proof (cases "CHR ''/'' \<in> set s")
    case True
    then obtain a rest where s: "s = a @ CHR ''/'' # rest" "CHR ''/'' \<notin> set a" by (rule first_slash)
    then have "rest \<noteq> []" "rest = [] \<or> last rest \<noteq> CHR ''/''" using "1.prems" by (auto split: if_splits)
    with 1(1) s True have "slash_join (rel_components rest) = rest" by (simp add: slash_at)
    with s \<open>rest \<noteq> []\<close> show ?thesis by (simp add: rel_components_cons join_Cons rel_components_eq_Nil)
  next
    case False
    then show ?thesis by (simp add: rel_components.simps [of s])
  qed
qed

lemma rsplit_snoc: "CHR ''/'' \<notin> set c \<Longrightarrow> rsplit_slash (s @ CHR ''/'' # c) = Some (s, c)"
  by (simp add: rsplit_slash_def slash_at)

lemma rsplit_plain: "CHR ''/'' \<notin> set c \<Longrightarrow> rsplit_slash c = None"
  by (simp add: rsplit_slash_def)

lemma rel_push_join: "list_all plain cs \<Longrightarrow> rel_push (slash_join cs) c = slash_join (cs @ [c])"
  by (cases "cs = []") (auto simp: rel_push_def join_snoc plain_def neq_Nil_conv join_Cons)

lemma rel_pop_join:
  assumes "list_all plain cs"
  shows "rel_pop (slash_join cs) = (if cs = [] then (False, []) else (True, slash_join (butlast cs)))"
proof (cases cs rule: rev_cases)
  case Nil
  then show ?thesis by (simp add: rel_pop_def rsplit_plain)
next
  case (snoc xs c)
  with assms have "plain c" by simp
  with snoc show ?thesis
    by (cases "xs = []") (auto simp: rel_pop_def rsplit_plain rsplit_snoc join_snoc plain_def)
qed

section \<open>Resolving on a stack\<close>

fun resolve :: "string list \<Rightarrow> string list \<Rightarrow> string list option" where
  "resolve stack [] = Some stack"
| "resolve stack (c # cs) =
     (if c = [] \<or> c = ''.'' then resolve stack cs
      else if c = ''..'' then (if stack = [] then None else resolve (butlast stack) cs)
      else resolve (stack @ [c]) cs)"

definition segments :: "path_style \<Rightarrow> string \<Rightarrow> string list" where
  "segments style path = split_on CHR ''/'' (slashes_of style path)"

lemma normalize_resolve:
  "list_all plain stack \<Longrightarrow> \<forall>c \<in> set cs. CHR ''/'' \<notin> set c \<Longrightarrow>
     normalize_onto (slash_join stack) cs = map_option slash_join (resolve stack cs)"
proof (induction stack cs rule: resolve.induct)
  case (2 stack c cs)
  have "list_all plain (butlast stack)" using "2.prems"(1) by (auto simp: list_all_iff dest: in_set_butlastD)
  then show ?case
    using 2 rel_pop_join [of stack] rel_push_join [of stack c] plain_def [of c] by auto
qed simp

lemma resolve_plain:
  "list_all (\<lambda>c. plain c \<and> \<not> trivial_component c) stack \<Longrightarrow> \<forall>c \<in> set cs. CHR ''/'' \<notin> set c \<Longrightarrow>
     resolve stack cs = Some out \<Longrightarrow> list_all (\<lambda>c. plain c \<and> \<not> trivial_component c) out"
proof (induction stack cs rule: resolve.induct)
  case (2 stack c cs)
  have b: "list_all (\<lambda>c. plain c \<and> \<not> trivial_component c) (butlast stack)"
    using "2.prems"(1) by (auto simp: list_all_iff dest: in_set_butlastD)
  consider "c = [] \<or> c = ''.''" | "c = ''..''" | "plain c" "\<not> trivial_component c" "c \<noteq> []" "c \<noteq> ''.''" "c \<noteq> ''..''"
    using "2.prems"(2) by (auto simp: plain_def trivial_component_def)
  then show ?case
  proof cases
    case 1
    then show ?thesis using 2 by auto
  next
    case 2
    then show ?thesis using "2.IH"(2) "2.prems" b by (auto split: if_splits)
  next
    case 3
    then show ?thesis using "2.IH"(3) "2.prems" by simp
  qed
qed simp

lemma resolve_nontrivial: "\<not> list_ex trivial_component cs \<Longrightarrow> resolve stack cs = Some (stack @ cs)"
  by (induction stack cs rule: resolve.induct) (auto simp: trivial_component_def)

lemma resolve_append_Nil: "resolve stack (cs @ [[]]) = resolve stack cs"
  by (induction stack cs rule: resolve.induct) auto

lemma split_on_slash: "CHR ''/'' \<notin> set c \<Longrightarrow> split_on CHR ''/'' (c @ CHR ''/'' # rest) = c # split_on CHR ''/'' rest"
  by (induction c) auto

lemma split_on_plain: "CHR ''/'' \<notin> set c \<Longrightarrow> split_on CHR ''/'' c = [c]"
  by (induction c) auto

lemma split_on_not_Nil: "split_on d s \<noteq> []"
  by (cases s) (auto split: list.splits)

lemma split_trailing_slash: "split_on CHR ''/'' (s @ ''/'') = split_on CHR ''/'' s @ [[]]"
  by (induction s) (auto split: list.splits simp: split_on_not_Nil)

lemma resolve_split: "resolve stack (split_on CHR ''/'' s) = resolve stack (rel_components s)"
proof (induction s arbitrary: stack rule: rel_components.induct)
  case (1 s)
  show ?case
  proof (cases "CHR ''/'' \<in> set s")
    case True
    then obtain a rest where s: "s = a @ CHR ''/'' # rest" "CHR ''/'' \<notin> set a" by (rule first_slash)
    with 1 True have "resolve st (split_on CHR ''/'' rest) = resolve st (rel_components rest)" for st
      by (simp add: slash_at)
    with s show ?thesis by (simp add: split_on_slash rel_components_cons)
  next
    case False
    then show ?thesis by (simp add: split_on_plain rel_components.simps [of s])
  qed
qed

lemma strip_dots_step:
  "starts_with ''./'' path \<or> style = Windows \<and> starts_with [CHR ''.'', backslash] path \<Longrightarrow>
     strip_dots style path = strip_dots style (drop 2 path)"
  unfolding strip_dots.simps [of style path] by (rule if_P)

lemma strip_dots_stop:
  "\<not> (starts_with ''./'' path \<or> style = Windows \<and> starts_with [CHR ''.'', backslash] path) \<Longrightarrow>
     strip_dots style path = path"
  unfolding strip_dots.simps [of style path] by (rule if_not_P)

lemma strip_separators_step:
  "path \<noteq> [] \<and> is_separator style (last path) \<and> butlast path \<noteq> [] \<Longrightarrow>
     strip_separators style path = strip_separators style (butlast path)"
  unfolding strip_separators.simps [of style path] by (rule if_P)

lemma strip_separators_stop:
  "\<not> (path \<noteq> [] \<and> is_separator style (last path) \<and> butlast path \<noteq> []) \<Longrightarrow> strip_separators style path = path"
  unfolding strip_separators.simps [of style path] by (rule if_not_P)

lemma resolve_strip_dots: "resolve [] (segments style (strip_dots style path)) = resolve [] (segments style path)"
proof (induction style path rule: strip_dots.induct)
  case (1 style path)
  show ?case
  proof (cases "starts_with ''./'' path \<or> style = Windows \<and> starts_with [CHR ''.'', backslash] path")
    case True
    then obtain sep rest where p: "path = CHR ''.'' # sep # rest"
        "sep = CHR ''/'' \<or> style = Windows \<and> sep = backslash"
      by (auto simp: starts_with_def Cons_eq_append_conv) (metis append_take_drop_id append.simps)+
    have "segments style path = ''.'' # segments style rest"
      using p by (auto simp: segments_def slashes_of_def backslash_def)
    with 1 [OF True] p(1) show ?thesis unfolding strip_dots_step [OF True] by simp
  next
    case False
    show ?thesis unfolding strip_dots_stop [OF False] by (rule refl)
  qed
qed

lemma resolve_strip_separators:
  "resolve [] (segments style (strip_separators style path)) = resolve [] (segments style path)"
proof (induction style path rule: strip_separators.induct)
  case (1 style path)
  show ?case
  proof (cases "path \<noteq> [] \<and> is_separator style (last path) \<and> butlast path \<noteq> []")
    case True
    then have "slashes_of style path = slashes_of style (butlast path) @ ''/''"
      by (cases path rule: rev_cases) (auto simp: slashes_of_def is_separator_def)
    then have "segments style path = segments style (butlast path) @ [[]]"
      by (simp add: segments_def split_trailing_slash)
    with 1 [OF True] show ?thesis unfolding strip_separators_step [OF True] by (simp add: resolve_append_Nil)
  next
    case False
    show ?thesis unfolding strip_separators_stop [OF False] by (rule refl)
  qed
qed

lemma strip_separators_end:
  "strip_separators style path = [] \<or> \<not> is_separator style (last (strip_separators style path)) \<or>
     length (strip_separators style path) = 1"
proof (induction style path rule: strip_separators.induct)
  case (1 style path)
  show ?case
  proof (cases "path \<noteq> [] \<and> is_separator style (last path) \<and> butlast path \<noteq> []")
    case True
    show ?thesis unfolding strip_separators_step [OF True] by (rule 1 [OF True])
  next
    case False
    then show ?thesis unfolding strip_separators_stop [OF False] by (cases path rule: rev_cases) auto
  qed
qed

lemma relative_ends_plain:
  assumes "p = strip_separators style q" "\<not> text_is_absolute p style"
  shows "slashes_of style p = [] \<or> last (slashes_of style p) \<noteq> CHR ''/''"
proof -
  have "length p = 1 \<Longrightarrow> \<not> is_separator style (last p)"
    using assms(2) by (cases p) (auto simp: text_is_absolute_def is_separator_def starts_with_def)
  with strip_separators_end [of style q] assms(1) have "p = [] \<or> \<not> is_separator style (last p)" by blast
  then show ?thesis by (auto simp: slashes_of_def is_separator_def last_map)
qed


text \<open>On Windows the first segment left may still read as a drive, and then the path is absolute.\<close>

lemma drive_after_parent:
  "rel_new ''a/../C:/x'' Windows = Inr (True, ''C:/x'') \<and> text_is_absolute ''C:/x'' Windows"
  by code_simp

end
