(* ===== verification/Remote_Browse.thy ===== *)
theory Remote_Browse
  imports Rel_Path Relay_Messages Reference "HOL-Library.Sublist"
begin

text \<open>
  What a paired device may read of the folders open on the host, \<^verbatim>\<open>remote_control/src/file_browse.rs\<close>:
  listing a folder, reading a file, and cutting a listing into messages that each fit a frame. A
  folder is the scanned snapshot of it (\<^verbatim>\<open>worktree/src/worktree.rs\<close>: \<^verbatim>\<open>Entry\<close>, \<^verbatim>\<open>entry_for_path\<close>,
  \<^verbatim>\<open>child_entries\<close>); the disk is asked through three functions that need not agree with the snapshot or
  with one another, because it changes between the calls. Unicode lower-casing is a parameter.
\<close>

section \<open>Limits and errors\<close>

definition MAX_LIST_ENTRIES :: nat where "MAX_LIST_ENTRIES = 2000"

definition MAX_FILE_BYTES :: nat where "MAX_FILE_BYTES = 1024 * 1024"

definition MAX_LIST_BYTES :: nat where "MAX_LIST_BYTES = 1536 * 1024"

definition LIST_REPLY_OVERHEAD :: nat where "LIST_REPLY_OVERHEAD = 160"

record browse_error =
  be_code :: string
  be_message :: string

definition browse_not_found :: browse_error where
  "browse_not_found = \<lparr>be_code = ''not_found'', be_message = ''there is no such file or folder''\<rparr>"

definition browse_internal :: "string \<Rightarrow> browse_error" where
  "browse_internal message = \<lparr>be_code = ''internal'', be_message = message\<rparr>"

section \<open>The snapshot\<close>

datatype entry_kind = UnloadedDir | PendingDir | LoadedDir | FileEntryKind

record snapshot_entry =
  en_kind :: entry_kind
  en_path :: string
  en_canonical_path :: "path option"
  en_is_external :: bool
  en_is_private :: bool
  en_size :: u64
  en_is_fifo :: bool

definition entry_is_dir :: "snapshot_entry \<Rightarrow> bool" where
  "entry_is_dir e = (en_kind e = LoadedDir \<or> en_kind e = PendingDir \<or> en_kind e = UnloadedDir)"

definition entry_is_file :: "snapshot_entry \<Rightarrow> bool" where
  "entry_is_file e = (en_kind e = FileEntryKind)"

text \<open>The entries are in the order of their paths, compared component by component.\<close>

record snapshot =
  sn_abs_path :: path
  sn_entries :: "snapshot_entry list"

definition entry_for_path :: "snapshot \<Rightarrow> string \<Rightarrow> snapshot_entry option" where
  "entry_for_path sn path =
     (case dropWhile (\<lambda>e. rel_components (en_path e) < rel_components path) (sn_entries sn) of
        [] \<Rightarrow> None
      | e # _ \<Rightarrow> if en_path e = path then Some e else None)"

text \<open>Each step goes on to the first entry that is not below the last one.\<close>

function siblings :: "string \<Rightarrow> snapshot_entry list \<Rightarrow> snapshot_entry list" where
  "siblings parent [] = []"
| "siblings parent (e # es) =
     (if rel_starts_with (en_path e) parent
      then e # siblings parent (dropWhile (\<lambda>x. rel_starts_with (en_path x) (en_path e)) es) else [])"
  by pat_completeness auto
termination
  by (relation "measure (length \<circ> snd)") (auto simp: less_Suc_eq_le length_dropWhile_le)

definition child_entries :: "snapshot \<Rightarrow> string \<Rightarrow> snapshot_entry list" where
  "child_entries sn parent =
     siblings parent (dropWhile (\<lambda>e. rel_components (en_path e) \<le> rel_components parent) (sn_entries sn))"

section \<open>What may be seen\<close>

definition snapshot_path :: "string \<Rightarrow> string option" where
  "snapshot_path path = rel_unix path"

definition is_reachable_itself :: "snapshot_entry \<Rightarrow> bool" where
  "is_reachable_itself e = (\<not> en_is_external e \<and> \<not> en_is_private e \<and> en_canonical_path e = None)"

definition is_reachable :: "snapshot \<Rightarrow> snapshot_entry \<Rightarrow> bool" where
  "is_reachable sn e =
     (is_reachable_itself e \<and>
      list_all (\<lambda>ancestor. en_canonical_path ancestor = None)
        (List.map_filter (entry_for_path sn) (filter (\<lambda>a. a \<noteq> []) (tl (rel_ancestors (en_path e))))))"

definition single_file_is_hidden :: "worktree_settings \<Rightarrow> path \<Rightarrow> bool" where
  "single_file_is_hidden settings absolute =
     (case Option.bind (case file_name absolute of Some n \<Rightarrow> if utf8_ok n then Some n else None | None \<Rightarrow> None) rel_unix of
        None \<Rightarrow> True
      | Some name \<Rightarrow> is_path_private settings name \<or> is_path_excluded settings name)"

section \<open>Listing a folder\<close>

text \<open>The heap is the list of what it holds in the order of the keys, so that the greatest is its last; of
  items with one key it gives no order.\<close>

definition first_by_key :: "'a list \<Rightarrow> nat \<Rightarrow> ('a \<Rightarrow> 'k::linorder) \<Rightarrow> 'a list \<times> nat" where
  "first_by_key items count key =
     (let (first, seen) =
        foldl (\<lambda>(first, seen) item.
          let first = insort_key key item first in
          (if count < length first then butlast first else first, seen + 1)) ([], 0) items
      in (first, seen))"

record listing =
  li_entries :: "file_entry list"
  li_truncated :: bool

definition name_of :: "snapshot_entry \<Rightarrow> string" where
  "name_of e = (case rel_file_name (en_path e) of None \<Rightarrow> [] | Some n \<Rightarrow> n)"

definition list_key :: "(string \<Rightarrow> string) \<Rightarrow> snapshot_entry \<Rightarrow> bool \<times> string \<times> string" where
  "list_key to_lowercase e = (\<not> entry_is_dir e, to_lowercase (name_of e), name_of e)"

definition listed_entry :: "snapshot_entry \<Rightarrow> file_entry" where
  "listed_entry e =
     \<lparr>fe_name = name_of e, fe_kind = (if entry_is_dir e then KindDirectory else KindFile),
      fe_size = (if entry_is_file e then Some (en_size e) else None), fe_worktree_id = None\<rparr>"

definition list_children :: "(string \<Rightarrow> string) \<Rightarrow> snapshot \<Rightarrow> string \<Rightarrow> browse_error + listing" where
  "list_children to_lowercase sn path =
     bind_res (ok_or browse_not_found (snapshot_path path)) (\<lambda>parent.
     bind_res (ok_or browse_not_found
       (case entry_for_path sn parent of
          Some e \<Rightarrow> if entry_is_dir e \<and> is_reachable sn e then Some e else None
        | None \<Rightarrow> None)) (\<lambda>directory.
     let (children, total) =
           first_by_key (filter is_reachable_itself (child_entries sn (en_path directory)))
             MAX_LIST_ENTRIES (list_key to_lowercase)
     in Inr \<lparr>li_entries = map listed_entry children, li_truncated = (MAX_LIST_ENTRIES < total)\<rparr>))"

section \<open>Reading a file\<close>

record file_metadata =
  md_is_symlink :: bool
  md_is_regular_file :: bool
  md_len :: u64

record remote_disk =
  rd_metadata :: "path \<Rightarrow> string + file_metadata option"
  rd_canonicalize :: "path \<Rightarrow> string + path"
  rd_open :: "path \<Rightarrow> string + bytes"

definition too_large :: browse_error where
  "too_large = \<lparr>be_code = ''too_large'', be_message = ''files over '' @ nat_str MAX_FILE_BYTES @ '' bytes are not sent''\<rparr>"

definition could_not_read :: browse_error where
  "could_not_read = browse_internal ''the file could not be read''"

definition within :: "path \<Rightarrow> path \<Rightarrow> bool" where
  "within root p \<longleftrightarrow> take (length root) p = root"

definition read_text :: "remote_disk \<Rightarrow> snapshot \<Rightarrow> worktree_settings \<Rightarrow> string \<Rightarrow> browse_error + bytes" where
  "read_text disk sn settings path =
     bind_res (ok_or browse_not_found (snapshot_path path)) (\<lambda>relative.
     bind_res (ok_or browse_not_found
       (case entry_for_path sn relative of
          Some e \<Rightarrow> if entry_is_file e \<and> \<not> en_is_fifo e \<and> is_reachable sn e then Some e else None
        | None \<Rightarrow> None)) (\<lambda>e.
     if en_path e = [] \<and> single_file_is_hidden settings (sn_abs_path sn) then Inl browse_not_found
     else if MAX_FILE_BYTES < unat (en_size e) then Inl too_large
     else
       let absolute = (if en_path e = [] then sn_abs_path sn else path_join (sn_abs_path sn) (components (en_path e))) in
       bind_res (map_err (\<lambda>_. could_not_read) (rd_metadata disk absolute)) (\<lambda>metadata.
       bind_res (ok_or browse_not_found
         (case metadata of
            Some m \<Rightarrow> if \<not> md_is_symlink m \<and> md_is_regular_file m then Some m else None
          | None \<Rightarrow> None)) (\<lambda>metadata.
       bind_res (case (rd_canonicalize disk absolute, rd_canonicalize disk (sn_abs_path sn)) of
           (Inr real, Inr root) \<Rightarrow> if within root real then Inr real else Inl browse_not_found
         | _ \<Rightarrow> Inl browse_not_found) (\<lambda>real.
       if MAX_FILE_BYTES < unat (md_len metadata) then Inl too_large
       else
         bind_res (map_err (\<lambda>_. could_not_read) (rd_open disk real)) (\<lambda>content.
         let bs = take (MAX_FILE_BYTES + 1) content in
         if MAX_FILE_BYTES < length bs then Inl too_large
         else if 0 \<in> set bs \<or> from_utf8 bs = None
         then Inl \<lparr>be_code = ''binary'', be_message = ''this file is not text''\<rparr>
         else Inr bs))))))"

section \<open>The open folders\<close>

text \<open>A folder with the settings it has when it is on this machine's disk; what a root without a name
  displays as; a project that is still open, with the folders the user sees.\<close>

record browsed_worktree =
  bw_id :: u64
  bw_root_name :: string
  bw_display :: string
  bw_is_single_file :: bool
  bw_snapshot :: snapshot
  bw_settings :: "worktree_settings option"

record browsed_project =
  bp_is_local :: bool
  bp_worktrees :: "browsed_worktree list"

definition visible_worktrees :: "browsed_project list \<Rightarrow> browsed_worktree list" where
  "visible_worktrees projects =
     foldl (\<lambda>found worktree. if list_all (\<lambda>known. bw_id known \<noteq> bw_id worktree) found then found @ [worktree] else found)
       [] (concat (map bp_worktrees (filter bp_is_local projects)))"

definition parse_u64 :: "string \<Rightarrow> u64 option" where
  "parse_u64 s =
     (let ds = (case s of c # r \<Rightarrow> if c = CHR ''+'' then r else s | [] \<Rightarrow> [])
      in if ds = [] \<or> \<not> list_all is_ascii_digit ds then None
         else if str_nat ds < 2 ^ 64 then Some (of_nat (str_nat ds)) else None)"

definition browser_worktree :: "browsed_project list \<Rightarrow> string \<Rightarrow> browse_error + browsed_worktree" where
  "browser_worktree projects worktree_id =
     bind_res (ok_or browse_not_found (parse_u64 worktree_id)) (\<lambda>id.
     ok_or browse_not_found (find (\<lambda>w. bw_id w = id) (visible_worktrees projects)))"

definition root_entry :: "browsed_worktree \<Rightarrow> file_entry" where
  "root_entry w =
     \<lparr>fe_name = (if bw_root_name w = [] then bw_display w else bw_root_name w),
      fe_kind = (if bw_is_single_file w then KindFile else KindDirectory), fe_size = None,
      fe_worktree_id = Some (nat_str (unat (bw_id w)))\<rparr>"

definition browser_roots :: "(string \<Rightarrow> string) \<Rightarrow> browsed_project list \<Rightarrow> listing" where
  "browser_roots to_lowercase projects =
     (let roots = sort_key (\<lambda>e. (to_lowercase (fe_name e), case fe_worktree_id e of None \<Rightarrow> [] | Some i \<Rightarrow> i))
                    (map root_entry (visible_worktrees projects))
      in \<lparr>li_entries = take MAX_LIST_ENTRIES roots, li_truncated = (MAX_LIST_ENTRIES < length roots)\<rparr>)"

definition browser_list ::
  "(string \<Rightarrow> string) \<Rightarrow> browsed_project list \<Rightarrow> string option \<Rightarrow> string \<Rightarrow> browse_error + listing" where
  "browser_list to_lowercase projects worktree_id path =
     (case worktree_id of
        None \<Rightarrow> Inr (browser_roots to_lowercase projects)
      | Some named \<Rightarrow>
          bind_res (browser_worktree projects named) (\<lambda>w. list_children to_lowercase (bw_snapshot w) path))"

definition browser_read :: "remote_disk \<Rightarrow> browsed_project list \<Rightarrow> string \<Rightarrow> string \<Rightarrow> browse_error + bytes" where
  "browser_read disk projects worktree_id path =
     bind_res (browser_worktree projects worktree_id) (\<lambda>w.
     case bw_settings w of
       None \<Rightarrow> Inl browse_not_found
     | Some settings \<Rightarrow> read_text disk (bw_snapshot w) settings path)"

section \<open>Cutting an answer into messages\<close>

text \<open>The subtraction of the overhead wraps, as in a release build.\<close>

definition frame_budget :: "nat \<Rightarrow> nat" where
  "frame_budget overhead =
     (if overhead \<le> MAX_INNER_PAYLOAD_LEN then MAX_INNER_PAYLOAD_LEN - overhead
      else 2 ^ 64 + MAX_INNER_PAYLOAD_LEN - overhead)"

text \<open>The state of the loop: the batches with the last one apart, the weight of the last one, the weight of
  all, and whether something was left out.\<close>

fun batch_items ::
  "('a \<Rightarrow> nat option) \<Rightarrow> nat \<Rightarrow> nat \<Rightarrow> 'a list \<Rightarrow> 'a list list \<Rightarrow> 'a list \<Rightarrow> nat \<Rightarrow> nat \<Rightarrow> bool \<Rightarrow>
   'a list list \<times> bool" where
  "batch_items json_len budget total_limit [] batches current used sent dropped = (batches @ [current], dropped)"
| "batch_items json_len budget total_limit (item # items) batches current used sent dropped =
     (case json_len item of
        None \<Rightarrow> batch_items json_len budget total_limit items batches current used sent True
      | Some len \<Rightarrow>
          let cost = len + 1 in
          if budget < cost then batch_items json_len budget total_limit items batches current used sent True
          else if total_limit < sent + cost then (batches @ [current], True)
          else if budget < used + cost \<and> current \<noteq> []
          then batch_items json_len budget total_limit items (batches @ [current]) [item] cost (sent + cost) dropped
          else batch_items json_len budget total_limit items batches (current @ [item]) (used + cost) (sent + cost) dropped)"

definition batch_by_json_size :: "'a list \<Rightarrow> ('a \<Rightarrow> nat option) \<Rightarrow> nat \<Rightarrow> nat \<Rightarrow> 'a list list \<times> bool" where
  "batch_by_json_size items json_len overhead total_limit =
     batch_items json_len (frame_budget overhead) total_limit items [] [] 0 0 False"

definition json_len :: "prims \<Rightarrow> json \<Rightarrow> nat option" where
  "json_len P j = (case json_text P j of Inr s \<Rightarrow> Some (length s) | Inl _ \<Rightarrow> None)"

definition list_replies :: "prims \<Rightarrow> u32 \<Rightarrow> listing \<Rightarrow> control list" where
  "list_replies P request_id l =
     (let (batches, cut) =
        batch_by_json_size (li_entries l) (\<lambda>e. json_len P (file_entry_json e)) LIST_REPLY_OVERHEAD MAX_LIST_BYTES;
          truncated = (li_truncated l \<or> cut);
          last_index = length batches - 1
      in map (\<lambda>(index, entries). FilesListReply request_id entries truncated (index < last_index))
           (zip [0..<length batches] batches))"

section \<open>The first by key\<close>

lemma map_insort_key: "map key (insort_key key x xs) = insort (key x) (map key xs)"
  by (induction xs) auto

lemma take_insort_take: "sorted ys \<Longrightarrow> take n (insort x (take n ys)) = take n (insort x ys)"
proof (induction ys arbitrary: n)
  case (Cons y ys)
  then show ?case by (cases n) (auto simp: take_Cons' split: if_splits)
qed simp

lemma first_by_key_fold:
  assumes "sorted acc" "map key h = take n acc"
  shows "map key (fst (foldl (\<lambda>(first, seen) item.
          let first = insort_key key item first in
          (if n < length first then butlast first else first, seen + 1)) (h, t) items)) =
        take n (fold insort (map key items) acc) \<and>
     snd (foldl (\<lambda>(first, seen) item.
          let first = insort_key key item first in
          (if n < length first then butlast first else first, seen + 1)) (h, t) items) = t + length items \<and>
     set (fst (foldl (\<lambda>(first, seen) item.
          let first = insort_key key item first in
          (if n < length first then butlast first else first, seen + 1)) (h, t) items)) \<subseteq> set h \<union> set items"
  using assms
proof (induction items arbitrary: h t acc)
  case (Cons x xs)
  let ?h = "insort_key key x h"
  let ?g = "if n < length ?h then butlast ?h else ?h"
  have len: "length h \<le> n" using arg_cong [OF Cons.prems(2), of length] by simp
  have g: "?g = take n ?h" using len by (auto simp: butlast_conv_take less_Suc_eq_le dest: le_antisym)
  have "map key ?g = take n (insort (key x) acc)"
    unfolding g using Cons.prems by (simp add: take_map [symmetric] map_insort_key take_insort_take)
  moreover have "sorted (insort (key x) acc)" using Cons.prems by (simp add: sorted_insort)
  moreover have "set ?g \<subseteq> insert x (set h)" unfolding g using set_take_subset [of n ?h] by (auto simp: set_insort_key)
  ultimately show ?case using Cons.IH [of "insort (key x) acc" ?g "t + 1"] by (auto simp: Let_def)
qed simp

lemma first_by_key_spec:
  "map key (fst (first_by_key items count key)) = take count (sort (map key items))"
  "snd (first_by_key items count key) = length items"
  "set (fst (first_by_key items count key)) \<subseteq> set items"
  using first_by_key_fold [of "[]" key "[]" count 0 items]
  by (auto simp: first_by_key_def sort_conv_fold)

section \<open>Reading is confined\<close>

lemma entry_for_path_Some: "entry_for_path sn p = Some e \<Longrightarrow> en_path e = p \<and> e \<in> set (sn_entries sn)"
proof -
  assume "entry_for_path sn p = Some e"
  then obtain es where d: "dropWhile (\<lambda>e. rel_components (en_path e) < rel_components p) (sn_entries sn) = e # es"
      and "en_path e = p"
    by (auto simp: entry_for_path_def split: list.splits if_splits)
  then show ?thesis using set_dropWhileD [of e] by (metis list.set_intros(1))
qed

definition no_symlink_above :: "snapshot \<Rightarrow> string \<Rightarrow> bool" where
  "no_symlink_above sn path \<longleftrightarrow>
     (\<forall>a \<in> set (tl (rel_ancestors path)). a \<noteq> [] \<longrightarrow>
        (\<forall>e. entry_for_path sn a = Some e \<longrightarrow> en_canonical_path e = None))"

lemma is_reachable_iff: "is_reachable sn e \<longleftrightarrow> is_reachable_itself e \<and> no_symlink_above sn (en_path e)"
  by (auto simp: is_reachable_def no_symlink_above_def list_all_iff map_filter_def)

lemmas read_text_simps = read_text_def bind_res_def ok_or_def map_err_def Let_def

text \<open>Where the entry of a snapshot is on disk.\<close>

definition disk_path :: "snapshot \<Rightarrow> snapshot_entry \<Rightarrow> path" where
  "disk_path sn e = (if en_path e = [] then sn_abs_path sn else path_join (sn_abs_path sn) (components (en_path e)))"

lemma read_text_confined:
  assumes "read_text disk sn settings path = Inr bs"
  shows "\<exists>e m real root. rel_unix path = Some (en_path e) \<and> entry_for_path sn (en_path e) = Some e \<and> e \<in> set (sn_entries sn) \<and> entry_is_file e \<and> \<not> en_is_fifo e \<and>
    \<not> en_is_private e \<and> \<not> en_is_external e \<and> en_canonical_path e = None \<and> no_symlink_above sn (en_path e) \<and>
    (en_path e = [] \<longrightarrow> \<not> single_file_is_hidden settings (sn_abs_path sn)) \<and>
    rd_metadata disk (disk_path sn e) = Inr (Some m) \<and> \<not> md_is_symlink m \<and> md_is_regular_file m \<and>
    rd_canonicalize disk (disk_path sn e) = Inr real \<and> rd_canonicalize disk (sn_abs_path sn) = Inr root \<and>
    within root real \<and> rd_open disk real = Inr bs \<and>
    unat (en_size e) \<le> MAX_FILE_BYTES \<and> unat (md_len m) \<le> MAX_FILE_BYTES \<and>
    length bs \<le> MAX_FILE_BYTES \<and> 0 \<notin> set bs \<and> from_utf8 bs = Some (string_of_bytes bs)"
proof -
  obtain relative e where r: "rel_unix path = Some relative" "entry_for_path sn relative = Some e"
      "entry_is_file e" "\<not> en_is_fifo e" "is_reachable sn e"
      "\<not> (en_path e = [] \<and> single_file_is_hidden settings (sn_abs_path sn))"
    and rest: "read_text disk sn settings path = Inr bs"
    using assms
    by (auto simp: read_text_def bind_res_def ok_or_def snapshot_path_def split: option.splits sum.splits if_splits)
  obtain m real root content where c: "rd_canonicalize disk (disk_path sn e) = Inr real"
      "rd_canonicalize disk (sn_abs_path sn) = Inr root" "within root real" "rd_open disk real = Inr content"
      "bs = take (MAX_FILE_BYTES + 1) content" "\<not> MAX_FILE_BYTES < length bs" "0 \<notin> set bs" "from_utf8 bs \<noteq> None"
    and m: "rd_metadata disk (disk_path sn e) = Inr (Some m)" "\<not> md_is_symlink m" "md_is_regular_file m"
      "\<not> MAX_FILE_BYTES < unat (md_len m)" "\<not> MAX_FILE_BYTES < unat (en_size e)"
    using assms r(1-2) unfolding disk_path_def
    by (auto simp: read_text_simps snapshot_path_def split: option.splits sum.splits if_splits)
  have "content = bs" using c(5,6) by (auto simp: not_less)
  moreover have "from_utf8 bs = Some (string_of_bytes bs)" using c(8) by (auto simp: from_utf8_def split: option.splits)
  ultimately show ?thesis
    using r c m entry_for_path_Some [OF r(2)] by (auto simp: is_reachable_iff is_reachable_itself_def not_less)
qed

lemma visible_worktrees_fold:
  "set (foldl (\<lambda>found worktree. if list_all (\<lambda>known. bw_id known \<noteq> bw_id worktree) found then found @ [worktree] else found)
     found ws) \<subseteq> set found \<union> set ws"
proof (induction ws arbitrary: found)
  case (Cons w ws)
  let ?found = "if list_all (\<lambda>known. bw_id known \<noteq> bw_id w) found then found @ [w] else found"
  have "set ?found \<subseteq> set found \<union> {w}" by auto
  with Cons.IH [of ?found] show ?case by auto
qed simp

lemma visible_worktrees_open:
  "w \<in> set (visible_worktrees projects) \<Longrightarrow> \<exists>p \<in> set projects. bp_is_local p \<and> w \<in> set (bp_worktrees p)"
  using visible_worktrees_fold [of "[]" "concat (map bp_worktrees (filter bp_is_local projects))"]
  by (auto simp: visible_worktrees_def)

text \<open>C23. A file a device is sent is text of at most a mebibyte, of a folder the user has open in a project on
  this machine, and was reached through the snapshot of it: the path is a plain relative one, its entry
  is an ordinary file that is not private, not external and not behind a symlink. What is sent is what
  the disk has for that entry: where the entry lies there is now a regular file and no symlink, and
  the bytes are those of that very place once every link on the way is resolved, which lies within the
  folder, itself so resolved. A folder that is one file sends it only if its settings do not hide it.\<close>

theorem remote_read_is_confined:
  assumes "browser_read disk projects worktree_id path = Inr bs"
  shows "\<exists>p w settings e m real root. p \<in> set projects \<and> bp_is_local p \<and> w \<in> set (bp_worktrees p) \<and>
    parse_u64 worktree_id = Some (bw_id w) \<and> bw_settings w = Some settings \<and>
    rel_unix path = Some (en_path e) \<and> entry_for_path (bw_snapshot w) (en_path e) = Some e \<and>
    e \<in> set (sn_entries (bw_snapshot w)) \<and> entry_is_file e \<and> \<not> en_is_fifo e \<and>
    \<not> en_is_private e \<and> \<not> en_is_external e \<and> en_canonical_path e = None \<and> no_symlink_above (bw_snapshot w) (en_path e) \<and>
    (en_path e = [] \<longrightarrow> \<not> single_file_is_hidden settings (sn_abs_path (bw_snapshot w))) \<and>
    rd_metadata disk (disk_path (bw_snapshot w) e) = Inr (Some m) \<and> \<not> md_is_symlink m \<and> md_is_regular_file m \<and>
    rd_canonicalize disk (disk_path (bw_snapshot w) e) = Inr real \<and> rd_canonicalize disk (sn_abs_path (bw_snapshot w)) = Inr root \<and>
    within root real \<and> rd_open disk real = Inr bs \<and>
    unat (en_size e) \<le> MAX_FILE_BYTES \<and> unat (md_len m) \<le> MAX_FILE_BYTES \<and>
    length bs \<le> MAX_FILE_BYTES \<and> 0 \<notin> set bs \<and> from_utf8 bs = Some (string_of_bytes bs)"
proof -
  obtain w settings where w: "browser_worktree projects worktree_id = Inr w" "bw_settings w = Some settings"
      "read_text disk (bw_snapshot w) settings path = Inr bs"
    using assms by (auto simp: browser_read_def bind_res_def split: sum.splits option.splits)
  then have "w \<in> set (visible_worktrees projects)" "parse_u64 worktree_id = Some (bw_id w)"
    by (auto simp: browser_worktree_def bind_res_def ok_or_def find_Some_iff split: sum.splits option.splits)
  moreover obtain p where "p \<in> set projects" "bp_is_local p" "w \<in> set (bp_worktrees p)"
    using visible_worktrees_open calculation(1) by blast
  ultimately show ?thesis using w(2) read_text_confined [OF w(3)] by blast
qed

section \<open>Batches\<close>

definition costs :: "('a \<Rightarrow> nat option) \<Rightarrow> 'a list \<Rightarrow> nat" where
  "costs len xs = sum_list (map (\<lambda>x. case len x of None \<Rightarrow> 0 | Some n \<Rightarrow> n + 1) xs)"

lemma costs_simps [simp]: "costs len [] = 0" "costs len (xs @ ys) = costs len xs + costs len ys"
  by (simp_all add: costs_def)

definition measured :: "('a \<Rightarrow> nat option) \<Rightarrow> 'a list \<Rightarrow> bool" where
  "measured len xs \<longleftrightarrow> (\<forall>x \<in> set xs. len x \<noteq> None)"

lemma batch_items_spec:
  assumes "batch_items len budget limit items batches current used sent dropped = (out, left_out)"
    and "used = costs len current" "sent = costs len (concat batches @ current)"
    and "\<forall>b \<in> set (batches @ [current]). costs len b \<le> budget \<and> measured len b"
    and "\<forall>b \<in> set batches. b \<noteq> []" "current = [] \<longrightarrow> batches = []" "sent \<le> limit"
  shows "(\<exists>rest. concat out = concat batches @ current @ rest \<and> subseq rest items \<and> (\<not> left_out \<longrightarrow> rest = items)) \<and>
    (dropped \<longrightarrow> left_out) \<and> out \<noteq> [] \<and>
    (\<forall>b \<in> set out. costs len b \<le> budget \<and> measured len b) \<and> costs len (concat out) \<le> limit \<and>
    (1 < length out \<longrightarrow> [] \<notin> set out)"
  using assms
proof (induction len budget limit items batches current used sent dropped rule: batch_items.induct)
  case (1 len budget limit batches current used sent dropped)
  then show ?case by (cases "batches = []") auto
next
  case (2 len budget limit item items batches current used sent dropped)
  show ?case
  proof (cases "len item")
    case None
    have e: "batch_items len budget limit items batches current used sent True = (out, left_out)"
      using "2.prems"(1) None by simp
    from "2.IH"(1) [OF None e "2.prems"(2-7)] show ?thesis by (auto intro: list_emb_Cons)
  next
    case (Some n)
    let ?cost = "n + 1"
    have item: "costs len [item] = ?cost" "measured len [item]" using Some by (simp_all add: costs_def measured_def)
    consider "budget < ?cost" | "\<not> budget < ?cost" "limit < sent + ?cost"
      | "\<not> budget < ?cost" "\<not> limit < sent + ?cost" "budget < used + ?cost" "current \<noteq> []"
      | "\<not> budget < ?cost" "\<not> limit < sent + ?cost" "\<not> (budget < used + ?cost \<and> current \<noteq> [])" by blast
    then show ?thesis
    proof cases
      case 1
      then have e: "batch_items len budget limit items batches current used sent True = (out, left_out)"
        using "2.prems"(1) Some by (simp add: Let_def)
      from "2.IH"(2) [OF Some refl 1 e "2.prems"(2-7)] show ?thesis by (auto intro: list_emb_Cons)
    next
      case 2
      then show ?thesis using "2.prems" Some by (auto simp: Let_def)
    next
      case 3
      then have e: "batch_items len budget limit items (batches @ [current]) [item] ?cost (sent + ?cost) dropped = (out, left_out)"
        using "2.prems"(1) Some by (simp add: Let_def)
      have i: "sent + ?cost = costs len (concat (batches @ [current]) @ [item])" using "2.prems"(3) item by simp
      have ii: "\<forall>b \<in> set ((batches @ [current]) @ [[item]]). costs len b \<le> budget \<and> measured len b"
        using "2.prems"(4) item 3(1) by auto
      have iii: "\<forall>b \<in> set (batches @ [current]). b \<noteq> []" using "2.prems"(5) 3(4) by auto
      have iv: "[item] = [] \<longrightarrow> batches @ [current] = []" "sent + ?cost \<le> limit" using 3(2) by simp_all
      note IH = "2.IH"(3) [OF Some refl 3(1,2) conjI [OF 3(3,4)] e item(1) [symmetric] i ii iii iv]
      then obtain rest where "concat out = concat batches @ current @ item # rest" "subseq rest items" "\<not> left_out \<longrightarrow> rest = items"
        by auto
      then have "\<exists>rest. concat out = concat batches @ current @ rest \<and> subseq rest (item # items) \<and> (\<not> left_out \<longrightarrow> rest = item # items)"
        by (intro exI [of _ "item # rest"]) simp
      with IH show ?thesis by simp
    next
      case 4
      then have e: "batch_items len budget limit items batches (current @ [item]) (used + ?cost) (sent + ?cost) dropped = (out, left_out)"
        using "2.prems"(1) Some by (auto simp: Let_def)
      have i: "used + ?cost = costs len (current @ [item])" "sent + ?cost = costs len (concat batches @ current @ [item])"
        using "2.prems"(2,3) item by simp_all
      have "used + ?cost \<le> budget"
        using 4(1,3) "2.prems"(2) by (cases "current = []") simp_all
      then have ii: "\<forall>b \<in> set (batches @ [current @ [item]]). costs len b \<le> budget \<and> measured len b"
        using "2.prems"(2,4) item by (auto simp: measured_def)
      have iii: "current @ [item] = [] \<longrightarrow> batches = []" "sent + ?cost \<le> limit" using 4(2) by simp_all
      note IH = "2.IH"(4) [OF Some refl 4 e i ii "2.prems"(5) iii]
      then obtain rest where "concat out = concat batches @ current @ item # rest" "subseq rest items" "\<not> left_out \<longrightarrow> rest = items"
        by auto
      then have "\<exists>rest. concat out = concat batches @ current @ rest \<and> subseq rest (item # items) \<and> (\<not> left_out \<longrightarrow> rest = item # items)"
        by (intro exI [of _ "item # rest"]) simp
      with IH show ?thesis by simp
    qed
  qed
qed

lemma batch_by_json_size_spec:
  assumes "batch_by_json_size items len overhead limit = (bs, left_out)"
  shows "subseq (concat bs) items" "\<not> left_out \<Longrightarrow> concat bs = items" "bs \<noteq> []"
    "\<forall>b \<in> set bs. costs len b \<le> frame_budget overhead \<and> measured len b" "costs len (concat bs) \<le> limit"
    "1 < length bs \<Longrightarrow> [] \<notin> set bs"
  using batch_items_spec [OF assms [unfolded batch_by_json_size_def]] by (auto simp: measured_def)

section \<open>What a message weighs\<close>

text \<open>The compact form \<^verbatim>\<open>serde_json\<close> documents: no blanks, control characters and the two special ones
  escaped, every other byte of a string as it is.\<close>

definition json_escape_char :: "char \<Rightarrow> string" where
  "json_escape_char c =
     (let n = of_char c :: nat in
      if n = 34 \<or> n = 92 then [CHR 0x5C, c]
      else if n = 8 then [CHR 0x5C, CHR ''b'']
      else if n = 9 then [CHR 0x5C, CHR ''t'']
      else if n = 10 then [CHR 0x5C, CHR ''n'']
      else if n = 12 then [CHR 0x5C, CHR ''f'']
      else if n = 13 then [CHR 0x5C, CHR ''r'']
      else if n < 32 then [CHR 0x5C, CHR ''u'', CHR ''0'', CHR ''0'', hex_digit (n div 16), hex_digit (n mod 16)]
      else [c])"

definition json_quote :: "string \<Rightarrow> string" where
  "json_quote s = CHR 0x22 # concat (map json_escape_char s) @ [CHR 0x22]"

fun compact_json :: "json \<Rightarrow> string" where
  "compact_json JNull = ''null''"
| "compact_json (JBool b) = (if b then ''true'' else ''false'')"
| "compact_json (JNum i) = (if i < 0 then ''-'' else []) @ nat_str (nat (abs i))"
| "compact_json (JFloat s) = s"
| "compact_json (JStr s) = json_quote s"
| "compact_json (JArr vs) = ''['' @ join '','' (map compact_json vs) @ '']''"
| "compact_json (JObj fs) = ''{'' @ join '','' (map (\<lambda>(k, v). json_quote k @ '':'' @ compact_json v) fs) @ ''}''"

definition json_compact :: "prims \<Rightarrow> bool" where
  "json_compact P \<longleftrightarrow> (\<forall>j s. json_text P j = Inr s \<longrightarrow> s = compact_json j)"

lemma length_join: "length (join '','' xs) = sum_list (map length xs) + (length xs - 1)"
  by (induction "'',''" xs rule: join.induct) auto

lemma json_len_compact: "json_compact P \<Longrightarrow> json_len P j = Some n \<Longrightarrow> n = length (compact_json j)"
  by (auto simp: json_compact_def json_len_def split: sum.splits)

lemma costs_compact:
  assumes "json_compact P" "measured (\<lambda>x. json_len P (f x)) xs"
  shows "length (compact_json (JArr (map f xs))) \<le> 2 + costs (\<lambda>x. json_len P (f x)) xs"
proof -
  have "costs (\<lambda>x. json_len P (f x)) xs = sum_list (map (\<lambda>x. length (compact_json (f x)) + 1) xs)"
    unfolding costs_def using assms(2) json_len_compact [OF assms(1)]
    by (intro arg_cong [where f = sum_list] map_cong) (auto simp: measured_def split: option.splits)
  also have "\<dots> = sum_list (map (\<lambda>x. length (compact_json (f x))) xs) + length xs" by (induction xs) simp_all
  finally show ?thesis by (simp add: length_join comp_def)
qed

definition fits :: "prims \<Rightarrow> control \<Rightarrow> bool" where
  "fits P c \<longleftrightarrow> (\<forall>e. encode_control P c \<noteq> Inl (MessageFrame e))"

lemma fits_compact:
  "json_compact P \<Longrightarrow> length (compact_json (control_json c)) \<le> MAX_INNER_PAYLOAD_LEN \<Longrightarrow> fits P c"
  by (auto simp: fits_def encode_control_def json_compact_def bind_res_def map_err_def Let_def split: sum.splits if_splits)

lemma u32_text_length: "length (nat_str (unat (n :: u32))) \<le> 10"
  using nat_str_length [of "unat n" 9] unsigned_less [of n, where 'a = nat] by simp

lemma u64_text_length: "length (nat_str (unat (n :: u64))) \<le> 20"
  using nat_str_length [of "unat n" 19] unsigned_less [of n, where 'a = nat] by simp

lemma list_reply_weight:
  "length (compact_json (control_json (FilesListReply i es t m))) \<le>
     150 + length (compact_json (JArr (map file_entry_json es)))"
  using u32_text_length [of i]
  by (simp add: tagged_json_def json_quote_def json_escape_char_def length_join present_fields.simps del: compact_json.simps(6))

fun reply_entries :: "control \<Rightarrow> file_entry list" where
  "reply_entries (FilesListReply _ es _ _) = es"
| "reply_entries _ = []"

fun reply_truncated :: "control \<Rightarrow> bool" where
  "reply_truncated (FilesListReply _ _ t _) = t"
| "reply_truncated _ = False"

lemma batch_fits_listing:
  assumes "json_compact P" "costs (\<lambda>e. json_len P (file_entry_json e)) es \<le> frame_budget LIST_REPLY_OVERHEAD"
    "measured (\<lambda>e. json_len P (file_entry_json e)) es"
  shows "fits P (FilesListReply i es t m)"
  using costs_compact [OF assms(1,3)] list_reply_weight [of i es t m] assms(2)
  by (intro fits_compact [OF assms(1)]) (simp add: frame_budget_def LIST_REPLY_OVERHEAD_def frame_limits del: compact_json.simps control_json.simps)

text \<open>C39. However long a listing is, its answer is one or more messages that each fit a frame, all but the last
  marked as having more to come; together they carry the entries in order, and every one of them says so
  if anything was left out.\<close>

theorem remote_listing_fits_frames:
  assumes "json_compact P" "list_replies P request_id l = rs"
  shows "rs \<noteq> [] \<and> (\<forall>i < length rs. fits P (rs ! i) \<and>
      (\<exists>es. rs ! i = FilesListReply request_id es (reply_truncated (rs ! 0)) (Suc i < length rs))) \<and>
    subseq (concat (map reply_entries rs)) (li_entries l) \<and>
    (\<not> reply_truncated (rs ! 0) \<longrightarrow> \<not> li_truncated l \<and> concat (map reply_entries rs) = li_entries l)"
proof -
  let ?len = "\<lambda>e. json_len P (file_entry_json e)"
  obtain bs left_out where b: "batch_by_json_size (li_entries l) ?len LIST_REPLY_OVERHEAD MAX_LIST_BYTES = (bs, left_out)"
    by force
  let ?t = "li_truncated l \<or> left_out"
  have rs: "rs = map (\<lambda>(i, es). FilesListReply request_id es ?t (i < length bs - 1)) (zip [0..<length bs] bs)"
    using assms(2) by (simp add: list_replies_def b Let_def)
  note spec = batch_by_json_size_spec [OF b]
  have nth: "rs ! i = FilesListReply request_id (bs ! i) ?t (Suc i < length rs)" if "i < length bs" for i
    using that by (auto simp: rs)
  have entries: "map reply_entries rs = bs" by (rule nth_equalityI) (auto simp: rs)
  have t: "reply_truncated (rs ! 0) = ?t" using nth [of 0] spec(3) by simp
  have "\<forall>i < length rs. fits P (rs ! i) \<and> (\<exists>es. rs ! i = FilesListReply request_id es ?t (Suc i < length rs))"
    using nth spec(4) batch_fits_listing [OF assms(1)] by (simp add: rs)
  then show ?thesis unfolding t entries using spec(1-3) by (auto simp: rs)
qed

section \<open>Listing is confined\<close>

text \<open>The scanned paths are plain ones, in strictly increasing order.\<close>

definition path_ok :: "string \<Rightarrow> bool" where
  "path_ok p \<longleftrightarrow> list_all plain (rel_components p) \<and> slash_join (rel_components p) = p"

definition snapshot_ok :: "snapshot \<Rightarrow> bool" where
  "snapshot_ok sn \<longleftrightarrow>
     (\<forall>e \<in> set (sn_entries sn). path_ok (en_path e)) \<and>
     sorted_wrt (\<lambda>a b. rel_components (en_path a) < rel_components (en_path b)) (sn_entries sn)"

lemma le_append: "p \<le> p @ zs" for p :: "'a::linorder list"
  by (induction p) auto

lemma prefix_le: "prefix p q \<Longrightarrow> p \<le> q" for p q :: "'a::linorder list"
  by (auto elim!: prefixE simp: le_append)

lemma prefix_convex: "p \<le> q \<Longrightarrow> q \<le> r \<Longrightarrow> prefix p r \<Longrightarrow> prefix p q" for p q r :: "'a::linorder list"
proof (induction p arbitrary: q r)
  case (Cons x p)
  then obtain r' where r: "r = x # r'" "prefix p r'" by (cases r) auto
  with Cons.prems(1,2) obtain q' where q: "q = x # q'" "p \<le> q'" "q' \<le> r'" by (cases q) auto
  with Cons.IH [OF q(2,3) r(2)] show ?case by simp
qed simp

lemma join_append: "xs \<noteq> [] \<Longrightarrow> ys \<noteq> [] \<Longrightarrow> slash_join (xs @ ys) = slash_join xs @ CHR ''/'' # slash_join ys"
  by (induction "''/''" xs rule: join.induct) (auto simp: join_Cons)

lemma rel_components_append:
  "list_all plain cs \<Longrightarrow> cs \<noteq> [] \<Longrightarrow> rel_components (slash_join cs @ CHR ''/'' # rest) = cs @ rel_components rest"
  by (induction "''/''" cs rule: join.induct) (auto simp: rel_components_cons plain_def)

lemma rel_starts_with_iff:
  assumes "path_ok p" "path_ok q"
  shows "rel_starts_with p q \<longleftrightarrow> prefix (rel_components q) (rel_components p)"
proof (cases "q = []")
  case True
  then show ?thesis by (simp add: rel_starts_with_def rel_strip_prefix_def)
next
  case False
  let ?ps = "rel_components p" and ?qs = "rel_components q"
  have q: "list_all plain ?qs" "slash_join ?qs = q" "?qs \<noteq> []" and p: "slash_join ?ps = p"
    using assms False by (auto simp: path_ok_def rel_components_eq_Nil)
  have "rel_starts_with p q \<longleftrightarrow> p = q \<or> (\<exists>rest. p = q @ CHR ''/'' # rest)"
    using False by (auto simp: rel_starts_with_def rel_strip_prefix_def strip_prefix_Some split: option.splits)
      (auto simp: strip_prefix_def starts_with_def split: if_splits)
  also have "\<dots> \<longleftrightarrow> prefix ?qs ?ps"
  proof
    assume "p = q \<or> (\<exists>rest. p = q @ CHR ''/'' # rest)"
    then show "prefix ?qs ?ps" using rel_components_append [OF q(1,3)] q(2) by auto
  next
    assume "prefix ?qs ?ps"
    then obtain zs where "?ps = ?qs @ zs" by (rule prefixE)
    then have pz: "slash_join (?qs @ zs) = p" using p by metis
    show "p = q \<or> (\<exists>rest. p = q @ CHR ''/'' # rest)"
    proof (cases "zs = []")
      case True
      then show ?thesis using pz q(2) by (metis append_Nil2)
    next
      case False
      then show ?thesis using pz join_append [OF q(3) False] q(2) by metis
    qed
  qed
  finally show ?thesis .
qed

lemma siblings_subset: "set (siblings parent es) \<subseteq> set es"
  by (induction parent es rule: siblings.induct) (auto dest: set_dropWhileD)

lemma siblings_start: "x \<in> set (siblings parent es) \<Longrightarrow> rel_starts_with (en_path x) parent"
  by (induction parent es rule: siblings.induct) (auto split: if_splits)

abbreviation comps :: "snapshot_entry \<Rightarrow> string list" where
  "comps e \<equiv> rel_components (en_path e)"

lemma sorted_dropWhile:
  assumes "sorted_wrt (\<lambda>a b. comps a < comps b) (e # es)" "\<forall>x \<in> set (e # es). path_ok (en_path x)"
    and "x \<in> set (dropWhile (\<lambda>x. rel_starts_with (en_path x) (en_path e)) es)"
  shows "\<not> prefix (comps e) (comps x)"
proof -
  obtain y ys where d: "dropWhile (\<lambda>x. rel_starts_with (en_path x) (en_path e)) es = y # ys"
    using assms(3) by (cases "dropWhile (\<lambda>x. rel_starts_with (en_path x) (en_path e)) es") auto
  then have y: "\<not> rel_starts_with (en_path y) (en_path e)"
    using hd_dropWhile [of "\<lambda>x. rel_starts_with (en_path x) (en_path e)" es] by simp
  have "y \<in> set (dropWhile (\<lambda>x. rel_starts_with (en_path x) (en_path e)) es)" by (simp add: d)
  then have yes: "y \<in> set es" by (rule set_dropWhileD)
  have "sorted_wrt (\<lambda>a b. comps a < comps b) (y # ys)"
    using assms(1) sorted_wrt_dropWhile [of _ es] d by (metis sorted_wrt.simps(2))
  then have "comps y \<le> comps x" using assms(3) d by (auto simp: less_imp_le)
  moreover have "comps e \<le> comps y" using assms(1) yes by (auto simp: less_imp_le)
  ultimately show ?thesis
    using prefix_convex [of "comps e" "comps y" "comps x"] y yes assms(2) rel_starts_with_iff [of "en_path y" "en_path e"]
    by auto
qed

text \<open>Nothing that is listed is below something else after the parent.\<close>

lemma siblings_unrelated:
  assumes "sorted_wrt (\<lambda>a b. comps a < comps b) es" "\<forall>x \<in> set es. path_ok (en_path x)"
    and "x \<in> set (siblings parent es)" "a \<in> set es" "prefix (comps a) (comps x)"
  shows "comps a = comps x"
  using assms
proof (induction parent es rule: siblings.induct)
  case (2 parent e es)
  let ?rest = "dropWhile (\<lambda>x. rel_starts_with (en_path x) (en_path e)) es"
  have start: "rel_starts_with (en_path e) parent" using "2.prems"(3) by (simp split: if_splits)
  consider "x = e" | "x \<in> set (siblings parent ?rest)" using "2.prems"(3) by (auto split: if_splits)
  then show ?case
  proof cases
    case 1
    show ?thesis
    proof (cases "a = e")
      case False
      then have "comps e < comps a" using "2.prems"(1,4) by auto
      with prefix_le [OF "2.prems"(5)] 1 show ?thesis by auto
    qed (simp add: 1)
  next
    case 2
    then have rest: "x \<in> set ?rest" using siblings_subset by blast
    have "\<not> prefix (comps e) (comps x)"
      by (rule sorted_dropWhile [OF "2.prems"(1,2) rest])
    with "2.prems"(5) have "\<not> prefix (comps e) (comps a)" by (meson prefix_order.order_trans)
    with "2.prems"(2,4) have "a \<in> set es" "\<not> rel_starts_with (en_path a) (en_path e)"
      using rel_starts_with_iff [of "en_path a" "en_path e"] by auto
    then have "a \<in> set ?rest"
      by (metis (no_types, lifting) Un_iff set_append set_takeWhileD takeWhile_dropWhile_id)
    moreover have "sorted_wrt (\<lambda>a b. comps a < comps b) ?rest" "\<forall>x \<in> set ?rest. path_ok (en_path x)"
      using "2.prems"(1,2) by (auto intro: sorted_wrt_dropWhile dest: set_dropWhileD)
    ultimately show ?thesis using "2.IH" [OF start] 2 "2.prems"(5) by blast
  qed
qed simp

lemma rel_ancestors_join:
  "list_all plain cs \<Longrightarrow>
     rel_ancestors (slash_join cs) = map (\<lambda>n. slash_join (take n cs)) (rev [0..<Suc (length cs)])"
proof (induction cs rule: rev_induct)
  case Nil
  then show ?case by (simp add: rel_ancestors.simps rsplit_plain)
next
  case (snoc c cs)
  have "rel_ancestors (slash_join (cs @ [c])) = slash_join (cs @ [c]) # rel_ancestors (slash_join cs)"
    using snoc.prems
    by (cases "cs = []") (auto simp: rel_ancestors.simps [of "_ @ _"] rel_ancestors.simps [of c] join_snoc rsplit_snoc rsplit_plain plain_def)
  then show ?case using snoc by simp
qed

lemma ancestors_of:
  assumes "path_ok p"
  shows "set (tl (rel_ancestors p)) = {slash_join (take n (rel_components p)) | n. n < length (rel_components p)}"
proof -
  have "tl (rel_ancestors p) = map (\<lambda>n. slash_join (take n (rel_components p))) (rev [0..<length (rel_components p)])"
    using rel_ancestors_join [of "rel_components p"] assms by (simp add: path_ok_def)
  then show ?thesis by auto
qed

lemma path_ok_prefix: "path_ok p \<Longrightarrow> rel_components (slash_join (take n (rel_components p))) = take n (rel_components p)"
  by (rule rel_components_join) (auto simp: path_ok_def list_all_iff dest: in_set_takeD)

lemma child_is_reachable:
  assumes "snapshot_ok sn" "entry_for_path sn (en_path d) = Some d" "is_reachable sn d"
    and "x \<in> set (child_entries sn (en_path d))" "is_reachable_itself x"
  shows "is_reachable sn x"
proof -
  let ?rest = "dropWhile (\<lambda>e. comps e \<le> comps d) (sn_entries sn)"
  have x: "x \<in> set ?rest" using assms(4) siblings_subset by (auto simp: child_entries_def)
  then have "x \<in> set (sn_entries sn)" by (rule set_dropWhileD)
  then have okx: "path_ok (en_path x)" using assms(1) by (simp add: snapshot_ok_def)
  have okd: "path_ok (en_path d)" using assms(1) entry_for_path_Some [OF assms(2)] by (simp add: snapshot_ok_def)
  have dx: "prefix (comps d) (comps x)"
    using siblings_start assms(4) rel_starts_with_iff [OF okx okd] by (auto simp: child_entries_def)
  have "en_canonical_path e = None"
    if asm: "a \<in> set (tl (rel_ancestors (en_path x)))" "a \<noteq> []" "entry_for_path sn a = Some e" for a e
  proof -
    obtain n where a: "a = slash_join (take n (comps x))" "n < length (comps x)" using asm(1) unfolding ancestors_of [OF okx] by blast
    have e: "en_path e = a" "e \<in> set (sn_entries sn)" using entry_for_path_Some [OF asm(3)] by simp_all
    have ce: "comps e = take n (comps x)" using path_ok_prefix [OF okx] a e(1) by simp
    have ex: "prefix (comps e) (comps x)" by (simp add: ce take_is_prefix)
    consider "comps e = comps d" | "strict_prefix (comps e) (comps d)" | "strict_prefix (comps d) (comps e)"
      using prefix_same_cases [OF ex dx] by (metis strict_prefix_def)
    then show ?thesis
    proof cases
      case 1
      then have "en_path e = en_path d"
        using okd e assms(1) by (metis path_ok_def snapshot_ok_def)
      with assms(2) asm(3) e(1) have "e = d" by simp
      with assms(3) show ?thesis by (simp add: is_reachable_iff is_reachable_itself_def)
    next
      case 2
      then obtain zs where z: "comps d = comps e @ zs" "zs \<noteq> []" by (auto elim!: strict_prefixE')
      then have "take (length (comps e)) (comps d) = comps e" "length (comps e) < length (comps d)" by simp_all
      moreover have "slash_join (comps e) = a" using e assms(1) by (auto simp: snapshot_ok_def path_ok_def)
      ultimately have "a \<in> set (tl (rel_ancestors (en_path d)))" using ancestors_of [OF okd] by force
      with asm assms(3) show ?thesis by (simp add: is_reachable_iff no_symlink_above_def)
    next
      case 3
      then have "comps d \<le> comps e" "comps d \<noteq> comps e" by (auto simp: prefix_le strict_prefix_def)
      then have "\<not> comps e \<le> comps d" by simp
      then have "e \<in> set ?rest" using e(2) by (metis (no_types, lifting) Un_iff set_append set_takeWhileD takeWhile_dropWhile_id)
      moreover have "sorted_wrt (\<lambda>a b. comps a < comps b) ?rest" "\<forall>y \<in> set ?rest. path_ok (en_path y)"
        using assms(1) by (auto simp: snapshot_ok_def intro: sorted_wrt_dropWhile dest: set_dropWhileD)
      ultimately have "comps e = comps x"
        using siblings_unrelated [OF _ _ _ _ ex] assms(4) by (simp add: child_entries_def)
      with ce a(2) show ?thesis by (metis length_take min.absorb4 nat_neq_iff)
    qed
  qed
  with assms(5) show ?thesis by (auto simp: is_reachable_iff no_symlink_above_def)
qed

text \<open>C24. A listing shows only what a device may see: the path is a plain relative one naming a folder of the
  snapshot, and every entry shown is one of the snapshot inside that folder that is neither private nor
  external, nor a symlink, nor behind one. At most two thousand are shown, the first in the order of
  folders before files and then of names, and it is said exactly when there are more.\<close>

theorem remote_listing_is_confined:
  assumes "snapshot_ok sn" "list_children to_lowercase sn path = Inr l"
  shows "\<exists>d children. rel_unix path = Some (en_path d) \<and> d \<in> set (sn_entries sn) \<and> entry_is_dir d \<and> is_reachable sn d \<and>
    li_entries l = map listed_entry children \<and> length children \<le> MAX_LIST_ENTRIES \<and>
    (\<forall>x \<in> set children. x \<in> set (sn_entries sn) \<and> is_reachable sn x \<and> \<not> en_is_private x \<and> \<not> en_is_external x \<and>
       prefix (comps d) (comps x)) \<and>
    map (list_key to_lowercase) children =
      take MAX_LIST_ENTRIES (sort (map (list_key to_lowercase) (filter is_reachable_itself (child_entries sn (en_path d))))) \<and>
    (li_truncated l \<longleftrightarrow> MAX_LIST_ENTRIES < length (filter is_reachable_itself (child_entries sn (en_path d))))"
proof -
  obtain parent d where d: "rel_unix path = Some parent" "entry_for_path sn parent = Some d" "entry_is_dir d" "is_reachable sn d"
    using assms(2)
    by (auto simp: list_children_def bind_res_def ok_or_def snapshot_path_def split: option.splits sum.splits if_splits)
  let ?items = "filter is_reachable_itself (child_entries sn (en_path d))"
  obtain children n where c: "first_by_key ?items MAX_LIST_ENTRIES (list_key to_lowercase) = (children, n)" by force
  have l: "l = \<lparr>li_entries = map listed_entry children, li_truncated = (MAX_LIST_ENTRIES < n)\<rparr>"
    using assms(2) d c by (simp add: list_children_def bind_res_def ok_or_def snapshot_path_def)
  have spec: "map (list_key to_lowercase) children = take MAX_LIST_ENTRIES (sort (map (list_key to_lowercase) ?items))"
      "n = length ?items" "set children \<subseteq> set ?items"
    using first_by_key_spec [where key = "list_key to_lowercase" and items = ?items and count = MAX_LIST_ENTRIES] by (simp_all add: c)
  have path: "en_path d = parent" "d \<in> set (sn_entries sn)" using entry_for_path_Some [OF d(2)] by simp_all
  have "x \<in> set (sn_entries sn) \<and> is_reachable sn x \<and> prefix (comps d) (comps x)" if "x \<in> set children" for x
  proof -
    have x: "x \<in> set (child_entries sn (en_path d))" "is_reachable_itself x" using spec(3) that by auto
    have "x \<in> set (sn_entries sn)"
      using x(1) siblings_subset set_dropWhileD by (fastforce simp: child_entries_def)
    moreover have "is_reachable sn x" using child_is_reachable [OF assms(1) _ d(4) x] d(2) path(1) by simp
    moreover have "prefix (comps d) (comps x)"
      using siblings_start x(1) rel_starts_with_iff [of "en_path x" "en_path d"] assms(1) path(2) calculation(1)
      by (auto simp: child_entries_def snapshot_ok_def)
    ultimately show ?thesis by blast
  qed
  moreover have "length children \<le> MAX_LIST_ENTRIES" using arg_cong [OF spec(1), of length] by simp
  ultimately show ?thesis
    using d path spec(1,2) by (intro exI [of _ d] exI [of _ children]) (auto simp: l is_reachable_iff is_reachable_itself_def)
qed

section \<open>The properties at an instance\<close>

definition demo_entry :: "string \<Rightarrow> entry_kind \<Rightarrow> bool \<Rightarrow> snapshot_entry" where
  "demo_entry p k private =
     \<lparr>en_kind = k, en_path = p, en_canonical_path = None, en_is_external = False, en_is_private = private, en_size = 2,
      en_is_fifo = False\<rparr>"

definition demo_folder :: snapshot where
  "demo_folder =
     \<lparr>sn_abs_path = [RootDir, Normal ''w''],
      sn_entries = [demo_entry [] LoadedDir False, demo_entry ''a'' LoadedDir False, demo_entry ''a/b'' FileEntryKind False,
        demo_entry ''c'' FileEntryKind True]\<rparr>"

definition demo_settings :: worktree_settings where
  "demo_settings =
     (let none = \<lparr>pm_sources = [], pm_glob = (\<lambda>_. False), pm_path_style = Posix\<rparr> in
      \<lparr>ws_private_files = none, ws_file_scan_exclusions = none\<rparr>)"

definition demo_disk :: remote_disk where
  "demo_disk =
     \<lparr>rd_metadata = (\<lambda>_. Inr (Some \<lparr>md_is_symlink = False, md_is_regular_file = True, md_len = 2\<rparr>)),
      rd_canonicalize = Inr,
      rd_open = (\<lambda>p. if p = [RootDir, Normal ''w'', Normal ''a'', Normal ''b''] then Inr [104, 105] else Inl ''other'')\<rparr>"

lemma demo_lookups:
  "rel_unix ''a/b'' = Some ''a/b''" "entry_for_path demo_folder ''a/b'' = Some (demo_entry ''a/b'' FileEntryKind False)"
  "is_reachable demo_folder (demo_entry ''a/b'' FileEntryKind False)" "components ''a/b'' = [Normal ''a'', Normal ''b'']"
  "from_utf8 [104, 105] = Some ''hi''"
  by code_simp+

lemma demo_read: "read_text demo_disk demo_folder demo_settings ''a/b'' = Inr [104, 105]"
  by (simp add: read_text_simps snapshot_path_def demo_lookups)
    (simp add: demo_entry_def demo_disk_def demo_folder_def demo_lookups entry_is_file_def MAX_FILE_BYTES_def
      path_join_def is_absolute_def within_def)

definition demo_open :: "browsed_project list" where
  "demo_open = [\<lparr>bp_is_local = True, bp_worktrees = [\<lparr>bw_id = 3, bw_root_name = ''w'', bw_display = ''/w'',
     bw_is_single_file = False, bw_snapshot = demo_folder, bw_settings = Some demo_settings\<rparr>]\<rparr>]"

lemma demo_browser_read: "browser_read demo_disk demo_open ''3'' ''a/b'' = Inr [104, 105]"
  using demo_read
  by (simp add: browser_read_def browser_worktree_def parse_u64_def is_ascii_digit_def visible_worktrees_def demo_open_def
      bind_res_def ok_or_def Let_def)

theorem remote_read_is_confined_witness:
  "browser_read demo_disk demo_open ''3'' ''a/b'' = Inr [104, 105] \<and>
   (\<exists>(e :: snapshot_entry) sn real. rel_unix ''a/b'' = Some (en_path e) \<and> \<not> en_is_private e \<and>
      rd_canonicalize demo_disk (disk_path sn e) = Inr real \<and> rd_open demo_disk real = Inr [104, 105])"
  using remote_read_is_confined [OF demo_browser_read] demo_browser_read by blast

definition compact_prims :: prims where
  "compact_prims = ref_prims\<lparr>json_text := \<lambda>j. Inr (compact_json j)\<rparr>"

lemma compact_prims_ok: "json_compact compact_prims"
  by (simp add: json_compact_def compact_prims_def)

lemma demo_replies:
  "list_replies compact_prims 7 \<lparr>li_entries = [], li_truncated = True\<rparr> = [FilesListReply 7 [] True False]"
  by (simp add: list_replies_def batch_by_json_size_def Let_def)

theorem remote_listing_fits_frames_witness:
  "json_compact compact_prims \<and>
   list_replies compact_prims 7 \<lparr>li_entries = [], li_truncated = True\<rparr> = [FilesListReply 7 [] True False] \<and>
   fits compact_prims (FilesListReply 7 [] True False)"
  using remote_listing_fits_frames [OF compact_prims_ok demo_replies] compact_prims_ok demo_replies by simp

lemma demo_folder_ok: "snapshot_ok demo_folder"
  by code_simp

lemma demo_list_lookups:
  "rel_unix [] = Some []" "entry_for_path demo_folder [] = Some (demo_entry [] LoadedDir False)"
  "entry_is_dir (demo_entry [] LoadedDir False)" "is_reachable demo_folder (demo_entry [] LoadedDir False)"
  by code_simp+

theorem remote_listing_is_confined_witness:
  "\<exists>l children. list_children id demo_folder [] = Inr l \<and> li_entries l = map listed_entry children \<and>
     set children \<subseteq> {x. is_reachable demo_folder x \<and> \<not> en_is_private x}"
proof -
  obtain l where l: "list_children id demo_folder [] = Inr l"
    by (simp add: list_children_def bind_res_def ok_or_def snapshot_path_def demo_list_lookups case_prod_unfold Let_def)
  from remote_listing_is_confined [OF demo_folder_ok l] l show ?thesis by blast
qed

end
