(* ===== verification/Remote_History.thy ===== *)
theory Remote_History
  imports Env_Catalogue Remote_Browse
begin

text \<open>
  What a paired device sees of the agent conversations on the host and what it may start from one,
  \<^verbatim>\<open>remote_control/src/session_history.rs\<close>, with the resume commands of \<^verbatim>\<open>agent_sessions\<close>. A session counts
  only if it ran inside a folder that is open; a session of a remote host carries the host in its id.
  Paths are texts that are valid Unicode, as the session stores keep them. The main results: following
  the cursors shows every session in view once and in order, and nothing else is listed or resumed.
\<close>

section \<open>Limits\<close>

definition DEFAULT_PAGE_LIMIT :: nat where "DEFAULT_PAGE_LIMIT = 50"

definition MAX_PAGE_LIMIT :: nat where "MAX_PAGE_LIMIT = 200"

definition MAX_TEXT_CHARS :: nat where "MAX_TEXT_CHARS = 200"

definition MAX_TOAST_TITLE_CHARS :: nat where "MAX_TOAST_TITLE_CHARS = 60"

definition MAX_TOAST_DEVICE_CHARS :: nat where "MAX_TOAST_DEVICE_CHARS = 40"

definition MAX_SESSION_ID_BYTES :: nat where "MAX_SESSION_ID_BYTES = 128"

definition MAX_HOST_LABEL_CHARS :: nat where "MAX_HOST_LABEL_CHARS = 60"

definition MAX_UNAVAILABLE_HOSTS :: nat where "MAX_UNAVAILABLE_HOSTS = 16"

definition HOST_TOKEN_LEN :: nat where "HOST_TOKEN_LEN = 12"

definition REPLY_OVERHEAD :: nat where "REPLY_OVERHEAD = 512"

text \<open>In nanoseconds.\<close>

definition MIN_FRESH_READ_INTERVAL :: nat where "MIN_FRESH_READ_INTERVAL = 5 * 1000000000"

definition clamp_limit :: "u32 option \<Rightarrow> nat" where
  "clamp_limit limit =
     max 1 (min MAX_PAGE_LIMIT (case limit of None \<Rightarrow> DEFAULT_PAGE_LIMIT | Some n \<Rightarrow> unat n))"

section \<open>Ids\<close>

definition is_ascii_alphanumeric :: "char \<Rightarrow> bool" where
  "is_ascii_alphanumeric c \<longleftrightarrow> is_ascii_alphabetic c \<or> is_ascii_digit c"

definition is_plausible_session_id :: "string \<Rightarrow> bool" where
  "is_plausible_session_id s \<longleftrightarrow>
     1 \<le> length s \<and> length s \<le> MAX_SESSION_ID_BYTES \<and>
     (case s of [] \<Rightarrow> False | c # _ \<Rightarrow> is_ascii_alphanumeric c) \<and>
     list_all (\<lambda>c. is_ascii_alphanumeric c \<or> c = CHR ''.'' \<or> c = CHR ''_'' \<or> c = CHR ''-'') s"

type_synonym host_token = string

definition token_of :: "prims \<Rightarrow> string \<Rightarrow> host_token" where
  "token_of P stable_key =
     to_hex (take (HOST_TOKEN_LEN div 2) (sha256 P (as_bytes stable_key)))"

definition token_parse :: "string \<Rightarrow> host_token option" where
  "token_parse s =
     (if length s = HOST_TOKEN_LEN \<and> list_all (\<lambda>c. is_ascii_digit c \<or> c \<in> set ''abcdef'') s then Some s else None)"

definition wire_id :: "host_token option \<Rightarrow> string \<Rightarrow> string" where
  "wire_id host s = (case host of Some host \<Rightarrow> host @ '':'' @ s | None \<Rightarrow> s)"

definition parse_wire_id :: "string \<Rightarrow> (host_token option \<times> string) option" where
  "parse_wire_id wire =
     Option.bind
       (if CHR '':'' \<in> set wire
        then map_option (\<lambda>token. (Some token, tl (dropWhile (\<lambda>c. c \<noteq> CHR '':'') wire)))
               (token_parse (takeWhile (\<lambda>c. c \<noteq> CHR '':'') wire))
        else Some (None, wire))
       (\<lambda>(host, s). if is_plausible_session_id s then Some (host, s) else None)"

definition clip :: "string \<Rightarrow> nat \<Rightarrow> string" where
  "clip s max_chars =
     (if length (chars s) \<le> max_chars then s
      else string_of_chars (take (max_chars - 1) (chars s) @ [0x2026]))"

section \<open>Agents\<close>

datatype agent_kind = Claude | Codex | Copilot | OpenCode

datatype fork = Continue | NewFork

fun wire_agent :: "agent_kind \<Rightarrow> string" where
  "wire_agent Claude = ''claude''"
| "wire_agent Codex = ''codex''"
| "wire_agent Copilot = ''copilot''"
| "wire_agent OpenCode = ''opencode''"

text \<open>What this component reads of a session; its time is in nanoseconds from the epoch.\<close>

record session_summary =
  ss_id :: string
  ss_agent :: agent_kind
  ss_title :: string
  ss_preview :: string
  ss_cwd :: string
  ss_branch :: "string option"
  ss_updated_at :: int

record agent_command =
  ac_program :: string
  ac_args :: "string list"
  ac_cwd :: string

definition claude_resume_command :: "session_summary \<Rightarrow> fork \<Rightarrow> agent_command option" where
  "claude_resume_command s fork =
     Some \<lparr>ac_program = ''claude'',
       ac_args = [''--resume'', ss_id s] @ (if fork = NewFork then [''--fork-session''] else []), ac_cwd = ss_cwd s\<rparr>"

definition codex_resume_command :: "session_summary \<Rightarrow> fork \<Rightarrow> agent_command option" where
  "codex_resume_command s fork =
     (if fork = NewFork then None
      else Some \<lparr>ac_program = ''codex'', ac_args = [''resume'', ss_id s], ac_cwd = ss_cwd s\<rparr>)"

definition copilot_resume_command :: "session_summary \<Rightarrow> fork \<Rightarrow> agent_command option" where
  "copilot_resume_command s fork =
     (if fork = NewFork then None
      else Some \<lparr>ac_program = ''copilot'', ac_args = [''--resume='' @ ss_id s], ac_cwd = ss_cwd s\<rparr>)"

definition opencode_resume_command :: "session_summary \<Rightarrow> fork \<Rightarrow> agent_command option" where
  "opencode_resume_command s fork =
     Some \<lparr>ac_program = ''opencode'',
       ac_args = [''-s'', ss_id s] @ (if fork = NewFork then [''--fork''] else []), ac_cwd = ss_cwd s\<rparr>"

text \<open>The command of the session's own agent.\<close>

fun resume_command :: "agent_kind \<Rightarrow> session_summary \<Rightarrow> fork \<Rightarrow> agent_command option" where
  "resume_command Claude = claude_resume_command"
| "resume_command Codex = codex_resume_command"
| "resume_command Copilot = copilot_resume_command"
| "resume_command OpenCode = opencode_resume_command"

section \<open>Open folders\<close>

record root_host =
  rh_token :: host_token
  rh_label :: string

record root_scope =
  rs_worktree_id :: u64
  rs_path :: string
  rs_name :: string
  rs_hidden :: "worktree_settings option"
  rs_host :: "root_host option"
  rs_path_style :: path_style

definition root_token :: "root_scope \<Rightarrow> host_token option" where
  "root_token r = map_option rh_token (rs_host r)"

definition root_hides :: "root_scope \<Rightarrow> string \<Rightarrow> bool" where
  "root_hides r cwd =
     (case rs_hidden r of
        None \<Rightarrow> False
      | Some settings \<Rightarrow>
          (case path_strip_prefix (rs_path r) cwd of
             None \<Rightarrow> False
           | Some inside \<Rightarrow>
               (case rel_new inside (rs_path_style r) of
                  Inl _ \<Rightarrow> True
                | Inr (_, inside) \<Rightarrow> is_path_private settings inside \<or> is_path_excluded settings inside)))"

text \<open>The key of \<^verbatim>\<open>max_by_key\<close>, which keeps the last of the greatest.\<close>

definition root_depth :: "root_scope \<Rightarrow> nat \<times> int" where
  "root_depth r = (length (components (rs_path r)), - uint (rs_worktree_id r))"

fun last_max :: "('a \<Rightarrow> 'k::linorder) \<Rightarrow> 'a list \<Rightarrow> 'a option" where
  "last_max key [] = None"
| "last_max key (x # xs) =
     (case last_max key xs of None \<Rightarrow> Some x | Some y \<Rightarrow> if key x \<le> key y then Some y else Some x)"

definition deepest_root :: "root_scope list \<Rightarrow> host_token option \<Rightarrow> string \<Rightarrow> root_scope option" where
  "deepest_root roots host cwd =
     (if ParentDir \<in> set (components cwd) then None
      else last_max root_depth
             (filter (\<lambda>r. root_token r = host \<and> within (components (rs_path r)) (components cwd)) roots))"

section \<open>A page\<close>

definition unix_millis :: "int \<Rightarrow> u64" where
  "unix_millis t = (if t < 0 then 0 else let ms = t div 1000000 in if ms < 2 ^ 64 then of_int ms else - 1)"

definition display_title :: "session_summary \<Rightarrow> string" where
  "display_title s = (let title = trim (ss_title s) in if title = [] then trim (ss_preview s) else title)"

fun component_text :: "component \<Rightarrow> string" where
  "component_text RootDir = ''/''"
| "component_text CurDir = ''.''"
| "component_text ParentDir = ''..''"
| "component_text (Normal n) = n"

definition folder_label :: "root_scope \<Rightarrow> string \<Rightarrow> string" where
  "folder_label r cwd =
     (case path_strip_prefix (rs_path r) cwd of
        None \<Rightarrow> rs_name r
      | Some inside \<Rightarrow> rs_name r @ concat (map (\<lambda>c. ''/'' @ component_text c) (components inside)))"

record listed_session =
  ls_session :: session_summary
  ls_root :: root_scope
  ls_updated_at :: u64
  ls_id :: string

text \<open>Newest first, then by id.\<close>

definition listed_key :: "listed_session \<Rightarrow> int \<times> string" where
  "listed_key l = (- uint (ls_updated_at l), ls_id l)"

definition is_at_or_before :: "session_cursor \<Rightarrow> listed_session \<Rightarrow> bool" where
  "is_at_or_before cursor l \<longleftrightarrow> listed_key l \<le> (- uint (sc_updated_at cursor), sc_id cursor)"

definition listed_cursor :: "listed_session \<Rightarrow> session_cursor" where
  "listed_cursor l = \<lparr>sc_updated_at = ls_updated_at l, sc_id = ls_id l\<rparr>"

record host_sessions =
  hs_host :: "host_token option"
  hs_sessions :: "session_summary list"

definition listed_of :: "root_scope list \<Rightarrow> host_token option \<Rightarrow> session_summary \<Rightarrow> listed_session option" where
  "listed_of roots host s =
     (if \<not> is_plausible_session_id (ss_id s) then None
      else (case deepest_root roots host (ss_cwd s) of
              None \<Rightarrow> None
            | Some r \<Rightarrow>
                if root_hides r (ss_cwd s) then None
                else Some \<lparr>ls_session = s, ls_root = r, ls_updated_at = unix_millis (ss_updated_at s),
                  ls_id = wire_id host (ss_id s)\<rparr>))"

definition listed_sessions :: "host_sessions list \<Rightarrow> root_scope list \<Rightarrow> listed_session list" where
  "listed_sessions hosts roots =
     sort_key listed_key (List.map_filter (\<lambda>(host, s). listed_of roots host s)
       (concat (map (\<lambda>h. map (Pair (hs_host h)) (hs_sessions h)) hosts)))"

definition session_entry_of :: "(string \<Rightarrow> string option) \<Rightarrow> listed_session \<Rightarrow> session_entry" where
  "session_entry_of open_agent l =
     (let s = ls_session l; preview = trim (ss_preview s); host = rs_host (ls_root l) in
      \<lparr>se_id = ls_id l, se_agent = wire_agent (ss_agent s), se_title = clip (display_title s) MAX_TEXT_CHARS,
       se_preview = (if preview = [] then None else Some (clip preview MAX_TEXT_CHARS)),
       se_worktree_id = wire_id (map_option rh_token host) (nat_str (unat (rs_worktree_id (ls_root l)))),
       se_folder = clip (folder_label (ls_root l) (ss_cwd s)) MAX_TEXT_CHARS,
       se_branch = map_option (\<lambda>b. clip b MAX_TEXT_CHARS) (ss_branch s),
       se_updated_at = ls_updated_at l, se_can_fork = (resume_command (ss_agent s) s NewFork \<noteq> None),
       se_open_agent_id = open_agent (ls_id l), se_host = map_option rh_label host\<rparr>)"

text \<open>The partition point of a sorted list is the length of the part that satisfies the predicate.\<close>

definition page_across ::
  "host_sessions list \<Rightarrow> root_scope list \<Rightarrow> session_cursor option \<Rightarrow> nat \<Rightarrow> (string \<Rightarrow> string option) \<Rightarrow>
   session_entry list \<times> session_cursor option" where
  "page_across hosts roots before limit open_agent =
     (let listed = listed_sessions hosts roots;
          listed = (case before of None \<Rightarrow> listed | Some cursor \<Rightarrow> dropWhile (is_at_or_before cursor) listed);
          shown = take limit listed
      in (map (session_entry_of open_agent) shown,
          if limit < length listed \<and> shown \<noteq> [] then Some (listed_cursor (last shown)) else None))"

section \<open>Answers\<close>

definition host_notice :: "string \<Rightarrow> u64 \<Rightarrow> bool \<Rightarrow> unavailable_host option" where
  "host_notice label generation failed =
     (if generation = 0 then Some \<lparr>uh_host = label, uh_reason = ''reading''\<rparr>
      else if failed then Some \<lparr>uh_host = label, uh_reason = ''unavailable''\<rparr>
      else None)"

definition session_replies ::
  "prims \<Rightarrow> u32 \<Rightarrow> session_entry list \<Rightarrow> session_cursor option \<Rightarrow> unavailable_host list \<Rightarrow> control list" where
  "session_replies P request_id entries next_cursor unavailable_hosts =
     (let unavailable_hosts = take MAX_UNAVAILABLE_HOSTS unavailable_hosts;
          notices_weight =
            (if unavailable_hosts = [] then 0
             else (case json_len P (JArr (map unavailable_host_json unavailable_hosts)) of None \<Rightarrow> 0 | Some n \<Rightarrow> n));
          (batches, _) =
            batch_by_json_size entries (\<lambda>e. json_len P (session_entry_json e)) (REPLY_OVERHEAD + notices_weight) (2 ^ 64 - 1);
          last_index = length batches - 1
      in map (\<lambda>(index, sessions).
           let is_last = (index = last_index) in
           SessionsListReply request_id sessions (\<not> is_last) (if is_last then next_cursor else None)
             (if is_last then unavailable_hosts else []))
           (zip [0..<length batches] batches))"

definition resume_toast :: "string \<Rightarrow> bool \<Rightarrow> string \<Rightarrow> string" where
  "resume_toast device_name fork title =
     (let device_name = (let name = trim device_name in if name = [] then ''A device'' else clip name MAX_TOAST_DEVICE_CHARS);
          title = (let title = trim title in if title = [] then ''Untitled'' else clip title MAX_TOAST_TITLE_CHARS)
      in device_name @ '' '' @ (if fork then ''forked'' else ''resumed'') @ '' '' @ string_of_chars [0x201C] @ title @
         string_of_chars [0x201D])"

fun opened_a_tab :: "control list \<Rightarrow> bool" where
  "opened_a_tab controls =
     list_ex (\<lambda>c. case c of SessionResumed _ open_agent_id \<Rightarrow> open_agent_id = None | _ \<Rightarrow> False) controls"

definition may_read_from_disk :: "u64 \<Rightarrow> nat option \<Rightarrow> nat \<Rightarrow> bool" where
  "may_read_from_disk generation last_landed_at now \<longleftrightarrow>
     generation = 0 \<or>
     (case last_landed_at of None \<Rightarrow> True | Some landed \<Rightarrow> MIN_FRESH_READ_INTERVAL \<le> now - landed)"

text \<open>A remote host with a window open, and what its store holds when it is asked: the number of sweeps, whether
  the last one failed, and the sessions.\<close>

record remote_source =
  so_token :: host_token
  so_label :: string
  so_store :: nat
  so_generation :: u64
  so_failed :: bool
  so_sessions :: "session_summary list"

text \<open>Answers when each store was last asked, the stores asked to read again, and the sessions and notices.\<close>

definition remote_snapshots ::
  "remote_source list \<Rightarrow> bool \<Rightarrow> nat \<Rightarrow> (nat \<times> nat) list \<Rightarrow>
   (nat \<times> nat) list \<times> nat list \<times> host_sessions list \<times> unavailable_host list" where
  "remote_snapshots sources refresh now asked_at =
     foldl (\<lambda>(asked_at, refreshed, indexes, notices) source.
       let asked = ((refresh \<or> so_generation source = 0) \<and>
             may_read_from_disk (so_generation source) (map_of asked_at (so_store source)) now)
       in (if asked then AList.update (so_store source) now asked_at else asked_at,
           if asked then refreshed @ [so_store source] else refreshed,
           indexes @ [\<lparr>hs_host = Some (so_token source), hs_sessions = so_sessions source\<rparr>],
           notices @ (case host_notice (so_label source) (so_generation source) (so_failed source) of
                        None \<Rightarrow> [] | Some n \<Rightarrow> [n])))
       (filter (\<lambda>(store, _). store \<in> so_store ` set sources) asked_at, [], [], []) sources"

text \<open>The answer to a list, once this machine's index has been read.\<close>

definition history_list ::
  "prims \<Rightarrow> u32 \<Rightarrow> session_cursor option \<Rightarrow> nat \<Rightarrow> session_summary list \<Rightarrow> root_scope list \<Rightarrow> host_sessions list \<Rightarrow>
   unavailable_host list \<Rightarrow> (string \<Rightarrow> string option) \<Rightarrow> control list" where
  "history_list P request_id before limit local_sessions roots remote notices running_agent =
     (let hosts = \<lparr>hs_host = None, hs_sessions = local_sessions\<rparr> # remote;
          (entries, next_cursor) = page_across hosts roots before limit (\<lambda>_. None);
          entries = map (\<lambda>e. e\<lparr>se_open_agent_id := running_agent (se_id e)\<rparr>) entries;
          notices = (if before = None then notices else [])
      in session_replies P request_id entries next_cursor notices)"

section \<open>Resuming\<close>

definition session_not_found :: browse_error where
  "session_not_found = \<lparr>be_code = ''not_found'', be_message = ''there is no such session''\<rparr>"

definition UNSUPPORTED :: string where "UNSUPPORTED = ''unsupported''"

datatype resume_refusal = ResumeUnsupported | ResumeCwdGone

text \<open>What the running app answers on the way: this machine's index or the failure to read it, the index of a
  host with a window open, the tab a session runs in, whether the folder's host refuses (nothing when its
  workspace or host is gone), and whether the window took the tab.\<close>

record resume_app =
  ra_local_index :: "browse_error + session_summary list"
  ra_remote_index :: "host_token \<Rightarrow> session_summary list option"
  ra_running_agent :: "string \<Rightarrow> string option"
  ra_refusal :: "root_scope \<Rightarrow> session_summary \<Rightarrow> fork \<Rightarrow> (string + resume_refusal option) option"
  ra_opens :: "root_scope \<Rightarrow> bool"

definition find_session :: "resume_app \<Rightarrow> host_token option \<Rightarrow> string \<Rightarrow> browse_error + session_summary" where
  "find_session app host raw_id =
     bind_res
       (case host of
          None \<Rightarrow> bind_res (ra_local_index app) (\<lambda>sessions. Inr (find (\<lambda>s. ss_id s = raw_id) sessions))
        | Some token \<Rightarrow> Inr (Option.bind (ra_remote_index app token) (find (\<lambda>s. ss_id s = raw_id))))
       (ok_or session_not_found)"

text \<open>The answer, and what the workspace was asked to resume and where. Whether that opens a new tab is the
  workspace's: asked twice for a session whose tab is still starting, it opens no second one.\<close>

definition history_resume ::
  "resume_app \<Rightarrow> root_scope list \<Rightarrow> u32 \<Rightarrow> string \<Rightarrow> bool \<Rightarrow>
   (browse_error + control list) \<times> (session_summary \<times> root_scope \<times> fork) option" where
  "history_resume app roots request_id session_id fork =
     (let kind = (if fork then NewFork else Continue) in
      case bind_res (ok_or session_not_found (parse_wire_id session_id)) (\<lambda>(host, raw_id).
           bind_res (find_session app host raw_id) (\<lambda>s.
           bind_res (ok_or session_not_found
             (case deepest_root roots host (ss_cwd s) of
                Some r \<Rightarrow> if root_hides r (ss_cwd s) then None else Some r
              | None \<Rightarrow> None)) (\<lambda>target. Inr (s, target)))) of
        Inl e \<Rightarrow> (Inl e, None)
      | Inr (s, target) \<Rightarrow>
          (case (if fork then None else ra_running_agent app session_id) of
             Some open_agent_id \<Rightarrow> (Inr [SessionResumed request_id (Some open_agent_id)], None)
           | None \<Rightarrow>
               (case ra_refusal app target s kind of
                  None \<Rightarrow> (Inl session_not_found, None)
                | Some (Inr (Some ResumeUnsupported)) \<Rightarrow>
                    (Inl \<lparr>be_code = UNSUPPORTED, be_message = ''this agent cannot do that with a session''\<rparr>, None)
                | Some (Inr (Some ResumeCwdGone)) \<Rightarrow> (Inl session_not_found, None)
                | Some (Inl _) \<Rightarrow> (Inl session_not_found, None)
                | Some (Inr None) \<Rightarrow>
                    if ra_opens app target then (Inr [SessionResumed request_id None], Some (s, target, kind))
                    else (Inl session_not_found, None))))"

section \<open>Ids are read back\<close>

lemma plausible_chars:
  assumes "is_plausible_session_id s" "c \<in> set s"
  shows "is_ascii_alphanumeric c \<or> c = CHR ''.'' \<or> c = CHR ''_'' \<or> c = CHR ''-''"
  using assms by (auto simp: is_plausible_session_id_def list_all_iff)

lemma colon_not_plausible: "is_plausible_session_id s \<Longrightarrow> CHR '':'' \<notin> set s"
  using plausible_chars [of s "CHR '':''"]
  by (auto simp: is_ascii_alphanumeric_def is_ascii_alphabetic_def is_ascii_digit_def Let_def)

lemma token_no_colon: "token_parse t = Some t' \<Longrightarrow> t' = t \<and> CHR '':'' \<notin> set t"
  by (auto simp: token_parse_def list_all_iff is_ascii_digit_def Let_def split: if_splits)

lemma wire_id_round_trip:
  assumes "is_plausible_session_id s" "\<And>t. host = Some t \<Longrightarrow> token_parse t = Some t"
  shows "parse_wire_id (wire_id host s) = Some (host, s)"
proof (cases host)
  case None
  then show ?thesis using assms(1) colon_not_plausible by (simp add: parse_wire_id_def wire_id_def)
next
  case (Some t)
  with assms(2) have t: "token_parse t = Some t" "CHR '':'' \<notin> set t" using token_no_colon by auto
  then have "takeWhile (\<lambda>c. c \<noteq> CHR '':'') (t @ CHR '':'' # s) = t" "dropWhile (\<lambda>c. c \<noteq> CHR '':'') (t @ CHR '':'' # s) = CHR '':'' # s"
    by (auto simp: takeWhile_append dropWhile_append3)
  with Some t assms(1) show ?thesis by (simp add: parse_wire_id_def wire_id_def)
qed

lemma token_of_parses: "sha256_ok P \<Longrightarrow> token_parse (token_of P key) = Some (token_of P key)"
proof -
  assume "sha256_ok P"
  then have "length (take 6 (sha256 P (as_bytes key))) = 6" by (simp add: sha256_ok_def)
  moreover have "length (to_hex bs) = 2 * length bs" for bs by (induction bs) (simp_all add: to_hex_def)
  moreover have "list_all (\<lambda>c. is_ascii_digit c \<or> c \<in> set ''abcdef'') (to_hex bs)" for bs
  proof -
    have "is_ascii_digit (hex_digit d) \<or> hex_digit d \<in> set ''abcdef''" if "d < 16" for d
    proof -
      have "hex_digit d = ''0123456789abcdef'' ! d" using hex_digit_table [OF that] by (simp add: hex_table_def)
      then have "hex_digit d \<in> set ''0123456789abcdef''" using that nth_mem [of d "''0123456789abcdef''"] by simp
      moreover have "\<forall>c \<in> set ''0123456789abcdef''. is_ascii_digit c \<or> c \<in> set ''abcdef''" by (simp add: is_ascii_digit_def)
      ultimately show ?thesis by blast
    qed
    moreover have "unat (b :: u8) div 16 < 16" for b using u8_div_16 by blast
    ultimately show ?thesis by (auto simp: to_hex_def list_all_iff)
  qed
  ultimately show ?thesis by (simp add: token_parse_def token_of_def HOST_TOKEN_LEN_def)
qed

section \<open>Paging\<close>

definition all_sessions :: "host_sessions list \<Rightarrow> (host_token option \<times> session_summary) list" where
  "all_sessions hosts = concat (map (\<lambda>h. map (Pair (hs_host h)) (hs_sessions h)) hosts)"

lemma listed_of_Some:
  "listed_of roots host s = Some l \<Longrightarrow> is_plausible_session_id (ss_id s) \<and> ls_id l = wire_id host (ss_id s) \<and> ls_session l = s"
  by (auto simp: listed_of_def split: if_splits option.splits)

lemma listed_sessions_alt:
  "listed_sessions hosts roots = sort_key listed_key (List.map_filter (\<lambda>(host, s). listed_of roots host s) (all_sessions hosts))"
  by (simp add: listed_sessions_def all_sessions_def)

lemma dropWhile_weaker: "(\<And>x. P x \<Longrightarrow> Q x) \<Longrightarrow> dropWhile Q (dropWhile P xs) = dropWhile Q xs"
  by (induction xs) auto

lemma dropWhile_key:
  fixes key :: "'a \<Rightarrow> 'k::linorder"
  assumes "sorted (map key xs)"
  shows "\<forall>x \<in> set (dropWhile (\<lambda>x. key x \<le> k) xs). k < key x"
  using assms by (induction xs) (auto simp: not_le)

lemma sorted_last:
  fixes key :: "'a \<Rightarrow> 'k::linorder"
  shows "sorted (map key xs) \<Longrightarrow> x \<in> set xs \<Longrightarrow> key x \<le> key (last xs)"
  by (induction xs) auto

text \<open>Going on after the last key of a page of a sorted list: nothing comes twice, every key comes, and if no
  key is there twice, nothing is left out.\<close>

lemma after_page:
  fixes key :: "'a \<Rightarrow> 'k::linorder"
  assumes "sorted (map key xs)" "0 < limit" "limit < length xs"
    and after: "after = dropWhile (\<lambda>x. key x \<le> key (last (take limit xs))) xs"
  shows "subseq after (drop limit xs)" "key ` set (take limit xs) \<union> key ` set after = key ` set xs"
    "distinct (map key xs) \<Longrightarrow> after = drop limit xs"
proof -
  let ?k = "key (last (take limit xs))" and ?Q = "\<lambda>x. key x \<le> key (last (take limit xs))"
  have ne: "take limit xs \<noteq> []" using assms(2,3) by auto
  have cut: "sorted (map key (take limit xs @ drop limit xs))" using assms(1) by simp
  have "sorted (map key (take limit xs))" using cut unfolding map_append sorted_append by blast
  then have low: "?Q x" if "x \<in> set (take limit xs)" for x using that by (rule sorted_last)
  have high: "?k \<le> key x" if "x \<in> set (drop limit xs)" for x
    using cut ne that unfolding map_append sorted_append by (metis image_eqI last_in_set list.set_map)
  have eq: "after = dropWhile ?Q (drop limit xs)"
    using dropWhile_append2 [of "take limit xs" ?Q "drop limit xs"] low unfolding after by simp
  then show "subseq after (drop limit xs)" by (simp add: suffix_dropWhile suffix_imp_subseq)
  have skipped: "key ` set (drop limit xs) \<subseteq> key ` set (take limit xs) \<union> key ` set after"
  proof
    fix y assume "y \<in> key ` set (drop limit xs)"
    then obtain x where x: "x \<in> set (drop limit xs)" "y = key x" by blast
    then have "x \<in> set (takeWhile ?Q (drop limit xs)) \<or> x \<in> set after"
      unfolding eq using takeWhile_dropWhile_id [of ?Q "drop limit xs"] by (metis UnE set_append)
    then show "y \<in> key ` set (take limit xs) \<union> key ` set after"
    proof
      assume "x \<in> set (takeWhile ?Q (drop limit xs))"
      then have "y = ?k" using set_takeWhileD [of x ?Q] high [OF x(1)] x(2) by (metis order_antisym)
      then show ?thesis using last_in_set [OF ne] by simp
    next
      assume "x \<in> set after"
      then show ?thesis using x(2) by simp
    qed
  qed
  have whole: "key ` set xs = key ` set (take limit xs) \<union> key ` set (drop limit xs)"
    by (metis append_take_drop_id image_Un set_append)
  have "key ` set after \<subseteq> key ` set (drop limit xs)" unfolding eq by (intro image_mono subsetI) (rule set_dropWhileD)
  with skipped show "key ` set (take limit xs) \<union> key ` set after = key ` set xs" unfolding whole by (intro equalityI Un_least) auto
  show "after = drop limit xs" if "distinct (map key xs)"
  proof (cases "drop limit xs")
    case Nil
    then show ?thesis using assms(3) by simp
  next
    case (Cons y ys)
    have "distinct (map key (take limit xs @ drop limit xs))" using that by simp
    then have "key ` set (take limit xs) \<inter> key ` set (drop limit xs) = {}" by (simp only: map_append distinct_append list.set_map)
    then have "key y \<noteq> ?k" using Cons ne last_in_set by (metis disjoint_iff image_eqI list.set_intros(1))
    with high [of y] Cons show ?thesis unfolding eq by simp
  qed
qed

text \<open>A device following the cursors, for at most so many pages.\<close>

fun walk ::
  "nat \<Rightarrow> host_sessions list \<Rightarrow> root_scope list \<Rightarrow> session_cursor option \<Rightarrow> nat \<Rightarrow> (string \<Rightarrow> string option) \<Rightarrow>
   session_entry list option" where
  "walk 0 hosts roots before limit open_agent = None"
| "walk (Suc n) hosts roots before limit open_agent =
     (case page_across hosts roots before limit open_agent of
        (es, None) \<Rightarrow> Some es
      | (es, Some cursor) \<Rightarrow> map_option ((@) es) (walk n hosts roots (Some cursor) limit open_agent))"

definition pages_left :: "host_sessions list \<Rightarrow> root_scope list \<Rightarrow> session_cursor option \<Rightarrow> listed_session list" where
  "pages_left hosts roots before =
     (case before of
        None \<Rightarrow> listed_sessions hosts roots
      | Some cursor \<Rightarrow> dropWhile (is_at_or_before cursor) (listed_sessions hosts roots))"

lemma cursor_key: "is_at_or_before (listed_cursor l) = (\<lambda>x. listed_key x \<le> listed_key l)"
  by (auto simp: is_at_or_before_def listed_cursor_def listed_key_def fun_eq_iff)

lemma pages_left_sorted: "sorted (map listed_key (pages_left hosts roots before))"
proof -
  have "sorted (map listed_key (listed_sessions hosts roots))" by (simp add: listed_sessions_def)
  then show ?thesis unfolding pages_left_def sorted_map by (auto intro: sorted_wrt_dropWhile split: option.splits)
qed

lemma pages_left_next:
  assumes "l \<in> set (pages_left hosts roots before)"
  shows "pages_left hosts roots (Some (listed_cursor l)) = dropWhile (\<lambda>x. listed_key x \<le> listed_key l) (pages_left hosts roots before)"
proof (cases before)
  case (Some c)
  let ?c = "(- uint (sc_updated_at c), sc_id c)"
  have c: "is_at_or_before c = (\<lambda>x. listed_key x \<le> ?c)" by (simp add: is_at_or_before_def fun_eq_iff)
  have "sorted (map listed_key (listed_sessions hosts roots))" by (simp add: listed_sessions_def)
  from dropWhile_key [OF this, of ?c] assms Some have "?c < listed_key l"
    by (simp add: pages_left_def c)
  then have "is_at_or_before c x \<Longrightarrow> listed_key x \<le> listed_key l" for x unfolding is_at_or_before_def by (metis order_trans less_imp_le)
  then show ?thesis using Some by (simp add: pages_left_def cursor_key dropWhile_weaker)
qed (simp add: pages_left_def cursor_key)

lemma walk_from:
  assumes "0 < limit" "length (pages_left hosts roots before) < n"
  shows "\<exists>shown. walk n hosts roots before limit open_agent = Some (map (session_entry_of open_agent) shown) \<and>
    subseq shown (pages_left hosts roots before) \<and>
    listed_key ` set shown = listed_key ` set (pages_left hosts roots before) \<and>
    (distinct (map listed_key (pages_left hosts roots before)) \<longrightarrow> shown = pages_left hosts roots before)"
  using assms(2)
proof (induction n arbitrary: before)
  case (Suc n)
  let ?rest = "pages_left hosts roots before" and ?entries = "map (session_entry_of open_agent)"
  have page: "page_across hosts roots before limit open_agent =
      (?entries (take limit ?rest), if limit < length ?rest \<and> take limit ?rest \<noteq> [] then Some (listed_cursor (last (take limit ?rest))) else None)"
    by (simp add: page_across_def Let_def pages_left_def split: option.splits)
  show ?case
  proof (cases "limit < length ?rest")
    case False
    with page show ?thesis by (intro exI [of _ ?rest]) simp
  next
    case True
    let ?cursor = "Some (listed_cursor (last (take limit ?rest)))"
    have ne: "take limit ?rest \<noteq> []" using True assms(1) by auto
    then have "last (take limit ?rest) \<in> set ?rest" by (meson last_in_set in_set_takeD)
    note cut = after_page [OF pages_left_sorted assms(1) True pages_left_next [OF this]]
    have "length (pages_left hosts roots ?cursor) \<le> length ?rest - limit"
      using list_emb_length [OF cut(1)] by simp
    then have "length (pages_left hosts roots ?cursor) < n" using Suc.prems assms(1) True by linarith
    from Suc.IH [OF this] obtain shown where sh: "walk n hosts roots ?cursor limit open_agent = Some (?entries shown)"
      "subseq shown (pages_left hosts roots ?cursor)" "listed_key ` set shown = listed_key ` set (pages_left hosts roots ?cursor)"
      "distinct (map listed_key (pages_left hosts roots ?cursor)) \<longrightarrow> shown = pages_left hosts roots ?cursor" by blast
    have "subseq (take limit ?rest @ shown) (take limit ?rest @ drop limit ?rest)"
      using subseq_order.order_trans [OF sh(2) cut(1)] by (simp only: subseq_append')
    moreover have "walk (Suc n) hosts roots before limit open_agent = Some (?entries (take limit ?rest @ shown))"
      using page True ne sh(1) by simp
    moreover have "listed_key ` set (take limit ?rest @ shown) = listed_key ` set ?rest"
      using cut(2) sh(3) by (simp add: image_Un)
    moreover have "take limit ?rest @ shown = ?rest" if d: "distinct (map listed_key ?rest)"
    proof -
      have "distinct (map listed_key (drop limit ?rest))" using d by (simp add: drop_map [symmetric] distinct_drop)
      with sh(4) cut(3) [OF d] show ?thesis by simp
    qed
    ultimately show ?thesis by (intro exI [of _ "take limit ?rest @ shown"]) simp
  qed
qed simp

text \<open>C26. While the sessions stay as they are, a device that follows the cursors from the first page, whatever
  the size of a page, is done after finitely many. What it has been shown is, in order and without a
  repeat, taken from the sessions in view, newest first: those of this machine and of every remote
  host that ran in an open folder that does not hide them, and no other. There is no moment and id
  among them of which it was shown nothing; and where no two sessions have both their id and their
  millisecond in common it was shown every session in view, each exactly once.\<close>

theorem every_session_shown_once:
  assumes "0 < limit"
  shows "\<exists>shown. walk (Suc (length (listed_sessions hosts roots))) hosts roots None limit open_agent =
        Some (map (session_entry_of open_agent) shown) \<and>
      subseq shown (listed_sessions hosts roots) \<and>
      listed_key ` set shown = listed_key ` set (listed_sessions hosts roots) \<and>
      (distinct (map listed_key (listed_sessions hosts roots)) \<longrightarrow> shown = listed_sessions hosts roots) \<and>
      sorted (map listed_key (listed_sessions hosts roots)) \<and>
      mset (listed_sessions hosts roots) =
        mset (List.map_filter (\<lambda>(host, s). listed_of roots host s) (all_sessions hosts))"
proof -
  have left: "pages_left hosts roots None = listed_sessions hosts roots" by (simp add: pages_left_def)
  have "sorted (map listed_key (listed_sessions hosts roots))"
    "mset (listed_sessions hosts roots) = mset (List.map_filter (\<lambda>(host, s). listed_of roots host s) (all_sessions hosts))"
    by (simp_all add: listed_sessions_alt)
  moreover note walk_from [OF assms, of hosts roots None "Suc (length (listed_sessions hosts roots))" open_agent, unfolded left, OF lessI]
  ultimately show ?thesis by blast
qed

section \<open>What is in view\<close>

definition in_scope :: "root_scope list \<Rightarrow> host_token option \<Rightarrow> session_summary \<Rightarrow> root_scope \<Rightarrow> bool" where
  "in_scope roots host s r \<longleftrightarrow>
     r \<in> set roots \<and> root_token r = host \<and> within (components (rs_path r)) (components (ss_cwd s)) \<and>
     ParentDir \<notin> set (components (ss_cwd s)) \<and> \<not> root_hides r (ss_cwd s) \<and> is_plausible_session_id (ss_id s) \<and>
     (\<forall>r' \<in> set roots. root_token r' = host \<longrightarrow> within (components (rs_path r')) (components (ss_cwd s)) \<longrightarrow>
        length (components (rs_path r')) \<le> length (components (rs_path r)))"

lemma last_max_Some: "last_max key xs = Some x \<Longrightarrow> x \<in> set xs \<and> (\<forall>y \<in> set xs. key y \<le> key x)"
proof (induction xs arbitrary: x)
  case (Cons a xs)
  then show ?case
  proof (cases "last_max key xs")
    case None
    then have "xs = []" by (cases xs) (auto split: option.splits if_splits)
    with Cons.prems show ?thesis by simp
  next
    case (Some y)
    with Cons show ?thesis by (auto split: if_splits intro: order_trans less_imp_le)
  qed
qed simp

lemma listed_in_scope: "listed_of roots host s = Some l \<Longrightarrow> in_scope roots host s (ls_root l)"
proof -
  assume l: "listed_of roots host s = Some l"
  then have d: "deepest_root roots host (ss_cwd s) = Some (ls_root l)" "\<not> root_hides (ls_root l) (ss_cwd s)"
      "is_plausible_session_id (ss_id s)"
    by (auto simp: listed_of_def split: if_splits option.splits)
  then have m: "last_max root_depth (filter (\<lambda>r. root_token r = host \<and> within (components (rs_path r)) (components (ss_cwd s))) roots) =
      Some (ls_root l)" and p: "ParentDir \<notin> set (components (ss_cwd s))"
    by (auto simp: deepest_root_def split: if_splits)
  note last = last_max_Some [OF m]
  have "length (components (rs_path r')) \<le> length (components (rs_path (ls_root l)))"
    if "r' \<in> set roots" "root_token r' = host" "within (components (rs_path r')) (components (ss_cwd s))" for r'
  proof -
    have "root_depth r' \<le> root_depth (ls_root l)" using last that by simp
    then show ?thesis by (auto simp: root_depth_def)
  qed
  then show ?thesis using last d p unfolding in_scope_def by simp
qed

lemma parse_wire_id_cases:
  assumes "parse_wire_id w = Some (host, s)"
  shows "wire_id host s = w \<and> is_plausible_session_id s \<and> (\<forall>t. host = Some t \<longrightarrow> token_parse t = Some t)"
proof (cases "CHR '':'' \<in> set w")
  case True
  then obtain a b where w: "w = a @ CHR '':'' # b" "CHR '':'' \<notin> set a" by (meson split_list_first)
  then have "takeWhile (\<lambda>c. c \<noteq> CHR '':'') w = a" "dropWhile (\<lambda>c. c \<noteq> CHR '':'') w = CHR '':'' # b"
    by (auto simp: takeWhile_append dropWhile_append3)
  then have e: "parse_wire_id w = (case token_parse a of None \<Rightarrow> None
      | Some t \<Rightarrow> if is_plausible_session_id b then Some (Some t, b) else None)"
    unfolding parse_wire_id_def using True by (simp split: option.split)
  then obtain t where t: "token_parse a = Some t" "is_plausible_session_id b" "host = Some t" "s = b"
    using assms by (simp split: option.splits if_splits)
  then show ?thesis using token_no_colon [OF t(1)] w(1) by (simp add: wire_id_def)
next
  case False
  then have "parse_wire_id w = (if is_plausible_session_id w then Some (None, w) else None)"
    unfolding parse_wire_id_def by simp
  with assms show ?thesis by (simp add: wire_id_def split: if_splits)
qed

lemmas parse_wire_id_wire = parse_wire_id_cases [THEN conjunct1] parse_wire_id_cases [THEN conjunct2, THEN conjunct1]

lemma find_session_id: "find_session app host raw = Inr s \<Longrightarrow> ss_id s = raw"
  by (cases host) (auto simp: find_session_def bind_res_def ok_or_def find_Some_iff Option.bind_eq_Some_conv split: sum.splits option.splits)

lemma history_resume_listed:
  assumes "parse_wire_id session_id = Some (host, raw)" "find_session app host raw = Inr s"
  shows "history_resume app roots request_id session_id fork =
    (case listed_of roots host s of
       None \<Rightarrow> (Inl session_not_found, None)
     | Some l \<Rightarrow>
         (case (if fork then None else ra_running_agent app session_id) of
            Some a \<Rightarrow> (Inr [SessionResumed request_id (Some a)], None)
          | None \<Rightarrow>
              (case ra_refusal app (ls_root l) s (if fork then NewFork else Continue) of
                 Some (Inr None) \<Rightarrow>
                   if ra_opens app (ls_root l)
                   then (Inr [SessionResumed request_id None], Some (s, ls_root l, if fork then NewFork else Continue))
                   else (Inl session_not_found, None)
               | Some (Inr (Some ResumeUnsupported)) \<Rightarrow>
                   (Inl \<lparr>be_code = UNSUPPORTED, be_message = ''this agent cannot do that with a session''\<rparr>, None)
               | _ \<Rightarrow> (Inl session_not_found, None))))"
proof -
  have t: "(case deepest_root roots host (ss_cwd s) of
      Some r \<Rightarrow> if root_hides r (ss_cwd s) then None else Some r | None \<Rightarrow> None) = map_option ls_root (listed_of roots host s)"
    using parse_wire_id_wire(2) [OF assms(1)] find_session_id [OF assms(2)]
    by (simp add: listed_of_def split: option.split)
  show ?thesis
  proof (cases "listed_of roots host s")
    case None
    then show ?thesis unfolding history_resume_def Let_def by (simp add: assms bind_res_def ok_or_def t)
  next
    case (Some l)
    have e: "bind_res (ok_or session_not_found (parse_wire_id session_id)) (\<lambda>(host, raw_id).
           bind_res (find_session app host raw_id) (\<lambda>s.
           bind_res (ok_or session_not_found
             (case deepest_root roots host (ss_cwd s) of
                Some r \<Rightarrow> if root_hides r (ss_cwd s) then None else Some r
              | None \<Rightarrow> None)) (\<lambda>target. Inr (s, target)))) = Inr (s, ls_root l)"
      using Some by (simp add: assms bind_res_def ok_or_def t)
    show ?thesis unfolding history_resume_def Let_def e Some
      by (cases "if fork then None else ra_running_agent app session_id";
          cases "ra_refusal app (ls_root l) s (if fork then NewFork else Continue)")
        (simp_all split: option.split sum.split resume_refusal.split)
  qed
qed

text \<open>C25. A device resumes exactly what it can be shown. A session it names is looked up by that id on the host
  the id names; unless the listing would show it under that very id it is not found, and otherwise it is
  asked to be resumed, if its host agrees, in the folder the listing names it under: the deepest open one on the
  same host that holds the directory it ran in, which is not one that climbs out or is hidden.\<close>

theorem resumes_what_is_listed:
  assumes "parse_wire_id session_id = Some (host, raw)" "find_session app host raw = Inr s"
    "history_resume app roots request_id session_id fork = (answer, opened)"
  shows "case listed_of roots host s of
      None \<Rightarrow> answer = Inl session_not_found \<and> opened = None
    | Some l \<Rightarrow> ls_id l = session_id \<and> in_scope roots host s (ls_root l) \<and>
        (opened \<noteq> None \<longrightarrow> opened = Some (s, ls_root l, if fork then NewFork else Continue)) \<and>
        (opened \<noteq> None \<longleftrightarrow> answer = Inr [SessionResumed request_id None]) \<and>
        (ra_refusal app (ls_root l) s (if fork then NewFork else Continue) = Some (Inr None) \<and> ra_opens app (ls_root l) \<and>
           (fork \<or> ra_running_agent app session_id = None) \<longrightarrow> opened \<noteq> None)"
proof (cases "listed_of roots host s")
  case None
  then show ?thesis using history_resume_listed [OF assms(1,2)] assms(3) by simp
next
  case (Some l)
  have "ls_id l = session_id"
    using listed_of_Some [OF Some] parse_wire_id_wire(1) [OF assms(1)] find_session_id [OF assms(2)] by simp
  moreover have "in_scope roots host s (ls_root l)" by (rule listed_in_scope [OF Some])
  moreover have "(opened \<noteq> None \<longrightarrow> opened = Some (s, ls_root l, if fork then NewFork else Continue)) \<and>
      (opened \<noteq> None \<longleftrightarrow> answer = Inr [SessionResumed request_id None]) \<and>
      (ra_refusal app (ls_root l) s (if fork then NewFork else Continue) = Some (Inr None) \<and> ra_opens app (ls_root l) \<and>
        (fork \<or> ra_running_agent app session_id = None) \<longrightarrow> opened \<noteq> None)"
    using assms(3) unfolding history_resume_listed [OF assms(1,2)] Some option.case
    by (cases "if fork then None else ra_running_agent app session_id";
        cases "ra_refusal app (ls_root l) s (if fork then NewFork else Continue)")
      (auto split: option.splits sum.splits resume_refusal.splits if_splits)
  ultimately show ?thesis unfolding Some option.case by blast
qed

section \<open>The properties at an instance\<close>

text \<open>A folder that excludes one of its own, with four sessions: in it, below it, in the excluded one, elsewhere.\<close>

definition demo_root :: root_scope where
  "demo_root = \<lparr>rs_worktree_id = 3, rs_path = ''/w'', rs_name = ''w'',
     rs_hidden = Some (demo_settings
       \<lparr>ws_file_scan_exclusions := \<lparr>pm_sources = [''x''], pm_glob = (\<lambda>p. p = ''x''), pm_path_style = Posix\<rparr>\<rparr>),
     rs_host = None, rs_path_style = Posix\<rparr>"

definition demo_session :: "string \<Rightarrow> string \<Rightarrow> int \<Rightarrow> session_summary" where
  "demo_session s cwd t = \<lparr>ss_id = s, ss_agent = Claude, ss_title = ''t'', ss_preview = [], ss_cwd = cwd,
     ss_branch = None, ss_updated_at = t\<rparr>"

definition demo_hosts :: "host_sessions list" where
  "demo_hosts = [\<lparr>hs_host = None, hs_sessions =
     [demo_session ''s1'' ''/w'' 1000000, demo_session ''s2'' ''/w/a'' 2000000, demo_session ''s3'' ''/w/x'' 3000000,
      demo_session ''s4'' ''/v'' 4000000]\<rparr>]"

lemma demo_plausible:
  "is_plausible_session_id ''s1''" "is_plausible_session_id ''s2''" "is_plausible_session_id ''s3''"
  by (simp_all add: is_plausible_session_id_def MAX_SESSION_ID_BYTES_def is_ascii_alphanumeric_def is_ascii_alphabetic_def is_ascii_digit_def Let_def)

lemma demo_roots:
  "deepest_root [demo_root] None ''/w'' = Some demo_root" "deepest_root [demo_root] None ''/w/a'' = Some demo_root"
  "deepest_root [demo_root] None ''/w/x'' = Some demo_root" "deepest_root [demo_root] None ''/v'' = None"
proof -
  have "components ''/w'' = [RootDir, Normal ''w'']" "components ''/w/a'' = [RootDir, Normal ''w'', Normal ''a'']"
    "components ''/w/x'' = [RootDir, Normal ''w'', Normal ''x'']" "components ''/v'' = [RootDir, Normal ''v'']"
    by code_simp+
  then show "deepest_root [demo_root] None ''/w'' = Some demo_root" "deepest_root [demo_root] None ''/w/a'' = Some demo_root"
    "deepest_root [demo_root] None ''/w/x'' = Some demo_root" "deepest_root [demo_root] None ''/v'' = None"
    by (simp_all add: deepest_root_def demo_root_def root_token_def within_def)
qed

lemma demo_hides:
  "\<not> root_hides demo_root ''/w''" "\<not> root_hides demo_root ''/w/a''" "root_hides demo_root ''/w/x''"
  by code_simp+

lemma demo_listed:
  "map ls_id (listed_sessions demo_hosts [demo_root]) = [''s2'', ''s1'']"
  by (simp add: listed_sessions_def demo_hosts_def demo_session_def List.map_filter_simps listed_of_def demo_plausible demo_roots
      demo_hides wire_id_def sort_key_def listed_key_def unix_millis_def)

theorem every_session_shown_once_witness:
  "(0 :: nat) < 1 \<and> distinct (map listed_key (listed_sessions demo_hosts [demo_root])) \<and>
   map_option (map se_id) (walk 3 demo_hosts [demo_root] None 1 (\<lambda>_. None)) = Some [''s2'', ''s1'']"
proof -
  have "length (listed_sessions demo_hosts [demo_root]) = 2" using arg_cong [OF demo_listed, of length] by simp
  moreover have "se_id \<circ> session_entry_of f = ls_id" for f by (simp add: fun_eq_iff session_entry_of_def Let_def)
  moreover have "distinct (map ls_id (listed_sessions demo_hosts [demo_root]))" unfolding demo_listed by simp
  then have "distinct (map listed_key (listed_sessions demo_hosts [demo_root]))"
    by (auto simp: distinct_map inj_on_def listed_key_def)
  ultimately show ?thesis
    using every_session_shown_once [OF zero_less_one, of demo_hosts "[demo_root]" "\<lambda>_. None"] demo_listed
    by (auto simp: numeral_3_eq_3 numeral_2_eq_2 simp del: walk.simps)
qed

text \<open>Two sessions of one id and one millisecond on either side of a page's end: the cursor passes both, and
  the second is never shown.\<close>

definition twin_hosts :: "host_sessions list" where
  "twin_hosts = [\<lparr>hs_host = None, hs_sessions =
     [demo_session ''s1'' ''/w'' 1000000, demo_session ''s1'' ''/w/a'' 1000000]\<rparr>]"

lemma twin_is_skipped:
  "length (listed_sessions twin_hosts [demo_root]) = 2"
  "map_option length (walk 3 twin_hosts [demo_root] None 1 (\<lambda>_. None)) = Some 1"
proof -
  have l: "listed_sessions twin_hosts [demo_root] =
      [\<lparr>ls_session = demo_session ''s1'' ''/w'' 1000000, ls_root = demo_root, ls_updated_at = 1, ls_id = ''s1''\<rparr>,
       \<lparr>ls_session = demo_session ''s1'' ''/w/a'' 1000000, ls_root = demo_root, ls_updated_at = 1, ls_id = ''s1''\<rparr>]"
    by (simp add: listed_sessions_def twin_hosts_def demo_session_def List.map_filter_simps listed_of_def demo_plausible demo_roots
        demo_hides wire_id_def sort_key_def listed_key_def unix_millis_def)
  then show "length (listed_sessions twin_hosts [demo_root]) = 2" by simp
  show "map_option length (walk 3 twin_hosts [demo_root] None 1 (\<lambda>_. None)) = Some 1"
    by (simp add: numeral_3_eq_3 page_across_def l is_at_or_before_def listed_cursor_def listed_key_def)
qed

definition demo_app :: resume_app where
  "demo_app = \<lparr>ra_local_index = Inr (hs_sessions (hd demo_hosts)), ra_remote_index = (\<lambda>_. None), ra_running_agent = (\<lambda>_. None),
     ra_refusal = (\<lambda>_ _ _. Some (Inr None)), ra_opens = (\<lambda>_. True)\<rparr>"

lemma demo_found:
  "parse_wire_id ''s2'' = Some (None, ''s2'')" "find_session demo_app None ''s2'' = Inr (demo_session ''s2'' ''/w/a'' 2000000)"
  by (simp_all add: parse_wire_id_def demo_plausible find_session_def demo_app_def demo_hosts_def demo_session_def bind_res_def ok_or_def)

theorem resumes_what_is_listed_witness:
  "parse_wire_id ''s2'' = Some (None, ''s2'') \<and> find_session demo_app None ''s2'' = Inr (demo_session ''s2'' ''/w/a'' 2000000) \<and>
   snd (history_resume demo_app [demo_root] 7 ''s2'' False) = Some (demo_session ''s2'' ''/w/a'' 2000000, demo_root, Continue)"
proof -
  obtain answer opened where r: "history_resume demo_app [demo_root] 7 ''s2'' False = (answer, opened)" by fastforce
  have l: "\<exists>l. listed_of [demo_root] None (demo_session ''s2'' ''/w/a'' 2000000) = Some l \<and> ls_root l = demo_root"
    by (simp add: listed_of_def demo_session_def demo_plausible demo_roots demo_hides)
  show ?thesis
    using resumes_what_is_listed [OF demo_found r] l demo_found r by (auto simp: demo_app_def)
qed

end
