(* ===== verification/Spec2Isabelle.thy ===== *)
theory Spec2Isabelle
  imports Sync_Session Env_Machine Team_Safety Pairing_Flow Relay_Channel Relay_Trust Remote_History
begin

text \<open>
  \<^bold>\<open>Zode: end-to-end encrypted sync, environment files, team sharing and remote control.\<close>

  Zode is a code editor (a fork of Zed, whose editor, workspace and UI framework are inherited) with
  services of its own around an account: settings, keymaps and the extension list are synced between
  a user's machines, \<^verbatim>\<open>.env\<close> files are kept in an encrypted vault, both files and database
  connections are shared inside a team, and one device controls another through a relay. All of them
  work against a server that is not trusted: it stores and passes on what it cannot open, and every
  key is made and opened on the user's machine. That family of crates is the program's own core, and
  what this development models: \<^verbatim>\<open>crates/zode_sync\<close>, \<^verbatim>\<open>crates/zode_env_sync\<close>,
  \<^verbatim>\<open>crates/zode_team_vault\<close>, \<^verbatim>\<open>crates/remote_relay_protocol\<close>, of \<^verbatim>\<open>crates/remote_relay_client\<close> and
  \<^verbatim>\<open>crates/remote_control\<close> what decides whom to trust, how to talk to them and what they may see, with
  \<^verbatim>\<open>crates/zode_account/src/plan.rs\<close> and the pieces of \<^verbatim>\<open>util\<close> and \<^verbatim>\<open>db\<close> they call.

  \<^bold>\<open>How the parts interact.\<close> The recovery key (\<^verbatim>\<open>dek.rs\<close>) seals the user's own slots on the sync
  service; one slot holds the environment key, which seals the vault of \<^verbatim>\<open>.env\<close> files, and one the
  private sharing key, to which other members seal the team key, which seals the team's vault. Every
  sealed thing is an \<^verbatim>\<open>Envelope\<close> bound to its slot by additional data; everything that can be replayed
  carries a sequence number inside the ciphertext. Every write names what it replaces, and a lost
  race is a value, not a failure. The sessions are what the windows talk to; they own the state and
  call the decision functions, which call one HTTP client each. For remote control, two devices pair
  once: their people compare six digits, and the host pins the other's public key. From then on each
  session starts with a Noise handshake made of the pinned keys, and control messages and streams
  travel inside it as sealed frames, which the relay forwards by their session number. Device keys and
  the team's sharing keys are the same X25519 pairs (\<^verbatim>\<open>Relay_Keys\<close>).

  \<^bold>\<open>The shared base.\<close>
  \<^item> \<^verbatim>\<open>Prelude\<close>: bytes, machine words, results as sums, computations over a state that may fail
    (\<open>io\<close>), frames and invariants of such computations (\<open>frame\<close>, \<open>keeps\<close>, and the introduction rules
    collected in \<open>frame_intros\<close> that follow the shape of a program), ordered dictionaries, and the
    locale \<open>codec\<close> that identifiers, blocks and fingerprints instantiate.
  \<^item> \<^verbatim>\<open>Rust_Std\<close>: what the code uses of Rust's standard library.
  \<^item> \<^verbatim>\<open>World\<close>: what the code reaches outside itself. The third-party crates (\<^verbatim>\<open>ring\<close>, \<^verbatim>\<open>sha2\<close>,
    \<^verbatim>\<open>base64\<close>, \<^verbatim>\<open>serde_json\<close>, \<^verbatim>\<open>url\<close>, \<^verbatim>\<open>snow\<close>) are a record \<open>prims\<close> of functions that definitions
    take as an argument, with their documented laws as named hypotheses (\<open>gcm_ok\<close>, \<open>json_ok\<close>,
    \<open>noise_ok\<close> and so on, \<open>json_compact\<close> of \<^verbatim>\<open>Remote_Browse\<close> for the length of a message; the
    stateful side of \<^verbatim>\<open>snow\<close> is the record \<open>snow\<close> of \<^verbatim>\<open>Relay_Noise\<close>, with \<open>transport_counts\<close>, \<open>transport_writes\<close>, \<open>transport_linked\<close> and \<open>snow_roles\<close>). The machine is a record \<open>world\<close>: files, keychain, key-value store, clock,
    randomness, and for each a schedule of failures that theorems quantify over; the network is a
    parameter of its type.
  \<^item> \<^verbatim>\<open>Reference\<close> and \<^verbatim>\<open>Total_Reference\<close>: two concrete choices of those functions on which witnesses
    run; every law is proved of them, so no hypothesis is vacuous.

  \<^bold>\<open>Sync (\<^verbatim>\<open>crates/zode_sync\<close>).\<close>
  \<^item> \<^verbatim>\<open>Dek\<close> (\<^verbatim>\<open>dek.rs\<close>, \<^verbatim>\<open>recovery_key.rs\<close>), \<^verbatim>\<open>Envelope\<close> (\<^verbatim>\<open>envelope.rs\<close>): a key written down reads
    back and nothing else is read; what is sealed opens, and only at its slot.
  \<^item> \<^verbatim>\<open>Plan\<close> (\<^verbatim>\<open>plan.rs\<close>), \<^verbatim>\<open>Client\<close> (\<^verbatim>\<open>client.rs\<close>): answers of the service, refusals, and links that
    stay on the web app's origin.
  \<^item> \<^verbatim>\<open>Artifact\<close> (\<^verbatim>\<open>artifact.rs\<close>, \<^verbatim>\<open>state.rs\<close>, \<^verbatim>\<open>diff.rs\<close>), \<^verbatim>\<open>Extension_List\<close> (\<^verbatim>\<open>extensions.rs\<close>),
    \<^verbatim>\<open>Sync\<close> (\<^verbatim>\<open>sync.rs\<close>): pull, push, apply and overwrite; a replaced file is in the backup, a pull
    writes nothing, a push replaces only what this machine has on record and an overwrite what was
    shown, and none of them removes.
  \<^item> \<^verbatim>\<open>Rotate\<close> (\<^verbatim>\<open>keystore.rs\<close>, \<^verbatim>\<open>rotate.rs\<close>): the keychain and changing the recovery key.
    \<^verbatim>\<open>Store_Server\<close> states what is relied on of the service as the locale \<open>document_store\<close> and
    interprets it on the stand-in service the repository tests with; \<^verbatim>\<open>Rotation_Safety\<close> proves in it
    that however a rotation ends every slot still opens under one of the two keys.
  \<^item> \<^verbatim>\<open>Sync_Session\<close> (\<^verbatim>\<open>session.rs\<close>): every operation of the sync window.

  \<^bold>\<open>Environment files (\<^verbatim>\<open>crates/zode_env_sync\<close>).\<close>
  \<^item> \<^verbatim>\<open>Env_Crypto\<close> (\<^verbatim>\<open>ids.rs\<close>, \<^verbatim>\<open>padding.rs\<close>, \<^verbatim>\<open>seal.rs\<close>, \<^verbatim>\<open>env_dek.rs\<close>, \<^verbatim>\<open>keystore.rs\<close>, \<^verbatim>\<open>wire.rs\<close>),
    \<^verbatim>\<open>Secret_File\<close> (\<^verbatim>\<open>secret_file.rs\<close> and the atomic write of \<^verbatim>\<open>util/src/fs.rs\<close>),
    \<^verbatim>\<open>Env_Catalogue\<close> (\<^verbatim>\<open>manifest.rs\<close>, \<^verbatim>\<open>bindings.rs\<close>, \<^verbatim>\<open>vault.rs\<close>): blocks of whole pages, secrets
    written whole or not at all, a catalogue whose paths stay unique.
  \<^item> \<^verbatim>\<open>Env_Sync\<close> (\<^verbatim>\<open>env_state.rs\<close>, \<^verbatim>\<open>env_sync.rs\<close>), with \<^verbatim>\<open>Env_Exchange\<close> and \<^verbatim>\<open>Env_Apply\<close> for what they
    promise together: a push refines a compare-and-set on an abstract cell, reaches the user's other
    machine, and a pull never goes back; what an accepted difference replaces stays in a backup as
    long as the clock is not set back.
  \<^item> \<^verbatim>\<open>Env_Vault\<close> and \<^verbatim>\<open>Env_Session\<close> (\<^verbatim>\<open>session.rs\<close>), \<^verbatim>\<open>Env_Machine\<close>: the session with its background
    tasks as a step relation, and invariants over every interleaving of them.

  \<^bold>\<open>Team sharing (\<^verbatim>\<open>crates/zode_team_vault\<close>).\<close>
  \<^item> \<^verbatim>\<open>Team_Keys\<close> (\<^verbatim>\<open>team_key.rs\<close>, \<^verbatim>\<open>sharing_key.rs\<close>, \<^verbatim>\<open>zode_team_vault.rs\<close>): the team key, its versions,
    and the envelope that carries it to one member.
  \<^item> \<^verbatim>\<open>Team_Entry\<close> (\<^verbatim>\<open>seal.rs\<close>, \<^verbatim>\<open>connection_entry.rs\<close>, \<^verbatim>\<open>manifest.rs\<close>), \<^verbatim>\<open>Team_Client\<close> (\<^verbatim>\<open>client.rs\<close>):
    an entry opens exactly as it was sealed, and the routes of the service.
  \<^item> \<^verbatim>\<open>Team_Trust\<close> (\<^verbatim>\<open>pins.rs\<close>, \<^verbatim>\<open>grant.rs\<close>), \<^verbatim>\<open>Team_Rotate\<close> (\<^verbatim>\<open>rotate.rs\<close>): keys are sealed only to
    fingerprints the user verified, opened only from sealers that are trusted, and the record of
    both survives being saved.
  \<^item> \<^verbatim>\<open>Team_Session\<close> (\<^verbatim>\<open>session.rs\<close>), \<^verbatim>\<open>Team_Safety\<close>: every operation of the team windows, the steps of
    a session as a relation, and the laws of the locale \<open>session_invariant\<close>, interpreted twice:
    the record never goes back, and, with operations one after the other, the keys held are those on
    record (\<^verbatim>\<open>late_load_below_record\<close> shows how an overlapping refresh escapes that). From the first, a pull
    never opens an older version than one before it, and nothing is written blindly or under an old key.

  \<^bold>\<open>Remote control (\<^verbatim>\<open>crates/remote_relay_protocol\<close>, \<^verbatim>\<open>remote_relay_client\<close>, \<^verbatim>\<open>remote_control\<close>).\<close>
  \<^item> \<^verbatim>\<open>Relay_Frame\<close> (\<^verbatim>\<open>frame.rs\<close>), \<^verbatim>\<open>Relay_Keys\<close> and \<^verbatim>\<open>Relay_Noise\<close> (\<^verbatim>\<open>noise_session.rs\<close>),
    \<^verbatim>\<open>Relay_Messages\<close> (\<^verbatim>\<open>messages.rs\<close>, \<^verbatim>\<open>relay_wire.rs\<close>): the two layers of frames as instances of \<open>codec\<close>,
    the handshake and the session after it, every message and its JSON form.
  \<^item> \<^verbatim>\<open>Relay_Channel\<close> (\<^verbatim>\<open>secure_session.rs\<close>): streams and control messages arrive as they were sent, a
    session ends at its message limit or at the first forgery, a responder says nothing before the
    other end has proved itself.
  \<^item> \<^verbatim>\<open>Relay_Pairing\<close> (\<^verbatim>\<open>pairing.rs\<close>), \<^verbatim>\<open>Pairing_Flow\<close> (\<^verbatim>\<open>pairing_flow.rs\<close>): one exchange, and the host's
    state machine around it as a step relation. Over every run: the hourly allowances (one locale
    \<open>allowance\<close>, interpreted for the questions, the answers and the answers to one device), the
    lockout, digits that were committed to before the host spoke, and screens that agree.
  \<^item> \<^verbatim>\<open>Relay_Trust\<close> (\<^verbatim>\<open>trust_store.rs\<close>): the pinned devices, which survive a restart.
  \<^item> \<^verbatim>\<open>Rel_Path\<close> (\<^verbatim>\<open>util/src/rel_path.rs\<close>, parts of \<^verbatim>\<open>util/src/paths.rs\<close> and \<^verbatim>\<open>worktree_settings.rs\<close>): the
    relative paths by which files are asked for and hidden; making one agrees with resolving its
    segments on a stack.
  \<^item> \<^verbatim>\<open>Remote_Browse\<close> (\<^verbatim>\<open>file_browse.rs\<close>, with the snapshot it reads from \<^verbatim>\<open>worktree.rs\<close>): what a paired
    device may list and read. A read stays inside an open folder and off private files whatever the
    disk has become, a listing shows only what a read could reach, and its answer fits its frames.
  \<^item> \<^verbatim>\<open>Remote_History\<close> (\<^verbatim>\<open>session_history.rs\<close>, the resume commands of \<^verbatim>\<open>agent_sessions\<close>): the pages of
    agent conversations a device is shown, each exactly once unless two share their id and their
    millisecond, and the resuming of exactly those.

  \<^bold>\<open>Bounds and termination.\<close> The loops of the code are structural recursion over what they iterate:
  lists, the three attempts of \<open>RESEAL_ATTEMPTS\<close> and \<open>MANIFEST_ATTEMPTS\<close>, the slots of a rotation. The
  one open-ended search, for a free path in the catalogue, is proved to end
  (\<^verbatim>\<open>Env_Catalogue.unique_path_spec\<close>). The JSON parser of \<^verbatim>\<open>Reference\<close> has its text's length as fuel,
  each call consuming a character. Stripping and splitting a path shortens it, and a device following
  the cursors of the session list is done after one page more than there are sessions at most.
  Sequence numbers, key versions and generations keep their width and wrap as a release build's do.

  \<^bold>\<open>Not modelled.\<close> Signing in (\<^verbatim>\<open>zode_account\<close>'s device flow and tokens): the sessions take the account
  as an interface, who is signed in and a context for requests or none. The rest of
  \<^verbatim>\<open>remote_relay_client\<close> and \<^verbatim>\<open>remote_control\<close>: sockets, reconnection, the mirrors of terminals and
  agents and the routing of their requests, which are tasks exchanging messages over channels, and
  diffs, which run \<^verbatim>\<open>git\<close>. The windows, which only render the sessions. Zeroing memory, logging and notifications.
  An operation of the sync and team sessions runs to its end as one step (a team refresh also in its
  two halves); only the environment session has its tasks interleaved. Everything inherited from the
  editor: buffers, language servers, Git, terminals, rendering.
\<close>

end
